(* ===== verification/Sat_Prelude.thy ===== *)
theory Sat_Prelude
  imports Complex_Main "HOL-Library.AList" "HOL-Library.Word"
begin

text \<open>
  The vocabulary every component of the model shares.

  \<^item> Python exceptions are values: a call that may raise returns
    \<open>'a result\<close>, \<open>Inl\<close> carrying the exception and \<open>Inr\<close> the returned value.
  \<^item> Python strings are HOL strings; \<open>dec\<close> is \<open>str\<close> on a natural number,
    \<open>py_int\<close> is \<open>int\<close> on a string (surrounding white space, a sign and single
    underscores between digits are accepted, as Python does), \<open>split_on\<close> is
    \<open>str.split\<close> with a one-character separator and \<open>py_join\<close> is \<open>str.join\<close>.
  \<^item> A Python \<open>dict\<close> iterates in insertion order, so it is an association list
    updated by \<open>AList.update\<close> (an existing key keeps its place, a new key goes
    last) and \<open>AList.delete\<close>; \<open>dict_ok\<close> says that no key occurs twice.

  Lemmas about results, strings and dicts are declared \<open>[simp]\<close> or collected
  in \<open>str_facts\<close> and \<open>dict_facts\<close>, so that the component proofs are short.
\<close>

named_theorems str_facts \<open>facts about decimal printing, parsing, split and join\<close>
named_theorems dict_facts \<open>facts about insertion-ordered dictionaries\<close>
named_theorems result_facts \<open>facts about results that may be exceptions\<close>

section \<open>Exceptions as values\<close>

datatype pyerr =
    ValueError string
  | RuntimeError string
  | KeyError string
  | TypeError string
  | OtherError string

type_synonym 'a result = "pyerr + 'a"

fun rbind :: "'a result \<Rightarrow> ('a \<Rightarrow> 'b result) \<Rightarrow> 'b result" where
  "rbind (Inl e) f = Inl e"
| "rbind (Inr x) f = f x"

fun rmap :: "('a \<Rightarrow> 'b result) \<Rightarrow> 'a list \<Rightarrow> 'b list result" where
  "rmap f [] = Inr []"
| "rmap f (x # xs) = rbind (f x) (\<lambda>y. rbind (rmap f xs) (\<lambda>ys. Inr (y # ys)))"

fun is_ok :: "'a result \<Rightarrow> bool" where
  "is_ok (Inl _) = False"
| "is_ok (Inr _) = True"

lemma is_ok_iff [result_facts]: "is_ok r \<longleftrightarrow> (\<exists>x. r = Inr x)"
  by (cases r) auto

lemma rbind_Inr_iff [simp, result_facts]:
  "rbind r f = Inr y \<longleftrightarrow> (\<exists>x. r = Inr x \<and> f x = Inr y)"
  by (cases r) auto

lemma rbind_InrE [elim]:
  assumes "rbind r f = Inr y"
  obtains x where "r = Inr x" "f x = Inr y"
  using assms by (cases r) auto

lemma rbind_Inl_iff [result_facts]:
  "rbind r f = Inl e \<longleftrightarrow> r = Inl e \<or> (\<exists>x. r = Inr x \<and> f x = Inl e)"
  by (cases r) auto

lemma rmap_length [result_facts]: "rmap f xs = Inr ys \<Longrightarrow> length ys = length xs"
  by (induction xs arbitrary: ys) auto

lemma rmap_Inr [result_facts]: "(\<And>x. x \<in> set xs \<Longrightarrow> f x = Inr (g x)) \<Longrightarrow> rmap f xs = Inr (map g xs)"
  by (induction xs) auto

section \<open>Strings\<close>

definition digit_char :: "nat \<Rightarrow> char" where
  "digit_char d = char_of (48 + d)"

definition is_digit :: "char \<Rightarrow> bool" where
  "is_digit c = (48 \<le> (of_char c :: nat) \<and> (of_char c :: nat) \<le> 57)"

definition digit_val :: "char \<Rightarrow> nat" where
  "digit_val c = of_char c - 48"

fun dec :: "nat \<Rightarrow> string" where
  "dec n = (if n < 10 then [digit_char n] else dec (n div 10) @ [digit_char (n mod 10)])"

declare dec.simps [simp del]

definition dec_int :: "int \<Rightarrow> string" where
  "dec_int i = (if i < 0 then CHR ''-'' # dec (nat (- i)) else dec (nat i))"

definition is_space :: "char \<Rightarrow> bool" where
  "is_space c = (let n = (of_char c :: nat)
     in 9 \<le> n \<and> n \<le> 13 \<or> 28 \<le> n \<and> n \<le> 32 \<or> n = 133 \<or> n = 160)"

definition py_strip :: "string \<Rightarrow> string" where
  "py_strip s = rev (dropWhile is_space (rev (dropWhile is_space s)))"

fun digits_from :: "nat \<Rightarrow> string \<Rightarrow> nat option" where
  "digits_from acc [] = Some acc"
| "digits_from acc [c] = (if is_digit c then Some (acc * 10 + digit_val c) else None)"
| "digits_from acc (c # d # cs) =
    (if is_digit c then digits_from (acc * 10 + digit_val c) (d # cs)
     else if c = CHR ''_'' \<and> is_digit d then digits_from (acc * 10 + digit_val d) cs
     else None)"

fun py_digits :: "string \<Rightarrow> nat option" where
  "py_digits [] = None"
| "py_digits (c # cs) = (if is_digit c then digits_from (digit_val c) cs else None)"

definition py_int :: "string \<Rightarrow> int option" where
  "py_int s = (case py_strip s of
      [] \<Rightarrow> None
    | c # cs \<Rightarrow>
        if c = CHR ''-'' then map_option (\<lambda>n. - int n) (py_digits cs)
        else if c = CHR ''+'' then map_option int (py_digits cs)
        else map_option int (py_digits (c # cs)))"

fun split_on :: "char \<Rightarrow> string \<Rightarrow> string list" where
  "split_on c [] = [[]]"
| "split_on c (x # xs) =
    (if x = c then [] # split_on c xs
     else (case split_on c xs of [] \<Rightarrow> [[x]] | p # ps \<Rightarrow> (x # p) # ps))"

fun py_join :: "string \<Rightarrow> string list \<Rightarrow> string" where
  "py_join sep [] = []"
| "py_join sep [x] = x"
| "py_join sep (x # y # ys) = x @ sep @ py_join sep (y # ys)"

fun contains :: "string \<Rightarrow> string \<Rightarrow> bool" where
  "contains p [] = (p = [])"
| "contains p (x # xs) = (take (length p) (x # xs) = p \<or> contains p xs)"

definition startswith :: "string \<Rightarrow> string \<Rightarrow> bool" where
  "startswith p s = (take (length p) s = p)"

definition endswith :: "string \<Rightarrow> string \<Rightarrow> bool" where
  "endswith p s = (length p \<le> length s \<and> drop (length s - length p) s = p)"

definition line_break :: "char \<Rightarrow> bool" where
  "line_break c = (let n = (of_char c :: nat) in 10 \<le> n \<and> n \<le> 13 \<or> 28 \<le> n \<and> n \<le> 30 \<or> n = 133)"

fun splitlines_from :: "string \<Rightarrow> string \<Rightarrow> string list" where
  "splitlines_from acc [] = (if acc = [] then [] else [rev acc])"
| "splitlines_from acc [c] = (if line_break c then [rev acc] else [rev (c # acc)])"
| "splitlines_from acc (c # d # cs) =
    (if of_char c = (13 :: nat) \<and> of_char d = (10 :: nat) then rev acc # splitlines_from [] cs
     else if line_break c then rev acc # splitlines_from [] (d # cs)
     else splitlines_from (c # acc) (d # cs))"

definition py_splitlines :: "string \<Rightarrow> string list" where
  "py_splitlines s = splitlines_from [] s"

subsection \<open>Decimal numerals\<close>

lemma of_char_digit [simp]: "d < 10 \<Longrightarrow> (of_char (digit_char d) :: nat) = 48 + d"
  by (simp add: digit_char_def)

lemma digit_char_01 [simp]:
  "digit_char 0 = CHR ''0''" "digit_char (Suc 0) = CHR ''1''" "digit_char 1 = CHR ''1''"
  by code_simp+

lemma is_digit_digit_char [simp]: "d < 10 \<Longrightarrow> is_digit (digit_char d)"
  by (simp add: is_digit_def)

lemma digit_val_digit_char [simp]: "d < 10 \<Longrightarrow> digit_val (digit_char d) = d"
  by (simp add: digit_val_def)

lemma is_digit_not_space: "is_digit c \<Longrightarrow> \<not> is_space c"
  by (auto simp: is_digit_def is_space_def)

lemma digit_not_char:
  "is_digit c \<Longrightarrow> c \<noteq> CHR ''.''" "is_digit c \<Longrightarrow> c \<noteq> CHR ''-''"
  "is_digit c \<Longrightarrow> c \<noteq> CHR ''+''" "is_digit c \<Longrightarrow> c \<noteq> CHR ''_''"
  "is_digit c \<Longrightarrow> c \<noteq> CHR ''/''" "is_digit c \<Longrightarrow> c \<noteq> CHR '' ''"
  by (auto simp: is_digit_def)

lemma dec_nonempty [simp]: "dec n \<noteq> []"
  by (subst dec.simps) simp

lemma dec_digits [str_facts]: "\<forall>c \<in> set (dec n). is_digit c"
proof (induction n rule: dec.induct)
  case (1 n)
  show ?case
  proof (cases "n < 10")
    case True
    then show ?thesis by (subst dec.simps) simp
  next
    case False
    with 1 have "\<forall>c \<in> set (dec (n div 10)). is_digit c" by simp
    with False show ?thesis by (subst dec.simps) simp
  qed
qed

lemma dec_no_nondigit: "\<not> is_digit c \<Longrightarrow> c \<notin> set (dec n)"
  using dec_digits [of n] by blast

lemma dec_no_char [simp, str_facts]:
  "CHR ''.'' \<notin> set (dec n)" "CHR ''-'' \<notin> set (dec n)" "CHR '' '' \<notin> set (dec n)"
  "CHR ''/'' \<notin> set (dec n)"
  by (rule dec_no_nondigit, simp add: is_digit_def)+

lemma digits_from_all:
  "\<forall>c \<in> set s. is_digit c \<Longrightarrow>
   digits_from acc s = Some (foldl (\<lambda>a c. a * 10 + digit_val c) acc s)"
proof (induction s arbitrary: acc)
  case (Cons c s)
  then have IH: "digits_from a s = Some (foldl (\<lambda>a c. a * 10 + digit_val c) a s)" for a by simp
  from Cons.prems have "is_digit c" by simp
  then show ?case using IH by (cases s) simp_all
qed simp

lemma foldl_dec: "foldl (\<lambda>a c. a * 10 + digit_val c) 0 (dec n) = n"
proof (induction n rule: dec.induct)
  case (1 n)
  show ?case
  proof (cases "n < 10")
    case True
    then show ?thesis by (subst dec.simps) simp
  next
    case False
    then show ?thesis using 1 by (subst dec.simps) simp
  qed
qed

lemma py_digits_dec [simp]: "py_digits (dec n) = Some n"
proof (cases "dec n")
  case (Cons c cs)
  then have d: "is_digit c" "\<forall>c \<in> set cs. is_digit c" using dec_digits [of n] by auto
  have "foldl (\<lambda>a c. a * 10 + digit_val c) (digit_val c) cs = n"
    using foldl_dec [of n] Cons by simp
  then show ?thesis using Cons d by (simp add: digits_from_all)
qed simp

lemma py_strip_digits: "\<forall>c \<in> set s. is_digit c \<Longrightarrow> py_strip s = s"
proof -
  assume a: "\<forall>c \<in> set s. is_digit c"
  have "dropWhile is_space t = t" if "\<forall>c \<in> set t. is_digit c" for t
    using that is_digit_not_space by (cases t) auto
  then show ?thesis using a by (simp add: py_strip_def)
qed

lemma py_int_dec [simp, str_facts]: "py_int (dec n) = Some (int n)"
proof -
  obtain c cs where c: "dec n = c # cs" by (cases "dec n") auto
  then have "is_digit c" using dec_digits [of n] by auto
  then have "c \<noteq> CHR ''-''" "c \<noteq> CHR ''+''" using digit_not_char by blast+
  moreover have "py_strip (dec n) = dec n" by (rule py_strip_digits [OF dec_digits])
  moreover have "py_digits (c # cs) = Some n" using c py_digits_dec [of n] by simp
  ultimately show ?thesis using c by (simp add: py_int_def)
qed

lemma dec_inject [simp, str_facts]: "dec m = dec n \<longleftrightarrow> m = n"
  by (metis option.inject py_digits_dec)

lemma dec_inject_prefix:
  assumes "dec m @ c # s = dec n @ c # t" "\<not> is_digit c"
  shows "m = n \<and> s = t"
proof -
  have nd: "c \<notin> set (dec m)" "c \<notin> set (dec n)" using assms(2) dec_digits by blast+
  have "takeWhile (\<lambda>x. x \<noteq> c) (dec m @ c # s) = dec m"
       "takeWhile (\<lambda>x. x \<noteq> c) (dec n @ c # t) = dec n"
    using nd by (simp_all add: takeWhile_append)
  then have "dec m = dec n" using assms(1) by simp
  then show ?thesis using assms(1) by simp
qed

lemma dec_int_nat [simp]: "dec_int (int n) = dec n"
  by (simp add: dec_int_def)

subsection \<open>Split and join\<close>

lemma split_on_nonempty [simp]: "split_on c s \<noteq> []"
  by (induction s) (auto split: list.splits)

lemma split_on_none [simp, str_facts]: "c \<notin> set s \<Longrightarrow> split_on c s = [s]"
  by (induction s) auto

lemma split_on_append [simp, str_facts]:
  "c \<notin> set a \<Longrightarrow> split_on c (a @ c # b) = a # split_on c b"
  by (induction a) auto

lemma split_on_join [str_facts]:
  "\<lbrakk>xs \<noteq> []; \<forall>x \<in> set xs. c \<notin> set x\<rbrakk> \<Longrightarrow> split_on c (py_join [c] xs) = xs"
proof (induction "[c]" xs rule: py_join.induct)
  case (3 x y ys)
  then show ?case by simp
qed simp_all

lemma py_join_split [str_facts]: "py_join [c] (split_on c s) = s"
proof (induction s)
  case (Cons x xs)
  obtain p ps where p: "split_on c xs = p # ps" using split_on_nonempty [of c xs] by (cases "split_on c xs") auto
  show ?case using Cons p by (cases ps) auto
qed simp

section \<open>Dictionaries in insertion order\<close>

type_synonym ('k, 'v) dict = "('k \<times> 'v) list"

abbreviation dict_get :: "('k, 'v) dict \<Rightarrow> 'k \<Rightarrow> 'v option" where
  "dict_get \<equiv> map_of"

abbreviation dict_set :: "'k \<Rightarrow> 'v \<Rightarrow> ('k, 'v) dict \<Rightarrow> ('k, 'v) dict" where
  "dict_set \<equiv> AList.update"

abbreviation dict_pop :: "'k \<Rightarrow> ('k, 'v) dict \<Rightarrow> ('k, 'v) dict" where
  "dict_pop \<equiv> AList.delete"

abbreviation dict_keys :: "('k, 'v) dict \<Rightarrow> 'k list" where
  "dict_keys d \<equiv> map fst d"

abbreviation dict_vals :: "('k, 'v) dict \<Rightarrow> 'v list" where
  "dict_vals d \<equiv> map snd d"

abbreviation dict_ok :: "('k, 'v) dict \<Rightarrow> bool" where
  "dict_ok d \<equiv> distinct (map fst d)"

definition dict_get_or :: "('k, 'v) dict \<Rightarrow> 'k \<Rightarrow> 'v \<Rightarrow> 'v" where
  "dict_get_or d k v = (case map_of d k of Some w \<Rightarrow> w | None \<Rightarrow> v)"

definition dict_of :: "('k \<times> 'v) list \<Rightarrow> ('k, 'v) dict" where
  "dict_of kvs = foldl (\<lambda>d (k, v). dict_set k v d) [] kvs"

lemma dict_get_set [simp, dict_facts]: "dict_get (dict_set k v d) k' = (if k' = k then Some v else dict_get d k')"
  by (simp add: update_conv')

lemma dict_get_pop [simp, dict_facts]: "dict_get (dict_pop k d) k' = (if k' = k then None else dict_get d k')"
  by (simp add: delete_conv')

lemma dict_ok_set [simp, dict_facts]: "dict_ok d \<Longrightarrow> dict_ok (dict_set k v d)"
  by (rule distinct_update)

lemma dict_ok_pop [simp, dict_facts]: "dict_ok d \<Longrightarrow> dict_ok (dict_pop k d)"
  by (simp add: distinct_delete)

lemma dict_keys_set [simp, dict_facts]: "set (dict_keys (dict_set k v d)) = insert k (set (dict_keys d))"
  by (auto simp: dom_update)

lemma dict_keys_pop [simp, dict_facts]: "set (dict_keys (dict_pop k d)) = set (dict_keys d) - {k}"
  by (induction d) auto

lemma dict_get_None [dict_facts]: "dict_get d k = None \<longleftrightarrow> k \<notin> set (dict_keys d)"
  by (simp add: map_of_eq_None_iff)

lemma dict_get_in: "dict_ok d \<Longrightarrow> dict_get d k = Some v \<longleftrightarrow> (k, v) \<in> set d"
  by (simp add: map_of_eq_Some_iff)

lemma fst_in_keys: "(k, v) \<in> set d \<Longrightarrow> k \<in> fst ` set d"
  by force

lemma dict_pop_absent [simp, dict_facts]: "k \<notin> set (dict_keys d) \<Longrightarrow> dict_pop k d = d"
  by (induction d) auto

lemma dict_of_snoc: "dict_of (kvs @ [(k, v)]) = dict_set k v (dict_of kvs)"
  by (simp add: dict_of_def)

lemma dict_of_Nil [simp]: "dict_of [] = []"
  by (simp add: dict_of_def)

lemma dict_ok_dict_of [simp, dict_facts]: "dict_ok (dict_of kvs)"
  by (induction kvs rule: rev_induct) (auto simp: dict_of_snoc split: prod.splits)

lemma dict_get_dict_of [dict_facts]: "dict_get (dict_of kvs) = map_of (rev kvs)"
proof (induction kvs rule: rev_induct)
  case (snoc x xs)
  then show ?case by (cases x) (auto simp: dict_of_snoc fun_eq_iff)
qed simp

lemma dict_get_dict_of_distinct [dict_facts]: "distinct (map fst kvs) \<Longrightarrow> dict_get (dict_of kvs) = dict_get kvs"
proof -
  assume d: "distinct (map fst kvs)"
  then have "distinct (map fst (rev kvs))" by (simp add: rev_map [symmetric])
  then have "map_of (rev kvs) = map_of kvs" using d by (intro map_of_eqI) auto
  then show ?thesis by (simp add: dict_get_dict_of)
qed

lemma set_dict_of_subset: "set (dict_of kvs) \<subseteq> set kvs"
proof
  fix p assume "p \<in> set (dict_of kvs)"
  then have "dict_get (dict_of kvs) (fst p) = Some (snd p)"
    by (metis dict_ok_dict_of map_of_is_SomeI prod.collapse)
  then have "map_of (rev kvs) (fst p) = Some (snd p)" by (simp add: dict_get_dict_of)
  then show "p \<in> set kvs" using map_of_SomeD by fastforce
qed

lemma dict_get_map [simp, dict_facts]:
  "dict_get (map (\<lambda>(k, v). (k, f k v)) d) k = map_option (f k) (dict_get d k)"
  by (induction d) auto

lemma dict_keys_map [simp, dict_facts]: "map (fst \<circ> (\<lambda>(k, v). (k, f k v))) d = dict_keys d"
  by (induction d) auto

lemma dict_keys_set_present [dict_facts]: "k \<in> set (dict_keys d) \<Longrightarrow> dict_keys (dict_set k v d) = dict_keys d"
  by (induction d) auto

section \<open>Folds\<close>

lemma foldl_rel:
  assumes "\<And>s. R s s" "\<And>a b c. R a b \<Longrightarrow> R b c \<Longrightarrow> R a c" "\<And>s x. x \<in> set xs \<Longrightarrow> R s (f s x)"
  shows "R s (foldl f s xs)"
  using assms(3)
proof (induction xs arbitrary: s)
  case (Cons x xs)
  then have "R s (f s x)" "R (f s x) (foldl f (f s x) xs)" by simp_all
  then show ?case using assms(2) by simp
qed (simp add: assms(1))

section \<open>Stable sorting\<close>

lemma sort_key_map: "sort_key f (map h xs) = map h (sort_key (f \<circ> h) xs)"
proof -
  have "insort_key f (h x) (map h ys) = map h (insort_key (f \<circ> h) x ys)" for x ys
    by (induction ys) auto
  then show ?thesis by (induction xs) auto
qed

section \<open>White space and lines\<close>

definition trimmed :: "string \<Rightarrow> bool" where
  "trimmed s = (s \<noteq> [] \<and> \<not> is_space (hd s) \<and> \<not> is_space (last s))"

lemma py_strip_trimmed [simp, str_facts]: "trimmed s \<Longrightarrow> py_strip s = s"
proof -
  assume t: "trimmed s"
  then have "dropWhile is_space s = s" by (cases s) (auto simp: trimmed_def)
  moreover have "dropWhile is_space (rev s) = rev s"
    using t by (cases s rule: rev_cases) (auto simp: trimmed_def)
  ultimately show "py_strip s = s" by (simp add: py_strip_def)
qed

lemma py_strip_snoc_space [str_facts]: "is_space c \<Longrightarrow> py_strip (s @ [c]) = py_strip s"
proof (cases "\<forall>x \<in> set s. is_space x")
  case True
  moreover assume "is_space c"
  ultimately have "dropWhile is_space s = []" "dropWhile is_space (s @ [c]) = []"
    by (simp_all add: dropWhile_eq_Nil_conv)
  then show ?thesis unfolding py_strip_def by (simp only: rev.simps(1) dropWhile.simps(1))
next
  case False
  moreover assume "is_space c"
  ultimately show ?thesis by (auto simp: py_strip_def dropWhile_append)
qed

abbreviation newline :: char where
  "newline \<equiv> CHR 0x0A"

lemma newline_facts [simp, str_facts]: "line_break newline" "is_space newline" "of_char newline = (10 :: nat)"
  by (simp_all add: line_break_def is_space_def)

lemma splitlines_from_line:
  assumes "\<forall>c \<in> set l. \<not> line_break c"
  shows "splitlines_from acc (l @ newline # r) = (rev acc @ l) # splitlines_from [] r"
  using assms
proof (induction l arbitrary: acc)
  case Nil
  then show ?case by (cases r) simp_all
next
  case (Cons c l)
  then have "of_char c \<noteq> (13 :: nat)" by (auto simp: line_break_def)
  with Cons show ?case by (cases "l @ newline # r") simp_all
qed

lemma splitlines_last:
  assumes "\<forall>c \<in> set l. \<not> line_break c"
  shows "splitlines_from acc l = (if acc = [] \<and> l = [] then [] else [rev acc @ l])"
  using assms
proof (induction acc l rule: splitlines_from.induct)
  case (3 acc c d cs)
  then have "of_char c \<noteq> (13 :: nat)" by (auto simp: line_break_def)
  with 3 show ?case by simp
qed auto

lemma splitlines_join [str_facts]:
  assumes "\<forall>l \<in> set ls. l \<noteq> [] \<and> (\<forall>c \<in> set l. \<not> line_break c)"
  shows "py_splitlines (py_join [newline] ls) = ls"
  using assms
proof (induction ls rule: induct_list012)
  case (2 l)
  then show ?case by (simp add: py_splitlines_def splitlines_last)
next
  case (3 l m ls)
  then show ?case by (simp add: py_splitlines_def splitlines_from_line)
qed (simp add: py_splitlines_def)

lemma concat_lines_join:
  "ls \<noteq> [] \<Longrightarrow> concat (map (\<lambda>l. l @ [c]) ls) = py_join [c] ls @ [c]"
  by (induction ls rule: induct_list012) auto

lemma join_trimmed:
  assumes "ls \<noteq> []" "\<forall>l \<in> set ls. trimmed l"
  shows "trimmed (py_join [c] ls)"
  using assms
proof (induction ls rule: induct_list012)
  case (3 l m ls)
  then have "trimmed (py_join [c] (m # ls))" by simp
  with 3 show ?case by (auto simp: trimmed_def)
qed auto

text \<open>A text of trimmed lines, each ended by a newline, is read back as these lines.\<close>

lemma strip_splitlines_lines [str_facts]:
  assumes "\<forall>l \<in> set ls. trimmed l \<and> (\<forall>c \<in> set l. \<not> line_break c)"
  shows "py_splitlines (py_strip (concat (map (\<lambda>l. l @ [newline]) ls))) = ls"
proof (cases "ls = []")
  case True
  then show ?thesis by (simp add: py_splitlines_def py_strip_def)
next
  case False
  then have "py_strip (concat (map (\<lambda>l. l @ [newline]) ls)) = py_join [newline] ls"
    using assms join_trimmed [of ls newline] by (simp add: concat_lines_join py_strip_snoc_space)
  moreover have "\<forall>l \<in> set ls. l \<noteq> [] \<and> (\<forall>c \<in> set l. \<not> line_break c)"
    using assms by (auto simp: trimmed_def)
  ultimately show ?thesis by (simp add: splitlines_join)
qed

end
