(* ===== verification/IP_Utils.thy ===== *)
theory IP_Utils
  imports Sat_Prelude
begin

text \<open>
  IPv4 addressing (\<open>utils/ip_utils.py\<close>) and the controller-plane address of
  \<open>services/mixins/controller.py\<close>.

  An address is built as a string of 32 binary digits, printed as a dotted quad
  by \<open>quaddot\<close>, and parsed back to octets by \<open>summarize_ipv4_address\<close> and
  \<open>ipv4_to_binary\<close>. The \<open>lru_cache\<close> decorators memoise pure functions and do
  not change a result. The central lemma is \<open>summarize_quaddot\<close>: summarising the
  printed form of a 32-bit string to a prefix keeps its first bits and clears the
  rest, although the code works on parsed octets, shifts and masks.
\<close>

unbundle bit_operations_syntax

section \<open>Binary numerals\<close>

text \<open>\<open>f"{n:b}"\<close>, \<open>f"{n:0>wb}"\<close> and \<open>int(s, 2)\<close> on strings of binary digits.\<close>

fun bin :: "nat \<Rightarrow> string" where
  "bin n = (if n < 2 then [digit_char n] else bin (n div 2) @ [digit_char (n mod 2)])"

declare bin.simps [simp del]

definition zfill :: "nat \<Rightarrow> string \<Rightarrow> string" where
  "zfill w s = replicate (w - length s) (CHR ''0'') @ s"

abbreviation bit_chars :: "string \<Rightarrow> bool" where
  "bit_chars s \<equiv> list_all (\<lambda>c. c = CHR ''0'' \<or> c = CHR ''1'') s"

fun bit_value :: "char \<Rightarrow> int" where
  "bit_value c = (if c = CHR ''1'' then 1 else 0)"

definition bval :: "string \<Rightarrow> int" where
  "bval s = foldl (\<lambda>a c. 2 * a + bit_value c) 0 s"

definition int2 :: "string \<Rightarrow> int option" where
  "int2 s = (if s \<noteq> [] \<and> bit_chars s then Some (bval s) else None)"

definition fmt_bin :: "nat \<Rightarrow> int \<Rightarrow> string" where
  "fmt_bin w n = zfill w (bin (nat n))"

section \<open>The functions of IPUtils\<close>

definition quaddot :: "string \<Rightarrow> string result" where
  "quaddot b =
    (case (int2 (take 8 b), int2 (take 8 (drop 8 b)), int2 (take 8 (drop 16 b)), int2 (drop 24 b)) of
      (Some o1, Some o2, Some o3, Some o4) \<Rightarrow>
        Inr (dec_int o1 @ ''.'' @ dec_int o2 @ ''.'' @ dec_int o3 @ ''.'' @ dec_int o4)
    | _ \<Rightarrow> Inl (ValueError ''invalid literal for int() with base 2''))"

definition is_valid_ipv4 :: "string \<Rightarrow> bool" where
  "is_valid_ipv4 ip = (let parts = split_on (CHR ''.'') ip in
     length parts = 4 \<and>
     list_all (\<lambda>part. part \<noteq> [] \<and>
       (case py_int part of Some v \<Rightarrow> 0 \<le> v \<and> v \<le> 255 | None \<Rightarrow> False)) parts)"

definition owner_code :: "string \<Rightarrow> string option" where
  "owner_code ty =
    (if ty = ''Satellite'' then Some ''10''
     else if ty = ''GroundStation'' then Some ''01''
     else if ty = ''UserTerminal'' then Some ''11''
     else None)"

definition base_bits :: "string \<Rightarrow> int \<Rightarrow> bool \<Rightarrow> int \<Rightarrow> string" where
  "base_bits oc node loopback peer =
     oc @ fmt_bin 13 node @ (if loopback then ''1'' else ''0'') @ fmt_bin 13 peer @ ''1'' @ ''0''"

definition get_ipv4_address :: "int \<Rightarrow> int \<Rightarrow> string \<Rightarrow> bool \<Rightarrow> (string \<times> string) result" where
  "get_ipv4_address node peer ty loopback =
    (case owner_code ty of
      None \<Rightarrow> Inl (ValueError ''Type must be either Satellite, GroundStation or UserTerminal'')
    | Some oc \<Rightarrow>
        if \<not> (0 \<le> node \<and> node < 2 ^ 13) then Inl (ValueError ''Node must be between 0 and 16383.'')
        else if \<not> (0 \<le> peer \<and> peer < 2 ^ 13) then Inl (ValueError ''Peer must be between 0 and 16383.'')
        else let base = base_bits oc node loopback peer;
                 (d1, d2) = (if node < peer then (''0'', ''1'') else (''1'', ''0''))
          in rbind (quaddot (base @ d1)) (\<lambda>first_ip.
             rbind (quaddot (base @ d2)) (\<lambda>second_ip.
             if \<not> is_valid_ipv4 first_ip \<or> \<not> is_valid_ipv4 second_ip
             then Inl (ValueError ''Generated IP addresses are not valid IPv4 addresses.'')
             else Inr (first_ip, second_ip))))"

definition parse_octets :: "string \<Rightarrow> int list result" where
  "parse_octets ip = (let parts = split_on (CHR ''.'') ip; octets = map py_int parts in
     if length parts \<noteq> 4 then Inl (ValueError ''Invalid IPv4 address.'')
     else if \<not> list_all (\<lambda>v. v \<noteq> None) octets then Inl (ValueError ''Invalid IPv4 address.'')
     else if \<not> list_all (\<lambda>v. 0 \<le> the v \<and> the v \<le> 255) octets then Inl (ValueError ''Invalid IPv4 address.'')
     else Inr (map the octets))"

definition ipv4_to_binary :: "string \<Rightarrow> string result" where
  "ipv4_to_binary ip = rbind (parse_octets ip) (\<lambda>os. Inr (concat (map (fmt_bin 8) os)))"

definition ip_int_of :: "int list \<Rightarrow> int" where
  "ip_int_of os = (((push_bit 24 (os ! 0) OR push_bit 16 (os ! 1)) OR push_bit 8 (os ! 2)) OR (os ! 3))"

definition summarize_ipv4_address :: "string \<Rightarrow> int \<Rightarrow> string result" where
  "summarize_ipv4_address ip pfx =
    (if \<not> (0 \<le> pfx \<and> pfx \<le> 32) then Inl (ValueError ''Prefix must be between 0 and 32.'')
     else rbind (parse_octets ip) (\<lambda>os.
       let mask = push_bit (nat (32 - pfx)) 0xFFFFFFFF;
           ip_int = ip_int_of os AND mask
       in Inr (dec_int (drop_bit 24 ip_int AND 0xFF) @ ''.'' @
               dec_int (drop_bit 16 ip_int AND 0xFF) @ ''.'' @
               dec_int (drop_bit 8 ip_int AND 0xFF) @ ''.'' @
               dec_int (ip_int AND 0xFF))))"

definition build_controller_ip :: "int \<Rightarrow> string result" where
  "build_controller_ip node_id =
    (if node_id < 0 \<or> node_id > 0x1FFF then Inl (ValueError ''node_id must be an integer in [0, 8191]'')
     else quaddot (''11111'' @ fmt_bin 13 0 @ fmt_bin 13 node_id @ ''1''))"

section \<open>Binary strings as numbers\<close>

lemma bval_Nil [simp]: "bval [] = 0"
  by (simp add: bval_def)

lemma bval_snoc [simp]: "bval (s @ [c]) = 2 * bval s + bit_value c"
  by (simp add: bval_def)

lemma bval_append: "bval (a @ b) = bval a * 2 ^ length b + bval b"
proof (induction b rule: rev_induct)
  case (snoc c b)
  have "bval (a @ b @ [c]) = bval ((a @ b) @ [c])" by simp
  also have "\<dots> = 2 * bval (a @ b) + bit_value c" by (rule bval_snoc)
  finally show ?case using snoc by (simp add: algebra_simps)
qed simp

lemma bval_bounds: "0 \<le> bval s \<and> bval s < 2 ^ length s"
  by (induction s rule: rev_induct) (auto simp del: bit_value.simps simp: bit_value.simps)

lemmas bval_nonneg [simp] = bval_bounds [THEN conjunct1]
lemmas bval_less = bval_bounds [THEN conjunct2]

lemma bval_take_drop: "bval s = bval (take k s) * 2 ^ (length s - k) + bval (drop k s)"
  using bval_append [of "take k s" "drop k s"] by simp

lemma bval_div: "k \<le> length s \<Longrightarrow> bval s div 2 ^ k = bval (take (length s - k) s)"
  using bval_take_drop [of s "length s - k"] bval_less [of "drop (length s - k) s"]
  by (simp add: div_mult_self3 algebra_simps)

lemma bval_mod: "k \<le> length s \<Longrightarrow> bval s mod 2 ^ k = bval (drop (length s - k) s)"
  using bval_take_drop [of s "length s - k"] bval_less [of "drop (length s - k) s"]
  by simp

lemma bval_zeros [simp]: "bval (replicate k (CHR ''0'')) = 0"
  by (induction k) (simp_all add: bval_append [of "[CHR ''0'']", simplified] bval_def)

lemma bval_inject:
  "\<lbrakk>length s = length t; bit_chars s; bit_chars t; bval s = bval t\<rbrakk> \<Longrightarrow> s = t"
proof (induction s arbitrary: t rule: rev_induct)
  case (snoc c s)
  then obtain t' d where t: "t = t' @ [d]" by (cases t rule: rev_exhaust) auto
  from snoc.prems t have cd: "c \<in> {CHR ''0'', CHR ''1''}" "d \<in> {CHR ''0'', CHR ''1''}" by auto
  from snoc.prems(4) t have e: "2 * bval s + bit_value c = 2 * bval t' + bit_value d" by simp
  have "bit_value c = bit_value d" using e cd by (auto; presburger)
  with cd have "c = d" by auto
  moreover from e \<open>bit_value c = bit_value d\<close> have "bval s = bval t'" by simp
  ultimately show ?case using snoc t by simp
qed simp

lemma bit_chars_bin: "bit_chars (bin n)"
proof (induction n rule: bin.induct)
  case (1 n)
  have d: "digit_char k = CHR ''0'' \<or> digit_char k = CHR ''1''" if "k < 2" for k
    using that by (auto simp: less_2_cases_iff)
  show ?case
    using 1 d [of n] d [of "n mod 2"] by (subst bin.simps) auto
qed

lemma bval_bin: "bval (bin n) = int n"
proof (induction n rule: bin.induct)
  case (1 n)
  have d: "bit_value (digit_char k) = int k" if "k < 2" for k
    using that by (auto simp: less_2_cases_iff)
  show ?case
  proof (cases "n < 2")
    case True
    then show ?thesis using d [of n] bval_snoc [of "[]" "digit_char n"] by (subst bin.simps) simp
  next
    case False
    have "int (2 * (n div 2) + n mod 2) = int n" by (simp only: mult_div_mod_eq)
    then have m: "2 * int (n div 2) + int (n mod 2) = int n"
      by (simp only: of_nat_add of_nat_mult of_nat_numeral)
    have "bval (bin n) = bval (bin (n div 2) @ [digit_char (n mod 2)])"
      using False by (subst bin.simps) simp
    also have "\<dots> = 2 * bval (bin (n div 2)) + bit_value (digit_char (n mod 2))"
      by (rule bval_snoc)
    also have "\<dots> = 2 * int (n div 2) + int (n mod 2)"
      using False 1 d [of "n mod 2"] by simp
    finally show ?thesis using m by simp
  qed
qed

lemma length_bin: "n < 2 ^ w \<Longrightarrow> 0 < w \<Longrightarrow> length (bin n) \<le> w"
proof (induction n arbitrary: w rule: bin.induct)
  case (1 n)
  show ?case
  proof (cases "n < 2")
    case True
    then show ?thesis using 1(3) by (subst bin.simps) simp
  next
    case False
    then obtain v where w: "w = Suc v" "0 < v" using 1(2,3) by (cases w; cases "w = 1") auto
    then have "length (bin (n div 2)) \<le> v" using 1 False by auto
    then show ?thesis using False w by (subst bin.simps) simp
  qed
qed

lemma zfill_props:
  "bval (zfill w s) = bval s" "bit_chars s \<Longrightarrow> bit_chars (zfill w s)"
  "length s \<le> w \<Longrightarrow> length (zfill w s) = w"
proof -
  show "bit_chars (zfill w s)" if "bit_chars s"
    using that by (simp add: zfill_def list_all_iff ball_Un set_replicate_conv_if)
qed (simp_all add: zfill_def bval_append)

lemma fmt_bin_length: "\<lbrakk>0 \<le> n; n < 2 ^ w; 0 < w\<rbrakk> \<Longrightarrow> length (fmt_bin w n) = w"
  unfolding fmt_bin_def
  by (intro zfill_props length_bin) (auto simp: nat_less_iff)

lemma fmt_bin_bits [simp]: "bit_chars (fmt_bin w n)"
  by (simp add: fmt_bin_def zfill_props bit_chars_bin)

lemma bval_fmt_bin [simp]: "0 \<le> n \<Longrightarrow> bval (fmt_bin w n) = n"
  by (simp add: fmt_bin_def zfill_props bval_bin)

lemma fmt_bin_inject:
  "\<lbrakk>fmt_bin w m = fmt_bin w n; 0 \<le> m; 0 \<le> n\<rbrakk> \<Longrightarrow> m = n"
  by (metis bval_fmt_bin)

lemma fmt_bin_bval:
  "\<lbrakk>bit_chars s; s \<noteq> []\<rbrakk> \<Longrightarrow> fmt_bin (length s) (bval s) = s"
  using bval_less [of s]
  by (intro bval_inject) (simp_all add: fmt_bin_length)

section \<open>Parsing the printed form\<close>

lemma bit_chars_take_drop [simp]:
  "bit_chars s \<Longrightarrow> bit_chars (take k s)" "bit_chars s \<Longrightarrow> bit_chars (drop k s)"
  by (auto simp: list_all_iff dest: in_set_takeD in_set_dropD)

lemma dec_int_facts:
  assumes "0 \<le> v"
  shows "py_int (dec_int v) = Some v" "CHR ''.'' \<notin> set (dec_int v)" "dec_int v \<noteq> []"
  using assms by (simp_all add: dec_int_def)

lemma dec_int_inject: "\<lbrakk>0 \<le> v; 0 \<le> w; dec_int v = dec_int w\<rbrakk> \<Longrightarrow> v = w"
  by (metis dec_int_facts(1) option.inject)

definition octets_of :: "string \<Rightarrow> int list" where
  "octets_of b = [bval (take 8 b), bval (take 8 (drop 8 b)), bval (take 8 (drop 16 b)), bval (drop 24 b)]"

definition dotted :: "int list \<Rightarrow> string" where
  "dotted os = py_join ''.'' (map dec_int os)"

abbreviation bits32 :: "string \<Rightarrow> bool" where
  "bits32 b \<equiv> length b = 32 \<and> bit_chars b"

lemma octets_of_bounds: "bits32 b \<Longrightarrow> v \<in> set (octets_of b) \<Longrightarrow> 0 \<le> v \<and> v \<le> 255"
  using bval_less [of "take 8 b"] bval_less [of "take 8 (drop 8 b)"]
    bval_less [of "take 8 (drop 16 b)"] bval_less [of "drop 24 b"]
  by (auto simp: octets_of_def)

lemma quaddot_bits: "bits32 b \<Longrightarrow> quaddot b = Inr (dotted (octets_of b))"
proof -
  assume b: "bits32 b"
  then have "take 8 b \<noteq> []" "take 8 (drop 8 b) \<noteq> []" "take 8 (drop 16 b) \<noteq> []" "drop 24 b \<noteq> []"
    by (auto simp del: take_eq_Nil simp flip: length_greater_0_conv)
  with b show ?thesis
    by (simp add: quaddot_def int2_def dotted_def octets_of_def)
qed

lemma split_dotted:
  "\<lbrakk>os \<noteq> []; \<forall>v \<in> set os. 0 \<le> v\<rbrakk> \<Longrightarrow> split_on (CHR ''.'') (dotted os) = map dec_int os"
  unfolding dotted_def by (rule split_on_join) (auto simp: dec_int_facts)

lemma parse_dotted:
  assumes "length os = 4" "\<forall>v \<in> set os. 0 \<le> v \<and> v \<le> 255"
  shows "parse_octets (dotted os) = Inr os"
proof -
  have s: "split_on (CHR ''.'') (dotted os) = map dec_int os"
    using assms by (intro split_dotted) auto
  have m: "map py_int (map dec_int os) = map Some os"
    using assms by (auto simp: dec_int_facts)
  show ?thesis
    unfolding parse_octets_def Let_def s m using assms
    by (simp add: list_all_iff comp_def)
qed

lemma valid_dotted:
  assumes "length os = 4" "\<forall>v \<in> set os. 0 \<le> v \<and> v \<le> 255"
  shows "is_valid_ipv4 (dotted os)"
proof -
  have s: "split_on (CHR ''.'') (dotted os) = map dec_int os"
    using assms by (intro split_dotted) auto
  show ?thesis unfolding is_valid_ipv4_def Let_def s using assms
    by (auto simp: list_all_iff dec_int_facts)
qed

lemma parse_quaddot: "bits32 b \<Longrightarrow> parse_octets (dotted (octets_of b)) = Inr (octets_of b)"
  using octets_of_bounds [of b] by (intro parse_dotted) (auto simp: octets_of_def)

lemma valid_quaddot: "bits32 b \<Longrightarrow> is_valid_ipv4 (dotted (octets_of b))"
  using octets_of_bounds [of b] by (intro valid_dotted) (auto simp: octets_of_def)

section \<open>Shifts and masks of the summary\<close>

lemma push_or: "\<lbrakk>0 \<le> v; v < 2 ^ n\<rbrakk> \<Longrightarrow> push_bit n u OR v = u * 2 ^ n + (v :: int)"
proof -
  assume v: "0 \<le> v" "v < 2 ^ n"
  then have "take_bit n v = v" by (simp add: take_bit_int_eq_self_iff)
  then have "concat_bit n v u = push_bit n u OR v" by (simp add: concat_bit_def or.commute)
  moreover have "concat_bit n v u = take_bit n v + push_bit n u" by (rule concat_bit_eq)
  ultimately show ?thesis using \<open>take_bit n v = v\<close> by (simp add: push_bit_eq_mult)
qed

lemma ip_int_of_bytes:
  assumes "0 \<le> b" "b < 256" "0 \<le> c" "c < 256" "0 \<le> d" "d < 256"
  shows "ip_int_of [a, b, c, d] = ((a * 256 + b) * 256 + c) * 256 + d"
proof -
  have "ip_int_of [a, b, c, d] = push_bit 8 (push_bit 8 (push_bit 8 a OR b) OR c) OR d"
    by (simp add: ip_int_of_def push_bit_or)
  then show ?thesis
    using push_or [of b 8 a] push_or [of c 8] push_or [of d 8] assms by simp
qed

lemma ip_int_octets: "bits32 b \<Longrightarrow> ip_int_of (octets_of b) = bval b"
proof -
  assume b: "bits32 b"
  define a0 a1 a2 a3 where a: "a0 = take 8 b" "a1 = take 8 (drop 8 b)"
    "a2 = take 8 (drop 16 b)" "a3 = drop 24 b"
  have "b = a0 @ a1 @ a2 @ a3"
    using append_take_drop_id [of 8 b] append_take_drop_id [of 8 "drop 8 b"]
      append_take_drop_id [of 8 "drop 16 b"] unfolding a by simp
  moreover have "length a1 = 8" "length a2 = 8" "length a3 = 8" using b by (simp_all add: a)
  moreover have "bval b = ((bval a0 * 256 + bval a1) * 256 + bval a2) * 256 + bval a3"
    using calculation by (simp add: bval_append algebra_simps)
  moreover have "ip_int_of [bval a0, bval a1, bval a2, bval a3] =
      ((bval a0 * 256 + bval a1) * 256 + bval a2) * 256 + bval a3"
    using calculation bval_less [of a1] bval_less [of a2] bval_less [of a3]
    by (intro ip_int_of_bytes) simp_all
  ultimately show ?thesis by (simp add: octets_of_def a)
qed

lemma and_high_mask:
  assumes "0 \<le> v" "v < 2 ^ 32" "k \<le> 32"
  shows "v AND push_bit k 0xFFFFFFFF = v div 2 ^ k * (2 ^ k :: int)"
proof -
  have m: "(0xFFFFFFFF :: int) = mask 32" by (simp add: mask_eq_exp_minus_1)
  have t: "take_bit 32 v = v" using assms by (simp add: take_bit_int_eq_self_iff)
  have hi: "bit v n \<Longrightarrow> n < 32" for n
    using t bit_take_bit_iff [of 32 v n] by simp
  have "v AND push_bit k (mask 32) = push_bit k (drop_bit k v)"
    by (rule bit_eqI) (auto simp: bit_and_iff bit_push_bit_iff bit_drop_bit_eq bit_mask_iff dest: hi)
  then show ?thesis using m by (simp add: push_bit_eq_mult drop_bit_eq_div)
qed

lemma byte_of: "(v :: int) AND 0xFF = v mod 256"
proof -
  have "(0xFF :: int) = mask 8" by (simp add: mask_eq_exp_minus_1)
  then have "v AND 0xFF = take_bit 8 v" by (simp only: take_bit_eq_mask)
  then show ?thesis by (simp add: take_bit_eq_mod)
qed

lemma octet_extract:
  assumes "bits32 c"
  shows "drop_bit 24 (bval c) AND 0xFF = bval (take 8 c)"
    "drop_bit 16 (bval c) AND 0xFF = bval (take 8 (drop 8 c))"
    "drop_bit 8 (bval c) AND 0xFF = bval (take 8 (drop 16 c))"
    "bval c AND 0xFF = bval (drop 24 c)"
proof -
  have step: "drop_bit k (bval c) AND 0xFF = bval (drop (24 - k) (take (32 - k) c))" if "k \<le> 24" for k
  proof -
    have "drop_bit k (bval c) = bval (take (32 - k) c)"
      using assms that bval_div [of k c] by (simp add: drop_bit_eq_div)
    moreover have "length (take (32 - k) c) = 32 - k" "32 - k - 8 = 24 - k" "8 \<le> 32 - k"
      using assms that by simp_all
    moreover from this have "bval (take (32 - k) c) mod 2 ^ 8 = bval (drop (24 - k) (take (32 - k) c))"
      using bval_mod [of 8 "take (32 - k) c"] by metis
    ultimately show ?thesis by (simp add: byte_of)
  qed
  show "drop_bit 24 (bval c) AND 0xFF = bval (take 8 c)" using step [of 24] by simp
  show "drop_bit 16 (bval c) AND 0xFF = bval (take 8 (drop 8 c))" using step [of 16] by (simp add: drop_take)
  show "drop_bit 8 (bval c) AND 0xFF = bval (take 8 (drop 16 c))" using step [of 8] by (simp add: drop_take)
  show "bval c AND 0xFF = bval (drop 24 c)" using step [of 0] assms by simp
qed

definition clear_after :: "nat \<Rightarrow> string \<Rightarrow> string" where
  "clear_after p b = take p b @ replicate (length b - p) (CHR ''0'')"

lemma clear_after_bits: "bits32 b \<Longrightarrow> bits32 (clear_after p b)"
  by (simp add: clear_after_def list_all_iff ball_Un set_replicate_conv_if) (meson in_set_takeD)

lemma bval_clear_after: "\<lbrakk>bits32 b; p \<le> 32\<rbrakk> \<Longrightarrow> bval (clear_after p b) = bval b div 2 ^ (32 - p) * 2 ^ (32 - p)"
  using bval_div [of "32 - p" b] by (simp add: clear_after_def bval_append)

lemma summarize_quaddot:
  assumes "bits32 b" "p \<le> 32"
  shows "summarize_ipv4_address (dotted (octets_of b)) (int p) = Inr (dotted (octets_of (clear_after p b)))"
proof -
  let ?c = "clear_after p b"
  have c: "bits32 ?c" by (rule clear_after_bits [OF assms(1)])
  have v: "bval b < 2 ^ 32" using bval_less [of b] assms(1) by simp
  have k: "nat (32 - int p) = 32 - p" by simp
  have m: "ip_int_of (octets_of b) AND push_bit (nat (32 - int p)) 0xFFFFFFFF = bval ?c"
    using and_high_mask [OF _ v, of "32 - p"] assms ip_int_octets [of b]
    by (simp add: bval_clear_after k)
  have p: "\<not> \<not> (0 \<le> int p \<and> int p \<le> 32)" using assms(2) by simp
  show ?thesis
    unfolding summarize_ipv4_address_def if_not_P [OF p] parse_quaddot [OF assms(1)] rbind.simps
      Let_def m octet_extract [OF c]
    by (simp add: dotted_def octets_of_def [of ?c])
qed

lemma dotted_octets_inject:
  assumes "bits32 b" "bits32 c" "dotted (octets_of b) = dotted (octets_of c)"
  shows "b = c"
proof -
  have "octets_of b = octets_of c"
    using parse_quaddot [OF assms(1)] parse_quaddot [OF assms(2)] assms(3) by (metis sum.inject(2))
  then have "bval b = bval c"
    using ip_int_octets [OF assms(1)] ip_int_octets [OF assms(2)] by simp
  then show ?thesis using assms by (intro bval_inject) simp_all
qed

section \<open>Addresses of links and loopbacks\<close>

abbreviation id13 :: "int \<Rightarrow> bool" where
  "id13 n \<equiv> 0 \<le> n \<and> n < 2 ^ 13"

lemma owner_code_props:
  "owner_code ty = Some oc \<Longrightarrow> length oc = 2 \<and> bit_chars oc"
  "owner_code ty = Some oc \<Longrightarrow> owner_code ty' = Some oc \<Longrightarrow> ty = ty'"
  by (auto simp: owner_code_def split: if_splits)

lemma base_bits_32:
  assumes "owner_code ty = Some oc" "id13 n" "id13 p" "d = ''0'' \<or> d = ''1''"
  shows "bits32 (base_bits oc n l p @ d)"
proof -
  have "length (fmt_bin 13 n) = 13" "length (fmt_bin 13 p) = 13"
    using assms by (simp_all add: fmt_bin_length)
  then show ?thesis
    using assms(4) owner_code_props(1) [OF assms(1)]
    by (elim disjE) (simp_all add: base_bits_def)
qed

lemma base_bits_inject:
  assumes "base_bits oc n l p @ d = base_bits oc' n' l' p' @ d'"
    and "length oc = 2" "length oc' = 2" "id13 n" "id13 n'" "id13 p" "id13 p'"
  shows "oc = oc' \<and> n = n' \<and> l = l' \<and> p = p' \<and> d = d'"
proof -
  have len: "length (fmt_bin 13 n) = 13" "length (fmt_bin 13 n') = 13"
    "length (fmt_bin 13 p) = 13" "length (fmt_bin 13 p') = 13"
    using assms by (simp_all add: fmt_bin_length)
  have "oc = oc'" "fmt_bin 13 n = fmt_bin 13 n'" "l = l'" "fmt_bin 13 p = fmt_bin 13 p'" "d = d'"
    using assms(1-3) len by (auto simp: base_bits_def split: if_splits)
  then show ?thesis using assms(4-) fmt_bin_inject by blast
qed

lemma get_ipv4_address_bits:
  assumes "owner_code ty = Some oc" "id13 n" "id13 p"
  shows "get_ipv4_address n p ty l =
    Inr (dotted (octets_of (base_bits oc n l p @ (if n < p then ''0'' else ''1''))),
         dotted (octets_of (base_bits oc n l p @ (if n < p then ''1'' else ''0''))))"
proof -
  have b: "bits32 (base_bits oc n l p @ ''0'')" "bits32 (base_bits oc n l p @ ''1'')"
    by (rule base_bits_32 [OF assms], simp)+
  show ?thesis
    using assms valid_quaddot [OF b(1)] valid_quaddot [OF b(2)]
    by (simp add: get_ipv4_address_def Let_def quaddot_bits [OF b(1)] quaddot_bits [OF b(2)])
qed

lemma get_ipv4_address_ok_iff:
  "is_ok (get_ipv4_address n p ty l) \<longleftrightarrow> owner_code ty \<noteq> None \<and> id13 n \<and> id13 p"
proof (cases "owner_code ty")
  case (Some oc)
  then show ?thesis using get_ipv4_address_bits [OF Some]
    by (cases "id13 n \<and> id13 p") (auto simp: get_ipv4_address_def)
qed (simp add: get_ipv4_address_def)

lemma get_ipv4_address_InrE:
  assumes "get_ipv4_address n p ty l = Inr (a, b)"
  obtains oc d e where "owner_code ty = Some oc" "id13 n" "id13 p"
    "{d, e} = {''0'', ''1''}" "d = (if n < p then ''0'' else ''1'')"
    "a = dotted (octets_of (base_bits oc n l p @ d))"
    "b = dotted (octets_of (base_bits oc n l p @ e))"
proof -
  have "owner_code ty \<noteq> None \<and> id13 n \<and> id13 p"
    using get_ipv4_address_ok_iff [of n p ty l] assms by simp
  then obtain oc where oc: "owner_code ty = Some oc" "id13 n" "id13 p" by auto
  show thesis
    using get_ipv4_address_bits [OF oc, of l] assms
    by (intro that [OF oc, of "if n < p then ''0'' else ''1''" "if n < p then ''1'' else ''0''"])
      (auto split: if_splits)
qed

lemma clear_after_base:
  assumes "length oc = 2" "id13 n" "id13 p" "length d = 1"
  shows "clear_after 31 (base_bits oc n l p @ d) = base_bits oc n l p @ ''0''"
    "clear_after 15 (base_bits oc n l p @ d) = oc @ fmt_bin 13 n @ replicate 17 (CHR ''0'')"
proof -
  have len: "length (fmt_bin 13 n) = 13" "length (fmt_bin 13 p) = 13"
    using assms by (simp_all add: fmt_bin_length)
  have "length (base_bits oc n l p) = 31" using len assms by (simp add: base_bits_def)
  then show "clear_after 31 (base_bits oc n l p @ d) = base_bits oc n l p @ ''0''"
    using assms(4) by (simp add: clear_after_def)
  show "clear_after 15 (base_bits oc n l p @ d) = oc @ fmt_bin 13 n @ replicate 17 (CHR ''0'')"
    using len assms by (simp add: clear_after_def base_bits_def)
qed

text \<open>
  Every node and peer identifier below 8192 of a known node type gets two
  distinct valid addresses, and the two ends of the link are in the same /31
  network: summarising either address to 31 bits gives the same string.
\<close>

theorem get_ipv4_address_pair:
  assumes "owner_code ty \<noteq> None" "id13 n" "id13 p"
  shows "\<exists>a b net. get_ipv4_address n p ty l = Inr (a, b) \<and> a \<noteq> b \<and>
    is_valid_ipv4 a \<and> is_valid_ipv4 b \<and>
    summarize_ipv4_address a 31 = Inr net \<and> summarize_ipv4_address b 31 = Inr net"
proof -
  obtain a b where ab: "get_ipv4_address n p ty l = Inr (a, b)"
    using get_ipv4_address_ok_iff [of n p ty l] assms by (auto simp: is_ok_iff)
  then obtain oc d e where *: "owner_code ty = Some oc" "{d, e} = {''0'', ''1''}"
    "a = dotted (octets_of (base_bits oc n l p @ d))"
    "b = dotted (octets_of (base_bits oc n l p @ e))"
    by (elim get_ipv4_address_InrE)
  have de: "d = ''0'' \<or> d = ''1''" "e = ''0'' \<or> e = ''1''" "d \<noteq> e"
    using *(2) by (auto simp: doubleton_eq_iff)
  then have ln: "length d = 1" "length e = 1" by auto
  note bits = base_bits_32 [OF *(1) assms(2,3)]
  have "a \<noteq> b" using *(3,4) dotted_octets_inject [OF bits [OF de(1), of l] bits [OF de(2), of l]] de(3) by auto
  moreover have "summarize_ipv4_address a 31 = summarize_ipv4_address b 31"
    "is_ok (summarize_ipv4_address a 31)"
    using *(3,4) summarize_quaddot [OF bits [OF de(1)], of 31 l] summarize_quaddot [OF bits [OF de(2)], of 31 l]
      clear_after_base(1) assms(2,3) owner_code_props(1) [OF *(1)] ln by simp_all
  ultimately show ?thesis
    using ab *(3,4) valid_quaddot [OF bits [OF de(1), of l]] valid_quaddot [OF bits [OF de(2), of l]]
    by (auto simp: is_ok_iff)
qed

lemma get_ipv4_address_pair_witness:
  "\<exists>a b net. get_ipv4_address 3 7 ''Satellite'' False = Inr (a, b) \<and> a \<noteq> b \<and>
    is_valid_ipv4 a \<and> is_valid_ipv4 b \<and>
    summarize_ipv4_address a 31 = Inr net \<and> summarize_ipv4_address b 31 = Inr net"
  by (rule get_ipv4_address_pair) (simp_all add: owner_code_def)

lemma address_identifies:
  assumes "get_ipv4_address n p ty l = Inr (a, b)" "get_ipv4_address n' p' ty' l' = Inr (a', b')"
    and "{a, b} \<inter> {a', b'} \<noteq> {}"
  shows "ty = ty' \<and> n = n' \<and> l = l' \<and> p = p'"
proof -
  from assms(1) obtain oc d e where 1: "owner_code ty = Some oc" "id13 n" "id13 p" "{d, e} = {''0'', ''1''}"
    "a = dotted (octets_of (base_bits oc n l p @ d))" "b = dotted (octets_of (base_bits oc n l p @ e))"
    by (elim get_ipv4_address_InrE)
  from assms(2) obtain oc' d' e' where 2: "owner_code ty' = Some oc'" "id13 n'" "id13 p'"
    "{d', e'} = {''0'', ''1''}"
    "a' = dotted (octets_of (base_bits oc' n' l' p' @ d'))" "b' = dotted (octets_of (base_bits oc' n' l' p' @ e'))"
    by (elim get_ipv4_address_InrE)
  from assms(3) obtain z where z: "z \<in> {a, b}" "z \<in> {a', b'}" by blast
  from z(1) obtain x where x: "x \<in> {d, e}" "z = dotted (octets_of (base_bits oc n l p @ x))"
    unfolding 1(5,6) by blast
  from z(2) obtain y where y: "y \<in> {d', e'}" "z = dotted (octets_of (base_bits oc' n' l' p' @ y))"
    unfolding 2(5,6) by blast
  have xy: "x = ''0'' \<or> x = ''1''" "y = ''0'' \<or> y = ''1''"
    "dotted (octets_of (base_bits oc n l p @ x)) = dotted (octets_of (base_bits oc' n' l' p' @ y))"
    using x y unfolding 1(4) 2(4) by blast+
  have "base_bits oc n l p @ x = base_bits oc' n' l' p' @ y"
    by (rule dotted_octets_inject [OF base_bits_32 [OF 1(1-3) xy(1)] base_bits_32 [OF 2(1-3) xy(2)] xy(3)])
  then have "oc = oc' \<and> n = n' \<and> l = l' \<and> p = p' \<and> x = y"
    using 1(1-3) 2(1-3) owner_code_props(1) by (intro base_bits_inject) blast+
  then show ?thesis using 1(1) 2(1) owner_code_props(2) by blast
qed

text \<open>
  \<^bold>\<open>C31.\<close> Addresses are never reused: when two calls return a common address,
  they were made with the same node type, node, loopback flag and peer.
\<close>

theorem get_ipv4_address_inj:
  assumes "get_ipv4_address n p ty l = Inr (a, b)" "get_ipv4_address n' p' ty' l' = Inr (a', b')"
    and "{a, b} \<inter> {a', b'} \<noteq> {}"
  shows "ty = ty' \<and> n = n' \<and> l = l' \<and> p = p'"
  using address_identifies [OF assms] .

lemma get_ipv4_address_inj_witness:
  "\<exists>a b. get_ipv4_address 3 7 ''Satellite'' False = Inr (a, b) \<and>
    ''Satellite'' = ''Satellite'' \<and> (3 :: int) = 3 \<and> False = False \<and> (7 :: int) = 7"
proof -
  obtain a b where "get_ipv4_address 3 7 ''Satellite'' False = Inr (a, b)"
    using get_ipv4_address_bits [of "''Satellite''" "''10''" 3 7] by (auto simp: owner_code_def)
  with get_ipv4_address_inj [OF this this] show ?thesis by auto
qed

lemma octets_of_concat:
  assumes "length os = 4" "\<forall>v \<in> set os. 0 \<le> v \<and> v \<le> 255"
  shows "bits32 (concat (map (fmt_bin 8) os))" "octets_of (concat (map (fmt_bin 8) os)) = os"
proof -
  obtain w x y z where os: "os = [w, x, y, z]"
    using assms(1) by (auto simp: length_Suc_conv numeral_eq_Suc)
  have len: "length (fmt_bin 8 v) = 8" if "v \<in> set os" for v
    using assms(2) that by (intro fmt_bin_length) force+
  show "bits32 (concat (map (fmt_bin 8) os))" using len by (simp add: os)
  show "octets_of (concat (map (fmt_bin 8) os)) = os"
    using len assms(2) by (simp add: os octets_of_def)
qed

lemma parse_octets_Inr:
  "parse_octets ip = Inr os \<Longrightarrow> length os = 4 \<and> (\<forall>v \<in> set os. 0 \<le> v \<and> v \<le> 255)"
  by (auto simp: parse_octets_def Let_def list_all_iff split: if_splits)

lemma parse_octets_summarize:
  assumes "parse_octets ip = Inr os" "0 \<le> p" "p \<le> 32"
  shows "summarize_ipv4_address ip p = summarize_ipv4_address (dotted os) p"
  using assms parse_octets_Inr [OF assms(1)] by (simp add: summarize_ipv4_address_def parse_dotted)

text \<open>
  The summary computed with shifts and masks is the prefix in the binary
  form of \<open>ipv4_to_binary\<close>: its first \<open>p\<close> digits are those of the address and the
  others are zero. This holds for every string Python's \<open>int\<close> accepts octet by octet.
\<close>

theorem summarize_binary_prefix:
  assumes "ipv4_to_binary ip = Inr b" "p \<le> 32"
  shows "\<exists>net. summarize_ipv4_address ip (int p) = Inr net \<and>
    ipv4_to_binary net = Inr (take p b @ replicate (32 - p) (CHR ''0''))"
proof -
  obtain os where os: "parse_octets ip = Inr os" "b = concat (map (fmt_bin 8) os)"
    using assms(1) by (auto simp: ipv4_to_binary_def)
  note v = parse_octets_Inr [OF os(1)]
  have b: "bits32 b" "octets_of b = os" using octets_of_concat v os(2) by auto
  let ?c = "clear_after p b"
  have c: "bits32 ?c" by (rule clear_after_bits [OF b(1)])
  have s: "summarize_ipv4_address ip (int p) = Inr (dotted (octets_of ?c))"
    using parse_octets_summarize [OF os(1), of "int p"] summarize_quaddot [OF b(1) assms(2)] assms(2) b(2)
    by simp
  have "concat (map (fmt_bin 8) (octets_of ?c)) = ?c"
  proof (rule dotted_octets_inject [OF _ c])
    show "bits32 (concat (map (fmt_bin 8) (octets_of ?c)))"
      "dotted (octets_of (concat (map (fmt_bin 8) (octets_of ?c)))) = dotted (octets_of ?c)"
      using octets_of_concat [of "octets_of ?c"] octets_of_bounds [OF c] by (simp_all add: octets_of_def)
  qed
  then have "ipv4_to_binary (dotted (octets_of ?c)) = Inr ?c"
    by (simp add: ipv4_to_binary_def parse_quaddot [OF c])
  with s show ?thesis using b(1) by (auto simp: clear_after_def)
qed

lemma summarize_binary_prefix_witness:
  "\<exists>b net. ipv4_to_binary ''130.1.7.9'' = Inr b \<and> summarize_ipv4_address ''130.1.7.9'' (int 15) = Inr net \<and>
    ipv4_to_binary net = Inr (take 15 b @ replicate (32 - 15) (CHR ''0''))"
proof -
  have "\<exists>b. ipv4_to_binary ''130.1.7.9'' = Inr b"
  proof -
    have "parse_octets ''130.1.7.9'' = Inr [130, 1, 7, 9]"
      using parse_dotted [of "[130, 1, 7, 9]"] by (simp add: dotted_def) code_simp
    then show ?thesis by (simp add: ipv4_to_binary_def)
  qed
  then obtain b where b: "ipv4_to_binary ''130.1.7.9'' = Inr b" ..
  from summarize_binary_prefix [OF b, of 15] b show ?thesis by auto
qed

text \<open>
  The /15 network of an address identifies the node that owns it: any two
  addresses (of links or loopbacks) have the same /15 summary exactly when they
  were generated for the same node type and node identifier. The routing daemons
  install one /15 route per destination node, so no two of these routes clash.
\<close>

theorem summary15_identifies_node:
  assumes "get_ipv4_address n p ty l = Inr (a, b)" "get_ipv4_address n' p' ty' l' = Inr (a', b')"
    and "x \<in> {a, b}" "x' \<in> {a', b'}"
  shows "summarize_ipv4_address x 15 = summarize_ipv4_address x' 15 \<longleftrightarrow> ty = ty' \<and> n = n'"
proof -
  have net: "\<exists>oc. owner_code ty = Some oc \<and> id13 n \<and> bits32 (oc @ fmt_bin 13 n @ replicate 17 (CHR ''0'')) \<and>
      summarize_ipv4_address x 15 = Inr (dotted (octets_of (oc @ fmt_bin 13 n @ replicate 17 (CHR ''0''))))"
    if "get_ipv4_address n p ty l = Inr (a, b)" "x \<in> {a, b}" for n p ty l a b x
  proof -
    from that(1) obtain oc d e where *: "owner_code ty = Some oc" "id13 n" "id13 p" "{d, e} = {''0'', ''1''}"
      "a = dotted (octets_of (base_bits oc n l p @ d))" "b = dotted (octets_of (base_bits oc n l p @ e))"
      by (elim get_ipv4_address_InrE)
    from that(2) obtain c where c: "c \<in> {d, e}" "x = dotted (octets_of (base_bits oc n l p @ c))"
      unfolding *(5,6) by blast
    have c01: "c = ''0'' \<or> c = ''1''" using c(1) unfolding *(4) by blast
    then have "length c = 1" by auto
    note clr = clear_after_base(2) [OF owner_code_props(1) [OF *(1), THEN conjunct1] *(2,3) this, of l]
    note bits = base_bits_32 [OF *(1-3) c01, of l]
    show ?thesis
      using clear_after_bits [OF bits, of 15] summarize_quaddot [OF bits, of 15] *(1,2) c(2)
      unfolding clr by simp
  qed
  obtain oc where 1: "owner_code ty = Some oc" "id13 n" "bits32 (oc @ fmt_bin 13 n @ replicate 17 (CHR ''0''))"
    "summarize_ipv4_address x 15 = Inr (dotted (octets_of (oc @ fmt_bin 13 n @ replicate 17 (CHR ''0''))))"
    using net [OF assms(1,3)] by blast
  obtain oc' where 2: "owner_code ty' = Some oc'" "id13 n'"
    "bits32 (oc' @ fmt_bin 13 n' @ replicate 17 (CHR ''0''))"
    "summarize_ipv4_address x' 15 = Inr (dotted (octets_of (oc' @ fmt_bin 13 n' @ replicate 17 (CHR ''0''))))"
    using net [OF assms(2,4)] by blast
  have ln: "length oc = 2" "length oc' = 2" using owner_code_props(1) 1(1) 2(1) by blast+
  show ?thesis
  proof
    assume "summarize_ipv4_address x 15 = summarize_ipv4_address x' 15"
    then have "oc @ fmt_bin 13 n @ replicate 17 (CHR ''0'') = oc' @ fmt_bin 13 n' @ replicate 17 (CHR ''0'')"
      using 1(4) 2(4) dotted_octets_inject [OF 1(3) 2(3)] by simp
    then have "oc = oc'" "fmt_bin 13 n = fmt_bin 13 n'" using ln by simp_all
    then show "ty = ty' \<and> n = n'" using 1(1,2) 2(1,2) owner_code_props(2) fmt_bin_inject by blast
  next
    assume "ty = ty' \<and> n = n'"
    then show "summarize_ipv4_address x 15 = summarize_ipv4_address x' 15" using 1 2 by simp
  qed
qed

lemma summary15_identifies_node_witness:
  "\<exists>a b a' b'. get_ipv4_address 3 7 ''Satellite'' False = Inr (a, b) \<and>
    get_ipv4_address 3 3 ''Satellite'' True = Inr (a', b') \<and>
    summarize_ipv4_address b 15 = summarize_ipv4_address a' 15"
proof -
  obtain a b where 1: "get_ipv4_address 3 7 ''Satellite'' False = Inr (a, b)"
    using get_ipv4_address_bits [of "''Satellite''" "''10''" 3 7] by (auto simp: owner_code_def)
  obtain a' b' where 2: "get_ipv4_address 3 3 ''Satellite'' True = Inr (a', b')"
    using get_ipv4_address_bits [of "''Satellite''" "''10''" 3 3] by (auto simp: owner_code_def)
  show ?thesis using summary15_identifies_node [OF 1 2, of b a'] 1 2 by auto
qed

section \<open>Controller-plane addresses\<close>

lemma build_controller_ip_bits:
  assumes "id13 n"
  shows "bits32 (''11111'' @ fmt_bin 13 0 @ fmt_bin 13 n @ ''1'')"
    "build_controller_ip n = Inr (dotted (octets_of (''11111'' @ fmt_bin 13 0 @ fmt_bin 13 n @ ''1'')))"
proof -
  show b: "bits32 (''11111'' @ fmt_bin 13 0 @ fmt_bin 13 n @ ''1'')"
    using assms fmt_bin_length [of 0 13] fmt_bin_length [of n 13] by simp
  show "build_controller_ip n = Inr (dotted (octets_of (''11111'' @ fmt_bin 13 0 @ fmt_bin 13 n @ ''1'')))"
    using assms quaddot_bits [OF b] by (simp add: build_controller_ip_def)
qed

text \<open>
  The controller plane is separate from the emulated network: the address
  of a node identifier in [0, 8191] exists, differs from that of any other
  identifier, and is no address of a satellite or ground station.
\<close>

theorem controller_ip_separate:
  assumes n13: "id13 n"
  shows "\<exists>c. build_controller_ip n = Inr c \<and>
    (\<forall>n'. build_controller_ip n' = Inr c \<longrightarrow> n' = n) \<and>
    (\<forall>m p ty l a b. get_ipv4_address m p ty l = Inr (a, b) \<and> ty \<noteq> ''UserTerminal'' \<longrightarrow> c \<notin> {a, b})"
proof -
  let ?c = "\<lambda>n. ''11111'' @ fmt_bin 13 0 @ fmt_bin 13 n @ ''1''"
  note c = build_controller_ip_bits [OF n13]
  have "n' = n" if n': "build_controller_ip n' = Inr (dotted (octets_of (?c n)))" for n'
  proof -
    have v: "id13 n'" using n' by (auto simp: build_controller_ip_def split: if_splits)
    have "?c n' = ?c n"
      using n' build_controller_ip_bits [OF v] dotted_octets_inject [OF build_controller_ip_bits(1) [OF v] c(1)]
      by simp
    then have "fmt_bin 13 n' = fmt_bin 13 n" by simp
    then show ?thesis using v n13 fmt_bin_inject [of 13 n' n] by simp
  qed
  moreover have "dotted (octets_of (?c n)) \<notin> {a, b}"
    if g: "get_ipv4_address m p ty l = Inr (a, b)" "ty \<noteq> ''UserTerminal''" for m p ty l a b
  proof
    assume m: "dotted (octets_of (?c n)) \<in> {a, b}"
    from g(1) obtain oc d e where *: "owner_code ty = Some oc" "id13 m" "id13 p" "{d, e} = {''0'', ''1''}"
      "a = dotted (octets_of (base_bits oc m l p @ d))" "b = dotted (octets_of (base_bits oc m l p @ e))"
      by (elim get_ipv4_address_InrE)
    from m obtain x where x: "x \<in> {d, e}" "dotted (octets_of (?c n)) = dotted (octets_of (base_bits oc m l p @ x))"
      unfolding *(5,6) by blast
    have "x = ''0'' \<or> x = ''1''" using x(1) unfolding *(4) by blast
    then have "?c n = base_bits oc m l p @ x"
      using x(2) by (intro dotted_octets_inject [OF c(1) base_bits_32 [OF *(1-3)]])
    moreover have "oc = ''10'' \<or> oc = ''01''" using *(1) g(2) by (auto simp: owner_code_def split: if_splits)
    ultimately show False by (auto simp: base_bits_def)
  qed
  ultimately show ?thesis using c(2) by blast
qed

lemma controller_ip_separate_witness: "\<exists>c. build_controller_ip 42 = Inr c"
  using controller_ip_separate [of 42] by auto

end
