(* ===== verification/Net_Models.thy ===== *)
theory Net_Models
  imports IP_Utils
begin

text \<open>
  The data the daemons work on: \<open>models/interface.py\<close>, \<open>models/routing_entry.py\<close>,
  \<open>models/mpls_entry.py\<close>, \<open>models/node.py\<close> and the pair and name helpers of
  \<open>utils/utils.py\<close>.

  An \<open>Interface\<close> object is a record; \<open>if_oid\<close> is its Python identity, which the
  code compares with \<open>is\<close>, and \<open>if_peer\<close> holds the two attributes of the peer
  object that are ever read, its name and IPv4 address. A node keeps two routing
  tables; \<open>nd_aliased\<close> records whether both attributes refer to the same list
  object, which the route diff tests with \<open>is\<close>.
\<close>

section \<open>Interfaces\<close>

record iface =
  if_oid :: nat
  if_name :: string
  if_type :: string
  if_ipv4 :: string
  if_active :: bool
  if_delay :: int
  if_mac :: "string option"
  if_peer :: "(string \<times> string) option"

definition new_iface :: "nat \<Rightarrow> string \<Rightarrow> string \<Rightarrow> iface" where
  "new_iface oid name ty = \<lparr>if_oid = oid, if_name = name, if_type = ty, if_ipv4 = [],
     if_active = False, if_delay = 0, if_mac = None, if_peer = None\<rparr>"

definition set_ip :: "string \<Rightarrow> iface \<Rightarrow> iface" where
  "set_ip ip i = i\<lparr>if_ipv4 := ip\<rparr>"

definition get_iname :: "iface \<Rightarrow> string result" where
  "get_iname i =
    (if if_type i = ''lo'' then Inr ''lo''
     else case split_on (CHR ''.'') (if_name i) of
       _ # p # _ \<Rightarrow> Inr (''eth'' @ p)
     | _ \<Rightarrow> Inl (OtherError ''list index out of range''))"

text \<open>
  The device name where the caller knows that the interface is a loopback or has
  a dotted name; every interface of a link is named by \<open>Link.get_names\<close>, which
  puts the peer identifier after a dot.
\<close>

definition dev_name :: "iface \<Rightarrow> string" where
  "dev_name i = (case get_iname i of Inr s \<Rightarrow> s | Inl _ \<Rightarrow> [])"

definition iface_eq :: "iface \<Rightarrow> iface \<Rightarrow> bool" where
  "iface_eq i j = (if_name i = if_name j)"

definition list_index :: "'a list \<Rightarrow> nat \<Rightarrow> 'a result" where
  "list_index xs k = (if k < length xs then Inr (xs ! k) else Inl (OtherError ''list index out of range''))"

definition parse_int :: "string \<Rightarrow> int result" where
  "parse_int s = (case py_int s of Some v \<Rightarrow> Inr v
     | None \<Rightarrow> Inl (ValueError ''invalid literal for int() with base 10''))"

definition local_name_of :: "iface \<Rightarrow> string result" where
  "local_name_of i =
    (if if_type i = ''lo'' then list_index (split_on (CHR ''_'') (if_name i)) 1
     else list_index (split_on (CHR ''.'') (if_name i)) 0)"

definition node_type_of :: "string \<Rightarrow> string result" where
  "node_type_of nm =
    (if contains ''Gnd'' nm then Inr ''GroundStation''
     else if contains ''Sat'' nm then Inr ''Satellite''
     else Inl (ValueError ''Interface type does not match node type''))"

text \<open>\<open>set_ipv4_address\<close> sets the interface's own address and its peer's.\<close>

definition set_ipv4_address :: "iface \<Rightarrow> iface \<Rightarrow> (iface \<times> iface) result" where
  "set_ipv4_address i peer =
    (if if_ipv4 i \<noteq> [] then Inr (i, peer)
     else rbind (local_name_of i) (\<lambda>local_name.
       rbind (parse_int (drop 3 local_name)) (\<lambda>local_id.
       rbind (node_type_of local_name) (\<lambda>node_type.
       if if_type i = ''lo'' then
         rbind (get_ipv4_address local_id local_id node_type True) (\<lambda>(loopback_ip, _).
         Inr (set_ip loopback_ip i, peer))
       else
         rbind (list_index (split_on (CHR ''.'') (if_name i)) 1) (\<lambda>p.
         rbind (parse_int p) (\<lambda>peer_id.
         rbind (get_ipv4_address local_id peer_id node_type False) (\<lambda>(local_ip, peer_ip).
         Inr (set_ip local_ip i, set_ip peer_ip peer))))))))"

definition get_interface_from_name :: "iface list \<Rightarrow> string \<Rightarrow> iface option" where
  "get_interface_from_name ifs nm = find (\<lambda>i. nm = drop 3 (if_name i)) ifs"

definition unique_pair_id :: "int \<Rightarrow> int \<Rightarrow> int" where
  "unique_pair_id a b = (let x = min a b; y = max a b in y * (y + 1) div 2 + x)"

section \<open>Routing table entries\<close>

record route =
  re_destination :: string
  re_iface :: iface
  re_gateway :: string
  re_prefix :: int
  re_target_node :: string
  re_update :: bool
  re_source_node :: string
  re_source :: string

definition new_route :: "string \<Rightarrow> iface \<Rightarrow> string \<Rightarrow> int \<Rightarrow> string \<Rightarrow> string \<Rightarrow> string \<Rightarrow> string \<Rightarrow> route result" where
  "new_route destination interface gateway pfx protocol target_node source_node source =
    (if protocol \<noteq> ''ipv4'' then Inl (ValueError ''Unsupported protocol. Only ipv4 is supported.'')
     else if \<not> (0 \<le> pfx \<and> pfx \<le> 32) then Inl (ValueError ''Invalid prefix length for IPv4'')
     else case summarize_ipv4_address destination pfx of
       Inl _ \<Rightarrow> Inl (ValueError ''Invalid IPv4 address'')
     | Inr dest \<Rightarrow>
         rbind (if source \<noteq> [] then summarize_ipv4_address source pfx else Inr source) (\<lambda>src.
         Inr \<lparr>re_destination = dest, re_iface = interface, re_gateway = gateway, re_prefix = pfx,
              re_target_node = target_node, re_update = True, re_source_node = source_node,
              re_source = src\<rparr>))"

definition route_from_validated :: "string \<Rightarrow> iface \<Rightarrow> string \<Rightarrow> int \<Rightarrow> string \<Rightarrow> string \<Rightarrow> string \<Rightarrow> route" where
  "route_from_validated destination interface gateway pfx target_node source_node source =
    \<lparr>re_destination = destination, re_iface = interface, re_gateway = gateway, re_prefix = pfx,
     re_target_node = target_node, re_update = True, re_source_node = source_node,
     re_source = source\<rparr>"

definition route_eq :: "route \<Rightarrow> route \<Rightarrow> bool" where
  "route_eq r s = (re_destination r = re_destination s \<and> iface_eq (re_iface r) (re_iface s) \<and>
     re_gateway r = re_gateway s \<and> re_prefix r = re_prefix s)"

definition get_prefix :: "route \<Rightarrow> string" where
  "get_prefix r = ''/'' @ dec_int (re_prefix r)"

section \<open>MPLS entries\<close>

record mpls_config =
  mc_enabled :: bool
  mc_range_start :: int
  mc_range_end :: int
  mc_use_ldp :: bool
  mc_use_php :: bool
  mc_ttl :: int
  mc_use_sr :: bool
  mc_sid_base :: int

definition mpls_post_init :: "mpls_config \<Rightarrow> mpls_config result" where
  "mpls_post_init c =
    (let c1 = (if mc_range_start c < 16 then c\<lparr>mc_range_start := 16\<rparr> else c);
         c2 = (if mc_range_end c1 > 1048575 then c1\<lparr>mc_range_end := 1048575\<rparr> else c1)
     in if mc_range_start c2 \<ge> mc_range_end c2
        then Inl (ValueError ''label_range_start must be less than label_range_end'') else Inr c2)"

definition sid_command :: "int \<Rightarrow> string" where
  "sid_command sid = ''ip -f mpls route replace '' @ dec_int sid @ '' dev lo''"

definition sid_batch_line :: "int \<Rightarrow> string" where
  "sid_batch_line sid = ''-f mpls route replace '' @ dec_int sid @ '' dev lo''"

record sr_forward =
  sf_sid :: int
  sf_next_hop :: string
  sf_iface :: iface
  sf_target :: string

definition forward_command :: "sr_forward \<Rightarrow> string" where
  "forward_command e = ''ip -f mpls route replace '' @ dec_int (sf_sid e) @ '' via inet '' @
     sf_next_hop e @ '' dev '' @ dev_name (sf_iface e)"

definition forward_batch_line :: "sr_forward \<Rightarrow> string" where
  "forward_batch_line e = ''-f mpls route replace '' @ dec_int (sf_sid e) @ '' via inet '' @
     sf_next_hop e @ '' dev '' @ dev_name (sf_iface e)"

record sr_stack =
  ss_destination :: string
  ss_labels :: "int list"
  ss_next_hop :: string
  ss_iface :: iface
  ss_prefix :: int

definition stack_command :: "sr_stack \<Rightarrow> string" where
  "stack_command e =
    (if ss_labels e = [] then
       ''ip route replace '' @ ss_destination e @ ''/'' @ dec_int (ss_prefix e) @ '' via '' @
       ss_next_hop e @ '' dev '' @ dev_name (ss_iface e)
     else
       ''ip route replace '' @ ss_destination e @ ''/'' @ dec_int (ss_prefix e) @ '' encap mpls '' @
       py_join ''/'' (map dec_int (ss_labels e)) @ '' via '' @ ss_next_hop e @ '' dev '' @ dev_name (ss_iface e))"

definition stack_batch_line :: "sr_stack \<Rightarrow> string" where
  "stack_batch_line e =
    (if ss_labels e = [] then
       ''route replace '' @ ss_destination e @ ''/'' @ dec_int (ss_prefix e) @ '' via '' @
       ss_next_hop e @ '' dev '' @ dev_name (ss_iface e)
     else
       ''route replace '' @ ss_destination e @ ''/'' @ dec_int (ss_prefix e) @ '' encap mpls '' @
       py_join ''/'' (map dec_int (ss_labels e)) @ '' via '' @ ss_next_hop e @ '' dev '' @ dev_name (ss_iface e))"

section \<open>Nodes\<close>

record node =
  nd_name :: string
  nd_id :: int
  nd_type :: string
  nd_ifaces :: "iface list"
  nd_loopback :: iface
  nd_curr :: "route list"
  nd_prev :: "route list"
  nd_aliased :: bool
  nd_addressable :: bool

definition new_node :: "nat \<Rightarrow> string \<Rightarrow> string \<Rightarrow> node result" where
  "new_node oid name ty = rbind (parse_int (drop 3 name)) (\<lambda>i.
     Inr \<lparr>nd_name = name, nd_id = i, nd_type = ty, nd_ifaces = [], nd_loopback = new_iface oid ''lo'' ''lo'',
          nd_curr = [], nd_prev = [], nd_aliased = False, nd_addressable = False\<rparr>)"

definition node_eq :: "node \<Rightarrow> node \<Rightarrow> bool" where
  "node_eq n m = (nd_name n = nd_name m)"

definition set_addressable :: "bool \<Rightarrow> node \<Rightarrow> node" where
  "set_addressable b n = n\<lparr>nd_addressable := b\<rparr>"

definition create_interface :: "nat \<Rightarrow> string \<Rightarrow> node \<Rightarrow> iface \<times> node" where
  "create_interface oid name n = (let i = new_iface oid name [] in (i, n\<lparr>nd_ifaces := nd_ifaces n @ [i]\<rparr>))"

text \<open>\<open>list.remove\<close> drops the first element that is equal by \<open>Interface.__eq__\<close>.\<close>

fun remove_first :: "('a \<Rightarrow> bool) \<Rightarrow> 'a list \<Rightarrow> 'a list" where
  "remove_first P [] = []"
| "remove_first P (x # xs) = (if P x then xs else x # remove_first P xs)"

text \<open>Of the peer node only the name is read.\<close>

definition remove_interface_connected_to_node :: "string \<Rightarrow> node \<Rightarrow> node" where
  "remove_interface_connected_to_node peer_name n =
    (let eth_name = peer_name @ ''.'' @ dec_int (nd_id n) in
     case find (\<lambda>i. case if_peer i of Some (pn, _) \<Rightarrow> eth_name = pn | None \<Rightarrow> False) (nd_ifaces n) of
       Some i \<Rightarrow> n\<lparr>nd_ifaces := remove_first (iface_eq i) (nd_ifaces n)\<rparr>
     | None \<Rightarrow> n)"

definition container_addr_lines :: "iface option \<Rightarrow> bool \<Rightarrow> node \<Rightarrow> string list" where
  "container_addr_lines interface set_lo n =
    (let int_list = (case interface of Some i \<Rightarrow> [i] | None \<Rightarrow> nd_ifaces n);
         lines = map (\<lambda>i. ''addr add '' @ if_ipv4 i @ ''/31 dev '' @ dev_name i)
                   (filter (\<lambda>i. if_ipv4 i \<noteq> []) int_list)
     in if set_lo \<and> if_ipv4 (nd_loopback n) \<noteq> []
        then lines @ [''addr add '' @ if_ipv4 (nd_loopback n) @ ''/32 dev lo''] else lines)"

definition policy_rule :: "route \<Rightarrow> string result" where
  "policy_rule e = rbind (parse_int (drop 3 (re_source_node e))) (\<lambda>s.
     rbind (parse_int (drop 3 (re_target_node e))) (\<lambda>t.
     Inr (''ip rule add to '' @ re_destination e @ ''/'' @ dec_int (re_prefix e) @ '' table '' @
          dec_int (10000 + unique_pair_id s t))))"

definition add_policy_based_routing_rules :: "node \<Rightarrow> string list result" where
  "add_policy_based_routing_rules n = rmap policy_rule (nd_curr n)"

section \<open>Properties\<close>

lemma contains_char: "\<lbrakk>c \<in> set p; c \<notin> set s\<rbrakk> \<Longrightarrow> \<not> contains p s"
proof (induction s)
  case (Cons x s)
  have "take (length p) (x # s) \<noteq> p"
    using Cons.prems by (metis in_set_takeD)
  then show ?case using Cons by simp
qed auto

lemma contains_prefix [simp]: "contains p (p @ s)"
proof (cases "p @ s")
  case (Cons a l)
  have "take (length p) (p @ s) = p" by simp
  then show ?thesis unfolding Cons by simp
qed simp

lemma route_get_iname [simp]: "if_type i \<noteq> ''lo'' \<Longrightarrow> if_name i = a @ CHR ''.'' # b \<Longrightarrow>
  CHR ''.'' \<notin> set a \<Longrightarrow> CHR ''.'' \<notin> set b \<Longrightarrow> get_iname i = Inr (''eth'' @ b)"
  by (simp add: get_iname_def)

definition node_name :: "string \<Rightarrow> nat \<Rightarrow> string" where
  "node_name ty n = (if ty = ''GroundStation'' then ''Gnd'' else ''Sat'') @ dec n"

lemma node_name_facts:
  assumes "ty \<in> {''Satellite'', ''GroundStation''}"
  shows "node_type_of (node_name ty n) = Inr ty" "drop 3 (node_name ty n) = dec n"
    "CHR ''.'' \<notin> set (node_name ty n)"
proof -
  have G: "CHR ''G'' \<notin> set (''Sat'' @ dec n)"
    using dec_no_nondigit [of "CHR ''G''" n] by (simp add: is_digit_def)
  have "\<not> contains ''Gnd'' (''Sat'' @ dec n)" by (rule contains_char [OF _ G]) simp
  then show "node_type_of (node_name ty n) = Inr ty"
    using assms contains_prefix [of "''Gnd''" "dec n"] contains_prefix [of "''Sat''" "dec n"]
    by (auto simp: node_type_of_def node_name_def simp del: contains_prefix contains.simps)
  show "drop 3 (node_name ty n) = dec n" "CHR ''.'' \<notin> set (node_name ty n)"
    by (auto simp: node_name_def)
qed

text \<open>
  Addressing the first interface of a link addresses both ends: the
  interface gets the first and its peer the second address of the generated pair,
  and a later call for the peer interface changes nothing.
\<close>

theorem set_ipv4_address_link:
  assumes "ty \<in> {''Satellite'', ''GroundStation''}" "id13 (int n)" "id13 (int p)"
    and "if_name i = node_name ty n @ ''.'' @ dec p" "if_type i \<noteq> ''lo''" "if_ipv4 i = []"
  shows "\<exists>a b. get_ipv4_address (int n) (int p) ty False = Inr (a, b) \<and> a \<noteq> b \<and>
    set_ipv4_address i peer = Inr (set_ip a i, set_ip b peer) \<and>
    set_ipv4_address (set_ip b peer) (set_ip a i) = Inr (set_ip b peer, set_ip a i)"
proof -
  obtain oc where oc: "owner_code ty = Some oc" using assms(1) by (auto simp: owner_code_def)
  obtain a b where ab: "get_ipv4_address (int n) (int p) ty False = Inr (a, b)"
    using get_ipv4_address_bits [OF oc assms(2,3)] by auto
  then obtain d e where *: "{d, e} = {''0'', ''1''}"
    "a = dotted (octets_of (base_bits oc (int n) False (int p) @ d))"
    "b = dotted (octets_of (base_bits oc (int n) False (int p) @ e))"
    using oc by (elim get_ipv4_address_InrE) auto
  have de: "d = ''0'' \<or> d = ''1''" "e = ''0'' \<or> e = ''1''" "d \<noteq> e" using *(1) by (auto simp: doubleton_eq_iff)
  note bits = base_bits_32 [OF oc assms(2,3)]
  have "a \<noteq> b"
    using *(2,3) de(3) dotted_octets_inject [OF bits [OF de(1), of False] bits [OF de(2), of False]] by auto
  moreover have "b \<noteq> []"
    using *(3) by (simp add: dotted_def octets_of_def dec_int_facts(3))
  moreover have "split_on (CHR ''.'') (if_name i) = [node_name ty n, dec p]"
    using assms(4) node_name_facts(3) [OF assms(1)] by simp
  ultimately show ?thesis
    using ab assms node_name_facts [OF assms(1)]
    by (auto simp: set_ipv4_address_def local_name_of_def list_index_def parse_int_def set_ip_def)
qed

lemma set_ipv4_address_link_witness:
  "\<exists>a b. set_ipv4_address (new_iface 0 (node_name ''Satellite'' 4 @ ''.'' @ dec 9) ''ISL'')
      (new_iface 1 (node_name ''Satellite'' 9 @ ''.'' @ dec 4) ''ISL'') =
    Inr (set_ip a (new_iface 0 (node_name ''Satellite'' 4 @ ''.'' @ dec 9) ''ISL''),
         set_ip b (new_iface 1 (node_name ''Satellite'' 9 @ ''.'' @ dec 4) ''ISL'')) \<and> a \<noteq> b"
  using set_ipv4_address_link [of "''Satellite''" 4 9 "new_iface 0 (node_name ''Satellite'' 4 @ ''.'' @ dec 9) ''ISL''"
      "new_iface 1 (node_name ''Satellite'' 9 @ ''.'' @ dec 4) ''ISL''"]
  by (auto simp: new_iface_def)

lemma triangle_step:
  assumes "0 \<le> x" "x \<le> y" "y < (y' :: int)" "0 \<le> x'"
  shows "y * (y + 1) div 2 + x < y' * (y' + 1) div 2 + x'"
proof -
  have "(y + 1) * (y + 2) \<le> y' * (y' + 1)" using assms by (intro mult_mono) auto
  then have "(y + 1) * (y + 2) div 2 \<le> y' * (y' + 1) div 2" by (rule zdiv_mono1) simp
  moreover have "(y + 1) * (y + 2) = y * (y + 1) + 2 * (y + 1)" by (simp add: algebra_simps)
  then have "(y + 1) * (y + 2) div 2 = y * (y + 1) div 2 + (y + 1)" by simp
  ultimately show ?thesis using assms by linarith
qed

text \<open>
  The policy-rule table number of a pair of nodes depends only on the
  unordered pair, and different pairs of non-negative identifiers never share one.
\<close>

theorem unique_pair_id_iff:
  assumes "0 \<le> a" "0 \<le> b" "0 \<le> c" "0 \<le> d"
  shows "unique_pair_id a b = unique_pair_id c d \<longleftrightarrow> {a, b} = {c, d}"
proof
  assume e: "unique_pair_id a b = unique_pair_id c d"
  have "max a b = max c d"
  proof (rule ccontr)
    assume "max a b \<noteq> max c d"
    moreover have "min a b \<le> max a b" "min c d \<le> max c d" "0 \<le> min a b" "0 \<le> min c d" using assms by auto
    ultimately show False
      using e triangle_step [of "min a b" "max a b" "max c d" "min c d"]
        triangle_step [of "min c d" "max c d" "max a b" "min a b"]
      unfolding unique_pair_id_def Let_def neq_iff by linarith
  qed
  with e have "min a b = min c d" by (simp add: unique_pair_id_def Let_def)
  with \<open>max a b = max c d\<close> show "{a, b} = {c, d}" by (auto simp: max_def min_def split: if_splits)
next
  assume "{a, b} = {c, d}"
  then show "unique_pair_id a b = unique_pair_id c d"
    by (auto simp: doubleton_eq_iff unique_pair_id_def min.commute max.commute)
qed

lemma unique_pair_id_iff_witness: "unique_pair_id 3 8 \<noteq> unique_pair_id 4 8"
  using unique_pair_id_iff [of 3 8 4 8] by (simp add: doubleton_eq_iff)

end
