(* ===== verification/Static_Routing.thy ===== *)
theory Static_Routing
  imports Net_Models
begin

text \<open>
  The static routing daemon (\<open>routing/static_daemon.py\<close>).

  \<open>static_daemon\<close> is the daemon's state: the next-hop vector (\<open>signature\<close>) and
  the route objects last installed for each source, and the cached interface
  maps. \<open>network\<close> is the part of the topology manager the daemon reads: the two
  node dictionaries and three flags. The shortest-path library is a parameter:
  \<open>names\<close> are the graph's vertex names and \<open>sp i ! j\<close> is the path, as vertex
  indices, from vertex \<open>i\<close> to vertex \<open>j\<close> that \<open>igraph\<close> returns (empty when there
  is none). What a batch of \<open>ip\<close> commands does to the kernel is a parameter as
  well; the locale \<open>kernel_fib\<close> states the documented behaviour of
  \<open>ip route replace\<close> and \<open>ip route del\<close>.

  A reused route object sees the current attributes of its interface object, so
  a cached entry whose interface is the same object is stored with the current
  interface record.
\<close>

section \<open>State\<close>

type_synonym iface_map = "(int, iface) dict"
type_synonym iface_maps = "(int, iface_map) dict \<times> (int, iface_map) dict"

record static_daemon =
  sd_signatures :: "(int, int option list) dict"
  sd_entries :: "(int, (int, route) dict) dict"
  sd_iface_version :: "int option"
  sd_iface_cache :: "iface_maps option"

record network =
  nt_sats :: "(int, node) dict"
  nt_gss :: "(int, node) dict"
  nt_status :: bool
  nt_file_routes :: bool
  nt_iface_version :: "int option"

type_synonym graph = "int list \<times> (nat \<Rightarrow> nat list list)"
type_synonym route_file = "(int, (int \<times> real) list \<times> (int, int list) dict) dict"
type_synonym job = "node \<times> string list"

definition new_static_daemon :: static_daemon where
  "new_static_daemon = \<lparr>sd_signatures = [], sd_entries = [], sd_iface_version = None, sd_iface_cache = None\<rparr>"

definition clear_caches :: "static_daemon \<Rightarrow> static_daemon" where
  "clear_caches sd = sd\<lparr>sd_signatures := [], sd_entries := []\<rparr>"

section \<open>Interface maps\<close>

definition all_digits :: "string \<Rightarrow> bool" where
  "all_digits s = (s \<noteq> [] \<and> list_all is_digit s)"

definition peer_iface_pattern :: "string \<Rightarrow> bool" where
  "peer_iface_pattern nm =
    (let s = (if nm \<noteq> [] \<and> last nm = char_of (10 :: nat) then butlast nm else nm)
     in (startswith ''Gnd'' s \<or> startswith ''Sat'' s) \<and>
        (case split_on (CHR ''.'') (drop 3 s) of [a, b] \<Rightarrow> all_digits a \<and> all_digits b | _ \<Rightarrow> False))"

fun peer_iface_step :: "iface_map \<Rightarrow> iface \<Rightarrow> iface_map" where
  "peer_iface_step m i =
    (if peer_iface_pattern (if_name i) then
       (case split_on (CHR ''.'') (if_name i) of
          _ # p # _ \<Rightarrow> (case py_int p of Some k \<Rightarrow> dict_set k i m | None \<Rightarrow> m)
        | _ \<Rightarrow> m)
     else m)"

definition peer_iface_map :: "node \<Rightarrow> iface_map" where
  "peer_iface_map n = foldl peer_iface_step [] (nd_ifaces n)"

definition prebuild_iface_maps :: "network \<Rightarrow> static_daemon \<Rightarrow> iface_maps \<times> static_daemon" where
  "prebuild_iface_maps nt sd =
    (case (nt_iface_version nt, sd_iface_cache sd) of
       (Some v, Some c) \<Rightarrow>
         if sd_iface_version sd = Some v then (c, sd)
         else (let r = (dict_of (map (\<lambda>n. (nd_id n, peer_iface_map n)) (dict_vals (nt_gss nt))),
                        dict_of (map (\<lambda>n. (nd_id n, peer_iface_map n)) (dict_vals (nt_sats nt))))
               in (r, sd\<lparr>sd_iface_cache := Some r, sd_iface_version := Some v\<rparr>))
     | (v, _) \<Rightarrow>
         (let r = (dict_of (map (\<lambda>n. (nd_id n, peer_iface_map n)) (dict_vals (nt_gss nt))),
                   dict_of (map (\<lambda>n. (nd_id n, peer_iface_map n)) (dict_vals (nt_sats nt))))
          in (r, if v \<noteq> None then sd\<lparr>sd_iface_cache := Some r, sd_iface_version := v\<rparr> else sd)))"

definition resolve_interface :: "network \<Rightarrow> node \<Rightarrow> int \<Rightarrow> int \<Rightarrow> iface_map option \<Rightarrow> iface result" where
  "resolve_interface nt src_node src_id next_hop iface_map =
    (let i = (case iface_map of Some m \<Rightarrow> dict_get m next_hop | None \<Rightarrow> None);
         by_name = (\<lambda>peer. get_interface_from_name (nd_ifaces src_node)
                      (dec_int src_id @ ''.'' @ dec_int (nd_id peer)));
         j = (case i of Some _ \<Rightarrow> i
              | None \<Rightarrow> (case dict_get (nt_sats nt) next_hop of
                  Some peer \<Rightarrow> by_name peer
                | None \<Rightarrow> (case dict_get (nt_gss nt) next_hop of
                    Some peer \<Rightarrow> by_name peer
                  | None \<Rightarrow> None)))
     in case j of Some k \<Rightarrow> Inr k | None \<Rightarrow> Inl (ValueError ''Could not resolve interface''))"

section \<open>Tables and jobs\<close>

definition equalize_node :: "node \<Rightarrow> node" where
  "equalize_node n = n\<lparr>nd_prev := nd_curr n, nd_curr := [], nd_aliased := False\<rparr>"

definition equalize_routing_tables :: "network \<Rightarrow> network" where
  "equalize_routing_tables nt = nt\<lparr>nt_sats := map (\<lambda>(k, n). (k, equalize_node n)) (nt_sats nt),
     nt_gss := map (\<lambda>(k, n). (k, equalize_node n)) (nt_gss nt)\<rparr>"

text \<open>\<open>clear\<close> and \<open>append\<close> mutate the list object, so an aliased table changes too.\<close>

definition clear_previous :: "node \<Rightarrow> node" where
  "clear_previous n = (if nd_aliased n then n\<lparr>nd_prev := [], nd_curr := []\<rparr> else n\<lparr>nd_prev := []\<rparr>)"

definition append_route :: "route \<Rightarrow> node \<Rightarrow> node" where
  "append_route r n = (if nd_aliased n then n\<lparr>nd_curr := nd_curr n @ [r], nd_prev := nd_prev n @ [r]\<rparr>
     else n\<lparr>nd_curr := nd_curr n @ [r]\<rparr>)"

definition entry_key :: "route \<Rightarrow> string \<times> string \<times> string \<times> string" where
  "entry_key e = (re_destination e, get_prefix e, re_gateway e, dev_name (re_iface e))"

definition route_line :: "string \<Rightarrow> route \<Rightarrow> string" where
  "route_line op e = ''route '' @ op @ '' '' @ (re_destination e @ get_prefix e) @ '' via '' @
     re_gateway e @ '' dev '' @ dev_name (re_iface e)"

definition keyed :: "route list \<Rightarrow> (string \<times> string \<times> string \<times> string, route) dict" where
  "keyed tbl = dict_of (map (\<lambda>e. (entry_key e, e)) tbl)"

definition addr_of :: "route \<Rightarrow> string \<times> string" where
  "addr_of e = (re_destination e, get_prefix e)"

definition emit_batch_commands :: "bool \<Rightarrow> route list \<Rightarrow> route list \<Rightarrow> string list option \<Rightarrow> string list" where
  "emit_batch_commands same prev_tbl curr_tbl live_devs =
    (if same then []
     else let curr = keyed curr_tbl; prev = keyed prev_tbl;
              curr_prefixes = map addr_of curr_tbl;
              removed = map (\<lambda>(k, e). route_line ''del'' e)
                (filter (\<lambda>(k, e). k \<notin> set (dict_keys curr) \<and> addr_of e \<notin> set curr_prefixes \<and>
                   (case live_devs of None \<Rightarrow> True | Some devs \<Rightarrow> dev_name (re_iface e) \<in> set devs)) prev);
              added = map (\<lambda>(k, e). route_line ''replace'' e)
                (filter (\<lambda>(k, e). k \<notin> set (dict_keys prev)) curr)
          in removed @ added)"

definition node_job :: "node \<Rightarrow> job" where
  "node_job n = (n, emit_batch_commands (nd_aliased n) (nd_prev n) (nd_curr n)
     (Some (map dev_name (nd_ifaces n))))"

definition apply_satellite_routes :: "network \<Rightarrow> job list" where
  "apply_satellite_routes nt = filter (\<lambda>(n, lines). lines \<noteq> []) (map node_job (dict_vals (nt_sats nt)))"

definition apply_ground_station_routes :: "network \<Rightarrow> job list" where
  "apply_ground_station_routes nt = filter (\<lambda>(n, lines). lines \<noteq> []) (map node_job (dict_vals (nt_gss nt)))"

definition remove_node_routes :: "node \<Rightarrow> string list \<times> node" where
  "remove_node_routes n =
    (map (\<lambda>e. ''route del '' @ re_destination e @ get_prefix e @ '' via '' @ re_gateway e @
            '' dev '' @ dev_name (re_iface e)) (nd_curr n),
     n\<lparr>nd_curr := [], nd_prev := []\<rparr>)"

section \<open>Populating the tables\<close>

definition addressable_sats :: "network \<Rightarrow> node list" where
  "addressable_sats nt = filter nd_addressable (dict_vals (nt_sats nt))"

definition dst_array :: "network \<Rightarrow> node list" where
  "dst_array nt = dict_vals (nt_gss nt) @ addressable_sats nt"

definition install_route :: "network \<Rightarrow> node \<Rightarrow> node \<Rightarrow> int list \<Rightarrow> iface_map option \<Rightarrow> node result" where
  "install_route nt src dst path iface_map =
    (if length path < 2 then Inr src
     else let next_hop = path ! 1
       in rbind (resolve_interface nt src (nd_id src) next_hop iface_map) (\<lambda>interface.
          case if_peer interface of
            None \<Rightarrow> Inl (OtherError ''NoneType object has no attribute ipv4'')
          | Some (_, peer_ip) \<Rightarrow>
              rbind (new_route (if_ipv4 (nd_loopback dst)) interface peer_ip 15 ''ipv4''
                       (nd_name dst) (nd_name src) (if_ipv4 (nd_loopback src)))
                (\<lambda>r. Inr (append_route r src))))"

fun install_paths :: "network \<Rightarrow> (int, int list) dict \<Rightarrow> iface_map option \<Rightarrow> node list \<Rightarrow> node \<Rightarrow> node result" where
  "install_paths nt path_dict ifaces [] src = Inr src"
| "install_paths nt path_dict ifaces (dst # dsts) src =
    (if nd_name dst = nd_name src then install_paths nt path_dict ifaces dsts src
     else case dict_get path_dict (nd_id dst) of
       None \<Rightarrow> install_paths nt path_dict ifaces dsts src
     | Some path \<Rightarrow> rbind (install_route nt src dst path ifaces)
         (\<lambda>src'. install_paths nt path_dict ifaces dsts src'))"

fun map_nodes :: "(node \<Rightarrow> node result) \<Rightarrow> (int, node) dict \<Rightarrow> (int, node) dict result" where
  "map_nodes f [] = Inr []"
| "map_nodes f ((k, n) # d) = rbind (f n) (\<lambda>n'. rbind (map_nodes f d) (\<lambda>d'. Inr ((k, n') # d')))"

fun load_route_source :: "string \<times> (string \<times> real) list \<times> (string \<times> int list) list \<Rightarrow>
    (int \<times> (int \<times> real) list \<times> (int, int list) dict) result" where
  "load_route_source (src, dists, paths) = rbind (parse_int src) (\<lambda>s.
     rbind (rmap (\<lambda>(d, x). rbind (parse_int d) (\<lambda>k. Inr (k, x))) dists) (\<lambda>ds.
     rbind (rmap (\<lambda>(d, p). rbind (parse_int d) (\<lambda>k. Inr (k, p))) paths) (\<lambda>ps.
     Inr (s, dict_of ds, dict_of ps))))"

definition load_routes_from_file ::
    "(string \<times> (string \<times> real) list \<times> (string \<times> int list) list) list \<Rightarrow> route_file result" where
  "load_routes_from_file raw = rbind (rmap load_route_source raw) (\<lambda>rs. Inr (dict_of rs))"

definition populate_from_file ::
    "(string \<times> (string \<times> real) list \<times> (string \<times> int list) list) list \<Rightarrow>
     iface_maps \<Rightarrow> static_daemon \<Rightarrow> network \<Rightarrow> (static_daemon \<times> network) result" where
  "populate_from_file raw ifs sd nt =
    rbind (load_routes_from_file raw) (\<lambda>len_path.
      let path_dict = (\<lambda>src. case dict_get len_path (nd_id src) of Some (_, p) \<Rightarrow> p | None \<Rightarrow> []);
          inst = (\<lambda>maps src. install_paths nt (path_dict src) (dict_get maps (nd_id src)) (dst_array nt) src)
      in rbind (map_nodes (inst (fst ifs)) (nt_gss nt)) (\<lambda>gss.
         rbind (map_nodes (inst (snd ifs)) (nt_sats nt)) (\<lambda>sats.
         Inr (clear_caches sd, nt\<lparr>nt_gss := gss, nt_sats := sats\<rparr>))))"

text \<open>
  The networkx variant: \<open>pred dst\<close> is the predecessor dictionary that
  \<open>dijkstra_predecessor_and_distance\<close> returns for the source \<open>dst\<close>.
\<close>

definition nx_next_hops :: "(int, int list) dict \<Rightarrow> int \<Rightarrow> (int, int) dict" where
  "nx_next_hops pred dst_id =
    map (\<lambda>(s, preds). (s, hd preds)) (filter (\<lambda>(s, preds). s \<noteq> dst_id \<and> preds \<noteq> []) pred)"

fun install_hops :: "network \<Rightarrow> (int, (int, int) dict) dict \<Rightarrow> iface_map option \<Rightarrow> node list \<Rightarrow> node \<Rightarrow> node result" where
  "install_hops nt hops ifaces [] src = Inr src"
| "install_hops nt hops ifaces (dst # dsts) src =
    (if nd_id dst = nd_id src then install_hops nt hops ifaces dsts src
     else case dict_get (dict_get_or hops (nd_id dst) []) (nd_id src) of
       None \<Rightarrow> install_hops nt hops ifaces dsts src
     | Some nh \<Rightarrow> rbind (install_route nt src dst [nd_id src, nh] ifaces)
         (\<lambda>src'. install_hops nt hops ifaces dsts src'))"

definition populate_dijkstra :: "(int \<Rightarrow> (int, int list) dict) \<Rightarrow> iface_maps \<Rightarrow> network \<Rightarrow> network result" where
  "populate_dijkstra pred ifs nt =
    (let hops = dict_of (map (\<lambda>dst. (nd_id dst, nx_next_hops (pred (nd_id dst)) (nd_id dst))) (dst_array nt));
         inst = (\<lambda>maps src. install_hops nt hops (dict_get maps (nd_id src)) (dst_array nt) src)
     in rbind (map_nodes (inst (fst ifs)) (nt_gss nt)) (\<lambda>gss.
        rbind (map_nodes (inst (snd ifs)) (nt_sats nt)) (\<lambda>sats.
        Inr (nt\<lparr>nt_gss := gss, nt_sats := sats\<rparr>))))"

subsection \<open>The igraph variant: next-hop vectors\<close>

definition igraph_next_hops :: "graph \<Rightarrow> int \<Rightarrow> (int, int) dict result" where
  "igraph_next_hops g dst_id =
    (let names = fst g; name_to_idx = dict_of (zip names [0 ..< length names])
     in case dict_get name_to_idx dst_id of
       None \<Rightarrow> Inl (KeyError ''vertex'')
     | Some dst_idx \<Rightarrow>
         Inr (dict_of (map (\<lambda>(i, path). (names ! i, names ! (path ! (length path - 2))))
           (filter (\<lambda>(i, path). i \<noteq> dst_idx \<and> length path \<ge> 2) (enumerate 0 (snd g dst_idx))))))"

definition set_signature :: "nat \<Rightarrow> nat \<Rightarrow> (int, int option list) dict \<Rightarrow> int \<times> int \<Rightarrow> (int, int option list) dict" where
  "set_signature len i sigs p = (case p of (src_id, next_hop) \<Rightarrow>
     let s = (case dict_get sigs src_id of Some s \<Rightarrow> s | None \<Rightarrow> replicate len None)
     in dict_set src_id (s[i := Some next_hop]) sigs)"

definition transpose_hops :: "(int, int) dict list \<Rightarrow> (int, int option list) dict" where
  "transpose_hops hops =
    foldl (\<lambda>sigs (i, h). foldl (set_signature (length hops) i) sigs h) [] (enumerate 0 hops)"

definition no_route_signature :: "nat \<Rightarrow> int option list" where
  "no_route_signature n = replicate n None"

section \<open>Installing the routes of one source\<close>

text \<open>\<open>reuse_or_new\<close> is the test that keeps a cached route object.\<close>

definition reuse_or_new :: "route option \<Rightarrow> string \<Rightarrow> iface \<Rightarrow> string \<Rightarrow> int \<Rightarrow> string \<Rightarrow> string \<Rightarrow> string \<Rightarrow> route" where
  "reuse_or_new cached destination interface gateway pfx target source_name source =
    (case cached of
       None \<Rightarrow> route_from_validated destination interface gateway pfx target source_name source
     | Some e \<Rightarrow>
         if re_destination e \<noteq> destination \<or> re_gateway e \<noteq> gateway \<or>
            if_oid (re_iface e) \<noteq> if_oid interface \<or> re_target_node e \<noteq> target \<or>
            re_source_node e \<noteq> source_name \<or> re_source e \<noteq> source \<or> re_prefix e \<noteq> pfx
         then route_from_validated destination interface gateway pfx target source_name source
         else e\<lparr>re_iface := interface\<rparr>)"

record source_ctx =
  sc_ifaces :: "iface_map option"
  sc_summary :: string
  sc_name :: string
  sc_summarized :: "(int, string) dict"
  sc_prefix :: int

fun build_entries :: "source_ctx \<Rightarrow> (int, route) dict \<Rightarrow> (node \<times> int option) list \<Rightarrow>
    (int, route) dict \<Rightarrow> route list \<Rightarrow> ((int, route) dict \<times> route list) result" where
  "build_entries c cached [] new_entries table = Inr (new_entries, table)"
| "build_entries c cached ((dst, None) # rest) new_entries table = build_entries c cached rest new_entries table"
| "build_entries c cached ((dst, Some next_hop) # rest) new_entries table =
    (case sc_ifaces c of
       None \<Rightarrow> Inl (OtherError ''NoneType object has no attribute get'')
     | Some m \<Rightarrow> (case dict_get m next_hop of
         None \<Rightarrow> Inl (OtherError ''NoneType object has no attribute peer'')
       | Some interface \<Rightarrow> (case if_peer interface of
           None \<Rightarrow> Inl (OtherError ''Interface object has no attribute peer'')
         | Some (_, gateway) \<Rightarrow> (case dict_get (sc_summarized c) (nd_id dst) of
             None \<Rightarrow> Inl (KeyError ''summarized_ips'')
           | Some destination \<Rightarrow>
               let entry = reuse_or_new (dict_get cached (nd_id dst)) destination interface gateway
                             (sc_prefix c) (nd_name dst) (sc_name c) (sc_summary c)
               in build_entries c cached rest (dict_set (nd_id dst) entry new_entries) (table @ [entry])))))"

definition install_source_routes :: "source_ctx \<Rightarrow> node list \<Rightarrow> int option list \<Rightarrow> static_daemon \<Rightarrow> node \<Rightarrow>
    (static_daemon \<times> node) result" where
  "install_source_routes c dsts signature sd n =
    (let src_id = nd_id n; old_entries = dict_get (sd_entries sd) src_id
     in if Some signature = dict_get (sd_signatures sd) src_id \<and> old_entries \<noteq> None then
          (let olds = the old_entries;
               table = map (\<lambda>d. the (dict_get olds d))
                 (filter (\<lambda>d. dict_get olds d \<noteq> None) (map nd_id dsts))
           in Inr (sd, n\<lparr>nd_curr := table, nd_prev := table, nd_aliased := True\<rparr>))
        else
          rbind (build_entries c (case old_entries of Some d \<Rightarrow> d | None \<Rightarrow> []) (zip dsts signature) [] [])
            (\<lambda>(new_entries, table).
             Inr (sd\<lparr>sd_entries := dict_set src_id new_entries (sd_entries sd),
                    sd_signatures := dict_set src_id signature (sd_signatures sd)\<rparr>,
                  n\<lparr>nd_curr := table, nd_aliased := False\<rparr>)))"

fun thread_nodes :: "(static_daemon \<Rightarrow> node \<Rightarrow> (static_daemon \<times> node) result) \<Rightarrow> static_daemon \<Rightarrow>
    (int, node) dict \<Rightarrow> (static_daemon \<times> (int, node) dict) result" where
  "thread_nodes f sd [] = Inr (sd, [])"
| "thread_nodes f sd ((k, n) # d) = rbind (f sd n) (\<lambda>(sd1, n1).
     rbind (thread_nodes f sd1 d) (\<lambda>(sd2, d2). Inr (sd2, (k, n1) # d2)))"

definition summarize_loopbacks :: "node list \<Rightarrow> (int, string) dict result" where
  "summarize_loopbacks ns =
    rbind (rmap (\<lambda>n. rbind (summarize_ipv4_address (if_ipv4 (nd_loopback n)) 15) (\<lambda>s. Inr (nd_id n, s))) ns)
      (\<lambda>kvs. Inr (dict_of kvs))"

definition prune_caches :: "int list \<Rightarrow> static_daemon \<Rightarrow> static_daemon" where
  "prune_caches active sd = sd\<lparr>
     sd_signatures := filter (\<lambda>(k, _). k \<in> set active) (sd_signatures sd),
     sd_entries := filter (\<lambda>(k, _). k \<in> set active) (sd_entries sd)\<rparr>"

definition source_context :: "(int, iface_map) dict \<Rightarrow> (int, string) dict \<Rightarrow> node \<Rightarrow> source_ctx" where
  "source_context maps summarized n = \<lparr>sc_ifaces = dict_get maps (nd_id n),
     sc_summary = dict_get_or summarized (nd_id n) [], sc_name = nd_name n,
     sc_summarized = summarized, sc_prefix = 15\<rparr>"

definition populate_dijkstra_igraph :: "graph \<Rightarrow> iface_maps \<Rightarrow> static_daemon \<Rightarrow> network \<Rightarrow>
    (static_daemon \<times> network) result" where
  "populate_dijkstra_igraph g ifs sd nt =
    (let dsts = dst_array nt; gss = dict_vals (nt_gss nt); sats = dict_vals (nt_sats nt)
     in rbind (rmap (\<lambda>dst. igraph_next_hops g (nd_id dst)) dsts) (\<lambda>hop_list.
        let next_hops = dict_of (zip (map nd_id dsts) hop_list);
            sigs = transpose_hops (map (\<lambda>dst. dict_get_or next_hops (nd_id dst) []) dsts)
        in rbind (summarize_loopbacks (gss @ sats)) (\<lambda>summarized.
           let inst = (\<lambda>maps sd n. install_source_routes (source_context maps summarized n) dsts
(dict_get_or sigs (nd_id n) (no_route_signature (length dsts))) sd n)
           in rbind (thread_nodes (inst (fst ifs)) sd (nt_gss nt)) (\<lambda>(sd1, gss').
              rbind (thread_nodes (inst (snd ifs)) sd1 (nt_sats nt)) (\<lambda>(sd2, sats').
              Inr (prune_caches (map nd_id gss @ map nd_id sats) sd2,
                   nt\<lparr>nt_gss := gss', nt_sats := sats'\<rparr>))))))"

section \<open>The daemon's interface\<close>

definition populate_routing_tables ::
    "(string \<times> (string \<times> real) list \<times> (string \<times> int list) list) list \<Rightarrow> graph \<Rightarrow>
     static_daemon \<Rightarrow> network \<Rightarrow> (static_daemon \<times> network) result" where
  "populate_routing_tables raw g sd nt =
    (let nt1 = equalize_routing_tables nt; (ifs, sd1) = prebuild_iface_maps nt1 sd
     in if nt_file_routes nt1 then populate_from_file raw ifs sd1 nt1
        else populate_dijkstra_igraph g ifs sd1 nt1)"

definition static_init ::
    "(string \<times> (string \<times> real) list \<times> (string \<times> int list) list) list \<Rightarrow> graph \<Rightarrow>
     static_daemon \<Rightarrow> network \<Rightarrow> (static_daemon \<times> network \<times> job list \<times> bool) result" where
  "static_init raw g sd nt =
    rbind (populate_routing_tables raw g (clear_caches sd) nt) (\<lambda>(sd1, nt1).
      let nt2 = nt1\<lparr>nt_sats := map (\<lambda>(k, n). (k, clear_previous n)) (nt_sats nt1),
                   nt_gss := map (\<lambda>(k, n). (k, clear_previous n)) (nt_gss nt1)\<rparr>
      in Inr (sd1, nt2, apply_ground_station_routes nt2 @ apply_satellite_routes nt2, True))"

definition static_update ::
    "(string \<times> (string \<times> real) list \<times> (string \<times> int list) list) list \<Rightarrow> graph \<Rightarrow>
     static_daemon \<Rightarrow> network \<Rightarrow> (static_daemon \<times> network \<times> job list) result" where
  "static_update raw g sd nt =
    rbind (populate_routing_tables raw g sd nt) (\<lambda>(sd1, nt1).
      Inr (sd1, nt1, if nt_status nt1 then apply_ground_station_routes nt1 @ apply_satellite_routes nt1 else []))"

definition static_remove :: "node option \<Rightarrow> static_daemon \<Rightarrow> network \<Rightarrow> static_daemon \<times> network \<times> job list" where
  "static_remove target sd nt =
    (let on_all = (\<lambda>d. map (\<lambda>(k, n). (k, snd (remove_node_routes n))) d);
         job = (\<lambda>n. (n, fst (remove_node_routes n)))
     in case target of
       Some t \<Rightarrow>
         let upd = (\<lambda>d. map (\<lambda>(k, n). (k, if nd_name n = nd_name t then snd (remove_node_routes n) else n)) d)
         in (sd\<lparr>sd_signatures := dict_pop (nd_id t) (sd_signatures sd),
                sd_entries := dict_pop (nd_id t) (sd_entries sd)\<rparr>,
             nt\<lparr>nt_sats := upd (nt_sats nt), nt_gss := upd (nt_gss nt)\<rparr>,
             filter (\<lambda>(n, lines). lines \<noteq> []) [job t])
     | None \<Rightarrow>
         (clear_caches sd, nt\<lparr>nt_sats := on_all (nt_sats nt), nt_gss := on_all (nt_gss nt)\<rparr>,
          filter (\<lambda>(n, lines). lines \<noteq> []) (map job (dict_vals (nt_sats nt) @ dict_vals (nt_gss nt)))))"

end
