(* ===== verification/Static_Facts.thy ===== *)
theory Static_Facts
  imports Static_Routing
begin

text \<open>
  Properties of the static routing daemon. The first section proves that the
  batch of commands the daemon emits turns the kernel's routing table into the
  daemon's current table, under the documented behaviour of \<open>ip route\<close> that the
  locale \<open>kernel_fib\<close> states; \<open>ref_exec\<close> is a routing table for which the laws
  hold. The second section is about the reuse of cached routes.
\<close>

section \<open>The kernel's routing table\<close>

text \<open>
  \<open>lookup f a\<close> is the gateway and device of the route to the prefix \<open>a\<close>,
  \<open>onlink f\<close> the gateways reachable through a device that is present, and
  \<open>exec ws f\<close> the effect of one \<open>ip\<close> command, given as its words.
\<close>

locale kernel_fib =
  fixes lookup :: "'fib \<Rightarrow> string \<Rightarrow> (string \<times> string) option"
    and onlink :: "'fib \<Rightarrow> (string \<times> string) set"
    and exec :: "string list \<Rightarrow> 'fib \<Rightarrow> 'fib"
  assumes exec_replace: "(g, d) \<in> onlink f \<Longrightarrow>
      lookup (exec [''route'', ''replace'', a, ''via'', g, ''dev'', d] f) = (lookup f)(a \<mapsto> (g, d))"
    and exec_del: "lookup f a = Some (g, d) \<Longrightarrow>
      lookup (exec [''route'', ''del'', a, ''via'', g, ''dev'', d] f) = (lookup f)(a := None)"
    and exec_onlink: "onlink (exec [''route'', opr, a, ''via'', g, ''dev'', d] f) = onlink f"

definition batch_words :: "string list \<Rightarrow> string list list" where
  "batch_words lines = map (split_on (CHR '' '')) lines"

definition run_batch :: "(string list \<Rightarrow> 'fib \<Rightarrow> 'fib) \<Rightarrow> string list \<Rightarrow> 'fib \<Rightarrow> 'fib" where
  "run_batch exec lines f = fold exec (batch_words lines) f"

lemma run_batch_append: "run_batch exec (xs @ ys) f = run_batch exec ys (run_batch exec xs f)"
  by (simp add: run_batch_def batch_words_def)

lemma run_batch_simps [simp]:
  "run_batch exec [] f = f"
  "run_batch exec (l # ls) f = run_batch exec ls (exec (split_on (CHR '' '') l) f)"
  by (simp_all add: run_batch_def batch_words_def)

definition route_triple :: "route \<Rightarrow> string \<times> string \<times> string" where
  "route_triple e = (re_destination e @ get_prefix e, re_gateway e, dev_name (re_iface e))"

definition route_words_ok :: "route \<Rightarrow> bool" where
  "route_words_ok e = (CHR '' '' \<notin> set (re_destination e) \<and> CHR ''/'' \<notin> set (re_destination e) \<and>
     CHR '' '' \<notin> set (re_gateway e) \<and> CHR '' '' \<notin> set (dev_name (re_iface e)))"

lemma get_prefix_no_space [simp]: "CHR '' '' \<notin> set (get_prefix e)"
  by (auto simp: get_prefix_def dec_int_def)

lemma split_words:
  assumes "CHR '' '' \<notin> set opr" "CHR '' '' \<notin> set a" "CHR '' '' \<notin> set g" "CHR '' '' \<notin> set d"
  shows "split_on (CHR '' '') (''route '' @ opr @ '' '' @ a @ '' via '' @ g @ '' dev '' @ d) =
    [''route'', opr, a, ''via'', g, ''dev'', d]"
proof -
  have "''route '' @ opr @ '' '' @ a @ '' via '' @ g @ '' dev '' @ d =
    py_join ['' '' ! 0] [''route'', opr, a, ''via'', g, ''dev'', d]" by simp
  moreover have "split_on (CHR '' '') (py_join [CHR '' ''] [''route'', opr, a, ''via'', g, ''dev'', d]) =
    [''route'', opr, a, ''via'', g, ''dev'', d]"
    by (rule split_on_join) (use assms in auto)
  ultimately show ?thesis by simp
qed

lemma route_line_words:
  assumes "route_words_ok e" "CHR '' '' \<notin> set opr"
  shows "split_on (CHR '' '') (route_line opr e) =
    [''route'', opr, fst (route_triple e), ''via'', fst (snd (route_triple e)), ''dev'', snd (snd (route_triple e))]"
  using assms split_words [of opr "re_destination e @ get_prefix e" "re_gateway e" "dev_name (re_iface e)"]
  by (simp add: route_line_def route_triple_def route_words_ok_def)

context kernel_fib
begin

lemma run_dels:
  assumes "distinct (map (fst \<circ> route_triple) es)" "\<forall>e \<in> set es. route_words_ok e"
    and "\<forall>e \<in> set es. lookup f (fst (route_triple e)) = Some (snd (route_triple e))"
  shows "lookup (run_batch exec (map (route_line ''del'') es) f) =
      (\<lambda>a. if a \<in> (fst \<circ> route_triple) ` set es then None else lookup f a) \<and>
    onlink (run_batch exec (map (route_line ''del'') es) f) = onlink f"
  using assms
proof (induction es arbitrary: f)
  case (Cons e es)
  obtain a g d where t: "route_triple e = (a, g, d)" by (cases "route_triple e")
  let ?f1 = "exec [''route'', ''del'', a, ''via'', g, ''dev'', d] f"
  have w: "split_on (CHR '' '') (route_line ''del'' e) = [''route'', ''del'', a, ''via'', g, ''dev'', d]"
    using route_line_words [of e "''del''"] Cons.prems(2) t by simp
  have l: "lookup ?f1 = (lookup f)(a := None)" using exec_del Cons.prems(3) t by simp
  have o: "onlink ?f1 = onlink f" by (rule exec_onlink)
  have "\<forall>e' \<in> set es. lookup ?f1 (fst (route_triple e')) = Some (snd (route_triple e'))"
    using Cons.prems(1,3) t l by force
  then have "lookup (run_batch exec (map (route_line ''del'') es) ?f1) =
      (\<lambda>x. if x \<in> (fst \<circ> route_triple) ` set es then None else lookup ?f1 x) \<and>
    onlink (run_batch exec (map (route_line ''del'') es) ?f1) = onlink ?f1"
    using Cons.IH [of ?f1] Cons.prems(1,2) by simp
  then show ?case using l o t by (auto simp: w fun_eq_iff)
qed auto

lemma run_replaces:
  assumes "distinct (map (fst \<circ> route_triple) es)" "\<forall>e \<in> set es. route_words_ok e"
    and "\<forall>e \<in> set es. snd (route_triple e) \<in> onlink f"
  shows "lookup (run_batch exec (map (route_line ''replace'') es) f) = lookup f ++ map_of (map route_triple es)"
  using assms
proof (induction es arbitrary: f)
  case (Cons e es)
  obtain a g d where t: "route_triple e = (a, g, d)" by (cases "route_triple e")
  let ?f1 = "exec [''route'', ''replace'', a, ''via'', g, ''dev'', d] f"
  have w: "split_on (CHR '' '') (route_line ''replace'' e) = [''route'', ''replace'', a, ''via'', g, ''dev'', d]"
    using route_line_words [of e "''replace''"] Cons.prems(2) t by simp
  have l: "lookup ?f1 = (lookup f)(a \<mapsto> (g, d))" using exec_replace Cons.prems(3) t by simp
  have "lookup (run_batch exec (map (route_line ''replace'') es) ?f1) = lookup ?f1 ++ map_of (map route_triple es)"
    using Cons.IH [of ?f1] Cons.prems exec_onlink by simp
  moreover have "map_of (map route_triple es) a = None"
    using Cons.prems(1) t by (force simp: map_of_eq_None_iff)
  ultimately show ?case using l t
    by (auto simp: w fun_eq_iff map_add_def split: option.splits)
qed simp

end

text \<open>A routing table that satisfies the laws: a finite map and the usable next hops.\<close>

type_synonym ref_fib = "(string \<Rightarrow> (string \<times> string) option) \<times> (string \<times> string) set"

fun ref_exec :: "string list \<Rightarrow> ref_fib \<Rightarrow> ref_fib" where
  "ref_exec [w, opr, a, v, g, dv, d] (m, ol) =
    (if opr = ''replace'' then (if (g, d) \<in> ol then (m(a \<mapsto> (g, d)), ol) else (m, ol))
     else if opr = ''del'' then (if m a = Some (g, d) then (m(a := None), ol) else (m, ol))
     else (m, ol))"
| "ref_exec _ s = s"

interpretation ref_kernel: kernel_fib fst snd ref_exec
proof
  show "fst (ref_exec [''route'', ''replace'', a, ''via'', g, ''dev'', d] f) = (fst f)(a \<mapsto> (g, d))"
    if "(g, d) \<in> snd f" for g d a and f :: ref_fib
    using that by (cases f) simp
  show "fst (ref_exec [''route'', ''del'', a, ''via'', g, ''dev'', d] f) = (fst f)(a := None)"
    if "fst f a = Some (g, d)" for g d a and f :: ref_fib
    using that by (cases f) simp
  show "snd (ref_exec [''route'', opr, a, ''via'', g, ''dev'', d] f) = snd f" for opr g d a and f :: ref_fib
    by (cases f) simp
qed

section \<open>The emitted batch\<close>

definition table_fib :: "route list \<Rightarrow> string \<Rightarrow> (string \<times> string) option" where
  "table_fib tbl = map_of (map route_triple tbl)"

text \<open>The kernel drops every route through a device that has gone.\<close>

definition live_fib :: "string list \<Rightarrow> route list \<Rightarrow> string \<Rightarrow> (string \<times> string) option" where
  "live_fib live tbl a = (case table_fib tbl a of
     Some (g, d) \<Rightarrow> if d \<in> set live then Some (g, d) else None | None \<Rightarrow> None)"

definition table_ok :: "route list \<Rightarrow> bool" where
  "table_ok tbl = (distinct (map addr_of tbl) \<and> list_all route_words_ok tbl)"

lemma dict_of_distinct: "distinct (map fst kvs) \<Longrightarrow> dict_of kvs = kvs"
proof (induction kvs rule: rev_induct)
  case (snoc p ps)
  have "AList.update (fst p) (snd p) d = d @ [p]" if "fst p \<notin> set (map fst d)" for d
    using that by (induction d) auto
  then show ?case using snoc by (cases p) (simp add: dict_of_snoc)
qed simp

lemma addr_triple:
  assumes "route_words_ok e" "route_words_ok e'"
  shows "addr_of e = addr_of e' \<longleftrightarrow> fst (route_triple e) = fst (route_triple e')"
proof
  assume "fst (route_triple e) = fst (route_triple e')"
  then have "re_destination e @ CHR ''/'' # dec_int (re_prefix e) =
      re_destination e' @ CHR ''/'' # dec_int (re_prefix e')"
    by (simp add: route_triple_def get_prefix_def)
  then have "split_on (CHR ''/'') (re_destination e @ CHR ''/'' # dec_int (re_prefix e)) =
      split_on (CHR ''/'') (re_destination e' @ CHR ''/'' # dec_int (re_prefix e'))" by simp
  moreover have "CHR ''/'' \<notin> set (dec_int v)" for v by (simp add: dec_int_def)
  ultimately show "addr_of e = addr_of e'"
    using assms by (simp add: route_words_ok_def addr_of_def get_prefix_def)
qed (simp add: route_triple_def addr_of_def)

lemma key_triple: "entry_key e = entry_key e' \<longleftrightarrow> addr_of e = addr_of e' \<and> snd (route_triple e) = snd (route_triple e')"
  by (auto simp: entry_key_def addr_of_def route_triple_def)

lemma table_ok_triples: "table_ok tbl \<Longrightarrow> distinct (map (fst \<circ> route_triple) tbl)"
  unfolding table_ok_def
  by (induction tbl) (auto simp: list_all_iff dest: addr_triple)

lemma keyed_distinct: "table_ok tbl \<Longrightarrow> keyed tbl = map (\<lambda>e. (entry_key e, e)) tbl"
proof -
  assume "table_ok tbl"
  then have "distinct (map addr_of tbl)" by (simp add: table_ok_def)
  then have "distinct (map entry_key tbl)"
    by (induction tbl) (auto simp: key_triple)
  then show ?thesis unfolding keyed_def by (intro dict_of_distinct) (simp add: comp_def)
qed

definition removed_routes :: "route list \<Rightarrow> route list \<Rightarrow> string list \<Rightarrow> route list" where
  "removed_routes prv cur live = filter (\<lambda>e. addr_of e \<notin> set (map addr_of cur) \<and> dev_name (re_iface e) \<in> set live) prv"

definition added_routes :: "route list \<Rightarrow> route list \<Rightarrow> route list" where
  "added_routes prv cur = filter (\<lambda>e. entry_key e \<notin> set (map entry_key prv)) cur"

lemma emit_routes:
  assumes "table_ok prv" "table_ok cur"
  shows "emit_batch_commands False prv cur (Some live) =
    map (route_line ''del'') (removed_routes prv cur live) @ map (route_line ''replace'') (added_routes prv cur)"
proof -
  have "filter (\<lambda>(k, e). k \<notin> set (dict_keys (keyed cur)) \<and> addr_of e \<notin> set (map addr_of cur) \<and>
        dev_name (re_iface e) \<in> set live) (keyed prv) =
      map (\<lambda>e. (entry_key e, e)) (removed_routes prv cur live)"
    unfolding keyed_distinct [OF assms(1)] keyed_distinct [OF assms(2)] removed_routes_def
    by (auto simp: filter_map comp_def key_triple intro!: arg_cong [where f = "map _"] filter_cong)
  moreover have "filter (\<lambda>(k, e). k \<notin> set (dict_keys (keyed prv))) (keyed cur) =
      map (\<lambda>e. (entry_key e, e)) (added_routes prv cur)"
    unfolding keyed_distinct [OF assms(1)] keyed_distinct [OF assms(2)] added_routes_def
    by (simp add: filter_map comp_def)
  ultimately show ?thesis by (simp add: emit_batch_commands_def Let_def)
qed

context kernel_fib
begin

lemma batch_installs:
  assumes ok: "table_ok prv" "table_ok cur"
    and before: "lookup f = live_fib live prv"
    and reach: "\<forall>e \<in> set cur. snd (route_triple e) \<in> onlink f \<and> dev_name (re_iface e) \<in> set live"
  shows "lookup (run_batch exec (emit_batch_commands False prv cur (Some live)) f) = table_fib cur"
proof -
  let ?rem = "removed_routes prv cur live" and ?add = "added_routes prv cur"
  let ?f1 = "run_batch exec (map (route_line ''del'') ?rem) f"
  have words: "\<forall>e \<in> set prv \<union> set cur. route_words_ok e" using ok by (auto simp: table_ok_def list_all_iff)
  have dt: "distinct (map (fst \<circ> route_triple) prv)" "distinct (map (fst \<circ> route_triple) cur)"
    using table_ok_triples ok by blast+
  have prvD: "table_fib prv (fst (route_triple e)) = Some (snd (route_triple e))" if "e \<in> set prv" for e
    using dt(1) that by (simp add: table_fib_def comp_def map_of_eq_Some_iff image_iff) (metis prod.collapse)
  have curD: "table_fib cur (fst (route_triple e)) = Some (snd (route_triple e))" if "e \<in> set cur" for e
    using dt(2) that by (simp add: table_fib_def comp_def map_of_eq_Some_iff image_iff) (metis prod.collapse)
  have liveD: "lookup f (fst (route_triple e)) = Some (snd (route_triple e))"
    if "e \<in> set prv" "dev_name (re_iface e) \<in> set live" for e
    using prvD [OF that(1)] that(2) by (simp add: before live_fib_def route_triple_def)
  have "distinct (map (fst \<circ> route_triple) ?rem)"
    using dt(1) unfolding removed_routes_def by (rule distinct_map_filter)
  then have d: "lookup ?f1 = (\<lambda>a. if a \<in> (fst \<circ> route_triple) ` set ?rem then None else lookup f a)"
      "onlink ?f1 = onlink f"
    using run_dels [of ?rem f] words liveD by (auto simp: removed_routes_def)
  have "distinct (map (fst \<circ> route_triple) ?add)"
    using dt(2) unfolding added_routes_def by (rule distinct_map_filter)
  then have r: "lookup (run_batch exec (map (route_line ''replace'') ?add) ?f1) = lookup ?f1 ++ map_of (map route_triple ?add)"
    using run_replaces [of ?add ?f1] words reach d(2) by (auto simp: added_routes_def)
  have "(lookup ?f1 ++ map_of (map route_triple ?add)) a = table_fib cur a" for a
  proof (cases "a \<in> (fst \<circ> route_triple) ` set ?add")
    case True
    then obtain e where e: "e \<in> set ?add" "a = fst (route_triple e)" by auto
    then have "map_of (map route_triple ?add) a = Some (snd (route_triple e))"
      using \<open>distinct (map (fst \<circ> route_triple) ?add)\<close>
      by (simp add: comp_def map_of_eq_Some_iff image_iff) (metis prod.collapse)
    then show ?thesis using e curD by (simp add: added_routes_def)
  next
    case False
    then have n: "map_of (map route_triple ?add) a = None"
      by (auto simp: map_of_eq_None_iff image_iff)
    show ?thesis
    proof (cases "a \<in> (fst \<circ> route_triple) ` set cur")
      case True
      then obtain e where e: "e \<in> set cur" "a = fst (route_triple e)" by auto
      with False have "entry_key e \<in> set (map entry_key prv)" by (auto simp: added_routes_def)
      then obtain p where p: "p \<in> set prv" "addr_of e = addr_of p" "snd (route_triple e) = snd (route_triple p)"
        by (auto simp: key_triple)
      have "fst (route_triple p) = a" using p e addr_triple words by auto
      moreover have "a \<notin> (fst \<circ> route_triple) ` set ?rem"
      proof
        assume "a \<in> (fst \<circ> route_triple) ` set ?rem"
        then obtain x where x: "x \<in> set prv" "addr_of x \<notin> addr_of ` set cur" "fst (route_triple x) = a"
          by (auto simp: removed_routes_def)
        have "addr_of x = addr_of e" using addr_triple [of x e] words x e by simp
        then show False using x e by blast
      qed
      moreover have "dev_name (re_iface p) = dev_name (re_iface e)" using p(3) by (simp add: route_triple_def)
      ultimately show ?thesis
        using liveD [OF p(1)] reach e curD [OF e(1)] n d(1) p(3) by (simp add: map_add_def)
    next
      case False
      then have c: "table_fib cur a = None" by (auto simp: table_fib_def map_of_eq_None_iff image_iff)
      have "lookup ?f1 a = None"
      proof (cases "a \<in> (fst \<circ> route_triple) ` set ?rem")
        case noremove: False
        have "lookup f a = None"
        proof (cases "table_fib prv a")
          case (Some gd)
          then obtain p where p: "p \<in> set prv" "a = fst (route_triple p)" "gd = snd (route_triple p)"
            unfolding table_fib_def by (metis (mono_tags, lifting) fst_conv imageE image_set map_of_SomeD snd_conv)
          have "addr_of p \<notin> set (map addr_of cur)"
            using False p addr_triple words by auto
          then have "dev_name (re_iface p) \<notin> set live" using noremove p by (auto simp: removed_routes_def)
          then show ?thesis using Some p by (simp add: before live_fib_def route_triple_def)
        qed (simp add: before live_fib_def)
        then show ?thesis using d(1) noremove by simp
      qed (simp add: d(1))
      then show ?thesis using n c by (simp add: map_add_def)
    qed
  qed
  then show ?thesis
    using r by (simp add: emit_routes [OF ok] run_batch_append fun_eq_iff)
qed

end

text \<open>
  \<^bold>\<open>C1.\<close> Executing the batch that the diff of two routing tables emits leaves exactly
  the current table in the kernel, whatever the previous one was: stale prefixes are
  gone, moved ones are replaced, the kept ones are still there, also when devices of
  the previous table have disappeared (with the routes through them) in between.
\<close>

theorem static_batch_installs:
  assumes "kernel_fib lookup onlink exec" "table_ok prv" "table_ok cur"
    and "lookup f = live_fib live prv"
    and "list_all (\<lambda>e. (re_gateway e, dev_name (re_iface e)) \<in> onlink f \<and> dev_name (re_iface e) \<in> set live) cur"
  shows "lookup (run_batch exec (emit_batch_commands False prv cur (Some live)) f) = table_fib cur"
  using kernel_fib.batch_installs [OF assms(1-4)] assms(5) by (simp add: list_all_iff route_triple_def)

definition demo_iface :: "nat \<Rightarrow> string \<Rightarrow> iface" where
  "demo_iface oid peer = (new_iface oid (''Sat1.'' @ peer) ''ISL'')\<lparr>if_peer := Some (''Sat'' @ peer @ ''.1'', ''10.0.0.'' @ peer)\<rparr>"

definition demo_route :: "string \<Rightarrow> string \<Rightarrow> route" where
  "demo_route dest peer = route_from_validated dest (demo_iface 7 peer) (''10.0.0.'' @ peer) 15 ''Sat9'' ''Sat1'' ''130.2.0.0''"

lemma static_batch_installs_witness:
  "table_fib [demo_route ''130.4.0.0'' ''3'', demo_route ''130.6.0.0'' ''4''] =
   fst (run_batch ref_exec (emit_batch_commands False [demo_route ''130.4.0.0'' ''2'', demo_route ''130.8.0.0'' ''3'']
       [demo_route ''130.4.0.0'' ''3'', demo_route ''130.6.0.0'' ''4''] (Some [''eth3'', ''eth4'']))
     (live_fib [''eth3'', ''eth4''] [demo_route ''130.4.0.0'' ''2'', demo_route ''130.8.0.0'' ''3''],
      {(''10.0.0.3'', ''eth3''), (''10.0.0.4'', ''eth4'')}))"
  by (rule static_batch_installs [OF ref_kernel.kernel_fib_axioms, symmetric])
     (simp_all add: table_ok_def route_words_ok_def addr_of_def get_prefix_def demo_route_def
       route_from_validated_def demo_iface_def new_iface_def dev_name_def get_iname_def)

text \<open>
  The diff is minimal: a batch never touches a route that is in both tables,
  it is empty when the tables are the same list object or equal, and it replaces an
  entry exactly when the previous table has no entry with the same destination,
  prefix, gateway and device.
\<close>

theorem static_batch_minimal:
  assumes "table_ok prv" "table_ok cur"
  shows "emit_batch_commands True prv cur live = [] \<and>
    emit_batch_commands False cur cur live = [] \<and>
    emit_batch_commands False prv cur (Some devs) =
      map (route_line ''del'') (filter (\<lambda>e. addr_of e \<notin> set (map addr_of cur) \<and> dev_name (re_iface e) \<in> set devs) prv) @
      map (route_line ''replace'') (filter (\<lambda>e. entry_key e \<notin> set (map entry_key prv)) cur)"
proof -
  have "emit_batch_commands False cur cur live = []"
    unfolding emit_batch_commands_def Let_def keyed_distinct [OF assms(2)] by (auto simp: comp_def filter_empty_conv)
  then show ?thesis
    using emit_routes [OF assms, of devs]
    by (simp add: removed_routes_def added_routes_def emit_batch_commands_def)
qed

lemma static_batch_minimal_witness:
  "emit_batch_commands False [demo_route ''130.4.0.0'' ''2''] [demo_route ''130.4.0.0'' ''2''] None = []"
  using static_batch_minimal [of "[demo_route ''130.4.0.0'' ''2'']" "[demo_route ''130.4.0.0'' ''2'']" None]
  by (simp add: table_ok_def route_words_ok_def demo_route_def route_from_validated_def demo_iface_def
      new_iface_def dev_name_def get_iname_def)

section \<open>Next-hop vectors\<close>

lemma set_signature_get:
  "dict_get (set_signature len i sigs (s, h)) k =
    (if k = s then Some ((case dict_get sigs s of Some v \<Rightarrow> v | None \<Rightarrow> replicate len None)[i := Some h])
     else dict_get sigs k)"
  by (simp add: set_signature_def Let_def split: option.split)

definition sig_or :: "nat \<Rightarrow> (int, int option list) dict \<Rightarrow> int \<Rightarrow> int option list" where
  "sig_or len sigs k = dict_get_or sigs k (replicate len None)"

lemma sig_or_set_signature:
  "sig_or len (set_signature len i sigs (s, h)) k = (if k = s then (sig_or len sigs s)[i := Some h] else sig_or len sigs k)"
  by (auto simp: sig_or_def dict_get_or_def set_signature_get split: option.split)

lemma sig_or_hops:
  "dict_ok hs \<Longrightarrow> sig_or len (foldl (set_signature len i) sigs hs) k =
    (case dict_get hs k of Some h \<Rightarrow> (sig_or len sigs k)[i := Some h] | None \<Rightarrow> sig_or len sigs k)"
proof (induction hs arbitrary: sigs)
  case (Cons p hs)
  obtain s h where p: "p = (s, h)" by (cases p)
  have "dict_get hs s = None" using Cons.prems p by (auto simp: map_of_eq_None_iff)
  then show ?case using Cons p by (auto simp: sig_or_set_signature split: option.split)
qed simp

lemma transpose_fold:
  assumes "list_all dict_ok hops" "m + length hops \<le> len" "length (sig_or len sigs k) = len"
    "drop m (sig_or len sigs k) = replicate (len - m) None"
  shows "sig_or len (foldl (\<lambda>sigs (i, h). foldl (set_signature len i) sigs h) sigs (enumerate m hops)) k =
    take m (sig_or len sigs k) @ map (\<lambda>h. dict_get h k) hops @ replicate (len - m - length hops) None"
  using assms
proof (induction hops arbitrary: m sigs)
  case Nil
  then show ?case by (metis append_Nil append_take_drop_id diff_zero enumerate_simps(1) foldl_Nil list.map(1) list.size(3))
next
  case (Cons h hops)
  let ?s = "sig_or len sigs k" and ?sigs = "foldl (set_signature len m) sigs h"
  have s': "sig_or len ?sigs k = ?s[m := dict_get h k]"
  proof (cases "dict_get h k")
    case None
    have "?s ! m = drop m ?s ! 0" using Cons.prems(2,3) by simp
    also have "\<dots> = None" using Cons.prems(2,4) by simp
    finally have "?s ! m = None" .
    then have "?s[m := None] = ?s" by (metis list_update_id)
    then show ?thesis using Cons.prems None by (simp add: sig_or_hops)
  qed (use Cons.prems in \<open>simp add: sig_or_hops\<close>)
  have m: "m < len" using Cons.prems(2) by simp
  have "drop 1 (drop m ?s) = replicate (len - Suc m) None" using Cons.prems(4) by simp
  then have d: "drop (Suc m) (sig_or len ?sigs k) = replicate (len - Suc m) None" by (simp add: s')
  have t: "take (Suc m) (sig_or len ?sigs k) = take m ?s @ [dict_get h k]"
    using m Cons.prems(3) by (simp add: s' take_Suc_conv_app_nth)
  have "sig_or len (foldl (\<lambda>sigs (i, h). foldl (set_signature len i) sigs h) ?sigs (enumerate (Suc m) hops)) k =
      take (Suc m) (sig_or len ?sigs k) @ map (\<lambda>h. dict_get h k) hops @ replicate (len - Suc m - length hops) None"
    using Cons.prems d by (intro Cons.IH) (simp_all add: s')
  then show ?case using t m by simp
qed

lemma transpose_hops_correct_aux:
  assumes "list_all dict_ok hops"
  shows "dict_get_or (transpose_hops hops) src (no_route_signature (length hops)) = map (\<lambda>h. dict_get h src) hops"
  using transpose_fold [of hops 0 "length hops" "[]" src] assms
  by (simp add: sig_or_def dict_get_or_def transpose_hops_def no_route_signature_def)

text \<open>
  The transposition of the destination-indexed next-hop dictionaries gives every
  source exactly its vector of next hops in destination order, with no entry where
  a destination has no path; a source absent from all of them gets the vector of
  missing routes.
\<close>

theorem transpose_hops_correct:
  assumes "list_all dict_ok hops"
  shows "dict_get_or (transpose_hops hops) src (no_route_signature (length hops)) = map (\<lambda>h. dict_get h src) hops"
  by (rule transpose_hops_correct_aux [OF assms])

lemma transpose_hops_correct_witness:
  "dict_get_or (transpose_hops [[(1, 2), (3, 2)], [(3, 1)]]) 1 (no_route_signature 2) = [Some 2, None]"
  using transpose_hops_correct [of "[[(1, 2), (3, 2)], [(3, 1)]]" 1] by (simp add: eval_nat_numeral)

section \<open>Reuse of cached routes\<close>

text \<open>The table the daemon means to install: one route per destination with a next hop.\<close>

fun spec_route :: "source_ctx \<Rightarrow> node \<Rightarrow> int \<Rightarrow> route option" where
  "spec_route c dst next_hop =
    (case sc_ifaces c of None \<Rightarrow> None | Some m \<Rightarrow>
     (case dict_get m next_hop of None \<Rightarrow> None | Some i \<Rightarrow>
     (case if_peer i of None \<Rightarrow> None | Some (_, gw) \<Rightarrow>
     (case dict_get (sc_summarized c) (nd_id dst) of None \<Rightarrow> None | Some d \<Rightarrow>
       Some (route_from_validated d i gw (sc_prefix c) (nd_name dst) (sc_name c) (sc_summary c))))))"

declare spec_route.simps [simp del]

definition spec_entries :: "source_ctx \<Rightarrow> (node \<times> int option) list \<Rightarrow> (int, route) dict" where
  "spec_entries c l = map (\<lambda>(x, h). (nd_id x, the (spec_route c x (the h)))) (filter (\<lambda>(x, h). h \<noteq> None) l)"

definition spec_table :: "source_ctx \<Rightarrow> node list \<Rightarrow> int option list \<Rightarrow> route list" where
  "spec_table c dsts sig = map snd (spec_entries c (zip dsts sig))"

definition spec_ok :: "source_ctx \<Rightarrow> (node \<times> int option) list \<Rightarrow> bool" where
  "spec_ok c l = list_all (\<lambda>(x, h). case h of Some k \<Rightarrow> spec_route c x k \<noteq> None | None \<Rightarrow> True) l"

definition cached_ok :: "(int, route) dict \<Rightarrow> bool" where
  "cached_ok d = list_all (\<lambda>(k, r). re_update r) d"

lemma reuse_or_new_eq:
  assumes "case cached of Some r \<Rightarrow> re_update r | None \<Rightarrow> True"
  shows "reuse_or_new cached d i g p t n s = route_from_validated d i g p t n s"
proof (cases cached)
  case (Some r)
  then show ?thesis using assms by (cases r) (auto simp: reuse_or_new_def route_from_validated_def)
qed (simp add: reuse_or_new_def)

lemma cached_ok_get: "cached_ok d \<Longrightarrow> case dict_get d k of Some r \<Rightarrow> re_update r | None \<Rightarrow> True"
  by (cases "dict_get d k") (auto simp: cached_ok_def list_all_iff dest!: map_of_SomeD)

lemma build_entries_spec:
  assumes "build_entries c cached l new_entries table = Inr (es, t)" "cached_ok cached"
    and "distinct (map (\<lambda>q. nd_id (fst q)) l)" "nd_id ` fst ` set l \<inter> set (dict_keys new_entries) = {}"
  shows "es = new_entries @ spec_entries c l \<and> t = table @ map snd (spec_entries c l) \<and> spec_ok c l"
  using assms
proof (induction l arbitrary: new_entries table)
  case (Cons p rest)
  obtain dst nh where p: "p = (dst, nh)" by (cases p)
  show ?case
  proof (cases nh)
    case None
    then show ?thesis using Cons p by (auto simp: spec_entries_def spec_ok_def)
  next
    case nh: (Some next_hop)
    from Cons.prems(1) p nh obtain m i pn gw d where *: "sc_ifaces c = Some m" "dict_get m next_hop = Some i"
      "if_peer i = Some (pn, gw)" "dict_get (sc_summarized c) (nd_id dst) = Some d"
      by (auto split: option.splits)
    let ?e = "reuse_or_new (dict_get cached (nd_id dst)) d i gw (sc_prefix c) (nd_name dst) (sc_name c) (sc_summary c)"
    let ?new = "new_entries @ [(nd_id dst, ?e)]"
    have e: "spec_route c dst next_hop = Some ?e"
      using * reuse_or_new_eq [OF cached_ok_get [OF Cons.prems(2)]] by (simp add: spec_route.simps)
    have "nd_id dst \<notin> set (dict_keys new_entries)" using Cons.prems(4) p by auto
    then have app: "dict_set (nd_id dst) ?e new_entries = ?new"
      by (induction new_entries) auto
    have "build_entries c cached rest ?new (table @ [?e]) = Inr (es, t)"
      using Cons.prems(1) * app p nh by (simp add: Let_def)
    moreover have "distinct (map (\<lambda>q. nd_id (fst q)) rest)" "nd_id ` fst ` set rest \<inter> set (dict_keys ?new) = {}"
      using Cons.prems(3,4) p by (auto simp: image_image)
    ultimately have "es = ?new @ spec_entries c rest" "t = (table @ [?e]) @ map snd (spec_entries c rest)" "spec_ok c rest"
      using Cons.IH [of ?new "table @ [?e]"] Cons.prems(2) by blast+
    then show ?thesis using e p nh by (simp add: spec_entries_def spec_ok_def)
  qed
qed (simp add: spec_entries_def spec_ok_def)

lemma filter_hits:
  assumes "distinct (x # xs)" "filter (\<lambda>k. k \<in> set ks) xs = ks"
  shows "filter (\<lambda>k. k \<in> set (x # ks)) (x # xs) = x # ks" "filter (\<lambda>k. k \<in> set ks) (x # xs) = ks"
proof -
  have "set ks \<subseteq> set xs" using assms(2) by (metis filter_is_subset)
  then have "x \<notin> set ks" using assms(1) by auto
  then show "filter (\<lambda>k. k \<in> set ks) (x # xs) = ks" using assms(2) by simp
  have "filter (\<lambda>k. k \<in> set (x # ks)) xs = filter (\<lambda>k. k \<in> set ks) xs"
    by (rule filter_cong [OF refl]) (use assms(1) in auto)
  then show "filter (\<lambda>k. k \<in> set (x # ks)) (x # xs) = x # ks" using assms(2) by simp
qed

lemma filter_routed:
  assumes "distinct (map nd_id dsts)" "map fst d = map (\<lambda>q. nd_id (fst q)) (filter (\<lambda>(x, h). h \<noteq> None) (zip dsts sig))"
  shows "filter (\<lambda>k. dict_get d k \<noteq> None) (map nd_id dsts) = map fst d"
proof -
  have "filter (\<lambda>k. k \<in> set (map (\<lambda>q. nd_id (fst q)) (filter (\<lambda>(x, h). h \<noteq> None) (zip dsts sig)))) (map nd_id dsts) =
      map (\<lambda>q. nd_id (fst q)) (filter (\<lambda>(x, h). h \<noteq> None) (zip dsts sig))"
    using assms(1)
  proof (induction dsts sig rule: list_induct2')
    case (4 x xs y ys)
    let ?ks = "map (\<lambda>q. nd_id (fst q)) (filter (\<lambda>(x, h). h \<noteq> None) (zip xs ys))"
    have "distinct (nd_id x # map nd_id xs)" "filter (\<lambda>k. k \<in> set ?ks) (map nd_id xs) = ?ks"
      using 4 by simp_all
    note hits = filter_hits [OF this]
    show ?case
    proof (cases y)
      case None
      have "map (\<lambda>q. nd_id (fst q)) (filter (\<lambda>(x, h). h \<noteq> None) (zip (x # xs) (y # ys))) = ?ks"
        using None by simp
      then show ?thesis using hits(2) by (simp only: list.map)
    next
      case (Some h)
      have "map (\<lambda>q. nd_id (fst q)) (filter (\<lambda>(x, h). h \<noteq> None) (zip (x # xs) (y # ys))) = nd_id x # ?ks"
        using Some by simp
      then show ?thesis using hits(1) by (simp only: list.map)
    qed
  qed auto
  moreover have "dict_get d k \<noteq> None \<longleftrightarrow> k \<in> set (map fst d)" for k by (simp add: map_of_eq_None_iff)
  ultimately show ?thesis using assms(2) by simp
qed

lemma spec_route_update: "spec_route c x k = Some r \<Longrightarrow> re_update r"
  by (auto simp: spec_route.simps route_from_validated_def split: option.splits)

lemma cached_ok_spec: "spec_ok c l \<Longrightarrow> cached_ok (spec_entries c l)"
proof (induction l)
  case (Cons p l)
  obtain x h where "p = (x, h)" by (cases p)
  then show ?case using Cons
    by (cases h) (auto simp: cached_ok_def spec_entries_def spec_ok_def intro: spec_route_update)
qed (simp add: cached_ok_def spec_entries_def)

lemma fast_path_table:
  assumes "distinct (map nd_id dsts)"
  shows "map (\<lambda>d. the (dict_get (spec_entries c (zip dsts sig)) d))
      (filter (\<lambda>d. dict_get (spec_entries c (zip dsts sig)) d \<noteq> None) (map nd_id dsts)) = spec_table c dsts sig"
proof -
  let ?d = "spec_entries c (zip dsts sig)"
  have k: "map fst ?d = map (\<lambda>q. nd_id (fst q)) (filter (\<lambda>(x, h). h \<noteq> None) (zip dsts sig))"
    by (auto simp: spec_entries_def comp_def)
  have f: "filter (\<lambda>d. dict_get ?d d \<noteq> None) (map nd_id dsts) = map fst ?d"
    by (rule filter_routed [OF assms k])
  then have "distinct (map fst ?d)" using assms by (metis distinct_filter)
  then have "map (\<lambda>d. the (dict_get ?d d)) (map fst ?d) = map snd ?d" by (auto simp: comp_def)
  then show ?thesis unfolding f spec_table_def .
qed

text \<open>
  A cache is valid for a source and a list of destinations when the stored
  entries are those the stored signature stands for.
\<close>

definition cache_valid :: "source_ctx \<Rightarrow> node list \<Rightarrow> static_daemon \<Rightarrow> int \<Rightarrow> bool" where
  "cache_valid c dsts sd src =
    (case dict_get (sd_entries sd) src of None \<Rightarrow> True
     | Some es \<Rightarrow> cached_ok es \<and>
        (case dict_get (sd_signatures sd) src of None \<Rightarrow> True
         | Some sig \<Rightarrow> es = spec_entries c (zip dsts sig) \<and> spec_ok c (zip dsts sig)))"

lemma cache_valid_cleared [simp]: "cache_valid c dsts (clear_caches sd) src"
  by (simp add: cache_valid_def clear_caches_def)

lemma install_fast:
  assumes "Some sig = dict_get (sd_signatures sd) (nd_id n)" "dict_get (sd_entries sd) (nd_id n) = Some es"
  shows "install_source_routes c dsts sig sd n =
    (let table = map (\<lambda>d. the (dict_get es d)) (filter (\<lambda>d. dict_get es d \<noteq> None) (map nd_id dsts))
     in Inr (sd, n\<lparr>nd_curr := table, nd_prev := table, nd_aliased := True\<rparr>))"
  using assms by (simp add: install_source_routes_def)

lemma install_source_routes_spec:
  assumes "install_source_routes c dsts sig sd n = Inr (sd', n')"
    and "cache_valid c dsts sd (nd_id n)" "distinct (map nd_id dsts)"
  shows "nd_curr n' = spec_table c dsts sig" "spec_ok c (zip dsts sig)" "cache_valid c dsts sd' (nd_id n)"
    "nd_id n' = nd_id n" "nd_aliased n' \<longrightarrow> nd_prev n' = nd_curr n'" "nd_ifaces n' = nd_ifaces n"
proof -
  let ?src = "nd_id n"
  have "nd_curr n' = spec_table c dsts sig \<and> spec_ok c (zip dsts sig) \<and> cache_valid c dsts sd' ?src \<and>
      nd_id n' = ?src \<and> (nd_aliased n' \<longrightarrow> nd_prev n' = nd_curr n') \<and> nd_ifaces n' = nd_ifaces n"
  proof (cases "Some sig = dict_get (sd_signatures sd) ?src \<and> dict_get (sd_entries sd) ?src \<noteq> None")
    case True
    then obtain es where es: "dict_get (sd_entries sd) ?src = Some es" by auto
    have v: "es = spec_entries c (zip dsts sig)" "spec_ok c (zip dsts sig)"
      using True assms(2) es by (auto simp: cache_valid_def split: option.splits)
    from True have sig: "Some sig = dict_get (sd_signatures sd) ?src" by simp
    show ?thesis
      using assms(1,2) v(2) fast_path_table [OF assms(3), of c sig] install_fast [OF sig es, of c dsts]
      unfolding v(1) by (auto simp: Let_def)
  next
    case False
    let ?cached = "case dict_get (sd_entries sd) ?src of Some d \<Rightarrow> d | None \<Rightarrow> []"
    have ok: "cached_ok ?cached"
      using assms(2) by (auto simp: cache_valid_def cached_ok_def split: option.splits)
    obtain es t where b: "build_entries c ?cached (zip dsts sig) [] [] = Inr (es, t)"
      "sd' = sd\<lparr>sd_entries := dict_set ?src es (sd_entries sd), sd_signatures := dict_set ?src sig (sd_signatures sd)\<rparr>"
      "n' = n\<lparr>nd_curr := t, nd_aliased := False\<rparr>"
      using assms(1) False by (auto simp: install_source_routes_def Let_def)
    have "distinct (map (\<lambda>q. nd_id (fst q)) (zip dsts sig))"
      using assms(3) by (induction dsts sig rule: list_induct2') (auto dest: set_zip_leftD)
    then have "es = spec_entries c (zip dsts sig)" "t = map snd (spec_entries c (zip dsts sig))" "spec_ok c (zip dsts sig)"
      using build_entries_spec [OF b(1) ok] by auto
    then show ?thesis using b(2,3) cached_ok_spec by (auto simp: spec_table_def cache_valid_def)
  qed
  then show "nd_curr n' = spec_table c dsts sig" "spec_ok c (zip dsts sig)" "cache_valid c dsts sd' (nd_id n)"
    "nd_id n' = nd_id n" "nd_aliased n' \<longrightarrow> nd_prev n' = nd_curr n'" "nd_ifaces n' = nd_ifaces n" by blast+
qed

lemma install_source_routes_frame:
  assumes "install_source_routes c dsts sig sd n = Inr (sd', n')" "k \<noteq> nd_id n"
  shows "cache_valid c' dsts' sd' k = cache_valid c' dsts' sd k"
proof -
  have eq: "dict_get (sd_entries sd') k = dict_get (sd_entries sd) k"
    "dict_get (sd_signatures sd') k = dict_get (sd_signatures sd) k"
    using assms by (auto simp: install_source_routes_def Let_def split: if_splits)
  show ?thesis unfolding cache_valid_def eq ..
qed

text \<open>
  \<^bold>\<open>C2.\<close> Incremental rebuilding is equivalent to rebuilding from scratch: when the
  cache of a source is valid for the destinations, the table that is installed
  (by the fast path, by reusing entries or by making new ones) is the one a daemon
  with an empty cache installs, and the cache stays valid.
\<close>

theorem incremental_rebuild:
  assumes "install_source_routes c dsts sig sd n = Inr (sd', n')"
    and "cache_valid c dsts sd (nd_id n)" "distinct (map nd_id dsts)"
  shows "cache_valid c dsts sd' (nd_id n) \<and>
    (\<exists>sd0 n0. install_source_routes c dsts sig (clear_caches sd) n = Inr (sd0, n0) \<and> nd_curr n0 = nd_curr n')"
proof -
  note s = install_source_routes_spec [OF assms]
  have "build_entries c [] (zip dsts sig) new t = Inr (new @ spec_entries c (zip dsts sig), t @ spec_table c dsts sig)"
    if "spec_ok c (zip dsts sig)" "distinct (map nd_id dsts)" "nd_id ` set dsts \<inter> set (dict_keys new) = {}" for new t
    using that
  proof (induction dsts sig arbitrary: new t rule: list_induct2')
    case (4 x xs y ys)
    show ?case
    proof (cases y)
      case (Some h)
      have ok: "spec_ok c (zip xs ys)" "spec_route c x h \<noteq> None" using "4.prems"(1) Some by (simp_all add: spec_ok_def)
      then obtain r where r: "spec_route c x h = Some r" by auto
      have "nd_id x \<notin> set (dict_keys new)" using "4.prems"(3) by auto
      then have app: "dict_set (nd_id x) r new = new @ [(nd_id x, r)]" by (induction new) auto
      have "nd_id ` set xs \<inter> set (dict_keys (new @ [(nd_id x, r)])) = {}" using "4.prems"(2,3) by auto
      then have "build_entries c [] (zip xs ys) (new @ [(nd_id x, r)]) (t @ [r]) =
          Inr ((new @ [(nd_id x, r)]) @ spec_entries c (zip xs ys), (t @ [r]) @ spec_table c xs ys)"
        using "4.IH" [of "new @ [(nd_id x, r)]" "t @ [r]"] ok(1) "4.prems"(2) by simp
      moreover have "build_entries c [] ((x, Some h) # zip xs ys) new t =
          build_entries c [] (zip xs ys) (dict_set (nd_id x) r new) (t @ [r])"
        using r by (auto simp: spec_route.simps reuse_or_new_def Let_def split: option.splits)
      ultimately show ?thesis using Some r app by (simp add: spec_entries_def spec_table_def)
    qed (use 4 in \<open>auto simp: spec_ok_def spec_entries_def spec_table_def\<close>)
  qed (auto simp: spec_entries_def spec_table_def)
  from this [OF s(2) assms(3), of "[]" "[]"] show ?thesis
    using s(1,3) by (simp add: install_source_routes_def clear_caches_def Let_def)
qed

definition demo_node :: "string \<Rightarrow> int \<Rightarrow> string \<Rightarrow> node" where
  "demo_node name i ip = \<lparr>nd_name = name, nd_id = i, nd_type = ''Satellite'', nd_ifaces = [],
     nd_loopback = set_ip ip (new_iface 0 ''lo'' ''lo''), nd_curr = [], nd_prev = [], nd_aliased = False,
     nd_addressable = True\<rparr>"

definition demo_ctx :: source_ctx where
  "demo_ctx = \<lparr>sc_ifaces = Some [(3, demo_iface 5 ''3'')], sc_summary = ''130.2.0.0'', sc_name = ''Sat1'',
     sc_summarized = [(8, ''130.16.0.0''), (9, ''130.18.0.0'')], sc_prefix = 15\<rparr>"

lemma incremental_rebuild_witness:
  "cache_valid demo_ctx [demo_node ''Sat8'' 8 [], demo_node ''Sat9'' 9 []]
    (fst (projr (install_source_routes demo_ctx [demo_node ''Sat8'' 8 [], demo_node ''Sat9'' 9 []] [Some 3, None]
       new_static_daemon (demo_node ''Sat1'' 1 [])))) 1"
proof -
  let ?d = "[demo_node ''Sat8'' 8 [], demo_node ''Sat9'' 9 []]"
  have "\<exists>sd' n'. install_source_routes demo_ctx ?d [Some 3, None] new_static_daemon (demo_node ''Sat1'' 1 []) = Inr (sd', n')"
    by (simp add: install_source_routes_def new_static_daemon_def demo_ctx_def demo_node_def demo_iface_def
        new_iface_def Let_def)
  then obtain sd' n' where i: "install_source_routes demo_ctx ?d [Some 3, None] new_static_daemon (demo_node ''Sat1'' 1 []) = Inr (sd', n')"
    by blast
  moreover have "cache_valid demo_ctx ?d new_static_daemon (nd_id (demo_node ''Sat1'' 1 []))" "distinct (map nd_id ?d)"
    by (simp_all add: cache_valid_def new_static_daemon_def demo_node_def)
  ultimately have "cache_valid demo_ctx ?d sd' (nd_id (demo_node ''Sat1'' 1 []))"
    using incremental_rebuild by blast
  then show ?thesis using i by (simp add: demo_node_def)
qed

text \<open>
  The signature does not name the destinations. When the next-hop vector of a
  source is the stored one but a destination with a next hop is not among the stored
  entries (an addressable satellite took the place of another one), the installed
  table has no route to it and the diff emits no command, so the route is missing
  from the daemon's table and from the node.
\<close>

theorem signature_misses_new_destination:
  assumes "dict_get (sd_signatures sd) (nd_id n) = Some sig" "dict_get (sd_entries sd) (nd_id n) = Some es"
    and "dst \<in> set dsts" "list_all (\<lambda>(k, r). re_target_node r \<noteq> nd_name dst) es"
  shows "\<exists>n'. install_source_routes c dsts sig sd n = Inr (sd, n') \<and>
    list_all (\<lambda>r. re_target_node r \<noteq> nd_name dst) (nd_curr n') \<and> snd (node_job n') = []"
proof -
  have "re_target_node r \<noteq> nd_name dst" if "dict_get es k = Some r" for k r
    using assms(4) map_of_SomeD [OF that] by (auto simp: list_all_iff)
  then have "list_all (\<lambda>r. re_target_node r \<noteq> nd_name dst)
      (map (\<lambda>d. the (dict_get es d)) (filter (\<lambda>d. dict_get es d \<noteq> None) (map nd_id dsts)))"
    by (auto simp: list_all_iff simp del: not_None_eq)
  then show ?thesis
    using assms(1) install_fast [OF _ assms(2), of sig c dsts]
    by (simp add: Let_def node_job_def emit_batch_commands_def)
qed

definition demo_stale :: static_daemon where
  "demo_stale = new_static_daemon\<lparr>sd_signatures := [(1, [Some 3])],
     sd_entries := [(1, [(8, (demo_route ''130.16.0.0'' ''3'')\<lparr>re_target_node := ''Sat8''\<rparr>)])]\<rparr>"

lemma signature_misses_new_destination_witness:
  "\<exists>n'. install_source_routes demo_ctx [demo_node ''Sat9'' 9 []] [Some 3] demo_stale (demo_node ''Sat1'' 1 []) =
      Inr (demo_stale, n') \<and>
    list_all (\<lambda>r. re_target_node r \<noteq> nd_name (demo_node ''Sat9'' 9 [])) (nd_curr n') \<and> snd (node_job n') = []"
  by (rule signature_misses_new_destination
        [where es = "[(8, (demo_route ''130.16.0.0'' ''3'')\<lparr>re_target_node := ''Sat8''\<rparr>)]"]) (simp_all add: demo_node_def demo_stale_def list_all_iff)

section \<open>The tables of the whole network\<close>

abbreviation gs_nodes :: "network \<Rightarrow> node list" where
  "gs_nodes nt \<equiv> dict_vals (nt_gss nt)"

abbreviation sat_nodes :: "network \<Rightarrow> node list" where
  "sat_nodes nt \<equiv> dict_vals (nt_sats nt)"

definition next_hop_of :: "graph \<Rightarrow> node \<Rightarrow> node \<Rightarrow> int option" where
  "next_hop_of g dst src = (case igraph_next_hops g (nd_id dst) of Inr h \<Rightarrow> dict_get h (nd_id src) | Inl _ \<Rightarrow> None)"

definition hop_vector :: "graph \<Rightarrow> network \<Rightarrow> node \<Rightarrow> int option list" where
  "hop_vector g nt src = map (\<lambda>dst. next_hop_of g dst src) (dst_array nt)"

lemma igraph_next_hops_ok: "igraph_next_hops g d = Inr h \<Longrightarrow> dict_ok h"
  by (auto simp: igraph_next_hops_def Let_def split: option.splits)

lemma rmap_Inr_map: "rmap f xs = Inr ys \<Longrightarrow> map f xs = map Inr ys"
  by (induction xs arbitrary: ys) auto

lemma rmap_all: "\<lbrakk>rmap f xs = Inr ys; \<And>x y. f x = Inr y \<Longrightarrow> P y\<rbrakk> \<Longrightarrow> list_all P ys"
  by (induction xs arbitrary: ys) auto

lemma dict_get_or_zip:
  "\<lbrakk>distinct ks; length ks = length vs\<rbrakk> \<Longrightarrow> map (\<lambda>k. dict_get_or (dict_of (zip ks vs)) k d) ks = vs"
proof -
  assume "distinct ks" "length ks = length vs"
  then have "dict_of (zip ks vs) = zip ks vs" by (intro dict_of_distinct) simp
  then show ?thesis using \<open>distinct ks\<close> \<open>length ks = length vs\<close>
    by (auto simp: dict_get_or_def map_of_zip_nth intro!: nth_equalityI)
qed

lemma hop_vector_signature:
  assumes "rmap (\<lambda>dst. igraph_next_hops g (nd_id dst)) (dst_array nt) = Inr hops" "distinct (map nd_id (dst_array nt))"
  shows "dict_get_or (transpose_hops (map (\<lambda>dst. dict_get_or (dict_of (zip (map nd_id (dst_array nt)) hops)) (nd_id dst) [])
      (dst_array nt))) (nd_id src) (no_route_signature (length (dst_array nt))) = hop_vector g nt src"
proof -
  let ?ds = "dst_array nt"
  have len: "length hops = length ?ds" using rmap_length [OF assms(1)] .
  have m: "map (\<lambda>dst. igraph_next_hops g (nd_id dst)) ?ds = map Inr hops" by (rule rmap_Inr_map [OF assms(1)])
  have ok: "list_all dict_ok hops" by (rule rmap_all [OF assms(1) igraph_next_hops_ok])
  have z: "map (\<lambda>dst. dict_get_or (dict_of (zip (map nd_id ?ds) hops)) (nd_id dst) []) ?ds = hops"
    using dict_get_or_zip [OF assms(2), of hops "[]"] len by (simp add: comp_def)
  have "map (\<lambda>h. dict_get h (nd_id src)) hops = hop_vector g nt src"
  proof (rule nth_equalityI)
    fix i assume i: "i < length (map (\<lambda>h. dict_get h (nd_id src)) hops)"
    then have "igraph_next_hops g (nd_id (?ds ! i)) = Inr (hops ! i)"
      using m len by (metis (mono_tags, lifting) length_map nth_map)
    then show "map (\<lambda>h. dict_get h (nd_id src)) hops ! i = hop_vector g nt src ! i"
      using i len by (simp add: hop_vector_def next_hop_of_def)
  qed (simp add: hop_vector_def len)
  then show ?thesis
    unfolding z using transpose_hops_correct_aux [OF ok, of "nd_id src"] len by simp
qed

lemma thread_nodes_spec:
  assumes "thread_nodes (\<lambda>sd n. install_source_routes (ctx n) dsts (sig n) sd n) sd d = Inr (sd', d')"
    and "distinct (map nd_id (dict_vals d))" "list_all (\<lambda>n. cache_valid (ctx n) dsts sd (nd_id n)) (dict_vals d)"
    and "distinct (map nd_id dsts)"
  shows "map nd_curr (dict_vals d') = map (\<lambda>n. spec_table (ctx n) dsts (sig n)) (dict_vals d) \<and>
    map fst d' = map fst d \<and>
    map (\<lambda>n. (nd_id n, nd_ifaces n)) (dict_vals d') = map (\<lambda>n. (nd_id n, nd_ifaces n)) (dict_vals d) \<and>
    list_all (\<lambda>n. spec_ok (ctx n) (zip dsts (sig n))) (dict_vals d) \<and>
    list_all (\<lambda>n. cache_valid (ctx n) dsts sd' (nd_id n)) (dict_vals d) \<and>
    (\<forall>k c ds. k \<notin> nd_id ` set (dict_vals d) \<longrightarrow> cache_valid c ds sd' k = cache_valid c ds sd k)"
  using assms
proof (induction d arbitrary: sd d')
  case (Cons p d)
  obtain k n where p: "p = (k, n)" by (cases p)
  from Cons.prems(1) p obtain sd1 n1 d1 where i: "install_source_routes (ctx n) dsts (sig n) sd n = Inr (sd1, n1)"
    and t: "thread_nodes (\<lambda>sd n. install_source_routes (ctx n) dsts (sig n) sd n) sd1 d = Inr (sd', d1)"
    and d': "d' = (k, n1) # d1" by auto
  have v: "cache_valid (ctx n) dsts sd (nd_id n)" using Cons.prems(3) p by simp
  note s = install_source_routes_spec [OF i v Cons.prems(4)]
  note fr = install_source_routes_frame [OF i]
  have dist: "nd_id n \<notin> nd_id ` set (dict_vals d)" "distinct (map nd_id (dict_vals d))"
    using Cons.prems(2) p by auto
  have "list_all (\<lambda>n. cache_valid (ctx n) dsts sd1 (nd_id n)) (dict_vals d)"
    unfolding list_all_iff
  proof
    fix m assume m: "m \<in> set (dict_vals d)"
    then have "nd_id m \<noteq> nd_id n" using dist(1) by (metis imageI)
    then show "cache_valid (ctx m) dsts sd1 (nd_id m)"
      using Cons.prems(3) m p unfolding list_all_iff fr [OF \<open>nd_id m \<noteq> nd_id n\<close>] by auto
  qed
  note IH = Cons.IH [OF t dist(2) this Cons.prems(4)]
  then have "cache_valid (ctx n) dsts sd' (nd_id n)" using s(3) dist(1) by blast
  then show ?case using IH s(1,2,4,6) fr p d' by auto
qed simp

lemma dict_get_filter_key: "k \<in> K \<Longrightarrow> map_of (filter (\<lambda>(k, _). k \<in> K) d) k = map_of d k"
  by (induction d) auto

lemma cache_valid_prune:
  assumes "k \<in> set active"
  shows "cache_valid c ds (prune_caches active sd) k = cache_valid c ds sd k"
proof -
  have eq: "dict_get (sd_entries (prune_caches active sd)) k = dict_get (sd_entries sd) k"
    "dict_get (sd_signatures (prune_caches active sd)) k = dict_get (sd_signatures sd) k"
    using dict_get_filter_key [OF assms] by (simp_all add: prune_caches_def)
  show ?thesis unfolding cache_valid_def eq ..
qed

lemma dst_array_distinct:
  assumes "distinct (map nd_id (gs_nodes nt @ sat_nodes nt))"
  shows "distinct (map nd_id (dst_array nt))"
proof -
  have "distinct (map nd_id (gs_nodes nt))" "distinct (map nd_id (sat_nodes nt))"
    "set (map nd_id (gs_nodes nt)) \<inter> set (map nd_id (sat_nodes nt)) = {}"
    using assms unfolding map_append distinct_append by blast+
  moreover have "set (map nd_id (addressable_sats nt)) \<subseteq> set (map nd_id (sat_nodes nt))"
    unfolding addressable_sats_def set_map set_filter by blast
  moreover have "distinct (map nd_id (addressable_sats nt))"
    unfolding addressable_sats_def by (rule distinct_map_filter) (rule calculation(2))
  ultimately show ?thesis unfolding dst_array_def map_append distinct_append by blast
qed

text \<open>What populating leaves: the tables, the valid caches, and nodes that are otherwise unchanged.\<close>

lemma populate_spec:
  assumes "populate_dijkstra_igraph g ifs sd nt = Inr (sd', nt')"
    and "summarize_loopbacks (gs_nodes nt @ sat_nodes nt) = Inr su"
    and "distinct (map nd_id (gs_nodes nt @ sat_nodes nt))"
    and "list_all (\<lambda>n. cache_valid (source_context (fst ifs) su n) (dst_array nt) sd (nd_id n)) (gs_nodes nt)"
    and "list_all (\<lambda>n. cache_valid (source_context (snd ifs) su n) (dst_array nt) sd (nd_id n)) (sat_nodes nt)"
  shows "map nd_curr (gs_nodes nt') =
      map (\<lambda>n. spec_table (source_context (fst ifs) su n) (dst_array nt) (hop_vector g nt n)) (gs_nodes nt) \<and>
    map nd_curr (sat_nodes nt') =
      map (\<lambda>n. spec_table (source_context (snd ifs) su n) (dst_array nt) (hop_vector g nt n)) (sat_nodes nt) \<and>
    list_all (\<lambda>n. cache_valid (source_context (fst ifs) su n) (dst_array nt) sd' (nd_id n)) (gs_nodes nt) \<and>
    list_all (\<lambda>n. cache_valid (source_context (snd ifs) su n) (dst_array nt) sd' (nd_id n)) (sat_nodes nt) \<and>
    map (\<lambda>n. (nd_id n, nd_ifaces n)) (gs_nodes nt' @ sat_nodes nt') = map (\<lambda>n. (nd_id n, nd_ifaces n)) (gs_nodes nt @ sat_nodes nt) \<and>
    list_all (\<lambda>n. spec_ok (source_context (fst ifs) su n) (zip (dst_array nt) (hop_vector g nt n))) (gs_nodes nt) \<and>
    list_all (\<lambda>n. spec_ok (source_context (snd ifs) su n) (zip (dst_array nt) (hop_vector g nt n))) (sat_nodes nt)"
proof -
  let ?ds = "dst_array nt"
  have dd: "distinct (map nd_id ?ds)" using assms(3) by (rule dst_array_distinct)
  let ?f = "\<lambda>maps sd n. install_source_routes (source_context maps su n) ?ds (hop_vector g nt n) sd n"
  obtain hops where hops: "rmap (\<lambda>dst. igraph_next_hops g (nd_id dst)) ?ds = Inr hops"
    using assms(1) by (auto simp: populate_dijkstra_igraph_def Let_def)
  note sig = hop_vector_signature [OF hops dd]
  obtain sd1 gss sd2 sats where t: "thread_nodes (?f (fst ifs)) sd (nt_gss nt) = Inr (sd1, gss)"
    "thread_nodes (?f (snd ifs)) sd1 (nt_sats nt) = Inr (sd2, sats)"
    "nt' = nt\<lparr>nt_gss := gss, nt_sats := sats\<rparr>"
    "sd' = prune_caches (map nd_id (gs_nodes nt) @ map nd_id (sat_nodes nt)) sd2"
  proof -
    have "rbind (thread_nodes (?f (fst ifs)) sd (nt_gss nt)) (\<lambda>(sd1, gss').
        rbind (thread_nodes (?f (snd ifs)) sd1 (nt_sats nt)) (\<lambda>(sd2, sats').
        Inr (prune_caches (map nd_id (gs_nodes nt) @ map nd_id (sat_nodes nt)) sd2,
             nt\<lparr>nt_gss := gss', nt_sats := sats'\<rparr>))) = Inr (sd', nt')"
      using assms(1) unfolding populate_dijkstra_igraph_def Let_def hops rbind.simps assms(2) sig .
    then show thesis by (elim rbind_InrE) (auto intro!: that split: prod.splits)
  qed
  have dg: "distinct (map nd_id (gs_nodes nt))" "distinct (map nd_id (sat_nodes nt))"
    and disj: "nd_id ` set (gs_nodes nt) \<inter> nd_id ` set (sat_nodes nt) = {}"
    using assms(3) by (auto simp: distinct_map)
  note G = thread_nodes_spec [OF t(1) dg(1) assms(4) dd]
  have "list_all (\<lambda>n. cache_valid (source_context (snd ifs) su n) ?ds sd1 (nd_id n)) (sat_nodes nt)"
    unfolding list_all_iff
  proof
    fix m assume m: "m \<in> set (sat_nodes nt)"
    then have "nd_id m \<notin> nd_id ` set (gs_nodes nt)" using disj by blast
    then show "cache_valid (source_context (snd ifs) su m) ?ds sd1 (nd_id m)"
      using G assms(5) m unfolding list_all_iff by blast
  qed
  note S = thread_nodes_spec [OF t(2) dg(2) this dd]
  have pr: "cache_valid c ds sd' k = cache_valid c ds sd2 k"
    if "k \<in> nd_id ` set (gs_nodes nt) \<union> nd_id ` set (sat_nodes nt)" for c ds k
    unfolding t(4) by (rule cache_valid_prune) (use that in auto)
  have g2: "cache_valid (source_context (fst ifs) su m) ?ds sd2 (nd_id m)" if "m \<in> set (gs_nodes nt)" for m
  proof -
    have "nd_id m \<notin> nd_id ` set (sat_nodes nt)" using disj that by blast
    then show ?thesis using G S that unfolding list_all_iff by blast
  qed
  have "list_all (\<lambda>n. cache_valid (source_context (fst ifs) su n) ?ds sd' (nd_id n)) (gs_nodes nt)"
    "list_all (\<lambda>n. cache_valid (source_context (snd ifs) su n) ?ds sd' (nd_id n)) (sat_nodes nt)"
    using g2 S pr unfolding list_all_iff by blast+
  moreover have "nt_gss nt' = gss" "nt_sats nt' = sats" using t(3) by simp_all
  moreover have "map (\<lambda>n. (nd_id n, nd_ifaces n)) (dict_vals gss @ dict_vals sats) = map (\<lambda>n. (nd_id n, nd_ifaces n)) (gs_nodes nt @ sat_nodes nt)"
    using G S unfolding map_append by presburger
  ultimately show ?thesis using G S by (metis (no_types, lifting))
qed

text \<open>
  Populating installs shortest-path routes everywhere. For every ground station
  and satellite the current table has one route per destination that the path library
  reaches from it, via the interface towards the last hop before the source on that
  destination's path tree, whether caches were empty or held valid state; and the
  caches are valid for the next update.
\<close>

theorem populated_tables:
  assumes "populate_dijkstra_igraph g ifs sd nt = Inr (sd', nt')"
    and "summarize_loopbacks (gs_nodes nt @ sat_nodes nt) = Inr su"
    and "distinct (map nd_id (gs_nodes nt @ sat_nodes nt))"
    and "list_all (\<lambda>n. cache_valid (source_context (fst ifs) su n) (dst_array nt) sd (nd_id n)) (gs_nodes nt)"
    and "list_all (\<lambda>n. cache_valid (source_context (snd ifs) su n) (dst_array nt) sd (nd_id n)) (sat_nodes nt)"
  shows "map nd_curr (gs_nodes nt') =
      map (\<lambda>n. spec_table (source_context (fst ifs) su n) (dst_array nt) (hop_vector g nt n)) (gs_nodes nt) \<and>
    map nd_curr (sat_nodes nt') =
      map (\<lambda>n. spec_table (source_context (snd ifs) su n) (dst_array nt) (hop_vector g nt n)) (sat_nodes nt) \<and>
    list_all (\<lambda>n. cache_valid (source_context (fst ifs) su n) (dst_array nt) sd' (nd_id n)) (gs_nodes nt) \<and>
    list_all (\<lambda>n. cache_valid (source_context (snd ifs) su n) (dst_array nt) sd' (nd_id n)) (sat_nodes nt)"
  using populate_spec [OF assms] by blast

definition demo_link_iface :: "nat \<Rightarrow> string \<Rightarrow> string \<Rightarrow> string \<Rightarrow> iface" where
  "demo_link_iface oid name peer ip = (new_iface oid name ''GroundStationLink'')\<lparr>if_peer := Some (peer, ip)\<rparr>"

definition demo_net :: network where
  "demo_net = \<lparr>nt_sats = [(2, demo_node ''Sat2'' 2 ''128.8.0.20'')], nt_gss = [(1, demo_node ''Gnd1'' 1 ''64.4.0.12'')],
     nt_status = True, nt_file_routes = False, nt_iface_version = Some 0\<rparr>"

definition demo_maps :: iface_maps where
  "demo_maps = ([(1, [(2, demo_link_iface 0 ''Gnd1.2'' ''Sat2.1'' ''64.4.0.21'')])],
     [(2, [(1, demo_link_iface 1 ''Sat2.1'' ''Gnd1.2'' ''64.4.0.20'')])])"

definition demo_graph :: graph where
  "demo_graph = ([1, 2], \<lambda>i. if i = 0 then [[0], [0, 1]] else [[1, 0], [1]])"

lemma populated_tables_witness:
  "\<exists>sd' nt' su. populate_dijkstra_igraph demo_graph demo_maps new_static_daemon demo_net = Inr (sd', nt') \<and>
    map nd_curr (sat_nodes nt') = [spec_table (source_context (snd demo_maps) su (demo_node ''Sat2'' 2 ''128.8.0.20''))
      (dst_array demo_net) (hop_vector demo_graph demo_net (demo_node ''Sat2'' 2 ''128.8.0.20''))]"
proof -
  have "is_ok (populate_dijkstra_igraph demo_graph demo_maps new_static_daemon demo_net)"
    "is_ok (summarize_loopbacks (gs_nodes demo_net @ sat_nodes demo_net))"
    by code_simp+
  then obtain sd' nt' su where *: "populate_dijkstra_igraph demo_graph demo_maps new_static_daemon demo_net = Inr (sd', nt')"
    "summarize_loopbacks (gs_nodes demo_net @ sat_nodes demo_net) = Inr su"
    by (auto simp: is_ok_iff)
  have "map nd_curr (sat_nodes nt') =
      map (\<lambda>n. spec_table (source_context (snd demo_maps) su n) (dst_array demo_net) (hop_vector demo_graph demo_net n)) (sat_nodes demo_net)"
    by (rule populated_tables [OF *, THEN conjunct2, THEN conjunct1])
      (simp_all add: demo_net_def demo_node_def cache_valid_def new_static_daemon_def)
  then show ?thesis using *(1) by (auto simp: demo_net_def)
qed

end
