(* ===== verification/SR_MPLS.thy ===== *)
theory SR_MPLS
  imports Static_Routing
begin

text \<open>
  The segment-routing daemon (\<open>routing/srmpls_daemon.py\<close>): the label manager, the
  daemon's state and its operations. The graph library is a parameter: \<open>all_paths\<close>
  is the dictionary of \<open>networkx.all_pairs_dijkstra_path\<close> and \<open>short_path\<close> the
  result of \<open>networkx.shortest_path\<close>. Whether a node's container accepts a command
  is the parameter \<open>accepts\<close>. Exceptions that the code catches and logs for one
  route or one node appear as the route or node being skipped. The thread pools
  run one job per node on disjoint entries of the daemon's dictionaries, so the
  jobs are modelled in the order they are submitted; a network without satellites
  or without ground stations, for which the pool constructor raises, is outside
  the model.
\<close>

section \<open>Label manager\<close>

record node_sid =
  ns_node :: int
  ns_label :: int
  ns_name :: string

record sr_manager =
  sm_base :: int
  sm_adj_base :: int
  sm_sids :: "(int, node_sid) dict"
  sm_reverse :: "(int, int) dict"
  sm_custom :: "(int \<times> int, int list) dict"
  sm_cache :: "(int \<times> int, int list) dict"

definition label_min :: int where "label_min = 16"
definition label_max :: int where "label_max = 1048575"

definition new_sr_manager :: "int \<Rightarrow> int \<Rightarrow> sr_manager" where
  "new_sr_manager base adj = \<lparr>sm_base = (if base < label_min then label_min else base), sm_adj_base = adj,
     sm_sids = [], sm_reverse = [], sm_custom = [], sm_cache = []\<rparr>"

definition allocate_node_sid :: "int \<Rightarrow> string \<Rightarrow> sr_manager \<Rightarrow> (node_sid \<times> sr_manager) result" where
  "allocate_node_sid node_id nm m =
    (case dict_get (sm_sids m) node_id of
       Some s \<Rightarrow> Inr (s, m)
     | None \<Rightarrow>
         let label = sm_base m + node_id in
         if label > label_max then Inl (RuntimeError ''Node SID exceeds maximum MPLS label'')
         else let s = \<lparr>ns_node = node_id, ns_label = label, ns_name = nm\<rparr>
           in Inr (s, m\<lparr>sm_sids := dict_set node_id s (sm_sids m),
                       sm_reverse := dict_set label node_id (sm_reverse m)\<rparr>))"

definition get_node_sid :: "int \<Rightarrow> sr_manager \<Rightarrow> int option" where
  "get_node_sid node_id m = map_option ns_label (dict_get (sm_sids m) node_id)"

definition get_node_for_sid :: "int \<Rightarrow> sr_manager \<Rightarrow> int option" where
  "get_node_for_sid label m = dict_get (sm_reverse m) label"

definition check_path :: "int \<Rightarrow> int \<Rightarrow> int list \<Rightarrow> unit result" where
  "check_path source_id dest_id path =
    (if length path < 2 then Inl (ValueError ''Path must have at least 2 nodes'')
     else if hd path \<noteq> source_id then Inl (ValueError ''Path must start with source node'')
     else if last path \<noteq> dest_id then Inl (ValueError ''Path must end with destination node'')
     else Inr ())"

definition set_custom_path :: "int \<Rightarrow> int \<Rightarrow> int list \<Rightarrow> sr_manager \<Rightarrow> sr_manager result" where
  "set_custom_path source_id dest_id path m =
    rbind (check_path source_id dest_id path) (\<lambda>_.
      Inr (m\<lparr>sm_custom := dict_set (source_id, dest_id) path (sm_custom m),
             sm_cache := dict_pop (source_id, dest_id) (sm_cache m)\<rparr>))"

definition get_custom_path :: "int \<Rightarrow> int \<Rightarrow> sr_manager \<Rightarrow> int list option" where
  "get_custom_path source_id dest_id m = dict_get (sm_custom m) (source_id, dest_id)"

definition clear_custom_path :: "int \<Rightarrow> int \<Rightarrow> sr_manager \<Rightarrow> bool \<times> sr_manager" where
  "clear_custom_path source_id dest_id m =
    (dict_get (sm_custom m) (source_id, dest_id) \<noteq> None,
     m\<lparr>sm_cache := dict_pop (source_id, dest_id) (sm_cache m),
       sm_custom := dict_pop (source_id, dest_id) (sm_custom m)\<rparr>)"

definition sid_label :: "sr_manager \<Rightarrow> int \<Rightarrow> int result" where
  "sid_label m node_id = (case dict_get (sm_sids m) node_id of
     None \<Rightarrow> Inl (ValueError ''Node does not have a Node SID allocated'')
   | Some s \<Rightarrow> Inr (ns_label s))"

definition get_label_stack_for_path :: "int list \<Rightarrow> bool \<Rightarrow> sr_manager \<Rightarrow> int list result" where
  "get_label_stack_for_path path use_php m =
    (if length path < 2 then Inr []
     else let segment_nodes = (if use_php then butlast (tl path) else tl path)
       in rmap (sid_label m) segment_nodes)"

definition get_sr_route_for_destination ::
    "int \<Rightarrow> int \<Rightarrow> int list option \<Rightarrow> bool \<Rightarrow> sr_manager \<Rightarrow> ((int list \<times> int list) \<times> sr_manager) result" where
  "get_sr_route_for_destination source_id dest_id default_path use_php m =
    (let custom = dict_get (sm_custom m) (source_id, dest_id);
         path = (case custom of Some p \<Rightarrow> if p \<noteq> [] then Some p else default_path | None \<Rightarrow> default_path);
         cache_key = (source_id, dest_id)
     in case path of
          None \<Rightarrow> Inr (([], []), m)
        | Some p \<Rightarrow>
            if length p < 2 then Inr (([], []), m)
            else case (dict_get (sm_cache m) cache_key, custom) of
              (Some labels, None) \<Rightarrow> Inr ((p, labels), m)
            | _ \<Rightarrow> rbind (get_label_stack_for_path p use_php m) (\<lambda>labels.
                Inr ((p, labels), if custom = None
                  then m\<lparr>sm_cache := dict_set cache_key labels (sm_cache m)\<rparr> else m)))"

definition get_all_node_sids :: "sr_manager \<Rightarrow> node_sid list" where
  "get_all_node_sids m = dict_vals (sm_sids m)"

definition sr_statistics :: "sr_manager \<Rightarrow> int \<times> nat \<times> nat \<times> nat" where
  "sr_statistics m = (sm_base m, length (sm_sids m), length (sm_custom m), length (sm_cache m))"

definition clear_cache :: "sr_manager \<Rightarrow> sr_manager" where
  "clear_cache m = m\<lparr>sm_cache := []\<rparr>"

definition reset_manager :: "sr_manager \<Rightarrow> sr_manager" where
  "reset_manager m = m\<lparr>sm_sids := [], sm_reverse := [], sm_custom := [], sm_cache := []\<rparr>"

section \<open>The daemon\<close>

record sr_daemon =
  sr_manager_of :: "sr_manager option"
  sr_lfib :: "(int, sr_stack list) dict"
  sr_has_graph :: bool
  sr_config :: "mpls_config option"
  sr_prev_gs :: "(int, string list) dict"
  sr_prev_sat :: "(int, string list) dict"
  sr_prev_sid :: "(int, string list) dict"

record sr_network = network +
  sn_gonetem_on :: bool
  sn_containers :: "string list"

type_synonym all_paths = "(int, (int, int list) dict) dict"
type_synonym exec_log = "(string \<times> string) list"

definition new_sr_daemon :: sr_daemon where
  "new_sr_daemon = \<lparr>sr_manager_of = None, sr_lfib = [], sr_has_graph = False, sr_config = None,
     sr_prev_gs = [], sr_prev_sat = [], sr_prev_sid = []\<rparr>"

definition sr_is_initialized :: "sr_daemon \<Rightarrow> bool" where
  "sr_is_initialized d = (sr_manager_of d \<noteq> None)"

definition sr_get_node_sid :: "int \<Rightarrow> sr_daemon \<Rightarrow> int option" where
  "sr_get_node_sid node_id d = (case sr_manager_of d of None \<Rightarrow> None | Some m \<Rightarrow> get_node_sid node_id m)"

definition has_container :: "sr_network \<Rightarrow> node \<Rightarrow> bool" where
  "has_container nt n = (nd_name n \<in> set (sn_containers nt))"

definition default_mpls_config :: mpls_config where
  "default_mpls_config = \<lparr>mc_enabled = True, mc_range_start = 16, mc_range_end = 1048575,
     mc_use_ldp = False, mc_use_php = False, mc_ttl = 64, mc_use_sr = True, mc_sid_base = 16000\<rparr>"

definition configure_mpls :: "sr_daemon \<Rightarrow> sr_daemon result" where
  "configure_mpls d =
    rbind (case sr_config d of None \<Rightarrow> mpls_post_init default_mpls_config | Some c \<Rightarrow> Inr c)
      (\<lambda>c. Inr (d\<lparr>sr_config := Some (c\<lparr>mc_enabled := True\<rparr>)\<rparr>))"

definition daemon_php :: "sr_daemon \<Rightarrow> bool" where
  "daemon_php d = (case sr_config d of Some c \<Rightarrow> mc_use_php c | None \<Rightarrow> False)"

fun allocate_all :: "(int \<times> node) list \<Rightarrow> sr_manager \<Rightarrow> sr_manager result" where
  "allocate_all [] m = Inr m"
| "allocate_all ((i, n) # ns) m = rbind (allocate_node_sid i (nd_name n) m) (\<lambda>(_, m'). allocate_all ns m')"

definition init_sr_mpls :: "sr_network \<Rightarrow> sr_daemon \<Rightarrow> sr_daemon result" where
  "init_sr_mpls nt d =
    (let base = (case sr_config d of Some c \<Rightarrow> mc_sid_base c | None \<Rightarrow> 16000)
     in rbind (allocate_all (nt_sats nt @ nt_gss nt) (new_sr_manager base 100000))
          (\<lambda>m. Inr (d\<lparr>sr_manager_of := Some m\<rparr>)))"

section \<open>Building label-stack routes\<close>

definition iface_peer_id :: "iface \<Rightarrow> int option" where
  "iface_peer_id i = (case split_on (CHR ''.'') (if_name i) of _ # p # _ \<Rightarrow> py_int p | _ \<Rightarrow> None)"

definition sr_iface_lookup :: "node \<Rightarrow> iface_map" where
  "sr_iface_lookup n = foldl (\<lambda>m i. case iface_peer_id i of Some k \<Rightarrow> dict_set k i m | None \<Rightarrow> m) [] (nd_ifaces n)"

definition get_interface_to_peer :: "node \<Rightarrow> int \<Rightarrow> iface option" where
  "get_interface_to_peer n peer_id = find (\<lambda>i. iface_peer_id i = Some peer_id) (nd_ifaces n)"

definition usable_ip :: "string \<Rightarrow> bool" where
  "usable_ip ip = (ip \<noteq> [] \<and> ip \<noteq> ''0.0.0.0'')"

definition sr_route_via :: "sr_manager \<Rightarrow> bool \<Rightarrow> iface option \<Rightarrow> int list \<Rightarrow> node \<Rightarrow> sr_stack option" where
  "sr_route_via m use_php iface path dst =
    (case iface of None \<Rightarrow> None
     | Some i \<Rightarrow> (case if_peer i of None \<Rightarrow> None
       | Some (_, next_hop_ip) \<Rightarrow>
           if \<not> usable_ip next_hop_ip then None
           else (case get_label_stack_for_path (tl path) use_php m of
               Inl _ \<Rightarrow> None
             | Inr label_stack \<Rightarrow>
                 Some \<lparr>ss_destination = if_ipv4 (nd_loopback dst), ss_labels = label_stack,
                       ss_next_hop = next_hop_ip, ss_iface = i, ss_prefix = 32\<rparr>)))"

definition chosen_path :: "sr_manager \<Rightarrow> int list option \<Rightarrow> int \<Rightarrow> int \<Rightarrow> int list option" where
  "chosen_path m dflt src_id dst_id = (case get_custom_path src_id dst_id m of
     Some p \<Rightarrow> if p \<noteq> [] then Some p else dflt | None \<Rightarrow> dflt)"

definition build_sr_route :: "sr_manager \<Rightarrow> bool \<Rightarrow> (int, int list) dict \<Rightarrow> iface_map \<Rightarrow> int \<Rightarrow> node \<Rightarrow> sr_stack list" where
  "build_sr_route m use_php src_paths src_ifaces src_id dst =
    (if src_id = nd_id dst then []
     else case chosen_path m (dict_get src_paths (nd_id dst)) src_id (nd_id dst) of
       None \<Rightarrow> []
     | Some path \<Rightarrow>
         if length path < 2 then []
         else (case sr_route_via m use_php (dict_get src_ifaces (path ! 1)) path dst of
             Some e \<Rightarrow> [e] | None \<Rightarrow> []))"

definition sr_endpoints :: "sr_network \<Rightarrow> node list" where
  "sr_endpoints nt = dict_vals (nt_gss nt) @ filter nd_addressable (dict_vals (nt_sats nt))"

definition build_sr_source :: "sr_network \<Rightarrow> all_paths \<Rightarrow> sr_manager \<Rightarrow> bool \<Rightarrow>
    (int, sr_stack list) dict \<Rightarrow> node \<Rightarrow> (int, sr_stack list) dict" where
  "build_sr_source nt all_paths m use_php lfib src =
    (let src_id = nd_id src;
         ifaces = dict_get_or (dict_of (map (\<lambda>n. (nd_id n, sr_iface_lookup n)) (sr_endpoints nt))) src_id [];
         old = dict_get_or lfib src_id []
     in case dict_get all_paths src_id of
          None \<Rightarrow> dict_set src_id old lfib
        | Some src_paths \<Rightarrow> dict_set src_id
            (old @ concat (map (build_sr_route m use_php src_paths ifaces src_id) (sr_endpoints nt))) lfib)"

definition build_sr_gs_routes :: "sr_network \<Rightarrow> all_paths \<Rightarrow> sr_daemon \<Rightarrow> sr_daemon" where
  "build_sr_gs_routes nt all_paths d =
    (case sr_manager_of d of None \<Rightarrow> d
     | Some m \<Rightarrow> d\<lparr>sr_has_graph := True,
         sr_lfib := foldl (build_sr_source nt all_paths m (daemon_php d)) [] (sr_endpoints nt)\<rparr>)"

section \<open>Installing on the nodes\<close>

text \<open>
  One node's installation: only lines that are not in the previous list are sent,
  in one command, and the list becomes the previous one when the command succeeds.
  \<open>accepts name cmd\<close> tells whether the container accepts the command.
\<close>

definition push_changed :: "(string \<Rightarrow> string \<Rightarrow> bool) \<Rightarrow> node \<Rightarrow> string list \<Rightarrow>
    (int, string list) dict \<times> exec_log \<Rightarrow> (int, string list) dict \<times> exec_log" where
  "push_changed accepts n route_commands st = (case st of (prev, lg) \<Rightarrow>
     let prev_set = set (dict_get_or prev (nd_id n) []);
         changed = filter (\<lambda>l. l \<notin> prev_set) route_commands;
         cmd = py_join ''; '' changed
     in if changed = [] then (prev, lg)
        else if accepts (nd_name n) cmd then (dict_set (nd_id n) route_commands prev, lg @ [(nd_name n, cmd)])
        else (prev, lg @ [(nd_name n, cmd)]))"

definition enable_mpls :: "node \<Rightarrow> string" where
  "enable_mpls n = py_join ''; ''
     ([''sysctl -w net.mpls.platform_labels=1048575'', ''sysctl -w net.mpls.conf.lo.input=1''] @
      map (\<lambda>i. ''sysctl -w net.mpls.conf.'' @ dev_name i @ ''.input=1'') (nd_ifaces n))"

definition enable_mpls_on_all_nodes :: "sr_network \<Rightarrow> exec_log" where
  "enable_mpls_on_all_nodes nt = map (\<lambda>n. (nd_name n, enable_mpls n))
     (filter (has_container nt) (dict_vals (nt_sats nt) @ dict_vals (nt_gss nt)))"

definition sr_forward_entry :: "sr_network \<Rightarrow> sr_manager \<Rightarrow> iface \<Rightarrow> sr_forward list" where
  "sr_forward_entry nt m i =
    (case (if_peer i, iface_peer_id i) of
       (Some (_, next_hop_ip), Some neighbor_id) \<Rightarrow>
         (case get_node_sid neighbor_id m of
            None \<Rightarrow> []
          | Some neighbor_sid \<Rightarrow>
              if \<not> usable_ip next_hop_ip then []
              else [\<lparr>sf_sid = neighbor_sid, sf_next_hop = next_hop_ip, sf_iface = i,
                     sf_target = (case dict_get (nt_sats nt) neighbor_id of Some n \<Rightarrow> nd_name n
                       | None \<Rightarrow> (case dict_get (nt_gss nt) neighbor_id of Some n \<Rightarrow> nd_name n
                         | None \<Rightarrow> ''Node'' @ dec_int neighbor_id))\<rparr>])
     | _ \<Rightarrow> [])"

definition sat_gs_route :: "node \<Rightarrow> node \<Rightarrow> string list" where
  "sat_gs_route sat gs =
    (case get_interface_to_peer sat (nd_id gs) of None \<Rightarrow> []
     | Some i \<Rightarrow> (case if_peer i of None \<Rightarrow> []
       | Some (_, gs_ip) \<Rightarrow>
           if if_ipv4 (nd_loopback gs) = [] then []
           else [''ip route replace '' @ if_ipv4 (nd_loopback gs) @ ''/32 via '' @ gs_ip @ '' dev '' @ dev_name i]))"

definition sr_forwarding :: "sr_network \<Rightarrow> sr_manager \<Rightarrow> node \<Rightarrow> sr_forward list" where
  "sr_forwarding nt m sat = concat (map (sr_forward_entry nt m) (nd_ifaces sat))"

definition node_sid_commands :: "sr_network \<Rightarrow> sr_manager \<Rightarrow> node \<Rightarrow> string list option" where
  "node_sid_commands nt m sat = (case get_node_sid (nd_id sat) m of
     None \<Rightarrow> None
   | Some my_sid \<Rightarrow> Some ([sid_command my_sid] @ map forward_command (sr_forwarding nt m sat) @
       concat (map (sat_gs_route sat) (dict_vals (nt_gss nt)))))"

definition apply_sr_node_sids_to_satellites :: "(string \<Rightarrow> string \<Rightarrow> bool) \<Rightarrow> sr_network \<Rightarrow> sr_daemon \<Rightarrow> sr_daemon \<times> exec_log" where
  "apply_sr_node_sids_to_satellites accepts nt d =
    (case (sr_manager_of d, sr_has_graph d) of
       (Some m, True) \<Rightarrow>
         let (prev, lg) = foldl (\<lambda>st sat. case node_sid_commands nt m sat of
               None \<Rightarrow> st | Some cmds \<Rightarrow> push_changed accepts sat cmds st)
             (sr_prev_sid d, []) (filter (has_container nt) (dict_vals (nt_sats nt)))
         in (d\<lparr>sr_prev_sid := prev\<rparr>, lg)
     | _ \<Rightarrow> (d, []))"

definition source_commands :: "sr_manager \<Rightarrow> sr_stack list \<Rightarrow> node \<Rightarrow> string list" where
  "source_commands m entries n =
    (case get_node_sid (nd_id n) m of Some s \<Rightarrow> [sid_command s] | None \<Rightarrow> []) @ map stack_command entries"

definition apply_sr_routes_to_ground_stations :: "(string \<Rightarrow> string \<Rightarrow> bool) \<Rightarrow> sr_network \<Rightarrow> sr_daemon \<Rightarrow> sr_daemon \<times> exec_log" where
  "apply_sr_routes_to_ground_stations accepts nt d =
    (case sr_manager_of d of
       None \<Rightarrow> (d, [])
     | Some m \<Rightarrow>
         let (prev, lg) = foldl (\<lambda>st gs. push_changed accepts gs
               (source_commands m (dict_get_or (sr_lfib d) (nd_id gs) []) gs) st)
             (sr_prev_gs d, []) (filter (has_container nt) (dict_vals (nt_gss nt)))
         in (d\<lparr>sr_prev_gs := prev\<rparr>, lg))"

definition apply_sr_routes_to_satellites :: "(string \<Rightarrow> string \<Rightarrow> bool) \<Rightarrow> sr_network \<Rightarrow> sr_daemon \<Rightarrow> sr_daemon \<times> exec_log" where
  "apply_sr_routes_to_satellites accepts nt d =
    (case sr_manager_of d of
       None \<Rightarrow> (d, [])
     | Some m \<Rightarrow>
         let (prev, lg) = foldl (\<lambda>st sat. push_changed accepts sat
               (source_commands m (dict_get_or (sr_lfib d) (nd_id sat) []) sat) st)
             (sr_prev_sat d, [])
             (filter (has_container nt) (filter nd_addressable (dict_vals (nt_sats nt))))
         in (d\<lparr>sr_prev_sat := prev\<rparr>, lg))"

definition apply_sr_mpls_routes :: "(string \<Rightarrow> string \<Rightarrow> bool) \<Rightarrow> bool \<Rightarrow> sr_network \<Rightarrow> sr_daemon \<Rightarrow> sr_daemon \<times> exec_log" where
  "apply_sr_mpls_routes accepts init_flag nt d =
    (if sr_manager_of d = None then (d, [])
     else let log0 = (if init_flag then enable_mpls_on_all_nodes nt else []);
              (d1, log1) = apply_sr_node_sids_to_satellites accepts nt d;
              (d2, log2) = apply_sr_routes_to_ground_stations accepts nt d1;
              (d3, log3) = apply_sr_routes_to_satellites accepts nt d2
          in (d3, log0 @ log1 @ log2 @ log3))"

definition rebuild_sr_mpls_routing :: "(string \<Rightarrow> string \<Rightarrow> bool) \<Rightarrow> bool \<Rightarrow> sr_network \<Rightarrow> all_paths \<Rightarrow>
    sr_daemon \<Rightarrow> sr_daemon \<times> exec_log" where
  "rebuild_sr_mpls_routing accepts init_flag nt all_paths d =
    (case sr_manager_of d of
       None \<Rightarrow> (d, [])
     | Some m \<Rightarrow>
         let d1 = (if init_flag then d\<lparr>sr_prev_gs := [], sr_prev_sat := [], sr_prev_sid := []\<rparr> else d);
             d2 = build_sr_gs_routes nt all_paths (d1\<lparr>sr_manager_of := Some (clear_cache m)\<rparr>)
         in if sn_gonetem_on nt then apply_sr_mpls_routes accepts init_flag nt d2 else (d2, []))"

section \<open>The daemon's interface\<close>

definition sr_init :: "(string \<Rightarrow> string \<Rightarrow> bool) \<Rightarrow> sr_network \<Rightarrow> all_paths \<Rightarrow> sr_daemon \<Rightarrow> sr_daemon \<times> exec_log \<times> bool" where
  "sr_init accepts nt all_paths d =
    (case configure_mpls d of
       Inl _ \<Rightarrow> (d, [], False)
     | Inr d1 \<Rightarrow> (case init_sr_mpls nt d1 of
         Inl _ \<Rightarrow> (d1, [], False)
       | Inr d2 \<Rightarrow> let (d3, lg) = rebuild_sr_mpls_routing accepts True nt all_paths d2 in (d3, lg, True)))"

definition sr_update :: "(string \<Rightarrow> string \<Rightarrow> bool) \<Rightarrow> sr_network \<Rightarrow> all_paths \<Rightarrow> sr_daemon \<Rightarrow> sr_daemon \<times> exec_log" where
  "sr_update accepts nt all_paths d = rebuild_sr_mpls_routing accepts False nt all_paths d"

definition flush_command :: string where
  "flush_command = ''ip -f mpls route flush 2>/dev/null; true''"

definition flush_node :: "sr_network \<Rightarrow> node \<Rightarrow> exec_log" where
  "flush_node nt n = (if has_container nt n then [(nd_name n, flush_command)] else [])"

definition flush_all_nodes :: "sr_network \<Rightarrow> exec_log" where
  "flush_all_nodes nt = concat (map (flush_node nt) (dict_vals (nt_sats nt) @ dict_vals (nt_gss nt)))"

definition sr_remove :: "sr_network \<Rightarrow> node option \<Rightarrow> sr_daemon \<Rightarrow> sr_daemon \<times> exec_log" where
  "sr_remove nt target d =
    (d\<lparr>sr_lfib := [], sr_has_graph := False, sr_manager_of := None,
       sr_prev_gs := [], sr_prev_sat := [], sr_prev_sid := []\<rparr>,
     case target of Some n \<Rightarrow> flush_node nt n | None \<Rightarrow> flush_all_nodes nt)"

definition update_entry :: "sr_manager \<Rightarrow> bool \<Rightarrow> (int \<Rightarrow> int \<Rightarrow> int list option) \<Rightarrow> node \<Rightarrow> node \<Rightarrow> sr_stack list" where
  "update_entry m use_php short_path src dst =
    (if nd_id src = nd_id dst then []
     else case chosen_path m (short_path (nd_id src) (nd_id dst)) (nd_id src) (nd_id dst) of
       None \<Rightarrow> []
     | Some path \<Rightarrow>
         if length path < 2 then []
         else (case sr_route_via m use_php (get_interface_to_peer src (path ! 1)) path dst of
             Some e \<Rightarrow> [e] | None \<Rightarrow> []))"

definition update_sr_route_for_source :: "(string \<Rightarrow> string \<Rightarrow> bool) \<Rightarrow> sr_network \<Rightarrow>
    (int \<Rightarrow> int \<Rightarrow> int list option) \<Rightarrow> int \<Rightarrow> sr_daemon \<Rightarrow> (sr_daemon \<times> exec_log) result" where
  "update_sr_route_for_source accepts nt short_path source_id d =
    (case sr_manager_of d of
       None \<Rightarrow> Inl (RuntimeError ''SR-MPLS manager not initialized'')
     | Some m \<Rightarrow> (case dict_get (nt_gss nt) source_id of
         None \<Rightarrow> Inr (d, [])
       | Some src \<Rightarrow>
           if \<not> has_container nt src then Inr (d, [])
           else
             let new_entries = concat (map (update_entry m (daemon_php d) short_path src) (dict_vals (nt_gss nt)));
                 d1 = d\<lparr>sr_lfib := dict_set source_id new_entries (sr_lfib d)\<rparr>
             in if \<not> accepts (nd_name src) (enable_mpls src)
                then Inl (RuntimeError ''Command failed'')
                else
                  let cmds = source_commands m new_entries src; cmd = py_join ''; '' cmds;
                      lg = [(nd_name src, enable_mpls src)]
                  in if cmds = [] then Inr (d1, lg)
                     else if accepts (nd_name src) cmd
                       then Inr (d1\<lparr>sr_prev_gs := dict_set source_id cmds (sr_prev_gs d1)\<rparr>, lg @ [(nd_name src, cmd)])
                       else Inr (d1, lg @ [(nd_name src, cmd)])))"

record path_report =
  pr_path :: "int list"
  pr_labels :: "int list"
  pr_hops :: int

definition known_node :: "sr_network \<Rightarrow> int \<Rightarrow> bool" where
  "known_node nt i = (dict_get (nt_sats nt) i \<noteq> None \<or> dict_get (nt_gss nt) i \<noteq> None)"

definition set_sr_custom_path :: "(string \<Rightarrow> string \<Rightarrow> bool) \<Rightarrow> sr_network \<Rightarrow> (int \<Rightarrow> int \<Rightarrow> int list option) \<Rightarrow>
    int \<Rightarrow> int \<Rightarrow> int list \<Rightarrow> sr_daemon \<Rightarrow> (path_report \<times> sr_daemon \<times> exec_log) result" where
  "set_sr_custom_path accepts nt short_path source_id dest_id path d =
    (case sr_manager_of d of
       None \<Rightarrow> Inl (RuntimeError ''SR-MPLS not initialized'')
     | Some m \<Rightarrow>
         rbind (check_path source_id dest_id path) (\<lambda>_.
         if \<not> list_all (known_node nt) path then Inl (ValueError ''Node not found in topology'')
         else rbind (set_custom_path source_id dest_id path m) (\<lambda>m1.
           let d1 = d\<lparr>sr_manager_of := Some m1\<rparr>
           in rbind (if nt_status nt then update_sr_route_for_source accepts nt short_path source_id d1 else Inr (d1, []))
             (\<lambda>(d2, lg). rbind (get_label_stack_for_path path (daemon_php d2) m1) (\<lambda>labels.
              Inr (\<lparr>pr_path = path, pr_labels = labels, pr_hops = int (length path) - 1\<rparr>, d2, lg))))))"

definition clear_sr_custom_path :: "(string \<Rightarrow> string \<Rightarrow> bool) \<Rightarrow> sr_network \<Rightarrow> (int \<Rightarrow> int \<Rightarrow> int list option) \<Rightarrow>
    int \<Rightarrow> int \<Rightarrow> sr_daemon \<Rightarrow> (bool \<times> sr_daemon \<times> exec_log) result" where
  "clear_sr_custom_path accepts nt short_path source_id dest_id d =
    (case sr_manager_of d of
       None \<Rightarrow> Inl (RuntimeError ''SR-MPLS not initialized'')
     | Some m \<Rightarrow>
         let (removed, m1) = clear_custom_path source_id dest_id m; d1 = d\<lparr>sr_manager_of := Some m1\<rparr>
         in rbind (if removed \<and> nt_status nt then update_sr_route_for_source accepts nt short_path source_id d1
                   else Inr (d1, []))
              (\<lambda>(d2, lg). Inr (removed, d2, lg)))"

definition get_sr_statistics :: "sr_daemon \<Rightarrow> ((int \<times> nat \<times> nat \<times> nat) \<times> nat \<times> nat) option" where
  "get_sr_statistics d = (case sr_manager_of d of
     None \<Rightarrow> None
   | Some m \<Rightarrow> Some (sr_statistics m, sum_list (map length (dict_vals (sr_lfib d))), length (sr_lfib d)))"

record custom_path_info =
  cp_source :: int
  cp_source_name :: string
  cp_dest :: int
  cp_dest_name :: string
  cp_path :: "int list"
  cp_labels :: "int list"
  cp_hops :: int

definition list_sr_custom_paths :: "sr_network \<Rightarrow> sr_daemon \<Rightarrow> custom_path_info list result" where
  "list_sr_custom_paths nt d = (case sr_manager_of d of
     None \<Rightarrow> Inr []
   | Some m \<Rightarrow>
       let name_of = (\<lambda>i. case dict_get (nt_gss nt) i of Some n \<Rightarrow> nd_name n | None \<Rightarrow> dec_int i)
       in rmap (\<lambda>((s, t), path). rbind (get_label_stack_for_path path (daemon_php d) m) (\<lambda>labels.
            Inr \<lparr>cp_source = s, cp_source_name = name_of s, cp_dest = t, cp_dest_name = name_of t,
                 cp_path = path, cp_labels = labels, cp_hops = int (length path) - 1\<rparr>)) (sm_custom m))"

end
