(* ===== verification/SR_Facts.thy ===== *)
theory SR_Facts
  imports SR_MPLS Static_Facts "HOL-Library.Sublist"
begin

text \<open>
  Properties of the segment-routing daemon: the label allocation invariant
  \<open>sids_ok\<close>, the delivery of a source-routed packet along exactly the chosen
  path, the coherence of the label-stack cache, the effect of custom paths, and
  the incremental installation of command lists.
\<close>

section \<open>Label allocation\<close>

definition sids_ok :: "sr_manager \<Rightarrow> bool" where
  "sids_ok m = (label_min \<le> sm_base m \<and> dict_ok (sm_sids m) \<and>
     list_all (\<lambda>(k, s). ns_node s = k \<and> ns_label s = sm_base m + k \<and> ns_label s \<le> label_max) (sm_sids m) \<and>
     sm_reverse m = map (\<lambda>(k, s). (ns_label s, k)) (sm_sids m))"

lemma new_manager_ok [simp]: "sids_ok (new_sr_manager base adj)"
  by (simp add: sids_ok_def new_sr_manager_def)

lemma sids_ok_get:
  assumes "sids_ok m" "dict_get (sm_sids m) k = Some s"
  shows "ns_node s = k" "ns_label s = sm_base m + k" "ns_label s \<le> label_max"
  using assms map_of_SomeD [OF assms(2)] by (auto simp: sids_ok_def list_all_iff)

lemma dict_set_fresh: "k \<notin> set (dict_keys d) \<Longrightarrow> dict_set k v d = d @ [(k, v)]"
  by (induction d) auto

lemma get_node_sid_ok:
  "\<lbrakk>sids_ok m; get_node_sid k m = Some l\<rbrakk> \<Longrightarrow> l = sm_base m + k \<and> l \<le> label_max"
  using sids_ok_get by (fastforce simp: get_node_sid_def)

lemma sids_ok_label_inj:
  "\<lbrakk>sids_ok m; get_node_sid a m = Some l; get_node_sid b m = Some l\<rbrakk> \<Longrightarrow> a = b"
  using get_node_sid_ok [of m a l] get_node_sid_ok [of m b l] by simp

lemma sids_ok_allocate:
  assumes "sids_ok m" "allocate_node_sid k nm m = Inr (s, m')"
  shows "sids_ok m'" "sm_base m' = sm_base m" "get_node_sid k m' = Some (sm_base m + k)" "ns_label s = sm_base m + k"
    "\<And>j. get_node_sid j m \<noteq> None \<Longrightarrow> get_node_sid j m' = get_node_sid j m"
    "set (dict_keys (sm_sids m')) = insert k (set (dict_keys (sm_sids m)))"
proof -
  have "sids_ok m' \<and> sm_base m' = sm_base m \<and> get_node_sid k m' = Some (sm_base m + k) \<and> ns_label s = sm_base m + k \<and>
    (\<forall>j. get_node_sid j m \<noteq> None \<longrightarrow> get_node_sid j m' = get_node_sid j m) \<and>
    set (dict_keys (sm_sids m')) = insert k (set (dict_keys (sm_sids m)))"
  proof (cases "dict_get (sm_sids m) k")
    case (Some s')
    then show ?thesis
      using assms sids_ok_get [OF assms(1) Some] by (auto simp: allocate_node_sid_def get_node_sid_def dom_map_of_conv_image_fst [symmetric])
  next
    case None
    then have fresh: "k \<notin> set (dict_keys (sm_sids m))" by (simp add: map_of_eq_None_iff)
    from None assms(2) have s: "s = \<lparr>ns_node = k, ns_label = sm_base m + k, ns_name = nm\<rparr>" "sm_base m + k \<le> label_max"
      "m' = m\<lparr>sm_sids := dict_set k s (sm_sids m), sm_reverse := dict_set (sm_base m + k) k (sm_reverse m)\<rparr>"
      by (auto simp: allocate_node_sid_def Let_def split: if_splits)
    have "sm_base m + k \<notin> set (dict_keys (sm_reverse m))"
    proof
      assume "sm_base m + k \<in> set (dict_keys (sm_reverse m))"
      then obtain j t where "(j, t) \<in> set (sm_sids m)" "ns_label t = sm_base m + k"
        using assms(1) by (auto simp: sids_ok_def)
      then have "j = k" "j \<in> set (dict_keys (sm_sids m))"
        using assms(1) by (force simp: sids_ok_def list_all_iff)+
      then show False using fresh by simp
    qed
    then have "sm_sids m' = sm_sids m @ [(k, s)]" "sm_reverse m' = sm_reverse m @ [(sm_base m + k, k)]"
      "sm_base m' = sm_base m"
      using s(3) fresh by (simp_all add: dict_set_fresh)
    then show ?thesis using assms(1) s(1,2) fresh
      by (auto simp: sids_ok_def get_node_sid_def map_add_def None split: option.split dest: fst_in_keys)
  qed
  then show "sids_ok m'" "sm_base m' = sm_base m" "get_node_sid k m' = Some (sm_base m + k)" "ns_label s = sm_base m + k"
    "\<And>j. get_node_sid j m \<noteq> None \<Longrightarrow> get_node_sid j m' = get_node_sid j m"
    "set (dict_keys (sm_sids m')) = insert k (set (dict_keys (sm_sids m)))" by blast+
qed

lemma sids_ok_reverse:
  assumes "sids_ok m" "get_node_sid k m = Some l"
  shows "get_node_for_sid l m = Some k"
proof -
  have d: "distinct (map fst (sm_reverse m))"
  proof -
    have "map fst (sm_reverse m) = map (\<lambda>k. sm_base m + k) (dict_keys (sm_sids m))"
      using assms(1) by (auto simp: sids_ok_def list_all_iff)
    then show ?thesis using assms(1) by (simp add: sids_ok_def distinct_map inj_on_def)
  qed
  obtain s where "(k, s) \<in> set (sm_sids m)" "ns_label s = l"
    using assms(2) by (auto simp: get_node_sid_def dest: map_of_SomeD)
  then have "(l, k) \<in> set (sm_reverse m)" using assms(1) by (force simp: sids_ok_def)
  then show ?thesis using d by (simp add: get_node_for_sid_def)
qed

lemma allocate_all_ok:
  assumes "sids_ok m" "allocate_all ns m = Inr m'"
  shows "sids_ok m' \<and> sm_base m' = sm_base m \<and>
    (\<forall>i \<in> fst ` set ns \<union> set (dict_keys (sm_sids m)). get_node_sid i m' = Some (sm_base m + i)) \<and>
    set (dict_keys (sm_sids m')) = fst ` set ns \<union> set (dict_keys (sm_sids m))"
  using assms
proof (induction ns arbitrary: m)
  case Nil
  have "get_node_sid i m = Some (sm_base m + i)" if i: "i \<in> set (dict_keys (sm_sids m))" for i
  proof -
    obtain t where "dict_get (sm_sids m) i = Some t"
      using i by (metis map_of_eq_None_iff not_None_eq set_map)
    then show ?thesis using sids_ok_get(2) [OF Nil.prems(1)] by (simp add: get_node_sid_def)
  qed
  then show ?case using Nil by auto
next
  case (Cons p ns)
  obtain i n where p: "p = (i, n)" by (cases p)
  from Cons.prems(2) p obtain s m1 where a: "allocate_node_sid i (nd_name n) m = Inr (s, m1)" "allocate_all ns m1 = Inr m'"
    by auto
  note f = sids_ok_allocate [OF Cons.prems(1) a(1)]
  show ?case using Cons.IH [OF f(1) a(2)] f(2,6) p by auto
qed

lemma allocate_all_fails:
  assumes "sids_ok m"
  shows "(\<exists>e. allocate_all ns m = Inl e) \<longleftrightarrow> (\<exists>i \<in> fst ` set ns. sm_base m + i > label_max)"
  using assms
proof (induction ns arbitrary: m)
  case (Cons p ns)
  obtain i n where p: "p = (i, n)" by (cases p)
  show ?case
  proof (cases "allocate_node_sid i (nd_name n) m")
    case (Inl e)
    then have "sm_base m + i > label_max"
      by (auto simp: allocate_node_sid_def Let_def split: option.splits if_splits)
    then show ?thesis using Inl p by auto
  next
    case (Inr r)
    obtain s m1 where r: "r = (s, m1)" by (cases r)
    note f = sids_ok_allocate [OF Cons.prems Inr [unfolded r]]
    obtain t where "dict_get (sm_sids m1) i = Some t" using f(3) by (auto simp: get_node_sid_def)
    then have "sm_base m + i \<le> label_max" using sids_ok_get [OF f(1)] f(2) by metis
    then show ?thesis using Cons.IH [OF f(1)] Inr r p f(2) by auto
  qed
qed simp

text \<open>
  \<^bold>\<open>C9.\<close> Initialisation gives every satellite and ground station the label base plus
  identifier. It fails exactly when one of these labels exceeds 1048575; otherwise
  the labels are usable MPLS labels for non-negative identifiers, different nodes
  have different labels, and the reverse map inverts the assignment.
\<close>

theorem init_labels:
  "case allocate_all ns (new_sr_manager base adj) of
     Inl e \<Rightarrow> \<exists>i \<in> fst ` set ns. max label_min base + i > label_max
   | Inr m \<Rightarrow> \<forall>i \<in> fst ` set ns. get_node_sid i m = Some (max label_min base + i) \<and>
       get_node_for_sid (max label_min base + i) m = Some i \<and> max label_min base + i \<le> label_max"
proof -
  have b: "sm_base (new_sr_manager base adj) = max label_min base" by (simp add: new_sr_manager_def max_def)
  show ?thesis
  proof (cases "allocate_all ns (new_sr_manager base adj)")
    case (Inl e)
    then show ?thesis using allocate_all_fails [of "new_sr_manager base adj" ns] by (auto simp: b)
  next
    case (Inr m)
    note f = allocate_all_ok [OF new_manager_ok Inr]
    have "get_node_sid i m = Some (max label_min base + i) \<and>
       get_node_for_sid (max label_min base + i) m = Some i \<and> max label_min base + i \<le> label_max"
      if "i \<in> fst ` set ns" for i
    proof -
      have ok: "sids_ok m" and g: "get_node_sid i m = Some (max label_min base + i)" using f that b by auto
      show ?thesis using g sids_ok_reverse [OF ok g] get_node_sid_ok [OF ok g] by blast
    qed
    then show ?thesis using Inr by simp
  qed
qed

definition demo_ids :: "(int \<times> node) list" where
  "demo_ids = [(1, demo_node ''Sat1'' 1 []), (2, demo_node ''Sat2'' 2 []), (5, demo_node ''Gnd5'' 5 [])]"

lemma init_labels_witness:
  "\<exists>m. allocate_all demo_ids (new_sr_manager 16000 100000) = Inr m \<and> get_node_sid 5 m = Some 16005 \<and> get_node_for_sid 16005 m = Some 5"
proof -
  have "is_ok (allocate_all demo_ids (new_sr_manager 16000 100000))" by code_simp
  then obtain m where m: "allocate_all demo_ids (new_sr_manager 16000 100000) = Inr m" by (auto simp: is_ok_iff)
  have "\<forall>i \<in> fst ` set demo_ids. get_node_sid i m = Some (max label_min 16000 + i) \<and>
       get_node_for_sid (max label_min 16000 + i) m = Some i \<and> max label_min 16000 + i \<le> label_max"
    using init_labels [of demo_ids 16000 100000] m by simp
  then show ?thesis using m by (auto simp: demo_ids_def label_min_def)
qed

section \<open>Delivery along the chosen path\<close>

text \<open>
  The forwarding a node's MPLS table stands for. A satellite with a forwarding entry
  for the top label pops it and sends the packet to the neighbour at the other end
  of the entry's interface; a node that receives its own label pops it locally.
\<close>

inductive sr_hop :: "sr_network \<Rightarrow> sr_manager \<Rightarrow> int \<times> int list \<Rightarrow> int \<times> int list \<Rightarrow> bool" for nt m where
  forward: "\<lbrakk>dict_get (nt_sats nt) v = Some sat; e \<in> set (sr_forwarding nt m sat);
     sf_sid e = l; iface_peer_id (sf_iface e) = Some w\<rbrakk> \<Longrightarrow> sr_hop nt m (v, l # ls) (w, ls)"
| pop_own: "get_node_sid v m = Some l \<Longrightarrow> sr_hop nt m (v, l # ls) (v, ls)"

inductive_cases sr_hopE: "sr_hop nt m (v, ls) s"
inductive_simps sr_hop_empty: "sr_hop nt m (v, []) s"

text \<open>\<open>sr_trace s vs t\<close>: from \<open>s\<close> the packet visits the nodes \<open>vs\<close> one after the other and is then in \<open>t\<close>.\<close>

inductive sr_trace :: "sr_network \<Rightarrow> sr_manager \<Rightarrow> int \<times> int list \<Rightarrow> int list \<Rightarrow> int \<times> int list \<Rightarrow> bool" for nt m where
  stop: "sr_trace nt m s [] s"
| step: "\<lbrakk>sr_hop nt m s s1; sr_trace nt m s1 vs s2\<rbrakk> \<Longrightarrow> sr_trace nt m s (fst s1 # vs) s2"

inductive_cases sr_traceE: "sr_trace nt m s vs t"

text \<open>Every node of the path but the last is a satellite with a usable interface to the next node.\<close>

fun path_linked :: "sr_network \<Rightarrow> int list \<Rightarrow> bool" where
  "path_linked nt (v # w # ps) =
    ((case dict_get (nt_sats nt) v of None \<Rightarrow> False
      | Some sat \<Rightarrow> (case get_interface_to_peer sat w of None \<Rightarrow> False
        | Some i \<Rightarrow> (case if_peer i of None \<Rightarrow> False | Some (_, ip) \<Rightarrow> usable_ip ip))) \<and>
     path_linked nt (w # ps))"
| "path_linked nt _ = True"

lemma forwarding_entry_sid:
  "\<lbrakk>e \<in> set (sr_forwarding nt m sat); iface_peer_id (sf_iface e) = Some w\<rbrakk> \<Longrightarrow> get_node_sid w m = Some (sf_sid e)"
  by (auto simp: sr_forwarding_def sr_forward_entry_def split: option.splits if_splits)

lemma linked_forwarding:
  assumes "path_linked nt (v # w # ps)" "get_node_sid w m = Some l"
  shows "sr_hop nt m (v, l # ls) (w, ls)"
proof -
  obtain sat i pn ip where *: "dict_get (nt_sats nt) v = Some sat" "get_interface_to_peer sat w = Some i"
    "if_peer i = Some (pn, ip)" "usable_ip ip"
    using assms(1) by (auto split: option.splits)
  have i: "i \<in> set (nd_ifaces sat)" "iface_peer_id i = Some w"
    using *(2) by (auto simp: get_interface_to_peer_def find_Some_iff)
  then have "sr_forward_entry nt m i \<noteq> []" using * assms(2) by (simp add: sr_forward_entry_def)
  moreover have "set (sr_forward_entry nt m i) \<subseteq> set (sr_forwarding nt m sat)"
    using i(1) by (auto simp: sr_forwarding_def)
  ultimately obtain e where e: "e \<in> set (sr_forward_entry nt m i)" "e \<in> set (sr_forwarding nt m sat)"
    by (cases "sr_forward_entry nt m i") auto
  then have "sf_iface e = i" by (auto simp: sr_forward_entry_def split: option.splits if_splits)
  then have "sf_sid e = l" using forwarding_entry_sid [OF e(2), of w] i(2) assms(2) by simp
  then show ?thesis using sr_hop.forward [OF *(1) e(2)] \<open>sf_iface e = i\<close> i(2) by simp
qed

lemma label_stack_map:
  "rmap (sid_label m) vs = Inr ls \<Longrightarrow> map (\<lambda>v. get_node_sid v m) vs = map Some ls"
  by (induction vs arbitrary: ls) (auto simp: sid_label_def get_node_sid_def split: option.splits)

lemma sr_trace_path:
  assumes "path_linked nt (a # ps)" "map (\<lambda>v. get_node_sid v m) qs = map Some ls" "prefix qs ps"
  shows "sr_trace nt m (a, ls) qs (last (a # qs), [])"
  using assms
proof (induction qs arbitrary: a ps ls)
  case Nil
  then show ?case by (simp add: sr_trace.stop)
next
  case (Cons w qs)
  then obtain l ls' ps' where *: "ls = l # ls'" "ps = w # ps'" "get_node_sid w m = Some l" "prefix qs ps'"
    by (cases ls; cases ps) auto
  have "sr_hop nt m (a, l # ls') (w, ls')" using linked_forwarding Cons.prems(1) * by blast
  moreover have "sr_trace nt m (w, ls') qs (last (w # qs), [])"
    using Cons.IH [of w ps' ls'] Cons.prems * by simp
  ultimately show ?case using sr_trace.step [of nt m "(a, l # ls')" "(w, ls')"] * by simp
qed

lemma sr_trace_unique:
  assumes "sids_ok m" "sr_trace nt m (a, ls) ws t" "map (\<lambda>v. get_node_sid v m) qs = map Some ls" "distinct (a # qs)"
  shows "prefix ws qs \<and> fst t = last (a # ws)"
  using assms(2-4)
proof (induction ws arbitrary: a ls qs)
  case Nil
  then show ?case by (auto elim: sr_traceE)
next
  case (Cons w ws)
  then obtain s1 where s1: "sr_hop nt m (a, ls) s1" "w = fst s1" "sr_trace nt m s1 ws t"
    by (auto elim: sr_traceE)
  then obtain l ls' where ls: "ls = l # ls'" "s1 = (w, ls')"
    by (cases ls) (auto elim: sr_hopE)
  then obtain q qs' where qs: "qs = q # qs'" "get_node_sid q m = Some l" "map (\<lambda>v. get_node_sid v m) qs' = map Some ls'"
    using Cons.prems(2) by (cases qs) auto
  from s1(1) have "get_node_sid w m = Some l"
    unfolding ls by (auto elim!: sr_hopE dest: forwarding_entry_sid)
  then have "w = q" using sids_ok_label_inj [OF assms(1)] qs(2) by blast
  then show ?case using Cons.IH [of w ls' qs'] s1(3) ls(2) qs Cons.prems(3) by auto
qed

text \<open>
  \<^bold>\<open>C3.\<close> A packet that enters the network at the first hop of a path with the label
  stack the daemon installs for that path visits exactly the remaining nodes of the
  path in order: it arrives with an empty stack at the destination, or, with
  penultimate hop popping, at the node before it; and every partial run of the
  forwarding rules is a prefix of this route, so it can neither leave nor loop.
\<close>

theorem source_route_delivery:
  assumes "sids_ok m" "path = src # a # ps" "distinct (a # ps)" "path_linked nt (a # ps)"
    and "get_label_stack_for_path (tl path) use_php m = Inr stack"
  shows "let route = (if use_php then butlast ps else ps) in
    sr_trace nt m (a, stack) route (last (a # route), []) \<and>
    (\<forall>ws t. sr_trace nt m (a, stack) ws t \<longrightarrow> prefix ws route \<and> fst t = last (a # ws))"
proof -
  define route where "route = (if use_php then butlast ps else ps)"
  have "map (\<lambda>v. get_node_sid v m) route = map Some stack"
  proof (cases ps)
    case Nil
    then show ?thesis using assms(2,5) by (simp add: get_label_stack_for_path_def route_def)
  next
    case (Cons p ps')
    then have "get_label_stack_for_path (tl path) use_php m = rmap (sid_label m) route"
      using assms(2) by (simp add: get_label_stack_for_path_def route_def del: rmap.simps)
    then have "rmap (sid_label m) route = Inr stack" using assms(5) by simp
    then show ?thesis by (rule label_stack_map)
  qed
  moreover have "prefix route ps" by (simp add: route_def prefixeq_butlast)
  moreover have "distinct (a # route)"
    using assms(3) calculation(2) by (auto simp: prefix_def)
  ultimately show ?thesis
    using sr_trace_path [OF assms(4)] sr_trace_unique [OF assms(1)] unfolding route_def [symmetric] Let_def by blast
qed

definition demo_sat :: "int \<Rightarrow> string \<Rightarrow> (string \<times> string) list \<Rightarrow> node" where
  "demo_sat i nm peers = (demo_node nm i [])\<lparr>nd_ifaces := map (\<lambda>(p, ip).
     demo_link_iface 0 (nm @ ''.'' @ p) (''x'' @ p) ip) peers\<rparr>"

definition demo_sr_net :: sr_network where
  "demo_sr_net = \<lparr>nt_sats = [(1, demo_sat 1 ''Sat1'' [(''2'', ''10.0.0.2''), (''5'', ''10.0.0.5'')]),
       (2, demo_sat 2 ''Sat2'' [(''1'', ''10.0.0.1''), (''6'', ''10.0.0.6'')])],
     nt_gss = [(5, demo_sat 5 ''Gnd5'' [(''1'', ''10.0.1.1'')]), (6, demo_sat 6 ''Gnd6'' [(''2'', ''10.0.1.2'')])],
     nt_status = True, nt_file_routes = False, nt_iface_version = None, sn_gonetem_on = True,
     sn_containers = [''Sat1'', ''Sat2'', ''Gnd5'', ''Gnd6'']\<rparr>"

lemma source_route_delivery_witness:
  "\<exists>m stack. sids_ok m \<and> get_label_stack_for_path [1, 2, 6] False m = Inr stack \<and>
    sr_trace demo_sr_net m (1, stack) [2, 6] (6, [])"
proof -
  let ?ns = "nt_sats demo_sr_net @ nt_gss demo_sr_net"
  have "is_ok (rbind (allocate_all ?ns (new_sr_manager 16000 100000)) (get_label_stack_for_path [1, 2, 6] False))"
    by code_simp
  then obtain m stack where m: "allocate_all ?ns (new_sr_manager 16000 100000) = Inr m"
    "get_label_stack_for_path [1, 2, 6] False m = Inr stack" by (auto simp: is_ok_iff)
  have ok: "sids_ok m" using allocate_all_ok [OF new_manager_ok m(1)] by blast
  have "path_linked demo_sr_net [1, 2, 6]" by code_simp
  then show ?thesis using source_route_delivery [OF ok, of "[5, 1, 2, 6]" 5 1 "[2, 6]" demo_sr_net False stack] m(2) ok
    by (auto simp: Let_def)
qed

section \<open>Custom paths\<close>

definition sr_route_spec :: "int list option \<Rightarrow> int list option \<Rightarrow> int list option \<Rightarrow>
    (int list \<Rightarrow> int list result) \<Rightarrow> (int list \<times> int list) result" where
  "sr_route_spec custom cached dflt lab =
    (case (case custom of Some p \<Rightarrow> if p \<noteq> [] then Some p else dflt | None \<Rightarrow> dflt) of
       None \<Rightarrow> Inr ([], [])
     | Some p \<Rightarrow> if length p < 2 then Inr ([], [])
         else (case (cached, custom) of (Some l, None) \<Rightarrow> Inr (p, l) | _ \<Rightarrow> map_sum id (\<lambda>l. (p, l)) (lab p)))"

lemma map_sum_rbind [simp]: "map_sum id fst (rbind r (\<lambda>l. Inr (f l, g l))) = map_sum id f r"
  by (cases r) auto

lemma sr_route_fst:
  "map_sum id fst (get_sr_route_for_destination s t dflt php m) =
    sr_route_spec (dict_get (sm_custom m) (s, t)) (dict_get (sm_cache m) (s, t)) dflt (\<lambda>p. get_label_stack_for_path p php m)"
  unfolding get_sr_route_for_destination_def sr_route_spec_def Let_def
  by (simp split: option.split)

text \<open>
  Custom paths override the default path until they are cleared: after a
  successful \<open>set_custom_path\<close> the route for the pair is the given path with its own
  labels whatever the default path and the cache say, other pairs keep their route,
  and after \<open>clear_custom_path\<close> the route is computed from the default path again.
\<close>

theorem custom_path_lifecycle:
  assumes "set_custom_path s t path m = Inr m1"
  shows "get_sr_route_for_destination s t dflt php m1 =
      rbind (get_label_stack_for_path path php m1) (\<lambda>ls. Inr ((path, ls), m1)) \<and>
    (\<forall>s' t'. (s', t') \<noteq> (s, t) \<longrightarrow>
      map_sum id fst (get_sr_route_for_destination s' t' dflt php m1) =
      map_sum id fst (get_sr_route_for_destination s' t' dflt php m)) \<and>
    (\<exists>m2. clear_custom_path s t m1 = (True, m2) \<and> get_custom_path s t m2 = None \<and>
      map_sum id fst (get_sr_route_for_destination s t (Some p) php m2) =
      (if length p < 2 then Inr ([], []) else map_sum id (\<lambda>ls. (p, ls)) (get_label_stack_for_path p php m)))"
proof -
  have len: "length path \<ge> 2" and m1: "m1 = m\<lparr>sm_custom := dict_set (s, t) path (sm_custom m),
      sm_cache := dict_pop (s, t) (sm_cache m)\<rparr>"
    using assms by (auto simp: set_custom_path_def check_path_def split: if_splits)
  have lab: "get_label_stack_for_path q php m1 = get_label_stack_for_path q php m" for q
    by (simp add: get_label_stack_for_path_def sid_label_def [abs_def] m1)
  have a: "get_sr_route_for_destination s t dflt php m1 =
      rbind (get_label_stack_for_path path php m1) (\<lambda>ls. Inr ((path, ls), m1))"
    using len by (auto simp: get_sr_route_for_destination_def m1 Let_def)
  have b: "map_sum id fst (get_sr_route_for_destination s' t' dflt php m1) =
      map_sum id fst (get_sr_route_for_destination s' t' dflt php m)" if ne: "(s', t') \<noteq> (s, t)" for s' t'
  proof -
    have "dict_get (sm_custom m1) (s', t') = dict_get (sm_custom m) (s', t')"
      "dict_get (sm_cache m1) (s', t') = dict_get (sm_cache m) (s', t')"
      using ne by (auto simp: m1)
    then show ?thesis unfolding sr_route_fst lab by simp
  qed
  define m2 where "m2 = m1\<lparr>sm_cache := dict_pop (s, t) (sm_cache m1), sm_custom := dict_pop (s, t) (sm_custom m1)\<rparr>"
  have c: "clear_custom_path s t m1 = (True, m2)" by (simp add: clear_custom_path_def m2_def m1)
  have lab2: "get_label_stack_for_path p php m2 = get_label_stack_for_path p php m"
    by (simp add: get_label_stack_for_path_def sid_label_def [abs_def] m1 m2_def)
  have n: "dict_get (sm_custom m2) (s, t) = None" "dict_get (sm_cache m2) (s, t) = None" by (simp_all add: m2_def)
  have d: "map_sum id fst (get_sr_route_for_destination s t (Some p) php m2) =
      (if length p < 2 then Inr ([], []) else map_sum id (\<lambda>ls. (p, ls)) (get_label_stack_for_path p php m))"
    unfolding sr_route_fst n by (simp add: sr_route_spec_def lab2)
  show ?thesis using a b c d n(1) by (auto simp: get_custom_path_def)
qed

definition demo_manager :: sr_manager where
  "demo_manager = (new_sr_manager 16000 100000)\<lparr>sm_sids := map (\<lambda>k. (k, \<lparr>ns_node = k, ns_label = 16000 + k, ns_name = []\<rparr>)) [1, 2, 5, 6]\<rparr>"

lemma custom_path_lifecycle_witness:
  "\<exists>m1. set_custom_path 5 6 [5, 1, 2, 6] demo_manager = Inr m1 \<and>
    get_sr_route_for_destination 5 6 None False m1 = Inr (([5, 1, 2, 6], [16001, 16002, 16006]), m1)"
proof -
  obtain m1 where m1: "set_custom_path 5 6 [5, 1, 2, 6] demo_manager = Inr m1"
    "get_label_stack_for_path [5, 1, 2, 6] False m1 = Inr [16001, 16002, 16006]"
    by (simp add: set_custom_path_def check_path_def get_label_stack_for_path_def sid_label_def demo_manager_def new_sr_manager_def)
  then show ?thesis
    using custom_path_lifecycle [OF m1(1), of None False, THEN conjunct1] by auto
qed

lemma update_entry_labels:
  assumes "update_entry m php sp src dst = [e]" "get_custom_path (nd_id src) (nd_id dst) m = Some path" "path \<noteq> []"
  shows "get_label_stack_for_path (tl path) php m = Inr (ss_labels e)"
  using assms by (auto simp: update_entry_def chosen_path_def sr_route_via_def split: option.splits sum.splits if_splits)

text \<open>
  What \<open>set_sr_custom_path\<close> reports is not what it installs. For a path with at
  least three nodes and no penultimate hop popping, the returned label stack starts
  with the label of the first hop, whereas every route that the daemon installs for
  the pair has the stack without it.
\<close>

theorem custom_path_report_differs:
  assumes "set_sr_custom_path accepts nt sp s t (s # a # b # ps) d = Inr (rep, d2, lg)" "\<not> daemon_php d"
    and "nd_id src = s" "nd_id dst = t" "sr_manager_of d2 = Some m2"
    and "update_entry m2 False sp src dst = [e]"
  shows "\<exists>l. get_node_sid a m2 = Some l \<and> pr_labels rep = l # ss_labels e"
proof -
  let ?path = "s # a # b # ps"
  from assms(1) obtain m m1 d1 labels where *: "sr_manager_of d = Some m" "set_custom_path s t ?path m = Inr m1"
    "(if nt_status nt then update_sr_route_for_source accepts nt sp s (d\<lparr>sr_manager_of := Some m1\<rparr>)
      else Inr (d\<lparr>sr_manager_of := Some m1\<rparr>, [])) = Inr (d2, lg)"
    "get_label_stack_for_path ?path (daemon_php d2) m1 = Inr labels" "pr_labels rep = labels"
    by (auto simp: set_sr_custom_path_def Let_def split: option.splits if_splits)
  have same: "sr_manager_of d2 = Some m1 \<and> sr_config d2 = sr_config d"
    using *(3) by (auto simp: update_sr_route_for_source_def Let_def split: option.splits if_splits)
  then have m2: "m2 = m1" "daemon_php d2 = False" using assms(2,5) by (simp_all add: daemon_php_def)
  have "get_custom_path (nd_id src) (nd_id dst) m2 = Some ?path"
    using *(2) assms(3,4) m2(1) by (auto simp: set_custom_path_def get_custom_path_def)
  then have inst: "get_label_stack_for_path (tl ?path) False m2 = Inr (ss_labels e)"
    using update_entry_labels [OF assms(6)] by simp
  have "\<exists>l. get_node_sid a m2 = Some l \<and> rmap (sid_label m2) (b # ps) = Inr (tl labels) \<and> labels = l # tl labels"
    using *(4) m2 by (auto simp: get_label_stack_for_path_def sid_label_def get_node_sid_def split: option.splits)
  then show ?thesis using inst *(5) by (auto simp: get_label_stack_for_path_def)
qed

definition demo_sr_daemon :: sr_daemon where
  "demo_sr_daemon = new_sr_daemon\<lparr>sr_manager_of := Some demo_manager, sr_config := Some default_mpls_config\<rparr>"

lemma custom_path_report_differs_witness:
  "\<exists>rep d2 lg m2 e. set_sr_custom_path (\<lambda>_ _. True) (demo_sr_net\<lparr>nt_status := False\<rparr>) (\<lambda>_ _. None) 5 6 [5, 1, 2, 6] demo_sr_daemon = Inr (rep, d2, lg) \<and>
    update_entry m2 False (\<lambda>_ _. None) (snd (nt_gss demo_sr_net ! 0)) (snd (nt_gss demo_sr_net ! 1)) = [e] \<and>
    pr_labels rep = 16001 # ss_labels e"
proof -
  let ?r = "set_sr_custom_path (\<lambda>_ _. True) (demo_sr_net\<lparr>nt_status := False\<rparr>) (\<lambda>_ _. None) 5 6 [5, 1, 2, 6] demo_sr_daemon"
  let ?src = "snd (nt_gss demo_sr_net ! 0)" and ?dst = "snd (nt_gss demo_sr_net ! 1)"
  have "is_ok (rbind ?r (\<lambda>(rep, d2, lg). case sr_manager_of d2 of None \<Rightarrow> Inl (KeyError [])
      | Some m2 \<Rightarrow> if length (update_entry m2 False (\<lambda>_ _. None) ?src ?dst) = 1 \<and> get_node_sid 1 m2 = Some 16001
          then Inr () else Inl (KeyError [])))" by code_simp
  then obtain rep d2 lg m2 where r: "?r = Inr (rep, d2, lg)" "sr_manager_of d2 = Some m2"
    "length (update_entry m2 False (\<lambda>_ _. None) ?src ?dst) = 1" "get_node_sid 1 m2 = Some 16001"
    by (auto simp: is_ok_iff split: option.splits if_splits)
  then obtain e where e: "update_entry m2 False (\<lambda>_ _. None) ?src ?dst = [e]"
    by (auto simp: length_Suc_conv)
  have "\<not> daemon_php demo_sr_daemon" "nd_id ?src = 5" "nd_id ?dst = 6" by code_simp+
  then obtain l where "get_node_sid 1 m2 = Some l" "pr_labels rep = l # ss_labels e"
    using custom_path_report_differs [OF r(1) _ _ _ r(2) e] by auto
  then show ?thesis using r e by auto
qed

section \<open>Incremental installation\<close>

text \<open>
  All commands the daemon sends with the diff are \<open>replace\<close> commands. \<open>key line\<close> is
  the table entry a command writes and \<open>holds k line\<close> says that the kernel has the
  entry the command describes.
\<close>

locale replace_kernel =
  fixes holds :: "'k \<Rightarrow> string \<Rightarrow> bool"
    and exec_line :: "string \<Rightarrow> 'k \<Rightarrow> 'k"
    and key :: "string \<Rightarrow> 'a"
  assumes exec_holds: "holds (exec_line l k) l"
    and exec_other: "key l' \<noteq> key l \<Longrightarrow> holds k l' \<Longrightarrow> holds (exec_line l k) l'"
begin

lemma fold_holds:
  "distinct (map key ls) \<Longrightarrow> l \<in> set ls \<or> (holds k l \<and> key l \<notin> key ` set ls) \<Longrightarrow> holds (fold exec_line ls k) l"
proof (induction ls arbitrary: k)
  case (Cons x ls)
  have "l \<in> set ls \<or> (holds (exec_line x k) l \<and> key l \<notin> key ` set ls)"
  proof (cases "l \<in> set ls")
    case False
    then show ?thesis
      using Cons.prems exec_holds exec_other [of l x k] by (cases "l = x") auto
  qed simp
  then show ?case using Cons.IH [of "exec_line x k"] Cons.prems(1) by simp
qed simp

lemma changed_installs:
  assumes "distinct (map key cmds)" "\<forall>l \<in> set prv. holds k l" "l \<in> set cmds"
  shows "holds (fold exec_line (filter (\<lambda>l. l \<notin> set prv) cmds) k) l"
proof (rule fold_holds)
  show "distinct (map key (filter (\<lambda>l. l \<notin> set prv) cmds))" using assms(1) by (rule distinct_map_filter)
  show "l \<in> set (filter (\<lambda>l. l \<notin> set prv) cmds) \<or> holds k l \<and> key l \<notin> key ` set (filter (\<lambda>l. l \<notin> set prv) cmds)"
  proof (cases "l \<in> set prv")
    case True
    have "key l \<notin> key ` set (filter (\<lambda>l. l \<notin> set prv) cmds)"
    proof
      assume "key l \<in> key ` set (filter (\<lambda>l. l \<notin> set prv) cmds)"
      then obtain l' where "l' \<in> set cmds" "l' \<notin> set prv" "key l = key l'" by auto
      moreover have "inj_on key (set cmds)" using assms(1) by (simp add: distinct_map)
      ultimately show False using assms(3) True by (metis inj_onD)
    qed
    then show ?thesis using True assms(2) by auto
  qed (use assms(3) in auto)
qed

end

text \<open>
  The entry that the daemon's commands write: \<open>ip route replace P ...\<close> and
  \<open>ip -f mpls route replace L ...\<close> replace the route for the prefix or label.
\<close>

definition line_key :: "string \<Rightarrow> string list" where
  "line_key l = (let ws = split_on (CHR '' '') l in if ws ! 1 = ''-f'' then take 6 ws else take 4 ws)"

definition table_exec :: "string \<Rightarrow> (string list \<Rightarrow> string option) \<Rightarrow> (string list \<Rightarrow> string option)" where
  "table_exec l k = k(line_key l \<mapsto> l)"

definition table_holds :: "(string list \<Rightarrow> string option) \<Rightarrow> string \<Rightarrow> bool" where
  "table_holds k l = (k (line_key l) = Some l)"

interpretation table_kernel: replace_kernel table_holds table_exec line_key
  by unfold_locales (auto simp: table_holds_def table_exec_def)

text \<open>
  \<^bold>\<open>C8.\<close> Incremental installation is complete. If a node's kernel has the entries of
  its previous command list and the container accepts the command, then running only
  the lines that \<open>push_changed\<close> sends leaves every entry of the new list in the
  kernel, and the new list is what the next diff compares with; when nothing changed
  no command is sent at all.
\<close>

theorem push_changed_installs:
  assumes "replace_kernel holds exec_line key" "distinct (map key cmds)"
    and "list_all (holds k) (dict_get_or prev (nd_id n) [])"
    and "push_changed (\<lambda>_ _. True) n cmds (prev, lg) = (prev', lg')"
  shows "list_all (holds (fold exec_line (filter (\<lambda>l. l \<notin> set (dict_get_or prev (nd_id n) [])) cmds) k)) cmds \<and>
    (if set cmds \<subseteq> set (dict_get_or prev (nd_id n) []) then prev' = prev \<and> lg' = lg
     else dict_get prev' (nd_id n) = Some cmds \<and>
       lg' = lg @ [(nd_name n, py_join ''; '' (filter (\<lambda>l. l \<notin> set (dict_get_or prev (nd_id n) [])) cmds))])"
proof -
  have "holds (fold exec_line (filter (\<lambda>l. l \<notin> set (dict_get_or prev (nd_id n) [])) cmds) k) l" if "l \<in> set cmds" for l
    using replace_kernel.changed_installs [OF assms(1,2) _ that] assms(3) by (simp add: list_all_iff)
  moreover have "filter (\<lambda>l. l \<notin> P) cmds = [] \<longleftrightarrow> set cmds \<subseteq> P" for P by (auto simp: filter_empty_conv)
  ultimately show ?thesis using assms(4)
    by (auto simp: push_changed_def Let_def list_all_iff split: if_splits)
qed

lemma push_changed_installs_witness:
  "list_all (table_holds (fold table_exec (filter (\<lambda>l. l \<notin> set [sid_command 17]) [sid_command 17, sid_command 18])
     [line_key (sid_command 17) \<mapsto> sid_command 17])) [sid_command 17, sid_command 18]"
proof -
  have "distinct (map line_key [sid_command 17, sid_command 18])" by code_simp
  moreover have "list_all (table_holds [line_key (sid_command 17) \<mapsto> sid_command 17])
      (dict_get_or [(1, [sid_command 17])] (nd_id (demo_node ''Sat1'' 1 [])) [])"
    by (simp add: demo_node_def dict_get_or_def table_holds_def)
  moreover obtain prev' lg' where "push_changed (\<lambda>_ _. True) (demo_node ''Sat1'' 1 []) [sid_command 17, sid_command 18]
      ([(1, [sid_command 17])], []) = (prev', lg')" by (cases "push_changed (\<lambda>_ _. True) (demo_node ''Sat1'' 1 [])
      [sid_command 17, sid_command 18] ([(1, [sid_command 17])], [])")
  ultimately show ?thesis
    using push_changed_installs [OF table_kernel.replace_kernel_axioms]
    by (fastforce simp: demo_node_def dict_get_or_def)
qed

end
