(* ===== verification/Topology.thy ===== *)
theory Topology
  imports SR_MPLS
begin

text \<open>
  Links and the topology manager's mirror of the simulation: \<open>models/link.py\<close>,
  \<open>services/mixins/topology_sync.py\<close>, \<open>services/mixins/link_ops.py\<close> and
  \<open>services/mixins/interface_mgr.py\<close>.

  \<open>topology\<close> extends the daemons' view of the network by the link dictionary, keyed
  by the unordered pair of end names (the code's \<open>frozenset\<close>), and the list of all
  interfaces. An \<open>Interface\<close> object occurs in the list of its node, of its link and of
  the topology; \<open>store_iface\<close> writes an updated record to every copy. Links refer to
  nodes by name, identifier and type.

  The simulation manager is a parameter: its links are \<open>satcom_link\<close> values. The
  distance of two nodes is the parameter \<open>km_of\<close> (\<open>None\<close> when a position is missing)
  and the result of a link budget the parameter \<open>budget\<close> (\<open>None\<close> when an antenna is
  missing). Distances are real numbers. Thread pools run their jobs in submission
  order, which is one of the orders the code allows.
\<close>

section \<open>Links\<close>

record nref =
  nr_name :: string
  nr_id :: int
  nr_type :: string

record link =
  lk_source :: nref
  lk_target :: nref
  lk_distance :: real
  lk_type :: string
  lk_active :: bool
  lk_direction :: string
  lk_use_budget :: bool
  lk_default_cap :: int
  lk_cap1 :: int
  lk_cap2 :: int
  lk_ifaces :: "iface list"
  lk_delay :: int
  lk_to_update :: bool
  lk_to_add :: bool
  lk_to_remove :: bool
  lk_to_delete :: bool

text \<open>The link budget of a satellite and a ground station at a distance: downlink and uplink.\<close>

type_synonym budget = "nref \<Rightarrow> nref \<Rightarrow> real \<Rightarrow> (int \<times> int) option"

definition py_trunc :: "real \<Rightarrow> int" where
  "py_trunc x = (if x \<ge> 0 then \<lfloor>x\<rfloor> else \<lceil>x\<rceil>)"

definition delay_of :: "real \<Rightarrow> int" where
  "delay_of d = py_trunc (d / 299792458 * 1000)"

definition identify_sat_and_gs :: "link \<Rightarrow> nref \<times> nref" where
  "identify_sat_and_gs l = (if nr_type (lk_source l) = ''GroundStation''
     then (lk_target l, lk_source l) else (lk_source l, lk_target l))"

definition compute_budget_capacity :: "budget \<Rightarrow> link \<Rightarrow> link" where
  "compute_budget_capacity budget l = (let (sat, gs) = identify_sat_and_gs l in case budget sat gs (lk_distance l) of
     None \<Rightarrow> l\<lparr>lk_cap1 := lk_default_cap l, lk_cap2 := lk_default_cap l\<rparr>
   | Some (dl, ul) \<Rightarrow> l\<lparr>lk_cap1 := (if dl > 0 then dl else lk_default_cap l),
                       lk_cap2 := (if ul > 0 then ul else lk_default_cap l)\<rparr>)"

definition update_link_capacities :: "budget \<Rightarrow> link \<Rightarrow> link" where
  "update_link_capacities budget l =
    (if lk_use_budget l \<and> lk_type l = ''GroundStationLink'' then compute_budget_capacity budget l
     else l\<lparr>lk_cap1 := lk_default_cap l, lk_cap2 := lk_default_cap l\<rparr>)"

definition refresh_link_capacities :: "budget \<Rightarrow> link \<Rightarrow> bool \<times> link" where
  "refresh_link_capacities budget l =
    (let l1 = update_link_capacities budget l;
         changed = ((lk_cap1 l1, lk_cap2 l1) \<noteq> (lk_cap1 l, lk_cap2 l))
     in (changed, if changed then l1\<lparr>lk_to_update := True\<rparr> else l1))"

definition new_link :: "budget \<Rightarrow> nref \<Rightarrow> nref \<Rightarrow> real \<Rightarrow> string \<Rightarrow> string \<Rightarrow> bool \<Rightarrow> int \<Rightarrow> bool \<Rightarrow> link" where
  "new_link budget src tgt distance ty direction active cap use_budget =
    update_link_capacities budget
     \<lparr>lk_source = src, lk_target = tgt, lk_distance = distance, lk_type = ty, lk_active = active,
      lk_direction = direction, lk_use_budget = use_budget, lk_default_cap = cap, lk_cap1 = 0, lk_cap2 = 0,
      lk_ifaces = [], lk_delay = delay_of distance, lk_to_update = False, lk_to_add = False,
      lk_to_remove = False, lk_to_delete = False\<rparr>"

definition update_distance_and_delay :: "budget \<Rightarrow> real \<Rightarrow> link \<Rightarrow> link" where
  "update_distance_and_delay budget new_distance l =
    (let new_delay = delay_of new_distance;
         distance_changed = (new_distance \<noteq> lk_distance l);
         l1 = l\<lparr>lk_distance := new_distance\<rparr>;
         l2 = (if new_delay \<noteq> lk_delay l1 then l1\<lparr>lk_delay := new_delay, lk_to_update := True\<rparr> else l1)
     in if distance_changed \<and> lk_use_budget l2 \<and> lk_type l2 = ''GroundStationLink''
        then snd (refresh_link_capacities budget l2) else l2)"

definition link_eq :: "link \<Rightarrow> link \<Rightarrow> bool" where
  "link_eq l m = (nr_name (lk_source l) = nr_name (lk_source m) \<and> nr_name (lk_target l) = nr_name (lk_target m))"

definition get_names :: "link \<Rightarrow> string \<times> string" where
  "get_names l = (nr_name (lk_source l) @ ''.'' @ dec_int (nr_id (lk_target l)),
                  nr_name (lk_target l) @ ''.'' @ dec_int (nr_id (lk_source l)))"

definition update_interfaces_state :: "link \<Rightarrow> link" where
  "update_interfaces_state l = l\<lparr>lk_ifaces := map (\<lambda>i. i\<lparr>if_active := lk_active l\<rparr>) (lk_ifaces l)\<rparr>"

definition get_capacity :: "link \<Rightarrow> int" where
  "get_capacity l = lk_cap1 l"

definition last_named :: "string \<Rightarrow> iface list \<Rightarrow> iface option" where
  "last_named nm ifs = (case filter (\<lambda>i. if_name i = nm) ifs of [] \<Rightarrow> None | is \<Rightarrow> Some (last is))"

text \<open>\<open>read_mac n dev\<close> is the output of reading the device's address on the node.\<close>

definition known_mac :: "(string \<Rightarrow> string \<Rightarrow> string result) \<Rightarrow> string \<Rightarrow> iface \<Rightarrow> string result" where
  "known_mac read_mac nd i = (case if_mac i of Some mac \<Rightarrow> Inr mac | None \<Rightarrow> rbind (get_iname i) (read_mac nd))"

definition store_mac :: "iface \<Rightarrow> string \<Rightarrow> link \<Rightarrow> link" where
  "store_mac i mac l = l\<lparr>lk_ifaces := map (\<lambda>j. if if_oid j = if_oid i then j\<lparr>if_mac := Some mac\<rparr> else j) (lk_ifaces l)\<rparr>"

definition get_mac_addresses :: "(string \<Rightarrow> string \<Rightarrow> string result) \<Rightarrow> link \<Rightarrow> (string \<times> string) result \<times> link" where
  "get_mac_addresses read_mac l =
    (if lk_ifaces l = [] then (Inl (ValueError ''No peer interfaces available on this link''), l)
     else let (src_name, dst_name) = get_names l;
              src = last_named src_name (lk_ifaces l);
              dst = (if dst_name = src_name then None else last_named dst_name (lk_ifaces l))
       in case (src, dst) of
            (Some s, Some d) \<Rightarrow>
              (case known_mac read_mac (nr_name (lk_source l)) s of
                 Inl e \<Rightarrow> (Inl e, l)
               | Inr sm \<Rightarrow>
                   let l1 = store_mac s sm l
                   in (case known_mac read_mac (nr_name (lk_target l)) d of
                         Inl e \<Rightarrow> (Inl e, l1)
                       | Inr dm \<Rightarrow> (Inr (sm, dm), store_mac d dm l1)))
          | _ \<Rightarrow> (Inl (ValueError ''Could not find matching peer interfaces for MAC address lookup''), l))"

section \<open>The topology\<close>

record topology = sr_network +
  tp_links :: "(string set, link) dict"
  tp_interfaces :: "iface list"
  tp_initial_sync :: bool
  tp_isl_cap :: int
  tp_gnd_cap :: int
  tp_gobj_cap :: "int option"
  tp_use_budget :: bool
  tp_time_step :: int
  tp_next_oid :: nat

text \<open>Ends of a simulation link.\<close>

datatype endpoint = SatEnd int | GndEnd int | OtherEnd

record satcom_link =
  sl_source :: "endpoint option"
  sl_dest :: "endpoint option"
  sl_type :: "string option"
  sl_is_active :: "bool option"
  sl_disabled :: "bool option"
  sl_direction :: "string option"

fun end_name :: "endpoint \<Rightarrow> string option" where
  "end_name (SatEnd u) = Some (''Sat'' @ dec_int u)"
| "end_name (GndEnd u) = Some (''Gnd'' @ dec_int u)"
| "end_name OtherEnd = None"

definition build_link_key :: "endpoint \<Rightarrow> endpoint \<Rightarrow> string set result" where
  "build_link_key s t = (case (end_name s, end_name t) of
     (Some a, Some b) \<Rightarrow> Inr {a, b}
   | _ \<Rightarrow> Inl (ValueError ''Source and target must be either Satellite or GroundStation''))"

definition nref_end :: "nref \<Rightarrow> endpoint" where
  "nref_end r = (if nr_type r = ''GroundStation'' then GndEnd (nr_id r) else SatEnd (nr_id r))"

definition link_key :: "link \<Rightarrow> string set result" where
  "link_key l = build_link_key (nref_end (lk_source l)) (nref_end (lk_target l))"

fun end_uid :: "endpoint \<Rightarrow> int" where
  "end_uid (SatEnd u) = u"
| "end_uid (GndEnd u) = u"
| "end_uid OtherEnd = -1"

definition node_ref :: "node \<Rightarrow> nref" where
  "node_ref n = \<lparr>nr_name = nd_name n, nr_id = nd_id n, nr_type = nd_type n\<rparr>"

definition find_node :: "int \<Rightarrow> 'a network_scheme \<Rightarrow> node option" where
  "find_node uid tp = (case dict_get (nt_sats tp) uid of Some n \<Rightarrow> Some n | None \<Rightarrow> dict_get (nt_gss tp) uid)"

definition link_capacity_for :: "string \<Rightarrow> topology \<Rightarrow> int" where
  "link_capacity_for ty tp =
    (if ty = ''InterSatelliteLink'' then tp_isl_cap tp
     else if ty = ''GroundObjectLink'' then (case tp_gobj_cap tp of Some c \<Rightarrow> c | None \<Rightarrow> tp_gnd_cap tp)
     else tp_gnd_cap tp)"

definition create_link_from_satcom_link ::
    "budget \<Rightarrow> (nref \<Rightarrow> nref \<Rightarrow> real option) \<Rightarrow> topology \<Rightarrow> endpoint \<Rightarrow> endpoint \<Rightarrow> satcom_link \<Rightarrow> link result" where
  "create_link_from_satcom_link budget km_of tp s t sl =
    (case find_node (end_uid s) tp of
       None \<Rightarrow> Inl (ValueError ''Link source not found'')
     | Some src \<Rightarrow> (case find_node (end_uid t) tp of
         None \<Rightarrow> Inl (ValueError ''Link destination not found'')
       | Some tgt \<Rightarrow> (case km_of (node_ref src) (node_ref tgt) of
           None \<Rightarrow> Inl (KeyError ''latitude'')
         | Some km \<Rightarrow>
             let ty = (case sl_type sl of Some ty \<Rightarrow> ty | None \<Rightarrow> ''Link'');
                 active = \<not> (case sl_disabled sl of Some b \<Rightarrow> b | None \<Rightarrow> True);
                 dir = (case sl_direction sl of Some d \<Rightarrow> d | None \<Rightarrow> ''Undefined'')
             in Inr (new_link budget (node_ref src) (node_ref tgt) (km * 1000) ty dir active
                       (link_capacity_for ty tp) (tp_use_budget tp)))))"

section \<open>Synchronising the links\<close>

text \<open>
  The state of the pass over the simulation's links: the topology, the keys seen,
  the keys of existing links whose distance is refreshed, and the number of errors.
\<close>

record sync_state =
  sy_tp :: topology
  sy_keys :: "string set list"
  sy_refresh :: "string set list"
  sy_errors :: nat

definition set_activity :: "bool \<Rightarrow> link \<Rightarrow> link" where
  "set_activity new_active l =
    (if lk_active l \<noteq> new_active then
       (if new_active then l\<lparr>lk_active := True, lk_to_add := True, lk_to_remove := False\<rparr>
        else l\<lparr>lk_active := False, lk_to_add := False, lk_to_remove := True\<rparr>)
     else l)"

definition satcom_active :: "satcom_link \<Rightarrow> bool" where
  "satcom_active sl = (case sl_is_active sl of Some b \<Rightarrow> b
     | None \<Rightarrow> \<not> (case sl_disabled sl of Some b \<Rightarrow> b | None \<Rightarrow> False))"

definition set_link :: "string set \<Rightarrow> link \<Rightarrow> topology \<Rightarrow> topology" where
  "set_link key l tp = tp\<lparr>tp_links := dict_set key l (tp_links tp)\<rparr>"

definition sync_link :: "budget \<Rightarrow> (nref \<Rightarrow> nref \<Rightarrow> real option) \<Rightarrow> bool \<Rightarrow> sync_state \<Rightarrow> satcom_link \<Rightarrow> sync_state" where
  "sync_link budget km_of add_anyway st sl =
    (case (sl_source sl, sl_dest sl) of
       (Some s, Some t) \<Rightarrow> (case build_link_key s t of
           Inl _ \<Rightarrow> st\<lparr>sy_errors := Suc (sy_errors st)\<rparr>
         | Inr key \<Rightarrow>
             let st1 = st\<lparr>sy_keys := sy_keys st @ [key]\<rparr>; tp = sy_tp st1 in
             (case dict_get (tp_links tp) key of
                None \<Rightarrow> (case create_link_from_satcom_link budget km_of tp s t sl of
                    Inl _ \<Rightarrow> st1\<lparr>sy_errors := Suc (sy_errors st1)\<rparr>
                  | Inr l \<Rightarrow>
                      let l1 = (if (tp_initial_sync tp \<or> add_anyway) \<and> lk_active l then l\<lparr>lk_to_add := True\<rparr> else l)
                      in st1\<lparr>sy_tp := set_link key l1 tp\<rparr>)
              | Some l \<Rightarrow>
                  st1\<lparr>sy_tp := set_link key (set_activity (satcom_active sl) l) tp,
                      sy_refresh := sy_refresh st1 @ [key]\<rparr>))
     | _ \<Rightarrow> st)"

definition refresh_distance :: "budget \<Rightarrow> (nref \<Rightarrow> nref \<Rightarrow> real option) \<Rightarrow> sync_state \<Rightarrow> string set \<Rightarrow> sync_state" where
  "refresh_distance budget km_of st key =
    (case dict_get (tp_links (sy_tp st)) key of
       None \<Rightarrow> st
     | Some l \<Rightarrow> (case km_of (lk_source l) (lk_target l) of
         None \<Rightarrow> st\<lparr>sy_errors := Suc (sy_errors st)\<rparr>
       | Some km \<Rightarrow> st\<lparr>sy_tp := set_link key (update_distance_and_delay budget (km * 1000) l) (sy_tp st)\<rparr>))"

definition refresh_link_distances :: "budget \<Rightarrow> (nref \<Rightarrow> nref \<Rightarrow> real option) \<Rightarrow> sync_state \<Rightarrow> sync_state" where
  "refresh_link_distances budget km_of st = foldl (refresh_distance budget km_of) st (sy_refresh st)"

definition flag_missing :: "string set list \<Rightarrow> topology \<Rightarrow> topology" where
  "flag_missing keys tp = tp\<lparr>tp_links := map (\<lambda>(k, l). (k, if k \<in> set keys then l else l\<lparr>lk_to_remove := True\<rparr>)) (tp_links tp)\<rparr>"

record link_changes =
  lc_add :: "string set list"
  lc_update :: "string set list"
  lc_remove :: "string set list"

definition collect_changes :: "(string set, link) dict \<Rightarrow> link_changes" where
  "collect_changes links =
    \<lparr>lc_add = map fst (filter (\<lambda>(k, l). \<not> lk_to_remove l \<and> lk_to_add l) links),
     lc_update = map fst (filter (\<lambda>(k, l). \<not> lk_to_remove l \<and> \<not> lk_to_add l \<and> lk_to_update l) links),
     lc_remove = map fst (filter (\<lambda>(k, l). lk_to_remove l) links)\<rparr>"

definition sync_links :: "budget \<Rightarrow> (nref \<Rightarrow> nref \<Rightarrow> real option) \<Rightarrow> bool \<Rightarrow> satcom_link list \<Rightarrow>
    topology \<Rightarrow> link_changes \<times> topology" where
  "sync_links budget km_of add_anyway data tp =
    (let st0 = \<lparr>sy_tp = tp, sy_keys = [], sy_refresh = [], sy_errors = 0\<rparr>;
         st1 = refresh_link_distances budget km_of (foldl (sync_link budget km_of add_anyway) st0 data);
         tp1 = (flag_missing (sy_keys st1) (sy_tp st1))\<lparr>tp_initial_sync := True\<rparr>
     in (collect_changes (tp_links tp1), tp1))"

definition satcom_key :: "satcom_link \<Rightarrow> string set option" where
  "satcom_key sl = (case (sl_source sl, sl_dest sl) of
     (Some s, Some t) \<Rightarrow> (case build_link_key s t of Inr k \<Rightarrow> Some k | Inl _ \<Rightarrow> None)
   | _ \<Rightarrow> None)"

definition sync_links_to_delete :: "satcom_link list \<Rightarrow> topology \<Rightarrow> topology" where
  "sync_links_to_delete data tp = flag_missing (List.map_filter satcom_key data) tp"

section \<open>Interfaces of a link\<close>

definition update_node :: "nref \<Rightarrow> (node \<Rightarrow> node) \<Rightarrow> topology \<Rightarrow> topology" where
  "update_node r f tp =
    (if nr_type r = ''GroundStation''
     then tp\<lparr>nt_gss := map (\<lambda>(k, n). (k, if k = nr_id r then f n else n)) (nt_gss tp)\<rparr>
     else tp\<lparr>nt_sats := map (\<lambda>(k, n). (k, if k = nr_id r then f n else n)) (nt_sats tp)\<rparr>)"

definition add_iface :: "iface \<Rightarrow> node \<Rightarrow> node" where
  "add_iface i n = n\<lparr>nd_ifaces := nd_ifaces n @ [i]\<rparr>"

definition link_iface_type :: "string \<Rightarrow> string \<Rightarrow> string \<Rightarrow> string" where
  "link_iface_type dflt a b =
    (if contains ''Gnd'' (take 3 a) \<and> contains ''Gnd'' (take 3 b) then ''GroundObjectLink''
     else if take 3 a = ''Gnd'' \<or> take 3 b = ''Gnd'' then ''GroundStationLink''
     else if take 3 a = ''Sat'' \<or> take 3 b = ''Sat'' then ''InterSatelliteLink''
     else dflt)"

definition link_iface :: "nat \<Rightarrow> string \<Rightarrow> string \<Rightarrow> link \<Rightarrow> iface" where
  "link_iface oid nm peer_name l = (new_iface oid nm
      (link_iface_type [] (nr_name (lk_source l)) (nr_name (lk_target l))))
     \<lparr>if_delay := lk_delay l, if_active := lk_active l, if_peer := Some (peer_name, [])\<rparr>"

definition set_peer_ip :: "iface \<Rightarrow> iface \<Rightarrow> iface" where
  "set_peer_ip peer i = i\<lparr>if_peer := Some (if_name peer, if_ipv4 peer)\<rparr>"

text \<open>
  \<open>build_interfaces_from_link\<close> returns the error when addressing fails; the
  interfaces are then in place without addresses.
\<close>

definition build_interfaces_from_link :: "bool \<Rightarrow> string set \<Rightarrow> topology \<Rightarrow> pyerr option \<times> topology" where
  "build_interfaces_from_link with_ip key tp =
    (case dict_get (tp_links tp) key of
       None \<Rightarrow> (Some (KeyError ''link''), tp)
     | Some l \<Rightarrow>
         let (n1, n2) = get_names l; oid = tp_next_oid tp;
             i1 = link_iface oid n1 n2 l; i2 = link_iface (Suc oid) n2 n1 l;
             (err, j1, j2) = (if nt_status tp \<and> with_ip then
                (case set_ipv4_address i1 i2 of
                   Inl e \<Rightarrow> (Some e, i1, i2)
                 | Inr (a1, a2) \<Rightarrow> (case set_ipv4_address a2 a1 of
                     Inl e \<Rightarrow> (Some e, set_peer_ip a2 a1, set_peer_ip a1 a2)
                   | Inr (b2, b1) \<Rightarrow> (None, set_peer_ip b2 b1, set_peer_ip b1 b2)))
               else (None, i1, i2));
             tp1 = update_node (lk_source l) (add_iface j1) tp;
             tp2 = update_node (lk_target l) (add_iface j2) tp1;
             tp3 = set_link key (l\<lparr>lk_ifaces := lk_ifaces l @ [j1, j2]\<rparr>) tp2
         in (err, tp3\<lparr>tp_interfaces := tp_interfaces tp3 @ [j1, j2], tp_next_oid := oid + 2,
                nt_iface_version := Some (case nt_iface_version tp3 of Some v \<Rightarrow> v + 1 | None \<Rightarrow> 1)\<rparr>))"

definition assign_interfaces_to_nodes :: "topology \<Rightarrow> topology" where
  "assign_interfaces_to_nodes tp = foldl (\<lambda>t k. snd (build_interfaces_from_link True k t)) tp (dict_keys (tp_links tp))"

definition replace_iface :: "iface \<Rightarrow> iface list \<Rightarrow> iface list" where
  "replace_iface i ifs = map (\<lambda>j. if if_oid j = if_oid i then i else j) ifs"

definition store_iface :: "iface \<Rightarrow> topology \<Rightarrow> topology" where
  "store_iface i tp = tp\<lparr>
     nt_sats := map (\<lambda>(k, n). (k, n\<lparr>nd_ifaces := replace_iface i (nd_ifaces n)\<rparr>)) (nt_sats tp),
     nt_gss := map (\<lambda>(k, n). (k, n\<lparr>nd_ifaces := replace_iface i (nd_ifaces n)\<rparr>)) (nt_gss tp),
     tp_links := map (\<lambda>(k, l). (k, l\<lparr>lk_ifaces := replace_iface i (lk_ifaces l)\<rparr>)) (tp_links tp),
     tp_interfaces := replace_iface i (tp_interfaces tp)\<rparr>"

fun set_ips_to_nodes :: "nat list \<Rightarrow> topology \<Rightarrow> topology result" where
  "set_ips_to_nodes [] tp = Inr tp"
| "set_ips_to_nodes (oid # oids) tp =
    (case find (\<lambda>i. if_oid i = oid) (tp_interfaces tp) of
       None \<Rightarrow> set_ips_to_nodes oids tp
     | Some i \<Rightarrow>
         (case find (\<lambda>j. Some (if_name j) = map_option fst (if_peer i)) (tp_interfaces tp) of
            None \<Rightarrow> Inl (OtherError ''Interface object has no attribute peer'')
          | Some p \<Rightarrow> rbind (set_ipv4_address i p) (\<lambda>(i1, p1).
              set_ips_to_nodes oids (store_iface (set_peer_ip p1 i1) (store_iface (set_peer_ip i1 p1) tp)))))"

definition loopback_with_name :: "node \<Rightarrow> iface" where
  "loopback_with_name n = (nd_loopback n)\<lparr>if_name := ''lo_'' @ nd_name n\<rparr>"

fun add_loopbacks :: "(int, node) dict \<Rightarrow> ((int, node) dict \<times> iface list) result" where
  "add_loopbacks [] = Inr ([], [])"
| "add_loopbacks ((k, n) # d) =
    rbind (set_ipv4_address (loopback_with_name n) (loopback_with_name n)) (\<lambda>(lo, _).
    rbind (add_loopbacks d) (\<lambda>(d', los). Inr ((k, n\<lparr>nd_loopback := lo\<rparr>) # d', lo # los)))"

definition add_loopback_interfaces_to_list :: "topology \<Rightarrow> topology result" where
  "add_loopback_interfaces_to_list tp =
    rbind (add_loopbacks (nt_sats tp)) (\<lambda>(sats, ls).
    rbind (add_loopbacks (nt_gss tp)) (\<lambda>(gss, lg).
    Inr (tp\<lparr>nt_sats := sats, nt_gss := gss, tp_interfaces := tp_interfaces tp @ ls @ lg\<rparr>)))"

section \<open>Link operations\<close>

datatype link_op = OpDelete "string set" | OpUpdate "string set" | OpAdd "string set"

definition collect_link_operation_lists :: "(string set, link) dict \<Rightarrow> string set list option \<Rightarrow>
    string set list option \<Rightarrow> string set list option \<Rightarrow> string set list \<times> string set list \<times> string set list" where
  "collect_link_operation_lists links adds upds rems =
    (let scan = (\<lambda>f. map fst (filter (\<lambda>(k, l). f l) links))
     in (case adds of Some a \<Rightarrow> a | None \<Rightarrow> scan lk_to_add,
         case upds of Some u \<Rightarrow> u | None \<Rightarrow> scan lk_to_update,
         case rems of Some r \<Rightarrow> r | None \<Rightarrow> scan lk_to_remove))"

record bulk_stats =
  bs_added :: nat
  bs_updated :: nat
  bs_deleted :: nat
  bs_links_to_add :: "string set list"

text \<open>The operations submitted to the launcher or the hardware-in-the-loop manager.\<close>

definition bulk_link_operations :: "bool \<Rightarrow> bool \<Rightarrow> bool \<Rightarrow> string set list option \<Rightarrow> string set list option \<Rightarrow>
    string set list option \<Rightarrow> topology \<Rightarrow> bulk_stats \<times> link_op list" where
  "bulk_link_operations to_add to_update to_del adds upds rems tp =
    (let (la, lu, lr) = collect_link_operation_lists (tp_links tp) adds upds rems;
         pa = (if to_add then la else []); pu = (if to_update then lu else []); pr = (if to_del then lr else []);
         stats = \<lparr>bs_added = length pa, bs_updated = length pu, bs_deleted = length pr, bs_links_to_add = pa\<rparr>
     in if \<not> nt_status tp \<or> (pa = [] \<and> pu = [] \<and> pr = []) then (stats, [])
        else (stats, map OpDelete pr @ map OpUpdate pu @ map OpAdd pa))"

definition process_links_sequentially :: "string set list \<Rightarrow> string set list \<Rightarrow> string set list \<Rightarrow> link_op list" where
  "process_links_sequentially rems upds adds = map OpDelete rems @ map OpUpdate upds @ map OpAdd adds"

definition node_of :: "nref \<Rightarrow> topology \<Rightarrow> node option" where
  "node_of r tp = (if nr_type r = ''GroundStation'' then dict_get (nt_gss tp) (nr_id r) else dict_get (nt_sats tp) (nr_id r))"

definition remove_link_interfaces :: "string set \<Rightarrow> topology \<Rightarrow> topology" where
  "remove_link_interfaces key tp = (case dict_get (tp_links tp) key of
     None \<Rightarrow> tp
   | Some l \<Rightarrow>
       let tp1 = update_node (lk_source l) (remove_interface_connected_to_node (nr_name (lk_target l))) tp;
           tp2 = update_node (lk_target l) (remove_interface_connected_to_node (nr_name (lk_source l))) tp1
       in tp2\<lparr>nt_iface_version := Some (case nt_iface_version tp2 of Some v \<Rightarrow> v + 1 | None \<Rightarrow> 1)\<rparr>)"

definition cleanup_removed_link :: "string set \<Rightarrow> topology \<Rightarrow> topology" where
  "cleanup_removed_link key tp = (case dict_get (tp_links tp) key of
     None \<Rightarrow> tp
   | Some l \<Rightarrow>
       let tp1 = tp\<lparr>tp_interfaces := filter (\<lambda>i. \<not> list_ex (iface_eq i) (lk_ifaces l)) (tp_interfaces tp)\<rparr>
       in case link_key l of Inl _ \<Rightarrow> tp1 | Inr k \<Rightarrow> tp1\<lparr>tp_links := dict_pop k (tp_links tp1)\<rparr>)"

definition update_link_flags :: "string set \<Rightarrow> topology \<Rightarrow> topology" where
  "update_link_flags key tp = (case dict_get (tp_links tp) key of
     None \<Rightarrow> tp | Some l \<Rightarrow> set_link key (l\<lparr>lk_to_update := False\<rparr>) tp)"

definition add_link_interfaces :: "string set \<Rightarrow> topology \<Rightarrow> topology" where
  "add_link_interfaces key tp = (case build_interfaces_from_link True key tp of
     (Some _, tp1) \<Rightarrow> tp1
   | (None, tp1) \<Rightarrow> (case dict_get (tp_links tp1) key of
       None \<Rightarrow> tp1 | Some l \<Rightarrow> set_link key (l\<lparr>lk_to_add := False\<rparr>) tp1))"

definition local_link_operations_parallel :: "string set list \<Rightarrow> string set list \<Rightarrow> string set list \<Rightarrow> topology \<Rightarrow> topology" where
  "local_link_operations_parallel rems upds adds tp =
    (let tp1 = foldl (\<lambda>t k. remove_link_interfaces k t) tp rems;
         tp2 = foldl (\<lambda>t k. update_link_flags k t) tp1 upds;
         tp3 = foldl (\<lambda>t k. add_link_interfaces k t) tp2 adds
     in foldl (\<lambda>t k. cleanup_removed_link k t) tp3 rems)"

definition perform_local_link_operations :: "bool \<Rightarrow> bool \<Rightarrow> bool \<Rightarrow> string set list option \<Rightarrow> string set list option \<Rightarrow>
    string set list option \<Rightarrow> topology \<Rightarrow> topology" where
  "perform_local_link_operations to_add to_update to_del adds upds rems tp =
    (let (la, lu, lr) = collect_link_operation_lists (tp_links tp) adds upds rems;
         lr' = (if to_del then lr else []); lu' = (if to_update then lu else []); la' = (if to_add then la else [])
     in if lr' = [] \<and> lu' = [] \<and> la' = [] then tp else local_link_operations_parallel lr' lu' la' tp)"

section \<open>Starting the topology\<close>

text \<open>
  A simulated satellite or ground station: its topology identifier, and the error
  that reading its position raises, if any.
\<close>

record sim_entity =
  se_uid :: "int option"
  se_position_error :: "pyerr option"

definition process_entity :: "string \<Rightarrow> string \<Rightarrow> nat \<Rightarrow> sim_entity \<Rightarrow> node result" where
  "process_entity pfx ty oid e =
    rbind (new_node oid (pfx @ (case se_uid e of Some u \<Rightarrow> dec_int u | None \<Rightarrow> ''Unknown'')) ty) (\<lambda>n.
      case se_position_error e of Some err \<Rightarrow> Inl err | None \<Rightarrow> Inr n)"

definition sync_entity :: "string \<Rightarrow> string \<Rightarrow> nat \<times> nat \<times> (int, node) dict \<Rightarrow> sim_entity \<Rightarrow> nat \<times> nat \<times> (int, node) dict" where
  "sync_entity pfx ty st e = (case st of (oid, errors, d) \<Rightarrow>
     (case process_entity pfx ty oid e of
        Inl _ \<Rightarrow> (Suc oid, Suc errors, d)
      | Inr n \<Rightarrow> (Suc oid, errors, dict_set (nd_id n) n d)))"

definition sync_satellites :: "sim_entity list \<Rightarrow> topology \<Rightarrow> topology" where
  "sync_satellites data tp =
    (case foldl (sync_entity ''Sat'' ''Satellite'') (tp_next_oid tp, 0, nt_sats tp) data of
       (oid, errors, d) \<Rightarrow> tp\<lparr>nt_sats := d, tp_next_oid := oid\<rparr>)"

definition sync_ground_stations :: "sim_entity list \<Rightarrow> topology \<Rightarrow> topology" where
  "sync_ground_stations data tp =
    (case foldl (sync_entity ''Gnd'' ''GroundStation'') (tp_next_oid tp, 0, nt_gss tp) data of
       (oid, errors, d) \<Rightarrow> tp\<lparr>nt_gss := d, tp_next_oid := oid\<rparr>)"

definition topology_init :: "budget \<Rightarrow> (nref \<Rightarrow> nref \<Rightarrow> real option) \<Rightarrow> sim_entity list \<Rightarrow> sim_entity list \<Rightarrow>
    satcom_link list \<Rightarrow> topology \<Rightarrow> topology result" where
  "topology_init budget km_of sats gss data tp =
    (let tp1 = sync_ground_stations gss (sync_satellites sats tp);
         (_, tp2) = sync_links budget km_of False data tp1;
         tp3 = assign_interfaces_to_nodes tp2
     in rbind (set_ips_to_nodes (map if_oid (tp_interfaces tp3)) tp3) add_loopback_interfaces_to_list)"

text \<open>
  The distance of a test link: positions default to the origin, so \<open>km_of\<close> fails
  only on a malformed one.
\<close>

definition test_distance :: "(nref \<Rightarrow> nref \<Rightarrow> real option) \<Rightarrow> node \<Rightarrow> node \<Rightarrow> real" where
  "test_distance km_of n1 n2 = (case km_of (node_ref n1) (node_ref n2) of
     None \<Rightarrow> 100000 | Some km \<Rightarrow> if km * 1000 \<le> 0 then 100000 else km * 1000)"

definition create_test_link :: "budget \<Rightarrow> (nref \<Rightarrow> nref \<Rightarrow> real option) \<Rightarrow> node \<Rightarrow> node \<Rightarrow> topology \<Rightarrow> link option \<times> topology" where
  "create_test_link budget km_of n1 n2 tp =
    (if node_eq n1 n2 then (None, tp)
     else let ty = (if contains ''Ground'' (nd_type n1) \<or> contains ''Ground'' (nd_type n2)
                    then ''GroundStationLink'' else ''SatelliteLink'');
              l = new_link budget (node_ref n1) (node_ref n2) (test_distance km_of n1 n2) ty [] True 10000 (tp_use_budget tp);
              l1 = l\<lparr>lk_delay := (if lk_delay l \<noteq> 0 then lk_delay l else 1), lk_to_add := True\<rparr>;
              key = {nd_name n1, nd_name n2}
          in if key \<in> set (dict_keys (tp_links tp)) then (None, tp) else (Some l1, set_link key l1 tp))"

definition set_ipv4s_for_all_nodes :: "bool \<Rightarrow> bool \<Rightarrow> bool \<Rightarrow> topology \<Rightarrow> (string \<times> string list) list" where
  "set_ipv4s_for_all_nodes set_lo satellites ground_stations tp =
    map (\<lambda>n. (nd_name n, container_addr_lines None set_lo n))
      ((if satellites then dict_vals (nt_sats tp) else []) @ (if ground_stations then dict_vals (nt_gss tp) else []))"

section \<open>One simulation step\<close>

definition sync_interfaces_and_links :: "topology \<Rightarrow> topology" where
  "sync_interfaces_and_links tp =
    (let tp1 = tp\<lparr>tp_links := map (\<lambda>(k, l). (k, update_interfaces_state l)) (tp_links tp)\<rparr>
     in foldl (\<lambda>t i. store_iface i t) tp1 (concat (map (\<lambda>(k, l). lk_ifaces l) (tp_links tp1))))"

record step_result =
  sr_ops :: "link_op list"
  sr_routing_update :: "string set list option"

definition update_simulation :: "budget \<Rightarrow> (nref \<Rightarrow> nref \<Rightarrow> real option) \<Rightarrow> bool \<Rightarrow> satcom_link list \<Rightarrow>
    topology \<Rightarrow> step_result \<times> topology" where
  "update_simulation budget km_of advance data tp =
    (let tp0 = (if advance then tp\<lparr>tp_time_step := tp_time_step tp + 1\<rparr> else tp);
         (ch, tp1) = sync_links budget km_of False data tp0;
         (dstats, dops) = bulk_link_operations False False True (Some []) (Some []) (Some (lc_remove ch)) tp1;
         tp2 = perform_local_link_operations False False True (Some []) (Some []) (Some (lc_remove ch)) tp1;
         (stats, ops) = bulk_link_operations True True False (Some (lc_add ch)) (Some (lc_update ch)) (Some []) tp2;
         tp3 = perform_local_link_operations True True False (Some (lc_add ch)) (Some (lc_update ch)) (Some []) tp2
     in (\<lparr>sr_ops = dops @ ops,
          sr_routing_update = (if bs_added stats > 0 \<or> bs_updated stats > 0 \<or> lc_remove ch \<noteq> []
             then Some (bs_links_to_add stats) else None)\<rparr>,
         sync_interfaces_and_links tp3))"

end
