(* ===== verification/Launchers.thy ===== *)
theory Launchers
  imports Topology
begin

text \<open>
  The network launcher, \<open>launchers/gonetem_launcher.py\<close>: token-bucket parameters, the
  project file and the link requests it sends, its connection state from
  \<open>start_containers\<close> to \<open>close_project\<close>, and the clean-up of a project's containers.

  The GoNetem server and Docker are the parameter \<open>server\<close>; the calls made are
  recorded in \<open>ln_log\<close>. Printing of a float is the parameter \<open>show\<close>, the image of a
  node the parameter \<open>image_of\<close>. Elapsed times, the temporary project file, the progress of
  a start that fails and logging are left out.
\<close>

section \<open>Token bucket parameters\<close>

definition tbf_qos :: "int \<Rightarrow> int \<Rightarrow> int \<times> real" where
  "tbf_qos rate_kbps delay_ms =
    (let delay = max delay_ms 1
     in if rate_kbps \<le> 0 then (0, 0)
        else let rate_bytes_per_sec = rate_kbps * 125;
                 burst = rate_bytes_per_sec div 250 + 1514;
                 bdp_bytes = of_int (rate_kbps * delay) / 8
             in (burst, (of_int burst + bdp_bytes) / bdp_bytes))"

section \<open>The project file\<close>

definition nl :: string where
  "nl = [CHR 0x0A]"

definition write_satellites :: "(node \<Rightarrow> string) \<Rightarrow> string \<Rightarrow> node list \<Rightarrow> string" where
  "write_satellites image_of sat_type sats = concat (map (\<lambda>s.
     '' Sat'' @ dec_int (nd_id s) @ '':'' @ nl @ ''  type: '' @ sat_type @ nl @ ''  image: '' @
     (if image_of s = [] then ''jariassuarez/sgnt:satellite'' else image_of s) @ nl @
     ''  volumes:'' @ nl @ ''  - /tmp:/tmp'' @ nl) sats)"

definition write_ground_stations :: "(node \<Rightarrow> string) \<Rightarrow> string \<Rightarrow> bool \<Rightarrow> node list \<Rightarrow> string" where
  "write_ground_stations image_of gs_type fallback gss = concat (map (\<lambda>g.
     '' '' @ (if nd_type g = ''GroundStation'' then ''Gnd'' else ''Usr'') @ dec_int (nd_id g) @ '':'' @ nl @
     ''  type: '' @ gs_type @ nl @ ''  image: '' @
     (if image_of g = [] \<and> \<not> fallback then ''jariassuarez/sgnt:ground-station'' else image_of g) @ nl @
     ''  volumes:'' @ nl @ ''  - /tmp:/tmp'' @ nl) gss)"

definition qos_text :: "(real \<Rightarrow> string) \<Rightarrow> int \<Rightarrow> int \<Rightarrow> string" where
  "qos_text show rate delay = (let (burst, buffer) = tbf_qos rate delay in
     ''{ rate: '' @ dec_int rate @ '', buffer: '' @ show buffer @ '', jitter: 0, delay: '' @ dec_int delay @
     '', burst: '' @ dec_int burst @ ''}'')"

definition link_line :: "(real \<Rightarrow> string) \<Rightarrow> link \<Rightarrow> string" where
  "link_line show l = (let delay = max (lk_delay l) 1; rate = get_capacity l in
     '' - {peer1: '' @ fst (get_names l) @ '', peer2: '' @ snd (get_names l) @
     '', peer1qos: '' @ qos_text show rate delay @ '', peer2qos: '' @ qos_text show rate delay @ ''}'' @
     '' #Latency of '' @ dec_int delay @ ''ms '' @ nl)"

definition write_links :: "(real \<Rightarrow> string) \<Rightarrow> link list \<Rightarrow> string" where
  "write_links show links = concat (map (link_line show) (filter lk_active links))"

definition controller_switch :: string where
  "controller_switch = '' Controller:'' @ nl @ ''  type: ovs'' @ nl @ ''  volumes:'' @ nl @ ''  - /tmp:/tmp'' @ nl"

definition controller_link :: "(real \<Rightarrow> string) \<Rightarrow> node \<Rightarrow> string" where
  "controller_link show n =
    '' - {peer1: Controller.'' @ dec_int (nd_id n) @ '', peer2: '' @ nd_name n @ ''.'' @ dec_int (50000 + nd_id n) @
    '', peer1qos: '' @ qos_text show 1000000 1 @ '', peer2qos: '' @ qos_text show 1000000 1 @ ''} '' @ nl"

definition write_controller_switch_links :: "(real \<Rightarrow> string) \<Rightarrow> node list \<Rightarrow> node list \<Rightarrow> string" where
  "write_controller_switch_links show sats gss = concat (map (controller_link show) sats) @ concat (map (controller_link show) gss)"

text \<open>The nodes and links of the project: all of them, or those selected by the caller.\<close>

definition select_nodes :: "string list option \<Rightarrow> node list \<Rightarrow> node list" where
  "select_nodes allowed ns = (case allowed of None \<Rightarrow> ns | Some names \<Rightarrow> filter (\<lambda>n. nd_name n \<in> set names) ns)"

definition select_links :: "string list option \<Rightarrow> link list \<Rightarrow> link list" where
  "select_links allowed ls = (case allowed of None \<Rightarrow> ls
     | Some names \<Rightarrow> filter (\<lambda>l. nr_name (lk_source l) \<in> set names \<and> nr_name (lk_target l) \<in> set names) ls)"

definition get_gonetem_topology :: "(real \<Rightarrow> string) \<Rightarrow> (node \<Rightarrow> string) \<Rightarrow> bool \<Rightarrow> bool \<Rightarrow> node list option \<Rightarrow>
    link list option \<Rightarrow> topology \<Rightarrow> string" where
  "get_gonetem_topology show image_of fallback controller nodes links tp =
    (let sat_type = (if fallback then ''docker.host'' else ''docker.satellite'');
         gs_type = (if fallback then ''docker.host'' else ''docker.gndstation'');
         allowed = map_option (map nd_name) nodes;
         sats = select_nodes allowed (dict_vals (nt_sats tp));
         gss = select_nodes allowed (dict_vals (nt_gss tp));
         ls = select_links allowed (case links of None \<Rightarrow> dict_vals (tp_links tp) | Some ls \<Rightarrow> ls)
     in ''nodes: '' @ nl @ write_satellites image_of sat_type sats @ write_ground_stations image_of gs_type fallback gss @
        (if controller then controller_switch else []) @ ''links: '' @ nl @ write_links show ls @
        (if controller then write_controller_switch_links show sats gss else []))"

section \<open>Link requests\<close>

record qos =
  q_delay :: int
  q_rate :: int
  q_loss :: real
  q_jitter :: int
  q_buffer :: real
  q_burst :: int

record link_request =
  lr_project :: string
  lr_peer1 :: string
  lr_peer2 :: string
  lr_qos1 :: qos
  lr_qos2 :: qos

datatype server_call =
    CallVersion | CallOpen string | CallRun string | CallClose string
  | CallLinkUpdate link_request | CallLinkAdd link_request | CallLinkDel link_request
  | DockerPs | DockerStop string | DockerRm string

record launcher =
  ln_project :: string
  ln_isl_cap :: int
  ln_gnd_cap :: int
  ln_gobj_cap :: int
  ln_channel :: bool
  ln_client :: bool
  ln_request :: "string option"
  ln_log :: "server_call list"

definition new_launcher :: "string \<Rightarrow> int \<Rightarrow> int \<Rightarrow> int \<Rightarrow> launcher" where
  "new_launcher project isl_kbps gnd_kbps gobj_kbps = \<lparr>ln_project = project, ln_isl_cap = isl_kbps, ln_gnd_cap = gnd_kbps, ln_gobj_cap = gobj_kbps,
     ln_channel = False, ln_client = False, ln_request = None, ln_log = []\<rparr>"

definition link_capacities_for :: "launcher \<Rightarrow> link \<Rightarrow> int \<times> int" where
  "link_capacities_for la l =
    (let dflt = (if lk_type l = ''GroundStationLink'' then ln_gnd_cap la
                 else if lk_type l = ''GroundObjectLink'' then ln_gobj_cap la else ln_isl_cap la)
     in (if lk_cap1 l \<noteq> 0 then lk_cap1 l else dflt, if lk_cap2 l \<noteq> 0 then lk_cap2 l else dflt))"

definition qos_for :: "int \<Rightarrow> int \<Rightarrow> qos" where
  "qos_for kbps delay = (let (burst, buffer) = tbf_qos kbps delay in
     \<lparr>q_delay = delay, q_rate = kbps, q_loss = 0, q_jitter = 0, q_buffer = buffer, q_burst = burst\<rparr>)"

definition link_request_of :: "launcher \<Rightarrow> string \<Rightarrow> link \<Rightarrow> link_request" where
  "link_request_of la prj l =
    (let delay = max (lk_delay l) 1; (p1, p2) = link_capacities_for la l; (n1, n2) = get_names l
     in \<lparr>lr_project = prj, lr_peer1 = n1, lr_peer2 = n2, lr_qos1 = qos_for p1 delay, lr_qos2 = qos_for p2 delay\<rparr>)"

definition log_call :: "server_call \<Rightarrow> launcher \<Rightarrow> launcher" where
  "log_call c la = la\<lparr>ln_log := ln_log la @ [c]\<rparr>"

text \<open>A failing call is logged and swallowed, so the outcome does not matter to the launcher.\<close>

definition with_project :: "(string \<Rightarrow> server_call) \<Rightarrow> launcher \<Rightarrow> launcher" where
  "with_project f la = (if \<not> ln_client la then la
     else case ln_request la of None \<Rightarrow> la | Some prj \<Rightarrow> log_call (f prj) la)"

definition launcher_update_link :: "link \<Rightarrow> launcher \<Rightarrow> launcher" where
  "launcher_update_link l la = with_project (\<lambda>prj. CallLinkUpdate (link_request_of la prj l)) la"

definition launcher_add_link :: "link \<Rightarrow> launcher \<Rightarrow> launcher" where
  "launcher_add_link l la = with_project (\<lambda>prj. CallLinkAdd (link_request_of la prj l)) la"

definition launcher_delete_link :: "link \<Rightarrow> launcher \<Rightarrow> launcher" where
  "launcher_delete_link l la = with_project (\<lambda>prj. CallLinkDel (link_request_of la prj l)) la"

definition capped_link :: "int \<Rightarrow> int \<Rightarrow> launcher \<Rightarrow> link \<Rightarrow> link" where
  "capped_link isl_kbps gnd_kbps la l =
    (if lk_use_budget l then l
     else let cap = (if lk_type l = ''GroundStationLink'' then gnd_kbps
                     else if lk_type l = ''GroundObjectLink'' then ln_gobj_cap la else isl_kbps)
          in l\<lparr>lk_default_cap := cap, lk_cap1 := cap, lk_cap2 := cap\<rparr>)"

definition set_link_capacities :: "int \<Rightarrow> int \<Rightarrow> link list \<Rightarrow> launcher \<Rightarrow> link list \<times> launcher" where
  "set_link_capacities isl_kbps gnd_kbps links la =
    (let la1 = la\<lparr>ln_isl_cap := isl_kbps, ln_gnd_cap := gnd_kbps\<rparr>; ls = map (capped_link isl_kbps gnd_kbps la1) links
     in (ls, foldl (\<lambda>s l. launcher_update_link l s) la1 ls))"

section \<open>Containers of a project\<close>

definition tab :: char where
  "tab = CHR 0x09"

text \<open>\<open>line.strip().split(tab, 1)\<close> has two parts exactly when the stripped line has a tab.\<close>

definition container_of_line :: "string \<Rightarrow> string \<Rightarrow> string option" where
  "container_of_line pfx line =
    (let t = py_strip line; cid = takeWhile (\<lambda>c. c \<noteq> tab) t; rest = dropWhile (\<lambda>c. c \<noteq> tab) t
     in case rest of [] \<Rightarrow> None
        | _ # name \<Rightarrow> if name = pfx \<or> startswith (pfx @ ''.'') name then Some cid else None)"

definition parse_project_containers :: "string \<Rightarrow> string \<Rightarrow> string list" where
  "parse_project_containers stdout project_id =
    List.map_filter (container_of_line (''ntm'' @ project_id)) (py_splitlines stdout)"

section \<open>Lifecycle\<close>

datatype topo_msg = MsgNodeCount int | MsgLinkCount int | MsgNodeStart | MsgLinkSetup | MsgNodeLoadConfig | MsgOther

datatype close_msg = CloseNodeCount int | CloseNodeClose | CloseOther

text \<open>
  The environment: the server's answers (a stream of messages may end in an
  exception), the output of \<open>docker ps\<close> (\<open>None\<close> when it fails), and for a container
  name the pid that Docker reports (\<open>None\<close> when the container is not found).
\<close>

record server =
  sv_version :: "string result"
  sv_open :: "string \<Rightarrow> string \<Rightarrow> string result"
  sv_run :: "string \<Rightarrow> topo_msg list \<times> pyerr option"
  sv_close :: "string \<Rightarrow> close_msg list \<times> pyerr option"
  sv_ps :: "string option"
  sv_docker :: bool
  sv_container :: "string \<Rightarrow> int option option"

type_synonym progress = "(string \<times> int \<times> int) list"

record run_counts =
  rc_nodes :: int
  rc_links :: int
  rc_start :: int
  rc_setup :: int
  rc_config :: int

fun run_message :: "run_counts \<Rightarrow> topo_msg \<Rightarrow> run_counts \<times> progress" where
  "run_message c (MsgNodeCount n) = (c\<lparr>rc_nodes := n\<rparr>, [(''NODE_COUNT'', 0, n)])"
| "run_message c (MsgLinkCount n) = (c\<lparr>rc_links := n\<rparr>, [(''LINK_COUNT'', 0, n)])"
| "run_message c MsgNodeStart = (c\<lparr>rc_start := rc_start c + 1\<rparr>, [(''NODE_START'', rc_start c + 1, rc_nodes c)])"
| "run_message c MsgLinkSetup = (c\<lparr>rc_setup := rc_setup c + 1\<rparr>, [(''LINK_SETUP'', rc_setup c + 1, rc_links c)])"
| "run_message c MsgNodeLoadConfig = (c\<lparr>rc_config := rc_config c + 1\<rparr>, [(''NODE_LOADCONFIG'', rc_config c + 1, rc_nodes c)])"
| "run_message c MsgOther = (c, [])"

fun run_messages :: "run_counts \<Rightarrow> topo_msg list \<Rightarrow> progress" where
  "run_messages c [] = []"
| "run_messages c (m # ms) = (let (c', p) = run_message c m in p @ run_messages c' ms)"

definition close_transport :: "launcher \<Rightarrow> launcher" where
  "close_transport la = la\<lparr>ln_channel := False, ln_client := False\<rparr>"

definition get_client :: "launcher \<Rightarrow> launcher" where
  "get_client la = (if ln_client la then la else la\<lparr>ln_channel := True, ln_client := True\<rparr>)"

definition list_project_containers :: "server \<Rightarrow> string \<Rightarrow> string list" where
  "list_project_containers sv project_id =
    (case sv_ps sv of None \<Rightarrow> [] | Some out \<Rightarrow> parse_project_containers out project_id)"

definition force_close_project :: "server \<Rightarrow> launcher \<Rightarrow> launcher" where
  "force_close_project sv la =
    (case (ln_client la, ln_request la) of
       (True, Some prj) \<Rightarrow>
         let cids = (if prj = [] then [] else list_project_containers sv prj);
             calls = (if prj = [] then []
                      else DockerPs # map DockerStop cids @ map DockerRm cids @ [CallClose prj])
         in close_transport (la\<lparr>ln_log := ln_log la @ calls\<rparr>)
     | _ \<Rightarrow> la)"

definition cleanup_failed_start :: "server \<Rightarrow> launcher \<Rightarrow> launcher" where
  "cleanup_failed_start sv la =
    (let la1 = (if ln_client la \<and> ln_request la \<noteq> None then force_close_project sv la else la)
     in (close_transport la1)\<lparr>ln_request := None\<rparr>)"

text \<open>The pids of the containers found, by node name, in the order of the nodes.\<close>

definition attach_containers :: "server \<Rightarrow> string \<Rightarrow> node list \<Rightarrow> (string \<times> int) list" where
  "attach_containers sv project_id nodes =
    (if \<not> sv_docker sv then []
     else List.map_filter (\<lambda>nm. case sv_container sv (''ntm'' @ project_id @ ''.'' @ nm) of
         Some (Some pid) \<Rightarrow> if pid \<noteq> 0 then Some (nm, pid) else None | _ \<Rightarrow> None)
       (dict_keys (dict_of (map (\<lambda>n. (nd_name n, n)) nodes))))"

record start_result =
  st_progress :: progress
  st_pids :: "(string \<times> int) list"

definition start_containers :: "server \<Rightarrow> (real \<Rightarrow> string) \<Rightarrow> (node \<Rightarrow> string) \<Rightarrow> bool \<Rightarrow> node list \<Rightarrow> link list option \<Rightarrow>
    topology \<Rightarrow> launcher \<Rightarrow> start_result result \<times> launcher" where
  "start_containers sv show image_of controller nodes links tp la =
    (let la1 = log_call CallVersion (get_client la) in
     case sv_version sv of
       Inl e \<Rightarrow> (Inl (RuntimeError ''cannot reach server''), cleanup_failed_start sv la1)
     | Inr _ \<Rightarrow>
       let data = get_gonetem_topology show image_of False controller (Some nodes) links tp;
           la2 = log_call (CallOpen (ln_project la)) la1
       in (case sv_open sv (ln_project la) data of
            Inl e \<Rightarrow> (Inl e, cleanup_failed_start sv la2)
          | Inr pid \<Rightarrow>
            if pid = [] then (Inl (RuntimeError ''ProjectOpen returned an empty project id''), cleanup_failed_start sv la2)
            else let la3 = log_call (CallRun pid) (la2\<lparr>ln_request := Some pid\<rparr>);
                     (msgs, err) = sv_run sv pid;
                     prog = run_messages \<lparr>rc_nodes = 0, rc_links = 0, rc_start = 0, rc_setup = 0, rc_config = 0\<rparr> msgs
                 in (case err of
                       Some e \<Rightarrow> (Inl (RuntimeError ''TopologyRun failed''), cleanup_failed_start sv la3)
                     | None \<Rightarrow> (Inr \<lparr>st_progress = prog @ [(''COMPLETED'', 0, 0)],
                                   st_pids = attach_containers sv pid nodes\<rparr>, la3))))"

fun close_messages :: "int \<Rightarrow> int \<Rightarrow> close_msg list \<Rightarrow> int \<times> int \<times> progress" where
  "close_messages expected done_n [] = (expected, done_n, [])"
| "close_messages expected done_n (CloseNodeCount n # ms) =
     (let (t, c, p) = close_messages n done_n ms in (t, c, (''CLOSE_NODE_COUNT'', 0, n) # p))"
| "close_messages expected done_n (CloseNodeClose # ms) =
     (let (t, c, p) = close_messages expected (done_n + 1) ms in (t, c, (''CLOSE_NODE_CLOSE'', done_n + 1, expected) # p))"
| "close_messages expected done_n (CloseOther # ms) = close_messages expected done_n ms"

definition close_project :: "server \<Rightarrow> launcher \<Rightarrow> (progress \<times> pyerr option) \<times> launcher" where
  "close_project sv la =
    (case (ln_client la, ln_request la) of
       (True, Some prj) \<Rightarrow>
         let (msgs, err) = sv_close sv prj; (expected, done_n, p) = close_messages 0 0 msgs;
             la1 = log_call (CallClose prj) la;
             la2 = (if ln_channel la1 then close_transport la1 else la1);
             failed = (if err = None then [] else [(''CLOSE_ERROR'', 0, 0)])
         in ((p @ failed @ [(''CLOSE_COMPLETED'', done_n, expected)], err), la2)
     | _ \<Rightarrow> (([], None), la))"

end
