(* ===== verification/HIL.thy ===== *)
theory HIL
  imports Launchers
begin

text \<open>
  Hardware in the loop, \<open>launchers/hil_manager.py\<close>, and the dispatch of a link
  operation to the launcher or to this manager, \<open>_execute_link_delete\<close>,
  \<open>_execute_link_update\<close> and \<open>_execute_link_add\<close> of \<open>services/mixins/link_ops.py\<close>.

  The host's network configuration is a value of type \<open>'k\<close>, changed by the
  parameter \<open>kdo\<close>: \<open>kdo c k\<close> carries out the kernel command \<open>c\<close> and tells
  whether it succeeded. A failing command raises in the code, which ends the sequence
  it belongs to. The pid of a node's container is the parameter \<open>pid_of\<close>. The flag
  \<open>to_delete\<close> that a deletion resets is never set by the program.
\<close>

section \<open>Kernel commands\<close>

datatype kcmd =
    EnterNamespace int
  | AddVeth int string string \<comment> \<open>pid, interface in its namespace, interface on the host\<close>
  | SatUp int string
  | HostUp string
  | AddBridge string
  | SetMaster string string \<comment> \<open>interface, bridge\<close>
  | DelBridge string
  | DelSatIface int string
  | TcBatch int "string list"

type_synonym 'k kernel = "kcmd \<Rightarrow> 'k \<Rightarrow> bool \<times> 'k"

fun run_kernel :: "'k kernel \<Rightarrow> kcmd list \<Rightarrow> 'k \<Rightarrow> bool \<times> 'k" where
  "run_kernel kdo [] k = (True, k)"
| "run_kernel kdo (c # cs) k = (let (ok, k') = kdo c k in if ok then run_kernel kdo cs k' else (False, k'))"

section \<open>The manager\<close>

record hil =
  hm_map :: "(string, string) dict"
  hm_cap :: int
  hm_bridges :: "(string, string) dict"
  hm_veths :: "(string, string) dict"

definition new_hil :: "(string, string) dict \<Rightarrow> int \<Rightarrow> hil" where
  "new_hil hw_map cap = \<lparr>hm_map = hw_map, hm_cap = cap, hm_bridges = [], hm_veths = []\<rparr>"

definition is_hil_node :: "hil \<Rightarrow> string \<Rightarrow> bool" where
  "is_hil_node h nm = (dict_get (hm_map h) nm \<noteq> None)"

definition is_hil_link :: "hil \<Rightarrow> link \<Rightarrow> bool" where
  "is_hil_link h l = (lk_type l = ''GroundStationLink'' \<and>
     (is_hil_node h (nr_name (lk_source l)) \<or> is_hil_node h (nr_name (lk_target l))))"

definition get_hil_gnd :: "hil \<Rightarrow> link \<Rightarrow> nref" where
  "get_hil_gnd h l = (if is_hil_node h (nr_name (lk_target l)) then lk_target l else lk_source l)"

definition get_sat :: "hil \<Rightarrow> link \<Rightarrow> nref" where
  "get_sat h l = (if is_hil_node h (nr_name (lk_target l)) then lk_source l else lk_target l)"

definition link_capacity_kbps :: "hil \<Rightarrow> link \<Rightarrow> int" where
  "link_capacity_kbps h l = (if lk_cap1 l \<noteq> 0 then lk_cap1 l else hm_cap h)"

definition sat_iface :: "int \<Rightarrow> string" where
  "sat_iface gnd_id = ''eth'' @ dec_int gnd_id"

definition host_iface :: "int \<Rightarrow> string" where
  "host_iface gnd_id = ''hil'' @ dec_int gnd_id"

definition bridge_name :: "int \<Rightarrow> string" where
  "bridge_name gnd_id = ''brhil'' @ dec_int gnd_id"

definition create_veth :: "'k kernel \<Rightarrow> int \<Rightarrow> int \<Rightarrow> 'k \<Rightarrow> bool \<times> 'k" where
  "create_veth kdo sat_pid gnd_id =
    run_kernel kdo [EnterNamespace sat_pid, AddVeth sat_pid (sat_iface gnd_id) (host_iface gnd_id),
      SatUp sat_pid (sat_iface gnd_id), HostUp (host_iface gnd_id)]"

definition create_bridge :: "'k kernel \<Rightarrow> nref \<Rightarrow> hil \<times> 'k \<Rightarrow> bool \<times> hil \<times> 'k" where
  "create_bridge kdo g st = (case st of (h, k) \<Rightarrow>
     (case dict_get (hm_map h) (nr_name g) of
        None \<Rightarrow> (False, h, k)
      | Some hw \<Rightarrow>
        let br = bridge_name (nr_id g); veth = host_iface (nr_id g);
            (ok, k') = run_kernel kdo [AddBridge br, HostUp br, SetMaster veth br, SetMaster hw br, HostUp hw] k
        in if ok then (True, h\<lparr>hm_bridges := dict_set (nr_name g) br (hm_bridges h),
                             hm_veths := dict_set (nr_name g) veth (hm_veths h)\<rparr>, k')
           else (False, h, k')))"

definition fmt_mbit :: "int \<Rightarrow> string" where
  "fmt_mbit kbps = (let r = nat (max kbps 1) in dec (r div 1000) @ ''.'' @ zfill 3 (dec (r mod 1000)))"

definition tc_commands :: "string \<Rightarrow> int \<Rightarrow> int \<Rightarrow> int \<Rightarrow> string list" where
  "tc_commands verb gnd_id delay_ms rate_kbps =
    (let delay = max delay_ms 1; burst = max (rate_kbps * delay div 8) 1500
     in [''qdisc '' @ verb @ '' dev '' @ sat_iface gnd_id @ '' root handle 1: netem delay '' @ dec_int delay @ ''ms'',
         ''qdisc '' @ verb @ '' dev '' @ sat_iface gnd_id @ '' parent 1:1 handle 10: tbf rate '' @ fmt_mbit rate_kbps @
         ''mbit burst '' @ dec_int burst @ ''b limit '' @ dec_int burst @ ''b''])"

definition apply_qos :: "'k kernel \<Rightarrow> int \<Rightarrow> int \<Rightarrow> int \<Rightarrow> int \<Rightarrow> 'k \<Rightarrow> 'k" where
  "apply_qos kdo sat_pid gnd_id delay_ms rate_kbps k = snd (kdo (TcBatch sat_pid (tc_commands ''add'' gnd_id delay_ms rate_kbps)) k)"

definition teardown_bridge :: "'k kernel \<Rightarrow> string \<Rightarrow> hil \<times> 'k \<Rightarrow> hil \<times> 'k" where
  "teardown_bridge kdo nm st = (case st of (h, k) \<Rightarrow>
     let br = dict_get (hm_bridges h) nm;
         h' = h\<lparr>hm_bridges := dict_pop nm (hm_bridges h), hm_veths := dict_pop nm (hm_veths h)\<rparr>
     in (case br of None \<Rightarrow> (h', k) | Some b \<Rightarrow> if b = [] then (h', k) else (h', snd (kdo (DelBridge b) k))))"

definition delete_sat_veth :: "'k kernel \<Rightarrow> int \<Rightarrow> int \<Rightarrow> 'k \<Rightarrow> 'k" where
  "delete_sat_veth kdo sat_pid gnd_id k = snd (kdo (DelSatIface sat_pid (sat_iface gnd_id)) k)"

definition live_pid :: "(string \<Rightarrow> int option) \<Rightarrow> nref \<Rightarrow> int option" where
  "live_pid pid_of r = (case pid_of (nr_name r) of Some p \<Rightarrow> if p = 0 then None else Some p | None \<Rightarrow> None)"

definition setup_link :: "'k kernel \<Rightarrow> (string \<Rightarrow> int option) \<Rightarrow> link \<Rightarrow> hil \<times> 'k \<Rightarrow> hil \<times> 'k" where
  "setup_link kdo pid_of l st = (case st of (h, k) \<Rightarrow>
     let g = get_hil_gnd h l in
     (case live_pid pid_of (get_sat h l) of
        None \<Rightarrow> (h, k)
      | Some p \<Rightarrow>
        let (ok, k1) = create_veth kdo p (nr_id g) k in
        if \<not> ok then (h, k1)
        else let (ok2, h2, k2) = create_bridge kdo g (h, k1) in
             if \<not> ok2 then (h2, k2)
             else (h2, apply_qos kdo p (nr_id g) (max (lk_delay l) 1) (link_capacity_kbps h2 l) k2)))"

definition teardown_link :: "'k kernel \<Rightarrow> (string \<Rightarrow> int option) \<Rightarrow> link \<Rightarrow> hil \<times> 'k \<Rightarrow> hil \<times> 'k" where
  "teardown_link kdo pid_of l st = (case st of (h, k) \<Rightarrow>
     let g = get_hil_gnd h l; (h1, k1) = teardown_bridge kdo (nr_name g) (h, k) in
     (case live_pid pid_of (get_sat h l) of
        None \<Rightarrow> (h1, k1)
      | Some p \<Rightarrow> (h1, delete_sat_veth kdo p (nr_id g) k1)))"

definition hil_update_link :: "'k kernel \<Rightarrow> (string \<Rightarrow> int option) \<Rightarrow> link \<Rightarrow> hil \<times> 'k \<Rightarrow> hil \<times> 'k" where
  "hil_update_link kdo pid_of l st = (case st of (h, k) \<Rightarrow>
     (case live_pid pid_of (get_sat h l) of
        None \<Rightarrow> (h, k)
      | Some p \<Rightarrow> (h, snd (kdo (TcBatch p (tc_commands ''change'' (nr_id (get_hil_gnd h l)) (max (lk_delay l) 1)
                             (link_capacity_kbps h l))) k))))"

definition wire_links :: "'k kernel \<Rightarrow> (string \<Rightarrow> int option) \<Rightarrow> link list \<Rightarrow> hil \<times> 'k \<Rightarrow> hil \<times> 'k" where
  "wire_links kdo pid_of ls st = foldl (\<lambda>s l. setup_link kdo pid_of l s) st ls"

definition teardown_all :: "'k kernel \<Rightarrow> hil \<times> 'k \<Rightarrow> hil \<times> 'k" where
  "teardown_all kdo st = foldl (\<lambda>s nm. teardown_bridge kdo nm s) st (dict_keys (hm_bridges (fst st)))"

section \<open>Carrying out link operations\<close>

record 'k emulator =
  em_launcher :: "launcher option"
  em_hil :: "hil option"
  em_kernel :: 'k

definition on_launcher :: "(launcher \<Rightarrow> launcher) \<Rightarrow> 'k emulator \<Rightarrow> 'k emulator" where
  "on_launcher f em = em\<lparr>em_launcher := map_option f (em_launcher em)\<rparr>"

definition on_hil :: "(hil \<times> 'k \<Rightarrow> hil \<times> 'k) \<Rightarrow> hil \<Rightarrow> 'k emulator \<Rightarrow> 'k emulator" where
  "on_hil f h em = (let (h', k') = f (h, em_kernel em) in em\<lparr>em_hil := Some h', em_kernel := k'\<rparr>)"

definition hil_for :: "link \<Rightarrow> 'k emulator \<Rightarrow> hil option" where
  "hil_for l em = (case em_hil em of Some h \<Rightarrow> if is_hil_link h l then Some h else None | None \<Rightarrow> None)"

definition execute_link_delete :: "'k kernel \<Rightarrow> (string \<Rightarrow> int option) \<Rightarrow> link \<Rightarrow> 'k emulator \<Rightarrow> 'k emulator" where
  "execute_link_delete kdo pid_of l em = (case hil_for l em of
     Some h \<Rightarrow> on_hil (teardown_link kdo pid_of l) h em | None \<Rightarrow> on_launcher (launcher_delete_link l) em)"

definition execute_link_update :: "'k kernel \<Rightarrow> (string \<Rightarrow> int option) \<Rightarrow> link \<Rightarrow> 'k emulator \<Rightarrow> 'k emulator" where
  "execute_link_update kdo pid_of l em = (case hil_for l em of
     Some h \<Rightarrow> on_hil (hil_update_link kdo pid_of l) h em | None \<Rightarrow> on_launcher (launcher_update_link l) em)"

definition execute_link_add :: "'k kernel \<Rightarrow> (string \<Rightarrow> int option) \<Rightarrow> link \<Rightarrow> 'k emulator \<Rightarrow> 'k emulator" where
  "execute_link_add kdo pid_of l em = (case hil_for l em of
     Some h \<Rightarrow> on_hil (setup_link kdo pid_of l) h em | None \<Rightarrow> on_launcher (launcher_add_link l) em)"

text \<open>\<open>links\<close> gives the link object of a key at the time the operation runs.\<close>

fun execute_op :: "'k kernel \<Rightarrow> (string \<Rightarrow> int option) \<Rightarrow> (string set \<Rightarrow> link option) \<Rightarrow> link_op \<Rightarrow> 'k emulator \<Rightarrow> 'k emulator" where
  "execute_op kdo pid_of links (OpDelete k) em = (case links k of None \<Rightarrow> em | Some l \<Rightarrow> execute_link_delete kdo pid_of l em)"
| "execute_op kdo pid_of links (OpUpdate k) em = (case links k of None \<Rightarrow> em | Some l \<Rightarrow> execute_link_update kdo pid_of l em)"
| "execute_op kdo pid_of links (OpAdd k) em = (case links k of None \<Rightarrow> em | Some l \<Rightarrow> execute_link_add kdo pid_of l em)"

definition execute_ops :: "'k kernel \<Rightarrow> (string \<Rightarrow> int option) \<Rightarrow> (string set \<Rightarrow> link option) \<Rightarrow> link_op list \<Rightarrow> 'k emulator \<Rightarrow> 'k emulator" where
  "execute_ops kdo pid_of links ops em = foldl (\<lambda>e oper. execute_op kdo pid_of links oper e) em ops"

end
