(* ===== verification/Topology_Facts.thy ===== *)
theory Topology_Facts
  imports Topology
begin

text \<open>
  Correctness of the topology manager: what one pass over the simulation's links
  and one simulation step do to the link dictionary, that the step's operations
  are ordered deletions first, that capacities and delays are current, and how the
  interfaces of a link are addressed.
\<close>

section \<open>Invariant\<close>

definition nodes_ok :: "topology \<Rightarrow> bool" where
  "nodes_ok tp \<longleftrightarrow>
     (\<forall>k n. dict_get (nt_sats tp) k = Some n \<longrightarrow> nd_id n = k \<and> nd_type n = ''Satellite'' \<and> dict_get (nt_gss tp) k = None) \<and>
     (\<forall>k n. dict_get (nt_gss tp) k = Some n \<longrightarrow> nd_id n = k \<and> nd_type n = ''GroundStation'')"

definition links_all :: "(string set \<Rightarrow> link \<Rightarrow> bool) \<Rightarrow> topology \<Rightarrow> bool" where
  "links_all P tp \<longleftrightarrow> (\<forall>k l. dict_get (tp_links tp) k = Some l \<longrightarrow> P k l)"

definition topo_ok :: "topology \<Rightarrow> bool" where
  "topo_ok tp \<longleftrightarrow> nodes_ok tp \<and> dict_ok (tp_links tp) \<and> links_all (\<lambda>k l. link_key l = Inr k) tp"

fun end_ok :: "topology \<Rightarrow> endpoint \<Rightarrow> bool" where
  "end_ok tp (SatEnd u) = (dict_get (nt_gss tp) u = None)"
| "end_ok tp (GndEnd u) = (dict_get (nt_sats tp) u = None)"
| "end_ok tp OtherEnd = True"

definition sl_ok :: "topology \<Rightarrow> satcom_link \<Rightarrow> bool" where
  "sl_ok tp sl = (case (sl_source sl, sl_dest sl) of
     (Some s, Some t) \<Rightarrow> end_ok tp s \<and> end_ok tp t | _ \<Rightarrow> True)"

lemma links_all_set [simp]: "links_all P (set_link k l tp) \<longleftrightarrow>
  P k l \<and> (\<forall>k' l'. k' \<noteq> k \<and> dict_get (tp_links tp) k' = Some l' \<longrightarrow> P k' l')"
  by (auto simp: links_all_def set_link_def)

lemma set_link_simps [simp]: "nt_sats (set_link k l tp) = nt_sats tp" "nt_gss (set_link k l tp) = nt_gss tp"
  "tp_links (set_link k l tp) = dict_set k l (tp_links tp)" "tp_initial_sync (set_link k l tp) = tp_initial_sync tp"
  "nt_status (set_link k l tp) = nt_status tp" "nodes_ok (set_link k l tp) = nodes_ok tp"
  by (simp_all add: set_link_def nodes_ok_def)

lemma topo_ok_set_link:
  assumes "topo_ok tp" "link_key l = Inr k"
  shows "topo_ok (set_link k l tp)"
  using assms by (simp add: topo_ok_def) (simp add: links_all_def)

lemma link_key_ends:
  "lk_source l' = lk_source l \<Longrightarrow> lk_target l' = lk_target l \<Longrightarrow> link_key l' = link_key l"
  by (simp add: link_key_def)

section \<open>Capacity and distance\<close>

definition caps_current :: "budget \<Rightarrow> link \<Rightarrow> bool" where
  "caps_current budget l = (update_link_capacities budget l = l)"

definition caps_of :: "budget \<Rightarrow> link \<Rightarrow> int \<times> int" where
  "caps_of budget l =
    (if lk_use_budget l \<and> lk_type l = ''GroundStationLink'' then
       (case budget (fst (identify_sat_and_gs l)) (snd (identify_sat_and_gs l)) (lk_distance l) of
          None \<Rightarrow> (lk_default_cap l, lk_default_cap l)
        | Some (dl, ul) \<Rightarrow> (if dl > 0 then dl else lk_default_cap l, if ul > 0 then ul else lk_default_cap l))
     else (lk_default_cap l, lk_default_cap l))"

lemma update_link_capacities_eq:
  "update_link_capacities budget l = l\<lparr>lk_cap1 := fst (caps_of budget l), lk_cap2 := snd (caps_of budget l)\<rparr>"
  by (auto simp: update_link_capacities_def compute_budget_capacity_def caps_of_def split: option.splits prod.splits)

lemma caps_current_eq: "caps_current budget l \<longleftrightarrow> fst (caps_of budget l) = lk_cap1 l \<and> snd (caps_of budget l) = lk_cap2 l"
proof -
  have "update_link_capacities budget l = l \<longleftrightarrow> fst (caps_of budget l) = lk_cap1 l \<and> snd (caps_of budget l) = lk_cap2 l"
    unfolding update_link_capacities_eq by (cases l) auto
  then show ?thesis unfolding caps_current_def .
qed

lemma capacity_idem [simp]: "caps_current budget (update_link_capacities budget l)"
  by (simp add: update_link_capacities_eq caps_current_eq caps_of_def identify_sat_and_gs_def split: option.splits)

lemma capacity_frame [simp]:
  "lk_source (update_link_capacities budget l) = lk_source l" "lk_target (update_link_capacities budget l) = lk_target l"
  "lk_active (update_link_capacities budget l) = lk_active l" "lk_to_add (update_link_capacities budget l) = lk_to_add l"
  "lk_to_remove (update_link_capacities budget l) = lk_to_remove l" "lk_distance (update_link_capacities budget l) = lk_distance l"
  "lk_delay (update_link_capacities budget l) = lk_delay l" "lk_ifaces (update_link_capacities budget l) = lk_ifaces l"
  "lk_to_update (update_link_capacities budget l) = lk_to_update l"
  "lk_type (update_link_capacities budget l) = lk_type l" "lk_use_budget (update_link_capacities budget l) = lk_use_budget l"
  by (simp_all add: update_link_capacities_eq)

lemma update_distance_frame [simp]:
  "lk_source (update_distance_and_delay budget d l) = lk_source l" "lk_target (update_distance_and_delay budget d l) = lk_target l"
  "lk_active (update_distance_and_delay budget d l) = lk_active l" "lk_to_add (update_distance_and_delay budget d l) = lk_to_add l"
  "lk_to_remove (update_distance_and_delay budget d l) = lk_to_remove l"
  "lk_ifaces (update_distance_and_delay budget d l) = lk_ifaces l"
  by (auto simp: update_distance_and_delay_def refresh_link_capacities_def Let_def)

lemma update_distance_step:
  fixes x :: real
  assumes "caps_current budget l"
  defines "l' \<equiv> update_distance_and_delay budget x l"
  shows "lk_distance l' = x \<and> lk_delay l' = delay_of x \<and> caps_current budget l' \<and>
    (lk_to_update l' \<longleftrightarrow> lk_to_update l \<or>
       (lk_delay l', lk_cap1 l', lk_cap2 l') \<noteq> (lk_delay l, lk_cap1 l, lk_cap2 l))"
proof -
  define m where "m = (if delay_of x \<noteq> lk_delay l
    then l\<lparr>lk_distance := x, lk_delay := delay_of x, lk_to_update := True\<rparr> else l\<lparr>lk_distance := x\<rparr>)"
  have m: "lk_distance m = x" "lk_delay m = delay_of x" "lk_cap1 m = lk_cap1 l" "lk_cap2 m = lk_cap2 l"
    "lk_use_budget m = lk_use_budget l" "lk_type m = lk_type l" "lk_default_cap m = lk_default_cap l"
    "identify_sat_and_gs m = identify_sat_and_gs l" "lk_to_update m \<longleftrightarrow> lk_to_update l \<or> delay_of x \<noteq> lk_delay l"
    by (auto simp: m_def identify_sat_and_gs_def)
  have l': "l' = (if x \<noteq> lk_distance l \<and> lk_use_budget m \<and> lk_type m = ''GroundStationLink''
      then snd (refresh_link_capacities budget m) else m)"
    by (simp add: l'_def update_distance_and_delay_def m_def Let_def)
  show ?thesis
  proof (cases "x \<noteq> lk_distance l \<and> lk_use_budget m \<and> lk_type m = ''GroundStationLink''")
    case True
    have "caps_of budget (m\<lparr>lk_cap1 := a, lk_cap2 := b, lk_to_update := u\<rparr>) = caps_of budget m"
      "caps_of budget (m\<lparr>lk_cap1 := a, lk_cap2 := b\<rparr>) = caps_of budget m" for a b u
      by (auto simp: caps_of_def identify_sat_and_gs_def split: option.splits)
    then show ?thesis
      using True m by (auto simp: l' refresh_link_capacities_def update_link_capacities_eq Let_def caps_current_eq)
  next
    case False
    then have "caps_of budget m = caps_of budget l" using m by (auto simp: caps_of_def split: option.splits)
    then show ?thesis using False m assms(1) unfolding l' if_not_P [OF False] caps_current_eq by auto
  qed
qed

text \<open>
  A new link has the delay of its distance and the capacities of the link
  budget there. Moving an end keeps both current, and requests an update of the
  emulated link whenever the delay or a capacity changed, and only then.
\<close>

theorem link_measures_current:
  "let l0 = new_link budget s t d0 ty dir act cap ub; l1 = update_distance_and_delay budget d l0;
       l2 = update_distance_and_delay budget d' l1
   in lk_delay l0 = delay_of d0 \<and> caps_current budget l0 \<and>
      lk_distance l2 = d' \<and> lk_delay l2 = delay_of d' \<and> caps_current budget l2 \<and>
      lk_to_update l2 = (if (lk_delay l2, lk_cap1 l2, lk_cap2 l2) = (lk_delay l1, lk_cap1 l1, lk_cap2 l1)
        then lk_to_update l1 else True)"
proof -
  let ?l0 = "new_link budget s t d0 ty dir act cap ub"
  have c0: "caps_current budget ?l0" "lk_delay ?l0 = delay_of d0" by (simp_all add: new_link_def)
  have c1: "caps_current budget (update_distance_and_delay budget d ?l0)"
    using update_distance_step [OF c0(1), of d] by simp
  define l1 where "l1 = update_distance_and_delay budget d ?l0"
  define l2 where "l2 = update_distance_and_delay budget d' l1"
  have "lk_distance l2 = d' \<and> lk_delay l2 = delay_of d' \<and> caps_current budget l2 \<and>
    lk_to_update l2 = (if (lk_delay l2, lk_cap1 l2, lk_cap2 l2) = (lk_delay l1, lk_cap1 l1, lk_cap2 l1)
        then lk_to_update l1 else True)"
    using update_distance_step [OF c1, of d'] unfolding l1_def [symmetric] l2_def [symmetric] by auto
  then show ?thesis using c0 unfolding Let_def l1_def [symmetric] l2_def [symmetric] by blast
qed

section \<open>One pass over the simulation's links\<close>

definition others :: "topology \<Rightarrow> topology" where
  "others tp = tp\<lparr>tp_links := [], tp_initial_sync := False\<rparr>"

lemma othersD: "others tp = others tp' \<Longrightarrow> nt_sats tp = nt_sats tp' \<and> nt_gss tp = nt_gss tp' \<and> nt_status tp = nt_status tp'"
proof -
  assume "others tp = others tp'"
  then have "nt_sats (others tp) = nt_sats (others tp')" "nt_gss (others tp) = nt_gss (others tp')"
    "nt_status (others tp) = nt_status (others tp')" by simp_all
  then show ?thesis by (simp add: others_def)
qed

lemma others_set_link [simp]: "others (set_link k l tp) = others tp"
  by (simp add: others_def set_link_def)

lemma nodes_ok_others: "others tp = others tp' \<Longrightarrow> nodes_ok tp = nodes_ok tp'"
  by (frule othersD) (simp add: nodes_ok_def)

lemma sl_ok_others: "others tp = others tp' \<Longrightarrow> sl_ok tp = sl_ok tp'"
proof (rule ext)
  fix sl assume "others tp = others tp'"
  then have "end_ok tp e = end_ok tp' e" for e by (cases e) (auto dest: othersD)
  then show "sl_ok tp sl = sl_ok tp' sl" by (auto simp: sl_ok_def split: option.splits)
qed

lemma find_node_end:
  assumes "nodes_ok tp" "end_ok tp s" "s \<noteq> OtherEnd" "find_node (end_uid s) tp = Some n"
  shows "nref_end (node_ref n) = s"
  using assms by (cases s) (auto simp: nodes_ok_def find_node_def nref_end_def node_ref_def split: option.splits)

lemma build_link_key_InrE:
  assumes "build_link_key s t = Inr k"
  obtains "s \<noteq> OtherEnd" "t \<noteq> OtherEnd"
  using assms by (cases s; cases t) (auto simp: build_link_key_def)

lemma new_link_frame [simp]: "lk_source (new_link b s t d ty dir act cap ub) = s"
  "lk_target (new_link b s t d ty dir act cap ub) = t" "lk_active (new_link b s t d ty dir act cap ub) = act"
  "lk_to_add (new_link b s t d ty dir act cap ub) = False" "lk_to_remove (new_link b s t d ty dir act cap ub) = False"
  by (simp_all add: new_link_def)

lemma create_link_facts:
  assumes "create_link_from_satcom_link b km tp s t sl = Inr l"
  shows "\<not> lk_to_remove l" "\<not> lk_to_add l" "lk_active l = (case sl_disabled sl of Some d \<Rightarrow> \<not> d | None \<Rightarrow> False)"
    "\<lbrakk>nodes_ok tp; end_ok tp s; end_ok tp t; build_link_key s t = Inr k\<rbrakk> \<Longrightarrow> link_key l = Inr k"
proof -
  obtain src where src: "find_node (end_uid s) tp = Some src"
    using assms by (cases "find_node (end_uid s) tp") (auto simp: create_link_from_satcom_link_def)
  obtain tgt where tgt: "find_node (end_uid t) tp = Some tgt"
    using assms src by (cases "find_node (end_uid t) tp") (auto simp: create_link_from_satcom_link_def)
  obtain d where d: "km (node_ref src) (node_ref tgt) = Some d"
    using assms src tgt by (cases "km (node_ref src) (node_ref tgt)") (auto simp: create_link_from_satcom_link_def)
  have "\<exists>d' ty dir cap ub. l = new_link b (node_ref src) (node_ref tgt) d' ty dir
      (\<not> (case sl_disabled sl of Some b \<Rightarrow> b | None \<Rightarrow> True)) cap ub"
    using assms src tgt d unfolding create_link_from_satcom_link_def Let_def by simp blast
  moreover have "(\<not> (case sl_disabled sl of Some b \<Rightarrow> b | None \<Rightarrow> True)) = (case sl_disabled sl of Some d \<Rightarrow> \<not> d | None \<Rightarrow> False)"
    by (simp split: option.split)
  ultimately have l: "find_node (end_uid s) tp = Some src" "find_node (end_uid t) tp = Some tgt"
    "\<exists>d' ty dir act cap ub. l = new_link b (node_ref src) (node_ref tgt) d' ty dir act cap ub \<and>
       act = (case sl_disabled sl of Some d \<Rightarrow> \<not> d | None \<Rightarrow> False)"
    using src tgt by auto
  then show "\<not> lk_to_remove l" "\<not> lk_to_add l" "lk_active l = (case sl_disabled sl of Some d \<Rightarrow> \<not> d | None \<Rightarrow> False)"
    by auto
  assume "nodes_ok tp" "end_ok tp s" "end_ok tp t" and k: "build_link_key s t = Inr k"
  moreover have "s \<noteq> OtherEnd" "t \<noteq> OtherEnd" using k by (auto elim: build_link_key_InrE)
  ultimately have "nref_end (node_ref src) = s" "nref_end (node_ref tgt) = t"
    using l(1,2) find_node_end by blast+
  then show "link_key l = Inr k" using l(3) k by (auto simp: link_key_def)
qed

lemma set_activity_frame [simp]: "lk_source (set_activity a l) = lk_source l" "lk_target (set_activity a l) = lk_target l"
  "lk_active (set_activity a l) = a"
  by (auto simp: set_activity_def)

lemma sync_link_other:
  assumes "satcom_key sl \<noteq> Some k"
  shows "dict_get (tp_links (sy_tp (sync_link b km anyway st sl))) k = dict_get (tp_links (sy_tp st)) k"
  using assms by (auto simp: sync_link_def satcom_key_def Let_def split: option.splits sum.splits)

lemma sync_link_others [simp]: "others (sy_tp (sync_link b km anyway st sl)) = others (sy_tp st)"
  by (auto simp: sync_link_def Let_def split: option.splits sum.splits)

lemma sync_link_keys [simp]:
  "sy_keys (sync_link b km anyway st sl) = sy_keys st @ List.map_filter satcom_key [sl]"
  by (auto simp: sync_link_def Let_def satcom_key_def List.map_filter_def split: option.splits sum.splits)

lemma sync_link_ok:
  assumes ok: "topo_ok (sy_tp st)" "sl_ok (sy_tp st) sl"
  shows "topo_ok (sy_tp (sync_link b km anyway st sl))"
proof (cases "sl_source sl")
  case s: (Some s)
  show ?thesis
  proof (cases "sl_dest sl")
    case t: (Some t)
    have ends: "nodes_ok (sy_tp st)" "end_ok (sy_tp st) s" "end_ok (sy_tp st) t"
      using ok s t by (auto simp: sl_ok_def topo_ok_def)
    show ?thesis
    proof (cases "build_link_key s t")
      case (Inr k)
      show ?thesis
      proof (cases "dict_get (tp_links (sy_tp st)) k")
        case None
        have new: "topo_ok (set_link k (if c then l\<lparr>lk_to_add := True\<rparr> else l) (sy_tp st))"
          if "create_link_from_satcom_link b km (sy_tp st) s t sl = Inr l" for c l
          using create_link_facts(4) [OF that ends Inr] by (intro topo_ok_set_link [OF ok(1)]) (simp add: link_key_def)
        show ?thesis
        proof (cases "create_link_from_satcom_link b km (sy_tp st) s t sl")
          case (Inl e)
          then have "sy_tp (sync_link b km anyway st sl) = sy_tp st" using \<open>build_link_key s t = Inr k\<close> s t None
            by (simp add: sync_link_def)
          then show ?thesis using ok(1) by simp
        next
          case new_l: (Inr l)
          have "sy_tp (sync_link b km anyway st sl) = set_link k
              (if (tp_initial_sync (sy_tp st) \<or> anyway) \<and> lk_active l then l\<lparr>lk_to_add := True\<rparr> else l) (sy_tp st)"
            by (simp add: sync_link_def Let_def s t Inr None new_l)
          then show ?thesis using new [OF new_l] by (simp only:)
        qed
      next
        case (Some l)
        then have "link_key l = Inr k" using ok(1) by (simp add: topo_ok_def links_all_def)
        then have "link_key (set_activity a l) = Inr k" for a using link_key_ends [of "set_activity a l" l] by simp
        then have "topo_ok (set_link k (set_activity (satcom_active sl) l) (sy_tp st))" by (rule topo_ok_set_link [OF ok(1)])
        moreover have "sy_tp (sync_link b km anyway st sl) = set_link k (set_activity (satcom_active sl) l) (sy_tp st)"
          by (simp add: sync_link_def Let_def s t Inr Some)
        ultimately show ?thesis by (simp only:)
      qed
    qed (use s t ok in \<open>simp add: sync_link_def\<close>)
  qed (use s ok in \<open>simp add: sync_link_def\<close>)
qed (use ok in \<open>simp add: sync_link_def\<close>)

definition link_sim :: "link \<Rightarrow> link \<Rightarrow> bool" where
  "link_sim l l' \<longleftrightarrow> lk_source l' = lk_source l \<and> lk_target l' = lk_target l \<and> lk_active l' = lk_active l \<and>
     lk_to_add l' = lk_to_add l \<and> lk_to_remove l' = lk_to_remove l \<and> lk_ifaces l' = lk_ifaces l"

lemma link_sim_refl [simp]: "link_sim l l"
  by (simp add: link_sim_def)

lemma link_sim_trans: "link_sim a b \<Longrightarrow> link_sim b c \<Longrightarrow> link_sim a c"
  by (simp add: link_sim_def)

lemma link_sim_key: "link_sim l l' \<Longrightarrow> link_key l' = link_key l"
  by (simp add: link_sim_def link_key_def)

lemma fold_sync_link:
  shows fold_sync_others: "others (sy_tp (foldl (sync_link b km anyway) st data)) = others (sy_tp st)"
    and fold_sync_keys: "sy_keys (foldl (sync_link b km anyway) st data) = sy_keys st @ List.map_filter satcom_key data"
    and fold_sync_ok: "topo_ok (sy_tp st) \<Longrightarrow> list_all (sl_ok (sy_tp st)) data \<Longrightarrow> topo_ok (sy_tp (foldl (sync_link b km anyway) st data))"
    and fold_sync_other: "k \<notin> set (List.map_filter satcom_key data) \<Longrightarrow>
      dict_get (tp_links (sy_tp (foldl (sync_link b km anyway) st data))) k = dict_get (tp_links (sy_tp st)) k"
proof (induction data arbitrary: st)
  case (Cons sl data)
  { case 1 show ?case using Cons(1) by simp }
  { case 2 show ?case using Cons(2) by (simp add: List.map_filter_def split: option.split) }
  { case 3
    have "sl_ok (sy_tp (sync_link b km anyway st sl)) = sl_ok (sy_tp st)" by (rule sl_ok_others) simp
    then show ?case using 3 Cons(3) [of "sync_link b km anyway st sl"] sync_link_ok by simp }
  { case 4
    then have "satcom_key sl \<noteq> Some k" "k \<notin> set (List.map_filter satcom_key data)"
      by (auto simp: List.map_filter_def split: option.splits)
    then show ?case using Cons(4) [of "sync_link b km anyway st sl"] sync_link_other [of sl k] by simp }
qed (simp_all add: List.map_filter_def)

lemma refresh_distance_sim:
  "rel_option link_sim (dict_get (tp_links (sy_tp st)) k) (dict_get (tp_links (sy_tp (refresh_distance b km st key))) k)"
proof (cases "dict_get (tp_links (sy_tp st)) key")
  case (Some l)
  then show ?thesis
    by (cases "km (lk_source l) (lk_target l)"; cases "k = key")
      (simp_all add: refresh_distance_def link_sim_def option.rel_refl)
qed (simp add: refresh_distance_def option.rel_refl)

lemma refresh_sim:
  "rel_option link_sim (dict_get (tp_links (sy_tp st)) k) (dict_get (tp_links (sy_tp (foldl (refresh_distance b km) st keys))) k)"
proof (induction keys arbitrary: st)
  case (Cons x keys)
  have "rel_option (link_sim OO link_sim) (dict_get (tp_links (sy_tp st)) k)
      (dict_get (tp_links (sy_tp (foldl (refresh_distance b km) (refresh_distance b km st x) keys))) k)"
    using refresh_distance_sim [of st k b km x] Cons [of "refresh_distance b km st x"]
    unfolding option.rel_compp by (rule relcomppI)
  moreover have "link_sim OO link_sim \<le> link_sim" using link_sim_trans by blast
  ultimately show ?case using option.rel_mono by fastforce
qed (simp add: option.rel_refl)

lemma refresh_frame:
  "others (sy_tp (foldl (refresh_distance b km) st keys)) = others (sy_tp st)"
  "sy_keys (foldl (refresh_distance b km) st keys) = sy_keys st"
  "dict_ok (tp_links (sy_tp st)) \<Longrightarrow> dict_ok (tp_links (sy_tp (foldl (refresh_distance b km) st keys)))"
proof (induction keys arbitrary: st)
  case (Cons x keys)
  have frame: "others (sy_tp (refresh_distance b km st x)) = others (sy_tp st)"
    "sy_keys (refresh_distance b km st x) = sy_keys st"
    "dict_ok (tp_links (sy_tp st)) \<Longrightarrow> dict_ok (tp_links (sy_tp (refresh_distance b km st x)))" for st
    by (auto simp: refresh_distance_def split: option.splits)
  { case 1 then show ?case using Cons(1) frame(1) by simp }
  { case 2 then show ?case using Cons(2) frame(2) by simp }
  { case 3 then show ?case using Cons(3) frame(3) by simp }
qed simp_all

lemma filter_keys_iff:
  assumes "dict_ok d"
  shows "k \<in> set (map fst (filter (\<lambda>(k, v). P v) d)) \<longleftrightarrow> (\<exists>v. dict_get d k = Some v \<and> P v)"
  using assms by (force simp: dict_get_in)

lemma collect_changes_iff:
  assumes "dict_ok links"
  shows "k \<in> set (lc_add (collect_changes links)) \<longleftrightarrow> (\<exists>l. dict_get links k = Some l \<and> \<not> lk_to_remove l \<and> lk_to_add l)"
    "k \<in> set (lc_update (collect_changes links)) \<longleftrightarrow>
       (\<exists>l. dict_get links k = Some l \<and> \<not> lk_to_remove l \<and> \<not> lk_to_add l \<and> lk_to_update l)"
    "k \<in> set (lc_remove (collect_changes links)) \<longleftrightarrow> (\<exists>l. dict_get links k = Some l \<and> lk_to_remove l)"
  using filter_keys_iff [OF assms] by (simp_all add: collect_changes_def)

lemma collect_changes_distinct:
  "dict_ok links \<Longrightarrow> distinct (lc_add (collect_changes links)) \<and> distinct (lc_update (collect_changes links)) \<and>
     distinct (lc_remove (collect_changes links))"
  by (auto simp: collect_changes_def distinct_map intro: inj_on_subset)

lemma flag_missing_get: "dict_get (tp_links (flag_missing keys tp)) k =
  map_option (\<lambda>l. if k \<in> set keys then l else l\<lparr>lk_to_remove := True\<rparr>) (dict_get (tp_links tp) k)"
  by (simp add: flag_missing_def)

text \<open>The links after the pass over the simulation's links, before distances are refreshed.\<close>

definition passed :: "budget \<Rightarrow> (nref \<Rightarrow> nref \<Rightarrow> real option) \<Rightarrow> bool \<Rightarrow> satcom_link list \<Rightarrow> topology \<Rightarrow> topology" where
  "passed b km anyway data tp = sy_tp (foldl (sync_link b km anyway) \<lparr>sy_tp = tp, sy_keys = [], sy_refresh = [], sy_errors = 0\<rparr> data)"

lemma sync_links_get:
  assumes "sync_links b km anyway data tp = (ch, tp')" "topo_ok tp" "list_all (sl_ok tp) data"
  shows "rel_option (\<lambda>l l'. link_sim (if k \<in> set (List.map_filter satcom_key data) then l else l\<lparr>lk_to_remove := True\<rparr>) l')
           (dict_get (tp_links (passed b km anyway data tp)) k) (dict_get (tp_links tp') k)"
    and "ch = collect_changes (tp_links tp')" "topo_ok tp'" "others tp' = others tp"
proof -
  let ?st0 = "\<lparr>sy_tp = tp, sy_keys = [], sy_refresh = [], sy_errors = 0\<rparr>"
  let ?st1 = "foldl (sync_link b km anyway) ?st0 data"
  let ?st2 = "foldl (refresh_distance b km) ?st1 (sy_refresh ?st1)"
  have tp': "tp' = (flag_missing (sy_keys ?st2) (sy_tp ?st2))\<lparr>tp_initial_sync := True\<rparr>"
    and ch: "ch = collect_changes (tp_links tp')"
    using assms(1) by (auto simp: sync_links_def refresh_link_distances_def Let_def)
  have keys: "sy_keys ?st2 = List.map_filter satcom_key data" by (simp add: refresh_frame fold_sync_keys)
  have ok1: "topo_ok (sy_tp ?st1)" using fold_sync_ok [of ?st0 data b km anyway] assms by simp
  have get: "dict_get (tp_links tp') k = map_option (\<lambda>l. if k \<in> set (List.map_filter satcom_key data) then l
      else l\<lparr>lk_to_remove := True\<rparr>) (dict_get (tp_links (sy_tp ?st2)) k)" for k
    by (simp add: tp' flag_missing_get keys)
  show rel: "rel_option (\<lambda>l l'. link_sim (if k \<in> set (List.map_filter satcom_key data) then l else l\<lparr>lk_to_remove := True\<rparr>) l')
           (dict_get (tp_links (passed b km anyway data tp)) k) (dict_get (tp_links tp') k)" for k
    using refresh_sim [of ?st1 k b km "sy_refresh ?st1"] unfolding get passed_def
    by (auto simp: link_sim_def option_rel_Some1 rel_option_iff split: option.splits)
  show "ch = collect_changes (tp_links tp')" by (rule ch)
  show oth: "others tp' = others tp"
    using refresh_frame(1) [of b km ?st1 "sy_refresh ?st1"] fold_sync_others [of b km anyway ?st0 data]
    by (simp add: tp' others_def flag_missing_def)
  have "dict_ok (tp_links tp')"
    using refresh_frame(3) [of ?st1 b km "sy_refresh ?st1"] ok1 by (simp add: tp' flag_missing_def topo_ok_def)
  moreover have "links_all (\<lambda>k l. link_key l = Inr k) tp'"
  proof -
    have "link_key l' = Inr k" if g: "dict_get (tp_links tp') k = Some l'" for k l'
    proof -
      obtain l where l: "dict_get (tp_links (passed b km anyway data tp)) k = Some l"
        "link_sim (if k \<in> set (List.map_filter satcom_key data) then l else l\<lparr>lk_to_remove := True\<rparr>) l'"
        using rel [of k] g by (auto simp: option_rel_Some2)
      then have "link_key l = Inr k" using ok1 by (simp add: topo_ok_def links_all_def passed_def)
      then show ?thesis using link_sim_key [OF l(2)] by (auto simp: link_key_def split: if_splits)
    qed
    then show ?thesis by (simp add: links_all_def)
  qed
  ultimately show "topo_ok tp'" using nodes_ok_others [OF oth] assms(2) by (simp add: topo_ok_def)
qed

lemma passed_absent:
  "k \<notin> set (List.map_filter satcom_key data) \<Longrightarrow>
    dict_get (tp_links (passed b km anyway data tp)) k = dict_get (tp_links tp) k"
  by (simp add: passed_def fold_sync_other)

lemma map_filter_append [simp]: "List.map_filter f (xs @ ys) = List.map_filter f xs @ List.map_filter f ys"
  by (simp add: List.map_filter_def)

lemma passed_single:
  assumes "data = xs @ sl # ys" "satcom_key sl = Some k"
    "k \<notin> set (List.map_filter satcom_key xs)" "k \<notin> set (List.map_filter satcom_key ys)"
    "dict_get (tp_links tp) k = Some l"
  shows "dict_get (tp_links (passed b km anyway data tp)) k = Some (set_activity (satcom_active sl) l)"
proof -
  define st where "st = foldl (sync_link b km anyway) \<lparr>sy_tp = tp, sy_keys = [], sy_refresh = [], sy_errors = 0\<rparr> xs"
  have k: "dict_get (tp_links (sy_tp st)) k = Some l"
    using assms(3,5) by (simp add: st_def fold_sync_other)
  obtain s t where st: "sl_source sl = Some s" "sl_dest sl = Some t" "build_link_key s t = Inr k"
    using assms(2) by (auto simp: satcom_key_def split: option.splits sum.splits)
  then have "dict_get (tp_links (sy_tp (sync_link b km anyway st sl))) k = Some (set_activity (satcom_active sl) l)"
    using k by (simp add: sync_link_def Let_def)
  moreover have "passed b km anyway data tp = sy_tp (foldl (sync_link b km anyway) (sync_link b km anyway st sl) ys)"
    by (simp add: passed_def assms(1) st_def)
  ultimately show ?thesis using assms(4) by (simp add: fold_sync_other)
qed

lemma sync_links_cases:
  assumes "topo_ok tp" "links_all (\<lambda>k l. \<not> lk_to_remove l) tp" "list_all (sl_ok tp) data"
    and "sync_links b km anyway data tp = (ch, tp')"
  shows "topo_ok tp'"
    and "\<lbrakk>dict_get (tp_links tp) k = Some l; k \<notin> set (List.map_filter satcom_key data)\<rbrakk> \<Longrightarrow>
      k \<in> set (lc_remove ch) \<and> k \<notin> set (lc_add ch) \<and> k \<notin> set (lc_update ch)"
    and "\<lbrakk>dict_get (tp_links tp) k = Some l; data = xs @ sl # ys; satcom_key sl = Some k;
      k \<notin> set (List.map_filter satcom_key (xs @ ys))\<rbrakk> \<Longrightarrow>
      (k \<in> set (lc_remove ch) \<longleftrightarrow> lk_active l \<and> \<not> satcom_active sl) \<and>
      (k \<in> set (lc_add ch) \<longleftrightarrow> \<not> (lk_active l \<and> \<not> satcom_active sl) \<and>
         (lk_to_add l \<or> satcom_active sl \<and> \<not> lk_active l))"
proof -
  note get = sync_links_get [OF assms(4,1,3)]
  show ok: "topo_ok tp'" by (rule get)
  then have d: "dict_ok (tp_links tp')" by (simp add: topo_ok_def)
  note ch = collect_changes_iff [OF d, folded get(2)]
  { assume l: "dict_get (tp_links tp) k = Some l" "k \<notin> set (List.map_filter satcom_key data)"
    have "\<exists>l'. dict_get (tp_links tp') k = Some l' \<and> lk_to_remove l'"
      using get(1) [of k] l by (auto simp: passed_absent option_rel_Some1 link_sim_def)
    then show "k \<in> set (lc_remove ch) \<and> k \<notin> set (lc_add ch) \<and> k \<notin> set (lc_update ch)" unfolding ch by auto }
  { assume l: "dict_get (tp_links tp) k = Some l" "data = xs @ sl # ys" "satcom_key sl = Some k"
      "k \<notin> set (List.map_filter satcom_key (xs @ ys))"
    have "dict_get (tp_links (passed b km anyway data tp)) k = Some (set_activity (satcom_active sl) l)"
      by (rule passed_single [OF l(2,3) _ _ l(1)]) (use l(4) in auto)
    moreover have "k \<in> set (List.map_filter satcom_key data)"
      using l(2,3) by (simp add: List.map_filter_def)
    ultimately obtain l' where l': "dict_get (tp_links tp') k = Some l'" "link_sim (set_activity (satcom_active sl) l) l'"
      using get(1) [of k] by (auto simp: option_rel_Some1)
    have "\<not> lk_to_remove l" using assms(2) l(1) by (auto simp: links_all_def)
    then show "(k \<in> set (lc_remove ch) \<longleftrightarrow> lk_active l \<and> \<not> satcom_active sl) \<and>
      (k \<in> set (lc_add ch) \<longleftrightarrow> \<not> (lk_active l \<and> \<not> satcom_active sl) \<and>
         (lk_to_add l \<or> satcom_active sl \<and> \<not> lk_active l))"
      using l' unfolding ch by (auto simp: link_sim_def set_activity_def split: if_splits) }
qed

text \<open>
  One pass over the simulation's links keeps the dictionary well formed and
  sorts every known link by what the simulation says: a link that the simulation no
  longer lists is removed, a link listed once is removed exactly when it was active
  and is reported inactive, and added exactly when it becomes active or was already
  waiting to be added.
\<close>

theorem sync_links_correct:
  assumes "topo_ok tp" "links_all (\<lambda>k l. \<not> lk_to_remove l) tp" "list_all (sl_ok tp) data"
    and "sync_links b km anyway data tp = (ch, tp')"
  shows "topo_ok tp' \<and>
    (\<forall>k l. dict_get (tp_links tp) k = Some l \<and> k \<notin> set (List.map_filter satcom_key data) \<longrightarrow>
      k \<in> set (lc_remove ch) \<and> k \<notin> set (lc_add ch) \<and> k \<notin> set (lc_update ch)) \<and>
    (\<forall>k l xs sl ys. dict_get (tp_links tp) k = Some l \<and> data = xs @ sl # ys \<and> satcom_key sl = Some k \<and>
      k \<notin> set (List.map_filter satcom_key (xs @ ys)) \<longrightarrow>
      (k \<in> set (lc_remove ch) \<longleftrightarrow> lk_active l \<and> \<not> satcom_active sl) \<and>
      (k \<in> set (lc_add ch) \<longleftrightarrow> \<not> (lk_active l \<and> \<not> satcom_active sl) \<and>
         (lk_to_add l \<or> satcom_active sl \<and> \<not> lk_active l)))"
  using sync_links_cases [OF assms] by blast

section \<open>Local link operations\<close>

definition link_core :: "link \<Rightarrow> link \<Rightarrow> bool" where
  "link_core l l' \<longleftrightarrow> lk_source l' = lk_source l \<and> lk_target l' = lk_target l \<and> lk_active l' = lk_active l \<and>
     lk_to_remove l' = lk_to_remove l"

abbreviation node_kind :: "(int, node) dict \<Rightarrow> int \<Rightarrow> (int \<times> string) option" where
  "node_kind d k \<equiv> map_option (\<lambda>n. (nd_id n, nd_type n)) (dict_get d k)"

definition core :: "topology \<Rightarrow> topology \<Rightarrow> bool" where
  "core tp tp' \<longleftrightarrow> (\<forall>k. rel_option link_core (dict_get (tp_links tp) k) (dict_get (tp_links tp') k)) \<and>
     dict_keys (tp_links tp') = dict_keys (tp_links tp) \<and>
     node_kind (nt_sats tp') = node_kind (nt_sats tp) \<and> node_kind (nt_gss tp') = node_kind (nt_gss tp) \<and>
     nt_status tp' = nt_status tp"

lemma link_core_refl [simp]: "link_core l l"
  by (simp add: link_core_def)

lemma core_refl [simp]: "core tp tp"
  by (simp add: core_def option.rel_refl)

lemma core_trans: "core a b \<Longrightarrow> core b c \<Longrightarrow> core a c"
proof -
  assume ab: "core a b" and bc: "core b c"
  have "rel_option link_core (dict_get (tp_links a) k) (dict_get (tp_links c) k)" for k
  proof -
    have "rel_option link_core (dict_get (tp_links a) k) (dict_get (tp_links b) k)"
      "rel_option link_core (dict_get (tp_links b) k) (dict_get (tp_links c) k)"
      using ab bc by (simp_all add: core_def)
    then show ?thesis
      by (cases "dict_get (tp_links a) k") (auto simp: option_rel_Some1 link_core_def)
  qed
  then show ?thesis using ab bc by (simp add: core_def)
qed

lemma nodes_ok_kind:
  assumes "node_kind (nt_sats tp') = node_kind (nt_sats tp)" "node_kind (nt_gss tp') = node_kind (nt_gss tp)"
  shows "nodes_ok tp \<Longrightarrow> nodes_ok tp'"
proof -
  have s: "\<exists>m. dict_get (nt_sats tp) k = Some m \<and> nd_id m = nd_id n \<and> nd_type m = nd_type n"
    if "dict_get (nt_sats tp') k = Some n" for k n
    using fun_cong [OF assms(1), of k] that by (cases "dict_get (nt_sats tp) k") auto
  have g: "\<exists>m. dict_get (nt_gss tp) k = Some m \<and> nd_id m = nd_id n \<and> nd_type m = nd_type n"
    if "dict_get (nt_gss tp') k = Some n" for k n
    using fun_cong [OF assms(2), of k] that by (cases "dict_get (nt_gss tp) k") auto
  have n: "dict_get (nt_gss tp') k = None \<longleftrightarrow> dict_get (nt_gss tp) k = None" for k
    using fun_cong [OF assms(2), of k] by (cases "dict_get (nt_gss tp) k"; cases "dict_get (nt_gss tp') k") auto
  assume ok: "nodes_ok tp"
  have "nd_id n = k \<and> nd_type n = ''Satellite'' \<and> dict_get (nt_gss tp') k = None"
    if "dict_get (nt_sats tp') k = Some n" for k n
    using s [OF that] ok n [of k] by (auto simp: nodes_ok_def)
  moreover have "nd_id n = k \<and> nd_type n = ''GroundStation''" if "dict_get (nt_gss tp') k = Some n" for k n
    using g [OF that] ok by (auto simp: nodes_ok_def)
  ultimately show "nodes_ok tp'" by (auto simp: nodes_ok_def)
qed

lemma core_topo_ok: "core tp tp' \<Longrightarrow> topo_ok tp \<Longrightarrow> topo_ok tp'"
proof -
  assume c: "core tp tp'" and ok: "topo_ok tp"
  have "link_key l' = Inr k" if g: "dict_get (tp_links tp') k = Some l'" for k l'
  proof -
    obtain l where "dict_get (tp_links tp) k = Some l" "link_core l l'"
      using c g unfolding core_def by (metis option_rel_Some2)
    then show ?thesis using ok link_key_ends [of l' l] by (auto simp: topo_ok_def links_all_def link_core_def)
  qed
  then show "topo_ok tp'" using c ok nodes_ok_kind [of tp' tp] by (simp add: topo_ok_def core_def links_all_def)
qed

lemma core_links_all:
  assumes "core tp tp'" "links_all P tp" "\<And>k l l'. link_core l l' \<Longrightarrow> P k l \<Longrightarrow> P k l'"
  shows "links_all P tp'"
  using assms unfolding links_all_def core_def by (metis option_rel_Some2)

lemma core_set_link:
  assumes "dict_get (tp_links tp) k = Some l" "link_core l l'"
  shows "core tp (set_link k l' tp)"
proof -
  have "k \<in> set (dict_keys (tp_links tp))" using assms(1) by (force dest: map_of_SomeD)
  then show ?thesis using assms by (auto simp: core_def dict_keys_set_present option.rel_refl)
qed

lemma core_same:
  "tp_links tp' = tp_links tp \<Longrightarrow> node_kind (nt_sats tp') = node_kind (nt_sats tp) \<Longrightarrow>
   node_kind (nt_gss tp') = node_kind (nt_gss tp) \<Longrightarrow> nt_status tp' = nt_status tp \<Longrightarrow> core tp tp'"
  by (simp add: core_def option.rel_refl)

lemma update_node_core:
  assumes "\<And>n. nd_id (f n) = nd_id n \<and> nd_type (f n) = nd_type n"
  shows "core tp (update_node r f tp)"
proof -
  have m: "node_kind (map (\<lambda>(k, n). (k, if k = i then f n else n)) d) = node_kind d" for i d
  proof
    fix k show "node_kind (map (\<lambda>(k, n). (k, if k = i then f n else n)) d) k = node_kind d k"
      by (cases "dict_get d k") (simp_all add: assms)
  qed
  show ?thesis by (rule core_same) (simp_all add: update_node_def m del: dict_get_map)
qed

lemma remove_interface_kind [simp]: "nd_id (remove_interface_connected_to_node p n) = nd_id n"
  "nd_type (remove_interface_connected_to_node p n) = nd_type n"
  by (auto simp: remove_interface_connected_to_node_def Let_def split: option.splits)

lemma remove_link_interfaces_core: "core tp (remove_link_interfaces k tp)"
proof (cases "dict_get (tp_links tp) k")
  case (Some l)
  have "core tp (update_node (lk_target l) (remove_interface_connected_to_node (nr_name (lk_source l)))
      (update_node (lk_source l) (remove_interface_connected_to_node (nr_name (lk_target l))) tp))"
    by (rule core_trans; rule update_node_core; simp)
  then show ?thesis using Some by (simp add: remove_link_interfaces_def core_def Let_def)
qed (simp add: remove_link_interfaces_def)

lemma update_link_flags_core: "core tp (update_link_flags k tp)"
  by (cases "dict_get (tp_links tp) k")
    (auto simp: update_link_flags_def link_core_def intro!: core_set_link)

lemma build_interfaces_core: "core tp (snd (build_interfaces_from_link ip k tp))"
proof (cases "dict_get (tp_links tp) k")
  case (Some l)
  have "core tp (set_link k (l\<lparr>lk_ifaces := x\<rparr>) (update_node (lk_target l) (add_iface j2)
      (update_node (lk_source l) (add_iface j1) tp)))" for j1 j2 x
  proof -
    have u: "core tp (update_node (lk_target l) (add_iface j2) (update_node (lk_source l) (add_iface j1) tp))"
      by (rule core_trans; rule update_node_core; simp add: add_iface_def)
    have "tp_links (update_node r f t) = tp_links t" for r f t by (simp add: update_node_def)
    then show ?thesis using Some by (intro core_trans [OF u] core_set_link) (simp_all add: link_core_def)
  qed
  then show ?thesis using Some
    by (auto simp: build_interfaces_from_link_def Let_def core_def split: prod.splits)
qed (simp add: build_interfaces_from_link_def)

lemma add_link_interfaces_core: "core tp (add_link_interfaces k tp)"
proof -
  obtain e tp1 where b: "build_interfaces_from_link True k tp = (e, tp1)" by force
  then have c: "core tp tp1" using build_interfaces_core [of tp True k] by simp
  show ?thesis
  proof (cases "e = None \<and> dict_get (tp_links tp1) k \<noteq> None")
    case True
    then obtain l where l: "dict_get (tp_links tp1) k = Some l" "e = None" by auto
    then have "core tp1 (set_link k (l\<lparr>lk_to_add := False\<rparr>) tp1)" by (intro core_set_link) (simp_all add: link_core_def)
    then show ?thesis using b l core_trans [OF c] by (simp add: add_link_interfaces_def)
  next
    case False
    then show ?thesis using b c by (auto simp: add_link_interfaces_def split: option.splits)
  qed
qed

lemma fold_core:
  assumes "\<And>t k. core t (f k t)"
  shows "core tp (foldl (\<lambda>t k. f k t) tp ks)"
  by (rule foldl_rel [where R = core]) (auto intro: core_trans assms)

lemma cleanup_removed_link_links:
  assumes "topo_ok tp"
  shows "tp_links (cleanup_removed_link k tp) = dict_pop k (tp_links tp)"
    "nt_sats (cleanup_removed_link k tp) = nt_sats tp" "nt_gss (cleanup_removed_link k tp) = nt_gss tp"
    "nt_status (cleanup_removed_link k tp) = nt_status tp"
proof -
  have "dict_get (tp_links tp) k = None \<Longrightarrow> dict_pop k (tp_links tp) = tp_links tp"
    by (simp add: dict_get_None)
  moreover have "dict_get (tp_links tp) k = Some l \<Longrightarrow> link_key l = Inr k" for l
    using assms by (simp add: topo_ok_def links_all_def)
  ultimately show "tp_links (cleanup_removed_link k tp) = dict_pop k (tp_links tp)"
    "nt_sats (cleanup_removed_link k tp) = nt_sats tp" "nt_gss (cleanup_removed_link k tp) = nt_gss tp"
    "nt_status (cleanup_removed_link k tp) = nt_status tp"
    by (auto simp: cleanup_removed_link_def Let_def split: option.splits)
qed

lemma cleanup_removed_link_ok: "topo_ok tp \<Longrightarrow> topo_ok (cleanup_removed_link k tp)"
  using cleanup_removed_link_links [of tp k] by (auto simp: topo_ok_def nodes_ok_def links_all_def)

lemma cleanup_fold:
  assumes "topo_ok tp"
  shows "topo_ok (foldl (\<lambda>t k. cleanup_removed_link k t) tp ks) \<and>
    nt_status (foldl (\<lambda>t k. cleanup_removed_link k t) tp ks) = nt_status tp \<and>
    (\<forall>k. dict_get (tp_links (foldl (\<lambda>t k. cleanup_removed_link k t) tp ks)) k =
         (if k \<in> set ks then None else dict_get (tp_links tp) k))"
  using assms
proof (induction ks arbitrary: tp)
  case (Cons x ks)
  then show ?case
    using cleanup_removed_link_links(1,4) [OF Cons.prems, of x] cleanup_removed_link_ok [OF Cons.prems, of x] by simp
qed simp

lemma local_ops_facts:
  assumes "topo_ok tp"
    and tp'_def: "tp' = local_link_operations_parallel rems upds adds tp"
  shows "topo_ok tp'" "k \<in> set rems \<Longrightarrow> dict_get (tp_links tp') k = None"
    "k \<notin> set rems \<Longrightarrow> rel_option link_core (dict_get (tp_links tp) k) (dict_get (tp_links tp') k)"
    "nt_status tp' = nt_status tp"
proof -
  define t1 where "t1 = foldl (\<lambda>t k. remove_link_interfaces k t) tp rems"
  define t2 where "t2 = foldl (\<lambda>t k. update_link_flags k t) t1 upds"
  define t where "t = foldl (\<lambda>t k. add_link_interfaces k t) t2 adds"
  have "core tp t1" unfolding t1_def by (rule fold_core) (rule remove_link_interfaces_core)
  moreover have "core t1 t2" unfolding t2_def by (rule fold_core) (rule update_link_flags_core)
  moreover have "core t2 t" unfolding t_def by (rule fold_core) (rule add_link_interfaces_core)
  ultimately have c: "core tp t" using core_trans by blast
  have ok: "topo_ok t" using c assms(1) by (rule core_topo_ok)
  note f = cleanup_fold [OF ok, of rems]
  have tp': "tp' = foldl (\<lambda>t k. cleanup_removed_link k t) t rems"
    by (simp add: tp'_def local_link_operations_parallel_def t_def t1_def t2_def Let_def)
  show "topo_ok tp'" "k \<in> set rems \<Longrightarrow> dict_get (tp_links tp') k = None"
    "k \<notin> set rems \<Longrightarrow> rel_option link_core (dict_get (tp_links tp) k) (dict_get (tp_links tp') k)"
    "nt_status tp' = nt_status tp"
    using f c unfolding tp' by (simp_all add: core_def)
qed

lemma perform_local_facts:
  assumes "topo_ok tp"
    and "tp' = perform_local_link_operations a u d (Some adds) (Some upds) (Some rems) tp"
  shows "topo_ok tp'" "d \<Longrightarrow> k \<in> set rems \<Longrightarrow> dict_get (tp_links tp') k = None"
    "\<not> d \<or> k \<notin> set rems \<Longrightarrow> rel_option link_core (dict_get (tp_links tp) k) (dict_get (tp_links tp') k)"
    "nt_status tp' = nt_status tp"
proof -
  have e: "tp' = (if (if d then rems else []) = [] \<and> (if u then upds else []) = [] \<and> (if a then adds else []) = [] then tp
      else local_link_operations_parallel (if d then rems else []) (if u then upds else []) (if a then adds else []) tp)"
    by (simp add: assms(2) perform_local_link_operations_def collect_link_operation_lists_def Let_def)
  have "topo_ok tp' \<and> (d \<longrightarrow> k \<in> set rems \<longrightarrow> dict_get (tp_links tp') k = None) \<and>
    (\<not> d \<or> k \<notin> set rems \<longrightarrow> rel_option link_core (dict_get (tp_links tp) k) (dict_get (tp_links tp') k)) \<and>
    nt_status tp' = nt_status tp" for k
  proof (cases "(if d then rems else []) = [] \<and> (if u then upds else []) = [] \<and> (if a then adds else []) = []")
    case True
    then show ?thesis using assms(1) unfolding e if_P [OF True] by (auto simp: option.rel_refl split: if_splits)
  next
    case False
    note f = local_ops_facts [OF assms(1) e [unfolded if_not_P [OF False]]]
    show ?thesis using f(1,4) f(2) [of k] f(3) [of k] by (auto split: if_splits)
  qed
  then show "topo_ok tp'" "d \<Longrightarrow> k \<in> set rems \<Longrightarrow> dict_get (tp_links tp') k = None"
    "\<not> d \<or> k \<notin> set rems \<Longrightarrow> rel_option link_core (dict_get (tp_links tp) k) (dict_get (tp_links tp') k)"
    "nt_status tp' = nt_status tp" by blast+
qed

lemma store_iface_core: "core tp (store_iface i tp)"
proof -
  have "node_kind (map (\<lambda>(k, n). (k, n\<lparr>nd_ifaces := replace_iface i (nd_ifaces n)\<rparr>)) d) = node_kind d" for d :: "(int, node) dict"
  proof
    fix k show "node_kind (map (\<lambda>(k, n). (k, n\<lparr>nd_ifaces := replace_iface i (nd_ifaces n)\<rparr>)) d) k = node_kind d k"
      by (cases "dict_get d k") simp_all
  qed
  moreover have "rel_option link_core x (map_option (\<lambda>l. l\<lparr>lk_ifaces := replace_iface i (lk_ifaces l)\<rparr>) x)" for x
    by (cases x) (simp_all add: link_core_def)
  ultimately show ?thesis by (simp add: core_def store_iface_def del: dict_get_map) (simp)
qed

lemma sync_interfaces_and_links_core: "core tp (sync_interfaces_and_links tp)"
proof -
  define tp1 where "tp1 = tp\<lparr>tp_links := map (\<lambda>(k, l). (k, update_interfaces_state l)) (tp_links tp)\<rparr>"
  have "rel_option link_core x (map_option update_interfaces_state x)" for x
    by (cases x) (simp_all add: link_core_def update_interfaces_state_def)
  then have "core tp tp1" by (simp add: core_def tp1_def)
  moreover have "core tp1 (foldl (\<lambda>t i. store_iface i t) tp1 is)" for "is"
    by (rule fold_core) (rule store_iface_core)
  ultimately show ?thesis using core_trans by (simp add: sync_interfaces_and_links_def tp1_def Let_def)
qed

section \<open>One simulation step\<close>

abbreviation timed :: "bool \<Rightarrow> topology \<Rightarrow> topology" where
  "timed advance tp \<equiv> (if advance then tp\<lparr>tp_time_step := tp_time_step tp + 1\<rparr> else tp)"

lemma sl_ok_cong: "(\<And>e. end_ok tp e = end_ok tp' e) \<Longrightarrow> sl_ok tp = sl_ok tp'"
  by (auto simp: sl_ok_def fun_eq_iff split: option.splits)

lemma timed_ok: "topo_ok (timed adv tp) = topo_ok tp" "sl_ok (timed adv tp) = sl_ok tp"
  "nt_status (timed adv tp) = nt_status tp"
proof -
  show "topo_ok (timed adv tp) = topo_ok tp" by (simp add: topo_ok_def nodes_ok_def links_all_def)
  have "end_ok (timed adv tp) e = end_ok tp e" for e by (cases e) simp_all
  then show "sl_ok (timed adv tp) = sl_ok tp" by (rule sl_ok_cong)
qed simp

lemma bulk_ops: "snd (bulk_link_operations a u d (Some adds) (Some upds) (Some rems) tp) =
    (if nt_status tp then map OpDelete (if d then rems else []) @ map OpUpdate (if u then upds else []) @
       map OpAdd (if a then adds else []) else [])"
  by (simp add: bulk_link_operations_def collect_link_operation_lists_def Let_def)

text \<open>
  The step written out: the pass over the links, the deletions, then the updates and
  additions, on the emulated network (\<open>sr_ops\<close>) and on the manager's own data.
\<close>

lemma update_simulation_steps:
  assumes "update_simulation b km advance data tp = (res, tp')" "topo_ok tp" "list_all (sl_ok tp) data"
  obtains ch tp1 where
    "sync_links b km False data (timed advance tp) = (ch, tp1)"
    "topo_ok tp1" "ch = collect_changes (tp_links tp1)" "topo_ok tp'"
    "\<And>k. k \<in> set (lc_remove ch) \<Longrightarrow> dict_get (tp_links tp') k = None"
    "\<And>k. k \<notin> set (lc_remove ch) \<Longrightarrow> rel_option link_core (dict_get (tp_links tp1) k) (dict_get (tp_links tp') k)"
    "sr_ops res = (if nt_status tp then map OpDelete (lc_remove ch) @ map OpUpdate (lc_update ch) @ map OpAdd (lc_add ch) else [])"
proof -
  define tp0 where "tp0 = timed advance tp"
  obtain ch tp1 where s: "sync_links b km False data tp0 = (ch, tp1)" by force
  define tp2 where "tp2 = perform_local_link_operations False False True (Some []) (Some []) (Some (lc_remove ch)) tp1"
  define tp3 where "tp3 = perform_local_link_operations True True False (Some (lc_add ch)) (Some (lc_update ch)) (Some []) tp2"
  have ok0: "topo_ok tp0" "list_all (sl_ok tp0) data" "nt_status tp0 = nt_status tp"
    using assms(2,3) by (simp_all add: tp0_def timed_ok)
  note get = sync_links_get [OF s ok0(1,2)]
  have st1: "nt_status tp1 = nt_status tp" using get(4) ok0(3) by (auto dest: othersD)
  note p2 = perform_local_facts [OF get(3) tp2_def]
  note p3 = perform_local_facts [OF p2(1) tp3_def]
  have res: "sr_ops res = (if nt_status tp then map OpDelete (lc_remove ch) @ map OpUpdate (lc_update ch) @ map OpAdd (lc_add ch) else [])"
    and tp': "tp' = sync_interfaces_and_links tp3"
  proof -
    let ?b1 = "bulk_link_operations False False True (Some []) (Some []) (Some (lc_remove ch)) tp1"
    let ?b2 = "bulk_link_operations True True False (Some (lc_add ch)) (Some (lc_update ch)) (Some []) tp2"
    have "sr_ops res = snd ?b1 @ snd ?b2" "tp' = sync_interfaces_and_links tp3"
      using assms(1) s unfolding update_simulation_def tp0_def [symmetric] Let_def
      by (auto simp: split_def tp2_def [symmetric] tp3_def [symmetric])
    then show "sr_ops res = (if nt_status tp then map OpDelete (lc_remove ch) @ map OpUpdate (lc_update ch) @ map OpAdd (lc_add ch) else [])"
      "tp' = sync_interfaces_and_links tp3"
      using p2(4) st1 by (simp_all add: bulk_ops)
  qed
  have c: "core tp3 tp'" unfolding tp' by (rule sync_interfaces_and_links_core)
  show ?thesis
  proof (rule that [OF s [unfolded tp0_def] get(3) get(2)])
    show "topo_ok tp'" using core_topo_ok [OF c] p3(1) by simp
    show "dict_get (tp_links tp') k = None" if "k \<in> set (lc_remove ch)" for k
    proof -
      have "rel_option link_core None (dict_get (tp_links tp3) k)" using p2(2) [OF _ that] p3(3) [of k] by simp
      moreover have "rel_option link_core (dict_get (tp_links tp3) k) (dict_get (tp_links tp') k)" using c by (simp add: core_def)
      ultimately show ?thesis by simp
    qed
    show "rel_option link_core (dict_get (tp_links tp1) k) (dict_get (tp_links tp') k)" if "k \<notin> set (lc_remove ch)" for k
    proof -
      have "rel_option link_core (dict_get (tp_links tp1) k) (dict_get (tp_links tp2) k)"
        "rel_option link_core (dict_get (tp_links tp2) k) (dict_get (tp_links tp3) k)"
        "rel_option link_core (dict_get (tp_links tp3) k) (dict_get (tp_links tp') k)"
        using p2(3) [of k] p3(3) [of k] that c by (simp_all add: core_def)
      then show ?thesis
        by (cases "dict_get (tp_links tp1) k") (auto simp: option_rel_Some1 link_core_def)
    qed
  qed (rule res)
qed

lemma update_simulation_facts:
  assumes "topo_ok tp" "links_all (\<lambda>k l. \<not> lk_to_remove l) tp" "list_all (sl_ok tp) data"
    and "update_simulation b km advance data tp = (res, tp')"
  shows "topo_ok tp'" "links_all (\<lambda>k l. \<not> lk_to_remove l \<and> k \<in> set (List.map_filter satcom_key data)) tp'"
    and "\<exists>R U A. sr_ops res = (if nt_status tp then map OpDelete R @ map OpUpdate U @ map OpAdd A else []) \<and>
      distinct (R @ U @ A) \<and> set R \<inter> set (dict_keys (tp_links tp')) = {} \<and>
      set U \<union> set A \<subseteq> set (dict_keys (tp_links tp'))"
proof -
  obtain ch tp1 where st:
    "sync_links b km False data (timed advance tp) = (ch, tp1)"
    "topo_ok tp1" "ch = collect_changes (tp_links tp1)" "topo_ok tp'"
    "\<And>k. k \<in> set (lc_remove ch) \<Longrightarrow> dict_get (tp_links tp') k = None"
    "\<And>k. k \<notin> set (lc_remove ch) \<Longrightarrow> rel_option link_core (dict_get (tp_links tp1) k) (dict_get (tp_links tp') k)"
    "sr_ops res = (if nt_status tp then map OpDelete (lc_remove ch) @ map OpUpdate (lc_update ch) @ map OpAdd (lc_add ch) else [])"
    by (rule update_simulation_steps [OF assms(4,1,3)]) (rule that; assumption)
  have d: "dict_ok (tp_links tp1)" using st(2) by (simp add: topo_ok_def)
  note ch = collect_changes_iff [OF d, folded st(3)]
  show "topo_ok tp'" by (rule st)
  have "\<not> lk_to_remove l' \<and> k \<in> set (List.map_filter satcom_key data)" if g: "dict_get (tp_links tp') k = Some l'" for k l'
  proof -
    have nr: "k \<notin> set (lc_remove ch)" using st(5) g by auto
    obtain l where l: "dict_get (tp_links tp1) k = Some l" "link_core l l'"
      using st(6) [OF nr] g by (auto simp: option_rel_Some2)
    then have "\<not> lk_to_remove l" using nr unfolding ch by auto
    moreover have "k \<in> set (List.map_filter satcom_key data)"
    proof (rule ccontr)
      assume k: "k \<notin> set (List.map_filter satcom_key data)"
      have ok0: "topo_ok (timed advance tp)" "list_all (sl_ok (timed advance tp)) data"
        using assms(1,3) by (simp_all add: timed_ok)
      show False using sync_links_get(1) [OF st(1) ok0, of k] k l(1) \<open>\<not> lk_to_remove l\<close>
        by (auto simp: option_rel_Some2 link_sim_def)
    qed
    ultimately show ?thesis using l(2) by (simp add: link_core_def)
  qed
  then show "links_all (\<lambda>k l. \<not> lk_to_remove l \<and> k \<in> set (List.map_filter satcom_key data)) tp'"
    by (simp add: links_all_def)
  have keys: "k \<in> set (dict_keys (tp_links tp')) \<longleftrightarrow> dict_get (tp_links tp') k \<noteq> None" for k
    by (simp add: dict_get_None)
  have "distinct (lc_remove ch @ lc_update ch @ lc_add ch)"
    using collect_changes_distinct [OF d, folded st(3)] by (auto simp: ch)
  moreover have "set (lc_remove ch) \<inter> set (dict_keys (tp_links tp')) = {}" using st(5) by (auto simp: keys simp del: set_map)
  moreover have "set (lc_update ch) \<union> set (lc_add ch) \<subseteq> set (dict_keys (tp_links tp'))"
  proof
    fix k assume k: "k \<in> set (lc_update ch) \<union> set (lc_add ch)"
    then obtain l where "dict_get (tp_links tp1) k = Some l" "k \<notin> set (lc_remove ch)" by (auto simp: ch)
    then show "k \<in> set (dict_keys (tp_links tp'))" unfolding keys using st(6) [of k] by (auto simp: option_rel_Some1)
  qed
  ultimately show "\<exists>R U A. sr_ops res = (if nt_status tp then map OpDelete R @ map OpUpdate U @ map OpAdd A else []) \<and>
      distinct (R @ U @ A) \<and> set R \<inter> set (dict_keys (tp_links tp')) = {} \<and>
      set U \<union> set A \<subseteq> set (dict_keys (tp_links tp'))" using st(7) by blast
qed


section \<open>Interfaces of a link\<close>

lemma update_node_frame [simp]: "tp_links (update_node r f tp) = tp_links tp" "nt_status (update_node r f tp) = nt_status tp"
  "tp_interfaces (update_node r f tp) = tp_interfaces tp" "tp_next_oid (update_node r f tp) = tp_next_oid tp"
  by (simp_all add: update_node_def)

lemma set_link_ifaces [simp]: "tp_interfaces (set_link k l tp) = tp_interfaces tp"
  by (simp add: set_link_def)

lemma link_iface_simps [simp]: "if_name (link_iface oid nm p l) = nm" "if_ipv4 (link_iface oid nm p l) = []"
  "if_oid (link_iface oid nm p l) = oid" "if_type (link_iface oid nm p l) \<noteq> ''lo''"
  "if_active (link_iface oid nm p l) = lk_active l" "if_delay (link_iface oid nm p l) = lk_delay l"
  by (auto simp: link_iface_def new_iface_def link_iface_type_def)

lemma set_peer_ip_simps [simp]: "if_name (set_peer_ip p i) = if_name i" "if_ipv4 (set_peer_ip p i) = if_ipv4 i"
  "if_peer (set_peer_ip p i) = Some (if_name p, if_ipv4 p)"
  by (simp_all add: set_peer_ip_def)

lemma set_ip_simps [simp]: "if_name (set_ip a i) = if_name i" "if_ipv4 (set_ip a i) = a" "if_oid (set_ip a i) = if_oid i"
  by (simp_all add: set_ip_def)

lemma set_ipv4_address_names:
  "set_ipv4_address i p = Inr (i', p') \<Longrightarrow> if_name i' = if_name i \<and> if_name p' = if_name p"
  by (auto simp: set_ipv4_address_def split: if_splits elim!: rbind_InrE)

text \<open>One call appends one pair of interfaces, named by the two ends, whatever the link already has.\<close>

lemma build_interfaces_names:
  assumes "dict_get (tp_links tp) k = Some l"
  shows "\<exists>j1 j2. dict_get (tp_links (snd (build_interfaces_from_link ip k tp))) k =
      Some (l\<lparr>lk_ifaces := lk_ifaces l @ [j1, j2]\<rparr>) \<and> if_name j1 = fst (get_names l) \<and> if_name j2 = snd (get_names l) \<and>
      tp_interfaces (snd (build_interfaces_from_link ip k tp)) = tp_interfaces tp @ [j1, j2]"
    and "k' \<noteq> k \<Longrightarrow> dict_get (tp_links (snd (build_interfaces_from_link ip k tp))) k' = dict_get (tp_links tp) k'"
    and "nt_status (snd (build_interfaces_from_link ip k tp)) = nt_status tp"
proof -
  obtain n1 n2 where n: "get_names l = (n1, n2)" by force
  let ?i1 = "link_iface (tp_next_oid tp) n1 n2 l" and ?i2 = "link_iface (Suc (tp_next_oid tp)) n2 n1 l"
  let ?A = "if nt_status tp \<and> ip then
                (case set_ipv4_address ?i1 ?i2 of
                   Inl e \<Rightarrow> (Some e, ?i1, ?i2)
                 | Inr (a1, a2) \<Rightarrow> (case set_ipv4_address a2 a1 of
                     Inl e \<Rightarrow> (Some e, set_peer_ip a2 a1, set_peer_ip a1 a2)
                   | Inr (b2, b1) \<Rightarrow> (None, set_peer_ip b2 b1, set_peer_ip b1 b2)))
               else (None, ?i1, ?i2)"
  obtain err j1 j2 where A: "?A = (err, j1, j2)" by (rule prod_cases3)
  have names: "if_name j1 = n1 \<and> if_name j2 = n2"
    using A by (auto split: if_splits sum.splits prod.splits dest!: set_ipv4_address_names)
  show "\<exists>j1 j2. dict_get (tp_links (snd (build_interfaces_from_link ip k tp))) k =
      Some (l\<lparr>lk_ifaces := lk_ifaces l @ [j1, j2]\<rparr>) \<and> if_name j1 = fst (get_names l) \<and> if_name j2 = snd (get_names l) \<and>
      tp_interfaces (snd (build_interfaces_from_link ip k tp)) = tp_interfaces tp @ [j1, j2]"
    using assms n A names unfolding build_interfaces_from_link_def Let_def by simp
  show "k' \<noteq> k \<Longrightarrow> dict_get (tp_links (snd (build_interfaces_from_link ip k tp))) k' = dict_get (tp_links tp) k'"
    "nt_status (snd (build_interfaces_from_link ip k tp)) = nt_status tp"
    using assms n A unfolding build_interfaces_from_link_def Let_def by simp_all
qed

lemma assign_fold:
  assumes "distinct ks"
  shows "k \<notin> set ks \<Longrightarrow> dict_get (tp_links (foldl (\<lambda>t k. snd (build_interfaces_from_link ip k t)) tp ks)) k = dict_get (tp_links tp) k"
    and "k \<in> set ks \<Longrightarrow> dict_get (tp_links tp) k = Some l \<Longrightarrow>
      \<exists>j1 j2. dict_get (tp_links (foldl (\<lambda>t k. snd (build_interfaces_from_link ip k t)) tp ks)) k =
        Some (l\<lparr>lk_ifaces := lk_ifaces l @ [j1, j2]\<rparr>) \<and> if_name j1 = fst (get_names l) \<and> if_name j2 = snd (get_names l)"
  using assms
proof (induction ks arbitrary: tp)
  case (Cons x ks)
  have other: "dict_get (tp_links (snd (build_interfaces_from_link ip x tp))) k = dict_get (tp_links tp) k" if "k \<noteq> x" for tp
    using that build_interfaces_names(2) [of tp x _ k ip]
    by (cases "dict_get (tp_links tp) x") (auto simp: build_interfaces_from_link_def)
  { case 1 then show ?case using Cons(1) [of "snd (build_interfaces_from_link ip x tp)"] other [of tp] by simp }
  { case 2
    show ?case
    proof (cases "k = x")
      case True
      then show ?thesis using 2 build_interfaces_names(1) [OF 2(2), of ip] Cons(1) [of "snd (build_interfaces_from_link ip x tp)"] by auto
    next
      case False
      then show ?thesis using 2 Cons(2) [of "snd (build_interfaces_from_link ip x tp)"] other [of tp] by simp
    qed }
qed simp_all

text \<open>
  At start every link gets its pair of interfaces, active or not; when a
  link that was inactive then becomes active, adding it builds a second pair with the
  same names beside the first.
\<close>

theorem activated_link_wired_twice:
  assumes "dict_ok (tp_links tp)" "dict_get (tp_links tp) k = Some l" "lk_ifaces l = []"
  defines "tp1 \<equiv> assign_interfaces_to_nodes tp"
  shows "\<exists>l1 l2. dict_get (tp_links tp1) k = Some l1 \<and> lk_active l1 = lk_active l \<and>
    map if_name (lk_ifaces l1) = [fst (get_names l), snd (get_names l)] \<and>
    dict_get (tp_links (add_link_interfaces k tp1)) k = Some l2 \<and>
    map if_name (lk_ifaces l2) = [fst (get_names l), snd (get_names l), fst (get_names l), snd (get_names l)]"
proof -
  have "k \<in> set (dict_keys (tp_links tp))" using assms(2) dict_get_None [of "tp_links tp" k] by auto
  then obtain j1 j2 where g: "dict_get (tp_links tp1) k = Some (l\<lparr>lk_ifaces := [j1, j2]\<rparr>)"
    and n: "if_name j1 = fst (get_names l)" "if_name j2 = snd (get_names l)"
    using assign_fold(2) [OF assms(1) _ assms(2), of True] assms(3)
    by (auto simp: tp1_def assign_interfaces_to_nodes_def)
  obtain i1 i2 where b: "dict_get (tp_links (snd (build_interfaces_from_link True k tp1))) k =
      Some (l\<lparr>lk_ifaces := [j1, j2, i1, i2]\<rparr>)" "if_name i1 = fst (get_names l)" "if_name i2 = snd (get_names l)"
    using build_interfaces_names(1) [OF g, of True] by (auto simp: get_names_def)
  obtain e t where et: "build_interfaces_from_link True k tp1 = (e, t)" by force
  have "\<exists>l2. dict_get (tp_links (add_link_interfaces k tp1)) k = Some l2 \<and> lk_ifaces l2 = [j1, j2, i1, i2]"
    using b(1) et by (cases e) (simp_all add: add_link_interfaces_def)
  then show ?thesis using g n b(2,3) by auto
qed

text \<open>
  Building the interfaces of a link of a running network succeeds and gives
  the two ends the two addresses that the address scheme generates for the link, each
  end knowing the name and address of the other.
\<close>

theorem link_interfaces_addressed:
  assumes "dict_get (tp_links tp) k = Some l" "nt_status tp"
    and "lk_source l = \<lparr>nr_name = node_name ty n, nr_id = int n, nr_type = ty\<rparr>"
    and "lk_target l = \<lparr>nr_name = nm, nr_id = int p, nr_type = ty'\<rparr>"
    and "ty \<in> {''Satellite'', ''GroundStation''}" "id13 (int n)" "id13 (int p)"
  shows "\<exists>tp' a b j1 j2. build_interfaces_from_link True k tp = (None, tp') \<and>
    get_ipv4_address (int n) (int p) ty False = Inr (a, b) \<and> a \<noteq> b \<and>
    dict_get (tp_links tp') k = Some (l\<lparr>lk_ifaces := lk_ifaces l @ [j1, j2]\<rparr>) \<and>
    if_ipv4 j1 = a \<and> if_ipv4 j2 = b \<and>
    if_peer j1 = Some (if_name j2, b) \<and> if_peer j2 = Some (if_name j1, a)"
proof -
  let ?n1 = "node_name ty n @ ''.'' @ dec p" and ?n2 = "nm @ ''.'' @ dec n"
  let ?i1 = "link_iface (tp_next_oid tp) ?n1 ?n2 l" and ?i2 = "link_iface (Suc (tp_next_oid tp)) ?n2 ?n1 l"
  have n: "get_names l = (?n1, ?n2)" using assms(3,4) by (simp add: get_names_def)
  obtain a b where ab: "get_ipv4_address (int n) (int p) ty False = Inr (a, b)" "a \<noteq> b"
    "set_ipv4_address ?i1 ?i2 = Inr (set_ip a ?i1, set_ip b ?i2)"
    "set_ipv4_address (set_ip b ?i2) (set_ip a ?i1) = Inr (set_ip b ?i2, set_ip a ?i1)"
    using set_ipv4_address_link [OF assms(5-7), of ?i1 ?i2] by auto
  let ?j1 = "set_peer_ip (set_ip b ?i2) (set_ip a ?i1)" and ?j2 = "set_peer_ip (set_ip a ?i1) (set_ip b ?i2)"
  let ?r = "build_interfaces_from_link True k tp"
  have "?r = (None, snd ?r)"
    using assms(1,2) n ab(3,4) unfolding build_interfaces_from_link_def Let_def by simp
  moreover have "dict_get (tp_links (snd ?r)) k = Some (l\<lparr>lk_ifaces := lk_ifaces l @ [?j1, ?j2]\<rparr>)"
    using assms(1,2) n ab(3,4) unfolding build_interfaces_from_link_def Let_def by simp
  ultimately show ?thesis using ab(1,2)
    by (intro exI [of _ "snd ?r"] exI [of _ a] exI [of _ b] exI [of _ ?j1] exI [of _ ?j2]) simp
qed

section \<open>A small network\<close>

text \<open>Three satellites, one active and one inactive link, used by the witnesses.\<close>

definition demo_sat :: "nat \<Rightarrow> node" where
  "demo_sat u = \<lparr>nd_name = node_name ''Satellite'' u, nd_id = int u, nd_type = ''Satellite'', nd_ifaces = [],
     nd_loopback = new_iface 0 ''lo'' ''lo'', nd_curr = [], nd_prev = [], nd_aliased = False, nd_addressable = False\<rparr>"

definition demo_sl :: "int \<Rightarrow> int \<Rightarrow> bool \<Rightarrow> satcom_link" where
  "demo_sl a b act = \<lparr>sl_source = Some (SatEnd a), sl_dest = Some (SatEnd b), sl_type = Some ''InterSatelliteLink'',
     sl_is_active = Some act, sl_disabled = Some (\<not> act), sl_direction = None\<rparr>"

definition demo_isl :: "nat \<Rightarrow> nat \<Rightarrow> bool \<Rightarrow> link" where
  "demo_isl a b act = new_link (\<lambda>_ _ _. None) (node_ref (demo_sat a)) (node_ref (demo_sat b)) 600000
     ''InterSatelliteLink'' [] act 1000 False"

definition demo_topology :: topology where
  "demo_topology = \<lparr>nt_sats = [(1, demo_sat 1), (2, demo_sat 2), (3, demo_sat 3)], nt_gss = [], nt_status = True,
     nt_file_routes = False, nt_iface_version = None, sn_gonetem_on = True, sn_containers = [],
     tp_links = [({''Sat1'', ''Sat2''}, demo_isl 1 2 True), ({''Sat2'', ''Sat3''}, demo_isl 2 3 False)],
     tp_interfaces = [], tp_initial_sync = True, tp_isl_cap = 1000, tp_gnd_cap = 1000, tp_gobj_cap = None,
     tp_use_budget = False, tp_time_step = 0, tp_next_oid = 1\<rparr>"

lemma demo_dec: "dec_int 1 = ''1''" "dec_int 2 = ''2''" "dec_int 3 = ''3''" "dec 1 = ''1''" "dec 2 = ''2''" "dec 3 = ''3''"
  "dec (Suc 0) = ''1''"
  by code_simp+

lemma demo_topology_ok: "topo_ok demo_topology" "links_all (\<lambda>k l. \<not> lk_to_remove l) demo_topology"
  "list_all (sl_ok demo_topology) [demo_sl a b c, demo_sl a' b' c']"
  by (auto simp: topo_ok_def nodes_ok_def links_all_def demo_topology_def demo_sat_def demo_isl_def demo_sl_def sl_ok_def
      link_key_def build_link_key_def nref_end_def node_ref_def demo_dec doubleton_eq_iff insert_commute split: if_splits)

lemma sync_links_correct_witness:
  "let ch = fst (sync_links (\<lambda>_ _ _. None) (\<lambda>_ _. Some 500) False [demo_sl 3 2 True] demo_topology)
   in {''Sat1'', ''Sat2''} \<in> set (lc_remove ch) \<and> {''Sat2'', ''Sat3''} \<in> set (lc_add ch)"
proof -
  let ?r = "sync_links (\<lambda>_ _ _. None) (\<lambda>_ _. Some 500) False [demo_sl 3 2 True] demo_topology"
  have ok: "list_all (sl_ok demo_topology) [demo_sl 3 2 True]" using demo_topology_ok(3) [of 3 2 True 3 2 True] by simp
  have sk: "satcom_key (demo_sl 3 2 True) = Some {''Sat2'', ''Sat3''}"
    by (simp add: satcom_key_def demo_sl_def build_link_key_def demo_dec insert_commute)
  have l: "dict_get (tp_links demo_topology) {''Sat1'', ''Sat2''} = Some (demo_isl 1 2 True)"
    "dict_get (tp_links demo_topology) {''Sat2'', ''Sat3''} = Some (demo_isl 2 3 False)"
    by (simp_all add: demo_topology_def doubleton_eq_iff)
  note t = sync_links_correct [OF demo_topology_ok(1,2) ok prod.collapse [symmetric, of ?r]]
  have "{''Sat1'', ''Sat2''} \<notin> set (List.map_filter satcom_key [demo_sl 3 2 True])"
    using sk by (simp add: List.map_filter_def doubleton_eq_iff)
  then have "{''Sat1'', ''Sat2''} \<in> set (lc_remove (fst ?r))"
    using t [THEN conjunct2, THEN conjunct1, rule_format, OF conjI [OF l(1)]] by blast
  moreover have "{''Sat2'', ''Sat3''} \<in> set (lc_add (fst ?r)) \<longleftrightarrow> \<not> (lk_active (demo_isl 2 3 False) \<and> \<not> satcom_active (demo_sl 3 2 True)) \<and>
         (lk_to_add (demo_isl 2 3 False) \<or> satcom_active (demo_sl 3 2 True) \<and> \<not> lk_active (demo_isl 2 3 False))"
    using t [THEN conjunct2, THEN conjunct2, rule_format, of "{''Sat2'', ''Sat3''}" "demo_isl 2 3 False" "[]" "demo_sl 3 2 True" "[]"]
      l(2) sk by (simp add: List.map_filter_def)
  ultimately show ?thesis by (simp add: Let_def demo_isl_def demo_sl_def satcom_active_def)
qed


lemma activated_link_wired_twice_witness:
  "\<exists>l2. dict_get (tp_links (add_link_interfaces {''Sat2'', ''Sat3''} (assign_interfaces_to_nodes demo_topology)))
       {''Sat2'', ''Sat3''} = Some l2 \<and> map if_name (lk_ifaces l2) = [''Sat2.3'', ''Sat3.2'', ''Sat2.3'', ''Sat3.2'']"
proof -
  have l: "dict_ok (tp_links demo_topology)" "dict_get (tp_links demo_topology) {''Sat2'', ''Sat3''} = Some (demo_isl 2 3 False)"
    "lk_ifaces (demo_isl 2 3 False) = []" "get_names (demo_isl 2 3 False) = (''Sat2.3'', ''Sat3.2'')"
    by (simp_all add: demo_topology_def doubleton_eq_iff demo_isl_def new_link_def get_names_def node_ref_def demo_sat_def
        node_name_def demo_dec)
  show ?thesis using activated_link_wired_twice [OF l(1-3)] l(4) by auto
qed

lemma link_interfaces_addressed_witness:
  "\<exists>tp'. build_interfaces_from_link True {''Sat1'', ''Sat2''} demo_topology = (None, tp')"
proof -
  have l: "dict_get (tp_links demo_topology) {''Sat1'', ''Sat2''} = Some (demo_isl 1 2 True)" "nt_status demo_topology"
    "lk_source (demo_isl 1 2 True) = \<lparr>nr_name = node_name ''Satellite'' 1, nr_id = int 1, nr_type = ''Satellite''\<rparr>"
    "lk_target (demo_isl 1 2 True) = \<lparr>nr_name = node_name ''Satellite'' 2, nr_id = int 2, nr_type = ''Satellite''\<rparr>"
    by (simp_all add: demo_topology_def doubleton_eq_iff demo_isl_def node_ref_def demo_sat_def)
  show ?thesis using link_interfaces_addressed [OF l] by auto
qed

end
