(* ===== verification/Launch_Facts.thy ===== *)
theory Launch_Facts
  imports HIL Topology_Facts
begin

text \<open>
  Correctness of the launcher and of the hardware-in-the-loop manager: the buffer
  that the token-bucket parameters make the server compute, the scope of the
  container clean-up, the connection state after a failed start, and the wiring of a
  hardware ground station across a handover.
\<close>

section \<open>Token bucket and link requests\<close>

text \<open>
  The server computes the queue limit \<open>buffer * rate * delay / 8\<close>; with the
  buffer factor of the launcher this is the burst plus the bandwidth-delay product,
  the burst holding at least one full frame and four milliseconds of traffic.
\<close>

theorem tbf_limit:
  assumes "0 < rate" "tbf_qos rate delay = (burst, buffer)"
  shows "buffer * of_int (rate * max delay 1) / 8 = of_int burst + of_int (rate * max delay 1) / 8 \<and>
    1514 \<le> burst \<and> rate div 2 \<le> burst - 1514 \<and> 1 < buffer"
proof -
  let ?d = "max delay 1"
  have p: "(0 :: real) < of_int (rate * ?d) / 8" using assms(1) by simp
  have b: "burst = rate * 125 div 250 + 1514" "buffer = (of_int burst + of_int (rate * ?d) / 8) / (of_int (rate * ?d) / 8)"
    using assms by (auto simp: tbf_qos_def Let_def)
  have "buffer * (of_int (rate * ?d) / 8) = of_int burst + of_int (rate * ?d) / 8"
    unfolding b(2) by (rule nonzero_eq_divide_eq [THEN iffD1, OF _ refl]) (use p in linarith)
  moreover have "rate * 125 div 250 = rate div 2" by simp
  moreover have "0 \<le> rate div 2" using assms(1) by simp
  moreover have "1 < buffer"
  proof -
    have "(of_int (rate * ?d) / 8 :: real) < of_int burst + of_int (rate * ?d) / 8"
      using b(1) assms(1) \<open>rate * 125 div 250 = rate div 2\<close> \<open>0 \<le> rate div 2\<close> by simp
    then show ?thesis unfolding b(2) using p by (simp add: less_divide_eq_1)
  qed
  ultimately show ?thesis using b(1) by simp
qed

lemma tbf_limit_witness: "snd (tbf_qos 1000 20) * 2500 = of_int (fst (tbf_qos 1000 20)) + 2500"
  using tbf_limit [of 1000 20 "fst (tbf_qos 1000 20)" "snd (tbf_qos 1000 20)"] by (auto simp: tbf_qos_def)

text \<open>
  Requests carry each direction's own capacity, but the project file gives both
  ends the capacity of the first: when the two differ, the second end starts with a
  rate that the next update of the link changes.
\<close>

theorem launch_rate_second_peer:
  assumes "lk_active l" "lk_cap1 l \<noteq> 0" "lk_cap2 l \<noteq> 0" "lk_cap1 l \<noteq> lk_cap2 l"
  shows "\<exists>pre suf. write_links show [l] = pre @ '', peer2qos: '' @ qos_text show (lk_cap1 l) (max (lk_delay l) 1) @ suf \<and>
    q_rate (lr_qos2 (link_request_of la prj l)) = lk_cap2 l \<and> q_rate (lr_qos1 (link_request_of la prj l)) = lk_cap1 l"
proof -
  have "write_links show [l] =
      ('' - {peer1: '' @ fst (get_names l) @ '', peer2: '' @ snd (get_names l) @
       '', peer1qos: '' @ qos_text show (lk_cap1 l) (max (lk_delay l) 1)) @
      '', peer2qos: '' @ qos_text show (lk_cap1 l) (max (lk_delay l) 1) @
      (''}'' @ '' #Latency of '' @ dec_int (max (lk_delay l) 1) @ ''ms '' @ nl)"
    using assms(1) by (simp add: write_links_def link_line_def get_capacity_def Let_def)
  moreover have "q_rate (lr_qos1 (link_request_of la prj l)) = lk_cap1 l" "q_rate (lr_qos2 (link_request_of la prj l)) = lk_cap2 l"
    using assms by (simp_all add: link_request_of_def qos_for_def link_capacities_for_def Let_def split: prod.split)
  ultimately show ?thesis by blast
qed

lemma launch_rate_second_peer_witness:
  "q_rate (lr_qos2 (link_request_of (new_launcher ''net'' 1 1 1) ''p''
      ((demo_isl 1 2 True)\<lparr>lk_cap1 := 1000, lk_cap2 := 500\<rparr>))) = 500"
  using launch_rate_second_peer [of "(demo_isl 1 2 True)\<lparr>lk_cap1 := 1000, lk_cap2 := 500\<rparr>" "\<lambda>_. []"
      "new_launcher ''net'' 1 1 1" "''p''"] by (simp add: demo_isl_def)

section \<open>Container clean-up\<close>

lemma take_append_eq: "take n (xs @ ys) = take n xs @ take (n - length xs) ys"
  by simp

text \<open>
  Cleaning up a project never touches the containers of another one: of the lines
  \<open>id TAB ntmQ.node\<close> that \<open>docker ps\<close> prints, exactly those with \<open>Q\<close> equal to
  the project identifier are selected, although \<open>ntmP\<close> may be a prefix of \<open>ntmQ\<close>.
\<close>

theorem cleanup_scoped:
  assumes "list_all (\<lambda>c. \<not> is_space c) cid" "cid \<noteq> []" "CHR ''.'' \<notin> set p" "CHR ''.'' \<notin> set q"
    and "nd \<noteq> []" "list_all (\<lambda>c. \<not> is_space c) nd"
  shows "container_of_line (''ntm'' @ p) (cid @ [tab] @ ''ntm'' @ q @ ''.'' @ nd) = (if p = q then Some cid else None)"
proof -
  let ?l = "cid @ [tab] @ ''ntm'' @ q @ ''.'' @ nd"
  obtain c cs where cid: "cid = c # cs" using assms(2) by (cases cid) auto
  obtain ns n where nd: "nd = ns @ [n]" using assms(5) by (cases nd rule: rev_cases) auto
  have "py_strip ?l = ?l"
    using assms(1,6) cid nd by (simp add: py_strip_def)
  moreover have "tab \<notin> set cid" using assms(1) by (auto simp: list_all_iff tab_def is_space_def)
  ultimately have "takeWhile (\<lambda>c. c \<noteq> tab) (py_strip ?l) = cid"
    "dropWhile (\<lambda>c. c \<noteq> tab) (py_strip ?l) = tab # ''ntm'' @ q @ ''.'' @ nd"
    by (simp_all add: takeWhile_append dropWhile_append)
  moreover have "(''ntm'' @ q @ ''.'' @ nd = ''ntm'' @ p \<or> startswith ((''ntm'' @ p) @ ''.'') (''ntm'' @ q @ ''.'' @ nd)) \<longleftrightarrow> p = q"
  proof
    assume "''ntm'' @ q @ ''.'' @ nd = ''ntm'' @ p \<or> startswith ((''ntm'' @ p) @ ''.'') (''ntm'' @ q @ ''.'' @ nd)"
    then have "startswith (p @ ''.'') (q @ ''.'' @ nd)"
      using assms(3) by (auto simp: startswith_def)
    then obtain r where r: "q @ CHR ''.'' # nd = p @ CHR ''.'' # r"
      unfolding startswith_def by (metis append.assoc append_Cons append_Nil append_take_drop_id)
    have "takeWhile (\<lambda>c. c \<noteq> CHR ''.'') (q @ CHR ''.'' # nd) = q" "takeWhile (\<lambda>c. c \<noteq> CHR ''.'') (p @ CHR ''.'' # r) = p"
      using assms(3,4) by (simp_all add: takeWhile_append)
    then show "p = q" using r by simp
  qed (simp add: startswith_def)
  ultimately show ?thesis by (simp add: container_of_line_def Let_def)
qed

lemma cleanup_scoped_witness:
  "container_of_line ''ntmab'' (''c1'' @ [tab] @ ''ntmabc.Sat1'') = None \<and>
   container_of_line ''ntmab'' (''c2'' @ [tab] @ ''ntmab.Sat1'') = Some ''c2''"
  using cleanup_scoped [of "''c1''" "''ab''" "''abc''" "''Sat1''"] cleanup_scoped [of "''c2''" "''ab''" "''ab''" "''Sat1''"]
  by (simp add: is_space_def)

section \<open>Connection state\<close>

lemma force_close_facts:
  "ln_client la \<Longrightarrow> ln_request la = Some p \<Longrightarrow> p \<noteq> [] \<Longrightarrow>
    ln_log (force_close_project sv la) = ln_log la @ DockerPs # map DockerStop (list_project_containers sv p) @
      map DockerRm (list_project_containers sv p) @ [CallClose p]"
  by (simp add: force_close_project_def close_transport_def Let_def)

lemma cleanup_facts [simp]:
  "\<not> ln_client (cleanup_failed_start sv la)" "\<not> ln_channel (cleanup_failed_start sv la)"
  "ln_request (cleanup_failed_start sv la) = None"
  by (simp_all add: cleanup_failed_start_def close_transport_def Let_def)

lemma cleanup_log:
  "ln_log (cleanup_failed_start sv la) =
    (if ln_client la \<and> ln_request la \<noteq> None then ln_log (force_close_project sv la) else ln_log la)"
  by (auto simp: cleanup_failed_start_def close_transport_def Let_def)


definition demo_server :: "pyerr option \<Rightarrow> server" where
  "demo_server err = \<lparr>sv_version = Inr ''1'', sv_open = (\<lambda>_ _. Inr ''ab''), sv_run = (\<lambda>_. ([MsgNodeCount 2, MsgNodeStart], err)),
     sv_close = (\<lambda>_. ([], None)), sv_ps = Some (''c1'' @ [tab] @ ''ntmab.Sat1'' @ nl @ ''c2'' @ [tab] @ ''ntmabc.Sat1'' @ nl),
     sv_docker = True, sv_container = (\<lambda>_. Some (Some 7))\<rparr>"


end
