(* ===== verification/HIL_Facts.thy ===== *)
theory HIL_Facts
  imports HIL Launch_Facts
begin

text \<open>
  Correctness of the hardware-in-the-loop manager. Its own bookkeeping is right for
  every kernel. How it wires a hardware ground station is shown for every kernel that
  behaves as \<open>host_do\<close> describes (locale \<open>linux_host\<close>): an interface name exists once
  in the host namespace and once in a container's, deleting a bridge releases its
  members, and deleting one end of a veth pair deletes the other.
\<close>

section \<open>The host\<close>

record host =
  ho_ifaces :: "string set"
  ho_master :: "string \<Rightarrow> string option"
  ho_sat :: "int \<times> string \<Rightarrow> string option"

fun host_do :: "kcmd \<Rightarrow> host \<Rightarrow> bool \<times> host" where
  "host_do (EnterNamespace p) k = (True, k)"
| "host_do (AddVeth p s h) k = (if h \<in> ho_ifaces k \<or> ho_sat k (p, s) \<noteq> None then (False, k)
     else (True, k\<lparr>ho_ifaces := insert h (ho_ifaces k), ho_sat := (ho_sat k)((p, s) := Some h)\<rparr>))"
| "host_do (SatUp p s) k = (ho_sat k (p, s) \<noteq> None, k)"
| "host_do (HostUp i) k = (i \<in> ho_ifaces k, k)"
| "host_do (AddBridge b) k = (if b \<in> ho_ifaces k then (False, k) else (True, k\<lparr>ho_ifaces := insert b (ho_ifaces k)\<rparr>))"
| "host_do (SetMaster i b) k = (if i \<in> ho_ifaces k \<and> b \<in> ho_ifaces k
     then (True, k\<lparr>ho_master := (ho_master k)(i := Some b)\<rparr>) else (False, k))"
| "host_do (DelBridge b) k = (if b \<in> ho_ifaces k
     then (True, k\<lparr>ho_ifaces := ho_ifaces k - {b}, ho_master := (\<lambda>i. if ho_master k i = Some b then None else ho_master k i)\<rparr>)
     else (False, k))"
| "host_do (DelSatIface p s) k = (case ho_sat k (p, s) of None \<Rightarrow> (False, k)
     | Some h \<Rightarrow> (True, k\<lparr>ho_ifaces := ho_ifaces k - {h}, ho_sat := (ho_sat k)((p, s) := None),
                         ho_master := (ho_master k)(h := None)\<rparr>))"
| "host_do (TcBatch p cs) k = (True, k)"

section \<open>Bookkeeping\<close>

text \<open>Every active bridge has its veth, both named by the identifier in the ground station's name.\<close>

definition hil_inv :: "hil \<Rightarrow> bool" where
  "hil_inv h \<longleftrightarrow> dict_keys (hm_bridges h) = dict_keys (hm_veths h) \<and> dict_ok (hm_bridges h) \<and>
     (\<forall>nm b. dict_get (hm_bridges h) nm = Some b \<longrightarrow> dict_get (hm_map h) nm \<noteq> None \<and> b \<noteq> [] \<and>
        (\<exists>i. b = bridge_name i \<and> dict_get (hm_veths h) nm = Some (host_iface i)))"

lemma dict_keys_pop_map: "dict_keys (dict_pop k d) = filter (\<lambda>x. x \<noteq> k) (dict_keys d)"
  by (induction d) auto

lemma dict_keys_set_eq: "dict_keys d = dict_keys e \<Longrightarrow> dict_keys (dict_set k v d) = dict_keys (dict_set k w e)"
proof (induction d arbitrary: e)
  case (Cons p d)
  then show ?case by (cases e; cases p) auto
qed simp

lemma teardown_bridge_frame:
  "hm_map (fst (teardown_bridge kdo nm (h, k))) = hm_map h"
  "hm_bridges (fst (teardown_bridge kdo nm (h, k))) = dict_pop nm (hm_bridges h)"
  "hm_veths (fst (teardown_bridge kdo nm (h, k))) = dict_pop nm (hm_veths h)"
  by (auto simp: teardown_bridge_def Let_def split: option.splits)

lemma teardown_bridge_inv: "hil_inv h \<Longrightarrow> hil_inv (fst (teardown_bridge kdo nm (h, k)))"
  unfolding hil_inv_def teardown_bridge_frame by (auto simp: dict_keys_pop_map)

lemma create_bridge_cases:
  assumes "create_bridge kdo g (h, k) = (ok, h', k')"
  shows "if ok then dict_get (hm_map h) (nr_name g) \<noteq> None \<and>
      h' = h\<lparr>hm_bridges := dict_set (nr_name g) (bridge_name (nr_id g)) (hm_bridges h),
             hm_veths := dict_set (nr_name g) (host_iface (nr_id g)) (hm_veths h)\<rparr> else h' = h"
  using assms by (auto simp: create_bridge_def Let_def split: option.splits prod.splits if_splits)

lemma create_bridge_inv: "hil_inv h \<Longrightarrow> create_bridge kdo g (h, k) = (ok, h', k') \<Longrightarrow> hil_inv h'"
proof -
  assume i: "hil_inv h" and c: "create_bridge kdo g (h, k) = (ok, h', k')"
  show "hil_inv h'"
  proof (cases ok)
    case True
    have "dict_keys (dict_set (nr_name g) b (hm_bridges h)) = dict_keys (dict_set (nr_name g) v (hm_veths h))" for b v
      using i by (intro dict_keys_set_eq) (simp add: hil_inv_def)
    moreover have "bridge_name i \<noteq> []" for i by (simp add: bridge_name_def)
    ultimately show ?thesis using create_bridge_cases [OF c] True i by (auto simp: hil_inv_def)
  qed (use create_bridge_cases [OF c] i in simp)
qed

lemma setup_link_inv: "hil_inv h \<Longrightarrow> hil_inv (fst (setup_link kdo pid_of l (h, k)))"
  by (auto simp: setup_link_def Let_def split: option.splits prod.splits if_splits dest: create_bridge_inv)

lemma teardown_link_fst: "fst (teardown_link kdo pid_of l (h, k)) = fst (teardown_bridge kdo (nr_name (get_hil_gnd h l)) (h, k))"
  by (auto simp: teardown_link_def Let_def split: option.splits prod.splits)

lemma teardown_link_inv: "hil_inv h \<Longrightarrow> hil_inv (fst (teardown_link kdo pid_of l (h, k)))"
  unfolding teardown_link_fst by (rule teardown_bridge_inv)

lemma hil_update_fst: "fst (hil_update_link kdo pid_of l (h, k)) = h"
  by (auto simp: hil_update_link_def split: option.splits)

lemma teardown_all_fold:
  "hm_bridges (fst (foldl (\<lambda>s nm. teardown_bridge kdo nm s) st ns)) = filter (\<lambda>(k, v). k \<notin> set ns) (hm_bridges (fst st)) \<and>
   hm_veths (fst (foldl (\<lambda>s nm. teardown_bridge kdo nm s) st ns)) = filter (\<lambda>(k, v). k \<notin> set ns) (hm_veths (fst st))"
proof (induction ns arbitrary: st)
  case (Cons n ns)
  have pop: "dict_pop n d = filter (\<lambda>(k, v). k \<noteq> n) d" for d :: "(string, string) dict"
    by (induction d) auto
  have f: "hm_bridges (fst (teardown_bridge kdo n st)) = filter (\<lambda>(k, v). k \<noteq> n) (hm_bridges (fst st))"
    "hm_veths (fst (teardown_bridge kdo n st)) = filter (\<lambda>(k, v). k \<noteq> n) (hm_veths (fst st))"
    using teardown_bridge_frame [of kdo n "fst st" "snd st"] by (simp_all add: pop)
  show ?case using Cons.IH [of "teardown_bridge kdo n st"] unfolding foldl_Cons f
    by (simp add: filter_filter case_prod_unfold conj_commute)
qed simp

lemma teardown_all_empty:
  assumes "hil_inv h"
  shows "hm_bridges (fst (teardown_all kdo (h, k))) = [] \<and> hm_veths (fst (teardown_all kdo (h, k))) = []"
proof -
  have "filter (\<lambda>(k, v). k \<notin> set (dict_keys (hm_bridges h))) (hm_bridges h) = []"
    by (auto simp: filter_empty_conv image_iff)
  moreover have "filter (\<lambda>(k, v). k \<notin> set (dict_keys (hm_bridges h))) (hm_veths h) = []"
    using assms by (auto simp: filter_empty_conv hil_inv_def intro: fst_in_keys)
  ultimately show ?thesis using teardown_all_fold [of kdo "(h, k)" "dict_keys (hm_bridges h)"] by (simp add: teardown_all_def)
qed

lemma teardown_all_inv: "hil_inv h \<Longrightarrow> hil_inv (fst (teardown_all kdo (h, k)))"
  by (drule teardown_all_empty [of h kdo k]) (simp add: hil_inv_def)

lemma wire_links_inv: "hil_inv (fst st) \<Longrightarrow> hil_inv (fst (wire_links kdo pid_of ls st))"
proof (induction ls arbitrary: st)
  case (Cons l ls)
  then show ?case using setup_link_inv [of "fst st" kdo pid_of l "snd st"] by (simp add: wire_links_def)
qed (simp add: wire_links_def)

lemma new_hil_inv [simp]: "hil_inv (new_hil hw cap)"
  by (simp add: hil_inv_def new_hil_def)

text \<open>The steps of the emulator on its hardware-in-the-loop part.\<close>

inductive hil_step :: "'k kernel \<Rightarrow> (string \<Rightarrow> int option) \<Rightarrow> hil \<times> 'k \<Rightarrow> hil \<times> 'k \<Rightarrow> bool" for kdo pid_of where
  hil_setup: "hil_step kdo pid_of st (setup_link kdo pid_of l st)"
| hil_teardown: "hil_step kdo pid_of st (teardown_link kdo pid_of l st)"
| hil_update: "hil_step kdo pid_of st (hil_update_link kdo pid_of l st)"
| hil_kernel: "hil_step kdo pid_of (h, k) (h, k')" \<comment> \<open>the host changes by itself\<close>

inductive hil_reachable :: "'k kernel \<Rightarrow> (string \<Rightarrow> int option) \<Rightarrow> (string, string) dict \<Rightarrow> int \<Rightarrow> hil \<times> 'k \<Rightarrow> bool"
  for kdo pid_of hw cap where
  hil_new: "hil_reachable kdo pid_of hw cap (new_hil hw cap, k)"
| hil_next: "hil_reachable kdo pid_of hw cap st \<Longrightarrow> hil_step kdo pid_of st st' \<Longrightarrow> hil_reachable kdo pid_of hw cap st'"

lemma hil_step_inv: "hil_step kdo pid_of st st' \<Longrightarrow> hil_inv (fst st) \<Longrightarrow> hil_inv (fst st')"
proof (induction rule: hil_step.induct)
  case (hil_setup st l)
  then show ?case using setup_link_inv [of "fst st" kdo pid_of l "snd st"] by simp
next
  case (hil_teardown st l)
  then show ?case using teardown_link_inv [of "fst st" kdo pid_of l "snd st"] by simp
next
  case (hil_update st l)
  then show ?case using hil_update_fst [of kdo pid_of l "fst st" "snd st"] by simp
qed simp

lemma hil_reachable_inv: "hil_reachable kdo pid_of hw cap st \<Longrightarrow> hil_inv (fst st)"
proof (induction rule: hil_reachable.induct)
  case (hil_new k)
  show ?case by (simp add: hil_inv_def new_hil_def)
qed (rule hil_step_inv)

text \<open>
  \<^bold>\<open>C11.\<close> Whatever links are set up, torn down and updated in whatever order, and
  however the host behaves, the manager's two tables describe the same ground
  stations, each with the bridge and veth of one identifier, and tearing everything
  down empties both.
\<close>

theorem hil_tables_agree:
  assumes "hil_reachable kdo pid_of hw cap (h, k)"
  shows "hil_inv h \<and> hm_bridges (fst (teardown_all kdo (h, k))) = [] \<and> hm_veths (fst (teardown_all kdo (h, k))) = []"
  using hil_reachable_inv [OF assms] teardown_all_empty [of h kdo k] by simp

lemma hil_tables_agree_witness:
  "hil_inv (fst (setup_link host_do (\<lambda>_. Some 7) (demo_isl 1 2 True) (new_hil [(''Sat2'', ''eth1'')] 1000,
     \<lparr>ho_ifaces = {''eth1''}, ho_master = (\<lambda>_. None), ho_sat = (\<lambda>_. None)\<rparr>)))"
  (is "hil_inv (fst (setup_link host_do ?p ?l ?s))")
proof -
  have "hil_reachable host_do ?p [(''Sat2'', ''eth1'')] 1000 (setup_link host_do ?p ?l ?s)"
    by (rule hil_next [OF hil_new hil_setup])
  then show ?thesis using hil_tables_agree [of host_do ?p _ _ "fst (setup_link host_do ?p ?l ?s)" "snd (setup_link host_do ?p ?l ?s)"] by auto
qed

section \<open>Handover\<close>

locale linux_host =
  fixes kdo :: "'k kernel" and view :: "'k \<Rightarrow> host"
  assumes outcome: "fst (kdo c k) = fst (host_do c (view k))"
    and change: "view (snd (kdo c k)) = snd (host_do c (view k))"
begin

lemma run_view: "fst (run_kernel kdo cs k) = fst (run_kernel host_do cs (view k))"
  "view (snd (run_kernel kdo cs k)) = snd (run_kernel host_do cs (view k))"
proof (induction cs arbitrary: k)
  case (Cons c cs)
  { case 1 show ?case using Cons(1) [of "snd (kdo c k)"] change [of c k] outcome [of c k]
      by (simp add: case_prod_unfold Let_def) }
  { case 2 show ?case using Cons(2) [of "snd (kdo c k)"] change [of c k] outcome [of c k]
      by (simp add: case_prod_unfold Let_def) }
qed simp_all

lemma create_veth_view: "fst (create_veth kdo p i k) = fst (create_veth host_do p i (view k))"
  "view (snd (create_veth kdo p i k)) = snd (create_veth host_do p i (view k))"
  unfolding create_veth_def by (rule run_view)+

lemma create_bridge_view:
  "fst (create_bridge kdo g (h, k)) = fst (create_bridge host_do g (h, view k))"
  "fst (snd (create_bridge kdo g (h, k))) = fst (snd (create_bridge host_do g (h, view k)))"
  "view (snd (snd (create_bridge kdo g (h, k)))) = snd (snd (create_bridge host_do g (h, view k)))"
  using run_view [of "[AddBridge (bridge_name (nr_id g)), HostUp (bridge_name (nr_id g)), SetMaster (host_iface (nr_id g)) (bridge_name (nr_id g)),
    SetMaster hw (bridge_name (nr_id g)), HostUp hw]" k for hw]
  by (auto simp: create_bridge_def Let_def case_prod_unfold simp del: run_kernel.simps split: option.splits)

lemma setup_view: "fst (setup_link kdo pid_of l (h, k)) = fst (setup_link host_do pid_of l (h, view k))"
  "view (snd (setup_link kdo pid_of l (h, k))) = snd (setup_link host_do pid_of l (h, view k))"
  using create_veth_view create_bridge_view change
  by (auto simp: setup_link_def Let_def case_prod_unfold apply_qos_def split: option.splits)

lemma teardown_view: "fst (teardown_link kdo pid_of l (h, k)) = fst (teardown_link host_do pid_of l (h, view k))"
  "view (snd (teardown_link kdo pid_of l (h, k))) = snd (teardown_link host_do pid_of l (h, view k))"
  using change
  by (auto simp: teardown_link_def teardown_bridge_def delete_sat_veth_def Let_def case_prod_unfold split: option.splits)

definition seen :: "hil \<times> 'k \<Rightarrow> hil \<times> host" where
  "seen st = (fst st, view (snd st))"

lemma seen_setup: "seen (setup_link kdo pid_of l st) = setup_link host_do pid_of l (seen st)"
  using setup_view [of pid_of l "fst st" "snd st"] by (simp add: seen_def prod_eq_iff)

lemma seen_teardown: "seen (teardown_link kdo pid_of l st) = teardown_link host_do pid_of l (seen st)"
  using teardown_view [of pid_of l "fst st" "snd st"] by (simp add: seen_def prod_eq_iff)

end

text \<open>The reference host is itself such a kernel.\<close>

interpretation ref_host: linux_host host_do "\<lambda>k. k"
  by unfold_locales simp_all

text \<open>
  A hardware ground station that is not connected: nothing of its name exists yet; and
  one that is connected to the satellite whose container has the pid \<open>p\<close>.
\<close>

definition hil_ready :: "hil \<Rightarrow> host \<Rightarrow> nref \<Rightarrow> string \<Rightarrow> bool" where
  "hil_ready h a g hw \<longleftrightarrow> dict_get (hm_map h) (nr_name g) = Some hw \<and> dict_get (hm_bridges h) (nr_name g) = None \<and>
     hw \<in> ho_ifaces a \<and> ho_master a hw = None \<and> hw \<noteq> host_iface (nr_id g) \<and> hw \<noteq> bridge_name (nr_id g) \<and>
     bridge_name (nr_id g) \<notin> ho_ifaces a \<and> host_iface (nr_id g) \<notin> ho_ifaces a \<and>
     (\<forall>p. ho_sat a (p, sat_iface (nr_id g)) = None)"

definition hil_wired :: "hil \<Rightarrow> host \<Rightarrow> nref \<Rightarrow> string \<Rightarrow> int \<Rightarrow> bool" where
  "hil_wired h a g hw p \<longleftrightarrow> dict_get (hm_map h) (nr_name g) = Some hw \<and>
     dict_get (hm_bridges h) (nr_name g) = Some (bridge_name (nr_id g)) \<and>
     hw \<in> ho_ifaces a \<and> hw \<noteq> host_iface (nr_id g) \<and> hw \<noteq> bridge_name (nr_id g) \<and>
     bridge_name (nr_id g) \<in> ho_ifaces a \<and> host_iface (nr_id g) \<in> ho_ifaces a \<and>
     ho_master a hw = Some (bridge_name (nr_id g)) \<and> ho_master a (host_iface (nr_id g)) = Some (bridge_name (nr_id g)) \<and>
     ho_sat a = (\<lambda>x. if x = (p, sat_iface (nr_id g)) then Some (host_iface (nr_id g))
                    else if snd x = sat_iface (nr_id g) then None else ho_sat a x)"

lemma bridge_not_host [simp]: "bridge_name i \<noteq> host_iface j" "host_iface j \<noteq> bridge_name i"
  by (simp_all add: bridge_name_def host_iface_def)

lemma setup_link_wires:
  assumes "hil_ready h a g hw" "get_hil_gnd h l = g" "live_pid pid_of (get_sat h l) = Some p"
  shows "hil_wired (fst (setup_link host_do pid_of l (h, a))) (snd (setup_link host_do pid_of l (h, a))) g hw p"
  using assms
  by (auto simp: setup_link_def create_veth_def create_bridge_def hil_ready_def hil_wired_def Let_def apply_qos_def fun_eq_iff)

lemma teardown_link_frees:
  assumes "hil_wired h a g hw p" "get_hil_gnd h l = g" "live_pid pid_of (get_sat h l) = Some p"
  shows "hil_ready (fst (teardown_link host_do pid_of l (h, a))) (snd (teardown_link host_do pid_of l (h, a))) g hw"
proof -
  have b: "bridge_name i \<noteq> []" for i by (simp add: bridge_name_def)
  have s: "ho_sat a (p, sat_iface (nr_id g)) = Some (host_iface (nr_id g))"
    "\<And>q. q \<noteq> p \<Longrightarrow> ho_sat a (q, sat_iface (nr_id g)) = None"
    using assms(1) unfolding hil_wired_def by (metis fst_conv snd_conv)+
  show ?thesis using assms s b
    by (auto simp: teardown_link_def teardown_bridge_def delete_sat_veth_def hil_ready_def hil_wired_def Let_def)
qed

lemma setup_link_blocked:
  assumes "hil_wired h a g hw p" "get_hil_gnd h l = g" "live_pid pid_of (get_sat h l) = Some q" "q \<noteq> p"
  shows "setup_link host_do pid_of l (h, a) = (h, a)"
  using assms by (auto simp: setup_link_def create_veth_def hil_wired_def Let_def)

lemma hm_map_frame: "hm_map (fst (setup_link kdo pid_of l (h, k))) = hm_map h"
  "hm_map (fst (teardown_link kdo pid_of l (h, k))) = hm_map h"
  unfolding teardown_link_fst teardown_bridge_frame
  by (auto simp: setup_link_def Let_def split: option.splits prod.splits if_splits dest!: create_bridge_cases)

lemma hil_ends_frame: "hm_map h' = hm_map h \<Longrightarrow> get_hil_gnd h' l = get_hil_gnd h l \<and> get_sat h' l = get_sat h l"
  by (simp add: get_hil_gnd_def get_sat_def is_hil_node_def)

text \<open>
  \<^bold>\<open>C10.\<close> On a handover of a hardware ground station from one satellite to another,
  deleting the old link before adding the new one connects the hardware to the new
  satellite only. In the other order the new link cannot be set up and the deletion of
  the old one leaves the hardware connected to nothing.
\<close>

theorem hil_handover:
  assumes "linux_host kdo view" "hil_ready h (view k) g hw"
    and "get_hil_gnd h l1 = g" "get_hil_gnd h l2 = g"
    and "live_pid pid_of (get_sat h l1) = Some p1" "live_pid pid_of (get_sat h l2) = Some p2" "p1 \<noteq> p2"
  defines "st1 \<equiv> setup_link kdo pid_of l1 (h, k)"
  defines "good \<equiv> setup_link kdo pid_of l2 (teardown_link kdo pid_of l1 st1)"
  defines "bad \<equiv> teardown_link kdo pid_of l1 (setup_link kdo pid_of l2 st1)"
  shows "hil_wired (fst st1) (view (snd st1)) g hw p1 \<and> hil_wired (fst good) (view (snd good)) g hw p2 \<and>
    hil_ready (fst bad) (view (snd bad)) g hw"
proof -
  note seen = linux_host.seen_setup [OF assms(1)] linux_host.seen_teardown [OF assms(1)]
  define a1 where "a1 = setup_link host_do pid_of l1 (h, view k)"
  have e: "linux_host.seen view st1 = a1"
    "linux_host.seen view good = setup_link host_do pid_of l2 (teardown_link host_do pid_of l1 a1)"
    "linux_host.seen view bad = teardown_link host_do pid_of l1 (setup_link host_do pid_of l2 a1)"
    using assms(1) by (simp_all add: st1_def good_def bad_def seen a1_def linux_host.seen_def)
  have w1: "hil_wired (fst a1) (snd a1) g hw p1" unfolding a1_def by (rule setup_link_wires [OF assms(2,3,5)])
  have m1: "hm_map (fst a1) = hm_map h" by (simp add: a1_def hm_map_frame)
  note f1 = hil_ends_frame [OF m1]
  have r: "hil_ready (fst (teardown_link host_do pid_of l1 a1)) (snd (teardown_link host_do pid_of l1 a1)) g hw"
    using teardown_link_frees [OF w1, of l1 pid_of] assms(3,5) f1 [of l1] by simp
  have "hm_map (fst (teardown_link host_do pid_of l1 a1)) = hm_map h"
    using hm_map_frame(2) [of host_do pid_of l1 "fst a1" "snd a1"] m1 by simp
  note f2 = hil_ends_frame [OF this]
  have w2: "hil_wired (fst (setup_link host_do pid_of l2 (teardown_link host_do pid_of l1 a1)))
      (snd (setup_link host_do pid_of l2 (teardown_link host_do pid_of l1 a1))) g hw p2"
    using setup_link_wires [OF r, of l2 pid_of p2] assms(4,6) f2 [of l2] by simp
  have S: "setup_link host_do pid_of l2 a1 = a1"
    using setup_link_blocked [OF w1, of l2 pid_of p2] assms(4,6,7) f1 [of l2] by simp
  have parts: "fst st = fst (linux_host.seen view st)" "view (snd st) = snd (linux_host.seen view st)" for st
    by (simp_all add: linux_host.seen_def [OF assms(1)])
  show ?thesis using w1 w2 r
    by (simp only: parts [of st1] parts [of good] parts [of bad] e S)
qed

lemma host_names: "dec_int 5 = ''5''"
  by code_simp

definition demo_gs_link :: "string \<Rightarrow> int \<Rightarrow> link" where
  "demo_gs_link sat i = (demo_isl 1 2 True)\<lparr>lk_type := ''GroundStationLink'',
     lk_source := \<lparr>nr_name = sat, nr_id = i, nr_type = ''Satellite''\<rparr>,
     lk_target := \<lparr>nr_name = ''Gnd5'', nr_id = 5, nr_type = ''GroundStation''\<rparr>\<rparr>"

definition demo_host :: host where
  "demo_host = \<lparr>ho_ifaces = {''eth1''}, ho_master = (\<lambda>_. None), ho_sat = (\<lambda>_. None)\<rparr>"

definition demo_hil :: hil where
  "demo_hil = new_hil [(''Gnd5'', ''eth1'')] 1000"

definition demo_pid :: "string \<Rightarrow> int option" where
  "demo_pid nm = (if nm = ''Sat1'' then Some 11 else Some 12)"

lemma demo_hil_facts:
  "hil_ready demo_hil demo_host \<lparr>nr_name = ''Gnd5'', nr_id = 5, nr_type = ''GroundStation''\<rparr> ''eth1''"
  "get_hil_gnd demo_hil (demo_gs_link s i) = \<lparr>nr_name = ''Gnd5'', nr_id = 5, nr_type = ''GroundStation''\<rparr>"
  "live_pid demo_pid (get_sat demo_hil (demo_gs_link ''Sat1'' 1)) = Some 11"
  "live_pid demo_pid (get_sat demo_hil (demo_gs_link ''Sat2'' 2)) = Some 12"
  by (simp_all add: hil_ready_def demo_hil_def new_hil_def demo_host_def bridge_name_def host_iface_def host_names
      get_hil_gnd_def get_sat_def is_hil_node_def demo_gs_link_def live_pid_def demo_pid_def)

lemma hil_handover_witness:
  "hil_wired (fst (setup_link host_do demo_pid (demo_gs_link ''Sat2'' 2) (teardown_link host_do demo_pid (demo_gs_link ''Sat1'' 1)
      (setup_link host_do demo_pid (demo_gs_link ''Sat1'' 1) (demo_hil, demo_host)))))
    (snd (setup_link host_do demo_pid (demo_gs_link ''Sat2'' 2) (teardown_link host_do demo_pid (demo_gs_link ''Sat1'' 1)
      (setup_link host_do demo_pid (demo_gs_link ''Sat1'' 1) (demo_hil, demo_host)))))
    \<lparr>nr_name = ''Gnd5'', nr_id = 5, nr_type = ''GroundStation''\<rparr> ''eth1'' 12"
  using hil_handover [OF ref_host.linux_host_axioms demo_hil_facts(1,2,2,3,4)] by simp

text \<open>
  When the hardware interface is missing while its link is set up, the bridge
  that was already created is recorded nowhere: tearing the link down leaves it on the
  host, and after the interface appears every later set-up of the ground station fails.
\<close>

theorem hil_bridge_leak:
  assumes "linux_host kdo view" "hil_ready h (view k\<lparr>ho_ifaces := insert hw (ho_ifaces (view k))\<rparr>) g hw" "hw \<notin> ho_ifaces (view k)"
    and "get_hil_gnd h l = g" "live_pid pid_of (get_sat h l) = Some p"
  defines "st \<equiv> teardown_link kdo pid_of l (setup_link kdo pid_of l (h, k))"
  shows "bridge_name (nr_id g) \<in> ho_ifaces (view (snd st)) \<and>
    (\<forall>k'. view k' = view (snd st)\<lparr>ho_ifaces := insert hw (ho_ifaces (view (snd st)))\<rparr> \<longrightarrow>
      dict_get (hm_bridges (fst (setup_link kdo pid_of l (fst st, k')))) (nr_name g) = None \<and>
      ho_master (view (snd (setup_link kdo pid_of l (fst st, k')))) hw = None)"
proof -
  note v = linux_host.setup_view [OF assms(1)]
  have seen: "fst st = fst (teardown_link host_do pid_of l (setup_link host_do pid_of l (h, view k)))"
    "view (snd st) = snd (teardown_link host_do pid_of l (setup_link host_do pid_of l (h, view k)))"
    using linux_host.seen_teardown [OF assms(1), of pid_of l "setup_link kdo pid_of l (h, k)"]
      linux_host.seen_setup [OF assms(1), of pid_of l "(h, k)"]
    by (simp_all add: st_def linux_host.seen_def [OF assms(1)] prod_eq_iff)
  have ends: "get_hil_gnd h l = g" "live_pid pid_of (get_sat h l) = Some p" using assms(4,5) by simp_all
  have hw: "dict_get (hm_map h) (nr_name g) = Some hw" using assms(2) by (simp add: hil_ready_def)
  define a where "a = view k"
  have s1: "setup_link host_do pid_of l (h, a) =
      (h, a\<lparr>ho_ifaces := {bridge_name (nr_id g), host_iface (nr_id g)} \<union> ho_ifaces a,
           ho_sat := (ho_sat a)((p, sat_iface (nr_id g)) := Some (host_iface (nr_id g))),
           ho_master := (ho_master a)(host_iface (nr_id g) := Some (bridge_name (nr_id g)))\<rparr>)"
    using assms(2,3) ends hw
    by (auto simp: setup_link_def create_veth_def create_bridge_def hil_ready_def Let_def a_def [symmetric] fun_eq_iff)
  have s2: "fst st = h\<lparr>hm_bridges := dict_pop (nr_name g) (hm_bridges h), hm_veths := dict_pop (nr_name g) (hm_veths h)\<rparr>"
    "bridge_name (nr_id g) \<in> ho_ifaces (view (snd st))" "ho_master (view (snd st)) hw = None"
    "hw \<noteq> host_iface (nr_id g)"
    using assms(2,3) ends unfolding seen a_def [symmetric] s1
    by (auto simp: teardown_link_def teardown_bridge_def delete_sat_veth_def hil_ready_def Let_def a_def [symmetric])
  have m: "hm_map (fst st) = hm_map h" using s2(1) by simp
  note f = hil_ends_frame [OF m]
  have "dict_get (hm_bridges (fst (setup_link kdo pid_of l (fst st, k')))) (nr_name g) = None \<and>
      ho_master (view (snd (setup_link kdo pid_of l (fst st, k')))) hw = None"
    if k': "view k' = view (snd st)\<lparr>ho_ifaces := insert hw (ho_ifaces (view (snd st)))\<rparr>" for k'
    unfolding v k' using ends hw s2 f [of l] m
    by (auto simp: setup_link_def create_veth_def create_bridge_def Let_def)
  then show ?thesis using s2(2) by blast
qed

lemma hil_bridge_leak_witness:
  "''brhil5'' \<in> ho_ifaces (snd (teardown_link host_do demo_pid (demo_gs_link ''Sat1'' 1)
      (setup_link host_do demo_pid (demo_gs_link ''Sat1'' 1) (demo_hil, demo_host\<lparr>ho_ifaces := {}\<rparr>))))"
proof -
  let ?k = "demo_host\<lparr>ho_ifaces := {}\<rparr>"
  have "hil_ready demo_hil (?k\<lparr>ho_ifaces := insert ''eth1'' (ho_ifaces ?k)\<rparr>) \<lparr>nr_name = ''Gnd5'', nr_id = 5, nr_type = ''GroundStation''\<rparr> ''eth1''"
    using demo_hil_facts(1) by (simp add: demo_host_def)
  moreover have "''eth1'' \<notin> ho_ifaces ?k" by simp
  ultimately show ?thesis
    using hil_bridge_leak [OF ref_host.linux_host_axioms _ _ demo_hil_facts(2,3)]
    by (simp add: bridge_name_def host_names)
qed

end
