(* ===== verification/Containers.thy ===== *)
theory Containers
  imports Sat_Prelude
begin

text \<open>
  Running a command in the container of a node: \<open>_prepare_command\<close>,
  \<open>execute_command_docker\<close> and \<open>execute_command\<close> of \<open>models/node.py\<close>, with the
  part of \<open>shlex\<close> that they and the traffic tools use.

  The two ways into a container, \<open>NodeRun\<close> of the GoNetem server and \<open>exec_run\<close> of
  Docker, are fields of the parameter \<open>runtime\<close> over an arbitrary state \<open>'w\<close> of the
  emulated network; decoding of the output belongs to them. The text of an exception is
  reduced to its fixed part. The output of the last command is also kept by the node.
\<close>

section \<open>Shell words\<close>

text \<open>\<open>shlex.split\<close> in POSIX mode. A state is between words, in a word, in a quotation,
  or behind a backslash, where the state to return to is remembered. A word is started
  by \<open>Some\<close>, so that a quoted empty word counts.\<close>

datatype lex_state = LexBlank | LexWord | LexQuote char | LexEscape lex_state

abbreviation backslash :: char where
  "backslash \<equiv> CHR 0x5C"

abbreviation single_quote :: char where
  "single_quote \<equiv> CHR 0x27"

abbreviation double_quote :: char where
  "double_quote \<equiv> CHR 0x22"

definition lex_space :: "char \<Rightarrow> bool" where
  "lex_space c = (c \<in> {CHR 0x20, CHR 0x09, CHR 0x0D, CHR 0x0A})"

fun lex_from :: "lex_state \<Rightarrow> string option \<Rightarrow> string \<Rightarrow> string list result" where
  "lex_from LexBlank tok [] = Inr (case tok of None \<Rightarrow> [] | Some t \<Rightarrow> [t])"
| "lex_from LexWord tok [] = Inr (case tok of None \<Rightarrow> [] | Some t \<Rightarrow> [t])"
| "lex_from (LexQuote q) tok [] = Inl (ValueError ''No closing quotation'')"
| "lex_from (LexEscape s) tok [] = Inl (ValueError ''No escaped character'')"
| "lex_from LexBlank tok (c # cs) =
    (if lex_space c then lex_from LexBlank None cs
     else if c = backslash then lex_from (LexEscape LexWord) (Some []) cs
     else if c = single_quote \<or> c = double_quote then lex_from (LexQuote c) (Some []) cs
     else lex_from LexWord (Some [c]) cs)"
| "lex_from LexWord tok (c # cs) =
    (let t = (case tok of None \<Rightarrow> [] | Some t \<Rightarrow> t) in
     if lex_space c then rbind (lex_from LexBlank None cs) (\<lambda>ws. Inr (t # ws))
     else if c = backslash then lex_from (LexEscape LexWord) (Some t) cs
     else if c = single_quote \<or> c = double_quote then lex_from (LexQuote c) (Some t) cs
     else lex_from LexWord (Some (t @ [c])) cs)"
| "lex_from (LexQuote q) tok (c # cs) =
    (let t = (case tok of None \<Rightarrow> [] | Some t \<Rightarrow> t) in
     if c = q then lex_from LexWord (Some t) cs
     else if c = backslash \<and> q = double_quote then lex_from (LexEscape (LexQuote q)) (Some t) cs
     else lex_from (LexQuote q) (Some (t @ [c])) cs)"
| "lex_from (LexEscape s) tok (c # cs) =
    (let t = (case tok of None \<Rightarrow> [] | Some t \<Rightarrow> t);
         kept = (case s of LexQuote q \<Rightarrow> if c \<noteq> backslash \<and> c \<noteq> q then [backslash] else [] | _ \<Rightarrow> [])
     in lex_from s (Some (t @ kept @ [c])) cs)"

definition shlex_split :: "string \<Rightarrow> string list result" where
  "shlex_split s = lex_from LexBlank None s"

definition shell_safe :: "char \<Rightarrow> bool" where
  "shell_safe c = (let n = (of_char c :: nat) in
     65 \<le> n \<and> n \<le> 90 \<or> 97 \<le> n \<and> n \<le> 122 \<or> is_digit c \<or> c \<in> set ''_@%+=:,./-'')"

definition shlex_quote :: "string \<Rightarrow> string" where
  "shlex_quote s =
    (if s = [] then [single_quote, single_quote]
     else if list_all shell_safe s then s
     else [single_quote] @
       concat (map (\<lambda>c. if c = single_quote then [single_quote, double_quote, single_quote, double_quote, single_quote] else [c]) s) @
       [single_quote])"

section \<open>Running a command\<close>

datatype command = CmdText string | CmdArgs "string list"

datatype run_reply =
    ReplyUnimplemented
  | ReplyRpcError pyerr
  | ReplyError string
  | ReplyDone int string

record 'w runtime =
  rt_container :: "string \<Rightarrow> bool"
  rt_grpc :: "string \<Rightarrow> bool"
  rt_node_run :: "string \<Rightarrow> string list \<Rightarrow> 'w \<Rightarrow> run_reply \<times> 'w"
  rt_exec_run :: "string \<Rightarrow> string list \<Rightarrow> bool \<Rightarrow> 'w \<Rightarrow> (int \<times> string) result \<times> 'w"

definition prepare_command :: "command \<Rightarrow> string list result" where
  "prepare_command cmd = (case cmd of
     CmdText s \<Rightarrow> if startswith ''sh -c'' s \<or> startswith ''bash -c'' s
       then (case shlex_split s of Inl _ \<Rightarrow> Inl (RuntimeError ''Malformed shell command'') | Inr ws \<Rightarrow> Inr ws)
       else Inr [''sh'', ''-c'', s]
   | CmdArgs ws \<Rightarrow> Inr ws)"

text \<open>The value returned, what the node keeps as its last output, and the new state.\<close>

definition execute_command_docker :: "'w runtime \<Rightarrow> string \<Rightarrow> command \<Rightarrow> bool \<Rightarrow> 'w \<Rightarrow> string result \<times> string option \<times> 'w" where
  "execute_command_docker rt nm cmd detach w =
    (if \<not> rt_container rt nm then (Inl (RuntimeError ''Container is not initialized.''), None, w)
     else case prepare_command cmd of
       Inl e \<Rightarrow> (Inl e, None, w)
     | Inr argv \<Rightarrow> (case rt_exec_run rt nm argv detach w of
           (Inl e, w1) \<Rightarrow> (Inl e, None, w1)
         | (Inr (exit_code, output), w1) \<Rightarrow>
             if detach then (Inr [], None, w1)
             else let decoded = py_strip output in
               (if exit_code \<noteq> 0 then Inl (RuntimeError ''Command failed'') else Inr decoded, Some decoded, w1)))"

definition execute_command :: "'w runtime \<Rightarrow> string \<Rightarrow> command \<Rightarrow> bool \<Rightarrow> bool \<Rightarrow> 'w \<Rightarrow> string result \<times> string option \<times> 'w" where
  "execute_command rt nm cmd detach use_docker_cli w =
    (if use_docker_cli \<or> \<not> rt_grpc rt nm \<or> detach then execute_command_docker rt nm cmd detach w
     else case prepare_command cmd of
       Inl e \<Rightarrow> (Inl e, None, w)
     | Inr argv \<Rightarrow> (case rt_node_run rt nm argv w of
           (ReplyUnimplemented, w1) \<Rightarrow> execute_command_docker rt nm cmd detach w1
         | (ReplyRpcError e, w1) \<Rightarrow> (Inl e, None, w1)
         | (ReplyError msg, w1) \<Rightarrow> (Inl (RuntimeError ''NodeRun failed''), None, w1)
         | (ReplyDone exit_code stdout, w1) \<Rightarrow>
             let decoded = py_strip stdout in
             (if exit_code \<noteq> 0 then Inl (RuntimeError ''Command failed'') else Inr decoded, Some decoded, w1)))"

text \<open>The traffic tools pass a command line and look at the returned text only.\<close>

type_synonym 'w shell = "string \<Rightarrow> string \<Rightarrow> bool \<Rightarrow> 'w \<Rightarrow> string result \<times> 'w"

definition node_shell :: "'w runtime \<Rightarrow> 'w shell" where
  "node_shell rt nm s detach w = (case execute_command rt nm (CmdText s) detach False w of (r, _, w1) \<Rightarrow> (r, w1))"

section \<open>Facts\<close>

text \<open>Quoting a word and splitting the command line gives the word back.\<close>

lemma lex_quoted:
  "lex_from (LexQuote single_quote) (Some t) (concat (map (\<lambda>c. if c = single_quote
      then [single_quote, double_quote, single_quote, double_quote, single_quote] else [c]) s) @ single_quote # r) =
   lex_from LexWord (Some (t @ s)) r"
  by (induction s arbitrary: t) (simp_all add: lex_space_def)

lemma lex_safe:
  "list_all (\<lambda>c. \<not> lex_space c \<and> c \<noteq> backslash \<and> c \<noteq> single_quote \<and> c \<noteq> double_quote) s \<Longrightarrow>
   lex_from LexWord (Some t) (s @ r) = lex_from LexWord (Some (t @ s)) r"
  by (induction s arbitrary: t) simp_all

lemma shell_safe_plain: "shell_safe c \<Longrightarrow> \<not> lex_space c \<and> c \<noteq> backslash \<and> c \<noteq> single_quote \<and> c \<noteq> double_quote"
  by (auto simp: shell_safe_def lex_space_def is_digit_def Let_def)

lemma lex_plain_word:
  assumes "s \<noteq> []" "list_all shell_safe s"
  shows "lex_from LexBlank tok (s @ r) = lex_from LexWord (Some s) r"
proof -
  obtain c cs where s: "s = c # cs" using assms(1) by (cases s) auto
  have "list_all (\<lambda>c. \<not> lex_space c \<and> c \<noteq> backslash \<and> c \<noteq> single_quote \<and> c \<noteq> double_quote) s"
    using assms(2) shell_safe_plain by (auto simp: list_all_iff)
  then show ?thesis using lex_safe [of cs "[c]" r] by (simp add: s)
qed

lemma shlex_split_quote: "shlex_split (shlex_quote s) = Inr [s]"
proof -
  have "lex_from LexBlank None (shlex_quote s) = lex_from LexWord (Some s) []" if "s \<noteq> []" "list_all shell_safe s"
    using lex_plain_word [OF that, of None "[]"] that by (simp add: shlex_quote_def)
  moreover have "shlex_split (shlex_quote s) = Inr [s]" if "s \<noteq> []" "\<not> list_all shell_safe s"
    using lex_quoted [of "[]" s "[]"] that by (simp add: shlex_quote_def shlex_split_def lex_space_def)
  moreover have "shlex_split (shlex_quote []) = Inr [[]]"
    by (simp add: shlex_quote_def shlex_split_def lex_space_def)
  ultimately show ?thesis by (cases "s = []") (auto simp: shlex_split_def)
qed

text \<open>A command that returns without exception ran in a container with exit status zero.\<close>

lemma execute_command_ok:
  assumes "execute_command rt nm cmd False docker w = (Inr txt, out, w')"
  shows "(\<exists>argv w1 stdout. prepare_command cmd = Inr argv \<and> rt_node_run rt nm argv w1 = (ReplyDone 0 stdout, w') \<and> txt = py_strip stdout) \<or>
    (\<exists>argv w1 output. rt_container rt nm \<and> prepare_command cmd = Inr argv \<and>
       rt_exec_run rt nm argv False w1 = (Inr (0, output), w') \<and> txt = py_strip output)"
  using assms
  by (fastforce simp: execute_command_def execute_command_docker_def Let_def
      split: if_splits sum.splits prod.splits run_reply.splits)

lemma execute_command_detached:
  "execute_command rt nm cmd True docker w = (r, out, w') \<Longrightarrow>
    out = None \<and> (r = Inr [] \<or> (\<exists>e. r = Inl e))"
  by (auto simp: execute_command_def execute_command_docker_def split: if_splits sum.splits prod.splits)

lemma node_shell_no_container:
  "\<not> rt_container rt nm \<Longrightarrow> node_shell rt nm s True w = (Inl (RuntimeError ''Container is not initialized.''), w)"
  by (simp add: node_shell_def execute_command_def execute_command_docker_def)

end
