(* ===== verification/Traffic.thy ===== *)
theory Traffic
  imports Containers
begin

text \<open>
  The traffic tools of \<open>traffic/ping_utils.py\<close>, \<open>traffic/hping3_utils.py\<close> and
  \<open>traffic/iperf3_utils.py\<close>: their configurations, the commands built from them, the
  parsing of the output of ping and hping3, and one blocking run of each tool.

  A regular expression of the code is a \<open>pattern\<close>, a function from a text to the
  groups it captures and the rest; \<open>re_search\<close> looks for the first place where it
  matches. In each expression a repetition is followed by a character outside its class,
  so the greedy choice is the only one. A decimal number is a \<open>rat\<close>, without the
  rounding of binary floating point; printing a float is the parameter \<open>show\<close>.
\<close>

section \<open>Regular expressions\<close>

type_synonym 'a pattern = "string \<Rightarrow> ('a \<times> string) option"

definition p_lit :: "string \<Rightarrow> unit pattern" where
  "p_lit p s = (if startswith p s then Some ((), drop (length p) s) else None)"

definition p_span :: "(char \<Rightarrow> bool) \<Rightarrow> string pattern" where
  "p_span P s = Some (takeWhile P s, dropWhile P s)"

definition p_some :: "(char \<Rightarrow> bool) \<Rightarrow> string pattern" where
  "p_some P s = (if takeWhile P s = [] then None else Some (takeWhile P s, dropWhile P s))"

definition p_then :: "'a pattern \<Rightarrow> ('a \<Rightarrow> 'b pattern) \<Rightarrow> 'b pattern" where
  "p_then p q s = (case p s of None \<Rightarrow> None | Some (x, r) \<Rightarrow> q x r)"

definition p_return :: "'a \<Rightarrow> 'a pattern" where
  "p_return x s = Some (x, s)"

definition p_optional :: "unit pattern \<Rightarrow> unit pattern" where
  "p_optional p s = (case p s of None \<Rightarrow> Some ((), s) | Some (_, r) \<Rightarrow> Some ((), r))"

fun re_search :: "'a pattern \<Rightarrow> string \<Rightarrow> 'a option" where
  "re_search p [] = map_option fst (p [])"
| "re_search p (c # cs) = (case p (c # cs) of Some (x, _) \<Rightarrow> Some x | None \<Rightarrow> re_search p cs)"

definition decimal_char :: "char \<Rightarrow> bool" where
  "decimal_char c = (is_digit c \<or> c = CHR ''.'')"

definition digits_value :: "string \<Rightarrow> nat" where
  "digits_value s = foldl (\<lambda>a c. a * 10 + digit_val c) 0 s"

text \<open>\<open>float\<close> on a text of digits and dots.\<close>

definition decimal_value :: "string \<Rightarrow> rat option" where
  "decimal_value s = (let whole = takeWhile is_digit s; rest = dropWhile is_digit s in
     (case rest of
        [] \<Rightarrow> if whole = [] then None else Some (of_nat (digits_value whole))
      | c # tail \<Rightarrow> if c = CHR ''.'' \<and> list_all is_digit tail \<and> \<not> (whole = [] \<and> tail = [])
          then Some (of_nat (digits_value whole) + of_nat (digits_value tail) / 10 ^ length tail) else None))"

section \<open>Ping\<close>

record ping_config =
  pc_count :: int
  pc_timeout :: rat
  pc_interval :: rat
  pc_size :: int
  pc_preload :: int

definition default_ping_config :: ping_config where
  "default_ping_config = \<lparr>pc_count = 5, pc_timeout = 1 / 2, pc_interval = 1 / 5, pc_size = 56, pc_preload = 2\<rparr>"

definition ping_post_init :: "ping_config \<Rightarrow> ping_config result" where
  "ping_post_init cfg =
    (if pc_interval cfg < 2 / 1000 then Inl (ValueError ''interval_sec must be > 0.002'')
     else if pc_preload cfg < 1 \<or> 3 < pc_preload cfg then Inl (ValueError ''preload must be > 1 and < 3'')
     else Inr cfg)"

definition ping_command :: "(rat \<Rightarrow> string) \<Rightarrow> ping_config \<Rightarrow> string \<Rightarrow> string \<Rightarrow> string" where
  "ping_command show cfg dst_ip bind_ip =
    ''ping -c '' @ dec_int (pc_count cfg) @ '' -W '' @ show (pc_timeout cfg) @ '' -i '' @ show (pc_interval cfg) @
    '' -s '' @ dec_int (pc_size cfg) @ '' -I '' @ bind_ip @ '' -l '' @ dec_int (pc_preload cfg) @ '' '' @ dst_ip"

definition ping_stats_re :: "(string \<times> string \<times> string) pattern" where
  "ping_stats_re = p_then (p_some is_digit) (\<lambda>sent. p_then (p_lit '' packets transmitted, '') (\<lambda>_.
     p_then (p_some is_digit) (\<lambda>got. p_then (p_lit '' received'') (\<lambda>_.
     p_then (p_optional (p_then (p_lit '', +'') (\<lambda>_. p_then (p_some is_digit) (\<lambda>_. p_lit '' errors'')))) (\<lambda>_.
     p_then (p_lit '', '') (\<lambda>_. p_then (p_some decimal_char) (\<lambda>loss. p_then (p_lit ''% packet loss'') (\<lambda>_.
     p_return (sent, got, loss)))))))))"

definition ping_rtt_re :: "(string \<times> string \<times> string \<times> string) pattern" where
  "ping_rtt_re = p_then (p_lit ''rtt min/avg/max/mdev = '') (\<lambda>_. p_then (p_some decimal_char) (\<lambda>a.
     p_then (p_lit ''/'') (\<lambda>_. p_then (p_some decimal_char) (\<lambda>b. p_then (p_lit ''/'') (\<lambda>_.
     p_then (p_some decimal_char) (\<lambda>c. p_then (p_lit ''/'') (\<lambda>_. p_then (p_some decimal_char) (\<lambda>d.
     p_then (p_lit '' ms'') (\<lambda>_. p_return (a, b, c, d))))))))))"

record ping_results =
  pr_raw :: string
  pr_config :: ping_config
  pr_transmitted :: nat
  pr_received :: nat
  pr_loss :: rat
  pr_rtt :: "rat \<times> rat \<times> rat \<times> rat"

definition to_float :: "string \<Rightarrow> rat result" where
  "to_float s = (case decimal_value s of None \<Rightarrow> Inl (ValueError ''could not convert string to float'') | Some x \<Rightarrow> Inr x)"

definition ping_rtt :: "string \<Rightarrow> (rat \<times> rat \<times> rat \<times> rat) result" where
  "ping_rtt raw = (case re_search ping_rtt_re raw of
     None \<Rightarrow> Inr (0, 0, 0, 0)
   | Some (a, b, c, d) \<Rightarrow> rbind (to_float a) (\<lambda>a. rbind (to_float b) (\<lambda>b. rbind (to_float c) (\<lambda>c.
       rbind (to_float d) (\<lambda>d. Inr (a, b, c, d))))))"

definition new_ping_results :: "ping_config \<Rightarrow> string \<Rightarrow> ping_results result" where
  "new_ping_results cfg raw =
    (if py_strip raw = [] then Inl (ValueError ''ping returned empty output; the command may have failed.'')
     else case re_search ping_stats_re raw of
       None \<Rightarrow> Inl (ValueError ''Could not parse ping statistics'')
     | Some (sent, got, loss) \<Rightarrow> rbind (to_float loss) (\<lambda>loss. rbind (ping_rtt raw) (\<lambda>rtt.
         Inr \<lparr>pr_raw = raw, pr_config = cfg, pr_transmitted = digits_value sent, pr_received = digits_value got,
              pr_loss = loss, pr_rtt = rtt\<rparr>)))"

definition ping_reachable :: "ping_results \<Rightarrow> bool" where
  "ping_reachable r = (0 < pr_received r)"

section \<open>Hping3\<close>

record hping3_config =
  hc_proto :: string
  hc_dport :: int
  hc_sport :: "int option"
  hc_count :: int
  hc_size :: int
  hc_ttl :: "int option"
  hc_rate_type :: string
  hc_interval :: string
  hc_flags :: "string list"
  hc_spoof :: "string option"

definition default_hping3_config :: hping3_config where
  "default_hping3_config = \<lparr>hc_proto = ''tcp'', hc_dport = 0, hc_sport = None, hc_count = 100, hc_size = 0, hc_ttl = None,
     hc_rate_type = ''interval'', hc_interval = [], hc_flags = [], hc_spoof = None\<rparr>"

definition lower_char :: "char \<Rightarrow> char" where
  "lower_char c = (let n = (of_char c :: nat) in if 65 \<le> n \<and> n \<le> 90 then char_of (n + 32) else c)"

definition tcp_flag :: "string \<Rightarrow> string option" where
  "tcp_flag f = (if f \<in> {''S'', ''A'', ''F'', ''R'', ''P'', ''U''} then Some (''-'' @ f) else None)"

definition opt_part :: "string \<Rightarrow> ('a \<Rightarrow> string) \<Rightarrow> 'a option \<Rightarrow> string list" where
  "opt_part flag pr v = (case v of None \<Rightarrow> [] | Some x \<Rightarrow> [flag @ '' '' @ pr x])"

definition flag_part :: "string \<Rightarrow> bool \<Rightarrow> string list" where
  "flag_part p b = (if b then [p] else [])"

definition hping3_command :: "hping3_config \<Rightarrow> string \<Rightarrow> string \<Rightarrow> string" where
  "hping3_command cfg dst_ip bind_ip =
    (let proto = map lower_char (hc_proto cfg);
         src = (case hc_spoof cfg of Some s \<Rightarrow> if s = [] then bind_ip else s | None \<Rightarrow> bind_ip)
     in py_join '' ''
       ([''hping3'', dst_ip, ''-c '' @ dec_int (hc_count cfg)] @
        (if proto = ''udp'' then [''--udp''] else if proto = ''icmp'' then [''--icmp''] else []) @
        flag_part (''-p '' @ dec_int (hc_dport cfg)) (proto \<noteq> ''icmp'' \<and> hc_dport cfg \<noteq> 0) @
        opt_part ''-s'' dec_int (hc_sport cfg) @
        flag_part (''-d '' @ dec_int (hc_size cfg)) (hc_size cfg \<noteq> 0) @
        opt_part ''--ttl'' dec_int (hc_ttl cfg) @
        (if proto = ''tcp'' then List.map_filter tcp_flag (hc_flags cfg) else []) @
        (if hc_rate_type cfg = ''interval'' \<and> hc_interval cfg \<noteq> [] then [''-i '' @ hc_interval cfg]
         else if hc_rate_type cfg = ''fast'' then [''--fast'']
         else if hc_rate_type cfg = ''faster'' then [''--faster'']
         else if hc_rate_type cfg = ''flood'' then [''--flood''] else []) @
        flag_part (''-a '' @ src) (src \<noteq> [])))"

definition hping3_stats_re :: "(string \<times> string \<times> string) pattern" where
  "hping3_stats_re = p_then (p_some is_digit) (\<lambda>sent. p_then (p_lit '' packets transmitted,'') (\<lambda>_.
     p_then (p_span is_space) (\<lambda>_. p_then (p_some is_digit) (\<lambda>got. p_then (p_lit '' packets received,'') (\<lambda>_.
     p_then (p_span is_space) (\<lambda>_. p_then (p_some decimal_char) (\<lambda>loss. p_then (p_lit ''% packet loss'') (\<lambda>_.
     p_return (sent, got, loss)))))))))"

definition hping3_rtt_re :: "string pattern" where
  "hping3_rtt_re = p_then (\<lambda>s. case p_lit ''rtt'' s of Some x \<Rightarrow> Some x | None \<Rightarrow> p_lit ''time'' s) (\<lambda>_. p_then (p_lit ''='') (\<lambda>_.
     p_then (p_some is_digit) (\<lambda>whole. p_then (\<lambda>s. case p_lit ''.'' s of Some (_, r) \<Rightarrow> Some (''.'', r) | None \<Rightarrow> Some ([], s)) (\<lambda>dot.
     p_then (p_span is_digit) (\<lambda>tail. p_then (p_span is_space) (\<lambda>_. p_then (p_lit ''ms'') (\<lambda>_.
     p_return (whole @ dot @ tail))))))))"

definition hping3_payload_re :: "string pattern" where
  "hping3_payload_re = p_then (p_some is_digit) (\<lambda>n. p_then (p_lit '' data bytes'') (\<lambda>_. p_return n))"

record hping3_results =
  hr_raw :: string
  hr_config :: hping3_config
  hr_payload :: "nat option"
  hr_rtts :: "rat list"
  hr_seq :: "nat list"
  hr_cumulative :: "rat list"
  hr_transmitted :: "nat option"
  hr_received :: nat
  hr_loss :: "rat option"
  hr_min :: "rat option"
  hr_avg :: "rat option"
  hr_max :: "rat option"

fun cumulate :: "rat \<Rightarrow> rat \<Rightarrow> nat list \<Rightarrow> rat list" where
  "cumulate step acc [] = []"
| "cumulate step acc (_ # xs) = (acc + step) # cumulate step (acc + step) xs"

text \<open>The captured round-trip text always is a number, so no value is NaN. In the summary a
  loss that is no number leaves the two counts, which were assigned before.\<close>

definition new_hping3_results :: "hping3_config \<Rightarrow> string \<Rightarrow> hping3_results result" where
  "new_hping3_results cfg raw =
    (if py_strip raw = [] then Inl (ValueError ''hping3 returned empty output; the command may have failed.'')
     else let payload = map_option digits_value (re_search hping3_payload_re raw);
              rtts = List.map_filter (\<lambda>l. case re_search hping3_rtt_re l of Some t \<Rightarrow> decimal_value t | None \<Rightarrow> None) (py_splitlines raw);
              seqs = [1..<length rtts + 1];
              bits = of_nat (case payload of Some b \<Rightarrow> b | None \<Rightarrow> 0) * 8 / 1000000;
              stats = re_search hping3_stats_re raw
          in Inr \<lparr>hr_raw = raw, hr_config = cfg, hr_payload = payload, hr_rtts = rtts, hr_seq = seqs,
              hr_cumulative = cumulate bits 0 seqs,
              hr_transmitted = map_option (\<lambda>(sent, _, _). digits_value sent) stats,
              hr_received = (case stats of None \<Rightarrow> length rtts | Some (_, got, _) \<Rightarrow> digits_value got),
              hr_loss = (case stats of None \<Rightarrow> None | Some (_, _, loss) \<Rightarrow> decimal_value loss),
              hr_min = (if rtts = [] then None else Some (Min (set rtts))),
              hr_avg = (if rtts = [] then None else Some (sum_list rtts / of_nat (length rtts))),
              hr_max = (if rtts = [] then None else Some (Max (set rtts)))\<rparr>)"

section \<open>Iperf3\<close>

record iperf3_config =
  ic_protocol :: string
  ic_duration :: int
  ic_bandwidth :: rat
  ic_parallel :: int
  ic_interval :: rat
  ic_port :: int
  ic_congestion :: string
  ic_window :: "string option"
  ic_mss :: "int option"
  ic_no_delay :: bool
  ic_length :: "string option"
  ic_pacing :: "int option"
  ic_reverse :: bool
  ic_bidir :: bool
  ic_tos :: "int option"
  ic_ttl :: "int option"
  ic_num_bytes :: "int option"
  ic_omit :: int
  ic_affinity :: "string option"

definition default_iperf3_config :: iperf3_config where
  "default_iperf3_config = \<lparr>ic_protocol = ''TCP'', ic_duration = 10, ic_bandwidth = 0, ic_parallel = 1, ic_interval = 1,
     ic_port = 5201, ic_congestion = ''bbr'', ic_window = None, ic_mss = None, ic_no_delay = False, ic_length = None,
     ic_pacing = None, ic_reverse = False, ic_bidir = False, ic_tos = None, ic_ttl = None, ic_num_bytes = None,
     ic_omit = 0, ic_affinity = None\<rparr>"

definition is_udp :: "iperf3_config \<Rightarrow> bool" where
  "is_udp cfg = (map lower_char (ic_protocol cfg) = ''udp'')"

text \<open>An optional text that is set to the empty string counts as absent.\<close>

definition text_part :: "string \<Rightarrow> string option \<Rightarrow> string list" where
  "text_part flag v = (case v of Some t \<Rightarrow> flag_part (flag @ '' '' @ t) (t \<noteq> []) | None \<Rightarrow> [])"

definition client_command :: "(rat \<Rightarrow> string) \<Rightarrow> iperf3_config \<Rightarrow> string \<Rightarrow> string \<Rightarrow> string \<Rightarrow> string" where
  "client_command show cfg server_ip bind_ip json_path =
    (let bandwidth = flag_part (''-b '' @ show (ic_bandwidth cfg) @ ''M'') (0 < ic_bandwidth cfg)
     in py_join '' ''
       ([''iperf3'', ''-c '' @ server_ip, ''-B '' @ bind_ip, ''-p '' @ dec_int (ic_port cfg),
         ''--interval '' @ show (ic_interval cfg), ''--json''] @
        (case ic_num_bytes cfg of Some n \<Rightarrow> [''-n '' @ dec_int n] | None \<Rightarrow> [''-t '' @ dec_int (ic_duration cfg)]) @
        [''-P '' @ dec_int (ic_parallel cfg)] @
        (if is_udp cfg then [''-u''] @ bandwidth @ opt_part ''--pacing-timer'' dec_int (ic_pacing cfg)
         else bandwidth @ flag_part (''-C '' @ ic_congestion cfg) (ic_congestion cfg \<noteq> []) @
           text_part ''-w'' (ic_window cfg) @ opt_part ''-M'' dec_int (ic_mss cfg) @ flag_part ''-N'' (ic_no_delay cfg)) @
        text_part ''-l'' (ic_length cfg) @ flag_part ''--reverse'' (ic_reverse cfg) @ flag_part ''--bidir'' (ic_bidir cfg) @
        opt_part ''-S'' dec_int (ic_tos cfg) @ opt_part ''--ttl'' dec_int (ic_ttl cfg) @
        flag_part (''-O '' @ dec_int (ic_omit cfg)) (0 < ic_omit cfg) @ text_part ''--affinity'' (ic_affinity cfg) @
        [''> '' @ shlex_quote json_path @ '' 2>&1'']))"

text \<open>Parsing the JSON report of iperf3 is the parameter \<open>loads\<close>.\<close>

record 'j iperf3_results =
  ir_data :: 'j
  ir_config :: iperf3_config

definition new_iperf3_results :: "(string \<Rightarrow> 'j option) \<Rightarrow> iperf3_config \<Rightarrow> string \<Rightarrow> 'j iperf3_results result" where
  "new_iperf3_results loads cfg raw =
    (if py_strip raw = [] then Inl (ValueError ''iperf3 returned empty output; the flow may have failed.'')
     else case loads raw of None \<Rightarrow> Inl (ValueError ''Failed to parse iperf3 JSON output'')
       | Some j \<Rightarrow> Inr \<lparr>ir_data = j, ir_config = cfg\<rparr>)"

section \<open>Blocking runs\<close>

text \<open>The endpoint of a flow: the name of the node and the address of its loopback.\<close>

type_synonym endpoint = "string \<times> string"

definition run_ping :: "'w shell \<Rightarrow> (rat \<Rightarrow> string) \<Rightarrow> endpoint \<Rightarrow> endpoint \<Rightarrow> ping_config \<Rightarrow> 'w \<Rightarrow> ping_results result \<times> 'w" where
  "run_ping sh show src dst cfg w =
    (let (raw, w1) = sh (fst src) (ping_command show cfg (snd dst) (snd src)) False w
     in (rbind raw (new_ping_results cfg), w1))"

definition run_hping3 :: "'w shell \<Rightarrow> endpoint \<Rightarrow> endpoint \<Rightarrow> hping3_config \<Rightarrow> 'w \<Rightarrow> hping3_results result \<times> 'w" where
  "run_hping3 sh src dst cfg w =
    (let (raw, w1) = sh (fst src) (hping3_command cfg (snd dst) (snd src)) False w
     in (rbind raw (new_hping3_results cfg), w1))"

definition json_path :: "string \<Rightarrow> endpoint \<Rightarrow> endpoint \<Rightarrow> string \<Rightarrow> string" where
  "json_path side src dst run_id = ''/tmp/iperf3_'' @ side @ ''_'' @ fst src @ ''_'' @ fst dst @ ''_'' @ run_id @ ''.json''"

text \<open>Commands one after the other; the first that raises ends the sequence.\<close>

definition sbind :: "('w \<Rightarrow> 'a result \<times> 'w) \<Rightarrow> ('a \<Rightarrow> 'w \<Rightarrow> 'b result \<times> 'w) \<Rightarrow> 'w \<Rightarrow> 'b result \<times> 'w" where
  "sbind m f w = (case m w of (Inl e, w1) \<Rightarrow> (Inl e, w1) | (Inr x, w1) \<Rightarrow> f x w1)"

definition json_text :: "string \<Rightarrow> bool" where
  "json_text raw = startswith ''{'' (py_strip raw)"

definition fetch_json :: "'w shell \<Rightarrow> string \<times> string \<Rightarrow> string \<times> string \<Rightarrow> 'w \<Rightarrow> string result \<times> 'w" where
  "fetch_json sh preferred fallback =
    sbind (sh (fst preferred) (snd preferred) False) (\<lambda>raw.
      if json_text raw then (\<lambda>w. (Inr raw, w)) else sh (fst fallback) (snd fallback) False)"

definition no_json :: pyerr where
  "no_json = RuntimeError ''Could not retrieve iperf3 JSON output''"

definition run_iperf3_flow :: "'w shell \<Rightarrow> (rat \<Rightarrow> string) \<Rightarrow> (string \<Rightarrow> 'j option) \<Rightarrow> string \<Rightarrow> endpoint \<Rightarrow> endpoint \<Rightarrow>
    iperf3_config \<Rightarrow> 'w \<Rightarrow> 'j iperf3_results result \<times> 'w" where
  "run_iperf3_flow sh show loads run_id src dst cfg =
    (let client_json = json_path ''cli'' src dst run_id; server_json = json_path ''srv'' src dst run_id;
         server_cmd = ''sh -c '' @ [double_quote] @ ''iperf3 -s -1 -B '' @ snd dst @ '' -p '' @ dec_int (ic_port cfg) @
           '' --json > '' @ server_json @ '' 2>&1'' @ [double_quote];
         at_client = (fst src, ''cat '' @ client_json); at_server = (fst dst, ''cat '' @ server_json)
     in sbind (sh (fst dst) server_cmd True) (\<lambda>_.
        sbind (sh (fst src) (client_command show cfg (snd dst) (snd src) client_json) False) (\<lambda>_.
        sbind (if is_udp cfg then fetch_json sh at_server at_client else fetch_json sh at_client at_server) (\<lambda>raw.
        sbind (sh (fst src) (''rm -f '' @ client_json) True) (\<lambda>_.
        sbind (sh (fst dst) (''rm -f '' @ server_json) True) (\<lambda>_.
        \<lambda>w. (if json_text raw then new_iperf3_results loads cfg raw else Inl no_json, w)))))))"

end
