(* ===== verification/Parse_Facts.thy ===== *)
theory Parse_Facts
  imports Traffic IP_Utils
begin

text \<open>
  What the parser of the ping output recovers. None of the expressions can match across
  the end of a line, which makes a search local to lines; with it, the report that ping
  prints is read back exactly.
\<close>

section \<open>Patterns within a line\<close>

abbreviation nlc :: char where
  "nlc \<equiv> CHR 0x0A"

definition line_pattern :: "'a pattern \<Rightarrow> bool" where
  "line_pattern p = (\<forall>u v. case p (u @ [nlc]) of
      None \<Rightarrow> p (u @ nlc # v) = None
    | Some (x, r) \<Rightarrow> \<exists>t. r = t @ [nlc] \<and> p (u @ nlc # v) = Some (x, t @ nlc # v))"

named_theorems line_patterns \<open>patterns that match within a line\<close>

lemma line_lit [line_patterns]: "nlc \<notin> set s \<Longrightarrow> line_pattern (p_lit s)"
proof -
  assume s: "nlc \<notin> set s"
  have "take (length s) (u @ nlc # v) \<noteq> s" if "length u < length s" for u v
  proof
    assume e: "take (length s) (u @ nlc # v) = s"
    have "length s - length u \<noteq> 0" using that by simp
    then have "nlc \<in> set (take (length s) (u @ nlc # v))" by (cases "length s - length u") auto
    from this [unfolded e] s show False by simp
  qed
  note short = this
  show ?thesis unfolding line_pattern_def
  proof (intro allI)
    fix u v
    show "case p_lit s (u @ [nlc]) of None \<Rightarrow> p_lit s (u @ nlc # v) = None
      | Some (x, r) \<Rightarrow> \<exists>t. r = t @ [nlc] \<and> p_lit s (u @ nlc # v) = Some (x, t @ nlc # v)"
    proof (cases "length u < length s")
      case True
      then show ?thesis using short [of u v] short [of u "[]"] by (simp add: p_lit_def startswith_def del: take_append)
    next
      case False
      then show ?thesis by (simp add: p_lit_def startswith_def)
    qed
  qed
qed

lemma line_some [line_patterns]: "\<not> P nlc \<Longrightarrow> line_pattern (p_some P)"
  by (auto simp: line_pattern_def p_some_def takeWhile_append dropWhile_append)

lemma line_span [line_patterns]: "\<not> P nlc \<Longrightarrow> line_pattern (p_span P)"
  by (auto simp: line_pattern_def p_span_def takeWhile_append dropWhile_append)

lemma line_return [line_patterns]: "line_pattern (p_return x)"
  by (simp add: line_pattern_def p_return_def)

lemma line_then [line_patterns]:
  assumes "line_pattern p" "\<And>x. line_pattern (q x)"
  shows "line_pattern (p_then p q)"
  unfolding line_pattern_def
proof (intro allI)
  fix u v
  show "case p_then p q (u @ [nlc]) of None \<Rightarrow> p_then p q (u @ nlc # v) = None
    | Some (x, r) \<Rightarrow> \<exists>t. r = t @ [nlc] \<and> p_then p q (u @ nlc # v) = Some (x, t @ nlc # v)"
  proof (cases "p (u @ [nlc])")
    case None
    then have "p (u @ nlc # v) = None" using assms(1) [unfolded line_pattern_def, rule_format, of u v] by simp
    then show ?thesis using None by (simp add: p_then_def)
  next
    case (Some a)
    then obtain x t where t: "p (u @ [nlc]) = Some (x, t @ [nlc])" "p (u @ nlc # v) = Some (x, t @ nlc # v)"
      using assms(1) [unfolded line_pattern_def, rule_format, of u v] by (cases a) auto
    have q: "p_then p q (u @ [nlc]) = q x (t @ [nlc])" "p_then p q (u @ nlc # v) = q x (t @ nlc # v)"
      using t by (simp_all add: p_then_def)
    show ?thesis unfolding q by (rule assms(2) [unfolded line_pattern_def, rule_format])
  qed
qed

lemma line_optional [line_patterns]:
  assumes "line_pattern p"
  shows "line_pattern (p_optional p)"
  unfolding line_pattern_def
proof (intro allI)
  fix u v
  show "case p_optional p (u @ [nlc]) of None \<Rightarrow> p_optional p (u @ nlc # v) = None
    | Some (x, r) \<Rightarrow> \<exists>t. r = t @ [nlc] \<and> p_optional p (u @ nlc # v) = Some (x, t @ nlc # v)"
    using assms [unfolded line_pattern_def, rule_format, of u v]
    by (cases "p (u @ [nlc])") (auto simp: p_optional_def)
qed

lemma search_next_line:
  assumes "line_pattern p" "re_search p (u @ [nlc]) = None"
  shows "re_search p (u @ nlc # v) = re_search p v"
  using assms(2)
proof (induction u)
  case Nil
  then have "p [nlc] = None" by (auto split: option.splits)
  then have "p (nlc # v) = None" using assms(1) [unfolded line_pattern_def, rule_format, of "[]" v] by simp
  then show ?case by simp
next
  case (Cons c u)
  then have "p (c # u @ [nlc]) = None" "re_search p (u @ [nlc]) = None" by (auto split: option.splits)
  then show ?case using Cons.IH assms(1) [unfolded line_pattern_def, rule_format, of "c # u" v] by simp
qed

lemma search_skip:
  assumes "\<forall>c \<in> set u. \<forall>s. p (c # s) = None"
  shows "re_search p (u @ v) = re_search p v"
  using assms by (induction u) auto

lemma line_ping_stats: "line_pattern ping_stats_re"
  unfolding ping_stats_re_def by (intro line_patterns) (auto simp: is_digit_def decimal_char_def)

lemma line_ping_rtt: "line_pattern ping_rtt_re"
  unfolding ping_rtt_re_def by (intro line_patterns) (auto simp: is_digit_def decimal_char_def)

section \<open>Numbers\<close>

lemma digits_value_dec [simp]: "digits_value (dec n) = n"
  by (simp add: digits_value_def foldl_dec)

lemma digits_value_zeros: "digits_value (replicate k (CHR ''0'') @ s) = digits_value s"
  by (induction k) (simp_all add: digits_value_def digit_val_def)

lemma takeWhile_dec: "\<not> P c \<Longrightarrow> \<forall>x \<in> set s. P x \<Longrightarrow> takeWhile P (s @ c # r) = s \<and> dropWhile P (s @ c # r) = c # r"
  by (simp add: takeWhile_append dropWhile_append)

lemma p_some_run: "s \<noteq> [] \<Longrightarrow> \<forall>x \<in> set s. P x \<Longrightarrow> \<not> P c \<Longrightarrow> p_some P (s @ c # r) = Some (s, c # r)"
  by (simp add: p_some_def takeWhile_append dropWhile_append)

lemma p_lit_here: "p_lit s (s @ r) = Some ((), r)"
  by (simp add: p_lit_def startswith_def)

lemma decimal_value_chars: "decimal_value s = Some q \<Longrightarrow> s \<noteq> [] \<and> (\<forall>c \<in> set s. decimal_char c)"
proof -
  assume d: "decimal_value s = Some q"
  define u v where uv: "u = takeWhile is_digit s" "v = dropWhile is_digit s"
  have u: "\<forall>c \<in> set u. decimal_char c" using set_takeWhileD [of _ is_digit s] by (auto simp: uv decimal_char_def)
  have "(v = [] \<and> u \<noteq> []) \<or> (\<exists>t. v = CHR ''.'' # t \<and> list_all is_digit t)"
    using d unfolding decimal_value_def Let_def uv [symmetric] by (auto split: list.splits if_splits)
  then have "u @ v \<noteq> []" "\<forall>c \<in> set v. decimal_char c" by (auto simp: decimal_char_def list_all_iff)
  moreover have "s = u @ v" by (simp add: uv)
  ultimately show ?thesis using u by auto
qed

text \<open>A number of thousandths, printed with three decimals.\<close>

definition print_milli :: "nat \<Rightarrow> string" where
  "print_milli k = dec (k div 1000) @ ''.'' @ zfill 3 (dec (k mod 1000))"

lemma dec_length_milli: "k < 1000 \<Longrightarrow> length (dec k) \<le> 3"
proof -
  assume k: "k < 1000"
  have "length (dec k) \<le> 1" if "k < 10" for k using that by (subst dec.simps) simp
  then have "length (dec k) \<le> 2" if "k < 100" for k
    using that by (subst dec.simps) (auto simp: le_Suc_eq)
  then have "length (dec (k div 10)) \<le> 2" using k by simp
  then show ?thesis by (subst dec.simps) simp
qed

lemma decimal_value_milli: "decimal_value (print_milli k) = Some (of_nat k / 1000)"
proof -
  let ?f = "zfill 3 (dec (k mod 1000))"
  have l: "length ?f = 3" using dec_length_milli [of "k mod 1000"] by (simp add: zfill_def)
  have f: "list_all is_digit ?f" "digits_value ?f = k mod 1000"
    using dec_digits [of "k mod 1000"] by (auto simp: zfill_def list_all_iff digits_value_zeros is_digit_def)
  have "takeWhile is_digit (print_milli k) = dec (k div 1000) \<and> dropWhile is_digit (print_milli k) = CHR ''.'' # ?f"
    using takeWhile_dec [of is_digit "CHR ''.''" "dec (k div 1000)" ?f] dec_digits [of "k div 1000"]
    by (simp add: print_milli_def is_digit_def)
  then have "decimal_value (print_milli k) = Some (of_nat (k div 1000) + of_nat (k mod 1000) / 10 ^ 3)"
    using f l by (simp add: decimal_value_def)
  also have "of_nat (k div 1000) + of_nat (k mod 1000) / 10 ^ 3 = (of_nat k / 1000 :: rat)"
  proof -
    have "(of_nat k :: rat) = of_nat (1000 * (k div 1000) + k mod 1000)" by simp
    also have "\<dots> = 1000 * of_nat (k div 1000) + of_nat (k mod 1000)" by (simp only: of_nat_add of_nat_mult of_nat_numeral)
    finally show ?thesis by (simp add: field_simps)
  qed
  finally show ?thesis .
qed

section \<open>The report of ping\<close>

definition print_errors :: "nat \<Rightarrow> string" where
  "print_errors e = (if e = 0 then [] else '', +'' @ dec e @ '' errors'')"

definition print_stats :: "nat \<Rightarrow> nat \<Rightarrow> nat \<Rightarrow> string \<Rightarrow> string" where
  "print_stats sent got errs loss = dec sent @ '' packets transmitted, '' @ dec got @ '' received'' @ print_errors errs @
     '', '' @ loss @ ''% packet loss''"

definition print_rtt :: "nat \<Rightarrow> nat \<Rightarrow> nat \<Rightarrow> nat \<Rightarrow> string" where
  "print_rtt a b c d = ''rtt min/avg/max/mdev = '' @ print_milli a @ ''/'' @ print_milli b @ ''/'' @ print_milli c @ ''/'' @
     print_milli d @ '' ms''"

lemma search_here: "p s = Some (x, r) \<Longrightarrow> re_search p s = Some x"
  by (cases s) auto

lemma run_dec: "\<not> is_digit c \<Longrightarrow> p_some is_digit (dec n @ c # r) = Some (dec n, c # r)"
  using p_some_run [of "dec n" is_digit c r] dec_digits [of n] by simp

lemma run_decimal: "decimal_value s = Some q \<Longrightarrow> \<not> decimal_char c \<Longrightarrow> p_some decimal_char (s @ c # r) = Some (s, c # r)"
  using p_some_run [of s decimal_char c r] decimal_value_chars [of s q] by simp

lemma not_digits [simp]:
  "\<not> is_digit (CHR '' '')" "\<not> decimal_char (CHR ''%'')" "\<not> decimal_char (CHR ''/'')" "\<not> decimal_char (CHR '' '')"
  by (simp_all add: is_digit_def decimal_char_def)

lemma ping_stats_print:
  assumes "decimal_value loss = Some q"
  shows "ping_stats_re (print_stats sent got errs loss @ r) = Some ((dec sent, dec got, loss), r)"
proof -
  have e: "p_optional (p_then (p_lit '', +'') (\<lambda>_. p_then (p_some is_digit) (\<lambda>_. p_lit '' errors'')))
      (print_errors errs @ '', '' @ loss @ ''% packet loss'' @ r) = Some ((), '', '' @ loss @ ''% packet loss'' @ r)"
  proof (cases "errs = 0")
    case True
    moreover obtain c cs where "loss = c # cs" "decimal_char c"
      using decimal_value_chars [OF assms] by (cases loss) auto
    ultimately show ?thesis
      by (auto simp: print_errors_def p_optional_def p_then_def p_lit_def startswith_def decimal_char_def is_digit_def)
  next
    case False
    then show ?thesis
      by (simp add: print_errors_def p_optional_def p_then_def p_lit_def startswith_def run_dec)
  qed
  show ?thesis
    using e run_decimal [OF assms, of "CHR ''%''" "'' packet loss'' @ r"]
    by (simp add: print_stats_def ping_stats_re_def p_then_def p_lit_def startswith_def run_dec p_return_def)
qed

lemma ping_rtt_print: "ping_rtt_re (print_rtt a b c d @ r) = Some ((print_milli a, print_milli b, print_milli c, print_milli d), r)"
  by (simp add: print_rtt_def ping_rtt_re_def p_then_def p_lit_def startswith_def run_decimal [OF decimal_value_milli] p_return_def)

lemma rtt_search_skip:
  "c \<noteq> CHR ''r'' \<Longrightarrow> re_search ping_rtt_re (c # s) = re_search ping_rtt_re s"
  "d \<noteq> CHR ''t'' \<Longrightarrow> re_search ping_rtt_re (CHR ''r'' # d # s) = re_search ping_rtt_re (d # s)"
  "\<forall>c \<in> set u. c \<noteq> CHR ''r'' \<Longrightarrow> re_search ping_rtt_re (u @ s) = re_search ping_rtt_re s"
  "re_search ping_rtt_re [] = None"
  by (simp_all add: ping_rtt_re_def p_then_def p_lit_def startswith_def search_skip)

lemma rtt_not_in_stats:
  assumes "decimal_value loss = Some q"
  shows "re_search ping_rtt_re (print_stats sent got errs loss @ '', time '' @ dec t @ ''ms'' @ [nlc]) = None"
proof -
  have d: "\<forall>c \<in> set (dec n). c \<noteq> CHR ''r''" for n using dec_digits [of n] by (auto simp: is_digit_def)
  have l: "\<forall>c \<in> set loss. c \<noteq> CHR ''r''" using decimal_value_chars [OF assms] by (auto simp: decimal_char_def is_digit_def)
  have e: "re_search ping_rtt_re (print_errors errs @ '', '' @ s) = re_search ping_rtt_re s" for s
    by (simp add: print_errors_def rtt_search_skip d del: re_search.simps)
  show ?thesis using e [of "loss @ ''% packet loss, time '' @ dec t @ ''ms'' @ [nlc]"]
    by (simp add: print_stats_def rtt_search_skip d l del: re_search.simps)
qed

lemma py_strip_Nil: "py_strip s = [] \<Longrightarrow> \<forall>c \<in> set s. is_space c"
proof -
  assume "py_strip s = []"
  then have "\<forall>c \<in> set (dropWhile is_space s). is_space c" by (auto simp: py_strip_def dropWhile_eq_Nil_conv)
  moreover have "\<forall>c \<in> set (takeWhile is_space s). is_space c" using set_takeWhileD [of _ is_space s] by blast
  moreover have "set s = set (takeWhile is_space s) \<union> set (dropWhile is_space s)"
    using takeWhile_dropWhile_id [of is_space s] by (metis set_append)
  ultimately show ?thesis by blast
qed

text \<open>
  \<^bold>\<open>C29.\<close> The report that ping prints is read back exactly: the counts, the loss, and the
  four round-trip times with their three decimals, whatever lines come before the
  statistics and whether or not errors are reported.
\<close>

theorem ping_report_roundtrip:
  assumes "re_search ping_stats_re (h @ [nlc]) = None" "re_search ping_rtt_re (h @ [nlc]) = None" "decimal_value loss = Some q"
    and "raw = h @ nlc # print_stats sent got errs loss @ '', time '' @ dec t @ ''ms'' @ nlc # print_rtt a b c d @ r"
  shows "new_ping_results cfg raw = Inr \<lparr>pr_raw = raw, pr_config = cfg, pr_transmitted = sent, pr_received = got, pr_loss = q,
     pr_rtt = (of_nat a / 1000, of_nat b / 1000, of_nat c / 1000, of_nat d / 1000)\<rparr>"
proof -
  have "re_search ping_stats_re raw = Some (dec sent, dec got, loss)"
    unfolding assms(4) search_next_line [OF line_ping_stats assms(1)]
    by (rule search_here [of ping_stats_re, OF ping_stats_print [OF assms(3)]])
  moreover have "re_search ping_rtt_re raw = Some (print_milli a, print_milli b, print_milli c, print_milli d)"
    using search_next_line [OF line_ping_rtt, of "print_stats sent got errs loss @ '', time '' @ dec t @ ''ms''" "print_rtt a b c d @ r"]
      rtt_not_in_stats [OF assms(3)] search_here [of ping_rtt_re, OF ping_rtt_print]
    unfolding assms(4) search_next_line [OF line_ping_rtt assms(2)] by simp
  then have "ping_rtt raw = Inr (of_nat a / 1000, of_nat b / 1000, of_nat c / 1000, of_nat d / 1000)"
    by (simp add: ping_rtt_def to_float_def decimal_value_milli)
  moreover have "py_strip raw \<noteq> []"
  proof
    assume "py_strip raw = []"
    then have "\<forall>c \<in> set raw. is_space c" by (rule py_strip_Nil)
    moreover have "CHR ''%'' \<in> set raw" by (simp add: assms(4) print_stats_def)
    ultimately show False by (auto simp: is_space_def)
  qed
  ultimately show ?thesis using assms(3) by (simp add: new_ping_results_def to_float_def)
qed

lemma ping_report_roundtrip_witness:
  "is_ok (new_ping_results default_ping_config (''PING 10.0.0.1 56(84) bytes of data.'' @ nlc #
     print_stats 5 4 1 ''20'' @ '', time '' @ dec 804 @ ''ms'' @ nlc # print_rtt 1250 2500 3750 100 @ [nlc]))"
proof -
  let ?h = "''PING 10.0.0.1 56(84) bytes of data.''"
  have h: "re_search ping_stats_re (?h @ [nlc]) = None" "re_search ping_rtt_re (?h @ [nlc]) = None"
    and l: "decimal_value ''20'' = Some 20"
    by code_simp+
  show ?thesis by (subst ping_report_roundtrip [OF h l refl]) simp
qed

end
