(* ===== verification/Flows.thy ===== *)
theory Flows
  imports Traffic "HOL-Library.Multiset"
begin

text \<open>
  Flows in the background and their scheduling: \<open>PingFlow\<close>, \<open>Hping3Flow\<close> and
  \<open>Iperf3Flow\<close>, the scheduler of \<open>traffic/flow_scheduler.py\<close>, and
  \<open>services/mixins/traffic_testing.py\<close>.

  The three flow classes have the same life cycle, so a flow is one record with the
  configuration, the result type and the body of its thread as parameters. \<open>fl_thread\<close>
  says whether the thread exists, and whether its body has ended. The world that the
  commands of a flow act on is of type \<open>'w\<close>.
\<close>

section \<open>Life cycle\<close>

datatype flow_status = FlowIdle | FlowRunning | FlowDone | FlowFailed

datatype thread_state = NoThread | ThreadAlive | ThreadEnded

record ('c, 'r) flow =
  fl_kind :: string
  fl_src :: endpoint
  fl_dst :: endpoint
  fl_config :: 'c
  fl_delay :: rat
  fl_status :: flow_status
  fl_result :: "'r option"
  fl_error :: "pyerr option"
  fl_thread :: thread_state
  fl_stop :: bool

definition new_flow :: "string \<Rightarrow> endpoint \<Rightarrow> endpoint \<Rightarrow> 'c \<Rightarrow> rat \<Rightarrow> ('c, 'r) flow" where
  "new_flow kind src dst cfg delay = \<lparr>fl_kind = kind, fl_src = src, fl_dst = dst, fl_config = cfg, fl_delay = delay,
     fl_status = FlowIdle, fl_result = None, fl_error = None, fl_thread = NoThread, fl_stop = False\<rparr>"

definition flow_start :: "('c, 'r) flow \<Rightarrow> ('c, 'r) flow result" where
  "flow_start fl = (if fl_status fl \<noteq> FlowIdle then Inl (RuntimeError ''has already been started'')
     else Inr (fl\<lparr>fl_status := FlowRunning, fl_thread := ThreadAlive\<rparr>))"

definition flow_results :: "('c, 'r) flow \<Rightarrow> 'r option result" where
  "flow_results fl = (case fl_status fl of
     FlowIdle \<Rightarrow> Inl (RuntimeError ''has not been started yet'')
   | FlowRunning \<Rightarrow> Inl (RuntimeError ''is still running'')
   | FlowFailed \<Rightarrow> Inl (RuntimeError ''failed'')
   | FlowDone \<Rightarrow> Inr (fl_result fl))"

text \<open>The end of a thread body: the result, or the exception that was caught.\<close>

definition flow_settle :: "'r result \<Rightarrow> ('c, 'r) flow \<Rightarrow> ('c, 'r) flow" where
  "flow_settle r fl = (case r of
     Inr x \<Rightarrow> fl\<lparr>fl_result := Some x, fl_status := FlowDone\<rparr>
   | Inl e \<Rightarrow> fl\<lparr>fl_error := Some e, fl_status := FlowFailed\<rparr>)"

definition thread_end :: "('c, 'r) flow \<Rightarrow> ('c, 'r) flow" where
  "thread_end fl = fl\<lparr>fl_thread := ThreadEnded\<rparr>"

text \<open>\<open>stop\<close>: the event is set, then a process is killed at each end that runs one. The first
  kill that raises is what \<open>stop\<close> raises.\<close>

fun kill_all :: "'w shell \<Rightarrow> string \<Rightarrow> string list \<Rightarrow> 'w \<Rightarrow> unit result \<times> 'w" where
  "kill_all sh tool [] w = (Inr (), w)"
| "kill_all sh tool (n # ns) w = (case sh n (''pkill -x '' @ tool) True w of
     (Inl e, w1) \<Rightarrow> (Inl e, w1) | (Inr _, w1) \<Rightarrow> kill_all sh tool ns w1)"

definition flow_stop :: "'w shell \<Rightarrow> string \<Rightarrow> string list \<Rightarrow> ('c, 'r) flow \<Rightarrow> 'w \<Rightarrow> unit result \<times> ('c, 'r) flow \<times> 'w" where
  "flow_stop sh tool nodes fl w = (if fl_status fl \<noteq> FlowRunning then (Inr (), fl, w)
     else case kill_all sh tool nodes w of (r, w1) \<Rightarrow> (r, fl\<lparr>fl_stop := True\<rparr>, w1))"

section \<open>Thread bodies\<close>

type_synonym ping_flow = "(ping_config, ping_results) flow"
type_synonym hping3_flow = "(hping3_config, hping3_results) flow"
type_synonym 'j iperf3_flow = "(iperf3_config, 'j iperf3_results) flow"

definition ping_body :: "'w shell \<Rightarrow> (rat \<Rightarrow> string) \<Rightarrow> ping_flow \<times> 'w \<Rightarrow> ping_flow \<times> 'w" where
  "ping_body sh show st = (case st of (fl, w) \<Rightarrow>
     let (r, w1) = run_ping sh show (fl_src fl) (fl_dst fl) (fl_config fl) w in (flow_settle r fl, w1))"

definition ping_stop :: "'w shell \<Rightarrow> ping_flow \<Rightarrow> 'w \<Rightarrow> unit result \<times> ping_flow \<times> 'w" where
  "ping_stop sh fl w = flow_stop sh ''ping'' [fst (fl_src fl)] fl w"

definition hping3_body :: "'w shell \<Rightarrow> hping3_flow \<times> 'w \<Rightarrow> hping3_flow \<times> 'w" where
  "hping3_body sh st = (case st of (fl, w) \<Rightarrow>
     let (r, w1) = run_hping3 sh (fl_src fl) (fl_dst fl) (fl_config fl) w in (flow_settle r fl, w1))"

definition hping3_stop :: "'w shell \<Rightarrow> hping3_flow \<Rightarrow> 'w \<Rightarrow> unit result \<times> hping3_flow \<times> 'w" where
  "hping3_stop sh fl w = flow_stop sh ''hping3'' [fst (fl_src fl)] fl w"

definition json_side :: "iperf3_config \<Rightarrow> endpoint \<Rightarrow> endpoint \<Rightarrow> string \<Rightarrow> string \<Rightarrow> (string \<times> string) \<times> (string \<times> string)" where
  "json_side cfg src dst client_json server_json =
    (if ic_bidir cfg then ((fst src, client_json), (fst dst, server_json))
     else let use_source = (if is_udp cfg then ic_reverse cfg else \<not> ic_reverse cfg)
          in if use_source then ((fst src, client_json), (fst dst, server_json))
             else ((fst dst, server_json), (fst src, client_json)))"

definition iperf3_run :: "'w shell \<Rightarrow> (rat \<Rightarrow> string) \<Rightarrow> (string \<Rightarrow> 'j option) \<Rightarrow> string \<Rightarrow> endpoint \<Rightarrow> endpoint \<Rightarrow>
    iperf3_config \<Rightarrow> 'w \<Rightarrow> 'j iperf3_results result \<times> 'w" where
  "iperf3_run sh show loads run_id src dst cfg =
    (let client_json = json_path ''cli'' src dst run_id; server_json = json_path ''srv'' src dst run_id;
         server_cmd = ''iperf3 -s -1 -B '' @ shlex_quote (snd dst) @ '' -p '' @ dec_int (ic_port cfg) @
           '' --json > '' @ shlex_quote server_json @ '' 2>&1'';
         (preferred, fallback) = json_side cfg src dst client_json server_json;
         cat = (\<lambda>(n, p). (n, ''cat '' @ shlex_quote p))
     in sbind (sh (fst dst) server_cmd True) (\<lambda>_.
        sbind (sh (fst src) (client_command show cfg (snd dst) (snd src) client_json) False) (\<lambda>_.
        sbind (fetch_json sh (cat preferred) (cat fallback)) (\<lambda>raw.
        sbind (sh (fst src) (''rm -f '' @ client_json) True) (\<lambda>_.
        sbind (sh (fst dst) (''rm -f '' @ server_json) True) (\<lambda>_.
        \<lambda>w. (if json_text raw then new_iperf3_results loads cfg raw else Inl no_json, w)))))))"

text \<open>The exception handler removes the two files before it records the error. A removal
  that raises ends the thread there: the status stays \<open>RUNNING\<close>.\<close>

definition iperf3_body :: "'w shell \<Rightarrow> (rat \<Rightarrow> string) \<Rightarrow> (string \<Rightarrow> 'j option) \<Rightarrow> string \<Rightarrow> 'j iperf3_flow \<times> 'w \<Rightarrow> 'j iperf3_flow \<times> 'w" where
  "iperf3_body sh show loads run_id st = (case st of (fl, w) \<Rightarrow>
     let src = fl_src fl; dst = fl_dst fl; (r, w1) = iperf3_run sh show loads run_id src dst (fl_config fl) w
     in (case r of
           Inr x \<Rightarrow> (flow_settle (Inr x) fl, w1)
         | Inl e \<Rightarrow>
             (case sbind (sh (fst src) (''rm -f '' @ json_path ''cli'' src dst run_id) True)
                (\<lambda>_. sh (fst dst) (''rm -f '' @ json_path ''srv'' src dst run_id) True) w1 of
                (Inl _, w2) \<Rightarrow> (fl, w2)
              | (Inr _, w2) \<Rightarrow> (flow_settle (Inl e) fl, w2))))"

definition iperf3_stop :: "'w shell \<Rightarrow> 'j iperf3_flow \<Rightarrow> 'w \<Rightarrow> unit result \<times> 'j iperf3_flow \<times> 'w" where
  "iperf3_stop sh fl w = flow_stop sh ''iperf3'' [fst (fl_src fl), fst (fl_dst fl)] fl w"

section \<open>All pairs\<close>

definition start_pairs :: "string \<Rightarrow> endpoint list \<Rightarrow> endpoint list \<Rightarrow> 'c \<Rightarrow> ('c, 'r) flow list result" where
  "start_pairs kind sources destinations cfg =
     rmap flow_start (concat (map (\<lambda>s. map (\<lambda>d. new_flow kind s d cfg 0) destinations) sources))"

definition manager_run_hping3 :: "endpoint list \<Rightarrow> endpoint list \<Rightarrow> hping3_config option \<Rightarrow> hping3_flow list \<Rightarrow> (hping3_flow list \<times> hping3_flow list) result" where
  "manager_run_hping3 srcs dsts cfg active = rbind
     (start_pairs ''Hping3Flow'' srcs dsts (case cfg of None \<Rightarrow> default_hping3_config | Some c \<Rightarrow> c))
     (\<lambda>fls. Inr (fls, active @ fls))"

definition manager_run_iperf3 :: "endpoint list \<Rightarrow> endpoint list \<Rightarrow> iperf3_config \<Rightarrow> 'j iperf3_flow list \<Rightarrow> ('j iperf3_flow list \<times> 'j iperf3_flow list) result" where
  "manager_run_iperf3 srcs dsts cfg active = rbind (start_pairs ''Iperf3Flow'' srcs dsts cfg) (\<lambda>fls. Inr (fls, active @ fls))"

definition manager_ping :: "endpoint list \<Rightarrow> endpoint list \<Rightarrow> ping_config option \<Rightarrow> ping_flow list \<Rightarrow> (ping_flow list \<times> ping_flow list) result" where
  "manager_ping srcs dsts cfg active = rbind
     (start_pairs ''PingFlow'' srcs dsts (case cfg of None \<Rightarrow> default_ping_config | Some c \<Rightarrow> c))
     (\<lambda>fls. Inr (fls, active @ fls))"

end
