(* ===== verification/Scheduler.thy ===== *)
theory Scheduler
  imports Flows
begin

text \<open>
  The scheduler of \<open>traffic/flow_scheduler.py\<close>: flows are submitted to a pool of
  workers in the order of their delays, each worker runs one flow, and the outcomes are
  collected as they complete.

  A flow object is known to the scheduler as a \<open>job\<close>: its identity, its label and its
  delay. The clock is modelled by the time that passes between two submissions:
  \<open>busy k\<close> for the work of the loop, \<open>late k\<close> for a sleep that ends late. Whether a
  thread ends before the time-out, and the order of completion, are parameters.
\<close>

section \<open>One flow\<close>

definition flow_label :: "('c, 'r) flow \<Rightarrow> string" where
  "flow_label fl = fl_kind fl @ '' '' @ fst (fl_src fl) @ '' -> '' @ fst (fl_dst fl)"

datatype flow_event = EvStart string | EvDone string

definition execute_flow :: "(('c, 'r) flow \<times> 'w \<Rightarrow> ('c, 'r) flow \<times> 'w) \<Rightarrow> bool \<Rightarrow> ('c, 'r) flow \<Rightarrow> 'w \<Rightarrow>
    'r option result \<times> flow_event list \<times> ('c, 'r) flow \<times> 'w" where
  "execute_flow body timed_out fl w =
    (let events = [EvStart (flow_label fl), EvDone (flow_label fl)]; fl0 = fl\<lparr>fl_delay := 0\<rparr> in
     case flow_start fl0 of
       Inl e \<Rightarrow> (Inl e, events, fl0, w)
     | Inr fl1 \<Rightarrow>
         if timed_out then (Inl (OtherError ''TimeoutError''), events, fl1, w)
         else let (fl2, w1) = body (fl1, w); fl3 = thread_end fl2 in (flow_results fl3, events, fl3, w1))"

section \<open>The scheduler\<close>

record job =
  jb_id :: nat
  jb_label :: string
  jb_delay :: rat

datatype sched_status = SchedIdle | SchedRunning | SchedDone | SchedFailed

record 'r scheduler =
  sc_flows :: "job list"
  sc_workers :: int
  sc_timeout :: "rat option"
  sc_save :: bool
  sc_active :: "(string, int) dict"
  sc_results :: "'r list"
  sc_map :: "(nat, 'r) dict"
  sc_total :: nat
  sc_completed :: nat
  sc_status :: sched_status
  sc_errors :: "pyerr list"
  sc_fatal :: "pyerr option"

definition new_scheduler :: "job list \<Rightarrow> int \<Rightarrow> rat option \<Rightarrow> bool \<Rightarrow> 'r scheduler result" where
  "new_scheduler flows max_workers timeout save =
    (if max_workers < 1 then Inl (ValueError ''max_workers must be >= 1'')
     else if (case timeout of Some t \<Rightarrow> t \<le> 0 | None \<Rightarrow> False) then Inl (ValueError ''flow_timeout_sec must be > 0 when provided'')
     else Inr \<lparr>sc_flows = sort_key jb_delay flows, sc_workers = max_workers, sc_timeout = timeout, sc_save = save,
       sc_active = [], sc_results = [], sc_map = [], sc_total = length flows, sc_completed = 0, sc_status = SchedIdle,
       sc_errors = [], sc_fatal = None\<rparr>)"

definition on_flow_start :: "string \<Rightarrow> 'r scheduler \<Rightarrow> 'r scheduler" where
  "on_flow_start label sc = sc\<lparr>sc_active := dict_set label (dict_get_or (sc_active sc) label 0 + 1) (sc_active sc)\<rparr>"

definition on_flow_done :: "string \<Rightarrow> 'r scheduler \<Rightarrow> 'r scheduler" where
  "on_flow_done label sc =
    (let n = dict_get_or (sc_active sc) label 0
     in sc\<lparr>sc_completed := sc_completed sc + 1,
           sc_active := (if n \<le> 1 then dict_pop label (sc_active sc) else dict_set label (n - 1) (sc_active sc))\<rparr>)"

text \<open>The numbers that a progress report prints: active, completed and total.\<close>

definition progress_numbers :: "'r scheduler \<Rightarrow> int \<times> nat \<times> nat" where
  "progress_numbers sc = (sum_list (dict_vals (sc_active sc)), sc_completed sc, sc_total sc)"

definition sched_run :: "'r scheduler \<Rightarrow> 'r scheduler result" where
  "sched_run sc = (if sc_status sc \<noteq> SchedIdle then Inl (RuntimeError ''FlowScheduler has already been started'')
     else Inr (sc\<lparr>sc_status := SchedRunning, sc_errors := [], sc_results := [], sc_map := [], sc_completed := 0,
                 sc_active := [], sc_fatal := None\<rparr>))"

text \<open>The submission loop: for each flow the time at which it is given to the pool.\<close>

fun dispatch :: "(nat \<Rightarrow> rat) \<Rightarrow> (nat \<Rightarrow> rat) \<Rightarrow> rat \<Rightarrow> nat \<Rightarrow> rat \<Rightarrow> job list \<Rightarrow> (job \<times> rat) list" where
  "dispatch busy late t0 k now [] = []"
| "dispatch busy late t0 k now (j # js) =
    (let clock = now + busy k; wait = (t0 + jb_delay j) - clock;
         slot = (if 0 < wait then clock + wait + late k else clock)
     in (j, slot) # dispatch busy late t0 (Suc k) slot js)"

definition sched_dispatch :: "(nat \<Rightarrow> rat) \<Rightarrow> (nat \<Rightarrow> rat) \<Rightarrow> rat \<Rightarrow> 'r scheduler \<Rightarrow> (job \<times> rat) list \<times> 'r scheduler" where
  "sched_dispatch busy late t0 sc = (dispatch busy late t0 0 t0 (sc_flows sc), sc\<lparr>sc_flows := []\<rparr>)"

text \<open>The collection loop, over the futures in the order of their completion. Without
  \<open>save\<close> the result held by the flow is released: the identities of those flows are
  the second component.\<close>

definition collect_one :: "'r scheduler \<times> pyerr list \<times> nat list \<Rightarrow> job \<times> 'r result \<Rightarrow> 'r scheduler \<times> pyerr list \<times> nat list" where
  "collect_one st fut = (case (st, fut) of ((sc, errs, freed), (j, outcome)) \<Rightarrow>
     (case outcome of
        Inl e \<Rightarrow> (sc, errs @ [e], freed)
      | Inr r \<Rightarrow> if sc_save sc
          then (sc\<lparr>sc_results := sc_results sc @ [r], sc_map := dict_set (jb_id j) r (sc_map sc)\<rparr>, errs, freed)
          else (sc, errs, freed @ [jb_id j])))"

definition sched_collect :: "(job \<times> 'r result) list result \<Rightarrow> 'r scheduler \<Rightarrow> 'r scheduler \<times> nat list" where
  "sched_collect futures sc = (case futures of
     Inl e \<Rightarrow> (sc\<lparr>sc_fatal := Some e, sc_status := SchedFailed\<rparr>, [])
   | Inr futs \<Rightarrow> (case foldl collect_one (sc, [], []) futs of
       (sc1, errs, freed) \<Rightarrow> (sc1\<lparr>sc_errors := errs, sc_status := SchedDone\<rparr>, freed)))"

definition release_result :: "nat list \<Rightarrow> nat \<Rightarrow> ('c, 'r) flow \<Rightarrow> ('c, 'r) flow" where
  "release_result freed i fl = (if i \<in> set freed then fl\<lparr>fl_result := None\<rparr> else fl)"

definition sched_errors :: "'r scheduler \<Rightarrow> pyerr list result" where
  "sched_errors sc = (case sc_status sc of
     SchedRunning \<Rightarrow> Inl (RuntimeError ''FlowScheduler is still running'')
   | SchedFailed \<Rightarrow> Inl (RuntimeError ''FlowScheduler failed'')
   | _ \<Rightarrow> Inr (sc_errors sc))"

definition sched_result :: "'r scheduler \<Rightarrow> nat \<Rightarrow> 'r result" where
  "sched_result sc i =
    (if sc_status sc = SchedRunning then Inl (RuntimeError ''FlowScheduler is still running'')
     else if \<not> sc_save sc then Inl (RuntimeError ''per-flow results are not retained'')
     else case dict_get (sc_map sc) i of None \<Rightarrow> Inl (KeyError ''No result found for flow'') | Some r \<Rightarrow> Inr r)"

end
