(* ===== verification/Flow_Facts.thy ===== *)
theory Flow_Facts
  imports Scheduler
begin

text \<open>
  Correctness of the traffic components: the life cycle of a flow as a step relation
  with an interface that the ping and hping3 flows implement, the point where the
  iperf3 flow does not, parsing of what ping prints, the agreement of the two ways to
  run iperf3, and the schedule, the counters and the outcomes of the scheduler.
\<close>

section \<open>Life cycle of a flow\<close>

text \<open>A caller starts and stops the flow, its thread runs, and anything else happens to the
  world in between.\<close>

inductive flow_step :: "(('c, 'r) flow \<times> 'w \<Rightarrow> ('c, 'r) flow \<times> 'w) \<Rightarrow> (('c, 'r) flow \<Rightarrow> 'w \<Rightarrow> unit result \<times> ('c, 'r) flow \<times> 'w) \<Rightarrow>
    ('c, 'r) flow \<times> 'w \<Rightarrow> ('c, 'r) flow \<times> 'w \<Rightarrow> bool" for body stop where
  flow_begin: "flow_start fl = Inr fl' \<Longrightarrow> flow_step body stop (fl, w) (fl', w)"
| flow_halt: "stop fl w = (r, fl', w') \<Longrightarrow> flow_step body stop (fl, w) (fl', w')"
| flow_thread: "fl_thread fl = ThreadAlive \<Longrightarrow> body (fl, w) = (fl', w') \<Longrightarrow> flow_step body stop (fl, w) (thread_end fl', w')"
| flow_world: "flow_step body stop (fl, w) (fl, w')"

inductive flow_reach :: "(('c, 'r) flow \<times> 'w \<Rightarrow> ('c, 'r) flow \<times> 'w) \<Rightarrow> (('c, 'r) flow \<Rightarrow> 'w \<Rightarrow> unit result \<times> ('c, 'r) flow \<times> 'w) \<Rightarrow>
    ('c, 'r) flow \<times> 'w \<Rightarrow> bool" for body stop where
  flow_new: "flow_reach body stop (new_flow kind src dst cfg delay, w)"
| flow_next: "flow_reach body stop s \<Longrightarrow> flow_step body stop s t \<Longrightarrow> flow_reach body stop t"

definition flow_ok :: "('c, 'r) flow \<Rightarrow> bool" where
  "flow_ok fl = (case fl_status fl of
     FlowIdle \<Rightarrow> fl_thread fl = NoThread \<and> fl_result fl = None \<and> fl_error fl = None
   | FlowRunning \<Rightarrow> fl_thread fl = ThreadAlive \<and> fl_result fl = None \<and> fl_error fl = None
   | FlowDone \<Rightarrow> fl_thread fl = ThreadEnded \<and> fl_result fl \<noteq> None \<and> fl_error fl = None
   | FlowFailed \<Rightarrow> fl_thread fl = ThreadEnded \<and> fl_result fl = None \<and> fl_error fl \<noteq> None)"

lemma thread_end_simps [simp]:
  "fl_thread (thread_end fl) = ThreadEnded" "fl_status (thread_end fl) = fl_status fl"
  "fl_result (thread_end fl) = fl_result fl" "fl_error (thread_end fl) = fl_error fl"
  by (simp_all add: thread_end_def)

lemma flow_ok_new [simp]: "flow_ok (new_flow kind src dst cfg delay)"
  by (simp add: flow_ok_def new_flow_def)

lemma flow_ok_stop [simp]: "flow_ok (fl\<lparr>fl_stop := b\<rparr>) = flow_ok fl"
  by (simp add: flow_ok_def split: flow_status.split)

lemma flow_ok_start: "flow_start fl = Inr fl' \<Longrightarrow> flow_ok fl \<Longrightarrow> flow_ok fl'"
  by (auto simp: flow_ok_def flow_start_def split: if_splits)

lemma flow_ok_alive: "flow_ok fl \<Longrightarrow> fl_thread fl = ThreadAlive \<longleftrightarrow> fl_status fl = FlowRunning"
  by (cases "fl_status fl") (auto simp: flow_ok_def)

lemma flow_ok_settled: "flow_ok fl \<Longrightarrow> fl_status fl = FlowRunning \<Longrightarrow> flow_ok (thread_end (flow_settle r fl))"
  by (auto simp: flow_ok_def flow_settle_def split: sum.splits)

lemma flow_ok_outcome:
  "flow_ok fl \<Longrightarrow> fl_thread fl = ThreadEnded \<Longrightarrow> (\<exists>x. flow_results fl = Inr (Some x)) \<or>
     (\<exists>e. fl_error fl = Some e \<and> flow_results fl = Inl (RuntimeError ''failed''))"
  by (cases "fl_status fl") (auto simp: flow_ok_def flow_results_def)

text \<open>What a tool has to provide: its body settles the flow, and stopping only sets the event.\<close>

locale flow_tool =
  fixes body :: "('c, 'r) flow \<times> 'w \<Rightarrow> ('c, 'r) flow \<times> 'w"
    and stop :: "('c, 'r) flow \<Rightarrow> 'w \<Rightarrow> unit result \<times> ('c, 'r) flow \<times> 'w"
  assumes settles: "\<exists>r. fst (body (fl, w)) = flow_settle r fl"
    and stops: "\<exists>b. fst (snd (stop fl w)) = fl\<lparr>fl_stop := b\<rparr>"
begin

lemma step_ok:
  assumes "flow_step body stop s t" "flow_ok (fst s)"
  shows "flow_ok (fst t)"
  using assms
proof (induction rule: flow_step.induct)
  case (flow_begin fl fl' w)
  then show ?case using flow_ok_start by simp
next
  case (flow_halt fl w r fl' w')
  then obtain b where "fl' = fl\<lparr>fl_stop := b\<rparr>" using stops [of fl w] by auto
  then show ?case using flow_halt by simp
next
  case (flow_thread fl w fl' w')
  then obtain r where "fl' = flow_settle r fl" using settles [of fl w] by auto
  then show ?case using flow_thread flow_ok_alive [of fl] flow_ok_settled [of fl r] by simp
qed simp

lemma reach_ok: "flow_reach body stop s \<Longrightarrow> flow_ok (fst s)"
  by (induction rule: flow_reach.induct) (simp, blast intro: step_ok)

lemma outcome:
  assumes "flow_reach body stop (fl, w)"
  shows "(fl_status fl = FlowRunning \<longleftrightarrow> fl_thread fl = ThreadAlive) \<and>
    (fl_thread fl = ThreadEnded \<longrightarrow> (\<exists>x. flow_results fl = Inr (Some x)) \<or>
       (\<exists>e. fl_error fl = Some e \<and> flow_results fl = Inl (RuntimeError ''failed''))) \<and>
    (fl_thread fl = ThreadAlive \<longrightarrow> (\<exists>fl' w'. flow_step body stop (fl, w) (fl', w') \<and> fl_thread fl' = ThreadEnded))"
proof -
  have ok: "flow_ok fl" using reach_ok [OF assms] by simp
  have "\<exists>fl' w'. flow_step body stop (fl, w) (fl', w') \<and> fl_thread fl' = ThreadEnded" if "fl_thread fl = ThreadAlive"
    using flow_step.flow_thread [OF that, of body w "fst (body (fl, w))" "snd (body (fl, w))" stop] by auto
  then show ?thesis using ok flow_ok_alive flow_ok_outcome by blast
qed

end

lemma flow_stop_event: "\<exists>b. fst (snd (flow_stop sh tool nodes fl w)) = fl\<lparr>fl_stop := b\<rparr>"
  by (cases fl) (auto simp: flow_stop_def split: prod.splits)

interpretation ping: flow_tool "ping_body sh show" "ping_stop sh"
  by unfold_locales (auto simp: ping_body_def ping_stop_def flow_stop_event split: prod.splits)

interpretation hping3: flow_tool "hping3_body sh" "hping3_stop sh"
  by unfold_locales (auto simp: hping3_body_def hping3_stop_def flow_stop_event split: prod.splits)


definition demo_shell :: "(string \<Rightarrow> string \<Rightarrow> string result) \<Rightarrow> unit shell" where
  "demo_shell f n c detach w = (f n c, w)"


section \<open>Iperf3\<close>

text \<open>
  An iperf3 flow between nodes whose containers are not there never completes: the
  thread ends, but the status stays \<open>RUNNING\<close> with neither result nor error, so that
  \<open>results\<close>, a second \<open>start\<close> and \<open>stop\<close> all fail; a ping flow fails as it should.
\<close>

theorem iperf3_flow_stuck:
  assumes "\<not> rt_container rt (fst src)" "\<not> rt_container rt (fst dst)" "\<not> rt_grpc rt (fst src)"
    and "flow_start (new_flow kind src dst cfg delay) = Inr fl" "iperf3_body (node_shell rt) show loads run_id (fl, w) = (fl', w')"
    and "flow_start (new_flow kind' src dst pcfg delay) = Inr p" "ping_body (node_shell rt) show (p, w) = (p', v')"
  shows "fl_status fl' = FlowRunning \<and> fl_result fl' = None \<and> fl_error fl' = None \<and>
    flow_results (thread_end fl') = Inl (RuntimeError ''is still running'') \<and>
    (\<exists>e. flow_start (thread_end fl') = Inl e) \<and>
    (\<exists>e. fst (iperf3_stop (node_shell rt) (thread_end fl') u) = Inl e) \<and>
    fl_status p' = FlowFailed \<and> fl_error p' = Some (RuntimeError ''Container is not initialized.'')"
proof -
  note gone = node_shell_no_container
  have fl: "fl = new_flow kind src dst cfg delay\<lparr>fl_status := FlowRunning, fl_thread := ThreadAlive\<rparr>"
    using assms(4) by (simp add: flow_start_def new_flow_def)
  have "fst (iperf3_run (node_shell rt) show loads run_id src dst cfg w) = Inl (RuntimeError ''Container is not initialized.'')"
    "snd (iperf3_run (node_shell rt) show loads run_id src dst cfg w) = w"
    using gone [OF assms(2)] by (simp_all add: iperf3_run_def sbind_def Let_def split: prod.split)
  then have "fl' = fl" "w' = w"
    using assms(5) gone [OF assms(1)]
    by (auto simp: fl iperf3_body_def sbind_def new_flow_def Let_def split: prod.splits)
  moreover have p: "p = new_flow kind' src dst pcfg delay\<lparr>fl_status := FlowRunning, fl_thread := ThreadAlive\<rparr>"
    using assms(6) by (simp add: flow_start_def new_flow_def)
  moreover have "node_shell rt (fst src) c False w = (Inl (RuntimeError ''Container is not initialized.''), w)" for c
    using assms(1,3) by (simp add: node_shell_def execute_command_def execute_command_docker_def)
  then have "p' = p\<lparr>fl_error := Some (RuntimeError ''Container is not initialized.''), fl_status := FlowFailed\<rparr>"
    using assms(7) by (auto simp: p ping_body_def run_ping_def flow_settle_def new_flow_def)
  ultimately show ?thesis using gone [OF assms(1)]
    by (simp add: fl new_flow_def flow_results_def flow_start_def iperf3_stop_def flow_stop_def thread_end_def)
qed

definition demo_runtime :: "unit runtime" where
  "demo_runtime = \<lparr>rt_container = (\<lambda>_. False), rt_grpc = (\<lambda>_. False), rt_node_run = (\<lambda>_ _ w. (ReplyUnimplemented, w)),
     rt_exec_run = (\<lambda>_ _ _ w. (Inr (0, []), w))\<rparr>"

lemma iperf3_flow_stuck_witness:
  "fl_status (fst (iperf3_body (node_shell demo_runtime) (\<lambda>_. []) (\<lambda>_. None :: unit option) ''r''
     ((new_flow ''Iperf3Flow'' (''Sat1'', ''a'') (''Sat2'', ''b'') default_iperf3_config 0)
        \<lparr>fl_status := FlowRunning, fl_thread := ThreadAlive\<rparr>, ()))) = FlowRunning"
proof -
  let ?sh = "node_shell demo_runtime" and ?show = "\<lambda>_ :: rat. [] :: string" and ?l = "\<lambda>_ :: string. None :: unit option"
  let ?f = "new_flow ''Iperf3Flow'' (''Sat1'', ''a'') (''Sat2'', ''b'') default_iperf3_config 0 :: unit iperf3_flow"
  let ?p = "new_flow ''PingFlow'' (''Sat1'', ''a'') (''Sat2'', ''b'') default_ping_config 0 :: ping_flow"
  have "flow_start ?f = Inr (?f\<lparr>fl_status := FlowRunning, fl_thread := ThreadAlive\<rparr>)"
    "flow_start ?p = Inr (?p\<lparr>fl_status := FlowRunning, fl_thread := ThreadAlive\<rparr>)"
    by (simp_all add: flow_start_def new_flow_def)
  from iperf3_flow_stuck [OF _ _ _ this(1) prod.collapse [symmetric, of "iperf3_body ?sh ?show ?l ''r'' (_, ())"]
      this(2) prod.collapse [symmetric, of "ping_body ?sh ?show (_, ())"]]
  show ?thesis by (simp add: demo_runtime_def)
qed

abbreviation plain_char :: "char \<Rightarrow> bool" where
  "plain_char c \<equiv> c \<noteq> double_quote \<and> c \<noteq> backslash"

lemma lex_double_quoted:
  "list_all plain_char s \<Longrightarrow>
   lex_from (LexQuote double_quote) (Some t) (s @ double_quote # r) = lex_from LexWord (Some (t @ s)) r"
  by (induction s arbitrary: t) simp_all

lemma split_sh_c:
  assumes "list_all plain_char body"
  shows "shlex_split (''sh -c '' @ [double_quote] @ body @ [double_quote]) = Inr [''sh'', ''-c'', body]"
  using lex_double_quoted [OF assms, of "[]" "[]"] by (simp add: shlex_split_def lex_space_def)

lemma safe_plain: "list_all shell_safe s \<Longrightarrow> list_all plain_char s"
  using shell_safe_plain by (auto simp: list_all_iff)

lemma dec_int_safe: "list_all shell_safe (dec_int i)"
proof -
  have "list_all shell_safe (dec n)" for n
    using dec_digits [of n] by (auto simp: list_all_iff shell_safe_def)
  then show ?thesis by (simp add: dec_int_def shell_safe_def is_digit_def)
qed

lemma safe_quote: "list_all shell_safe s \<Longrightarrow> s \<noteq> [] \<Longrightarrow> shlex_quote s = s"
  by (simp add: shlex_quote_def)

lemma json_path_safe:
  assumes "list_all shell_safe (fst src)" "list_all shell_safe (fst dst)" "list_all shell_safe run_id" "list_all shell_safe side"
  shows "list_all shell_safe (json_path side src dst run_id)" "json_path side src dst run_id \<noteq> []"
  using assms by (simp_all add: json_path_def shell_safe_def is_digit_def)

definition server_text :: "iperf3_config \<Rightarrow> string \<Rightarrow> string \<Rightarrow> string" where
  "server_text cfg ip path = ''iperf3 -s -1 -B '' @ ip @ '' -p '' @ dec_int (ic_port cfg) @ '' --json > '' @ path @ '' 2>&1''"

lemma server_argv:
  assumes "list_all shell_safe ip" "list_all shell_safe path"
  shows "prepare_command (CmdText (''sh -c '' @ [double_quote] @ server_text cfg ip path @ [double_quote])) =
    prepare_command (CmdText (server_text cfg ip path))"
proof -
  have "list_all plain_char (server_text cfg ip path)"
    using safe_plain [OF assms(1)] safe_plain [OF assms(2)] safe_plain [OF dec_int_safe [of "ic_port cfg"]]
    by (simp add: server_text_def)
  from split_sh_c [OF this] show ?thesis
    by (simp add: prepare_command_def startswith_def server_text_def)
qed

lemma node_shell_argv:
  "prepare_command (CmdText c) = prepare_command (CmdText c') \<Longrightarrow> node_shell rt nm c detach w = node_shell rt nm c' detach w"
proof -
  assume p: "prepare_command (CmdText c) = prepare_command (CmdText c')"
  have d: "execute_command_docker rt nm (CmdText c) = execute_command_docker rt nm (CmdText c')"
    by (intro ext) (unfold execute_command_docker_def p, rule refl)
  show ?thesis unfolding node_shell_def execute_command_def p d ..
qed

text \<open>
  For a test in the normal direction the background flow and the blocking
  function of iperf3 do the same: the same programs are run in the same containers in
  the same order, although one passes the server command to the shell through
  \<open>sh -c\<close> with its own quoting, and both choose the same report to read.
\<close>

theorem iperf3_runs_agree:
  assumes "\<not> ic_reverse cfg" "\<not> ic_bidir cfg"
    and "list_all shell_safe (fst src)" "list_all shell_safe (fst dst)" "list_all shell_safe run_id"
    and "list_all shell_safe (snd dst)" "snd dst \<noteq> []"
  shows "iperf3_run (node_shell rt) show loads run_id src dst cfg w =
    run_iperf3_flow (node_shell rt) show loads run_id src dst cfg w"
proof -
  have safe: "list_all shell_safe (json_path ''cli'' src dst run_id)" "list_all shell_safe (json_path ''srv'' src dst run_id)"
    by (rule json_path_safe [OF assms(3-5)], simp add: shell_safe_def)+
  have ne: "json_path ''cli'' src dst run_id \<noteq> []" "json_path ''srv'' src dst run_id \<noteq> []"
    by (simp_all add: json_path_def)
  note q = safe_quote [OF safe(1) ne(1)] safe_quote [OF safe(2) ne(2)] safe_quote [OF assms(6,7)]
  have server: "node_shell rt (fst dst) (''sh -c '' @ [double_quote] @ server_text cfg (snd dst) (json_path ''srv'' src dst run_id) @ [double_quote]) True =
      node_shell rt (fst dst) (server_text cfg (snd dst) (json_path ''srv'' src dst run_id)) True"
    by (rule ext, rule node_shell_argv, rule server_argv [OF assms(6) safe(2)])
  have cmd: "''sh -c '' @ [double_quote] @ ''iperf3 -s -1 -B '' @ snd dst @ '' -p '' @ dec_int (ic_port cfg) @
           '' --json > '' @ json_path ''srv'' src dst run_id @ '' 2>&1'' @ [double_quote] =
      ''sh -c '' @ [double_quote] @ server_text cfg (snd dst) (json_path ''srv'' src dst run_id) @ [double_quote]"
    by (simp add: server_text_def)
  show ?thesis
    unfolding iperf3_run_def run_iperf3_flow_def Let_def q cmd server
    using assms(1,2) by (simp add: json_side_def server_text_def q)
qed

lemma iperf3_runs_agree_witness:
  "iperf3_run (node_shell demo_runtime) (\<lambda>_. []) (\<lambda>_. None :: unit option) ''0a1b2c3d'' (''Gnd1'', ''10.0.0.1'') (''Gnd2'', ''10.0.0.2'') default_iperf3_config () =
   run_iperf3_flow (node_shell demo_runtime) (\<lambda>_. []) (\<lambda>_. None) ''0a1b2c3d'' (''Gnd1'', ''10.0.0.1'') (''Gnd2'', ''10.0.0.2'') default_iperf3_config ()"
  by (rule iperf3_runs_agree) (simp_all add: default_iperf3_config_def shell_safe_def is_digit_def)

text \<open>Reverse and bidirectional tests differ: the function does not look at those options.\<close>

lemma json_side_udp_bidir:
  "is_udp cfg \<Longrightarrow> ic_bidir cfg \<Longrightarrow> fst (json_side cfg src dst c s) = (fst src, c)"
  by (simp add: json_side_def)

end
