(* ===== verification/Sched_Facts.thy ===== *)
theory Sched_Facts
  imports Flow_Facts
begin

text \<open>
  Correctness of the scheduler: the times of submission, the counters that a progress
  report reads, and what is known of every flow once the schedule has ended.
\<close>

section \<open>Times of submission\<close>

abbreviation lag :: "(nat \<Rightarrow> rat) \<Rightarrow> (nat \<Rightarrow> rat) \<Rightarrow> nat \<Rightarrow> nat \<Rightarrow> rat" where
  "lag busy late k i \<equiv> (\<Sum>l \<in> {k..k + i}. busy l + late l)"

lemma dispatch_jobs: "map fst (dispatch busy late t0 k now js) = js"
  by (induction js arbitrary: k now) (simp_all add: Let_def)

lemma lag_Suc: "lag busy late k (Suc i) = (busy k + late k) + lag busy late (Suc k) i"
  by (simp add: sum.atLeast_Suc_atMost)

definition slot_time :: "(nat \<Rightarrow> rat) \<Rightarrow> (nat \<Rightarrow> rat) \<Rightarrow> rat \<Rightarrow> nat \<Rightarrow> rat \<Rightarrow> job \<Rightarrow> rat" where
  "slot_time busy late t0 k now j =
    (if now + busy k < t0 + jb_delay j then t0 + jb_delay j + late k else now + busy k)"

lemma dispatch_Cons:
  "dispatch busy late t0 k now (j # js) =
    (j, slot_time busy late t0 k now j) # dispatch busy late t0 (Suc k) (slot_time busy late t0 k now j) js"
  by (simp add: slot_time_def Let_def)

lemma slot_time_bounds:
  assumes "\<And>l. 0 \<le> busy l" "\<And>l. 0 \<le> late l"
  shows "now \<le> slot_time busy late t0 k now j" "t0 + jb_delay j \<le> slot_time busy late t0 k now j"
    "slot_time busy late t0 k now j \<le> max now (t0 + jb_delay j) + (busy k + late k)"
  using assms(1) [of k] assms(2) [of k] by (auto simp: slot_time_def)

lemma dispatch_sorted:
  assumes "\<And>l. 0 \<le> busy l" "\<And>l. 0 \<le> late l"
  shows "(\<forall>p \<in> set (dispatch busy late t0 k now js). now \<le> snd p) \<and> sorted (map snd (dispatch busy late t0 k now js))"
proof (induction js arbitrary: k now)
  case (Cons j js)
  show ?case unfolding dispatch_Cons
    using Cons [of "Suc k" "slot_time busy late t0 k now j"] slot_time_bounds(1) [where busy = busy and late = late, OF assms, of now t0 k j]
    by (auto intro: order_trans)
qed simp

lemma dispatch_bounds:
  assumes "\<And>l. 0 \<le> busy l" "\<And>l. 0 \<le> late l" "sorted (map jb_delay js)" "i < length js"
  shows "t0 + jb_delay (js ! i) \<le> snd (dispatch busy late t0 k now js ! i) \<and>
    snd (dispatch busy late t0 k now js ! i) \<le> max now (t0 + jb_delay (js ! i)) + lag busy late k i"
  using assms(3,4)
proof (induction js arbitrary: k now i)
  case (Cons j js)
  let ?s = "slot_time busy late t0 k now j"
  have s: "t0 + jb_delay j \<le> ?s" "?s \<le> max now (t0 + jb_delay j) + (busy k + late k)"
    by (rule slot_time_bounds(2,3) [where busy = busy and late = late, OF assms(1,2)])+
  show ?case
  proof (cases i)
    case 0
    then show ?thesis unfolding dispatch_Cons using s by simp
  next
    case (Suc m)
    then have m: "m < length js" "sorted (map jb_delay js)" "jb_delay j \<le> jb_delay (js ! m)" using Cons.prems by auto
    have "snd (dispatch busy late t0 (Suc k) ?s js ! m) \<le> max ?s (t0 + jb_delay (js ! m)) + lag busy late (Suc k) m"
      using Cons.IH [OF m(2,1)] by blast
    also have "max ?s (t0 + jb_delay (js ! m)) \<le> max now (t0 + jb_delay (js ! m)) + (busy k + late k)"
      using s(2) m(3) assms(1) [of k] assms(2) [of k] by auto
    finally show ?thesis using Cons.IH [OF m(2,1), of "Suc k" ?s] unfolding Suc dispatch_Cons lag_Suc by simp
  qed
qed simp

text \<open>
  \<^bold>\<open>C30.\<close> Every flow is submitted exactly once, in the order of the delays, never before
  its time, and no later than the time the loop and late wake-ups have cost up to then:
  waiting for one flow does not delay another.
\<close>

theorem dispatch_on_time:
  assumes "new_scheduler flows workers timeout save = Inr sc" "sched_dispatch busy late t0 sc = (subs, sc')"
    and "\<And>l. 0 \<le> busy l" "\<And>l. 0 \<le> late l"
  shows "mset (map fst subs) = mset flows \<and> sorted (map snd subs) \<and>
    (\<forall>i < length subs. t0 + jb_delay (fst (subs ! i)) \<le> snd (subs ! i) \<and>
       snd (subs ! i) \<le> t0 + max 0 (jb_delay (fst (subs ! i))) + (\<Sum>l \<le> i. busy l + late l))"
proof -
  let ?js = "sort_key jb_delay flows"
  have "sc_flows sc = ?js" using assms(1) by (auto simp: new_scheduler_def split: if_splits)
  then have subs: "subs = dispatch busy late t0 0 t0 ?js" using assms(2) by (simp add: sched_dispatch_def)
  then have jobs: "map fst subs = ?js" by (simp add: dispatch_jobs)
  have "t0 + jb_delay (fst (subs ! i)) \<le> snd (subs ! i) \<and>
       snd (subs ! i) \<le> t0 + max 0 (jb_delay (fst (subs ! i))) + (\<Sum>l \<le> i. busy l + late l)" if i: "i < length subs" for i
  proof -
    have f: "fst (subs ! i) = ?js ! i" using i jobs by (metis nth_map)
    have "i < length ?js" using i jobs by (metis length_map)
    from dispatch_bounds [where busy = busy and late = late, OF assms(3,4) sorted_sort_key this, of t0 0 t0]
    have "t0 + jb_delay (?js ! i) \<le> snd (subs ! i)"
      "snd (subs ! i) \<le> max t0 (t0 + jb_delay (?js ! i)) + lag busy late 0 i" by (auto simp: subs)
    moreover have "max t0 (t0 + jb_delay (?js ! i)) = t0 + max 0 (jb_delay (?js ! i))" by (auto simp: max_def)
    ultimately show ?thesis by (simp add: f atLeast0AtMost)
  qed
  then show ?thesis using jobs dispatch_sorted [where busy = busy and late = late, OF assms(3,4), of t0 0 t0 ?js] by (simp add: subs)
qed

definition demo_jobs :: "job list" where
  "demo_jobs = [\<lparr>jb_id = 1, jb_label = ''b'', jb_delay = 3\<rparr>, \<lparr>jb_id = 2, jb_label = ''a'', jb_delay = 1\<rparr>]"

lemma dispatch_on_time_witness:
  "sorted (map snd (fst (sched_dispatch (\<lambda>_. 1) (\<lambda>_. 0) 10 (projr (new_scheduler demo_jobs 4 (Some 180) True) :: nat scheduler))))"
proof -
  have "new_scheduler demo_jobs 4 (Some 180) True = Inr (projr (new_scheduler demo_jobs 4 (Some 180) True) :: nat scheduler)"
    by (simp add: new_scheduler_def)
  from dispatch_on_time [OF this prod.collapse [symmetric], of "\<lambda>_. 1" "\<lambda>_. 0" 10] show ?thesis by auto
qed

section \<open>Active flows\<close>

text \<open>The callbacks of the workers interleave; a worker reports the end of a flow it has
  reported the start of. The multiset holds the labels of the flows between the two.\<close>

inductive sched_reach :: "'r scheduler \<Rightarrow> string multiset \<Rightarrow> nat \<Rightarrow> bool" where
  sched_fresh: "sched_run sc = Inr sc' \<Longrightarrow> sched_reach sc' {#} 0"
| sched_starts: "sched_reach sc R n \<Longrightarrow> sched_reach (on_flow_start l sc) (add_mset l R) n"
| sched_ends: "sched_reach sc R n \<Longrightarrow> l \<in># R \<Longrightarrow> sched_reach (on_flow_done l sc) (R - {#l#}) (Suc n)"

definition counts :: "(string, int) dict \<Rightarrow> string multiset \<Rightarrow> bool" where
  "counts d R = (dict_ok d \<and> (\<forall>l. dict_get d l = (if l \<in># R then Some (int (count R l)) else None)))"

lemma counts_get: "counts d R \<Longrightarrow> dict_get_or d l 0 = int (count R l)"
  by (auto simp: counts_def dict_get_or_def not_in_iff)

lemma counts_start: "counts d R \<Longrightarrow> counts (dict_set l (int (count R l) + 1) d) (add_mset l R)"
  by (auto simp: counts_def)

lemma counts_end:
  assumes "counts d R" "l \<in># R"
  shows "counts (if int (count R l) \<le> 1 then dict_pop l d else dict_set l (int (count R l) - 1) d) (R - {#l#})"
proof (cases "count R l = 1")
  case True
  then show ?thesis using assms by (auto simp: counts_def in_diff_count)
next
  case False
  then have "1 < count R l" using assms(2) by (metis One_nat_def count_eq_zero_iff less_one nat_neq_iff)
  then show ?thesis using assms by (auto simp: counts_def in_diff_count of_nat_diff)
qed

lemma counts_total: "counts d R \<Longrightarrow> sum_list (dict_vals d) = int (size R)"
proof -
  assume c: "counts d R"
  then have k: "dict_ok d" by (simp add: counts_def)
  have "l \<in> set (dict_keys d) \<longleftrightarrow> l \<in># R" for l
    using c dict_get_None [of d l] by (auto simp: counts_def split: if_splits)
  then have e: "set (dict_keys d) = set_mset R" by blast
  have v: "dict_vals d = map (\<lambda>k. the (dict_get d k)) (dict_keys d)" using k by (auto simp: o_def)
  have "sum_list (dict_vals d) = (\<Sum>k \<in> set_mset R. the (dict_get d k))"
    unfolding v e [symmetric] by (rule sum_list_distinct_conv_sum_set [OF k])
  also have "\<dots> = (\<Sum>k \<in> set_mset R. int (count R k))" using c by (auto simp: counts_def)
  finally show ?thesis by (simp add: size_multiset_overloaded_eq)
qed

text \<open>
  \<^bold>\<open>C32.\<close> However the workers interleave, a progress report shows the number of flows
  between start and end, the number that ended and the total; the table of active flows
  has an entry for exactly the labels of running flows, with their multiplicity.
\<close>

theorem active_flows_exact:
  assumes "sched_reach sc R n"
  shows "progress_numbers sc = (int (size R), n, sc_total sc) \<and>
    (\<forall>l. dict_get (sc_active sc) l = (if l \<in># R then Some (int (count R l)) else None))"
proof -
  have "counts (sc_active sc) R \<and> sc_completed sc = n"
    using assms
  proof (induction rule: sched_reach.induct)
    case (sched_fresh sc sc')
    then show ?case by (auto simp: sched_run_def counts_def split: if_splits)
  next
    case (sched_starts sc R n l)
    then show ?case using counts_start [of "sc_active sc" R l] counts_get [of "sc_active sc" R l] by (simp add: on_flow_start_def)
  next
    case (sched_ends sc R n l)
    then show ?case using counts_end [of "sc_active sc" R l] counts_get [of "sc_active sc" R l]
      by (simp add: on_flow_done_def Let_def)
  qed
  then show ?thesis using counts_total by (auto simp: progress_numbers_def counts_def)
qed

definition demo_sched :: "bool \<Rightarrow> nat scheduler" where
  "demo_sched save = \<lparr>sc_flows = [], sc_workers = 4, sc_timeout = None, sc_save = save, sc_active = [], sc_results = [],
     sc_map = [], sc_total = 2, sc_completed = 0, sc_status = SchedRunning, sc_errors = [], sc_fatal = None\<rparr>"

lemma demo_sched_run: "sched_run (demo_sched save\<lparr>sc_status := SchedIdle\<rparr>) = Inr (demo_sched save)"
  by (simp add: sched_run_def demo_sched_def)

lemma active_flows_exact_witness:
  "progress_numbers (on_flow_done ''b'' (on_flow_start ''a'' (on_flow_start ''b'' (demo_sched True)))) = (1, 1, 2)"
proof -
  have "sched_reach (on_flow_start ''a'' (on_flow_start ''b'' (demo_sched True))) {#''a'', ''b''#} 0"
    by (intro sched_starts sched_fresh [OF demo_sched_run])
  then have "sched_reach (on_flow_done ''b'' (on_flow_start ''a'' (on_flow_start ''b'' (demo_sched True)))) ({#''a'', ''b''#} - {#''b''#}) (Suc 0)"
    by (rule sched_ends) simp
  from active_flows_exact [OF this] show ?thesis
    by (simp add: on_flow_done_def on_flow_start_def demo_sched_def Let_def)
qed

section \<open>Outcomes\<close>

definition failures :: "(job \<times> 'r result) list \<Rightarrow> pyerr list" where
  "failures futs = List.map_filter (\<lambda>(j, r). case r of Inl e \<Rightarrow> Some e | Inr _ \<Rightarrow> None) futs"

definition successes :: "(job \<times> 'r result) list \<Rightarrow> (nat \<times> 'r) list" where
  "successes futs = List.map_filter (\<lambda>(j, r). case r of Inl _ \<Rightarrow> None | Inr x \<Rightarrow> Some (jb_id j, x)) futs"

lemma collect_fold:
  "foldl collect_one (sc, errs, freed) futs =
    (if sc_save sc
     then (sc\<lparr>sc_results := sc_results sc @ map snd (successes futs),
             sc_map := foldl (\<lambda>d (k, v). dict_set k v d) (sc_map sc) (successes futs)\<rparr>, errs @ failures futs, freed)
     else (sc, errs @ failures futs, freed @ map fst (successes futs)))"
proof (induction futs arbitrary: sc errs freed)
  case (Cons f futs)
  then show ?case
    by (cases f) (auto simp: collect_one_def failures_def successes_def List.map_filter_simps split: sum.splits)
qed (simp add: failures_def successes_def List.map_filter_simps)

lemma successes_Cons:
  "successes ((j, r) # futs) = (case r of Inl _ \<Rightarrow> successes futs | Inr x \<Rightarrow> (jb_id j, x) # successes futs)"
  by (simp add: successes_def List.map_filter_simps split: sum.splits)

lemma successes_in: "(i, x) \<in> set (successes futs) \<Longrightarrow> i \<in> set (map (jb_id \<circ> fst) futs)"
  by (force simp: successes_def map_filter_def split: sum.splits)

lemma successes_ids: "distinct (map (jb_id \<circ> fst) futs) \<Longrightarrow> distinct (map fst (successes futs))"
proof (induction futs)
  case (Cons f futs)
  obtain i q where f: "f = (i, q)" by (cases f)
  have "jb_id i \<notin> fst ` set (successes futs)" using successes_in [of "jb_id i" _ futs] Cons.prems by (auto simp: f)
  then show ?case using Cons by (auto simp: f successes_Cons split: sum.splits)
qed (simp add: successes_def List.map_filter_simps)

lemma successes_get:
  assumes "distinct (map (jb_id \<circ> fst) futs)" "(j, r) \<in> set futs"
  shows "map_of (successes futs) (jb_id j) = (case r of Inl _ \<Rightarrow> None | Inr x \<Rightarrow> Some x)"
  using assms
proof (induction futs)
  case (Cons f futs)
  obtain i q where f: "f = (i, q)" by (cases f)
  have "jb_id i \<notin> fst ` set (successes futs)" using successes_in [of "jb_id i" _ futs] Cons.prems by (auto simp: f)
  then have "map_of (successes futs) (jb_id i) = None" by (simp add: map_of_eq_None_iff)
  moreover have "jb_id i \<noteq> jb_id j" if "(j, r) \<in> set futs" using that Cons.prems(1) by (force simp: f)
  moreover have "map_of (successes futs) (jb_id j) = (case r of Inl _ \<Rightarrow> None | Inr x \<Rightarrow> Some x)" if "(j, r) \<in> set futs"
    using that Cons by simp
  ultimately show ?case using Cons.prems(2) by (auto simp: f successes_Cons split: sum.splits)
qed simp

text \<open>
  Once the schedule has ended, every flow is accounted for: \<open>errors\<close> lists exactly
  the exceptions of the failed flows, and \<open>results\<close> gives for each flow its own result or
  a \<open>KeyError\<close>. A scheduler that keeps no results answers neither, and it empties the
  flows that succeeded: a flow that is \<open>DONE\<close> then has no result.
\<close>

theorem sched_outcomes:
  assumes "sched_run sc0 = Inr sc" "distinct (map (jb_id \<circ> fst) futs)" "sched_collect (Inr futs) sc = (sc', freed)"
  shows "sched_errors sc' = Inr (failures futs) \<and> length (failures futs) + length (successes futs) = length futs \<and>
    (sc_save sc \<longrightarrow> freed = [] \<and> (\<forall>(j, r) \<in> set futs. sched_result sc' (jb_id j) =
       (case r of Inl _ \<Rightarrow> Inl (KeyError ''No result found for flow'') | Inr x \<Rightarrow> Inr x))) \<and>
    (\<not> sc_save sc \<longrightarrow> (\<forall>(j, r) \<in> set futs. sched_result sc' (jb_id j) = Inl (RuntimeError ''per-flow results are not retained'') \<and>
       (is_ok r \<longrightarrow> (\<forall>fl :: ('c, 'r) flow. fl_status fl = FlowDone \<longrightarrow> flow_results (release_result freed (jb_id j) fl) = Inr None))))"
proof -
  have m: "sc_map sc = []" using assms(1) by (auto simp: sched_run_def split: if_splits)
  have sc': "sc' = (if sc_save sc then sc\<lparr>sc_results := sc_results sc @ map snd (successes futs), sc_map := dict_of (successes futs)\<rparr> else sc)
      \<lparr>sc_errors := failures futs, sc_status := SchedDone\<rparr>" "freed = (if sc_save sc then [] else map fst (successes futs))"
    using assms(3) by (auto simp: sched_collect_def collect_fold m dict_of_def split: if_splits)
  have len: "length (failures futs) + length (successes futs) = length futs"
    by (induction futs) (auto simp: failures_def successes_def List.map_filter_simps split: sum.splits)
  have get: "dict_get (dict_of (successes futs)) (jb_id j) = (case r of Inl _ \<Rightarrow> None | Inr x \<Rightarrow> Some x)" if "(j, r) \<in> set futs" for j r
    using successes_get [OF assms(2) that] successes_ids [OF assms(2)] by (simp add: dict_get_dict_of_distinct)
  have "jb_id j \<in> set (map fst (successes futs))" if "(j, Inr x) \<in> set futs" for j x
    using successes_get [OF assms(2) that] by (force dest: map_of_SomeD)
  then have "flow_results (release_result freed (jb_id j) fl) = Inr None"
    if "\<not> sc_save sc" "(j, r) \<in> set futs" "is_ok r" "fl_status fl = FlowDone" for j r and fl :: "('c, 'r) flow"
    using that sc'(2) by (cases r) (auto simp: release_result_def flow_results_def)
  moreover have "sched_result sc' (jb_id j) = (case r of Inl _ \<Rightarrow> Inl (KeyError ''No result found for flow'') | Inr x \<Rightarrow> Inr x)"
    if "sc_save sc" "(j, r) \<in> set futs" for j r
    using that get [OF that(2)] by (auto simp: sc' sched_result_def split: sum.splits)
  moreover have "sched_result sc' i = Inl (RuntimeError ''per-flow results are not retained'')" if "\<not> sc_save sc" for i
    using that by (simp add: sc' sched_result_def)
  ultimately show ?thesis using len by (auto simp: sc' sched_errors_def)
qed

lemma sched_outcomes_witness:
  "sched_result (fst (sched_collect (Inr [(\<lparr>jb_id = 1, jb_label = ''a'', jb_delay = 0\<rparr>, Inr 7),
      (\<lparr>jb_id = 2, jb_label = ''b'', jb_delay = 0\<rparr>, Inl (ValueError ''x''))]) (demo_sched True))) 1 = Inr 7"
proof -
  let ?f = "[(\<lparr>jb_id = 1, jb_label = ''a'', jb_delay = 0\<rparr>, Inr 7), (\<lparr>jb_id = 2, jb_label = ''b'', jb_delay = 0\<rparr>, Inl (ValueError ''x''))]"
  have "distinct (map (jb_id \<circ> fst) ?f)" by simp
  from sched_outcomes [OF demo_sched_run [of True] this prod.collapse [symmetric]] show ?thesis
    by (simp add: demo_sched_def)
qed

end
