(* ===== verification/Manager.thy ===== *)
theory Manager
  imports HIL Scheduler
begin

text \<open>
  The manager, \<open>services/topology_satcom.py\<close> and its mixins \<open>network_lifecycle.py\<close>,
  \<open>simulation_loop.py\<close>, \<open>routing_mgr.py\<close>, \<open>controller.py\<close> and the routing update of
  \<open>link_ops.py\<close>: configuration and saved files, the graph that routing works on, and the
  state machine of network, simulation loop and routing.

  The GoNetem server, the host and the initialisation of a routing daemon are parameters.
  The simulation step itself is \<open>update_simulation\<close> of the theory Topology. Elapsed times
  and logging are left out, and so are the parts that only call the simulation library.
\<close>

section \<open>Configuration\<close>

record net_config =
  cf_project :: "string option"
  cf_update_time :: int
  cf_gnd_cap :: int
  cf_isl_cap :: int
  cf_gobj_cap :: int
  cf_protocol :: string
  cf_routing :: string
  cf_image :: string
  cf_launcher :: string
  cf_server :: string
  cf_budget :: bool
  cf_veth_host :: string
  cf_veth_peer :: string
  cf_host_ip :: string
  cf_prefix :: int
  cf_bridge :: string
  cf_pattern :: string

definition default_net_config :: net_config where
  "default_net_config = \<lparr>cf_project = None, cf_update_time = 5, cf_gnd_cap = 100000, cf_isl_cap = 100000, cf_gobj_cap = 100000,
     cf_protocol = ''ipv4'', cf_routing = ''static'', cf_image = ''jariassuarez/sgnt:satellite'', cf_launcher = ''GONETEM'',
     cf_server = ''localhost:10110'', cf_budget = False, cf_veth_host = ''veth-host'', cf_veth_peer = ''veth-controller'',
     cf_host_ip = ''248.0.0.2'', cf_prefix = 16, cf_bridge = ''Controller'', cf_pattern = ''eth{node_id}''\<rparr>"

text \<open>The attributes of the manager: the configuration, with the project name made unique by
  the time \<open>now\<close> of construction.\<close>

definition apply_network_config :: "string option \<Rightarrow> nat \<Rightarrow> net_config \<Rightarrow> net_config" where
  "apply_network_config sim_name now cfg =
    (let base = (case cf_project cfg of Some n \<Rightarrow> if n = [] then None else Some n | None \<Rightarrow> None);
         nm = (case base of Some n \<Rightarrow> n | None \<Rightarrow> (case sim_name of Some n \<Rightarrow> n | None \<Rightarrow> ''Constellation''))
     in cfg\<lparr>cf_project := Some (nm @ ''_'' @ dec now)\<rparr>)"

text \<open>The configuration that \<open>to_file\<close> builds from the attributes when it is given none.\<close>

definition saved_config :: "net_config \<Rightarrow> net_config" where
  "saved_config attrs = default_net_config\<lparr>cf_project := cf_project attrs, cf_update_time := cf_update_time attrs,
     cf_gnd_cap := cf_gnd_cap attrs, cf_isl_cap := cf_isl_cap attrs, cf_gobj_cap := cf_gobj_cap attrs, cf_protocol := cf_protocol attrs,
     cf_routing := cf_routing attrs, cf_image := cf_image attrs, cf_launcher := cf_launcher attrs, cf_server := cf_server attrs,
     cf_budget := cf_budget attrs\<rparr>"

section \<open>Ground station files\<close>

text \<open>A file system is a partial map from paths to contents.\<close>

type_synonym files = "string \<Rightarrow> string option"

definition path_basename :: "string \<Rightarrow> string" where
  "path_basename p = rev (takeWhile (\<lambda>c. c \<noteq> CHR ''/'') (rev p))"

definition collect_ground_files :: "files \<Rightarrow> string list \<Rightarrow> (string, string \<times> string) dict" where
  "collect_ground_files fs data_files = foldl (\<lambda>d p. if p = [] then d else (case fs p of
     None \<Rightarrow> d | Some content \<Rightarrow> dict_set p (content, path_basename p) d)) [] data_files"

definition restore_ground_files :: "string \<Rightarrow> (string, string \<times> string) dict \<Rightarrow> files \<Rightarrow> files \<times> (string, string) dict" where
  "restore_ground_files dir gfiles fs = foldl (\<lambda>(fs, pm) (p, content, base).
     (fs(dir @ ''/'' @ base := Some content), dict_set p (dir @ ''/'' @ base) pm)) (fs, []) gfiles"

definition relocate :: "(string, string) dict \<Rightarrow> string \<Rightarrow> string" where
  "relocate pm p = dict_get_or pm p p"

section \<open>The graph of the routing daemons\<close>

record edge =
  ed_u :: int
  ed_v :: int
  ed_type :: "string option"
  ed_distance :: "rat option"
  ed_disabled :: bool

definition known_preferences :: "string list" where
  "known_preferences = [''hops_prefer_ISLs'', ''hops_no_preference'', ''latency_prefer_ISLs'', ''latency_no_preference'']"

definition effective_preference :: "string \<Rightarrow> string" where
  "effective_preference p = (if p \<in> set known_preferences then p else ''latency_no_preference'')"

definition node_label :: "int list \<Rightarrow> int list \<Rightarrow> int \<Rightarrow> string option" where
  "node_label sats gss i = (if i \<in> set sats then Some (''Sat'' @ dec_int i)
     else if i \<in> set gss then Some (''Gnd'' @ dec_int i) else None)"

definition wrapper_link :: "int list \<Rightarrow> int list \<Rightarrow> (string set, link) dict \<Rightarrow> int \<Rightarrow> int \<Rightarrow> link option" where
  "wrapper_link sats gss links u v = (case (node_label sats gss u, node_label sats gss v) of
     (Some a, Some b) \<Rightarrow> dict_get links {a, b} | _ \<Rightarrow> None)"

definition is_routable :: "int list \<Rightarrow> int list \<Rightarrow> (string set, link) dict \<Rightarrow> edge \<Rightarrow> bool" where
  "is_routable sats gss links e = (\<not> ed_disabled e \<and>
     (case wrapper_link sats gss links (ed_u e) (ed_v e) of None \<Rightarrow> True | Some l \<Rightarrow> lk_active l))"

definition edge_weight :: "string \<Rightarrow> edge \<Rightarrow> rat" where
  "edge_weight pref e =
    (if pref = ''hops_prefer_ISLs'' \<or> pref = ''hops_no_preference''
     then if pref = ''hops_prefer_ISLs'' \<and> ed_type e = Some ''InterSatelliteLink'' then 1 / 2 else 1
     else let d = (case ed_distance e of Some d \<Rightarrow> d | None \<Rightarrow> 1)
          in if pref = ''latency_prefer_ISLs'' \<and> ed_type e = Some ''InterSatelliteLink'' then d / 10 else d)"

definition current_graph :: "string \<Rightarrow> topology \<Rightarrow> edge list \<Rightarrow> (edge \<times> rat) list" where
  "current_graph preference tp edges =
    (let sats = dict_keys (nt_sats tp); gss = dict_keys (nt_gss tp); pref = effective_preference preference
     in map (\<lambda>e. (e, edge_weight pref e)) (filter (is_routable sats gss (tp_links tp)) edges))"

section \<open>State of the manager\<close>

record 'k manager =
  mg_config :: net_config
  mg_running :: bool
  mg_loop :: bool
  mg_update_time :: int
  mg_factor :: int
  mg_status :: bool
  mg_gonetem :: bool
  mg_registry :: "string list"
  mg_routing :: string
  mg_daemon :: "string option"
  mg_initiated :: bool
  mg_flows :: "(nat \<times> flow_status) list"
  mg_em :: "'k emulator"

definition new_manager :: "string list \<Rightarrow> net_config \<Rightarrow> 'k \<Rightarrow> 'k manager" where
  "new_manager registry attrs k = \<lparr>mg_config = attrs, mg_running = False, mg_loop = False, mg_update_time = cf_update_time attrs,
     mg_factor = 100, mg_status = False, mg_gonetem = False, mg_registry = registry, mg_routing = cf_routing attrs,
     mg_daemon = None, mg_initiated = False, mg_flows = [], mg_em = \<lparr>em_launcher = None, em_hil = None, em_kernel = k\<rparr>\<rparr>"

section \<open>Simulation loop\<close>

definition loop_start :: "'k manager \<Rightarrow> 'k manager result" where
  "loop_start mg = (if mg_running mg then Inr mg
     else if (case cf_project (mg_config mg) of None \<Rightarrow> True | Some n \<Rightarrow> n = []) then Inl (RuntimeError ''Open or create a project first.'')
     else Inr (mg\<lparr>mg_running := True, mg_loop := True\<rparr>))"

definition loop_stop :: "'k manager \<Rightarrow> 'k manager" where
  "loop_stop mg = mg\<lparr>mg_running := False, mg_loop := False\<rparr>"

text \<open>The body ends, after the event was set or by an exception of a step.\<close>

definition loop_end :: "'k manager \<Rightarrow> 'k manager" where
  "loop_end mg = mg\<lparr>mg_running := False, mg_loop := False\<rparr>"

definition loop_wait :: "rat \<Rightarrow> rat \<Rightarrow> rat \<Rightarrow> rat" where
  "loop_wait update_time factor elapsed = max (1 / 100) (max (1 / 100) (update_time * factor) - elapsed)"

text \<open>The update factor in hundredths; \<open>rnd\<close> rounds to a whole number of them.\<close>

definition speed_up :: "(rat \<Rightarrow> int) \<Rightarrow> 'k manager \<Rightarrow> 'k manager" where
  "speed_up rnd mg = mg\<lparr>mg_factor := max 1 (rnd (of_int (mg_factor mg) * 9 / 10))\<rparr>"

definition speed_down :: "(rat \<Rightarrow> int) \<Rightarrow> 'k manager \<Rightarrow> 'k manager" where
  "speed_down rnd mg = mg\<lparr>mg_factor := min 1000 (rnd (of_int (mg_factor mg) * 11 / 10))\<rparr>"

definition set_update_time :: "int \<Rightarrow> 'k manager \<Rightarrow> 'k manager" where
  "set_update_time seconds mg = mg\<lparr>mg_update_time := max 1 seconds\<rparr>"

text \<open>Link failure: the links removed from the simulation, and the error that stops it.\<close>

fun fail_links :: "string option list \<Rightarrow> string list \<times> pyerr option" where
  "fail_links [] = ([], None)"
| "fail_links (t # ts) = (case t of
     Some ty \<Rightarrow> if ty \<in> {''InterSatelliteLink'', ''GroundStationLink'', ''UserTerminalLink''}
       then (let (removed, err) = fail_links ts in (ty # removed, err))
       else ([], Some (OtherError ''AttributeError''))
   | None \<Rightarrow> ([], Some (OtherError ''AttributeError'')))"

section \<open>Network lifecycle\<close>

definition launch_split :: "hil option \<Rightarrow> node list \<Rightarrow> link list \<Rightarrow> node list \<times> link list \<times> link list" where
  "launch_split hil nodes links = (case hil of
     None \<Rightarrow> (nodes, links, [])
   | Some h \<Rightarrow> (filter (\<lambda>n. \<not> is_hil_node h (nd_name n)) nodes, filter (\<lambda>l. \<not> is_hil_link h l) links, filter (is_hil_link h) links))"

definition start_gonetem :: "server \<Rightarrow> (real \<Rightarrow> string) \<Rightarrow> (node \<Rightarrow> string) \<Rightarrow> 'k kernel \<Rightarrow> bool \<Rightarrow> topology \<Rightarrow> 'k manager \<Rightarrow>
    unit result \<times> 'k manager" where
  "start_gonetem sv show image_of kdo ctl tp mg =
    (if mg_gonetem mg then (Inr (), mg)
     else let cfg = mg_config mg;
              la = new_launcher (case cf_project cfg of Some n \<Rightarrow> n | None \<Rightarrow> []) (cf_isl_cap cfg) (cf_gnd_cap cfg) (cf_gobj_cap cfg);
              nodes = dict_vals (nt_sats tp) @ dict_vals (nt_gss tp);
              (launch_nodes, launch_links, hil_links) =
                launch_split (em_hil (mg_em mg)) nodes (filter lk_active (dict_vals (tp_links tp)))
          in (case start_containers sv show image_of ctl launch_nodes (Some launch_links) tp la of
                (Inl e, _) \<Rightarrow> (Inl e, mg)
              | (Inr res, la1) \<Rightarrow>
                  let em = mg_em mg;
                      em1 = (case em_hil em of None \<Rightarrow> em
                             | Some h \<Rightarrow> on_hil (wire_links kdo (dict_get (dict_of (st_pids res))) hil_links) h em)
                  in (Inr (), mg\<lparr>mg_em := em1\<lparr>em_launcher := Some la1\<rparr>, mg_status := True, mg_gonetem := True\<rparr>)))"

definition teardown_network :: "server \<Rightarrow> 'k kernel \<Rightarrow> 'k manager \<Rightarrow> unit result \<times> 'k manager" where
  "teardown_network sv kdo mg =
    (let em = mg_em mg;
         em1 = (case em_hil em of None \<Rightarrow> em | Some h \<Rightarrow> on_hil (teardown_all kdo) h em);
         mg1 = mg\<lparr>mg_status := False, mg_em := em1\<rparr>;
         closed = mg1\<lparr>mg_gonetem := False, mg_initiated := False\<rparr>
     in (case em_launcher em1 of
           None \<Rightarrow> (Inr (), closed)
         | Some la \<Rightarrow> (case close_project sv la of
               ((_, Some e), la1) \<Rightarrow> (Inl e, mg1\<lparr>mg_em := em1\<lparr>em_launcher := Some la1\<rparr>\<rparr>)
             | ((_, None), la1) \<Rightarrow> (Inr (), closed\<lparr>mg_em := em1\<lparr>em_launcher := Some la1\<rparr>\<rparr>))))"

text \<open>The second component is the identities of the flows that were asked to stop.\<close>

definition stop_gonetem :: "server \<Rightarrow> 'k kernel \<Rightarrow> 'k manager \<Rightarrow> unit result \<times> nat list \<times> 'k manager" where
  "stop_gonetem sv kdo mg =
    (let mg1 = (if mg_running mg \<or> mg_loop mg then loop_stop mg else mg);
         stopped = map fst (filter (\<lambda>(i, s). s = FlowRunning) (mg_flows mg1));
         (r, mg2) = teardown_network sv kdo (mg1\<lparr>mg_flows := []\<rparr>)
     in (r, stopped, mg2))"

definition force_stop_gonetem :: "server \<Rightarrow> 'k kernel \<Rightarrow> 'k manager \<Rightarrow> unit result \<times> 'k manager" where
  "force_stop_gonetem sv kdo mg = teardown_network sv kdo mg"

section \<open>Routing\<close>

definition builtin_methods :: "string list" where
  "builtin_methods = [''static'', ''dynamic-ospf'', ''dynamic-isis'', ''sr-mpls'']"

definition register_routing_daemon :: "string \<Rightarrow> bool \<Rightarrow> string list \<Rightarrow> string list result" where
  "register_routing_daemon nm is_daemon_class registry =
    (if nm \<in> set builtin_methods then Inl (ValueError ''is a built-in routing method and cannot be overridden'')
     else if \<not> is_daemon_class then Inl (TypeError ''daemon_class must be a subclass of RoutingDaemon'')
     else Inr (if nm \<in> set registry then registry else registry @ [nm]))"

definition known_method :: "'k manager \<Rightarrow> string \<Rightarrow> bool" where
  "known_method mg m = (m \<in> set builtin_methods \<or> m \<in> set (mg_registry mg))"

text \<open>Whether routing is initialised now; \<open>works\<close> tells whether the daemon of a method starts.\<close>

definition init_routing :: "(string \<Rightarrow> bool) \<Rightarrow> string \<Rightarrow> 'k manager \<Rightarrow> bool \<times> 'k manager" where
  "init_routing works method mg =
    (let mg1 = (if method = [] then mg else mg\<lparr>mg_routing := method\<rparr>); m = mg_routing mg1
     in if \<not> known_method mg1 m then (False, mg1)
        else let mg2 = mg1\<lparr>mg_daemon := Some m\<rparr>
             in if works m then (True, mg2\<lparr>mg_initiated := True\<rparr>) else (False, mg2))"

definition delete_routing :: "'k manager \<Rightarrow> bool \<times> 'k manager" where
  "delete_routing mg = (if \<not> mg_initiated mg \<or> mg_daemon mg = None then (False, mg)
     else (True, mg\<lparr>mg_initiated := False, mg_daemon := None\<rparr>))"

text \<open>The daemon that is told about new links after a step, if any.\<close>

definition update_routing_after :: "'k manager \<Rightarrow> string option" where
  "update_routing_after mg = (if \<not> mg_initiated mg then None
     else case mg_daemon mg of None \<Rightarrow> None | Some d \<Rightarrow> if known_method mg (mg_routing mg) then Some d else None)"

text \<open>The daemon that rebuilds its routes after a jump in time.\<close>

definition rebuild_routing :: "'k manager \<Rightarrow> string option" where
  "rebuild_routing mg = (if mg_status mg then mg_daemon mg else None)"

section \<open>Controller plane\<close>

definition management_interface :: "int \<Rightarrow> string" where
  "management_interface node_id = ''eth'' @ dec_int (50000 + node_id)"

text \<open>Addresses of the nodes, in order, and the names of those that failed.\<close>

fun address_nodes :: "'w shell \<Rightarrow> int \<Rightarrow> node list \<Rightarrow> 'w \<Rightarrow> (string \<times> string) list \<times> string list \<times> 'w" where
  "address_nodes sh pfx [] w = ([], [], w)"
| "address_nodes sh pfx (n # ns) w =
    (case build_controller_ip (nd_id n) of
       Inl _ \<Rightarrow> (let (ips, bad, w1) = address_nodes sh pfx ns w in (ips, nd_name n # bad, w1))
     | Inr ip \<Rightarrow>
        (case sh (nd_name n) (''ip addr add '' @ ip @ ''/'' @ dec_int pfx @ '' dev '' @ management_interface (nd_id n)) False w of
           (Inl _, w1) \<Rightarrow> (let (ips, bad, w2) = address_nodes sh pfx ns w1 in (ips, nd_name n # bad, w2))
         | (Inr _, w1) \<Rightarrow> (let (ips, bad, w2) = address_nodes sh pfx ns w1 in ((nd_name n, ip) # ips, bad, w2))))"

definition setup_controller_addressing :: "'w shell \<Rightarrow> int \<Rightarrow> topology \<Rightarrow> 'w \<Rightarrow> (string, string) dict result \<times> 'w" where
  "setup_controller_addressing sh pfx tp w =
    (let (ips, bad, w1) = address_nodes sh pfx (dict_vals (nt_sats tp) @ dict_vals (nt_gss tp)) w
     in (if bad \<noteq> [] then Inl (RuntimeError ''Controller addressing failed'') else Inr (dict_of ips), w1))"

text \<open>\<open>host argv k\<close> runs a program on the host: success, standard output, new state.\<close>

type_synonym 'k host_run = "string list \<Rightarrow> 'k \<Rightarrow> bool \<times> string \<times> 'k"

definition remove_controller_veth :: "'k host_run \<Rightarrow> net_config \<Rightarrow> string option \<Rightarrow> 'k \<Rightarrow> 'k" where
  "remove_controller_veth host cfg ovs_cid k =
    (let k1 = (case ovs_cid of
        Some cid \<Rightarrow> if cid = [] then k
          else snd (snd (host [''docker'', ''exec'', cid, ''ovs-vsctl'', ''--if-exists'', ''del-port'', cf_bridge cfg, cf_veth_peer cfg] k))
      | None \<Rightarrow> k)
     in snd (snd (host [''sudo'', ''ip'', ''link'', ''delete'', cf_veth_host cfg] k1)))"

definition find_ovs :: "'k host_run \<Rightarrow> 'k \<Rightarrow> string option \<times> 'k" where
  "find_ovs host k = (case host [''docker'', ''ps'', ''--filter'', ''name=.ovs'', ''--format'', ''{{.ID}}''] k of
     (ok, out, k1) \<Rightarrow> (if \<not> ok then None else case py_splitlines (py_strip out) of [] \<Rightarrow> None | cid # _ \<Rightarrow> Some cid, k1))"

text \<open>Programs that must succeed, one after the other.\<close>

fun run_checked :: "'k host_run \<Rightarrow> string list list \<Rightarrow> 'k \<Rightarrow> bool \<times> 'k" where
  "run_checked host [] k = (True, k)"
| "run_checked host (c # cs) k = (case host c k of (ok, _, k1) \<Rightarrow> if ok then run_checked host cs k1 else (False, k1))"

definition controller_steps :: "'k host_run \<Rightarrow> net_config \<Rightarrow> string \<Rightarrow> 'k \<Rightarrow> bool \<times> 'k" where
  "controller_steps host cfg cid k =
    (case run_checked host
        [[''sudo'', ''ip'', ''link'', ''add'', cf_veth_host cfg, ''type'', ''veth'', ''peer'', ''name'', cf_veth_peer cfg],
         [''sudo'', ''ip'', ''link'', ''set'', cf_veth_host cfg, ''up'']] k of
       (False, k1) \<Rightarrow> (False, k1)
     | (True, k1) \<Rightarrow>
        (case host [''docker'', ''inspect'', ''-f'', ''{{.State.Pid}}'', cid] k1 of
           (False, _, k2) \<Rightarrow> (False, k2)
         | (True, pid, k2) \<Rightarrow> run_checked host
             [[''sudo'', ''ip'', ''link'', ''set'', cf_veth_peer cfg, ''netns'', py_strip pid],
              [''docker'', ''exec'', cid, ''ip'', ''link'', ''set'', cf_veth_peer cfg, ''up''],
              [''docker'', ''exec'', cid, ''ovs-vsctl'', ''--may-exist'', ''add-port'', cf_bridge cfg, cf_veth_peer cfg],
              [''sudo'', ''ip'', ''addr'', ''add'', cf_host_ip cfg @ ''/'' @ dec_int (cf_prefix cfg), ''dev'', cf_veth_host cfg]] k2))"

definition setup_controller_connection :: "'k host_run \<Rightarrow> net_config \<Rightarrow> 'k \<Rightarrow> unit result \<times> 'k" where
  "setup_controller_connection host cfg k = (case find_ovs host k of
     (None, k1) \<Rightarrow> (Inl (RuntimeError ''Could not find an OVS container''), k1)
   | (Some cid, k1) \<Rightarrow> (case controller_steps host cfg cid k1 of
         (True, k2) \<Rightarrow> (Inr (), k2)
       | (False, k2) \<Rightarrow> (Inl (RuntimeError ''Failed to set up controller connection''), remove_controller_veth host cfg (Some cid) k2)))"

definition cleanup_controller_connection :: "'k host_run \<Rightarrow> net_config \<Rightarrow> 'k \<Rightarrow> 'k" where
  "cleanup_controller_connection host cfg k = (case find_ovs host k of (cid, k1) \<Rightarrow> remove_controller_veth host cfg cid k1)"

end
