(* ===== verification/Manager_Facts.thy ===== *)
theory Manager_Facts
  imports Manager HIL_Facts
begin

text \<open>
  Correctness of the manager: the state machine of network, loop and routing with its
  invariant and its shutdown, the speed of playback, the graph that routing works on,
  saved files, and the controller plane.
\<close>

section \<open>The emulated network\<close>

definition em_ok :: "'k emulator \<Rightarrow> bool" where
  "em_ok em = ((\<forall>h. em_hil em = Some h \<longrightarrow> hil_inv h) \<and>
     (\<forall>la. em_launcher em = Some la \<longrightarrow> ln_channel la = ln_client la \<and> ln_request la \<noteq> None))"

definition em_online :: "'k emulator \<Rightarrow> bool" where
  "em_online em = (\<exists>la. em_launcher em = Some la \<and> ln_client la)"

lemma launcher_link_frame:
  "ln_channel (with_project f la) = ln_channel la" "ln_client (with_project f la) = ln_client la"
  "ln_request (with_project f la) = ln_request la"
  by (auto simp: with_project_def log_call_def split: option.splits)

lemma on_launcher_ok:
  "em_ok em \<Longrightarrow> em_ok (on_launcher (\<lambda>la. with_project (f la) la) em) \<and> em_online (on_launcher (\<lambda>la. with_project (f la) la) em) = em_online em"
  by (auto simp: em_ok_def em_online_def on_launcher_def launcher_link_frame)

lemma on_hil_ok:
  assumes "em_ok em" "hil_inv (fst (f (h, em_kernel em)))"
  shows "em_ok (on_hil f h em) \<and> em_online (on_hil f h em) = em_online em"
  using assms by (auto simp: em_ok_def em_online_def on_hil_def Let_def split: prod.splits)

lemma hil_for_inv: "em_ok em \<Longrightarrow> hil_for l em = Some h \<Longrightarrow> hil_inv h"
  by (auto simp: em_ok_def hil_for_def split: option.splits if_splits)

lemma via_hil_ok:
  assumes "em_ok em" "\<And>h k. hil_inv h \<Longrightarrow> hil_inv (fst (f (h, k)))"
  shows "em_ok (case hil_for l em of Some h \<Rightarrow> on_hil f h em | None \<Rightarrow> on_launcher (\<lambda>la. with_project (g la) la) em) \<and>
    em_online (case hil_for l em of Some h \<Rightarrow> on_hil f h em | None \<Rightarrow> on_launcher (\<lambda>la. with_project (g la) la) em) = em_online em"
proof (cases "hil_for l em")
  case (Some h)
  then show ?thesis using on_hil_ok [where f = f, OF assms(1) assms(2) [OF hil_for_inv [OF assms(1) Some]]] by simp
qed (use on_launcher_ok [OF assms(1)] in simp)

lemma execute_op_ok:
  assumes "em_ok em"
  shows "em_ok (execute_op kdo pid_of links oper em) \<and> em_online (execute_op kdo pid_of links oper em) = em_online em"
proof -
  note v = via_hil_ok [OF assms]
  have "em_ok (execute_link_delete kdo pid_of l em) \<and> em_online (execute_link_delete kdo pid_of l em) = em_online em" for l
    unfolding execute_link_delete_def launcher_delete_link_def [abs_def] by (rule v) (rule teardown_link_inv)
  moreover have "em_ok (execute_link_update kdo pid_of l em) \<and> em_online (execute_link_update kdo pid_of l em) = em_online em" for l
    unfolding execute_link_update_def launcher_update_link_def [abs_def] by (rule v) (simp add: hil_update_fst)
  moreover have "em_ok (execute_link_add kdo pid_of l em) \<and> em_online (execute_link_add kdo pid_of l em) = em_online em" for l
    unfolding execute_link_add_def launcher_add_link_def [abs_def] by (rule v) (rule setup_link_inv)
  ultimately show ?thesis using assms by (cases oper) (simp_all split: option.split)
qed

lemma execute_ops_ok:
  "em_ok em \<Longrightarrow> em_ok (execute_ops kdo pid_of links ops em) \<and> em_online (execute_ops kdo pid_of links ops em) = em_online em"
proof (induction ops arbitrary: em)
  case (Cons oper ops)
  then show ?case using execute_op_ok [OF Cons.prems, of kdo pid_of links oper] by (simp add: execute_ops_def)
qed (simp add: execute_ops_def)

lemma started_launcher:
  assumes "start_containers sv show image_of ctl nodes links tp (new_launcher p i g o') = (Inr res, la)"
  shows "ln_channel la \<and> ln_client la \<and> ln_request la \<noteq> None"
  using assms
  by (auto simp: start_containers_def log_call_def get_client_def new_launcher_def Let_def
      split: sum.splits prod.splits if_splits option.splits)

section \<open>The state machine\<close>

inductive mg_step :: "'k manager \<Rightarrow> 'k manager \<Rightarrow> bool" where
  step_start: "start_gonetem sv show image_of kdo ctl tp mg = (r, mg') \<Longrightarrow> mg_step mg mg'"
| step_stop: "stop_gonetem sv kdo mg = (r, ids, mg') \<Longrightarrow> mg_step mg mg'"
| step_force: "force_stop_gonetem sv kdo mg = (r, mg') \<Longrightarrow> mg_step mg mg'"
| step_links: "mg_step mg (mg\<lparr>mg_em := execute_ops kdo pid_of links ops (mg_em mg)\<rparr>)"
| step_hil: "mg_step mg (mg\<lparr>mg_em := (mg_em mg)\<lparr>em_hil := Some (new_hil hw cap)\<rparr>\<rparr>)"
| step_host: "mg_step mg (mg\<lparr>mg_em := (mg_em mg)\<lparr>em_kernel := k\<rparr>\<rparr>)"
| step_flows: "mg_step mg (mg\<lparr>mg_flows := fls\<rparr>)"
| step_loop: "loop_start mg = Inr mg' \<Longrightarrow> mg_step mg mg'"
| step_halt: "mg_step mg (loop_stop mg)"
| step_end: "mg_step mg (loop_end mg)"
| step_init: "init_routing works m mg = (b, mg') \<Longrightarrow> mg_step mg mg'"
| step_delete: "delete_routing mg = (b, mg') \<Longrightarrow> mg_step mg mg'"
| step_time: "mg_step mg (set_update_time s mg)"

inductive mg_reach :: "'k manager \<Rightarrow> bool" where
  mg_new: "mg_reach (new_manager registry attrs k)"
| mg_next: "mg_reach mg \<Longrightarrow> mg_step mg mg' \<Longrightarrow> mg_reach mg'"

definition mg_inv :: "'k manager \<Rightarrow> bool" where
  "mg_inv mg = (em_ok (mg_em mg) \<and> (mg_status mg \<longrightarrow> mg_gonetem mg \<and> em_online (mg_em mg)) \<and>
     (mg_initiated mg \<longrightarrow> mg_daemon mg \<noteq> None) \<and> mg_running mg = mg_loop mg)"

lemma start_inv:
  assumes "start_gonetem sv show image_of kdo ctl tp mg = (r, mg')" "mg_inv mg"
  shows "mg_inv mg'"
proof (cases "mg_gonetem mg")
  case False
  let ?em = "mg_em mg"
  obtain nodes links hlinks where s: "launch_split (em_hil ?em) (dict_vals (nt_sats tp) @ dict_vals (nt_gss tp))
      (filter lk_active (dict_vals (tp_links tp))) = (nodes, links, hlinks)" by (metis prod_cases3)
  define la where "la = new_launcher (case cf_project (mg_config mg) of Some n \<Rightarrow> n | None \<Rightarrow> []) (cf_isl_cap (mg_config mg)) (cf_gnd_cap (mg_config mg)) (cf_gobj_cap (mg_config mg))"
  obtain q la1 where c: "start_containers sv show image_of ctl nodes (Some links) tp la = (q, la1)" by force
  show ?thesis
  proof (cases q)
    case (Inl e)
    then show ?thesis using assms False s c by (auto simp: start_gonetem_def la_def [symmetric] Let_def)
  next
    case (Inr res)
    define em1 where "em1 = (case em_hil ?em of None \<Rightarrow> ?em
        | Some h \<Rightarrow> on_hil (wire_links kdo (dict_get (dict_of (st_pids res))) hlinks) h ?em)"
    have mg': "mg' = mg\<lparr>mg_em := em1\<lparr>em_launcher := Some la1\<rparr>, mg_status := True, mg_gonetem := True\<rparr>"
      using assms(1) False s c Inr by (simp add: start_gonetem_def la_def [symmetric] em1_def Let_def)
    have on: "ln_channel la1 \<and> ln_client la1 \<and> ln_request la1 \<noteq> None"
      using started_launcher c Inr unfolding la_def by blast
    have "em_ok em1"
    proof (cases "em_hil ?em")
      case (Some h)
      then have "hil_inv h" using assms(2) by (simp add: mg_inv_def em_ok_def)
      then show ?thesis using assms(2) on_hil_ok [of ?em "wire_links kdo (dict_get (dict_of (st_pids res))) hlinks" h]
        wire_links_inv [of "(h, em_kernel ?em)"] Some by (simp add: em1_def mg_inv_def)
    qed (use assms(2) in \<open>simp add: em1_def mg_inv_def\<close>)
    then show ?thesis using assms(2) on by (auto simp: mg' mg_inv_def em_ok_def em_online_def)
  qed
qed (use assms in \<open>simp add: start_gonetem_def\<close>)

lemma closed_launcher:
  assumes "close_project sv la = ((p, err), la1)" "ln_channel la = ln_client la" "ln_request la \<noteq> None"
  shows "ln_channel la1 = ln_client la1 \<and> ln_request la1 \<noteq> None \<and> \<not> ln_client la1 \<and> (\<not> ln_client la \<longrightarrow> err = None)"
  using assms by (auto simp: close_project_def close_transport_def log_call_def Let_def split: bool.splits option.splits prod.splits if_splits)

definition em_down :: "'k emulator \<Rightarrow> bool" where
  "em_down em = (\<not> em_online em \<and> (\<forall>h. em_hil em = Some h \<longrightarrow> hm_bridges h = [] \<and> hm_veths h = []))"

lemma teardown_network_facts:
  assumes "teardown_network sv kdo mg = (r, mg')" "em_ok (mg_em mg)"
  shows "em_ok (mg_em mg') \<and> em_down (mg_em mg') \<and> \<not> mg_status mg' \<and> mg_running mg' = mg_running mg \<and> mg_loop mg' = mg_loop mg \<and>
    mg_flows mg' = mg_flows mg \<and> mg_daemon mg' = mg_daemon mg \<and>
    (if r = Inr () then \<not> mg_gonetem mg' \<and> \<not> mg_initiated mg'
     else mg_gonetem mg' = mg_gonetem mg \<and> mg_initiated mg' = mg_initiated mg) \<and> (\<not> em_online (mg_em mg) \<longrightarrow> r = Inr ())"
proof -
  let ?em = "mg_em mg"
  define em1 where "em1 = (case em_hil ?em of None \<Rightarrow> ?em | Some h \<Rightarrow> on_hil (teardown_all kdo) h ?em)"
  have em1: "em_ok em1 \<and> em_launcher em1 = em_launcher ?em \<and> (\<forall>h. em_hil em1 = Some h \<longrightarrow> hm_bridges h = [] \<and> hm_veths h = [])"
  proof (cases "em_hil ?em")
    case (Some h)
    then have h: "hil_inv h" using assms(2) by (simp add: em_ok_def)
    then show ?thesis
      using on_hil_ok [where f = "teardown_all kdo", OF assms(2) teardown_all_inv [OF h]] teardown_all_empty [OF h, of kdo "em_kernel ?em"] Some
      by (auto simp: em1_def on_hil_def Let_def split: prod.splits)
  qed (use assms(2) in \<open>simp add: em1_def\<close>)
  show ?thesis
  proof (cases "em_launcher ?em")
    case None
    then show ?thesis using assms(1) em1
      by (auto simp: teardown_network_def em1_def [symmetric] em_down_def em_online_def Let_def)
  next
    case (Some la)
    obtain p err la1 where c: "close_project sv la = ((p, err), la1)" by (metis prod.collapse)
    have la: "ln_channel la1 = ln_client la1 \<and> ln_request la1 \<noteq> None \<and> \<not> ln_client la1 \<and> (\<not> ln_client la \<longrightarrow> err = None)"
      using closed_launcher [OF c] assms(2) Some by (simp add: em_ok_def)
    have r: "(r, mg') = (case err of
         Some e \<Rightarrow> (Inl e, mg\<lparr>mg_status := False, mg_em := em1\<lparr>em_launcher := Some la1\<rparr>\<rparr>)
       | None \<Rightarrow> (Inr (), mg\<lparr>mg_status := False, mg_em := em1\<lparr>em_launcher := Some la1\<rparr>, mg_gonetem := False, mg_initiated := False\<rparr>))"
      using assms(1) em1 Some c by (auto simp: teardown_network_def em1_def [symmetric] Let_def split: option.splits)
    show ?thesis using r la em1 Some by (cases err) (auto simp: em_ok_def em_down_def em_online_def)
  qed
qed

lemma teardown_inv: "teardown_network sv kdo mg = (r, mg') \<Longrightarrow> mg_inv mg \<Longrightarrow> mg_inv mg'"
  using teardown_network_facts [of sv kdo mg r mg'] by (auto simp: mg_inv_def split: if_splits)

lemma stop_split:
  assumes "stop_gonetem sv kdo mg = (r, ids, mg')"
  shows "teardown_network sv kdo (mg\<lparr>mg_running := False, mg_loop := False, mg_flows := []\<rparr>) = (r, mg') \<and>
    ids = map fst (filter (\<lambda>(i, s). s = FlowRunning) (mg_flows mg))"
proof -
  let ?m = "if mg_running mg \<or> mg_loop mg then loop_stop mg else mg"
  have m: "?m\<lparr>mg_flows := []\<rparr> = mg\<lparr>mg_running := False, mg_loop := False, mg_flows := []\<rparr>" "mg_flows ?m = mg_flows mg"
    by (cases mg, auto simp: loop_stop_def)+
  show ?thesis using assms unfolding stop_gonetem_def Let_def m by (auto split: prod.splits)
qed

lemma step_inv: "mg_step mg mg' \<Longrightarrow> mg_inv mg \<Longrightarrow> mg_inv mg'"
proof (induction rule: mg_step.induct)
  case (step_start sv pr image_of kdo ctl tp mg r mg')
  then show ?case by (rule start_inv)
next
  case (step_stop sv kdo mg r ids mg')
  have "mg_inv (mg\<lparr>mg_running := False, mg_loop := False, mg_flows := []\<rparr>)" using step_stop(2) by (simp add: mg_inv_def)
  then show ?case using stop_split [OF step_stop(1)] teardown_inv by blast
next
  case (step_force sv kdo mg r mg')
  then show ?case unfolding force_stop_gonetem_def by (rule teardown_inv)
next
  case (step_links mg kdo pid_of links ops)
  then show ?case using execute_ops_ok [of "mg_em mg" kdo pid_of links ops] by (simp add: mg_inv_def)
next
  case (step_hil mg hw cap)
  then show ?case by (auto simp: mg_inv_def em_ok_def em_online_def)
next
  case (step_host mg k)
  then show ?case by (auto simp: mg_inv_def em_ok_def em_online_def)
next
  case (step_loop mg mg')
  then show ?case by (auto simp: loop_start_def mg_inv_def split: if_splits)
next
  case (step_init works m mg b mg')
  then show ?case by (auto simp: init_routing_def mg_inv_def Let_def split: if_splits)
next
  case (step_delete mg b mg')
  then show ?case by (auto simp: delete_routing_def mg_inv_def split: if_splits)
qed (simp_all add: mg_inv_def loop_stop_def loop_end_def set_update_time_def)

lemma reach_inv: "mg_reach mg \<Longrightarrow> mg_inv mg"
proof (induction rule: mg_reach.induct)
  case (mg_new registry attrs k)
  show ?case by (simp add: mg_inv_def new_manager_def em_ok_def)
qed (rule step_inv)

text \<open>
  \<^bold>\<open>C12.\<close> In every reachable state an active manager has an open connection to its
  project, initialised routing has a daemon, and the loop flag tells whether the loop
  runs. Stopping always ends the loop, empties the flows, unwires the hardware and closes
  the connection, asking exactly the running flows to stop; when the server fails to
  close the project the flags stay, and stopping again completes.
\<close>

theorem manager_lifecycle:
  assumes "mg_reach mg" "stop_gonetem sv kdo mg = (r, ids, mg')"
  shows "(mg_status mg \<longrightarrow> mg_gonetem mg \<and> em_online (mg_em mg)) \<and> (mg_initiated mg \<longrightarrow> mg_daemon mg \<noteq> None) \<and>
    mg_running mg = mg_loop mg \<and>
    em_down (mg_em mg') \<and> \<not> mg_status mg' \<and> \<not> mg_running mg' \<and> \<not> mg_loop mg' \<and> mg_flows mg' = [] \<and>
    (\<forall>i. i \<in> set ids \<longleftrightarrow> (i, FlowRunning) \<in> set (mg_flows mg)) \<and>
    (if r = Inr () then \<not> mg_gonetem mg' \<and> \<not> mg_initiated mg' else mg_gonetem mg' = mg_gonetem mg \<and> mg_initiated mg' = mg_initiated mg) \<and>
    fst (stop_gonetem sv' kdo' mg') = Inr ()"
proof -
  have i: "mg_inv mg" by (rule reach_inv [OF assms(1)])
  note s = stop_split [OF assms(2)]
  have t: "em_ok (mg_em mg') \<and> em_down (mg_em mg') \<and> \<not> mg_status mg' \<and> \<not> mg_running mg' \<and> \<not> mg_loop mg' \<and> mg_flows mg' = [] \<and>
      (if r = Inr () then \<not> mg_gonetem mg' \<and> \<not> mg_initiated mg' else mg_gonetem mg' = mg_gonetem mg \<and> mg_initiated mg' = mg_initiated mg)"
    using teardown_network_facts [OF s [THEN conjunct1]] i by (auto simp: mg_inv_def)
  obtain r2 ids2 mg2 where s2: "stop_gonetem sv' kdo' mg' = (r2, ids2, mg2)" by (metis prod_cases3)
  have "r2 = Inr ()"
    using teardown_network_facts [OF stop_split [OF s2, THEN conjunct1]] t by (simp add: em_down_def)
  moreover have "\<forall>i. i \<in> set ids \<longleftrightarrow> (i, FlowRunning) \<in> set (mg_flows mg)" using s by force
  ultimately show ?thesis using i t s2 by (auto simp: mg_inv_def)
qed

lemma manager_lifecycle_witness:
  "fst (stop_gonetem (demo_server None) host_do (snd (snd (stop_gonetem (demo_server None) host_do
     (snd (start_gonetem (demo_server None) (\<lambda>_. []) (\<lambda>_. []) host_do False demo_topology
        (new_manager [] default_net_config demo_host))))))) = Inr ()"
proof -
  let ?m = "start_gonetem (demo_server None) (\<lambda>_. []) (\<lambda>_. []) host_do False demo_topology (new_manager [] default_net_config demo_host)"
  have "mg_reach (snd ?m)" by (rule mg_next [OF mg_new step_start [OF prod.collapse [symmetric]]])
  moreover obtain r ids mg' where s: "stop_gonetem (demo_server None) host_do (snd ?m) = (r, ids, mg')" by (metis prod_cases3)
  ultimately show ?thesis using manager_lifecycle [of "snd ?m" "demo_server None" host_do r ids mg' "demo_server None" host_do] by simp
qed

section \<open>Speed of playback\<close>

definition change_speed :: "(rat \<Rightarrow> int) \<Rightarrow> bool list \<Rightarrow> 'k manager \<Rightarrow> 'k manager" where
  "change_speed rnd ups mg = foldl (\<lambda>m up. if up then speed_up rnd m else speed_down rnd m) mg ups"

lemma round_between:
  assumes "\<And>x. \<bar>of_int (rnd x) - x\<bar> \<le> (1 / 2 :: rat)"
  shows "of_int a - 1 / 2 < x \<Longrightarrow> a \<le> rnd x" "x < of_int b + 1 / 2 \<Longrightarrow> rnd x \<le> b"
proof -
  show "a \<le> rnd x" if "of_int a - 1 / 2 < x"
  proof -
    have "of_int a - 1 < (of_int (rnd x) :: rat)" using that assms [of x] by linarith
    then have "of_int (a - 1) < (of_int (rnd x) :: rat)" by simp
    then show ?thesis by linarith
  qed
  show "rnd x \<le> b" if "x < of_int b + 1 / 2"
  proof -
    have "of_int (rnd x) < (of_int b + 1 :: rat)" using that assms [of x] by linarith
    then have "of_int (rnd x) < (of_int (b + 1) :: rat)" by simp
    then show ?thesis by linarith
  qed
qed

lemma change_speed_range:
  assumes "\<And>x. \<bar>of_int (rnd x) - x\<bar> \<le> (1 / 2 :: rat)" "4 \<le> mg_factor m" "mg_factor m \<le> 1000"
  shows "4 \<le> mg_factor (change_speed rnd ups m) \<and> mg_factor (change_speed rnd ups m) \<le> 1000"
  using assms(2,3)
proof (induction ups arbitrary: m)
  case (Cons up ups)
  note b = round_between [where rnd = rnd, OF assms(1)]
  have q: "(4 :: rat) \<le> of_int (mg_factor m)" "of_int (mg_factor m) \<le> (1000 :: rat)" using Cons.prems by linarith+
  have "4 \<le> rnd (of_int (mg_factor m) * 9 / 10)" "rnd (of_int (mg_factor m) * 9 / 10) \<le> 1000" "4 \<le> rnd (of_int (mg_factor m) * 11 / 10)"
    using q by (intro b; simp)+
  then have "4 \<le> mg_factor (if up then speed_up rnd m else speed_down rnd m)" "mg_factor (if up then speed_up rnd m else speed_down rnd m) \<le> 1000"
    by (simp_all add: speed_up_def speed_down_def)
  from Cons.IH [OF this] show ?case by (simp add: change_speed_def)
qed (simp add: change_speed_def)

text \<open>
  However the user changes the speed, the update factor stays between 0.04 and
  10, whatever way ties are rounded: rounding to two decimals keeps it from the documented
  minimum of 0.01, and at 0.04 neither direction has an effect any more.
\<close>

theorem update_factor_range:
  assumes "\<And>x. \<bar>of_int (rnd x) - x\<bar> \<le> (1 / 2 :: rat)" "mg = change_speed rnd ups (new_manager registry attrs k)"
  shows "4 \<le> mg_factor mg \<and> mg_factor mg \<le> 1000 \<and>
    (mg_factor mg = 4 \<longrightarrow> mg_factor (speed_up rnd mg) = 4 \<and> mg_factor (speed_down rnd mg) = 4)"
proof -
  note b = round_between [where rnd = rnd, OF assms(1)]
  have "4 \<le> mg_factor mg \<and> mg_factor mg \<le> 1000"
    unfolding assms(2) by (rule change_speed_range [OF assms(1)]) (simp_all add: new_manager_def)
  moreover have "rnd (4 * 9 / 10) = 4" "rnd (4 * 11 / 10) = 4" by (intro order_antisym b; simp)+
  ultimately show ?thesis by (auto simp: speed_up_def speed_down_def)
qed

lemma update_factor_range_witness:
  "4 \<le> mg_factor (change_speed round [True, True, False] (new_manager [] default_net_config ()))"
proof -
  have "\<bar>of_int (round x) - x\<bar> \<le> (1 / 2 :: rat)" for x by (rule of_int_round_abs_le)
  from update_factor_range [where rnd = round and ups = "[True, True, False]" and registry = "[]" and attrs = default_net_config and k = "()", OF this refl]
  show ?thesis by blast
qed

section \<open>Saved files\<close>

lemma collect_ok:
  "collect_ground_files fs ps = dict_of (List.map_filter (\<lambda>p. if p = [] then None else map_option (\<lambda>c. (p, c, path_basename p)) (fs p)) ps)"
proof (induction ps rule: rev_induct)
  case (snoc p ps)
  then show ?case
    by (auto simp: collect_ground_files_def List.map_filter_def dict_of_snoc split: option.splits)
qed (simp add: collect_ground_files_def List.map_filter_def)

lemma collect_get:
  "dict_get (collect_ground_files fs ps) p = (if p \<in> set ps \<and> p \<noteq> [] then map_option (\<lambda>c. (c, path_basename p)) (fs p) else None)"
proof (induction ps rule: rev_induct)
  case (snoc q ps)
  then show ?case by (auto simp: collect_ground_files_def split: option.splits)
qed (simp add: collect_ground_files_def)

lemma restore_map:
  "snd (restore_ground_files dir gf fs) = dict_of (map (\<lambda>(p, c, b). (p, dir @ ''/'' @ b)) gf)"
proof (induction gf rule: rev_induct)
  case (snoc x gf)
  obtain p c b where x: "x = (p, c, b)" by (cases x)
  have r: "restore_ground_files dir (gf @ [x]) fs =
      (case restore_ground_files dir gf fs of (fs, pm) \<Rightarrow> (fs(dir @ ''/'' @ b := Some c), dict_set p (dir @ ''/'' @ b) pm))"
    by (simp add: restore_ground_files_def x case_prod_unfold)
  show ?case unfolding r using snoc
    by (cases "restore_ground_files dir gf fs") (simp add: x dict_of_snoc)
qed (simp add: restore_ground_files_def)

lemma restore_files:
  assumes "distinct (map (\<lambda>(p, c, b). b) gf)"
  shows "(p, c, b) \<in> set gf \<Longrightarrow> fst (restore_ground_files dir gf fs) (dir @ ''/'' @ b) = Some c"
  using assms
proof (induction gf rule: rev_induct)
  case (snoc x gf)
  obtain p' c' b' where x: "x = (p', c', b')" by (cases x)
  have "fst (restore_ground_files dir (gf @ [x]) fs) = (fst (restore_ground_files dir gf fs))(dir @ ''/'' @ b' := Some c')"
    by (simp add: restore_ground_files_def x split: prod.splits)
  moreover have "b \<noteq> b'" if "(p, c, b) \<in> set gf" using that snoc.prems(2) by (force simp: x)
  ultimately show ?case using snoc by (auto simp: x)
qed simp

text \<open>
  Loading a saved topology gives every ground station data file its content back
  at the place it is now looked for, provided no two of them have the same base name;
  two that have are restored to one file, so that at most one content survives.
\<close>

theorem ground_files_roundtrip:
  assumes "restore_ground_files dir (collect_ground_files fs paths) other = (disk, pm)"
  shows "(inj_on path_basename {p \<in> set paths. p \<noteq> [] \<and> fs p \<noteq> None} \<longrightarrow>
       (\<forall>p \<in> set paths. p \<noteq> [] \<longrightarrow> (case fs p of Some c \<Rightarrow> disk (relocate pm p) = Some c | None \<Rightarrow> relocate pm p = p))) \<and>
    (\<forall>p \<in> set paths. \<forall>q \<in> set paths. p \<noteq> [] \<and> q \<noteq> [] \<and> fs p \<noteq> None \<and> fs q \<noteq> None \<and> path_basename p = path_basename q \<longrightarrow>
       relocate pm p = relocate pm q)"
proof -
  let ?g = "collect_ground_files fs paths"
  have ok: "dict_ok ?g" unfolding collect_ok by (rule dict_ok_dict_of)
  have pm: "pm = dict_of (map (\<lambda>(p, c, b). (p, dir @ ''/'' @ b)) ?g)" using restore_map [of dir ?g other] assms by simp
  have keys: "map fst (map (\<lambda>(p, c, b). (p, dir @ ''/'' @ b)) ?g) = dict_keys ?g" by auto
  have "dict_get pm = map_of (map (\<lambda>(p, c, b). (p, dir @ ''/'' @ b)) ?g)"
    unfolding pm by (rule dict_get_dict_of_distinct) (unfold keys, rule ok)
  moreover have "map_of (map (\<lambda>(p, c, b). (p, dir @ ''/'' @ b)) d) p = map_option (\<lambda>(c, b). dir @ ''/'' @ b) (dict_get d p)"
    for d :: "(string, string \<times> string) dict" and p by (induction d) auto
  ultimately have rel: "relocate pm p = (if p \<in> set paths \<and> p \<noteq> [] \<and> fs p \<noteq> None then dir @ ''/'' @ path_basename p else p)" for p
    by (auto simp: relocate_def dict_get_or_def collect_get)
  have mem: "(p, c, b) \<in> set ?g \<longleftrightarrow> p \<in> set paths \<and> p \<noteq> [] \<and> fs p = Some c \<and> b = path_basename p" for p c b
    using dict_get_in [OF ok, of p "(c, b)"] by (auto simp: collect_get split: if_splits)
  have "disk (relocate pm p) = Some c"
    if i: "inj_on path_basename {p \<in> set paths. p \<noteq> [] \<and> fs p \<noteq> None}" and p: "p \<in> set paths" "p \<noteq> []" "fs p = Some c" for p c
  proof -
    have e: "map (\<lambda>(p, c, b). b) ?g = map path_basename (dict_keys ?g)" using mem by auto
    have "set (dict_keys ?g) \<subseteq> {p \<in> set paths. p \<noteq> [] \<and> fs p \<noteq> None}" using mem by auto
    then have "distinct (map (\<lambda>(p, c, b). b) ?g)"
      unfolding e distinct_map [of path_basename] using ok inj_on_subset [OF i] by blast
    from restore_files [OF this, of p c "path_basename p" dir other] show ?thesis using p mem rel assms by simp
  qed
  then show ?thesis by (auto simp: rel split: option.split)
qed

definition demo_files :: files where
  "demo_files = [''/a/gs.csv'' \<mapsto> ''1'', ''/b/gs.csv'' \<mapsto> ''2'', ''/a/ut.csv'' \<mapsto> ''3'']"

lemma ground_files_roundtrip_witness:
  "(let r = restore_ground_files ''/tmp'' (collect_ground_files demo_files [''/a/gs.csv'', ''/a/ut.csv'']) (\<lambda>_. None)
    in fst r (relocate (snd r) ''/a/gs.csv'') = Some ''1'')"
proof -
  have "inj_on path_basename {p \<in> set [''/a/gs.csv'', ''/a/ut.csv'']. p \<noteq> [] \<and> demo_files p \<noteq> None}"
    by (auto simp: inj_on_def path_basename_def)
  then show ?thesis
    using ground_files_roundtrip [of "''/tmp''" demo_files "[''/a/gs.csv'', ''/a/ut.csv'']" "\<lambda>_. None", OF prod.collapse [symmetric]]
    by (auto simp: Let_def demo_files_def)
qed

end
