(* ===== verification/Link_Budget.thy ===== *)
theory Link_Budget
  imports Topology
begin

text \<open>
  The link budget, \<open>link_budget/\<close>, and the part of \<open>models/link.py\<close> that turns it into
  the capacities of a ground link.

  Floating-point numbers are real numbers, so rounding and overflow of floats are outside the
  model, but a division by zero is the exception it raises. The ITU-R model of the package
  \<open>itur\<close> is a parameter: \<open>None\<close> when it is not installed, otherwise the five contributions
  or an exception. A missing antenna is \<open>None\<close>, and using it is an \<open>AttributeError\<close>.
\<close>

section \<open>Conversions and constants\<close>

definition speed_of_light :: real where
  "speed_of_light = 299792458"

definition boltzmann_constant :: real where
  "boltzmann_constant = 1380649 / 10 ^ 29"

definition db_to_linear :: "real \<Rightarrow> real" where
  "db_to_linear dB = 10 powr (dB / 10)"

definition linear_to_db :: "real \<Rightarrow> real result" where
  "linear_to_db x = (if x \<le> 0 then Inl (ValueError ''Linear value must be greater than 0'')
     else Inr (10 * log 10 x))"

abbreviation zero_division :: "'a result" where
  "zero_division \<equiv> Inl (OtherError ''ZeroDivisionError'')"

section \<open>Antennas\<close>

record antenna =
  an_diameter :: real
  an_efficiency :: real
  an_sspa :: real
  an_losses :: real
  an_eirp :: "real option"
  an_gain :: "real option"

definition default_antenna :: antenna where
  "default_antenna = \<lparr>an_diameter = 0, an_efficiency = 3 / 5, an_sspa = 0, an_losses = 0, an_eirp = None, an_gain = None\<rparr>"

record antenna_config =
  ac_diameter :: real
  ac_efficiency :: real
  ac_sspa :: real
  ac_losses :: real
  ac_eirp :: "real option"
  ac_gain :: "real option"

definition to_antenna :: "antenna_config \<Rightarrow> antenna" where
  "to_antenna c = \<lparr>an_diameter = ac_diameter c, an_efficiency = ac_efficiency c, an_sspa = ac_sspa c,
     an_losses = ac_losses c, an_eirp = ac_eirp c, an_gain = ac_gain c\<rparr>"

definition calculate_gain_db :: "real \<Rightarrow> antenna \<Rightarrow> real result" where
  "calculate_gain_db frequency_ghz a = (case an_gain a of
     Some g \<Rightarrow> Inr g
   | None \<Rightarrow>
      let frequency_hz = frequency_ghz * 10 ^ 9
      in if frequency_hz = 0 then zero_division
         else let wavelength = speed_of_light / frequency_hz
              in linear_to_db ((pi * an_diameter a / wavelength) ^ 2 * an_efficiency a))"

definition get_eirp_db :: "real \<Rightarrow> antenna \<Rightarrow> real result" where
  "get_eirp_db frequency_ghz a = (case an_eirp a of
     Some e \<Rightarrow> Inr e
   | None \<Rightarrow> rbind (calculate_gain_db frequency_ghz a) (\<lambda>gain. Inr (an_sspa a + gain - an_losses a)))"

definition calculate_transmitter_eirp :: "real \<Rightarrow> real \<Rightarrow> real \<Rightarrow> real" where
  "calculate_transmitter_eirp sspa_output_power_db antenna_gain_db tx_losses_db =
     sspa_output_power_db + antenna_gain_db - tx_losses_db"

section \<open>Propagation\<close>

definition calculate_free_space_loss_db :: "real \<Rightarrow> real \<Rightarrow> real result" where
  "calculate_free_space_loss_db frequency_ghz distance_km =
    (let frequency_hz = frequency_ghz * 10 ^ 9
     in if frequency_hz = 0 then zero_division
        else let wavelength = speed_of_light / frequency_hz
             in linear_to_db (((4 * pi * distance_km * 10 ^ 3) / wavelength) ^ 2))"

text \<open>Latitude, longitude, frequency, elevation, unavailability and diameter, to the gaseous, cloud,
  rain and scintillation attenuation and the total.\<close>

type_synonym itur_model = "(real \<Rightarrow> real \<Rightarrow> real \<Rightarrow> real \<Rightarrow> real \<Rightarrow> real \<Rightarrow> (real \<times> real \<times> real \<times> real \<times> real) result) option"

definition calculate_atmospheric_attenuation :: "itur_model \<Rightarrow> real \<Rightarrow> real \<Rightarrow> real \<Rightarrow> real \<Rightarrow> real \<Rightarrow> real \<Rightarrow>
    (real \<times> real \<times> real \<times> real \<times> real) result" where
  "calculate_atmospheric_attenuation itur lat_GS lon_GS frequency_ghz elevation_angle unavailability antenna_diameter =
    (if \<not> (0 \<le> unavailability \<and> unavailability \<le> 100) then Inl (ValueError ''Unavailability must be between 0 and 100.'')
     else if \<not> (0 \<le> elevation_angle \<and> elevation_angle \<le> 90) then Inl (ValueError ''Elevation angle must be between 0 and 90 degrees.'')
     else if \<not> (0 \<le> antenna_diameter \<and> antenna_diameter \<le> 100) then Inl (ValueError ''Antenna diameter must be between 0 and 100 meters.'')
     else if \<not> (0 \<le> frequency_ghz \<and> frequency_ghz \<le> 1000) then Inl (ValueError ''Frequency must be between 0 and 1000 GHz.'')
     else if \<not> (- 90 \<le> lat_GS \<and> lat_GS \<le> 90) then Inl (ValueError ''Latitude must be between -90 and 90 degrees.'')
     else if \<not> (- 180 \<le> lon_GS \<and> lon_GS \<le> 180) then Inl (ValueError ''Longitude must be between -180 and 180 degrees.'')
     else (case itur of
        None \<Rightarrow> Inl (RuntimeError ''The itur package is required'')
      | Some slant_path \<Rightarrow> rbind (slant_path lat_GS lon_GS frequency_ghz elevation_angle unavailability antenna_diameter)
          (\<lambda>(a_gaseous, a_cloud, a_rain, a_scintillation, a_total). Inr (a_total, a_gaseous, a_cloud, a_rain, a_scintillation))))"

section \<open>Receiver\<close>

definition carrier_to_noise_density :: "real \<Rightarrow> real \<Rightarrow> real \<Rightarrow> real \<Rightarrow> real result" where
  "carrier_to_noise_density eirp_db g_over_t_db free_space_loss_db other_losses_db =
    rbind (linear_to_db boltzmann_constant) (\<lambda>k_db.
      Inr (eirp_db + g_over_t_db - (other_losses_db + free_space_loss_db) - k_db))"

definition carrier_to_noise_ratio :: "real \<Rightarrow> real \<Rightarrow> real result" where
  "carrier_to_noise_ratio c_over_n0_dbhz bandwidth_hz =
    rbind (linear_to_db bandwidth_hz) (\<lambda>bandwidth_dbhz. Inr (c_over_n0_dbhz - bandwidth_dbhz))"

definition noise_temperature :: "real \<Rightarrow> real \<Rightarrow> real" where
  "noise_temperature noise_figure_db reference_temperature = reference_temperature * (db_to_linear noise_figure_db - 1)"

section \<open>Modulation and coding\<close>

text \<open>The members of the enumeration \<open>ModCod\<close>, with spectral efficiency and threshold in dB.\<close>

datatype modcod =
    QPSK_2_9 | QPSK_13_45 | QPSK_9_20 | QPSK_11_20 | PSK8_23_36 | PSK8_25_36
  | PSK8_13_18 | APSK8_5_9_L | APSK8_26_45_L | APSK16_1_2_L | APSK16_8_15_L | APSK16_5_9_L
  | APSK16_26_45 | APSK16_3_5 | APSK16_3_5_L | APSK16_28_45 | APSK16_23_36 | APSK16_2_3_L
  | APSK16_25_36 | APSK16_13_18 | APSK16_7_9 | APSK16_77_90 | APSK32_2_3_L | APSK32_32_45
  | APSK32_11_15 | APSK32_7_9 | APSK64_32_45_L | APSK64_11_15 | APSK64_7_9 | APSK64_4_5
  | APSK64_5_6 | APSK128_3_4 | APSK128_7_9 | APSK256_29_45_L | APSK256_2_3_L | APSK256_31_45_L
  | APSK256_32_45 | APSK256_11_15_L | APSK256_3_4

fun modcod_value :: "modcod \<Rightarrow> real \<times> real" where
  "modcod_value QPSK_2_9 = (434841 / 1000000, - (245 / 100))"
| "modcod_value QPSK_13_45 = (567805 / 1000000, - (160 / 100))"
| "modcod_value QPSK_9_20 = (889135 / 1000000, 69 / 100)"
| "modcod_value QPSK_11_20 = (1088581 / 1000000, 197 / 100)"
| "modcod_value PSK8_23_36 = (1896173 / 1000000, 696 / 100)"
| "modcod_value PSK8_25_36 = (2062148 / 1000000, 793 / 100)"
| "modcod_value PSK8_13_18 = (2145136 / 1000000, 842 / 100)"
| "modcod_value APSK8_5_9_L = (1647211 / 1000000, 595 / 100)"
| "modcod_value APSK8_26_45_L = (1713601 / 1000000, 635 / 100)"
| "modcod_value APSK16_1_2_L = (1972253 / 1000000, 840 / 100)"
| "modcod_value APSK16_8_15_L = (2104850 / 1000000, 900 / 100)"
| "modcod_value APSK16_5_9_L = (2193247 / 1000000, 935 / 100)"
| "modcod_value APSK16_26_45 = (2281645 / 1000000, 917 / 100)"
| "modcod_value APSK16_3_5 = (2370043 / 1000000, 938 / 100)"
| "modcod_value APSK16_3_5_L = (2370043 / 1000000, 994 / 100)"
| "modcod_value APSK16_28_45 = (2458441 / 1000000, 976 / 100)"
| "modcod_value APSK16_23_36 = (2524739 / 1000000, 1004 / 100)"
| "modcod_value APSK16_2_3_L = (2635236 / 1000000, 1106 / 100)"
| "modcod_value APSK16_25_36 = (2745734 / 1000000, 1104 / 100)"
| "modcod_value APSK16_13_18 = (2856231 / 1000000, 1152 / 100)"
| "modcod_value APSK16_7_9 = (3077225 / 1000000, 1250 / 100)"
| "modcod_value APSK16_77_90 = (3386618 / 1000000, 1400 / 100)"
| "modcod_value APSK32_2_3_L = (3291954 / 1000000, 1381 / 100)"
| "modcod_value APSK32_32_45 = (3510192 / 1000000, 1450 / 100)"
| "modcod_value APSK32_11_15 = (3620536 / 1000000, 1491 / 100)"
| "modcod_value APSK32_7_9 = (3841226 / 1000000, 1584 / 100)"
| "modcod_value APSK64_32_45_L = (4206428 / 1000000, 1770 / 100)"
| "modcod_value APSK64_11_15 = (4338659 / 1000000, 1797 / 100)"
| "modcod_value APSK64_7_9 = (4603122 / 1000000, 1910 / 100)"
| "modcod_value APSK64_4_5 = (4735354 / 1000000, 1954 / 100)"
| "modcod_value APSK64_5_6 = (4936639 / 1000000, 2044 / 100)"
| "modcod_value APSK128_3_4 = (5163248 / 1000000, 2143 / 100)"
| "modcod_value APSK128_7_9 = (5355556 / 1000000, 2221 / 100)"
| "modcod_value APSK256_29_45_L = (5065690 / 1000000, 2160 / 100)"
| "modcod_value APSK256_2_3_L = (5241514 / 1000000, 2189 / 100)"
| "modcod_value APSK256_31_45_L = (5417338 / 1000000, 2290 / 100)"
| "modcod_value APSK256_32_45 = (5593162 / 1000000, 2291 / 100)"
| "modcod_value APSK256_11_15_L = (5768987 / 1000000, 2380 / 100)"
| "modcod_value APSK256_3_4 = (5900855 / 1000000, 2402 / 100)"

definition spectral_efficiency :: "modcod \<Rightarrow> real" where
  "spectral_efficiency m = fst (modcod_value m)"

definition csat_n0_rs :: "modcod \<Rightarrow> real" where
  "csat_n0_rs m = snd (modcod_value m)"

definition list_modcods :: "modcod list" where
  "list_modcods = [QPSK_2_9, QPSK_13_45, QPSK_9_20, QPSK_11_20, PSK8_23_36, PSK8_25_36, PSK8_13_18,
     APSK8_5_9_L, APSK8_26_45_L, APSK16_1_2_L, APSK16_8_15_L, APSK16_5_9_L, APSK16_26_45, APSK16_3_5,
     APSK16_3_5_L, APSK16_28_45, APSK16_23_36, APSK16_2_3_L, APSK16_25_36, APSK16_13_18, APSK16_7_9,
     APSK16_77_90, APSK32_2_3_L, APSK32_32_45, APSK32_11_15, APSK32_7_9, APSK64_32_45_L, APSK64_11_15,
     APSK64_7_9, APSK64_4_5, APSK64_5_6, APSK128_3_4, APSK128_7_9, APSK256_29_45_L, APSK256_2_3_L,
     APSK256_31_45_L, APSK256_32_45, APSK256_11_15_L, APSK256_3_4]"

text \<open>Python's \<open>max\<close> with a key: the first of the largest.\<close>

definition first_max :: "('a \<Rightarrow> real) \<Rightarrow> 'a \<Rightarrow> 'a list \<Rightarrow> 'a" where
  "first_max f x xs = foldl (\<lambda>best y. if f y > f best then y else best) x xs"

definition best_for_csat_n0_rs :: "real \<Rightarrow> modcod option" where
  "best_for_csat_n0_rs available = (case filter (\<lambda>m. csat_n0_rs m \<le> available) list_modcods of
     [] \<Rightarrow> None
   | m # ms \<Rightarrow> Some (first_max spectral_efficiency m ms))"

definition calculate_link_capacity :: "real \<Rightarrow> real \<Rightarrow> real \<Rightarrow> real result" where
  "calculate_link_capacity bandwidth_hz rolloff_factor bits_per_symbol =
    (if 1 + rolloff_factor = 0 then zero_division else Inr (bandwidth_hz / (1 + rolloff_factor) * bits_per_symbol))"

text \<open>The argument of the logarithm is positive, since the ratio is a power of ten.\<close>

definition calculate_theoretical_link_capacity :: "real \<Rightarrow> real \<Rightarrow> real" where
  "calculate_theoretical_link_capacity bandwidth_hz cn_db = bandwidth_hz * log 2 (1 + db_to_linear cn_db)"

section \<open>Capacity strategies\<close>

datatype capacity_strategy = ShannonCapacityStrategy | ModCodCapacityStrategy (rolloff_factor: real)

definition shannon_capacity :: "real \<Rightarrow> real \<Rightarrow> real result" where
  "shannon_capacity cn0_dbhz bandwidth_hz =
    rbind (carrier_to_noise_ratio cn0_dbhz bandwidth_hz) (\<lambda>cn_db.
      Inr (bandwidth_hz * log 2 (1 + max 0 (db_to_linear cn_db))))"

definition modcod_capacity :: "real \<Rightarrow> real \<Rightarrow> real \<Rightarrow> real result" where
  "modcod_capacity rolloff cn0_dbhz bandwidth_hz =
    (if 1 + rolloff = 0 then zero_division
     else rbind (linear_to_db (bandwidth_hz / (1 + rolloff))) (\<lambda>rate_db.
       case best_for_csat_n0_rs (cn0_dbhz - rate_db) of
         None \<Rightarrow> Inl (RuntimeError ''No suitable ModCod'')
       | Some m \<Rightarrow> calculate_link_capacity bandwidth_hz rolloff (spectral_efficiency m)))"

fun compute_capacity :: "capacity_strategy \<Rightarrow> real \<Rightarrow> real \<Rightarrow> real result" where
  "compute_capacity ShannonCapacityStrategy cn0_dbhz bandwidth_hz = shannon_capacity cn0_dbhz bandwidth_hz"
| "compute_capacity (ModCodCapacityStrategy rolloff) cn0_dbhz bandwidth_hz = modcod_capacity rolloff cn0_dbhz bandwidth_hz"

section \<open>The service\<close>

record budget_inputs =
  bi_tx :: "antenna option"
  bi_rx :: "antenna option"
  bi_frequency :: real
  bi_distance :: real
  bi_elevation :: real
  bi_lat :: real
  bi_lon :: real
  bi_diameter :: real
  bi_bandwidth :: real
  bi_tsys :: real
  bi_unavailability :: real

definition of_antenna :: "(antenna \<Rightarrow> 'a result) \<Rightarrow> antenna option \<Rightarrow> 'a result" where
  "of_antenna f a = (case a of None \<Rightarrow> Inl (OtherError ''AttributeError'') | Some a \<Rightarrow> f a)"

text \<open>\<open>except (ValueError, TypeError)\<close>\<close>

fun value_or_type :: "pyerr \<Rightarrow> bool" where
  "value_or_type (ValueError _) = True"
| "value_or_type (TypeError _) = True"
| "value_or_type _ = False"

definition receiver_g_over_t :: "real \<Rightarrow> real \<Rightarrow> antenna option \<Rightarrow> real result" where
  "receiver_g_over_t frequency_ghz rx_tsys_k rx =
    rbind (of_antenna (calculate_gain_db frequency_ghz) rx) (\<lambda>rx_gain_db.
      rbind (linear_to_db rx_tsys_k) (\<lambda>tsys_db. Inr (rx_gain_db - tsys_db)))"

definition other_losses :: "itur_model \<Rightarrow> budget_inputs \<Rightarrow> real result" where
  "other_losses itur i = rbind (calculate_atmospheric_attenuation itur (bi_lat i) (bi_lon i) (bi_frequency i)
      (bi_elevation i) (bi_unavailability i) (bi_diameter i)) (\<lambda>attenuations. Inr (fst attenuations))"

definition capacity_kbps :: "capacity_strategy \<Rightarrow> real \<Rightarrow> real \<Rightarrow> int result" where
  "capacity_kbps strategy cn0_dbhz bandwidth_hz = (case compute_capacity strategy cn0_dbhz bandwidth_hz of
     Inr capacity_bps \<Rightarrow> Inr (py_trunc (capacity_bps / 1000))
   | Inl (RuntimeError _) \<Rightarrow> Inr 0
   | Inl e \<Rightarrow> Inl e)"

definition compute_one_way :: "itur_model \<Rightarrow> capacity_strategy \<Rightarrow> budget_inputs \<Rightarrow> int result" where
  "compute_one_way itur strategy i =
    (case of_antenna (get_eirp_db (bi_frequency i)) (bi_tx i) of
       Inl e \<Rightarrow> if value_or_type e then Inr 0 else Inl e
     | Inr tx_eirp_db \<Rightarrow>
        (case receiver_g_over_t (bi_frequency i) (bi_tsys i) (bi_rx i) of
           Inl e \<Rightarrow> if value_or_type e then Inr 0 else Inl e
         | Inr g_over_t_db \<Rightarrow>
            rbind (calculate_free_space_loss_db (bi_frequency i) (bi_distance i)) (\<lambda>fsl_db.
              case other_losses itur i of
                Inl _ \<Rightarrow> Inr 0
              | Inr other_losses_db \<Rightarrow>
                  rbind (carrier_to_noise_density tx_eirp_db g_over_t_db fsl_db other_losses_db) (\<lambda>cn0_dbhz.
                    capacity_kbps strategy cn0_dbhz (bi_bandwidth i)))))"

section \<open>The calculator\<close>

record calculator =
  ca_freq_down :: real
  ca_freq_up :: real
  ca_band_down :: real
  ca_band_up :: real
  ca_rolloff :: real
  ca_unavailability :: real
  ca_tsys :: real

definition default_calculator :: calculator where
  "default_calculator = \<lparr>ca_freq_down = 19, ca_freq_up = 57 / 4, ca_band_down = 500 * 10 ^ 6, ca_band_up = 500 * 10 ^ 6,
     ca_rolloff = 1 / 4, ca_unavailability = 1 / 10, ca_tsys = 100\<rparr>"

text \<open>\<open>except (AttributeError, TypeError, ValueError)\<close> around a gain or an EIRP.\<close>

definition or_else :: "'a result \<Rightarrow> 'a \<Rightarrow> 'a result" where
  "or_else r y = (case r of Inr x \<Rightarrow> Inr x
     | Inl e \<Rightarrow> if value_or_type e \<or> e = OtherError ''AttributeError'' then Inr y else Inl e)"

definition gain_or_zero :: "real \<Rightarrow> antenna \<Rightarrow> real result" where
  "gain_or_zero frequency_ghz a = or_else (calculate_gain_db frequency_ghz a) (case an_gain a of Some g \<Rightarrow> g | None \<Rightarrow> 0)"

definition compute_one_way_shannon_capacity :: "itur_model \<Rightarrow> calculator \<Rightarrow> antenna option \<Rightarrow> antenna option \<Rightarrow> real \<Rightarrow> real \<Rightarrow>
    real \<Rightarrow> real \<Rightarrow> real \<Rightarrow> real \<Rightarrow> real \<Rightarrow> int result" where
  "compute_one_way_shannon_capacity itur ca tx rx frequency_ghz distance_km elevation gs_lat gs_lon gs_diameter bandwidth_hz =
    (case tx of None \<Rightarrow> Inr 0
     | Some ant \<Rightarrow>
        rbind (gain_or_zero frequency_ghz ant) (\<lambda>gdb.
        rbind (or_else (get_eirp_db frequency_ghz ant) (calculate_transmitter_eirp (an_sspa ant) gdb (an_losses ant))) (\<lambda>eirp_db.
        rbind (case rx of None \<Rightarrow> Inr 0 | Some a \<Rightarrow> gain_or_zero frequency_ghz a) (\<lambda>rx_gain_db.
        rbind (linear_to_db (ca_tsys ca)) (\<lambda>tsys_db.
        rbind (calculate_free_space_loss_db frequency_ghz distance_km) (\<lambda>fsl_db.
        rbind (calculate_atmospheric_attenuation itur gs_lat gs_lon frequency_ghz elevation (ca_unavailability ca) gs_diameter) (\<lambda>att.
        rbind (carrier_to_noise_density eirp_db (rx_gain_db - tsys_db) fsl_db (fst att)) (\<lambda>cn0_dbhz.
        rbind (carrier_to_noise_ratio cn0_dbhz bandwidth_hz) (\<lambda>cn_db.
          Inr (py_trunc (bandwidth_hz * log 2 (1 + max 0 (10 powr (cn_db / 10))) / 1000)))))))))))"

section \<open>Geometry\<close>

definition earth_radius :: real where
  "earth_radius = 6378137 / 1000"

definition radians :: "real \<Rightarrow> real" where
  "radians d = d * pi / 180"

definition latlonelev_to_xyz :: "real \<Rightarrow> real \<Rightarrow> real \<Rightarrow> real \<times> real \<times> real" where
  "latlonelev_to_xyz lat lon elev =
    (let r = earth_radius + elev
     in (r * cos (radians lat) * cos (radians lon), r * cos (radians lat) * sin (radians lon), r * sin (radians lat)))"

fun dot3 :: "real \<times> real \<times> real \<Rightarrow> real \<times> real \<times> real \<Rightarrow> real" where
  "dot3 (a, b, c) (x, y, z) = a * x + b * y + c * z"

definition norm3 :: "real \<times> real \<times> real \<Rightarrow> real" where
  "norm3 v = sqrt (dot3 v v)"

text \<open>A zero vector makes the quotient NaN, which the clamping turns into 1; the central angle is
  then 0 and the last division, whose divisor may vanish in that case, is not reached.\<close>

definition cos_central :: "real \<times> real \<times> real \<Rightarrow> real \<times> real \<times> real \<Rightarrow> real" where
  "cos_central g s = (if norm3 g * norm3 s = 0 then 1 else max (- 1) (min 1 (dot3 g s / (norm3 g * norm3 s))))"

definition get_elevation_angle :: "real \<times> real \<times> real \<Rightarrow> real \<times> real \<times> real \<Rightarrow> real" where
  "get_elevation_angle sat_coordinates gnd_coordinates =
    (case (sat_coordinates, gnd_coordinates) of ((lat, lon, h), (glat, glon, gh)) \<Rightarrow>
      let cos_theta = cos_central (latlonelev_to_xyz glat glon gh) (latlonelev_to_xyz lat lon h);
          theta = arccos cos_theta; sin_theta = sin theta
      in if \<bar>sin_theta\<bar> < 1 / 10 ^ 10 then (if theta < pi / 2 then 90 else - 90)
         else arctan ((cos_theta - earth_radius / (earth_radius + h)) / sin_theta) * 180 / pi)"

section \<open>The downlink with modulation and coding\<close>

type_synonym position = "(string, real) dict"

definition coordinate :: "string \<Rightarrow> position \<Rightarrow> real result" where
  "coordinate key p = (case dict_get p key of None \<Rightarrow> Inl (KeyError key) | Some x \<Rightarrow> Inr x)"

definition coordinates :: "position \<Rightarrow> (real \<times> real \<times> real) result" where
  "coordinates p = rbind (coordinate ''latitude'' p) (\<lambda>lat. rbind (coordinate ''longitude'' p) (\<lambda>lon.
     rbind (coordinate ''altitude'' p) (\<lambda>alt. Inr (lat, lon, alt))))"

definition compute_elevation_angle :: "position \<Rightarrow> position \<Rightarrow> real result" where
  "compute_elevation_angle sat_position gnd_position =
    rbind (coordinates sat_position) (\<lambda>s. rbind (coordinates gnd_position) (\<lambda>g. Inr (get_elevation_angle s g)))"

record budget_result =
  br_elevation :: real
  br_fsl :: real
  br_atmospheric :: real
  br_eirp :: real
  br_g_over_t :: real
  br_cn0 :: real
  br_cn :: real
  br_modcod :: "modcod option"
  br_bps :: "real option"
  br_kbps :: "int option"

definition downlink_g_over_t :: "calculator \<Rightarrow> real option \<Rightarrow> antenna option \<Rightarrow> real result" where
  "downlink_g_over_t ca attribute gnd_antenna = (case attribute of
     Some g \<Rightarrow> Inr g
   | None \<Rightarrow> (case gnd_antenna of
        None \<Rightarrow> Inl (ValueError ''Ground station antenna is not available'')
      | Some a \<Rightarrow> rbind (calculate_gain_db (ca_freq_down ca) a) (\<lambda>rx_gain_db.
          rbind (linear_to_db (ca_tsys ca)) (\<lambda>tsys_db. Inr (rx_gain_db - tsys_db)))))"

text \<open>The choice of the code and its capacity in bits per second.\<close>

definition downlink_rate :: "calculator \<Rightarrow> real \<Rightarrow> (modcod option \<times> real option) result" where
  "downlink_rate ca cn0_dbhz =
    (if 1 + ca_rolloff ca = 0 then zero_division
     else rbind (linear_to_db (ca_band_down ca / (1 + ca_rolloff ca))) (\<lambda>rate_db.
       case best_for_csat_n0_rs (cn0_dbhz - rate_db) of
         None \<Rightarrow> Inr (None, None)
       | Some m \<Rightarrow> rbind (calculate_link_capacity (ca_band_down ca) (ca_rolloff ca) (spectral_efficiency m)) (\<lambda>c. Inr (Some m, Some c))))"

definition compute_downlink_modcod :: "itur_model \<Rightarrow> calculator \<Rightarrow> position option \<Rightarrow> antenna option \<Rightarrow>
    position option \<Rightarrow> antenna option \<Rightarrow> real option \<Rightarrow> real \<Rightarrow> real \<Rightarrow> real \<Rightarrow> real \<Rightarrow> budget_result result" where
  "compute_downlink_modcod itur ca sat_position sat_antenna gnd_position gnd_antenna g_over_t distance_km gs_lat gs_lon gs_diameter =
    (case (sat_position, gnd_position) of
       (Some sp, Some gp) \<Rightarrow>
        rbind (compute_elevation_angle sp gp) (\<lambda>elevation.
        rbind (calculate_atmospheric_attenuation itur gs_lat gs_lon (ca_freq_down ca) elevation (ca_unavailability ca) gs_diameter) (\<lambda>att.
        rbind (case sat_antenna of None \<Rightarrow> Inl (ValueError ''Satellite antenna EIRP is not available'')
               | Some a \<Rightarrow> (case an_eirp a of None \<Rightarrow> Inl (ValueError ''Satellite antenna EIRP is not available'') | Some e \<Rightarrow> Inr e)) (\<lambda>eirp_db.
        rbind (downlink_g_over_t ca g_over_t gnd_antenna) (\<lambda>gt_db.
        rbind (calculate_free_space_loss_db (ca_freq_down ca) distance_km) (\<lambda>fsl_db.
        rbind (carrier_to_noise_density eirp_db gt_db fsl_db (fst att)) (\<lambda>cn0_dbhz.
        rbind (carrier_to_noise_ratio cn0_dbhz (ca_band_down ca)) (\<lambda>cn_db.
        rbind (downlink_rate ca cn0_dbhz) (\<lambda>(m, c).
          Inr \<lparr>br_elevation = elevation, br_fsl = fsl_db, br_atmospheric = fst att, br_eirp = eirp_db, br_g_over_t = gt_db,
            br_cn0 = cn0_dbhz, br_cn = cn_db, br_modcod = m, br_bps = c, br_kbps = map_option (\<lambda>b. py_trunc (b / 1000)) c\<rparr>))))))))
     | _ \<Rightarrow> Inl (ValueError ''Both nodes must have position attributes''))"

section \<open>Capacities of a ground link\<close>

record budget_config =
  bc_down_freq :: real
  bc_up_freq :: real
  bc_down_band :: real
  bc_up_band :: real

definition default_budget_config :: budget_config where
  "default_budget_config = \<lparr>bc_down_freq = 19, bc_up_freq = 57 / 4, bc_down_band = 500 * 10 ^ 6, bc_up_band = 500 * 10 ^ 6\<rparr>"

text \<open>A missing position or coordinate gives the typical elevation of 30 degrees.\<close>

definition link_elevation :: "position option \<Rightarrow> position option \<Rightarrow> real" where
  "link_elevation sat_position gs_position = (case (sat_position, gs_position) of
     (Some s, Some g) \<Rightarrow> (case compute_elevation_angle s g of Inl _ \<Rightarrow> 30 | Inr el \<Rightarrow> el)
   | _ \<Rightarrow> 30)"

definition link_inputs :: "antenna \<Rightarrow> antenna \<Rightarrow> antenna \<Rightarrow> real \<Rightarrow> real \<Rightarrow> real \<Rightarrow> real \<Rightarrow> position \<Rightarrow> budget_inputs" where
  "link_inputs tx rx gs frequency bandwidth distance elevation gs_position =
    \<lparr>bi_tx = Some tx, bi_rx = Some rx, bi_frequency = frequency, bi_distance = distance / 1000, bi_elevation = elevation,
     bi_lat = dict_get_or gs_position ''latitude'' 0, bi_lon = dict_get_or gs_position ''longitude'' 0, bi_diameter = an_diameter gs,
     bi_bandwidth = bandwidth, bi_tsys = 100, bi_unavailability = 1 / 10\<rparr>"

text \<open>Downlink and uplink in kbps, before the default replaces what is not positive; \<open>None\<close> when
  an antenna is missing.\<close>

definition link_budget :: "itur_model \<Rightarrow> (nref \<Rightarrow> antenna option) \<Rightarrow> (nref \<Rightarrow> position option) \<Rightarrow> budget_config option \<Rightarrow>
    nref \<Rightarrow> nref \<Rightarrow> real \<Rightarrow> (int \<times> int) option result" where
  "link_budget itur antenna_of position_of cfg sat gs distance =
    (case (antenna_of sat, antenna_of gs) of
       (Some sa, Some ga) \<Rightarrow>
        let elevation = link_elevation (position_of sat) (position_of gs);
            c = (case cfg of Some c \<Rightarrow> c | None \<Rightarrow> default_budget_config)
        in (case position_of gs of
              None \<Rightarrow> Inl (OtherError ''AttributeError'')
            | Some p \<Rightarrow>
                rbind (compute_one_way itur (ModCodCapacityStrategy (1 / 4)) (link_inputs sa ga ga (bc_down_freq c) (bc_down_band c) distance elevation p)) (\<lambda>dl.
                rbind (compute_one_way itur ShannonCapacityStrategy (link_inputs ga sa ga (bc_up_freq c) (bc_up_band c) distance elevation p)) (\<lambda>ul.
                  Inr (Some (dl, ul)))))
     | _ \<Rightarrow> Inr None)"

section \<open>Changing antennas and configuration\<close>

text \<open>The parameter \<open>budget\<close> of the theory Topology is the value of \<open>link_budget\<close> where no
  exception is raised. Here the exception of one link ends the whole operation.\<close>

definition refresh_budget_link :: "(nref \<Rightarrow> nref \<Rightarrow> real \<Rightarrow> (int \<times> int) option result) \<Rightarrow> link \<Rightarrow> link result" where
  "refresh_budget_link budget l =
    (if lk_use_budget l \<and> lk_type l = ''GroundStationLink''
     then (let (sat, gs) = identify_sat_and_gs l
           in rbind (budget sat gs (lk_distance l)) (\<lambda>r. Inr (snd (refresh_link_capacities (\<lambda>_ _ _. r) l))))
     else Inr l)"

definition refresh_budget_links :: "(nref \<Rightarrow> nref \<Rightarrow> real \<Rightarrow> (int \<times> int) option result) \<Rightarrow> topology \<Rightarrow> topology result" where
  "refresh_budget_links budget tp =
    rbind (rmap (\<lambda>(k, l). rbind (refresh_budget_link budget l) (\<lambda>l'. Inr (k, l'))) (tp_links tp)) (\<lambda>links.
      Inr (tp\<lparr>tp_links := links\<rparr>))"

definition set_link_budget_config :: "itur_model \<Rightarrow> (nref \<Rightarrow> antenna option) \<Rightarrow> (nref \<Rightarrow> position option) \<Rightarrow> budget_config \<Rightarrow>
    topology \<Rightarrow> topology result" where
  "set_link_budget_config itur antenna_of position_of cfg tp =
    refresh_budget_links (link_budget itur antenna_of position_of (Some cfg)) tp"

definition set_antenna :: "itur_model \<Rightarrow> (nref \<Rightarrow> antenna option) \<Rightarrow> (nref \<Rightarrow> position option) \<Rightarrow> budget_config option \<Rightarrow>
    nref list \<Rightarrow> antenna_config \<Rightarrow> topology \<Rightarrow> (nref \<Rightarrow> antenna option) \<times> topology result" where
  "set_antenna itur antenna_of position_of cfg nodes c tp =
    (let antenna_of' = (\<lambda>n. if n \<in> set nodes then Some (to_antenna c) else antenna_of n)
     in (antenna_of', refresh_budget_links (link_budget itur antenna_of' position_of cfg) tp))"

end
