(* ===== verification/Budget_Facts.thy ===== *)
theory Budget_Facts
  imports Link_Budget
begin

text \<open>
  Properties of the link budget: the choice of the code, its capacity against the Shannon
  bound, the agreement of the three ways to compute a budget, the errors that escape, and
  the elevation of a satellite.
\<close>

section \<open>Choosing the code\<close>

lemmas modcod_facts = spectral_efficiency_def csat_n0_rs_def

lemma first_max_greatest:
  "first_max f x xs \<in> set (x # xs) \<and> (\<forall>y \<in> set (x # xs). f y \<le> f (first_max f x xs))"
proof (induction xs arbitrary: x)
  case (Cons y ys)
  have s: "first_max f x (y # ys) = first_max f (if f y > f x then y else x) ys" by (simp add: first_max_def)
  show ?case unfolding s using Cons.IH [of x] Cons.IH [of y] by (cases "f y > f x") force+
qed (simp add: first_max_def)

lemma list_modcods_all: "set list_modcods = UNIV"
proof -
  have "m \<in> set list_modcods" for m by (cases m; simp add: list_modcods_def)
  then show ?thesis by auto
qed

lemma modcod_range:
  "- (245 / 100) \<le> csat_n0_rs m" "0 < spectral_efficiency m"
  by (cases m; simp add: modcod_facts)+

lemma best_cases:
  "case best_for_csat_n0_rs x of None \<Rightarrow> \<forall>m'. \<not> csat_n0_rs m' \<le> x
   | Some m \<Rightarrow> csat_n0_rs m \<le> x \<and> (\<forall>m'. csat_n0_rs m' \<le> x \<longrightarrow> spectral_efficiency m' \<le> spectral_efficiency m)"
proof -
  have el: "set (filter (\<lambda>m. csat_n0_rs m \<le> x) list_modcods) = {m. csat_n0_rs m \<le> x}" by (simp add: list_modcods_all)
  show ?thesis
  proof (cases "filter (\<lambda>m. csat_n0_rs m \<le> x) list_modcods")
    case (Cons m ms)
    then have "set (m # ms) = {m. csat_n0_rs m \<le> x}" using el by metis
    then show ?thesis using Cons first_max_greatest [of spectral_efficiency m ms] by (auto simp: best_for_csat_n0_rs_def)
  qed (use el in \<open>simp add: best_for_csat_n0_rs_def\<close>)
qed

section \<open>The Shannon bound\<close>

lemma powr_root: "0 < b \<Longrightarrow> 0 < n \<Longrightarrow> (b powr (s / real n)) ^ n = b powr s" for b :: real
  by (simp add: powr_realpow [symmetric] powr_powr)

lemma below_root: "0 < b \<Longrightarrow> 0 < n \<Longrightarrow> x ^ n \<le> b powr s \<Longrightarrow> x \<le> b powr (s / real n)" for b x :: real
  using power_le_imp_le_base [of x "n - 1" "b powr (s / real n)"] powr_root [of b n s] by simp

lemma above_root: "0 < b \<Longrightarrow> 0 < n \<Longrightarrow> 0 \<le> x \<Longrightarrow> b powr s \<le> x ^ n \<Longrightarrow> b powr (s / real n) \<le> x" for b x :: real
  using power_le_imp_le_base [of "b powr (s / real n)" "n - 1" x] powr_root [of b n s] by simp

lemma eighth_root: "2 powr (1 / 8) \<le> (12 / 11 :: real)"
  using above_root [of 2 8 "12 / 11" 1] by (simp add: power_divide)

lemma tenth_root: "(5 / 4 :: real) \<le> 10 powr (1 / 10)"
  using below_root [of 10 10 "5 / 4" 1] by (simp add: power_divide)

lemma tenth_inverse: "(50 / 63 :: real) \<le> 10 powr (- 1 / 10)"
  using below_root [of 10 10 "50 / 63" "- 1"] by (simp add: power_divide powr_minus_divide)

lemma power_eighth: "2 powr (real n / 8) \<le> (12 / 11 :: real) ^ n"
proof -
  have "2 powr (real n / 8) = (2 powr (1 / 8 :: real)) ^ n" by (simp add: powr_realpow [symmetric] powr_powr)
  then show ?thesis using power_mono [OF eighth_root, of n] by simp
qed

lemma power_tenth: "(5 / 4 :: real) ^ k \<le> 10 powr (real k / 10)" "(50 / 63 :: real) ^ k \<le> 10 powr (- real k / 10)"
proof -
  have "10 powr (real k / 10) = (10 powr (1 / 10 :: real)) ^ k" "10 powr (- real k / 10) = (10 powr (- 1 / 10 :: real)) ^ k"
    by (simp_all add: powr_realpow [symmetric] powr_powr)
  then show "(5 / 4 :: real) ^ k \<le> 10 powr (real k / 10)" "(50 / 63 :: real) ^ k \<le> 10 powr (- real k / 10)"
    using power_mono [OF tenth_root, of k] power_mono [OF tenth_inverse, of k] by simp_all
qed

lemma powr_le_step: "2 powr e \<le> 2 powr (real n / 8) \<and> 10 powr (s / 10) \<le> 10 powr (t / 10)" if "e \<le> real n / 8" "s \<le> t" for e t :: real
  using that by (simp add: powr_le_cancel_iff)

lemma below_log: "2 powr e \<le> 1 + 10 powr (t / 10) \<Longrightarrow> e \<le> log 2 (1 + db_to_linear t)"
  by (subst le_log_iff) (simp_all add: db_to_linear_def add_pos_pos)

lemma below_one: "e \<le> 1 \<Longrightarrow> 0 \<le> t \<Longrightarrow> e \<le> log 2 (1 + db_to_linear t)"
  using powr_le_step [of e 8 0 t] by (intro below_log) simp

lemma below_step:
  assumes "e \<le> real n / 8" "real k \<le> t" "(12 / 11) ^ n \<le> 1 + (5 / 4 :: real) ^ k"
  shows "e \<le> log 2 (1 + db_to_linear t)"
  using powr_le_step [OF assms(1,2)] power_eighth [of n] power_tenth(1) [of k] assms(3) by (intro below_log) linarith

lemma below_neg:
  assumes "e \<le> real n / 8" "- real k \<le> t" "(12 / 11) ^ n \<le> 1 + (50 / 63 :: real) ^ k"
  shows "e \<le> log 2 (1 + db_to_linear t)"
  using powr_le_step [OF assms(1,2)] power_eighth [of n] power_tenth(2) [of k] assms(3) by (intro below_log) linarith

text \<open>Every code works above the Shannon limit of its symbol rate.\<close>

lemma modcod_sound: "spectral_efficiency m \<le> log 2 (1 + db_to_linear (csat_n0_rs m))"
proof (cases m)
  case QPSK_2_9
  show ?thesis unfolding QPSK_2_9 by (rule below_neg [of _ 4 3]) (simp_all add: modcod_facts power_divide)
next
  case QPSK_13_45
  show ?thesis unfolding QPSK_13_45 by (rule below_neg [of _ 5 2]) (simp_all add: modcod_facts power_divide)
next
  case QPSK_9_20
  show ?thesis unfolding QPSK_9_20 by (rule below_one) (simp_all add: modcod_facts power_divide)
next
  case QPSK_11_20
  show ?thesis unfolding QPSK_11_20 by (rule below_step [of _ 9 1]) (simp_all add: modcod_facts power_divide)
next
  case PSK8_23_36
  show ?thesis unfolding PSK8_23_36 by (rule below_step [of _ 16 6]) (simp_all add: modcod_facts power_divide)
next
  case PSK8_25_36
  show ?thesis unfolding PSK8_25_36 by (rule below_step [of _ 17 7]) (simp_all add: modcod_facts power_divide)
next
  case PSK8_13_18
  show ?thesis unfolding PSK8_13_18 by (rule below_step [of _ 18 8]) (simp_all add: modcod_facts power_divide)
next
  case APSK8_5_9_L
  show ?thesis unfolding APSK8_5_9_L by (rule below_step [of _ 14 5]) (simp_all add: modcod_facts power_divide)
next
  case APSK8_26_45_L
  show ?thesis unfolding APSK8_26_45_L by (rule below_step [of _ 14 6]) (simp_all add: modcod_facts power_divide)
next
  case APSK16_1_2_L
  show ?thesis unfolding APSK16_1_2_L by (rule below_step [of _ 16 8]) (simp_all add: modcod_facts power_divide)
next
  case APSK16_8_15_L
  show ?thesis unfolding APSK16_8_15_L by (rule below_step [of _ 17 9]) (simp_all add: modcod_facts power_divide)
next
  case APSK16_5_9_L
  show ?thesis unfolding APSK16_5_9_L by (rule below_step [of _ 18 9]) (simp_all add: modcod_facts power_divide)
next
  case APSK16_26_45
  show ?thesis unfolding APSK16_26_45 by (rule below_step [of _ 19 9]) (simp_all add: modcod_facts power_divide)
next
  case APSK16_3_5
  show ?thesis unfolding APSK16_3_5 by (rule below_step [of _ 19 9]) (simp_all add: modcod_facts power_divide)
next
  case APSK16_3_5_L
  show ?thesis unfolding APSK16_3_5_L by (rule below_step [of _ 19 9]) (simp_all add: modcod_facts power_divide)
next
  case APSK16_28_45
  show ?thesis unfolding APSK16_28_45 by (rule below_step [of _ 20 9]) (simp_all add: modcod_facts power_divide)
next
  case APSK16_23_36
  show ?thesis unfolding APSK16_23_36 by (rule below_step [of _ 21 10]) (simp_all add: modcod_facts power_divide)
next
  case APSK16_2_3_L
  show ?thesis unfolding APSK16_2_3_L by (rule below_step [of _ 22 11]) (simp_all add: modcod_facts power_divide)
next
  case APSK16_25_36
  show ?thesis unfolding APSK16_25_36 by (rule below_step [of _ 22 11]) (simp_all add: modcod_facts power_divide)
next
  case APSK16_13_18
  show ?thesis unfolding APSK16_13_18 by (rule below_step [of _ 23 11]) (simp_all add: modcod_facts power_divide)
next
  case APSK16_7_9
  show ?thesis unfolding APSK16_7_9 by (rule below_step [of _ 25 12]) (simp_all add: modcod_facts power_divide)
next
  case APSK16_77_90
  show ?thesis unfolding APSK16_77_90 by (rule below_step [of _ 28 14]) (simp_all add: modcod_facts power_divide)
next
  case APSK32_2_3_L
  show ?thesis unfolding APSK32_2_3_L by (rule below_step [of _ 27 13]) (simp_all add: modcod_facts power_divide)
next
  case APSK32_32_45
  show ?thesis unfolding APSK32_32_45 by (rule below_step [of _ 29 14]) (simp_all add: modcod_facts power_divide)
next
  case APSK32_11_15
  show ?thesis unfolding APSK32_11_15 by (rule below_step [of _ 29 14]) (simp_all add: modcod_facts power_divide)
next
  case APSK32_7_9
  show ?thesis unfolding APSK32_7_9 by (rule below_step [of _ 31 15]) (simp_all add: modcod_facts power_divide)
next
  case APSK64_32_45_L
  show ?thesis unfolding APSK64_32_45_L by (rule below_step [of _ 34 17]) (simp_all add: modcod_facts power_divide)
next
  case APSK64_11_15
  show ?thesis unfolding APSK64_11_15 by (rule below_step [of _ 35 17]) (simp_all add: modcod_facts power_divide)
next
  case APSK64_7_9
  show ?thesis unfolding APSK64_7_9 by (rule below_step [of _ 37 19]) (simp_all add: modcod_facts power_divide)
next
  case APSK64_4_5
  show ?thesis unfolding APSK64_4_5 by (rule below_step [of _ 38 19]) (simp_all add: modcod_facts power_divide)
next
  case APSK64_5_6
  show ?thesis unfolding APSK64_5_6 by (rule below_step [of _ 40 20]) (simp_all add: modcod_facts power_divide)
next
  case APSK128_3_4
  show ?thesis unfolding APSK128_3_4 by (rule below_step [of _ 42 21]) (simp_all add: modcod_facts power_divide)
next
  case APSK128_7_9
  show ?thesis unfolding APSK128_7_9 by (rule below_step [of _ 43 22]) (simp_all add: modcod_facts power_divide)
next
  case APSK256_29_45_L
  show ?thesis unfolding APSK256_29_45_L by (rule below_step [of _ 41 21]) (simp_all add: modcod_facts power_divide)
next
  case APSK256_2_3_L
  show ?thesis unfolding APSK256_2_3_L by (rule below_step [of _ 42 21]) (simp_all add: modcod_facts power_divide)
next
  case APSK256_31_45_L
  show ?thesis unfolding APSK256_31_45_L by (rule below_step [of _ 44 22]) (simp_all add: modcod_facts power_divide)
next
  case APSK256_32_45
  show ?thesis unfolding APSK256_32_45 by (rule below_step [of _ 45 22]) (simp_all add: modcod_facts power_divide)
next
  case APSK256_11_15_L
  show ?thesis unfolding APSK256_11_15_L by (rule below_step [of _ 47 23]) (simp_all add: modcod_facts power_divide)
next
  case APSK256_3_4
  show ?thesis unfolding APSK256_3_4 by (rule below_step [of _ 48 24]) (simp_all add: modcod_facts power_divide)
qed

section \<open>The chosen code\<close>

text \<open>Codes that another code beats with a threshold not higher and a greater efficiency.\<close>

definition dominated_modcods :: "modcod list" where
  "dominated_modcods = [APSK16_1_2_L, APSK16_8_15_L, APSK16_5_9_L, APSK16_3_5_L, APSK16_2_3_L, APSK256_29_45_L]"

lemma dominated: "m \<in> set dominated_modcods \<Longrightarrow> \<exists>m'. csat_n0_rs m' \<le> csat_n0_rs m \<and> spectral_efficiency m < spectral_efficiency m'"
proof -
  have "csat_n0_rs PSK8_25_36 \<le> csat_n0_rs APSK16_1_2_L \<and> spectral_efficiency APSK16_1_2_L < spectral_efficiency PSK8_25_36"
    "csat_n0_rs PSK8_13_18 \<le> csat_n0_rs APSK16_8_15_L \<and> spectral_efficiency APSK16_8_15_L < spectral_efficiency PSK8_13_18"
    "csat_n0_rs APSK16_26_45 \<le> csat_n0_rs APSK16_5_9_L \<and> spectral_efficiency APSK16_5_9_L < spectral_efficiency APSK16_26_45"
    "csat_n0_rs APSK16_28_45 \<le> csat_n0_rs APSK16_3_5_L \<and> spectral_efficiency APSK16_3_5_L < spectral_efficiency APSK16_28_45"
    "csat_n0_rs APSK16_25_36 \<le> csat_n0_rs APSK16_2_3_L \<and> spectral_efficiency APSK16_2_3_L < spectral_efficiency APSK16_25_36"
    "csat_n0_rs APSK128_3_4 \<le> csat_n0_rs APSK256_29_45_L \<and> spectral_efficiency APSK256_29_45_L < spectral_efficiency APSK128_3_4"
    by (simp_all add: modcod_facts)
  then show "m \<in> set dominated_modcods \<Longrightarrow> \<exists>m'. csat_n0_rs m' \<le> csat_n0_rs m \<and> spectral_efficiency m < spectral_efficiency m'"
    unfolding dominated_modcods_def by auto
qed

text \<open>
  The selected code works at the available ratio and no other working code is
  more efficient; none is selected exactly below -2.45 dB, six members of the enumeration
  never are, and a better ratio never selects a less efficient code.
\<close>

theorem modcod_choice:
  "(case best_for_csat_n0_rs x of None \<Rightarrow> x < - (245 / 100)
    | Some m \<Rightarrow> - (245 / 100) \<le> x \<and> csat_n0_rs m \<le> x \<and> m \<notin> set dominated_modcods \<and>
        (\<forall>m'. csat_n0_rs m' \<le> x \<longrightarrow> spectral_efficiency m' \<le> spectral_efficiency m)) \<and>
   (\<forall>m m'. x \<le> y \<and> best_for_csat_n0_rs x = Some m \<longrightarrow>
      (\<exists>m'. best_for_csat_n0_rs y = Some m' \<and> spectral_efficiency m \<le> spectral_efficiency m'))"
proof -
  have a: "case best_for_csat_n0_rs x of None \<Rightarrow> x < - (245 / 100)
    | Some m \<Rightarrow> - (245 / 100) \<le> x \<and> csat_n0_rs m \<le> x \<and> m \<notin> set dominated_modcods \<and>
        (\<forall>m'. csat_n0_rs m' \<le> x \<longrightarrow> spectral_efficiency m' \<le> spectral_efficiency m)"
  proof (cases "best_for_csat_n0_rs x")
    case None
    then have "\<not> csat_n0_rs QPSK_2_9 \<le> x" using best_cases [of x] by simp
    then show ?thesis using None by (simp add: modcod_facts)
  next
    case (Some m)
    then have b: "csat_n0_rs m \<le> x" "\<And>m'. csat_n0_rs m' \<le> x \<Longrightarrow> spectral_efficiency m' \<le> spectral_efficiency m"
      using best_cases [of x] by simp_all
    moreover have "m \<notin> set dominated_modcods" using dominated [of m] b(1) b(2) by (meson not_le order_trans)
    ultimately show ?thesis using Some modcod_range(1) [of m] by simp
  qed
  have "\<exists>m'. best_for_csat_n0_rs y = Some m' \<and> spectral_efficiency m \<le> spectral_efficiency m'"
    if "x \<le> y" "best_for_csat_n0_rs x = Some m" for m
  proof -
    have "csat_n0_rs m \<le> y" using that best_cases [of x] by simp
    then show ?thesis using best_cases [of y] by (auto split: option.splits)
  qed
  then show ?thesis using a by blast
qed

lemma modcod_choice_witness:
  "\<exists>m'. best_for_csat_n0_rs 20 = Some m' \<and> spectral_efficiency QPSK_2_9 \<le> spectral_efficiency m'"
proof -
  have "best_for_csat_n0_rs (- 2) = Some QPSK_2_9"
    by (simp add: best_for_csat_n0_rs_def list_modcods_def modcod_facts first_max_def)
  then show ?thesis using modcod_choice [of "- 2" 20] by simp
qed

section \<open>Below the Shannon bound\<close>

lemma bandwidth_mono_deriv:
  assumes "0 < x" "0 \<le> c"
  shows "((\<lambda>b. b * ln (1 + c / b)) has_real_derivative ln (1 + c / x) - c / x / (1 + c / x)) (at x)"
proof -
  have "0 < c * x + x * x" using assms by (simp add: add_nonneg_pos)
  then show ?thesis using assms
    by (auto intro!: derivative_eq_intros simp: add_pos_nonneg field_simps power2_eq_square)
qed

lemma ln_quotient: "0 \<le> z \<Longrightarrow> z / (1 + z) \<le> ln (1 + z)" for z :: real
proof -
  assume "0 \<le> z"
  then have "ln (1 / (1 + z)) \<le> 1 / (1 + z) - 1" by (intro ln_le_minus_one) simp
  then show ?thesis using \<open>0 \<le> z\<close> by (simp add: ln_div field_simps)
qed

lemma bandwidth_mono:
  assumes "0 < a" "a \<le> b" "0 \<le> c"
  shows "a * log 2 (1 + c / a) \<le> b * log 2 (1 + c / b)"
proof -
  have "a * ln (1 + c / a) \<le> b * ln (1 + c / b)"
  proof (rule DERIV_nonneg_imp_nondecreasing [OF assms(2)])
    fix x assume "a \<le> x" "x \<le> b"
    then have "0 < x" using assms by simp
    then show "\<exists>d. ((\<lambda>b. b * ln (1 + c / b)) has_real_derivative d) (at x) \<and> 0 \<le> d"
      using bandwidth_mono_deriv [of x c] ln_quotient [of "c / x"] assms(3) by force
  qed
  then show ?thesis by (simp add: log_def divide_right_mono flip: times_divide_eq_right) (simp add: divide_right_mono)
qed

lemma db_quotient: "0 < z \<Longrightarrow> db_to_linear (x - 10 * log 10 z) = db_to_linear x / z"
  by (simp add: db_to_linear_def diff_divide_distrib powr_diff)

lemma shannon_closed:
  "0 < bw \<Longrightarrow> shannon_capacity cn0 bw = Inr (bw * log 2 (1 + db_to_linear cn0 / bw))"
  by (simp add: shannon_capacity_def carrier_to_noise_ratio_def linear_to_db_def db_quotient) (simp add: db_to_linear_def)

lemma modcod_below:
  assumes "modcod_capacity r cn0 bw = Inr c" "0 \<le> r"
  shows "0 < c \<and> 0 < bw \<and> c \<le> bw * log 2 (1 + db_to_linear cn0 / bw)"
proof -
  let ?rs = "bw / (1 + r)"
  have rs: "0 < ?rs" using assms by (auto simp: modcod_capacity_def linear_to_db_def split: if_splits)
  then have bw: "0 < bw" "?rs \<le> bw" using assms(2) by (auto simp: field_simps zero_less_divide_iff)
  obtain m where m: "best_for_csat_n0_rs (cn0 - 10 * log 10 ?rs) = Some m" "c = ?rs * spectral_efficiency m"
    using assms rs by (auto simp: modcod_capacity_def linear_to_db_def calculate_link_capacity_def split: if_splits option.splits)
  have "db_to_linear (csat_n0_rs m) \<le> db_to_linear cn0 / ?rs"
    using best_cases [of "cn0 - 10 * log 10 ?rs"] m(1) rs db_quotient [OF rs, of cn0, symmetric] by (simp add: db_to_linear_def)
  moreover have "0 < db_to_linear (csat_n0_rs m)" by (simp add: db_to_linear_def)
  ultimately have "log 2 (1 + db_to_linear (csat_n0_rs m)) \<le> log 2 (1 + db_to_linear cn0 / ?rs)" by (intro log_mono) simp_all
  then have "?rs * spectral_efficiency m \<le> ?rs * log 2 (1 + db_to_linear cn0 / ?rs)"
    using rs modcod_sound [of m] by (intro mult_left_mono) simp_all
  also have "\<dots> \<le> bw * log 2 (1 + db_to_linear cn0 / bw)"
    by (rule bandwidth_mono) (use rs bw in \<open>simp_all add: db_to_linear_def\<close>)
  finally show ?thesis using m(2) rs bw modcod_range(2) [of m] by (simp del: times_divide_eq_left)
qed

lemma one_way_split:
  "(\<exists>c. c \<in> {Inr 0} \<union> range Inl \<and> (\<forall>st. compute_one_way itur st i = c)) \<or>
   (\<exists>cn0. \<forall>st. compute_one_way itur st i = capacity_kbps st cn0 (bi_bandwidth i))"
proof -
  let ?P = "\<lambda>F. (\<exists>c. c \<in> {Inr 0} \<union> range Inl \<and> (\<forall>st. F st = c)) \<or> (\<exists>cn0. \<forall>st. F st = capacity_kbps st cn0 (bi_bandwidth i))"
  let ?E = "of_antenna (get_eirp_db (bi_frequency i)) (bi_tx i)"
  let ?G = "receiver_g_over_t (bi_frequency i) (bi_tsys i) (bi_rx i)"
  let ?L = "calculate_free_space_loss_db (bi_frequency i) (bi_distance i)"
  let ?A = "other_losses itur i"
  have early: "?P (\<lambda>_. if value_or_type e then Inr 0 else Inl e)" "?P (\<lambda>_. Inl e)" "?P (\<lambda>_. Inr 0)" for e by auto
  have last: "?P (\<lambda>st. rbind (carrier_to_noise_density e g l o') (\<lambda>cn0. capacity_kbps st cn0 (bi_bandwidth i)))" for e g l o'
    by (cases "carrier_to_noise_density e g l o'") auto
  show ?thesis unfolding compute_one_way_def
    by (cases ?E; cases ?G; cases ?L; cases ?A; simp only: sum.case rbind.simps; rule early last)
qed

lemma capacity_kbps_shannon:
  "capacity_kbps ShannonCapacityStrategy cn0 bw = Inr b \<Longrightarrow> 0 < bw \<and> b = py_trunc (bw * log 2 (1 + db_to_linear cn0 / bw) / 1000)"
proof -
  assume a: "capacity_kbps ShannonCapacityStrategy cn0 bw = Inr b"
  have "0 < bw"
    using a by (auto simp: capacity_kbps_def shannon_capacity_def carrier_to_noise_ratio_def linear_to_db_def split: if_splits)
  then show ?thesis using a by (simp add: capacity_kbps_def shannon_closed)
qed

lemma capacity_kbps_modcod:
  assumes "capacity_kbps (ModCodCapacityStrategy r) cn0 bw = Inr a" "0 \<le> r"
  shows "a = 0 \<or> (\<exists>c. modcod_capacity r cn0 bw = Inr c \<and> a = py_trunc (c / 1000))"
  using assms by (auto simp: capacity_kbps_def split: sum.splits pyerr.splits)

lemma shannon_nonneg: "0 < bw \<Longrightarrow> 0 \<le> bw * log 2 (1 + db_to_linear cn0 / bw)"
  by (simp add: db_to_linear_def add_pos_nonneg zero_le_mult_iff)

lemma py_trunc_mono: "0 \<le> x \<Longrightarrow> x \<le> y \<Longrightarrow> 0 \<le> py_trunc x \<and> py_trunc x \<le> py_trunc y"
  by (simp add: py_trunc_def floor_mono)

text \<open>
  \<^bold>\<open>C13.\<close> At the same inputs the capacity in kbps with modulation and coding is never
  negative and never above the Shannon capacity.
\<close>

theorem modcod_below_shannon:
  assumes "compute_one_way itur (ModCodCapacityStrategy r) i = Inr a" "0 \<le> r"
    "compute_one_way itur ShannonCapacityStrategy i = Inr b"
  shows "0 \<le> a \<and> a \<le> b"
  using one_way_split [of itur i]
proof (elim disjE exE conjE)
  fix cn0 assume s: "\<forall>st. compute_one_way itur st i = capacity_kbps st cn0 (bi_bandwidth i)"
  let ?b = "bi_bandwidth i * log 2 (1 + db_to_linear cn0 / bi_bandwidth i)"
  have b: "0 < bi_bandwidth i" "b = py_trunc (?b / 1000)" using capacity_kbps_shannon [of cn0 "bi_bandwidth i" b] assms(3) s by simp_all
  have "0 \<le> b" using py_trunc_mono [of 0 "?b / 1000"] shannon_nonneg [OF b(1), of cn0] b(2) by (simp add: py_trunc_def)
  moreover have "0 \<le> a \<and> a \<le> b" if "modcod_capacity r cn0 (bi_bandwidth i) = Inr c" "a = py_trunc (c / 1000)" for c
    using modcod_below [OF that(1) assms(2)] py_trunc_mono [of "c / 1000" "?b / 1000"] that(2) b(2) by simp
  ultimately show ?thesis using capacity_kbps_modcod [of r cn0 "bi_bandwidth i" a] assms(1,2) s by auto
qed (use assms in auto)

section \<open>Errors of the service\<close>

definition good_inputs :: "budget_inputs \<Rightarrow> bool" where
  "good_inputs i = (bi_tx i \<noteq> None \<and> bi_rx i \<noteq> None \<and> 0 < bi_frequency i \<and> 0 < bi_distance i \<and> 0 < bi_bandwidth i)"

definition good_strategy :: "capacity_strategy \<Rightarrow> bool" where
  "good_strategy st = (case st of ShannonCapacityStrategy \<Rightarrow> True | ModCodCapacityStrategy r \<Rightarrow> 0 \<le> r)"

lemma linear_to_db_pos: "0 < x \<Longrightarrow> linear_to_db x = Inr (10 * log 10 x)"
  by (simp add: linear_to_db_def)

lemma capacity_kbps_good:
  assumes "0 < bw" "good_strategy st"
  shows "\<exists>n \<ge> 0. capacity_kbps st cn0 bw = Inr n"
proof (cases st)
  case ShannonCapacityStrategy
  then show ?thesis using py_trunc_mono [of 0 "bw * log 2 (1 + db_to_linear cn0 / bw) / 1000"] shannon_nonneg [OF assms(1), of cn0] assms(1)
    by (simp add: capacity_kbps_def shannon_closed py_trunc_def)
next
  case (ModCodCapacityStrategy r)
  then have r: "0 \<le> r" "0 < bw / (1 + r)" using assms by (simp_all add: good_strategy_def)
  show ?thesis
  proof (cases "modcod_capacity r cn0 bw")
    case (Inl e)
    then have "\<exists>m. e = RuntimeError m"
      using r by (auto simp: modcod_capacity_def linear_to_db_def calculate_link_capacity_def split: option.splits if_splits)
    then show ?thesis using Inl ModCodCapacityStrategy by (auto simp: capacity_kbps_def)
  next
    case (Inr c)
    then show ?thesis using modcod_below [OF Inr r(1)] py_trunc_mono [of 0 "c / 1000"] ModCodCapacityStrategy
      by (auto simp: capacity_kbps_def py_trunc_def)
  qed
qed

lemma gain_error: "0 < f \<Longrightarrow> calculate_gain_db f a = Inl e \<Longrightarrow> value_or_type e"
  by (auto simp: calculate_gain_db_def linear_to_db_def Let_def split: option.splits if_splits)

lemma fsl_good: "0 < f \<Longrightarrow> 0 < d \<Longrightarrow> \<exists>l. calculate_free_space_loss_db f d = Inr l"
  by (auto simp: calculate_free_space_loss_db_def linear_to_db_def speed_of_light_def Let_def)

lemma cn0_good: "\<exists>x. carrier_to_noise_density e g l o' = Inr x"
  by (simp add: carrier_to_noise_density_def linear_to_db_def boltzmann_constant_def)

lemma eirp_error: "0 < f \<Longrightarrow> get_eirp_db f a = Inl e \<Longrightarrow> value_or_type e"
  using gain_error [of f a e] by (auto simp: get_eirp_db_def rbind_Inl_iff split: option.splits)

lemma g_over_t_error: "0 < f \<Longrightarrow> receiver_g_over_t f k (Some a) = Inl e \<Longrightarrow> value_or_type e"
  using gain_error [of f a e] by (auto simp: receiver_g_over_t_def of_antenna_def rbind_Inl_iff linear_to_db_def split: if_splits)

lemma one_way_good:
  assumes "good_inputs i" "good_strategy st"
  shows "\<exists>n \<ge> 0. compute_one_way itur st i = Inr n"
proof -
  obtain a b where ab: "bi_tx i = Some a" "bi_rx i = Some b" using assms(1) by (auto simp: good_inputs_def)
  have p: "0 < bi_frequency i" "0 < bi_distance i" "0 < bi_bandwidth i" using assms(1) by (simp_all add: good_inputs_def)
  obtain l where l: "calculate_free_space_loss_db (bi_frequency i) (bi_distance i) = Inr l" using fsl_good [OF p(1,2)] by blast
  have "\<exists>n \<ge> 0. rbind (carrier_to_noise_density e g l o') (\<lambda>c. capacity_kbps st c (bi_bandwidth i)) = Inr n" for e g o'
    using cn0_good [of e g l o'] capacity_kbps_good [OF p(3) assms(2)] by auto
  then show ?thesis
    using eirp_error [OF p(1), of a] g_over_t_error [OF p(1), of "bi_tsys i" b] ab l
    by (simp add: compute_one_way_def of_antenna_def split: sum.split)
qed

text \<open>
  With both antennas and positive frequency, distance and bandwidth a one-way
  budget always returns a capacity that is not negative. Without a transmitting antenna it
  raises an exception, although 0 is documented, and so it does at distance 0.
\<close>

theorem one_way_outcome:
  "(good_inputs i \<and> good_strategy st \<longrightarrow> (\<exists>n \<ge> 0. compute_one_way itur st i = Inr n)) \<and>
   (bi_tx i = None \<longrightarrow> compute_one_way itur st i = Inl (OtherError ''AttributeError'')) \<and>
   (\<forall>a b e g. bi_tx i = Some a \<and> bi_rx i = Some b \<and> an_eirp a = Some e \<and> an_gain b = Some g \<and> 0 < bi_tsys i \<and>
      bi_frequency i \<noteq> 0 \<and> bi_distance i = 0 \<longrightarrow>
      compute_one_way itur st i = Inl (ValueError ''Linear value must be greater than 0''))"
  using one_way_good [of i st itur]
  by (auto simp: compute_one_way_def of_antenna_def get_eirp_db_def receiver_g_over_t_def calculate_gain_db_def linear_to_db_pos
      calculate_free_space_loss_db_def linear_to_db_def [of 0] Let_def)

definition demo_antenna :: antenna where
  "demo_antenna = default_antenna\<lparr>an_eirp := Some 20, an_gain := Some 30\<rparr>"

definition demo_inputs :: budget_inputs where
  "demo_inputs = \<lparr>bi_tx = Some demo_antenna, bi_rx = Some demo_antenna, bi_frequency = 19, bi_distance = 1000, bi_elevation = 45,
     bi_lat = 0, bi_lon = 0, bi_diameter = 1, bi_bandwidth = 500 * 10 ^ 6, bi_tsys = 100, bi_unavailability = 1 / 10\<rparr>"

definition clear_sky :: itur_model where
  "clear_sky = Some (\<lambda>_ _ _ _ _ _. Inr (0, 0, 0, 0, 0))"

lemma demo_good: "good_inputs demo_inputs" "good_strategy ShannonCapacityStrategy" "good_strategy (ModCodCapacityStrategy (1 / 4))"
  by (simp_all add: good_inputs_def demo_inputs_def good_strategy_def)

lemma one_way_outcome_witness:
  "(\<exists>n \<ge> 0. compute_one_way clear_sky ShannonCapacityStrategy demo_inputs = Inr n) \<and>
   compute_one_way clear_sky ShannonCapacityStrategy (demo_inputs\<lparr>bi_distance := 0\<rparr>) = Inl (ValueError ''Linear value must be greater than 0'')"
  using one_way_outcome [of demo_inputs ShannonCapacityStrategy clear_sky]
    one_way_outcome [of "demo_inputs\<lparr>bi_distance := 0\<rparr>" ShannonCapacityStrategy clear_sky] demo_good
  by (simp add: demo_inputs_def demo_antenna_def)

lemma modcod_below_shannon_witness:
  "\<exists>a b. compute_one_way clear_sky (ModCodCapacityStrategy (1 / 4)) demo_inputs = Inr a \<and>
     compute_one_way clear_sky ShannonCapacityStrategy demo_inputs = Inr b \<and> 0 \<le> a \<and> a \<le> b"
proof -
  obtain a b where "compute_one_way clear_sky (ModCodCapacityStrategy (1 / 4)) demo_inputs = Inr a"
    "compute_one_way clear_sky ShannonCapacityStrategy demo_inputs = Inr b"
    using one_way_good demo_good by metis
  then show ?thesis using modcod_below_shannon [of clear_sky "1 / 4" demo_inputs a b] by simp
qed

section \<open>Three ways to one budget\<close>

lemma or_else_Inr [simp]: "or_else (Inr x) y = Inr x"
  by (simp add: or_else_def)

lemma capacity_kbps_shannon_rbind:
  "capacity_kbps ShannonCapacityStrategy cn0 bw =
     rbind (carrier_to_noise_ratio cn0 bw) (\<lambda>cn. Inr (py_trunc (bw * log 2 (1 + max 0 (10 powr (cn / 10))) / 1000)))"
  by (simp add: capacity_kbps_def shannon_capacity_def db_to_linear_def carrier_to_noise_ratio_def linear_to_db_def)

lemma downlink_rate_capacity:
  assumes "downlink_rate ca cn0 = Inr (m, c)"
  shows "capacity_kbps (ModCodCapacityStrategy (ca_rolloff ca)) cn0 (ca_band_down ca) =
    Inr (case map_option (\<lambda>b. py_trunc (b / 1000)) c of Some n \<Rightarrow> n | None \<Rightarrow> 0)"
  using assms
  by (auto simp: downlink_rate_def capacity_kbps_def modcod_capacity_def split: if_splits option.splits)

text \<open>
  \<^bold>\<open>C14.\<close> Where both gains can be computed and the atmospheric model answers, the service
  with Shannon capacity returns what the older calculator returns; and a downlink budget
  that succeeds reports the capacity the service computes with modulation and coding, where
  no code closing the link is capacity 0.
\<close>

theorem budgets_agree:
  assumes "bi_tx i = Some ta" "bi_rx i = Some ra" "bi_tsys i = ca_tsys ca" "bi_unavailability i = ca_unavailability ca" "0 < ca_tsys ca"
    "calculate_atmospheric_attenuation itur (bi_lat i) (bi_lon i) (bi_frequency i) (bi_elevation i) (bi_unavailability i) (bi_diameter i) = Inr att"
  shows "(\<forall>g g'. calculate_gain_db (bi_frequency i) ta = Inr g \<and> calculate_gain_db (bi_frequency i) ra = Inr g' \<longrightarrow>
      compute_one_way itur ShannonCapacityStrategy i =
      compute_one_way_shannon_capacity itur ca (Some ta) (Some ra) (bi_frequency i) (bi_distance i) (bi_elevation i) (bi_lat i) (bi_lon i)
        (bi_diameter i) (bi_bandwidth i)) \<and>
    (\<forall>sp gp res. bi_frequency i = ca_freq_down ca \<and> bi_bandwidth i = ca_band_down ca \<and> compute_elevation_angle sp gp = Inr (bi_elevation i) \<and>
      compute_downlink_modcod itur ca (Some sp) (Some ta) (Some gp) (Some ra) None (bi_distance i) (bi_lat i) (bi_lon i) (bi_diameter i) = Inr res \<longrightarrow>
      compute_one_way itur (ModCodCapacityStrategy (ca_rolloff ca)) i = Inr (case br_kbps res of Some n \<Rightarrow> n | None \<Rightarrow> 0))"
proof (intro conjI allI impI, goal_cases)
  case (1 g g')
  have "\<exists>e. get_eirp_db (bi_frequency i) ta = Inr e" using 1 by (auto simp: get_eirp_db_def split: option.split)
  then show ?case using 1 assms
    by (auto simp: compute_one_way_def compute_one_way_shannon_capacity_def of_antenna_def receiver_g_over_t_def other_losses_def
        gain_or_zero_def linear_to_db_pos capacity_kbps_shannon_rbind)
next
  case (2 sp gp res)
  then obtain e g l c q m r where f: "an_eirp ta = Some e" "calculate_gain_db (ca_freq_down ca) ra = Inr g"
    "calculate_free_space_loss_db (ca_freq_down ca) (bi_distance i) = Inr l"
    "carrier_to_noise_density e (g - 10 * log 10 (ca_tsys ca)) l (fst att) = Inr c" "downlink_rate ca c = Inr (m, r)"
    "br_kbps res = map_option (\<lambda>b. py_trunc (b / 1000)) r"
    using assms by (auto simp: compute_downlink_modcod_def downlink_g_over_t_def linear_to_db_pos split: option.splits)
  then show ?case using 2 assms downlink_rate_capacity [OF f(5)]
    by (simp add: compute_one_way_def of_antenna_def receiver_g_over_t_def get_eirp_db_def other_losses_def linear_to_db_pos)
qed

lemma budgets_agree_witness:
  "compute_one_way clear_sky ShannonCapacityStrategy demo_inputs =
    compute_one_way_shannon_capacity clear_sky default_calculator (Some demo_antenna) (Some demo_antenna) 19 1000 45 0 0 1 (500 * 10 ^ 6)"
  using budgets_agree [of demo_inputs demo_antenna demo_antenna default_calculator clear_sky "(0, 0, 0, 0, 0)"]
  by (simp add: demo_inputs_def demo_antenna_def default_calculator_def clear_sky_def calculate_gain_db_def
      calculate_atmospheric_attenuation_def)

section \<open>Elevation\<close>

definition unit3 :: "real \<Rightarrow> real \<Rightarrow> real \<times> real \<times> real" where
  "unit3 lat lon = (cos (radians lat) * cos (radians lon), cos (radians lat) * sin (radians lon), sin (radians lat))"

lemma square_sum: "(x * y)\<^sup>2 + (x * z)\<^sup>2 = x\<^sup>2 * (y\<^sup>2 + z\<^sup>2)" for x y z :: real
  by (simp add: power_mult_distrib distrib_left)

lemma unit3_norm: "dot3 (unit3 lat lon) (unit3 lat lon) = 1"
proof -
  have "dot3 (unit3 lat lon) (unit3 lat lon) =
      ((cos (radians lat) * cos (radians lon))\<^sup>2 + (cos (radians lat) * sin (radians lon))\<^sup>2) + (sin (radians lat))\<^sup>2"
    by (simp add: unit3_def power2_eq_square)
  then show ?thesis unfolding square_sum by simp
qed

lemma dot3_bound:
  assumes "dot3 u u = 1" "dot3 v v = 1"
  shows "\<bar>dot3 u v\<bar> \<le> 1"
proof -
  obtain a b c x y z where uv: "u = (a, b, c)" "v = (x, y, z)" by (cases u, cases v) auto
  have "0 \<le> (a - x)\<^sup>2 + (b - y)\<^sup>2 + (c - z)\<^sup>2" "0 \<le> (a + x)\<^sup>2 + (b + y)\<^sup>2 + (c + z)\<^sup>2" by simp_all
  then show ?thesis using assms unfolding uv by (simp add: power2_eq_square algebra_simps)
qed

lemma dot3_xyz: "dot3 (latlonelev_to_xyz a b e) (latlonelev_to_xyz a' b' e') = (earth_radius + e) * (earth_radius + e') * dot3 (unit3 a b) (unit3 a' b')"
  by (simp add: latlonelev_to_xyz_def unit3_def Let_def algebra_simps)

lemma norm3_xyz: "0 \<le> earth_radius + e \<Longrightarrow> norm3 (latlonelev_to_xyz a b e) = earth_radius + e"
  by (simp add: norm3_def dot3_xyz unit3_norm real_sqrt_mult)

lemma cos_central_unit:
  assumes "0 < earth_radius + e" "0 < earth_radius + e'"
  shows "cos_central (latlonelev_to_xyz a b e) (latlonelev_to_xyz a' b' e') = dot3 (unit3 a b) (unit3 a' b')"
  using assms dot3_bound [OF unit3_norm unit3_norm, of a b a' b']
  by (simp add: cos_central_def norm3_xyz dot3_xyz)

lemma arccos_quarter: "\<bar>c\<bar> \<le> 1 \<Longrightarrow> arccos c < pi / 2 \<longleftrightarrow> 0 < c"
  using arccos_less_mono [of c 0] by simp

lemma elevation_sign:
  assumes "\<bar>c\<bar> \<le> 1" "1 / 1000 \<le> h" "sin (arccos c) < 1 / 10 ^ 10"
  shows "0 < c \<longleftrightarrow> earth_radius \<le> (earth_radius + h) * c"
proof
  have s: "(sin (arccos c))\<^sup>2 = 1 - c\<^sup>2" using assms(1) by (simp add: sin_arccos_abs abs_square_le_1)
  have "0 \<le> sin (arccos c)" using assms(1) by (simp add: sin_arccos_abs abs_square_le_1)
  then have "(sin (arccos c))\<^sup>2 \<le> (1 / 10 ^ 10)\<^sup>2" using assms(3) by (intro power_mono) simp_all
  then have q: "1 - 1 / 10 ^ 10 \<le> c\<^sup>2" using s by (simp add: power2_eq_square)
  show "earth_radius \<le> (earth_radius + h) * c" if "0 < c"
  proof -
    have "c\<^sup>2 \<le> c" using that assms(1) by (simp add: power2_eq_square mult_le_cancel_left1)
    then have "1 - 1 / 10 ^ 10 \<le> c" using q by linarith
    then have "(earth_radius + 1 / 1000) * (1 - 1 / 10 ^ 10) \<le> (earth_radius + h) * c"
      using assms(2) by (intro mult_mono) (simp_all add: earth_radius_def)
    then show ?thesis by (simp add: earth_radius_def)
  qed
  show "0 < c" if "earth_radius \<le> (earth_radius + h) * c"
  proof (rule ccontr)
    assume "\<not> 0 < c"
    then have "(earth_radius + h) * c \<le> 0" using assms(2) by (intro mult_nonneg_nonpos) (simp_all add: earth_radius_def)
    then show False using that by (simp add: earth_radius_def)
  qed
qed

lemma arctan_degrees: "- 90 \<le> arctan x * 180 / pi" "arctan x * 180 / pi \<le> 90" "0 \<le> arctan x * 180 / pi \<longleftrightarrow> 0 \<le> x"
  using arctan_bounded [of x] by (simp_all add: field_simps)

lemma elevation_facts:
  assumes "1 / 1000 \<le> h" "e = get_elevation_angle (lat, lon, h) (glat, glon, 0)"
    "s = latlonelev_to_xyz lat lon h" "g = latlonelev_to_xyz glat glon 0"
  shows "- 90 \<le> e \<and> e \<le> 90 \<and> (0 \<le> e \<longleftrightarrow> dot3 g g \<le> dot3 g s)"
proof -
  let ?c = "dot3 (unit3 glat glon) (unit3 lat lon)"
  have p: "0 < earth_radius" "0 < earth_radius + h" using assms(1) by (simp_all add: earth_radius_def)
  have c: "\<bar>?c\<bar> \<le> 1" "cos_central g s = ?c"
    using dot3_bound [OF unit3_norm unit3_norm] cos_central_unit [of 0 h] p assms(3,4) by simp_all
  have d: "dot3 g g \<le> dot3 g s \<longleftrightarrow> earth_radius \<le> (earth_radius + h) * ?c"
    using p by (simp add: assms(3,4) dot3_xyz unit3_norm mult.assoc)
  have e: "e = (if \<bar>sin (arccos ?c)\<bar> < 1 / 10 ^ 10 then (if arccos ?c < pi / 2 then 90 else - 90)
      else arctan ((?c - earth_radius / (earth_radius + h)) / sin (arccos ?c)) * 180 / pi)"
    using c(2) by (simp add: assms get_elevation_angle_def Let_def)
  have sin: "0 \<le> sin (arccos ?c)" using c(1) by (simp add: sin_arccos_abs abs_square_le_1)
  show ?thesis
  proof (cases "sin (arccos ?c) < 1 / 10 ^ 10")
    case True
    have q: "arccos ?c < pi / 2 \<longleftrightarrow> earth_radius \<le> (earth_radius + h) * ?c"
      using arccos_quarter [OF c(1)] elevation_sign [OF c(1) assms(1) True] by blast
    have "e = (if earth_radius \<le> (earth_radius + h) * ?c then 90 else - 90)" unfolding e q using True sin by simp
    then show ?thesis unfolding d by simp
  next
    case False
    then have "0 < sin (arccos ?c)" by (rule less_le_trans [rotated, OF leI]) simp
    then have "0 \<le> (?c - earth_radius / (earth_radius + h)) / sin (arccos ?c) \<longleftrightarrow> earth_radius \<le> (earth_radius + h) * ?c"
      using p(2) pos_divide_le_eq [of "earth_radius + h" earth_radius ?c] by (simp add: zero_le_divide_iff mult.commute)
    then show ?thesis using False sin arctan_degrees unfolding d by (simp add: e)
  qed
qed

text \<open>
  The elevation lies between -90 and 90 degrees, and for a satellite at least a
  metre high it is not negative exactly when the satellite is on or above the tangent plane
  of a station at sea level.
\<close>

theorem elevation_horizon:
  assumes "1 / 1000 \<le> h" "s = latlonelev_to_xyz lat lon h" "g = latlonelev_to_xyz glat glon 0"
  shows "- 90 \<le> get_elevation_angle (lat, lon, h) (glat, glon, 0) \<and> get_elevation_angle (lat, lon, h) (glat, glon, 0) \<le> 90 \<and>
    (0 \<le> get_elevation_angle (lat, lon, h) (glat, glon, 0) \<longleftrightarrow> dot3 g g \<le> dot3 g s)"
  using elevation_facts [OF assms(1) refl assms(2,3)] .

lemma elevation_horizon_witness:
  "0 \<le> get_elevation_angle (0, 0, 550) (0, 0, 0) \<and> get_elevation_angle (180, 0, 550) (0, 0, 0) < 0"
  using elevation_horizon [of 550 _ 0 0 _ 0 0, OF _ refl refl] elevation_horizon [of 550 _ 180 0 _ 0 0, OF _ refl refl]
  by (simp add: latlonelev_to_xyz_def earth_radius_def radians_def)

lemma one_way_below_horizon:
  assumes "good_inputs i" "bi_elevation i < 0"
  shows "compute_one_way itur st i = Inr 0"
proof -
  obtain a b where ab: "bi_tx i = Some a" "bi_rx i = Some b" using assms(1) by (auto simp: good_inputs_def)
  have p: "0 < bi_frequency i" "0 < bi_distance i" using assms(1) by (simp_all add: good_inputs_def)
  obtain l where l: "calculate_free_space_loss_db (bi_frequency i) (bi_distance i) = Inr l" using fsl_good [OF p] by blast
  obtain e where "other_losses itur i = Inl e"
    using assms(2) by (cases "0 \<le> bi_unavailability i \<and> bi_unavailability i \<le> 100")
      (simp_all add: other_losses_def calculate_atmospheric_attenuation_def)
  then show ?thesis
    using eirp_error [OF p(1), of a] g_over_t_error [OF p(1), of "bi_tsys i" b] ab l
    by (simp add: compute_one_way_def of_antenna_def split: sum.split)
qed

lemma refresh_default:
  assumes "lk_use_budget l" "lk_type l = ''GroundStationLink''"
  shows "\<exists>l'. snd (refresh_link_capacities (\<lambda>_ _ _. Some (0, 0)) l) = l' \<and> lk_cap1 l' = lk_default_cap l \<and> lk_cap2 l' = lk_default_cap l"
  using assms by (simp add: refresh_link_capacities_def update_link_capacities_def compute_budget_capacity_def Let_def split: prod.split)

text \<open>
  A ground link whose satellite is below the horizon of the station is given the
  default capacity in both directions, since the attenuation model rejects the elevation.
\<close>

theorem below_horizon_default:
  assumes "lk_use_budget l" "lk_type l = ''GroundStationLink''" "identify_sat_and_gs l = (sat, gs)" "0 < lk_distance l"
    "antenna_of sat = Some sa" "antenna_of gs = Some ga" "position_of sat = Some sp" "position_of gs = Some gp"
    "coordinates sp = Inr (lat, lon, h)" "coordinates gp = Inr (glat, glon, 0)" "1 / 1000 \<le> h"
    "dot3 (latlonelev_to_xyz glat glon 0) (latlonelev_to_xyz lat lon h) < dot3 (latlonelev_to_xyz glat glon 0) (latlonelev_to_xyz glat glon 0)"
  shows "\<exists>l'. refresh_budget_link (link_budget itur antenna_of position_of None) l = Inr l' \<and>
    lk_cap1 l' = lk_default_cap l \<and> lk_cap2 l' = lk_default_cap l"
proof -
  let ?e = "get_elevation_angle (lat, lon, h) (glat, glon, 0)"
  have e: "link_elevation (Some sp) (Some gp) = ?e" "?e < 0"
    using assms(9-12) elevation_facts [OF assms(11) refl refl refl, of lat lon glat glon]
    by (simp_all add: link_elevation_def compute_elevation_angle_def)
  have "good_inputs (link_inputs tx rx ga f bw (lk_distance l) ?e gp)" if "0 < f" "0 < bw" for tx rx f bw
    using that assms(4) by (simp add: good_inputs_def link_inputs_def)
  then have "compute_one_way itur st (link_inputs tx rx ga f bw (lk_distance l) ?e gp) = Inr 0" if "0 < f" "0 < bw" for st tx rx f bw
    using that e(2) by (intro one_way_below_horizon) (simp_all add: link_inputs_def)
  then have "link_budget itur antenna_of position_of None sat gs (lk_distance l) = Inr (Some (0, 0))"
    using assms(5-8) e(1) by (simp add: link_budget_def default_budget_config_def)
  then show ?thesis using refresh_default [OF assms(1,2)] assms(1-3) by (simp add: refresh_budget_link_def)
qed

definition demo_position :: "real \<Rightarrow> real \<Rightarrow> position" where
  "demo_position lat alt = [(''latitude'', lat), (''longitude'', 0), (''altitude'', alt)]"

definition demo_ground_link :: link where
  "demo_ground_link = \<lparr>lk_source = \<lparr>nr_name = ''Sat1'', nr_id = 1, nr_type = ''Satellite''\<rparr>,
     lk_target = \<lparr>nr_name = ''Gnd2'', nr_id = 2, nr_type = ''GroundStation''\<rparr>,
     lk_distance = 1000000, lk_type = ''GroundStationLink'', lk_active = True, lk_direction = ''BIDIRECTIONAL'', lk_use_budget = True,
     lk_default_cap = 100000, lk_cap1 = 0, lk_cap2 = 0, lk_ifaces = [], lk_delay = 3, lk_to_update = False, lk_to_add = False,
     lk_to_remove = False, lk_to_delete = False\<rparr>"

lemma below_horizon_default_witness:
  "\<exists>l'. refresh_budget_link (link_budget clear_sky (\<lambda>_. Some demo_antenna)
      (\<lambda>n. Some (if nr_id n = 1 then demo_position 180 550 else demo_position 0 0)) None) demo_ground_link = Inr l' \<and>
    lk_cap1 l' = 100000 \<and> lk_cap2 l' = 100000"
proof -
  let ?g = "dot3 (latlonelev_to_xyz 0 0 0)"
  have c: "coordinates (demo_position lat alt) = Inr (lat, 0, alt)" for lat alt
    by (simp add: coordinates_def coordinate_def demo_position_def)
  have "?g (latlonelev_to_xyz 180 0 550) < ?g (latlonelev_to_xyz 0 0 0)"
    by (simp add: latlonelev_to_xyz_def earth_radius_def radians_def)
  then show ?thesis
    using below_horizon_default [of demo_ground_link "lk_source demo_ground_link" "lk_target demo_ground_link" "\<lambda>_. Some demo_antenna"
        demo_antenna demo_antenna "\<lambda>n. Some (if nr_id n = 1 then demo_position 180 550 else demo_position 0 0)"
        "demo_position 180 550" "demo_position 0 0" 180 0 550 0 0 clear_sky] c
    by (simp add: demo_ground_link_def identify_sat_and_gs_def)
qed

end
