(* ===== verification/Bird_Daemons.thy ===== *)
theory Bird_Daemons
  imports Topology Containers
begin

text \<open>
  The routing daemons that leave the routes to a program of their own: Bird with OSPF,
  \<open>routing/ospf_daemon.py\<close>, Bird with IS-IS and segment routing,
  \<open>routing/isis_sr_bird_daemon.py\<close>, and the P4 controller, \<open>routing/p4_daemon.py\<close>,
  with the shared memory of \<open>utils/graph_shared_memory.py\<close>.

  The parameter \<open>host\<close> runs a command in the container of a node, writes a file and gives a
  fresh name. Strings are ASCII, so that a character is one byte. Pools run their jobs in
  submission order; the nodes touched by new links, a set in the code, are taken in the order
  of the topology. Logging is left out.
\<close>

section \<open>Base64\<close>

definition b64_alphabet :: string where
  "b64_alphabet = ''ABCDEFGHIJKLMNOPQRSTUVWXYZabcdefghijklmnopqrstuvwxyz0123456789+/''"

definition b64_char :: "nat \<Rightarrow> char" where
  "b64_char n = b64_alphabet ! (n mod 64)"

fun b64encode :: "string \<Rightarrow> string" where
  "b64encode [] = []"
| "b64encode [a] = (let x = of_char a :: nat in [b64_char (x div 4), b64_char (x * 16), CHR ''='', CHR ''=''])"
| "b64encode [a, b] = (let x = of_char a * 256 + of_char b :: nat
     in [b64_char (x div 1024), b64_char (x div 16), b64_char (x * 4), CHR ''=''])"
| "b64encode (a # b # c # cs) = (let x = (of_char a * 256 + of_char b) * 256 + of_char c :: nat
     in b64_char (x div 262144) # b64_char (x div 4096) # b64_char (x div 64) # b64_char x # b64encode cs)"

section \<open>The host\<close>

record 'w host =
  ho_shell :: "'w shell"
  ho_write :: "string \<Rightarrow> string \<Rightarrow> 'w \<Rightarrow> unit result \<times> 'w"
  ho_uuid :: "'w \<Rightarrow> string \<times> 'w"

text \<open>One action after the other; the first error ends the sequence.\<close>

definition and_then :: "('w \<Rightarrow> unit result \<times> 'w) \<Rightarrow> ('w \<Rightarrow> unit result \<times> 'w) \<Rightarrow> 'w \<Rightarrow> unit result \<times> 'w" where
  "and_then f g w = (case f w of (Inl e, w1) \<Rightarrow> (Inl e, w1) | (Inr _, w1) \<Rightarrow> g w1)"

definition run_in :: "'w host \<Rightarrow> node \<Rightarrow> string \<Rightarrow> 'w \<Rightarrow> unit result \<times> 'w" where
  "run_in host n cmd w = (case ho_shell host (nd_name n) cmd False w of (Inl e, w1) \<Rightarrow> (Inl e, w1) | (Inr _, w1) \<Rightarrow> (Inr (), w1))"

abbreviation new_line :: string where
  "new_line \<equiv> [CHR 0x0A]"

definition quoted :: "string \<Rightarrow> string" where
  "quoted s = [double_quote] @ s @ [double_quote]"

section \<open>What both Bird daemons share\<close>

definition ip_line :: "iface \<Rightarrow> string list result" where
  "ip_line i = (if if_ipv4 i = [] then Inr []
     else rbind (get_iname i) (\<lambda>d. Inr [''addr replace '' @ if_ipv4 i @ ''/31 dev '' @ d]))"

definition ip_lines :: "node \<Rightarrow> string list result" where
  "ip_lines n = rbind (rmap ip_line (nd_ifaces n)) (\<lambda>ls. Inr (concat ls @
     (if if_ipv4 (nd_loopback n) = [] then [] else [''addr replace '' @ if_ipv4 (nd_loopback n) @ ''/32 dev lo''])))"

definition assign_ips :: "'w host \<Rightarrow> node \<Rightarrow> 'w \<Rightarrow> unit result \<times> 'w" where
  "assign_ips host n w = (case ip_lines n of
     Inl e \<Rightarrow> (Inl e, w)
   | Inr [] \<Rightarrow> (Inr (), w)
   | Inr lines \<Rightarrow> run_in host n (''echo '' @ b64encode (py_join new_line lines) @ '' | base64 -d | ip -force -batch -'') w)"

definition apply_config :: "string \<Rightarrow> 'w host \<Rightarrow> node \<Rightarrow> string \<Rightarrow> 'w \<Rightarrow> unit result \<times> 'w" where
  "apply_config prefix host n config w = (case ho_uuid host w of (u, w1) \<Rightarrow>
     let tmpfile = ''/tmp/'' @ prefix @ ''_'' @ u @ ''.conf''
     in and_then (ho_write host tmpfile config)
          (run_in host n (''/usr/bin/start-service.py --service bird --bird-config '' @ tmpfile)) w1)"

definition config_head :: "node \<Rightarrow> string list" where
  "config_head n =
    [''log syslog all;'', ''router id '' @ if_ipv4 (nd_loopback n) @ '';'', ''hostname '' @ quoted (nd_name n) @ '';'', '''',
     ''protocol device {}'', '''', ''protocol direct {'', ''    ipv4;'', ''}'', '''',
     ''protocol kernel {'', ''    ipv4 {'', ''        export all;'', ''    };'', ''}'', '''']"

text \<open>The number of nodes that failed.\<close>

fun each_node :: "(node \<Rightarrow> 'w \<Rightarrow> unit result \<times> 'w) \<Rightarrow> node list \<Rightarrow> 'w \<Rightarrow> nat \<times> 'w" where
  "each_node f [] w = (0, w)"
| "each_node f (n # ns) w = (case f n w of (r, w1) \<Rightarrow> case each_node f ns w1 of (errors, w2) \<Rightarrow>
     (case r of Inl _ \<Rightarrow> errors + 1 | Inr _ \<Rightarrow> errors, w2))"

definition all_nodes :: "topology \<Rightarrow> node list" where
  "all_nodes tp = dict_vals (nt_sats tp) @ dict_vals (nt_gss tp)"

definition bird_init :: "(node \<Rightarrow> 'w \<Rightarrow> unit result \<times> 'w) \<Rightarrow> topology \<Rightarrow> 'w \<Rightarrow> bool \<times> 'w" where
  "bird_init init_node tp w = (case each_node init_node (all_nodes tp) w of (errors, w1) \<Rightarrow> (errors = 0, w1))"

definition affected_nodes :: "link list \<Rightarrow> topology \<Rightarrow> node list" where
  "affected_nodes new_links tp =
    filter (\<lambda>n. nd_name n \<in> set (map (nr_name \<circ> lk_source) new_links @ map (nr_name \<circ> lk_target) new_links)) (all_nodes tp)"

definition bird_update :: "(node \<Rightarrow> 'w \<Rightarrow> unit result \<times> 'w) \<Rightarrow> link list \<Rightarrow> topology \<Rightarrow> 'w \<Rightarrow> 'w" where
  "bird_update init_node new_links tp w =
    (if \<not> nt_status tp then w else snd (each_node init_node (affected_nodes new_links tp) w))"

definition stop_node :: "'w host \<Rightarrow> node \<Rightarrow> 'w \<Rightarrow> unit result \<times> 'w" where
  "stop_node host n = run_in host n ''service bird stop''"

definition bird_remove :: "'w host \<Rightarrow> node option \<Rightarrow> topology \<Rightarrow> 'w \<Rightarrow> unit result \<times> 'w" where
  "bird_remove host target tp w = (case target of
     Some n \<Rightarrow> stop_node host n w
   | None \<Rightarrow> (Inr (), snd (each_node (stop_node host) (all_nodes tp) w)))"

section \<open>OSPF\<close>

definition ospf_iface :: "iface \<Rightarrow> string list result" where
  "ospf_iface i = rbind (get_iname i) (\<lambda>d. case if_peer i of
     None \<Rightarrow> Inl (OtherError ''AttributeError'')
   | Some (peer, _) \<Rightarrow> Inr
      [''        interface '' @ quoted d @ '' {'', ''            # link to '' @ peer, ''            type pointopoint;'',
       ''            hello 1;'', ''            dead count 3;'', ''        };''])"

definition build_ospf_config :: "node \<Rightarrow> string result" where
  "build_ospf_config n = rbind (rmap ospf_iface (nd_ifaces n)) (\<lambda>blocks. Inr (py_join new_line
    (config_head n @
     [''protocol ospf v2 ospf1 {'', ''    ipv4 {'', ''        export where source = RTS_DEVICE;'', ''    };'', ''    area 0 {'',
      ''        interface '' @ quoted ''lo'' @ '' {'', ''            stub yes;'', ''        };''] @
     concat blocks @ [''    };'', ''}''])))"

definition ospf_init_node :: "'w host \<Rightarrow> node \<Rightarrow> 'w \<Rightarrow> unit result \<times> 'w" where
  "ospf_init_node host n = and_then (assign_ips host n)
     (\<lambda>w. case build_ospf_config n of Inl e \<Rightarrow> (Inl e, w) | Inr config \<Rightarrow> apply_config ''bird_ospf'' host n config w)"

definition ospf_init :: "'w host \<Rightarrow> topology \<Rightarrow> 'w \<Rightarrow> bool \<times> 'w" where
  "ospf_init host = bird_init (ospf_init_node host)"

definition ospf_update :: "'w host \<Rightarrow> link list \<Rightarrow> topology \<Rightarrow> 'w \<Rightarrow> 'w" where
  "ospf_update host = bird_update (ospf_init_node host)"

section \<open>IS-IS with segment routing\<close>

definition zero_pad :: "int \<Rightarrow> string" where
  "zero_pad v = (let sign = (if v < 0 then ''-'' else []); digits = dec (nat \<bar>v\<bar>)
     in sign @ replicate (3 - length sign - length digits) CHR ''0'' @ digits)"

definition format_net_address :: "string \<Rightarrow> string result" where
  "format_net_address loopback_ip = rbind (rmap parse_int (split_on CHR ''.'' loopback_ip)) (\<lambda>parts.
     let full_str = concat (map zero_pad parts)
     in Inr (''49.0001.'' @ take 4 full_str @ ''.'' @ take 4 (drop 4 full_str) @ ''.'' @ take 4 (drop 8 full_str) @ ''.00''))"

definition isis_enable_mpls :: "'w host \<Rightarrow> node \<Rightarrow> 'w \<Rightarrow> unit result \<times> 'w" where
  "isis_enable_mpls host n w = (case rmap get_iname (nd_ifaces n) of
     Inl e \<Rightarrow> (Inl e, w)
   | Inr names \<Rightarrow> run_in host n (py_join ''; ''
      ([''modprobe mpls_router 2>/dev/null || true'', ''modprobe mpls_iptunnel 2>/dev/null || true'',
        ''sysctl -w net.mpls.platform_labels=1048575'', ''sysctl -w net.mpls.conf.lo.input=1''] @
       map (\<lambda>d. ''sysctl -w net.mpls.conf.'' @ d @ ''.input=1'') names)) w)"

definition isis_iface :: "iface \<Rightarrow> string list result" where
  "isis_iface i = rbind (get_iname i) (\<lambda>d. case if_peer i of
     None \<Rightarrow> Inl (OtherError ''AttributeError'')
   | Some (peer, _) \<Rightarrow>
      let link_type = (if contains ''Gnd'' peer then ''GSL'' else if contains ''Sat'' peer then ''ISL'' else ''link'')
      in Inr [''    interface '' @ quoted d @ '' {'', ''        # '' @ link_type @ '' to '' @ peer, ''        type p2p;'',
        ''        hello-interval 1;'', ''        hello-multiplier 3;'', ''        bfd yes;'', ''        mpls yes;'', ''    };'', ''''])"

definition sr_global_block_low :: int where
  "sr_global_block_low = 16000"

definition sr_global_block_high :: int where
  "sr_global_block_high = 23999"

definition build_isis_sr_config :: "node \<Rightarrow> string result" where
  "build_isis_sr_config n = rbind (format_net_address (if_ipv4 (nd_loopback n))) (\<lambda>net.
     rbind (rmap isis_iface (nd_ifaces n)) (\<lambda>blocks. Inr (py_join new_line
      (config_head n @
       [''protocol mpls {'', ''    label range '' @ dec_int sr_global_block_low @ '' 1048575;'', ''}'', '''',
        ''protocol isis isis1 {'', ''    net '' @ quoted net @ '';'', ''    is-type level-2-only;'', '''',
        ''    ipv4 {'', ''        export where source = RTS_DEVICE;'', ''    };'', '''',
        ''    spf-delay normal 50 100 5000;'', ''    lsp-gen-interval 50 100 5000;'', '''',
        ''    segment routing ipv4 {'',
        ''        srgb range '' @ dec_int sr_global_block_low @ '' '' @ dec_int sr_global_block_high @ '';'',
        ''        node-sid {'', ''            prefix '' @ if_ipv4 (nd_loopback n) @ ''/32;'', ''            index '' @ dec_int (nd_id n) @ '';'',
        ''        };'', ''    };'', '''',
        ''    interface '' @ quoted ''lo'' @ '' {'', ''        passive yes;'', ''        mpls yes;'', ''    };'', ''''] @
       concat blocks @ [''}'']))))"

definition isis_init_node :: "'w host \<Rightarrow> node \<Rightarrow> 'w \<Rightarrow> unit result \<times> 'w" where
  "isis_init_node host n = and_then (isis_enable_mpls host n) (and_then (assign_ips host n)
     (\<lambda>w. case build_isis_sr_config n of Inl e \<Rightarrow> (Inl e, w) | Inr config \<Rightarrow> apply_config ''bird_isis_sr'' host n config w))"

definition isis_init :: "'w host \<Rightarrow> topology \<Rightarrow> 'w \<Rightarrow> bool \<times> 'w" where
  "isis_init host = bird_init (isis_init_node host)"

definition isis_update :: "'w host \<Rightarrow> link list \<Rightarrow> topology \<Rightarrow> 'w \<Rightarrow> 'w" where
  "isis_update host = bird_update (isis_init_node host)"

section \<open>Shared memory of the P4 controller\<close>

text \<open>\<open>ipaddress.IPv4Address\<close> of a text: four decimal octets without leading zeros.\<close>

definition strict_octet :: "string \<Rightarrow> bool" where
  "strict_octet p = (p \<noteq> [] \<and> list_all is_digit p \<and> length p \<le> 3 \<and> (length p > 1 \<longrightarrow> hd p \<noteq> CHR ''0'') \<and>
     (case py_digits p of Some v \<Rightarrow> v \<le> 255 | None \<Rightarrow> False))"

definition ip_to_int :: "string \<Rightarrow> int result" where
  "ip_to_int ip = (let parts = split_on CHR ''.'' ip
     in if length parts = 4 \<and> list_all strict_octet parts
        then Inr (foldl (\<lambda>v p. v * 256 + (case py_digits p of Some o' \<Rightarrow> int o' | None \<Rightarrow> 0)) 0 parts)
        else Inl (ValueError ''AddressValueError''))"

record p4_edge =
  ed4_src_ip :: string
  ed4_dst_ip :: string
  ed4_values :: "int list"

text \<open>The array of structures belongs to \<open>numpy\<close>: \<open>assign\<close> stores two addresses and the
  other fields in one row, or raises; \<open>blank\<close> is a cleared row.\<close>

record 'r graph_memory =
  gm_version :: "64 word"
  gm_num :: int
  gm_max :: nat
  gm_schema :: int
  gm_edges :: "'r list"

definition clear_memory :: "'r \<Rightarrow> 'r graph_memory \<Rightarrow> 'r graph_memory" where
  "clear_memory blank gm = gm\<lparr>gm_edges := replicate (length (gm_edges gm)) blank\<rparr>"

definition new_memory :: "'r \<Rightarrow> nat \<Rightarrow> 'r graph_memory" where
  "new_memory blank max_edges = clear_memory blank
     \<lparr>gm_version = 0, gm_num = 0, gm_max = max_edges, gm_schema = 1, gm_edges = replicate max_edges blank\<rparr>"

definition edge_row :: "(int \<Rightarrow> int \<Rightarrow> int list \<Rightarrow> 'r result) \<Rightarrow> p4_edge \<Rightarrow> 'r result" where
  "edge_row assign e = rbind (ip_to_int (ed4_src_ip e)) (\<lambda>s. rbind (ip_to_int (ed4_dst_ip e)) (\<lambda>d. assign s d (ed4_values e)))"

fun store_edges :: "(int \<Rightarrow> int \<Rightarrow> int list \<Rightarrow> 'r result) \<Rightarrow> nat \<Rightarrow> p4_edge list \<Rightarrow> 'r list \<Rightarrow> unit result \<times> 'r list" where
  "store_edges assign i [] rows = (Inr (), rows)"
| "store_edges assign i (e # es) rows = (case edge_row assign e of
     Inl err \<Rightarrow> (Inl err, rows)
   | Inr row \<Rightarrow> store_edges assign (Suc i) es (rows[i := row]))"

definition write_edges :: "(int \<Rightarrow> int \<Rightarrow> int list \<Rightarrow> 'r result) \<Rightarrow> 'r \<Rightarrow> p4_edge list \<Rightarrow> 'r graph_memory \<Rightarrow>
    unit result \<times> 'r graph_memory" where
  "write_edges assign blank edges gm =
    (if length edges > gm_max gm then (Inl (ValueError ''Too many edges''), gm)
     else let gm1 = clear_memory blank gm
          in case store_edges assign 0 edges (gm_edges gm1) of
               (Inl e, rows) \<Rightarrow> (Inl e, gm1\<lparr>gm_edges := rows\<rparr>)
             | (Inr _, rows) \<Rightarrow> (Inr (), gm1\<lparr>gm_edges := rows, gm_num := int (length edges), gm_version := gm_version gm1 + 1\<rparr>))"

section \<open>P4\<close>

definition safe_int :: "string option \<Rightarrow> int result" where
  "safe_int x = (case x of None \<Rightarrow> Inr 0 | Some s \<Rightarrow> parse_int s)"

definition gateway_flag :: "string \<Rightarrow> string \<Rightarrow> int" where
  "gateway_flag src dst =
    (if src = ''GroundStation'' \<and> dst = ''GroundStation'' then 3
     else if src = ''GroundStation'' \<and> dst = ''Satellite'' then 1
     else if src = ''Satellite'' \<and> dst = ''GroundStation'' then 2 else 0)"

text \<open>The fields after the addresses: names, hardware addresses, ports, flag and weight.\<close>

definition build_edge_from_link :: "(string \<Rightarrow> string \<Rightarrow> string result) \<Rightarrow> link \<Rightarrow> p4_edge result" where
  "build_edge_from_link read_mac l = (case lk_ifaces l of
     source # destination # _ \<Rightarrow>
       rbind (fst (get_mac_addresses read_mac l)) (\<lambda>(src_mac, dst_mac).
       rbind (safe_int (Some (nr_name (lk_source l)))) (\<lambda>src_name.
       rbind (safe_int (Some (nr_name (lk_target l)))) (\<lambda>dst_name.
       rbind (safe_int (Some src_mac)) (\<lambda>sm.
       rbind (safe_int (Some dst_mac)) (\<lambda>dm.
       rbind (safe_int (Some (if_name source))) (\<lambda>src_port.
       rbind (safe_int (Some (if_name destination))) (\<lambda>dst_port.
         Inr \<lparr>ed4_src_ip = if_ipv4 source, ed4_dst_ip = if_ipv4 destination,
           ed4_values = [src_name, dst_name, sm, dm, src_port, dst_port,
             gateway_flag (nr_type (lk_source l)) (nr_type (lk_target l)), 1]\<rparr>)))))))
   | _ \<Rightarrow> Inl (OtherError ''list index out of range''))"

record 'r p4_daemon =
  p4_memory :: "'r graph_memory option"
  p4_process :: bool

definition new_p4_daemon :: "'r p4_daemon" where
  "new_p4_daemon = \<lparr>p4_memory = None, p4_process = False\<rparr>"

text \<open>What the host answers when the controller is started.\<close>

record p4_host =
  ph_exists :: bool
  ph_executable :: bool
  ph_chmod :: bool
  ph_popen :: bool
  ph_alive :: bool

definition stop_p4_controller :: "'r p4_daemon \<Rightarrow> 'r p4_daemon" where
  "stop_p4_controller d = d\<lparr>p4_process := False\<rparr>"

definition start_p4_controller :: "p4_host \<Rightarrow> 'r p4_daemon \<Rightarrow> bool \<times> 'r p4_daemon" where
  "start_p4_controller h d =
    (if \<not> ph_exists h \<or> \<not> ph_executable h \<and> \<not> ph_chmod h \<or> \<not> ph_popen h then (False, d)
     else let d1 = d\<lparr>p4_process := True\<rparr>
          in if ph_alive h then (True, d1) else (False, stop_p4_controller d1))"

definition p4_init :: "'r \<Rightarrow> p4_host \<Rightarrow> topology \<Rightarrow> 'r p4_daemon \<Rightarrow> bool \<times> 'r p4_daemon" where
  "p4_init blank h tp d = start_p4_controller h (d\<lparr>p4_memory := Some (new_memory blank (length (tp_links tp)))\<rparr>)"

definition p4_update :: "(string \<Rightarrow> string \<Rightarrow> string result) \<Rightarrow> (int \<Rightarrow> int \<Rightarrow> int list \<Rightarrow> 'r result) \<Rightarrow> 'r \<Rightarrow> topology \<Rightarrow>
    'r p4_daemon \<Rightarrow> unit result \<times> 'r p4_daemon" where
  "p4_update read_mac assign blank tp d = (case rmap (build_edge_from_link read_mac) (dict_vals (tp_links tp)) of
     Inl e \<Rightarrow> (Inl e, d)
   | Inr edges \<Rightarrow> (case p4_memory d of
        None \<Rightarrow> (Inl (OtherError ''AttributeError''), d)
      | Some gm \<Rightarrow> (case write_edges assign blank edges gm of (r, gm1) \<Rightarrow> (r, d\<lparr>p4_memory := Some gm1\<rparr>))))"

end
