(* ===== verification/Bird_Facts.thy ===== *)
theory Bird_Facts
  imports Bird_Daemons
begin

text \<open>
  Properties of the daemons that run a program of their own: what reaches a container through
  Base64, the IS-IS addresses, the configuration each Bird runs, and the P4 memory.
\<close>

section \<open>Base64\<close>

definition b64_value :: "char \<Rightarrow> nat" where
  "b64_value c = length (takeWhile (\<lambda>d. d \<noteq> c) b64_alphabet)"

fun b64decode :: "string \<Rightarrow> string" where
  "b64decode (p # q # r # s # cs) =
    (if r = CHR ''='' then [char_of (b64_value p * 4 + b64_value q div 16)]
     else let x = (b64_value p * 64 + b64_value q) * 64 + b64_value r
       in if s = CHR ''='' then [char_of (x div 1024), char_of (x div 4)]
          else let y = x * 64 + b64_value s in char_of (y div 65536) # char_of (y div 256) # char_of y # b64decode cs)"
| "b64decode _ = []"

lemma b64_value_char [simp]: "b64_value (b64_char n) = n mod 64"
proof -
  have "\<forall>k < 64. b64_value (b64_alphabet ! k) = k" by code_simp
  then show ?thesis by (simp add: b64_char_def)
qed

lemma b64_char_safe: "shell_safe (b64_char n)"
proof -
  have "list_all shell_safe b64_alphabet" by code_simp
  moreover have "length b64_alphabet = 64" by code_simp
  ultimately show ?thesis by (simp add: b64_char_def list_all_length)
qed

lemma b64_char_not_pad [simp]: "b64_char n \<noteq> CHR ''=''"
proof
  assume e: "b64_char n = CHR ''=''"
  have "b64_value (CHR ''='') = 64" by code_simp
  then show False using b64_value_char [of n] e by simp
qed

lemma shift_mod: "x * 16 mod 64 = x mod 4 * 16" "x * 4 mod 64 = x mod 16 * 4" for x :: nat
  using mod_mult_mult2 [of x 16 4] mod_mult_mult2 [of x 4 16] by simp_all

lemma six1: "x < 256 \<Longrightarrow> x div 4 mod 64 * 4 + x * 16 mod 64 div 16 = x" for x :: nat
proof -
  assume "x < 256"
  then have "x div 4 < 64" by (simp add: div_less_iff_less_mult)
  then show ?thesis by (simp add: shift_mod)
qed

lemma six2: "x < 65536 \<Longrightarrow> (x div 1024 mod 64 * 64 + x div 16 mod 64) * 64 + x * 4 mod 64 = x * 4" for x :: nat
proof -
  assume "x < 65536"
  then have "x div 1024 < 64" by (simp add: div_less_iff_less_mult)
  moreover have "x div 1024 = x div 16 div 64" by (simp flip: div_mult2_eq)
  ultimately have e: "x div 1024 mod 64 * 64 + x div 16 mod 64 = x div 16" by simp
  show ?thesis unfolding shift_mod e using div_mult_mod_eq [of x 16] by linarith
qed

lemma six3: "x < 16777216 \<Longrightarrow> ((x div 262144 mod 64 * 64 + x div 4096 mod 64) * 64 + x div 64 mod 64) * 64 + x mod 64 = x" for x :: nat
proof -
  assume "x < 16777216"
  then have "x div 262144 < 64" by (simp add: div_less_iff_less_mult)
  moreover have "x div 262144 = x div 4096 div 64" "x div 4096 = x div 64 div 64" by (simp_all flip: div_mult2_eq)
  ultimately have "x div 262144 mod 64 * 64 + x div 4096 mod 64 = x div 4096" "x div 4096 * 64 + x div 64 mod 64 = x div 64" by simp_all
  then show ?thesis by simp
qed

lemma of_char_lt: "(of_char c :: nat) < 256"
  by (metis of_char_mod_256 mod_less_divisor zero_less_numeral)

lemma char_of_nat_of_char: "x mod 256 = of_char c \<Longrightarrow> char_of x = c" for x :: nat
  by (metis char_of_mod_256 char_of_char)

lemma bytes2: "char_of ((of_char a * 256 + of_char b :: nat) * 4 div 1024) = a" "char_of ((of_char a * 256 + of_char b :: nat) * 4 div 4) = b"
  using of_char_lt [of a] of_char_lt [of b] div_mult_mult2 [of 4 "of_char a * 256 + of_char b :: nat" 256] by (auto intro!: char_of_nat_of_char)

lemma byte_split: "c < 256 \<Longrightarrow> (h * 256 + c) div 256 = h \<and> (h * 256 + c) mod 256 = c" for c h :: nat
  by simp

lemma bytes3: "char_of (((of_char a * 256 + of_char b) * 256 + of_char c :: nat) div 65536) = a" "char_of (((of_char a * 256 + of_char b) * 256 + of_char c :: nat) div 256) = b"
   "char_of ((of_char a * 256 + of_char b) * 256 + of_char c :: nat) = c"
proof -
  define h where "h = (of_char a * 256 + of_char b :: nat)"
  have h: "h div 256 = of_char a" "h mod 256 = of_char b" using byte_split [OF of_char_lt, of "of_char a" b] by (simp_all add: h_def)
  have x: "(h * 256 + of_char c) div 256 = h" "(h * 256 + of_char c) mod 256 = of_char c" using byte_split [OF of_char_lt, of h c] by simp_all
  have "(h * 256 + of_char c) div 65536 = (h * 256 + of_char c) div 256 div 256"
    using div_mult2_eq [of "h * 256 + of_char c" 256 256] by simp
  then show "char_of (((of_char a * 256 + of_char b) * 256 + of_char c :: nat) div 65536) = a" "char_of (((of_char a * 256 + of_char b) * 256 + of_char c :: nat) div 256) = b"
   "char_of ((of_char a * 256 + of_char b) * 256 + of_char c :: nat) = c"
    unfolding h_def [symmetric] using h x of_char_lt [of a] by (auto intro!: char_of_nat_of_char)
qed

lemma bytes_lt: "a < 256 \<Longrightarrow> b < 256 \<Longrightarrow> c < 256 \<Longrightarrow> (a * 256 + b) * 256 + c < 16777216" for a b c :: nat
  by simp

lemma b64_roundtrip: "b64decode (b64encode s) = s"
proof (induction s rule: b64encode.induct)
  case (2 a)
  then show ?case by (simp add: Let_def six1 of_char_lt)
next
  case (3 a b)
  have "of_char a * 256 + of_char b < (65536 :: nat)" using of_char_lt [of a] of_char_lt [of b] by linarith
  note six2 [OF this]
  then show ?case by (simp only: b64encode.simps Let_def b64decode.simps b64_value_char b64_char_not_pad if_False if_True bytes2 simp_thms)
next
  case (4 a b c cs)
  have "(of_char a * 256 + of_char b) * 256 + of_char c < (16777216 :: nat)"
    by (intro bytes_lt of_char_lt)
  note six3 [OF this]
  then show ?case using 4 by (simp only: b64encode.simps Let_def b64decode.simps b64_value_char b64_char_not_pad if_False bytes3)
qed simp

lemma b64_safe: "list_all shell_safe (b64encode s)"
proof -
  have p: "shell_safe CHR ''=''" by code_simp
  show ?thesis by (induction s rule: b64encode.induct) (simp_all add: Let_def b64_char_safe p)
qed

text \<open>
  The addresses of a node reach its container as one word of plain shell
  characters that decodes to exactly the lines for its interfaces and loopback; a node
  without any address is not touched, and an interface without a dotted name is the only error.
\<close>

theorem assign_ips_payload:
  "case ip_lines n of
     Inl e \<Rightarrow> assign_ips host n w = (Inl e, w) \<and> (\<exists>i \<in> set (nd_ifaces n). if_ipv4 i \<noteq> [] \<and> get_iname i = Inl e)
   | Inr lines \<Rightarrow>
      lines = map (\<lambda>i. ''addr replace '' @ if_ipv4 i @ ''/31 dev '' @ dev_name i) (filter (\<lambda>i. if_ipv4 i \<noteq> []) (nd_ifaces n)) @
        (if if_ipv4 (nd_loopback n) = [] then [] else [''addr replace '' @ if_ipv4 (nd_loopback n) @ ''/32 dev lo'']) \<and>
      (if lines = [] then assign_ips host n w = (Inr (), w)
       else \<exists>word. list_all shell_safe word \<and> b64decode word = py_join new_line lines \<and>
         assign_ips host n w = run_in host n (''echo '' @ word @ '' | base64 -d | ip -force -batch -'') w)"
proof -
  have ok: "concat ls = map (\<lambda>i. ''addr replace '' @ if_ipv4 i @ ''/31 dev '' @ dev_name i) (filter (\<lambda>i. if_ipv4 i \<noteq> []) is)"
    if "rmap ip_line is = Inr ls" for "is" ls
    using that by (induction "is" arbitrary: ls) (auto simp: ip_line_def dev_name_def split: if_splits)
  have bad: "\<exists>i \<in> set is. if_ipv4 i \<noteq> [] \<and> get_iname i = Inl e" if "rmap ip_line is = Inl e" for "is" e
    using that by (induction "is") (auto simp: ip_line_def rbind_Inl_iff split: if_splits)
  show ?thesis
  proof (cases "ip_lines n")
    case (Inl e)
    then have "rmap ip_line (nd_ifaces n) = Inl e" by (simp add: ip_lines_def rbind_Inl_iff)
    then show ?thesis using Inl bad by (simp add: assign_ips_def)
  next
    case (Inr lines)
    then obtain ls where "rmap ip_line (nd_ifaces n) = Inr ls" by (auto simp: ip_lines_def)
    from ok [OF this] this have l: "lines = map (\<lambda>i. ''addr replace '' @ if_ipv4 i @ ''/31 dev '' @ dev_name i) (filter (\<lambda>i. if_ipv4 i \<noteq> []) (nd_ifaces n)) @
        (if if_ipv4 (nd_loopback n) = [] then [] else [''addr replace '' @ if_ipv4 (nd_loopback n) @ ''/32 dev lo''])"
      using Inr by (simp add: ip_lines_def)
    have "assign_ips host n w = (if lines = [] then (Inr (), w)
        else run_in host n (''echo '' @ b64encode (py_join new_line lines) @ '' | base64 -d | ip -force -batch -'') w)"
      by (cases lines) (simp_all add: assign_ips_def Inr)
    then show ?thesis using b64_safe b64_roundtrip unfolding Inr sum.case l [symmetric] by auto
  qed
qed

section \<open>IS-IS addresses\<close>

lemma dec_small: "v < 10 \<Longrightarrow> length (dec v) = 1" "10 \<le> v \<Longrightarrow> v < 100 \<Longrightarrow> length (dec v) = 2" "100 \<le> v \<Longrightarrow> v < 1000 \<Longrightarrow> length (dec v) = 3"
  by (simp_all add: dec.simps [of v] dec.simps [of "v div 10"] dec.simps [of "v div 10 div 10"] div_less_iff_less_mult)

lemma zero_pad_dec: "zero_pad (int v) = replicate (3 - length (dec v)) CHR ''0'' @ dec v"
  by (simp add: zero_pad_def Let_def)

lemma length_zero_pad: "v < 1000 \<Longrightarrow> length (zero_pad (int v)) = 3"
  using dec_small [of v] by (cases "v < 10"; cases "v < 100") (auto simp: zero_pad_dec)

lemma foldl_zeros: "foldl (\<lambda>a c. a * 10 + digit_val c) 0 (replicate k CHR ''0'' @ s) = foldl (\<lambda>a c. a * 10 + digit_val c) 0 s"
  by (induction k) (simp_all add: digit_val_def)

lemma zero_pad_inj: "zero_pad (int v) = zero_pad (int v') \<Longrightarrow> v = v'"
  using foldl_zeros [of _ "dec v"] foldl_zeros [of _ "dec v'"] foldl_dec [of v] foldl_dec [of v'] unfolding zero_pad_dec by metis

definition octet_list :: "int list \<Rightarrow> bool" where
  "octet_list os = (length os = 4 \<and> (\<forall>v \<in> set os. 0 \<le> v \<and> v \<le> 255))"

lemma rmap_parse_dec: "\<forall>v \<in> set os. 0 \<le> v \<Longrightarrow> rmap parse_int (map dec_int os) = Inr os"
  by (induction os) (simp_all add: parse_int_def dec_int_facts)

lemma net_of_octets:
  assumes "octet_list os"
  shows "\<exists>s. format_net_address (dotted os) = Inr (''49.0001.'' @ take 4 s @ ''.'' @ take 4 (drop 4 s) @ ''.'' @ take 4 (drop 8 s) @ ''.00'') \<and>
    s = concat (map zero_pad os) \<and> length s = 12"
proof -
  have s: "split_on (CHR ''.'') (dotted os) = map dec_int os" using assms by (intro split_dotted) (auto simp: octet_list_def)
  have "\<forall>v \<in> set os. length (zero_pad v) = 3"
  proof
    fix v assume "v \<in> set os"
    then have "0 \<le> v" "nat v < 1000" using assms by (auto simp: octet_list_def)
    then show "length (zero_pad v) = 3" using length_zero_pad [of "nat v"] by simp
  qed
  moreover obtain a b c d where "os = [a, b, c, d]" using assms by (auto simp: octet_list_def numeral_eq_Suc length_Suc_conv)
  ultimately have "length (concat (map zero_pad os)) = 12" by simp
  then show ?thesis using assms rmap_parse_dec [of os] by (simp add: format_net_address_def s octet_list_def Let_def)
qed

lemma net_inj:
  assumes "octet_list os" "octet_list os'" "format_net_address (dotted os) = format_net_address (dotted os')"
  shows "os = os'"
proof -
  obtain s where s: "format_net_address (dotted os) = Inr (''49.0001.'' @ take 4 s @ ''.'' @ take 4 (drop 4 s) @ ''.'' @ take 4 (drop 8 s) @ ''.00'')"
    "s = concat (map zero_pad os)" "length s = 12" using net_of_octets [OF assms(1)] by blast
  obtain t where t: "format_net_address (dotted os') = Inr (''49.0001.'' @ take 4 t @ ''.'' @ take 4 (drop 4 t) @ ''.'' @ take 4 (drop 8 t) @ ''.00'')"
    "t = concat (map zero_pad os')" "length t = 12" using net_of_octets [OF assms(2)] by blast
  have "take 4 s = take 4 t \<and> take 4 (drop 4 s) = take 4 (drop 4 t) \<and> take 4 (drop 8 s) = take 4 (drop 8 t)"
    using assms(3) s(1,3) t(1,3) by (auto simp: append_eq_append_conv)
  moreover have "u = take 4 u @ take 4 (drop 4 u) @ take 4 (drop 8 u)" if "length u = 12" for u :: string
    using that append_take_drop_id [of 4 u] append_take_drop_id [of 4 "drop 4 u"] by simp
  ultimately have e: "concat (map zero_pad os) = concat (map zero_pad os')" using s(2,3) t(2,3) by metis
  have p: "length (zero_pad v) = 3" "zero_pad v = zero_pad v' \<Longrightarrow> v = v'" if "0 \<le> v" "v \<le> 255" "0 \<le> v'" for v v'
    using that length_zero_pad [of "nat v"] zero_pad_inj [of "nat v" "nat v'"] by simp_all
  obtain a b c d where os: "os = [a, b, c, d]" using assms(1) by (auto simp: octet_list_def numeral_eq_Suc length_Suc_conv)
  obtain a' b' c' d' where os': "os' = [a', b', c', d']" using assms(2) by (auto simp: octet_list_def numeral_eq_Suc length_Suc_conv)
  have r: "0 \<le> v" "v \<le> 255" if "v \<in> {a, b, c, d, a', b', c', d'}" for v
    using that assms(1,2) by (auto simp: octet_list_def os os')
  have len: "length (zero_pad v) = 3" if "v \<in> {a, b, c, d, a', b', c', d'}" for v
    using p(1) [of v v] r [OF that] by simp
  have z: "zero_pad a = zero_pad a' \<and> zero_pad b = zero_pad b' \<and> zero_pad c = zero_pad c' \<and> zero_pad d = zero_pad d'"
    using e len by (simp add: os os' append_eq_append_conv)
  have "a = a'" by (rule p(2) [OF r r(1)]) (use z in auto)
  moreover have "b = b'" by (rule p(2) [OF r r(1)]) (use z in auto)
  moreover have "c = c'" by (rule p(2) [OF r r(1)]) (use z in auto)
  moreover have "d = d'" by (rule p(2) [OF r r(1)]) (use z in auto)
  ultimately show ?thesis by (simp add: os os')
qed

lemma octet_list_bits: "bits32 x \<Longrightarrow> octet_list (octets_of x)"
proof -
  have "length (octets_of x) = 4" by (simp add: octets_of_def)
  then show "bits32 x \<Longrightarrow> octet_list (octets_of x)" unfolding octet_list_def using octets_of_bounds by blast
qed

lemma loopback_octets:
  assumes "get_ipv4_address n n ty True = Inr (a, b)"
  shows "\<exists>os. octet_list os \<and> a = dotted os"
proof -
  obtain oc d e where f: "owner_code ty = Some oc" "id13 n" "{d, e} = {''0'', ''1''}" "a = dotted (octets_of (base_bits oc n True n @ d))"
    using assms by (elim get_ipv4_address_InrE)
  have "bits32 (base_bits oc n True n @ d)" using f(1-3) by (intro base_bits_32) auto
  from octet_list_bits [OF this] f(4) show ?thesis by blast
qed

text \<open>
  Every node with a loopback address has an IS-IS address, of 25 characters, and
  two nodes never have the same one.
\<close>

theorem net_address_unique:
  assumes "get_ipv4_address n n ty True = Inr (a, b)" "get_ipv4_address n' n' ty' True = Inr (a', b')"
  shows "\<exists>s s'. format_net_address a = Inr s \<and> format_net_address a' = Inr s' \<and> length s = 25 \<and>
    (s = s' \<longleftrightarrow> ty = ty' \<and> n = n')"
proof -
  obtain os os' where o: "octet_list os" "a = dotted os" "octet_list os'" "a' = dotted os'"
    using loopback_octets [OF assms(1)] loopback_octets [OF assms(2)] by blast
  have "\<exists>s. format_net_address (dotted x) = Inr s \<and> length s = 25" if "octet_list x" for x
    using net_of_octets [OF that] by auto
  then obtain s s' where s: "format_net_address a = Inr s" "length s = 25" "format_net_address a' = Inr s'" using o by metis
  have "ty = ty' \<and> n = n'" if "s = s'"
    using net_inj [OF o(1,3)] o(2,4) s that address_identifies [OF assms] by simp
  moreover have "s = s'" if "ty = ty' \<and> n = n'" using that assms s by simp
  ultimately show ?thesis using s by blast
qed

lemma net_address_unique_witness:
  "\<exists>a b a' b' s s'. get_ipv4_address 5 5 ''Satellite'' True = Inr (a, b) \<and> get_ipv4_address 5 5 ''GroundStation'' True = Inr (a', b') \<and>
    format_net_address a = Inr s \<and> format_net_address a' = Inr s' \<and> s \<noteq> s'"
proof -
  have "is_ok (get_ipv4_address 5 5 ''Satellite'' True)" "is_ok (get_ipv4_address 5 5 ''GroundStation'' True)"
    unfolding get_ipv4_address_ok_iff by (simp_all add: owner_code_def)
  then obtain a b a' b' where "get_ipv4_address 5 5 ''Satellite'' True = Inr (a, b)" "get_ipv4_address 5 5 ''GroundStation'' True = Inr (a', b')"
    by (auto simp: is_ok_iff)
  with net_address_unique [OF this] show ?thesis by auto
qed

section \<open>What Bird runs\<close>

text \<open>What the daemons rely on: a file that was written is there, starting the service reads the
  file it is given (the project file mounts \<open>/tmp\<close> of the host in every container), and only
  commands for a container change what runs in it.\<close>

definition bird_semantics :: "'w host \<Rightarrow> ('w \<Rightarrow> string \<Rightarrow> string option) \<Rightarrow> ('w \<Rightarrow> string \<Rightarrow> string option) \<Rightarrow> bool" where
  "bird_semantics host files running \<longleftrightarrow>
    (\<forall>p c w w'. ho_write host p c w = (Inr (), w') \<longrightarrow> files w' p = Some c) \<and>
    (\<forall>p c w. running (snd (ho_write host p c w)) = running w) \<and>
    (\<forall>w. running (snd (ho_uuid host w)) = running w) \<and>
    (\<forall>n cmd d w m. m \<noteq> n \<longrightarrow> running (snd (ho_shell host n cmd d w)) m = running w m) \<and>
    (\<forall>n p w r w'. ho_shell host n (''/usr/bin/start-service.py --service bird --bird-config '' @ p) False w = (Inr r, w') \<longrightarrow>
      running w' n = files w p)"

text \<open>An action on a node that succeeds leaves it running the node's configuration, and no
  action changes another node.\<close>

definition configures :: "('w \<Rightarrow> string \<Rightarrow> string option) \<Rightarrow> (node \<Rightarrow> 'w \<Rightarrow> unit result \<times> 'w) \<Rightarrow> (node \<Rightarrow> string result) \<Rightarrow> bool" where
  "configures running f cfg \<longleftrightarrow> (\<forall>n w r w'. f n w = (r, w') \<longrightarrow>
    (r = Inr () \<longrightarrow> (\<exists>c. cfg n = Inr c \<and> running w' (nd_name n) = Some c)) \<and> (\<forall>m. m \<noteq> nd_name n \<longrightarrow> running w' m = running w m))"

lemma run_in_frame: "bird_semantics host files running \<Longrightarrow> run_in host n cmd w = (r, w') \<Longrightarrow> m \<noteq> nd_name n \<Longrightarrow> running w' m = running w m"
  by (auto simp: run_in_def bird_semantics_def split: prod.splits sum.splits) (metis snd_conv)+

lemma assign_ips_frame: "bird_semantics host files running \<Longrightarrow> assign_ips host n w = (r, w') \<Longrightarrow> m \<noteq> nd_name n \<Longrightarrow> running w' m = running w m"
  by (auto simp: assign_ips_def split: sum.splits list.splits intro: run_in_frame)

lemma enable_mpls_frame: "bird_semantics host files running \<Longrightarrow> isis_enable_mpls host n w = (r, w') \<Longrightarrow> m \<noteq> nd_name n \<Longrightarrow> running w' m = running w m"
  by (auto simp: isis_enable_mpls_def split: sum.splits intro: run_in_frame)

lemma apply_config_runs:
  assumes "bird_semantics host files running" "apply_config pfx host n config w = (r, w')"
  shows "(r = Inr () \<longrightarrow> running w' (nd_name n) = Some config) \<and> (m \<noteq> nd_name n \<longrightarrow> running w' m = running w m)"
proof -
  obtain u w1 where u: "ho_uuid host w = (u, w1)" by force
  let ?p = "''/tmp/'' @ pfx @ ''_'' @ u @ ''.conf''"
  obtain q w2 where q: "ho_write host ?p config w1 = (q, w2)" by force
  have e: "running w1 = running w" "running w2 = running w1" using assms(1) u q unfolding bird_semantics_def by (metis snd_conv)+
  show ?thesis
  proof (cases q)
    case (Inl err)
    then show ?thesis using assms(2) u q e by (auto simp: apply_config_def and_then_def Let_def)
  next
    case (Inr x)
    have run: "run_in host n (''/usr/bin/start-service.py --service bird --bird-config '' @ ?p) w2 = (r, w')"
      using assms(2) u q Inr by (simp add: apply_config_def and_then_def Let_def)
    have "files w2 ?p = Some config" using assms(1) q Inr unfolding bird_semantics_def by (metis (full_types) old.unit.exhaust)
    moreover have "running w' (nd_name n) = files w2 ?p" if "r = Inr ()"
      using run that assms(1) unfolding run_in_def bird_semantics_def by (fastforce split: prod.splits sum.splits)
    ultimately show ?thesis using run_in_frame [OF assms(1) run] e by auto
  qed
qed

lemma and_then_cases:
  assumes "and_then f g w = (r, w')"
  obtains e where "f w = (Inl e, w')" "r = Inl e" | w1 where "f w = (Inr (), w1)" "g w1 = (r, w')"
  using assms by (auto simp: and_then_def split: prod.splits sum.splits)

lemma start_runs:
  assumes "bird_semantics host files running"
    "and_then (assign_ips host n) (\<lambda>w. case cfg of Inl e \<Rightarrow> (Inl e, w) | Inr config \<Rightarrow> apply_config pfx host n config w) w = (r, w')"
  shows "(r = Inr () \<longrightarrow> (\<exists>c. cfg = Inr c \<and> running w' (nd_name n) = Some c)) \<and> (\<forall>m. m \<noteq> nd_name n \<longrightarrow> running w' m = running w m)"
  using assms(2)
proof (cases rule: and_then_cases)
  case (1 e)
  then show ?thesis using assign_ips_frame [OF assms(1)] by simp
next
  case (2 w1)
  note a = assign_ips_frame [OF assms(1) 2(1)]
  show ?thesis
  proof (cases cfg)
    case (Inr c)
    then have "apply_config pfx host n c w1 = (r, w')" using 2(2) by simp
    from apply_config_runs [OF assms(1) this] show ?thesis using a Inr by simp
  qed (use 2 a in auto)
qed

lemma ospf_configures: "bird_semantics host files running \<Longrightarrow> configures running (ospf_init_node host) build_ospf_config"
  using start_runs [of host files running] unfolding configures_def ospf_init_node_def by blast

lemma isis_configures:
  assumes "bird_semantics host files running"
  shows "configures running (isis_init_node host) build_isis_sr_config"
  unfolding configures_def
proof (intro allI impI)
  fix n w r w' assume "isis_init_node host n w = (r, w')"
  then show "(r = Inr () \<longrightarrow> (\<exists>c. build_isis_sr_config n = Inr c \<and> running w' (nd_name n) = Some c)) \<and>
      (\<forall>m. m \<noteq> nd_name n \<longrightarrow> running w' m = running w m)"
    unfolding isis_init_node_def
  proof (cases rule: and_then_cases)
    case (1 e)
    then show ?thesis using enable_mpls_frame [OF assms] by simp
  next
    case (2 w1)
    show ?thesis using start_runs [OF assms 2(2)] enable_mpls_frame [OF assms 2(1)] by simp
  qed
qed

lemma each_node_runs:
  assumes "configures running f cfg" "distinct (map nd_name ns)" "each_node f ns w = (errors, w')"
  shows "(errors = 0 \<longrightarrow> (\<forall>n \<in> set ns. \<exists>c. cfg n = Inr c \<and> running w' (nd_name n) = Some c)) \<and>
    (\<forall>m. m \<notin> nd_name ` set ns \<longrightarrow> running w' m = running w m)"
  using assms(2,3)
proof (induction ns arbitrary: w errors)
  case (Cons n ns)
  obtain r w1 where f: "f n w = (r, w1)" by force
  obtain k w2 where e: "each_node f ns w1 = (k, w2)" by force
  have w': "w' = w2" "errors = 0 \<Longrightarrow> k = 0 \<and> r = Inr ()" using Cons.prems(2) f e by (auto split: sum.splits)
  have IH: "(k = 0 \<longrightarrow> (\<forall>n \<in> set ns. \<exists>c. cfg n = Inr c \<and> running w2 (nd_name n) = Some c)) \<and>
      (\<forall>m. m \<notin> nd_name ` set ns \<longrightarrow> running w2 m = running w1 m)"
    using Cons.IH [of w1 k] Cons.prems(1) e w'(1) by simp
  have h: "(r = Inr () \<longrightarrow> (\<exists>c. cfg n = Inr c \<and> running w1 (nd_name n) = Some c)) \<and> (\<forall>m. m \<noteq> nd_name n \<longrightarrow> running w1 m = running w m)"
    using assms(1) f unfolding configures_def by blast
  have n: "nd_name n \<notin> nd_name ` set ns" using Cons.prems(1) by simp
  show ?case unfolding w'(1)
  proof (intro conjI impI ballI allI)
    fix m assume "errors = 0" "m \<in> set (n # ns)"
    then show "\<exists>c. cfg m = Inr c \<and> running w2 (nd_name m) = Some c" using w'(2) IH h n by auto
  next
    fix m assume "m \<notin> nd_name ` set (n # ns)"
    then show "running w2 m = running w m" using IH h by simp
  qed
qed simp

lemma affected_subset: "set (affected_nodes ls tp) \<subseteq> set (all_nodes tp)"
  by (auto simp: affected_nodes_def)

lemma affected_distinct: "distinct (map nd_name (all_nodes tp)) \<Longrightarrow> distinct (map nd_name (affected_nodes ls tp))"
  unfolding affected_nodes_def by (rule distinct_map_filter)

text \<open>
  \<^bold>\<open>C15.\<close> When the initialisation of OSPF or IS-IS reports success, every node runs the
  configuration of its current interfaces. A later update leaves every node that is not an end
  of a new link with the configuration it had, so one that only lost links keeps the interface.
\<close>

theorem bird_runs_config:
  assumes "bird_semantics host files running" "distinct (map nd_name (all_nodes tp))" "distinct (map nd_name (all_nodes tp'))"
    "(start, cfg) \<in> {(ospf_init_node host, build_ospf_config), (isis_init_node host, build_isis_sr_config)}"
    "bird_init start tp w = (ok, w1)"
  shows "(ok \<longrightarrow> (\<forall>n \<in> set (all_nodes tp). \<exists>c. cfg n = Inr c \<and> running w1 (nd_name n) = Some c)) \<and>
    (\<forall>m. m \<notin> nd_name ` set (affected_nodes new_links tp') \<longrightarrow> running (bird_update start new_links tp' w1) m = running w1 m)"
proof -
  have c: "configures running start cfg" using assms(4) ospf_configures [OF assms(1)] isis_configures [OF assms(1)] by auto
  obtain e w2 where e: "each_node start (all_nodes tp) w = (e, w2)" by force
  then have "ok = (e = 0)" "w2 = w1" using assms(5) by (simp_all add: bird_init_def)
  with each_node_runs [OF c assms(2) e] have a: "ok \<longrightarrow> (\<forall>n \<in> set (all_nodes tp). \<exists>c. cfg n = Inr c \<and> running w1 (nd_name n) = Some c)" by simp
  obtain e' w3 where u: "each_node start (affected_nodes new_links tp') w1 = (e', w3)" by force
  with each_node_runs [OF c affected_distinct [OF assms(3)] u] a show ?thesis by (simp add: bird_update_def)
qed

type_synonym demo_world = "(string \<Rightarrow> string option) \<times> (string \<Rightarrow> string option)"

definition start_word :: string where
  "start_word = ''/usr/bin/start-service.py --service bird --bird-config ''"

definition demo_host :: "demo_world host" where
  "demo_host = \<lparr>ho_shell = (\<lambda>n cmd d (files, running). (Inr [],
       if startswith start_word cmd then (files, running(n := files (drop (length start_word) cmd))) else (files, running))),
     ho_write = (\<lambda>p c (files, running). (Inr (), (files(p := Some c), running))), ho_uuid = (\<lambda>w. (''0'', w))\<rparr>"

definition demo_node :: node where
  "demo_node = \<lparr>nd_name = ''Sat1'', nd_id = 1, nd_type = ''Satellite'', nd_ifaces = [], nd_loopback = new_iface 0 ''lo'' ''lo'',
     nd_curr = [], nd_prev = [], nd_aliased = False, nd_addressable = False\<rparr>"

definition bird_topology :: "(string set, link) dict \<Rightarrow> topology" where
  "bird_topology links = \<lparr>nt_sats = [(1, demo_node)], nt_gss = [], nt_status = True, nt_file_routes = False, nt_iface_version = None,
     sn_gonetem_on = True, sn_containers = [], tp_links = links, tp_interfaces = [], tp_initial_sync = True, tp_isl_cap = 1000,
     tp_gnd_cap = 1000, tp_gobj_cap = None, tp_use_budget = False, tp_time_step = 0, tp_next_oid = 1\<rparr>"

lemma demo_semantics: "bird_semantics demo_host fst snd"
  by (auto simp: bird_semantics_def demo_host_def startswith_def start_word_def split: prod.splits)

lemma bird_runs_config_witness:
  "\<exists>c. build_ospf_config demo_node = Inr c \<and>
    snd (snd (bird_init (ospf_init_node demo_host) (bird_topology []) (\<lambda>_. None, \<lambda>_. None))) ''Sat1'' = Some c"
proof -
  let ?r = "bird_init (ospf_init_node demo_host) (bird_topology []) (\<lambda>_. None, \<lambda>_. None)"
  have n: "all_nodes (bird_topology []) = [demo_node]" by (simp add: all_nodes_def bird_topology_def)
  have nm: "nd_name demo_node = ''Sat1''" by (simp add: demo_node_def)
  have "fst ?r"
    by (simp add: bird_init_def n ospf_init_node_def and_then_def assign_ips_def ip_lines_def demo_node_def new_iface_def
        build_ospf_config_def apply_config_def demo_host_def run_in_def Let_def split: prod.split)
  moreover have "fst ?r \<longrightarrow> (\<forall>m \<in> set (all_nodes (bird_topology [])). \<exists>c. build_ospf_config m = Inr c \<and> snd (snd ?r) (nd_name m) = Some c)"
    by (rule bird_runs_config [where tp' = "bird_topology []", THEN conjunct1, OF demo_semantics _ _ _ prod.collapse [symmetric]])
      (simp_all add: n)
  ultimately show ?thesis using n nm by simp
qed

section \<open>The P4 memory\<close>

lemma store_edges_facts:
  assumes "store_edges assign i es rows = (r, rows')" "i + length es \<le> length rows"
  shows "length rows' = length rows \<and> (\<forall>k < i. rows' ! k = rows ! k) \<and>
    (r = Inr () \<longrightarrow> (\<forall>k < length es. edge_row assign (es ! k) = Inr (rows' ! (i + k))) \<and>
       (\<forall>k. i + length es \<le> k \<and> k < length rows \<longrightarrow> rows' ! k = rows ! k)) \<and>
    (\<forall>e. r = Inl e \<longrightarrow> (\<exists>x \<in> set es. edge_row assign x = Inl e))"
  using assms
proof (induction es arbitrary: i rows)
  case (Cons x es)
  show ?case
  proof (cases "edge_row assign x")
    case (Inr row)
    then have s: "store_edges assign (Suc i) es (rows[i := row]) = (r, rows')" using Cons.prems(1) by simp
    have IH: "length rows' = length rows \<and> (\<forall>k < Suc i. rows' ! k = rows[i := row] ! k) \<and>
      (r = Inr () \<longrightarrow> (\<forall>k < length es. edge_row assign (es ! k) = Inr (rows' ! (Suc i + k))) \<and>
       (\<forall>k. Suc i + length es \<le> k \<and> k < length rows \<longrightarrow> rows' ! k = rows[i := row] ! k)) \<and>
      (\<forall>e. r = Inl e \<longrightarrow> (\<exists>x \<in> set es. edge_row assign x = Inl e))"
      using Cons.IH [OF s] Cons.prems(2) by simp
    have "edge_row assign ((x # es) ! k) = Inr (rows' ! (i + k))" if "r = Inr ()" "k < length (x # es)" for k
      using that IH Inr Cons.prems(2) by (cases k) simp_all
    then show ?thesis using IH Cons.prems(2) by auto
  qed (use Cons.prems in auto)
qed auto

text \<open>
  A write that succeeds stores the edges in order, clears the remaining rows, sets
  the count and counts the version up by one modulo 2^64. Too many edges change nothing; an edge
  that cannot be stored leaves version and count as they were over rows already cleared.
\<close>

theorem write_edges_outcome:
  assumes "write_edges assign blank es gm = (r, gm')" "length (gm_edges gm) = gm_max gm"
  shows "(r = Inr () \<longrightarrow> length es \<le> gm_max gm \<and> gm_num gm' = int (length es) \<and> gm_version gm' = gm_version gm + 1 \<and>
      (\<forall>k < length es. edge_row assign (es ! k) = Inr (gm_edges gm' ! k)) \<and>
      (\<forall>k. length es \<le> k \<and> k < gm_max gm \<longrightarrow> gm_edges gm' ! k = blank)) \<and>
    (\<forall>e. r = Inl e \<longrightarrow> gm_num gm' = gm_num gm \<and> gm_version gm' = gm_version gm \<and>
      (if gm_max gm < length es then gm' = gm
       else (\<exists>x \<in> set es. edge_row assign x = Inl e) \<and> (edge_row assign (hd es) = Inl e \<longrightarrow> gm_edges gm' = replicate (gm_max gm) blank))) \<and>
    length (gm_edges gm') = gm_max gm'"
proof (cases "gm_max gm < length es")
  case True
  then show ?thesis using assms by (auto simp: write_edges_def)
next
  case False
  obtain q rows where s: "store_edges assign 0 es (replicate (gm_max gm) blank) = (q, rows)" by force
  have g: "r = q \<and> gm_edges gm' = rows \<and> gm_max gm' = gm_max gm \<and>
      (q = Inr () \<longrightarrow> gm_num gm' = int (length es) \<and> gm_version gm' = gm_version gm + 1) \<and>
      (q \<noteq> Inr () \<longrightarrow> gm_num gm' = gm_num gm \<and> gm_version gm' = gm_version gm)"
    using assms s False by (auto simp: write_edges_def clear_memory_def Let_def split: sum.splits)
  have f: "edge_row assign (hd es) = Inl e \<Longrightarrow> es \<noteq> [] \<Longrightarrow> rows = replicate (gm_max gm) blank" for e
    using s by (cases es) auto
  show ?thesis using store_edges_facts [OF s] g f False by (cases q; cases es) (auto split: if_splits)
qed

lemma write_edges_outcome_witness:
  "gm_num (snd (write_edges (\<lambda>a b vs. Inr (a, b)) (0, 0) [\<lparr>ed4_src_ip = ''10.0.0.1'', ed4_dst_ip = ''10.0.0.2'', ed4_values = []\<rparr>]
     (new_memory (0, 0) 2))) = 1"
proof -
  let ?r = "write_edges (\<lambda>a b vs. Inr (a, b)) (0, 0) [\<lparr>ed4_src_ip = ''10.0.0.1'', ed4_dst_ip = ''10.0.0.2'', ed4_values = []\<rparr>] (new_memory (0 :: int, 0 :: int) 2)"
  have "fst ?r = Inr ()" by code_simp
  moreover have "length (gm_edges (new_memory (0 :: int, 0 :: int) 2)) = gm_max (new_memory (0 :: int, 0 :: int) 2)" by code_simp
  ultimately show ?thesis using write_edges_outcome [OF prod.collapse [symmetric], of "new_memory (0 :: int, 0 :: int) 2"] by force
qed

lemma dropWhile_last: "\<not> P c \<Longrightarrow> dropWhile P (xs @ [c]) = dropWhile P xs @ [c]"
  by (induction xs) auto

lemma parse_int_letter:
  assumes "\<not> is_space c" "\<not> is_digit c" "c \<noteq> CHR ''-''" "c \<noteq> CHR ''+''"
  shows "parse_int (c # s) = Inl (ValueError ''invalid literal for int() with base 10'')"
proof -
  have "py_strip (c # s) = c # rev (dropWhile is_space (rev s))" using assms(1) by (simp add: py_strip_def dropWhile_last)
  then have "py_int (c # s) = None" using assms by (simp add: py_int_def)
  then show ?thesis by (simp add: parse_int_def)
qed

lemma parse_int_name: "parse_int (''Sat'' @ s) = Inl (ValueError ''invalid literal for int() with base 10'')"
  "parse_int (''Gnd'' @ s) = Inl (ValueError ''invalid literal for int() with base 10'')"
  unfolding append_Cons by (rule parse_int_letter; simp add: is_space_def is_digit_def)+

definition demo_p4_link :: link where
  "demo_p4_link = \<lparr>lk_source = \<lparr>nr_name = ''Sat1'', nr_id = 1, nr_type = ''Satellite''\<rparr>,
     lk_target = \<lparr>nr_name = ''Gnd2'', nr_id = 2, nr_type = ''GroundStation''\<rparr>,
     lk_distance = 1000000, lk_type = ''GroundStationLink'', lk_active = True, lk_direction = ''BIDIRECTIONAL'', lk_use_budget = False,
     lk_default_cap = 100000, lk_cap1 = 0, lk_cap2 = 0, lk_ifaces = [], lk_delay = 3, lk_to_update = False, lk_to_add = False,
     lk_to_remove = False, lk_to_delete = False\<rparr>"

text \<open>
  The P4 update fails at its first link and writes nothing, since it reads the
  name of a node as a number; only a topology without links can be written.
\<close>

theorem p4_update_fails:
  assumes "tp_links tp \<noteq> []" "\<forall>l \<in> set (dict_vals (tp_links tp)). \<exists>s. nr_name (lk_source l) \<in> {''Sat'' @ s, ''Gnd'' @ s}"
  shows "\<exists>e. p4_update read_mac assign blank tp d = (Inl e, d)"
proof -
  obtain k l ls where l: "tp_links tp = (k, l) # ls" using assms(1) by (cases "tp_links tp") auto
  then obtain s where s: "nr_name (lk_source l) \<in> {''Sat'' @ s, ''Gnd'' @ s}" using assms(2) by auto
  have "\<exists>e. build_edge_from_link read_mac l = Inl e"
    using s parse_int_name by (cases "fst (get_mac_addresses read_mac l)") (auto simp: build_edge_from_link_def safe_int_def split: list.split)
  then show ?thesis using l by (auto simp: p4_update_def)
qed

lemma p4_update_fails_witness:
  "\<exists>e. p4_update (\<lambda>_ _. Inr []) (\<lambda>a b vs. Inr (a, b)) (0, 0) (bird_topology [({''Sat1'', ''Gnd2''}, demo_p4_link)]) new_p4_daemon = (Inl e, new_p4_daemon)"
  by (rule p4_update_fails) (simp_all add: bird_topology_def demo_p4_link_def)

end
