(* ===== verification/Strategies.thy ===== *)
theory Strategies
  imports Link_Budget
begin

text \<open>
  The connection strategies of \<open>utils/custom_connection_strategies.py\<close>, which choose the
  satellites a ground object is connected to.

  What the simulation library computes is an argument: the satellites visible from the ground
  object (\<open>visible\<close>), the elevation of a satellite after a delay (\<open>elev_at\<close>), its
  position and velocity, the Julian date and the coordinates of the ground object. The first
  estimate of the time until a satellite is lost searches with two loops: the first one may not
  end for every argument, so it is a partial function into \<open>option\<close> whose \<open>None\<close> is
  divergence; \<open>Strategy_Facts\<close> proves that it returns for the arguments the code passes.
\<close>

section \<open>Search for the time of disconnection\<close>

text \<open>The upper end of the interval: five minutes, doubled up to the horizon of the search.\<close>

partial_function (option) raise_upper_bound :: "(real \<Rightarrow> real) \<Rightarrow> real \<Rightarrow> real \<Rightarrow> real \<Rightarrow> real option" where
  "raise_upper_bound elev_at minimum_elevation max_time t_high =
    (if elev_at t_high > minimum_elevation \<and> t_high < max_time
     then raise_upper_bound elev_at minimum_elevation max_time (min (t_high * 2) max_time)
     else Some t_high)"

declare raise_upper_bound.simps [code]

lemma halving_decreases:
  assumes "1 / 1000 < hi - (lo::real)" and "x = 1 / 2 * (lo + hi)"
  shows "nat \<lceil>(hi - x) * 2000\<rceil> < nat \<lceil>(hi - lo) * 2000\<rceil>"
    and "nat \<lceil>(x - lo) * 2000\<rceil> < nat \<lceil>(hi - lo) * 2000\<rceil>"
proof -
  have "(hi - x) * 2000 + 1 < (hi - lo) * 2000" "(x - lo) * 2000 + 1 < (hi - lo) * 2000"
    using assms by (simp_all add: field_simps)
  then have "\<lceil>(hi - x) * 2000\<rceil> < \<lceil>(hi - lo) * 2000\<rceil>" "\<lceil>(x - lo) * 2000\<rceil> < \<lceil>(hi - lo) * 2000\<rceil>"
    by linarith+
  moreover have "0 < \<lceil>(hi - lo) * 2000\<rceil>" using assms by simp
  ultimately show "nat \<lceil>(hi - x) * 2000\<rceil> < nat \<lceil>(hi - lo) * 2000\<rceil>"
    and "nat \<lceil>(x - lo) * 2000\<rceil> < nat \<lceil>(hi - lo) * 2000\<rceil>"
    by linarith+
qed

function bisect_time :: "(real \<Rightarrow> real) \<Rightarrow> real \<Rightarrow> real \<Rightarrow> real \<Rightarrow> real" where
  "bisect_time elev_at minimum_elevation t_low t_high =
    (if t_high - t_low > 1 / 1000
     then (let t_mid = 1 / 2 * (t_low + t_high)
           in if elev_at t_mid > minimum_elevation then bisect_time elev_at minimum_elevation t_mid t_high
              else bisect_time elev_at minimum_elevation t_low t_mid)
     else t_high)"
  by pat_completeness auto

termination
  by (relation "measure (\<lambda>(e, m, lo, hi). nat \<lceil>(hi - lo) * 2000\<rceil>)")
    (auto simp only: wf_measure in_measure prod.case halving_decreases)

declare bisect_time.simps [simp del]

definition estimate_time_until_disconnection :: "(real \<Rightarrow> real) \<Rightarrow> real \<Rightarrow> real \<Rightarrow> real result option" where
  "estimate_time_until_disconnection elev_at minimum_elevation max_time =
    (if elev_at 0 < minimum_elevation then Some (Inl (ValueError ''already below minimum elevation''))
     else case raise_upper_bound elev_at minimum_elevation max_time (min 300 max_time) of
        None \<Rightarrow> None
      | Some t_high \<Rightarrow>
          (if elev_at t_high > minimum_elevation then Some (Inr max_time)
           else Some (Inr (bisect_time elev_at minimum_elevation 0 t_high))))"

section \<open>Time of disconnection in closed form\<close>

definition lla_to_ecef :: "real \<Rightarrow> real \<Rightarrow> real \<Rightarrow> real \<times> real \<times> real" where
  "lla_to_ecef lat_deg lon_deg alt_m =
    (let a = 6378137; e2 = 669437999013 / 10 ^ 14;
         lat = radians lat_deg; lon = radians lon_deg;
         N = a / sqrt (1 - e2 * sin lat ^ 2)
     in ((N + alt_m) * cos lat * cos lon, (N + alt_m) * cos lat * sin lon, (N * (1 - e2) + alt_m) * sin lat))"

definition py_fmod :: "real \<Rightarrow> real \<Rightarrow> real" where
  "py_fmod x m = x - m * of_int \<lfloor>x / m\<rfloor>"

lemma py_fmod_range:
  assumes "0 < m"
  shows "0 \<le> py_fmod x m" "py_fmod x m < m"
proof -
  have "m * real_of_int \<lfloor>x / m\<rfloor> \<le> m * (x / m)" "m * (x / m) < m * (real_of_int \<lfloor>x / m\<rfloor> + 1)"
    using assms by (intro mult_left_mono mult_strict_left_mono; linarith)+
  then show "0 \<le> py_fmod x m" "py_fmod x m < m"
    using assms by (simp_all add: py_fmod_def field_simps)
qed

definition gmst_degrees :: "real \<Rightarrow> real" where
  "gmst_degrees jd_utc =
    (let t = (jd_utc - 2451545) / 36525
     in py_fmod (28046061837 / 10 ^ 8 + 36098564736629 / 10 ^ 11 * (jd_utc - 2451545)
          + 387933 / 10 ^ 9 * t ^ 2 - t ^ 3 / 38710000) 360)"

text \<open>The rotation about the axis of the Earth; the argument \<open>jd_utc\<close> is the sum of the two
  parts that \<open>jday\<close> of the package \<open>sgp4\<close> returns.\<close>

fun teme_to_ecef :: "real \<Rightarrow> real \<times> real \<times> real \<Rightarrow> real \<times> real \<times> real" where
  "teme_to_ecef jd_utc (x, y, z) =
    (let theta = radians (gmst_degrees jd_utc)
     in (cos theta * x + sin theta * y, - sin theta * x + cos theta * y, z))"

fun scale3 :: "real \<Rightarrow> real \<times> real \<times> real \<Rightarrow> real \<times> real \<times> real" where
  "scale3 k (x, y, z) = (k * x, k * y, k * z)"

fun add3 :: "real \<times> real \<times> real \<Rightarrow> real \<times> real \<times> real \<Rightarrow> real \<times> real \<times> real" where
  "add3 (a, b, c) (x, y, z) = (a + x, b + y, c + z)"

fun sub3 :: "real \<times> real \<times> real \<Rightarrow> real \<times> real \<times> real \<Rightarrow> real \<times> real \<times> real" where
  "sub3 (a, b, c) (x, y, z) = (a - x, b - y, c - z)"

definition omega_earth :: real where
  "omega_earth = 72921158553 / 10 ^ 15"

text \<open>The velocity relative to the rotating Earth, in the unit of its argument.\<close>

fun remove_rotation :: "real \<times> real \<times> real \<Rightarrow> real \<times> real \<times> real \<Rightarrow> real \<times> real \<times> real" where
  "remove_rotation (rx, ry, rz) (vx, vy, vz) = (vx + omega_earth * ry, vy - omega_earth * rx, vz)"

text \<open>The smallest positive root of \<open>A t\<^sup>2 + B t + C\<close>, cut at the horizon of the search.\<close>

definition exit_time :: "real \<Rightarrow> real \<Rightarrow> real \<Rightarrow> real \<Rightarrow> real option" where
  "exit_time max_time A B C =
    (if C \<le> 0 then None
     else if \<bar>A\<bar> < 1 / 10 ^ 12 then
       (if \<bar>B\<bar> < 1 / 10 ^ 12 then None
        else let dt = - C / B in Some (if 0 < dt \<and> dt \<le> max_time then dt else max_time))
     else
       let discriminant = B ^ 2 - 4 * A * C
       in if discriminant < 0 then Some max_time
          else let sqrt_d = sqrt discriminant;
                   dt1 = (- B - sqrt_d) / (2 * A);
                   dt2 = (- B + sqrt_d) / (2 * A)
               in case filter (\<lambda>dt. dt > 0) [dt1, dt2] of
                    [] \<Rightarrow> None
                  | dt # dts \<Rightarrow>
                      let dt_exit = fold min dts dt
                      in Some (if dt_exit \<le> max_time then dt_exit else max_time))"

definition elevation_quadratic :: "real \<times> real \<times> real \<Rightarrow> real \<times> real \<times> real \<Rightarrow> real \<times> real \<times> real \<Rightarrow> real \<Rightarrow> real \<times> real \<times> real" where
  "elevation_quadratic s0 v up sin_eps =
    (let sin2_eps = sin_eps ^ 2;
         s0_dot_v = dot3 s0 v; s0z = dot3 s0 up; vz = dot3 v up; s0_sq = dot3 s0 s0; v_sq = dot3 v v
     in (vz ^ 2 - v_sq * sin2_eps, 2 * (s0z * vz - s0_dot_v * sin2_eps), s0z ^ 2 - s0_sq * sin2_eps))"

record orbit_state =
  os_jd_utc :: real
  os_teme_km :: "real \<times> real \<times> real"
  os_teme_km_s :: "real \<times> real \<times> real"

definition estimate_time_until_disconnection_2 :: "real \<Rightarrow> real \<Rightarrow> real \<times> real \<times> real \<Rightarrow> orbit_state \<Rightarrow> real option" where
  "estimate_time_until_disconnection_2 max_time minimum_elevation gs st =
    (case gs of (gs_lat, gs_lon, gs_alt) \<Rightarrow>
      let r_sat_ecef_km = teme_to_ecef (os_jd_utc st) (os_teme_km st);
          R_gs_ecef = lla_to_ecef gs_lat gs_lon gs_alt;
          s0 = sub3 (scale3 1000 r_sat_ecef_km) R_gs_ecef;
          v_ecef = scale3 1000 (remove_rotation r_sat_ecef_km (teme_to_ecef (os_jd_utc st) (os_teme_km_s st)));
          R_gs_norm = norm3 R_gs_ecef
      in if R_gs_norm < 1 / 10 ^ 6 then None
         else let up = scale3 (1 / R_gs_norm) R_gs_ecef;
                  (A, B, C) = elevation_quadratic s0 v_ecef up (sin (radians minimum_elevation))
              in exit_time max_time A B C)"

section \<open>Choice of satellites\<close>

record 's ground_link =
  gl_source :: 's
  gl_to_space :: bool

record 's ground_site =
  go_links :: "'s ground_link list"
  go_maximum :: int
  go_min_elevation :: real

record 's visible_satellite =
  vs_satellite :: 's
  vs_elevation :: real

record 's ground_connection =
  gc_satellite :: 's
  gc_elevation :: real

record 's computed_connections =
  cc_obsolete :: "'s ground_link list"
  cc_new :: "'s ground_connection list"

definition connect :: "'s visible_satellite \<Rightarrow> 's ground_connection" where
  "connect v = \<lparr>gc_satellite = vs_satellite v, gc_elevation = vs_elevation v\<rparr>"

definition connected_satellites :: "'s ground_site \<Rightarrow> 's list" where
  "connected_satellites g = map gl_source (filter gl_to_space (go_links g))"

definition by_elevation :: "'s visible_satellite list \<Rightarrow> 's visible_satellite list" where
  "by_elevation vs = sort_key (\<lambda>v. - vs_elevation v) vs"

text \<open>Both strategies first keep the satellites that are still visible.\<close>

definition keep_existing :: "'s ground_site \<Rightarrow> 's visible_satellite list \<Rightarrow> 's ground_connection list" where
  "keep_existing g vs = foldl (\<lambda>new v.
     if vs_satellite v \<in> set (connected_satellites g) \<and> int (length new) < go_maximum g
     then new @ [connect v] else new) [] vs"

fun fill_links :: "int \<Rightarrow> 's ground_connection list \<Rightarrow> 's visible_satellite list \<Rightarrow> 's ground_connection list" where
  "fill_links m new [] = new"
| "fill_links m new (v # vs) = (if int (length new) \<ge> m then new else fill_links m (new @ [connect v]) vs)"

text \<open>Sorting compares every element with another one as soon as there are two; comparing
  \<open>None\<close> raises a \<open>TypeError\<close>.\<close>

definition sort_by_time :: "('s visible_satellite \<times> real option) list \<Rightarrow> ('s visible_satellite \<times> real option) list result" where
  "sort_by_time ts = (if length ts \<ge> 2 \<and> None \<in> snd ` set ts
     then Inl (TypeError ''not supported between instances of NoneType and float'')
     else Inr (sort_key (\<lambda>p. - the (snd p)) ts))"

definition longest_connection_time :: "('s \<Rightarrow> real option) \<Rightarrow> ('s ground_site \<Rightarrow> 's visible_satellite list) \<Rightarrow>
    's ground_site \<Rightarrow> 's computed_connections result" where
  "longest_connection_time estimate visible g =
    (let obsolete = filter gl_to_space (go_links g);
         vs = by_elevation (visible g);
         new = keep_existing g vs
     in if int (length new) \<ge> go_maximum g then Inr \<lparr>cc_obsolete = obsolete, cc_new = new\<rparr>
        else rbind (sort_by_time (map (\<lambda>v. (v, estimate (vs_satellite v))) vs)) (\<lambda>ranked.
          Inr \<lparr>cc_obsolete = obsolete, cc_new = fill_links (go_maximum g) new (map fst ranked)\<rparr>))"

definition maximum_connected_stations :: real where
  "maximum_connected_stations = 3"

definition connection_weight :: "real \<Rightarrow> real \<Rightarrow> nat \<Rightarrow> real result" where
  "connection_weight horizon elevation connected_stations =
    (if 90 - horizon = 0 then zero_division
     else let normalized_elevation = (elevation - horizon) / (90 - horizon)
          in Inr (1 / 2 * normalized_elevation
              + 1 / 2 * (1 - real connected_stations / maximum_connected_stations)))"

definition weighted_connection :: "('s \<Rightarrow> nat) \<Rightarrow> ('s ground_site \<Rightarrow> 's visible_satellite list) \<Rightarrow>
    's ground_site \<Rightarrow> 's computed_connections result" where
  "weighted_connection connected_stations visible g =
    (let obsolete = filter gl_to_space (go_links g);
         vs = by_elevation (visible g);
         new = keep_existing g vs
     in if int (length new) \<ge> go_maximum g then Inr \<lparr>cc_obsolete = obsolete, cc_new = new\<rparr>
        else rbind (rmap (\<lambda>v. rbind (connection_weight (go_min_elevation g) (vs_elevation v) (connected_stations (vs_satellite v)))
               (\<lambda>w. Inr (v, w))) vs) (\<lambda>weighted.
          Inr \<lparr>cc_obsolete = obsolete, cc_new = fill_links (go_maximum g) new (map fst (sort_key (\<lambda>p. - snd p) weighted))\<rparr>))"

end
