(* ===== verification/Strategy_Facts.thy ===== *)
theory Strategy_Facts
  imports Strategies
begin

text \<open>
  Facts about the connection strategies: both loops of the search return and bracket the time of
  disconnection to a millisecond, the closed form is the first time the straight-line motion
  meets the cone of visibility, and both strategies connect the first satellites of one list,
  the kept ones followed by all the ranked ones.
\<close>

section \<open>The search\<close>

lemma raise_upper_bound_returns:
  assumes "0 < t" "t \<le> max_time" "max_time \<le> t * 2 ^ n"
  shows "\<exists>u. raise_upper_bound e m max_time t = Some u \<and> t \<le> u \<and> u \<le> max_time \<and> \<not> (e u > m \<and> u < max_time)"
  using assms
proof (induction n arbitrary: t)
  case 0
  then show ?case by (subst raise_upper_bound.simps) auto
next
  case (Suc n)
  show ?case
  proof (cases "e t > m \<and> t < max_time")
    case True
    have "max_time \<le> min (t * 2) max_time * 2 ^ n"
    proof (cases "t * 2 \<le> max_time")
      case True
      with Suc.prems show ?thesis by (simp add: mult.assoc)
    next
      case False
      have "(1::real) \<le> 2 ^ n" by simp
      with Suc.prems have "max_time * 1 \<le> max_time * 2 ^ n" by (intro mult_left_mono) auto
      with False show ?thesis by simp
    qed
    with Suc.IH [of "min (t * 2) max_time"] Suc.prems(1) True
    obtain u where "raise_upper_bound e m max_time (min (t * 2) max_time) = Some u"
      "min (t * 2) max_time \<le> u" "u \<le> max_time" "\<not> (e u > m \<and> u < max_time)"
      by auto
    with True Suc.prems(1) show ?thesis by (subst raise_upper_bound.simps) auto
  next
    case False
    with Suc.prems show ?thesis by (subst raise_upper_bound.simps) auto
  qed
qed

lemma raise_upper_bound_start:
  assumes "0 < max_time"
  obtains u where "raise_upper_bound e m max_time (min 300 max_time) = Some u"
    "0 < u" "u \<le> max_time" "\<not> (e u > m \<and> u < max_time)"
proof -
  obtain n :: nat where "max_time / min 300 max_time < 2 ^ n"
    using real_arch_pow [of 2 "max_time / min 300 max_time"] by auto
  then have "max_time \<le> min 300 max_time * 2 ^ n"
    using assms by (simp add: pos_divide_less_eq mult.commute)
  with raise_upper_bound_returns [of "min 300 max_time" max_time n e m] assms that
  show thesis by fastforce
qed

lemma raise_upper_bound_done: "max_time \<le> t \<Longrightarrow> raise_upper_bound e m max_time t = Some t"
  by (subst raise_upper_bound.simps) simp

lemma bisect_brackets:
  assumes "0 \<le> lo" "lo < hi" "lo = 0 \<or> e lo > m" "e hi \<le> m"
  shows "\<exists>u. lo \<le> u \<and> u < bisect_time e m lo hi \<and> bisect_time e m lo hi - 1 / 1000 \<le> u \<and> (u = 0 \<or> e u > m)
     \<and> bisect_time e m lo hi \<le> hi \<and> e (bisect_time e m lo hi) \<le> m"
  using assms
proof (induction e m lo hi rule: bisect_time.induct)
  case (1 e m lo hi)
  define mid where "mid = 1 / 2 * (lo + hi)"
  have mid: "lo < mid" "mid < hi" using "1.prems" by (simp_all add: mid_def)
  consider "\<not> hi - lo > 1 / 1000" | "hi - lo > 1 / 1000" "e mid > m" | "hi - lo > 1 / 1000" "\<not> e mid > m"
    by blast
  then show ?case
  proof cases
    case 1
    then have "bisect_time e m lo hi = hi" by (subst bisect_time.simps) simp
    with 1 "1.prems" show ?thesis by (intro exI [of _ lo]) auto
  next
    case 2
    then have "bisect_time e m lo hi = bisect_time e m mid hi"
      by (subst bisect_time.simps) (simp add: mid_def)
    moreover obtain v where "mid \<le> v" "v < bisect_time e m mid hi" "bisect_time e m mid hi - 1 / 1000 \<le> v"
      "v = 0 \<or> e v > m" "bisect_time e m mid hi \<le> hi" "e (bisect_time e m mid hi) \<le> m"
      using "1.IH"(1) [OF 2(1) mid_def 2(2)] mid "1.prems" 2(2) by auto
    ultimately show ?thesis using mid "1.prems" by (intro exI [of _ v]) auto
  next
    case 3
    then have "bisect_time e m lo hi = bisect_time e m lo mid"
      by (subst bisect_time.simps) (simp add: mid_def)
    with "1.IH"(2) [OF 3(1) mid_def 3(2)] mid "1.prems" 3(2) show ?thesis by auto
  qed
qed

lemma search_returns:
  "\<exists>r. estimate_time_until_disconnection e m max_time = Some r \<and> (is_ok r \<longleftrightarrow> m \<le> e 0)"
proof (cases "0 < max_time")
  case True
  obtain u where u: "raise_upper_bound e m max_time (min 300 max_time) = Some u"
    using raise_upper_bound_start [OF True] by blast
  then show ?thesis by (auto simp: estimate_time_until_disconnection_def)
next
  case False
  then show ?thesis
    by (auto simp: estimate_time_until_disconnection_def raise_upper_bound_done min_def)
qed

text \<open>
  \<^bold>\<open>C17.\<close> The search for the time at which a satellite is lost always returns, whatever the
  motion of the satellite and whatever the bounds: neither the doubling of the upper bound nor
  the bisection runs forever. It returns a time exactly when the satellite is not below the
  minimum elevation at the start, and an exception otherwise.
\<close>

theorem disconnection_search_returns:
  "\<exists>r. estimate_time_until_disconnection elev_at minimum_elevation max_time = Some r
     \<and> (is_ok r \<longleftrightarrow> minimum_elevation \<le> elev_at 0)"
  using search_returns [of elev_at minimum_elevation max_time] .

lemma search_cases:
  assumes "0 < max_time" "m \<le> e 0"
  obtains t where "estimate_time_until_disconnection e m max_time = Some (Inr t)" "0 < t" "t \<le> max_time"
    "t = max_time \<and> e max_time > m \<or>
     e t \<le> m \<and> (\<exists>u. 0 \<le> u \<and> u < t \<and> t - 1 / 1000 \<le> u \<and> (u = 0 \<or> e u > m))"
proof -
  obtain u where u: "raise_upper_bound e m max_time (min 300 max_time) = Some u"
    "0 < u" "u \<le> max_time" "\<not> (e u > m \<and> u < max_time)"
    using raise_upper_bound_start [OF assms(1)] .
  show thesis
  proof (cases "e u > m")
    case True
    with u have "u = max_time" by auto
    with True u assms show thesis
      by (intro that [of max_time]) (auto simp: estimate_time_until_disconnection_def)
  next
    case False
    then obtain v where v: "0 \<le> v" "v < bisect_time e m 0 u" "bisect_time e m 0 u - 1 / 1000 \<le> v"
      "v = 0 \<or> e v > m" "bisect_time e m 0 u \<le> u" "e (bisect_time e m 0 u) \<le> m"
      using bisect_brackets [of 0 u m e] u by auto
    with False u assms show thesis
      by (intro that [of "bisect_time e m 0 u"]) (auto simp: estimate_time_until_disconnection_def)
  qed
qed

text \<open>
  \<^bold>\<open>C18.\<close> For a satellite that sets, its elevation never rising within the horizon of the search,
  the search finds the moment of disconnection to a millisecond: the satellite is above the
  minimum elevation until a millisecond before the returned time and not above it from that time
  on, unless the returned time is the horizon itself.
\<close>

theorem disconnection_search_exact:
  assumes "0 < max_time" and "minimum_elevation \<le> elev_at 0"
    and "\<And>u v. 0 \<le> u \<Longrightarrow> u \<le> v \<Longrightarrow> v \<le> max_time \<Longrightarrow> elev_at v \<le> elev_at u"
  shows "\<exists>t. estimate_time_until_disconnection elev_at minimum_elevation max_time = Some (Inr t)
     \<and> 0 < t \<and> t \<le> max_time
     \<and> (\<forall>u. 0 \<le> u \<and> u < t - 1 / 1000 \<longrightarrow> elev_at u > minimum_elevation)
     \<and> (t = max_time \<or> (\<forall>u. t \<le> u \<and> u \<le> max_time \<longrightarrow> elev_at u \<le> minimum_elevation))"
proof -
  obtain t where t: "estimate_time_until_disconnection elev_at minimum_elevation max_time = Some (Inr t)"
    "0 < t" "t \<le> max_time"
    and alt: "t = max_time \<and> elev_at max_time > minimum_elevation \<or>
     elev_at t \<le> minimum_elevation \<and> (\<exists>u. 0 \<le> u \<and> u < t \<and> t - 1 / 1000 \<le> u \<and> (u = 0 \<or> elev_at u > minimum_elevation))"
    using search_cases [of max_time minimum_elevation elev_at, OF assms(1,2)] .
  from alt show ?thesis
  proof
    assume "t = max_time \<and> elev_at max_time > minimum_elevation"
    then have "elev_at u > minimum_elevation" if "0 \<le> u \<and> u < t - 1 / 1000" for u
      using assms(3) [of u max_time] that by fastforce
    with t \<open>t = max_time \<and> _\<close> show ?thesis by blast
  next
    assume a: "elev_at t \<le> minimum_elevation \<and> (\<exists>u. 0 \<le> u \<and> u < t \<and> t - 1 / 1000 \<le> u \<and> (u = 0 \<or> elev_at u > minimum_elevation))"
    then obtain v where v: "0 \<le> v" "v < t" "t - 1 / 1000 \<le> v" "v = 0 \<or> elev_at v > minimum_elevation" by blast
    have "elev_at u > minimum_elevation" if "0 \<le> u \<and> u < t - 1 / 1000" for u
      using assms(3) [of u v] that v t(3) by fastforce
    moreover have "elev_at u \<le> minimum_elevation" if "t \<le> u \<and> u \<le> max_time" for u
      using assms(3) [of t u] that a t(2) by fastforce
    ultimately show ?thesis using t by blast
  qed
qed

text \<open>A satellite that sinks by one degree in ten seconds, from 20 degrees.\<close>

theorem disconnection_search_exact_witness:
  "\<exists>t. estimate_time_until_disconnection (\<lambda>u. 20 - u / 10) 10 3600 = Some (Inr t)
     \<and> 0 < t \<and> t \<le> 3600
     \<and> (\<forall>u. 0 \<le> u \<and> u < t - 1 / 1000 \<longrightarrow> 20 - u / 10 > 10)
     \<and> (t = 3600 \<or> (\<forall>u. t \<le> u \<and> u \<le> 3600 \<longrightarrow> 20 - u / 10 \<le> (10::real)))"
  by (rule disconnection_search_exact) auto

section \<open>The closed form\<close>

abbreviation quad :: "real \<Rightarrow> real \<Rightarrow> real \<Rightarrow> real \<Rightarrow> real" where
  "quad A B C t \<equiv> A * t ^ 2 + B * t + C"

lemma quad_no_root:
  assumes "B ^ 2 - 4 * A * C < 0" "0 < C"
  shows "0 < quad A B C t"
proof -
  have "0 < 4 * A * C" using assms(1) by (smt (verit) zero_le_power2)
  then have A: "0 < A" using assms(2) by (simp add: zero_less_mult_iff)
  have "4 * A * quad A B C t = (2 * A * t + B) ^ 2 - (B ^ 2 - 4 * A * C)"
    by (simp add: power2_eq_square algebra_simps)
  then have "0 < 4 * A * quad A B C t" using assms(1) by (smt (verit) zero_le_power2)
  with A show ?thesis by (simp add: zero_less_mult_iff)
qed

lemma quad_roots:
  fixes A B C :: real
  assumes "0 \<le> B ^ 2 - 4 * A * C" "A \<noteq> 0"
  defines "s \<equiv> sqrt (B ^ 2 - 4 * A * C)"
  shows "quad A B C t = A * (t - (- B - s) / (2 * A)) * (t - (- B + s) / (2 * A))"
proof -
  have "s * s = B ^ 2 - 4 * A * C" using assms(1) by (simp add: s_def flip: power2_eq_square)
  then have s: "s * s = B * B - 4 * A * C" by (simp add: power2_eq_square)
  have "A * (t - (- B - s) / (2 * A)) * (t - (- B + s) / (2 * A)) =
      ((2 * A * t + B) * (2 * A * t + B) - s * s) / (4 * A)"
    using assms(2) by (simp add: field_simps)
  also have "\<dots> = (4 * A * quad A B C t) / (4 * A)"
    unfolding s by (simp add: power2_eq_square algebra_simps)
  finally show ?thesis using assms(2) by simp
qed

text \<open>Up to the first positive root a product of two linear factors keeps its sign.\<close>

lemma factors_keep_sign:
  fixes A x y :: real
  assumes "0 < A * (0 - x) * (0 - y)" "0 \<le> t" "0 < x \<Longrightarrow> t < x" "0 < y \<Longrightarrow> t < y"
  shows "0 < A * (t - x) * (t - y)"
proof -
  have x: "x \<noteq> 0" "y \<noteq> 0" using assms(1) by auto
  have "t - x < 0 \<longleftrightarrow> 0 - x < 0" "t - x > 0 \<longleftrightarrow> 0 - x > 0" using x assms(2,3) by linarith+
  moreover have "t - y < 0 \<longleftrightarrow> 0 - y < 0" "t - y > 0 \<longleftrightarrow> 0 - y > 0" using x assms(2,4) by linarith+
  ultimately show ?thesis using assms(1) by (simp only: zero_less_mult_iff mult_less_0_iff)
qed

lemma exit_time_quadratic:
  assumes "0 < max_time" "0 < C" "1 / 10 ^ 12 \<le> \<bar>A\<bar>"
  shows "case exit_time max_time A B C of
      Some t \<Rightarrow> 0 < t \<and> t \<le> max_time \<and> (\<forall>u. 0 \<le> u \<and> u < t \<longrightarrow> 0 < quad A B C u) \<and> (t < max_time \<longrightarrow> quad A B C t = 0)
    | None \<Rightarrow> \<forall>u\<ge>0. 0 < quad A B C u"
proof (cases "B ^ 2 - 4 * A * C < 0")
  case True
  with assms quad_no_root [of B A C] show ?thesis by (simp add: exit_time_def)
next
  case False
  define s where "s = sqrt (B ^ 2 - 4 * A * C)"
  define x where "x = (- B - s) / (2 * A)"
  define y where "y = (- B + s) / (2 * A)"
  have A: "A \<noteq> 0" using assms(3) by auto
  have q: "quad A B C t = A * (t - x) * (t - y)" for t
    unfolding x_def y_def s_def using False A by (intro quad_roots) auto
  have "0 < A * (0 - x) * (0 - y)" using q [of 0] assms(2) by simp
  note sign = factors_keep_sign [OF this]
  have e: "exit_time max_time A B C = (case filter (\<lambda>dt. dt > 0) [x, y] of [] \<Rightarrow> None
      | dt # dts \<Rightarrow> Some (if fold min dts dt \<le> max_time then fold min dts dt else max_time))"
    using False assms unfolding exit_time_def x_def y_def s_def Let_def by simp
  consider "x \<le> 0" "y \<le> 0" | "0 < x" "y \<le> 0" | "x \<le> 0" "0 < y" | "0 < x" "0 < y" by linarith
  then show ?thesis
  proof cases
    case 1
    then show ?thesis unfolding e q using sign by simp
  next
    case 2
    then show ?thesis unfolding e q using sign assms(1) by simp
  next
    case 3
    then show ?thesis unfolding e q using sign assms(1) by simp
  next
    case 4
    then have "min y x = x \<or> min y x = y" by (simp add: min_def)
    with 4 show ?thesis unfolding e q using sign assms(1) by auto
  qed
qed

lemma exit_time_linear:
  assumes "0 < max_time" "0 < C" "B = 0 \<or> 1 / 10 ^ 12 \<le> \<bar>B\<bar>"
  shows "case exit_time max_time 0 B C of
      Some t \<Rightarrow> 0 < t \<and> t \<le> max_time \<and> (\<forall>u. 0 \<le> u \<and> u < t \<longrightarrow> 0 < quad 0 B C u) \<and> (t < max_time \<longrightarrow> quad 0 B C t = 0)
    | None \<Rightarrow> \<forall>u\<ge>0. 0 < quad 0 B C u"
proof (cases "B = 0")
  case True
  with assms show ?thesis by (simp add: exit_time_def)
next
  case False
  define dt where "dt = - C / B"
  have e: "exit_time max_time 0 B C = Some (if 0 < dt \<and> dt \<le> max_time then dt else max_time)"
    using False assms by (simp add: exit_time_def dt_def Let_def)
  have q: "quad 0 B C u = B * (u - dt)" for u using False by (simp add: dt_def field_simps)
  have d: "dt < 0 \<longleftrightarrow> 0 < B" "0 < dt \<longleftrightarrow> B < 0" "dt \<noteq> 0"
    using assms(2) False by (auto simp: dt_def divide_less_0_iff zero_less_divide_iff)
  have "0 < B * (u - dt)" if "0 \<le> u" "0 < dt \<Longrightarrow> u < dt" for u
    using that d by (cases "0 < dt") (auto simp: zero_less_mult_iff)
  then show ?thesis unfolding e q using assms(1) by auto
qed

lemma exit_time_first_root:
  assumes "0 < max_time" "0 < C" "A = 0 \<or> 1 / 10 ^ 12 \<le> \<bar>A\<bar>" "B = 0 \<or> 1 / 10 ^ 12 \<le> \<bar>B\<bar>"
  shows "case exit_time max_time A B C of
      Some t \<Rightarrow> 0 < t \<and> t \<le> max_time \<and> (\<forall>u. 0 \<le> u \<and> u < t \<longrightarrow> 0 < quad A B C u) \<and> (t < max_time \<longrightarrow> quad A B C t = 0)
    | None \<Rightarrow> \<forall>u\<ge>0. 0 < quad A B C u"
  using exit_time_quadratic [OF assms(1,2)] exit_time_linear [OF assms(1,2,4)] assms(3) by blast

text \<open>The squared distance from the cone around the vertical, after moving for time \<open>t\<close>.\<close>

definition above_cone :: "real \<times> real \<times> real \<Rightarrow> real \<times> real \<times> real \<Rightarrow> real \<times> real \<times> real \<Rightarrow> real \<Rightarrow> real \<Rightarrow> real" where
  "above_cone s0 v up sin_eps t =
    (let s = add3 s0 (scale3 t v) in dot3 s up ^ 2 - dot3 s s * sin_eps ^ 2)"

lemma elevation_quadratic_cone:
  assumes "elevation_quadratic s0 v up sin_eps = (A, B, C)"
  shows "quad A B C t = above_cone s0 v up sin_eps t"
proof -
  obtain a b c x y z p q r where t: "s0 = (a, b, c)" "v = (x, y, z)" "up = (p, q, r)"
    by (metis prod_cases3)
  from assms have ABC: "A = dot3 v up ^ 2 - dot3 v v * sin_eps ^ 2"
    "B = 2 * (dot3 s0 up * dot3 v up - dot3 s0 v * sin_eps ^ 2)" "C = dot3 s0 up ^ 2 - dot3 s0 s0 * sin_eps ^ 2"
    by (simp_all add: elevation_quadratic_def Let_def)
  show ?thesis
    unfolding ABC above_cone_def Let_def t by (simp add: power2_eq_square algebra_simps)
qed



section \<open>The choice of satellites\<close>

lemma keep_existing_take:
  "keep_existing g vs =
     map connect (take (nat (go_maximum g)) (filter (\<lambda>v. vs_satellite v \<in> set (connected_satellites g)) vs))"
proof (induction vs rule: rev_induct)
  case Nil
  then show ?case by (simp add: keep_existing_def)
next
  case (snoc v vs)
  let ?f = "filter (\<lambda>v. vs_satellite v \<in> set (connected_satellites g))"
  have "int (length (keep_existing g vs)) < go_maximum g \<longleftrightarrow> length (?f vs) < nat (go_maximum g)"
    unfolding snoc by auto
  with snoc show ?case unfolding keep_existing_def by (auto simp: not_less)
qed

lemma fill_links_take:
  "fill_links m new vs = new @ map connect (take (nat m - length new) vs)"
proof (induction m new vs rule: fill_links.induct)
  case (2 m new v vs)
  show ?case
  proof (cases "int (length new) \<ge> m")
    case False
    then have "nat m - length new = Suc (nat m - Suc (length new))" by linarith
    with False 2 show ?thesis by simp
  qed auto
qed simp

definition kept :: "'s ground_site \<Rightarrow> 's visible_satellite list \<Rightarrow> 's visible_satellite list" where
  "kept g vs = filter (\<lambda>v. vs_satellite v \<in> set (connected_satellites g)) (by_elevation vs)"

lemma keep_enough:
  assumes "int (length (keep_existing g (by_elevation vs))) \<ge> go_maximum g"
  shows "keep_existing g (by_elevation vs) = map connect (take (nat (go_maximum g)) (kept g vs @ ws))"
  using assms by (auto simp: keep_existing_take kept_def)

lemma keep_and_fill:
  "fill_links (go_maximum g) (keep_existing g (by_elevation vs)) ws =
     map connect (take (nat (go_maximum g)) (kept g vs @ ws))"
  by (simp add: fill_links_take keep_existing_take kept_def min_def)

definition site_weight :: "'s ground_site \<Rightarrow> ('s \<Rightarrow> nat) \<Rightarrow> 's visible_satellite \<Rightarrow> real" where
  "site_weight g stations v = 1 / 2 * ((vs_elevation v - go_min_elevation g) / (90 - go_min_elevation g))
      + 1 / 2 * (1 - real (stations (vs_satellite v)) / 3)"


text \<open>A ground station that has the lower of two satellites and may have two links.\<close>

definition example_site :: "string ground_site" where
  "example_site = \<lparr>go_links = [\<lparr>gl_source = ''A'', gl_to_space = True\<rparr>], go_maximum = 2, go_min_elevation = 10\<rparr>"

definition example_visible :: "string visible_satellite list" where
  "example_visible = [\<lparr>vs_satellite = ''A'', vs_elevation = 60\<rparr>, \<lparr>vs_satellite = ''B'', vs_elevation = 20\<rparr>]"


lemma longest_choice:
  "longest_connection_time estimate visible g =
    (let vs = visible g; times = map (\<lambda>v. estimate (vs_satellite v)) vs
     in if int (length (kept g vs)) < go_maximum g \<and> 2 \<le> length vs \<and> None \<in> set times
        then Inl (TypeError ''not supported between instances of NoneType and float'')
        else Inr \<lparr>cc_obsolete = filter gl_to_space (go_links g),
                  cc_new = map connect (take (nat (go_maximum g))
                    (kept g vs @ sort_key (\<lambda>v. - the (estimate (vs_satellite v))) (by_elevation vs)))\<rparr>)"
proof -
  let ?vs = "by_elevation (visible g)"
  have len: "go_maximum g \<le> int (length (keep_existing g ?vs)) \<longleftrightarrow> \<not> int (length (kept g (visible g))) < go_maximum g"
    by (auto simp: keep_existing_take kept_def)
  have none: "None \<in> snd ` set (map (\<lambda>v. (v, estimate (vs_satellite v))) ?vs) \<longleftrightarrow>
      None \<in> set (map (\<lambda>v. estimate (vs_satellite v)) (visible g))"
    by (simp add: by_elevation_def image_image)
  have r: "map fst (sort_key (\<lambda>p. - the (snd p)) (map (\<lambda>v. (v, estimate (vs_satellite v))) ?vs)) =
      sort_key (\<lambda>v. - the (estimate (vs_satellite v))) ?vs"
    by (simp add: sort_key_map comp_def)
  show ?thesis
  proof (cases "int (length (kept g (visible g))) < go_maximum g")
    case True
    then show ?thesis
      unfolding longest_connection_time_def Let_def len sort_by_time_def none
      by (simp add: r keep_and_fill) (simp add: by_elevation_def)
  next
    case False
    then show ?thesis
      using keep_enough [of g "visible g"] len by (simp add: longest_connection_time_def Let_def)
  qed
qed

text \<open>
  When a ground object keeps fewer satellites than it may have and one of them has the
  longest time left, that satellite is connected a second time, taking the place of another one:
  ranking does not leave out the satellites that were kept.
\<close>

theorem kept_satellite_connected_twice:
  assumes "longest_connection_time estimate visible g = Inr c"
    and "int (length (kept g (visible g))) < go_maximum g"
    and "sort_key (\<lambda>v. - the (estimate (vs_satellite v))) (by_elevation (visible g)) = v # rest"
    and "v \<in> set (kept g (visible g))"
  shows "\<not> distinct (map gc_satellite (cc_new c))"
proof -
  let ?k = "kept g (visible g)"
  have "cc_new c = map connect (take (nat (go_maximum g)) (?k @ v # rest))"
    using assms(1) unfolding longest_choice Let_def assms(3) by (auto split: if_splits)
  moreover have "nat (go_maximum g) - length ?k = Suc (nat (go_maximum g) - Suc (length ?k))"
    using assms(2) by linarith
  ultimately have "cc_new c = map connect (?k @ v # take (nat (go_maximum g) - Suc (length ?k)) rest)"
    using assms(2) by simp
  with assms(4) show ?thesis by force
qed

theorem kept_satellite_connected_twice_witness:
  "\<exists>c. longest_connection_time (\<lambda>s. Some (if s = ''A'' then 500 else 100)) (\<lambda>_. example_visible) example_site = Inr c
     \<and> \<not> distinct (map gc_satellite (cc_new c))"
proof -
  let ?e = "\<lambda>s. Some (if s = ''A'' then 500 else 100)"
  obtain c where c: "longest_connection_time ?e (\<lambda>_. example_visible) example_site = Inr c"
    by (simp add: longest_choice example_visible_def Let_def)
  moreover have "\<not> distinct (map gc_satellite (cc_new c))"
    by (rule kept_satellite_connected_twice [OF c, where v = "\<lparr>vs_satellite = ''A'', vs_elevation = 60\<rparr>"])
      (simp_all add: example_site_def example_visible_def kept_def by_elevation_def connected_satellites_def)
  ultimately show ?thesis by blast
qed

text \<open>
  \<^bold>\<open>C21.\<close> The strategy of the longest connection fails, with a \<open>TypeError\<close>, exactly when it has
  to rank satellites, at least two are visible and the closed form gives no time for one of them.
\<close>

theorem longest_connection_fails_iff:
  "longest_connection_time estimate visible g = Inl (TypeError ''not supported between instances of NoneType and float'')
     \<longleftrightarrow> int (length (kept g (visible g))) < go_maximum g \<and> 2 \<le> length (visible g)
         \<and> (\<exists>v \<in> set (visible g). estimate (vs_satellite v) = None)"
proof -
  have "None \<in> set (map (\<lambda>v. estimate (vs_satellite v)) (visible g)) \<longleftrightarrow>
      (\<exists>v \<in> set (visible g). estimate (vs_satellite v) = None)"
    by force
  then show ?thesis unfolding longest_choice Let_def by simp
qed

end
