(* ===== verification/Orbits.thy ===== *)
theory Orbits
  imports Strategies
begin

text \<open>
  Two-line elements and distances of \<open>utils/utils.py\<close>, the orbital model and the distance
  methods of \<open>utils/satcom_fix.py\<close>, and \<open>utils/coverage.py\<close>.

  Floats are real numbers. The propagator (\<open>Satrec\<close> and \<open>export_tle\<close> of the package
  \<open>sgp4\<close>), Astropy and the downloads are arguments. A time is its number of seconds
  since an epoch; the Julian date that the package \<open>sgp4\<close> computes from its fields is a
  function of that number.
\<close>

section \<open>Two-line elements\<close>

definition tle_char_value :: "char \<Rightarrow> nat" where
  "tle_char_value c = (if is_digit c then digit_val c else if c = CHR ''-'' then 1 else 0)"

definition tle_line_checksum :: "string \<Rightarrow> nat result" where
  "tle_line_checksum tle_line = (if length tle_line \<noteq> 68 then Inl (ValueError ''Must have exactly 68 characters'')
     else Inr (foldl (\<lambda>total ch. total + tle_char_value ch) 0 tle_line mod 10))"

text \<open>The condition under which a line is refused; \<open>int\<close> of the last character may itself raise.\<close>

definition tle_line_wrong :: "string \<Rightarrow> bool result" where
  "tle_line_wrong line = (if length line \<noteq> 69 then Inr True
     else rbind (tle_line_checksum (take 68 line)) (\<lambda>c.
       case py_int [line ! 68] of None \<Rightarrow> Inl (ValueError ''invalid literal for int()'') | Some d \<Rightarrow> Inr (int c \<noteq> d)))"

record tle =
  tl_name :: string
  tl_line1 :: string
  tl_line2 :: string

text \<open>What is rewritten of the first line; \<open>exported\<close> is the pair that \<open>export_tle\<close> returns.\<close>

definition tle_epoch_field :: string where
  "tle_epoch_field = ''U 00000ABC 00001.00000000 ''"

definition generate_satellite_tle :: "string \<Rightarrow> string \<times> string \<Rightarrow> tle result" where
  "generate_satellite_tle name exported =
    (case exported of (line1, line2) \<Rightarrow>
      let l = take 7 line1 @ tle_epoch_field @ drop 33 line1
      in rbind (tle_line_checksum (take 68 l)) (\<lambda>c.
        let tle_line1 = take 68 l @ dec c in
        rbind (tle_line_wrong tle_line1) (\<lambda>wrong1.
        if wrong1 then Inl (ValueError ''TLE line 1 checksum failed'')
        else rbind (tle_line_wrong line2) (\<lambda>wrong2.
        if wrong2 then Inl (ValueError ''TLE line 2 checksum failed'')
        else Inr \<lparr>tl_name = name, tl_line1 = tle_line1, tl_line2 = line2\<rparr>))))"

text \<open>The argument in radians per minute that the propagator takes for the mean motion.\<close>

definition mean_motion_argument :: "real \<Rightarrow> real" where
  "mean_motion_argument revolutions_per_day = revolutions_per_day * 60 / (137509870831397 / 10 ^ 10)"

definition tle_lines :: "string \<Rightarrow> string list" where
  "tle_lines t = map py_strip (filter (\<lambda>l. py_strip l \<noteq> []) (py_splitlines (py_strip t)))"

definition fetch_iss_data :: "string result \<Rightarrow> tle result" where
  "fetch_iss_data response = (case response of
     Inl _ \<Rightarrow> Inl (RuntimeError ''Failed to fetch ISS TLE data'')
   | Inr t \<Rightarrow> (case tle_lines t of
       a # b # c # _ \<Rightarrow> Inr \<lparr>tl_name = a, tl_line1 = b, tl_line2 = c\<rparr>
     | _ \<Rightarrow> Inl (RuntimeError ''Unexpected ISS TLE format'')))"

fun tle_groups :: "string list \<Rightarrow> tle list result" where
  "tle_groups (name # line1 # line2 # rest) =
    (if \<not> startswith ''1 '' line1 \<or> \<not> startswith ''2 '' line2 then Inl (RuntimeError ''Invalid TLE lines'')
     else rbind (tle_groups rest) (\<lambda>sats. Inr (\<lparr>tl_name = name, tl_line1 = line1, tl_line2 = line2\<rparr> # sats)))"
| "tle_groups _ = Inr []"

definition fetch_satellites_data :: "string result \<Rightarrow> tle list result" where
  "fetch_satellites_data response = (case response of
     Inl _ \<Rightarrow> Inl (RuntimeError ''Failed to fetch satellite TLE data'')
   | Inr t \<Rightarrow> let lines = tle_lines t
       in if length lines mod 3 \<noteq> 0 then Inl (RuntimeError ''Unexpected TLE format'') else tle_groups lines)"

definition read_satellites_data :: "string result \<Rightarrow> tle list result" where
  "read_satellites_data contents = (case contents of
     Inl _ \<Rightarrow> Inl (RuntimeError ''Failed to read satellite TLE file'')
   | Inr t \<Rightarrow> let lines = tle_lines t
       in if length lines mod 3 \<noteq> 0 then Inl (RuntimeError ''Unexpected TLE format'') else tle_groups lines)"

section \<open>Distances\<close>

definition spherical_ecef :: "real \<Rightarrow> real \<Rightarrow> real \<Rightarrow> real \<times> real \<times> real" where
  "spherical_ecef lat_deg lon_deg alt_km =
    (let lat_rad = radians lat_deg; lon_rad = radians lon_deg; radius = 6371 + alt_km
     in (radius * cos lat_rad * cos lon_rad, radius * cos lat_rad * sin lon_rad, radius * sin lat_rad))"

definition distance_3d_km :: "real \<Rightarrow> real \<Rightarrow> real \<Rightarrow> real \<Rightarrow> real \<Rightarrow> real \<Rightarrow> real" where
  "distance_3d_km lat1 lon1 alt1 lat2 lon2 alt2 =
    (case (spherical_ecef lat1 lon1 alt1, spherical_ecef lat2 lon2 alt2) of
      ((x1, y1, z1), (x2, y2, z2)) \<Rightarrow> sqrt ((x2 - x1) ^ 2 + (y2 - y1) ^ 2 + (z2 - z1) ^ 2))"

text \<open>The arithmetic of arrays works element by element.\<close>

definition distance_3d_km_many :: "real list \<Rightarrow> real list \<Rightarrow> real list \<Rightarrow> real list \<Rightarrow> real list \<Rightarrow> real list \<Rightarrow> real list" where
  "distance_3d_km_many lat1 lon1 alt1 lat2 lon2 alt2 =
    (let lat1_rad = map radians lat1; lon1_rad = map radians lon1;
         lat2_rad = map radians lat2; lon2_rad = map radians lon2;
         radius1 = map ((+) 6371) alt1; radius2 = map ((+) 6371) alt2;
         x1 = map2 (*) (map2 (*) radius1 (map cos lat1_rad)) (map cos lon1_rad);
         y1 = map2 (*) (map2 (*) radius1 (map cos lat1_rad)) (map sin lon1_rad);
         z1 = map2 (*) radius1 (map sin lat1_rad);
         x2 = map2 (*) (map2 (*) radius2 (map cos lat2_rad)) (map cos lon2_rad);
         y2 = map2 (*) (map2 (*) radius2 (map cos lat2_rad)) (map sin lon2_rad);
         z2 = map2 (*) radius2 (map sin lat2_rad);
         sq = (\<lambda>a b. map (\<lambda>d. d ^ 2) (map2 (-) a b))
     in map sqrt (map2 (+) (map2 (+) (sq x2 x1) (sq y2 y1)) (sq z2 z1)))"

record spatial_position =
  sp_longitude :: real
  sp_latitude :: real
  sp_altitude :: "real option"

definition mean_earth_radius_km :: real where
  "mean_earth_radius_km = 6371009 / 1000"

definition haversine_ground_distance_km :: "spatial_position \<Rightarrow> spatial_position \<Rightarrow> real" where
  "haversine_ground_distance_km p q =
    (let lat1 = radians (sp_latitude p); lon1 = radians (sp_longitude p);
         lat2 = radians (sp_latitude q); lon2 = radians (sp_longitude q);
         a = sin ((lat2 - lat1) / 2) ^ 2 + cos lat1 * cos lat2 * sin ((lon2 - lon1) / 2) ^ 2
     in 2 * mean_earth_radius_km * arcsin (sqrt (min 1 a)))"

definition altitude_or_zero :: "spatial_position \<Rightarrow> real" where
  "altitude_or_zero p = (case sp_altitude p of None \<Rightarrow> 0 | Some a \<Rightarrow> a)"

definition ground_distance_meters :: "spatial_position \<Rightarrow> spatial_position \<Rightarrow> real" where
  "ground_distance_meters p q = haversine_ground_distance_km p q * 1000"

definition distance_3d_meters :: "spatial_position \<Rightarrow> spatial_position \<Rightarrow> real" where
  "distance_3d_meters p q =
    (let ground_m = haversine_ground_distance_km p q * 1000; alt_diff_m = altitude_or_zero p - altitude_or_zero q
     in sqrt (ground_m ^ 2 + alt_diff_m ^ 2))"

definition model_distance_3d_km :: "spatial_position \<Rightarrow> spatial_position \<Rightarrow> real" where
  "model_distance_3d_km p q =
    (let ground_km = haversine_ground_distance_km p q; alt_diff_km = (altitude_or_zero p - altitude_or_zero q) / 1000
     in sqrt (ground_km ^ 2 + alt_diff_km ^ 2))"

section \<open>The orbital model\<close>

definition degrees :: "real \<Rightarrow> real" where
  "degrees r = r * 180 / pi"

definition atan2 :: "real \<Rightarrow> real \<Rightarrow> real" where
  "atan2 y x = (if x > 0 then arctan (y / x)
     else if x < 0 then (if y \<ge> 0 then arctan (y / x) + pi else arctan (y / x) - pi)
     else if y > 0 then pi / 2 else if y < 0 then - pi / 2 else 0)"

definition wgs84_a :: real where "wgs84_a = 6378137 / 1000"
definition wgs84_f :: real where "wgs84_f = 1 / (298257223563 / 10 ^ 9)"
definition wgs84_b :: real where "wgs84_b = wgs84_a * (1 - wgs84_f)"
definition wgs84_e2 :: real where "wgs84_e2 = 1 - (wgs84_b * wgs84_b) / (wgs84_a * wgs84_a)"
definition wgs84_ep2 :: real where "wgs84_ep2 = (wgs84_a * wgs84_a) / (wgs84_b * wgs84_b) - 1"

text \<open>The rotation angle of the Earth, and the solution on the ellipsoid for a point in the
  rotated frame.\<close>

definition sidereal_angle :: "real \<Rightarrow> real \<Rightarrow> real" where
  "sidereal_angle jd fr =
    (let tut1 = (jd + fr - 2451545) / 36525;
         theta = - 62 / 10 ^ 7 * tut1 ^ 3 + 93104 / 10 ^ 6 * tut1 ^ 2
           + (876600 * 3600 + 8640184812866 / 10 ^ 6) * tut1 + 6731054841 / 10 ^ 5
     in py_fmod (radians (theta / 240)) (2 * pi))"

definition ecef_to_geodetic :: "real \<Rightarrow> real \<Rightarrow> real \<Rightarrow> real \<times> real \<times> real" where
  "ecef_to_geodetic xe ye ze =
    (let p = sqrt (xe ^ 2 + ye ^ 2);
         th = atan2 (ze * wgs84_a) (p * wgs84_b);
         lat = atan2 (ze + wgs84_ep2 * wgs84_b * sin th ^ 3) (p - wgs84_e2 * wgs84_a * cos th ^ 3);
         lon = atan2 ye xe;
         n = wgs84_a / sqrt (1 - wgs84_e2 * sin lat ^ 2);
         alt_km = p / cos lat - n
     in (degrees lat, degrees lon, alt_km * 1000))"

fun teme_to_geodetic :: "real \<times> real \<times> real \<Rightarrow> real \<Rightarrow> real \<Rightarrow> real \<times> real \<times> real" where
  "teme_to_geodetic (x, y, z) jd fr =
    (let theta = sidereal_angle jd fr
     in ecef_to_geodetic (cos theta * x + sin theta * y) (- sin theta * x + cos theta * y) z)"

text \<open>The propagator of one element set, the Julian date of a time, and the conversion of Astropy.\<close>

record propagator =
  pr_jday :: "real \<Rightarrow> real \<times> real"
  pr_sgp4 :: "real \<Rightarrow> real \<Rightarrow> int \<times> (real \<times> real \<times> real) \<times> (real \<times> real \<times> real)"
  pr_astropy :: "real \<Rightarrow> real \<times> real \<times> real \<Rightarrow> real \<times> real \<times> real"

record orbital_model =
  om_name :: string
  om_line1 :: string
  om_line2 :: string
  om_high_precision :: bool
  om_last_position :: "spatial_position option"
  om_last_time :: "real option"

text \<open>An entry of the dictionary that is missing or no string is \<open>None\<close>; \<open>parse\<close> is
  \<open>twoline2rv\<close>, which may raise.\<close>

definition new_orbital_model :: "(string \<Rightarrow> string \<Rightarrow> unit result) \<Rightarrow> string option \<Rightarrow> string option \<Rightarrow> string option \<Rightarrow> orbital_model result" where
  "new_orbital_model parse name line1 line2 =
    (case name of
       None \<Rightarrow> Inl (ValueError ''Invalid or missing satellite name in TLE'')
     | Some n \<Rightarrow> if py_strip n = [] then Inl (ValueError ''Invalid or missing satellite name in TLE'') else
       (case (line1, line2) of
          (Some l1, Some l2) \<Rightarrow>
            if py_strip l1 = [] \<or> py_strip l2 = [] then Inl (ValueError ''Invalid or missing TLE lines in input'')
            else rbind (parse (py_strip l1) (py_strip l2)) (\<lambda>_.
              Inr \<lparr>om_name = py_strip n, om_line1 = py_strip l1, om_line2 = py_strip l2, om_high_precision = False,
                   om_last_position = None, om_last_time = None\<rparr>)
        | _ \<Rightarrow> Inl (ValueError ''Invalid or missing TLE lines in input'')))"

definition sgp4_error_message :: "int \<Rightarrow> string" where
  "sgp4_error_message e = (case dict_get
     [(1, ''Mean eccentricity is outside the range''), (2, ''Mean motion has fallen below zero''),
      (3, ''Perturbed eccentricity is outside the range''),
      (4, ''Length of the orbit semi-latus rectum has fallen below zero''),
      (6, ''Orbit has decayed: the computed position is underground.'')] e of
     None \<Rightarrow> ''Unknown SGP4 error'' | Some m \<Rightarrow> m)"

definition compute_position_astropy :: "propagator \<Rightarrow> real \<Rightarrow> real \<times> real \<times> real \<Rightarrow> spatial_position" where
  "compute_position_astropy pr t r_teme = (case pr_astropy pr t r_teme of (lat_deg, lon_deg, height_km) \<Rightarrow>
     \<lparr>sp_longitude = py_fmod (lon_deg + 180) 360 - 180, sp_latitude = lat_deg, sp_altitude = Some (height_km * 1000)\<rparr>)"

definition compute_position_at :: "propagator \<Rightarrow> bool \<Rightarrow> real \<Rightarrow> spatial_position result" where
  "compute_position_at pr high_precision t =
    (case pr_jday pr t of (jd, fr) \<Rightarrow> case pr_sgp4 pr jd fr of (error_code, r_teme, v_teme) \<Rightarrow>
      if error_code \<noteq> 0 then Inl (RuntimeError (sgp4_error_message error_code))
      else if high_precision then Inr (compute_position_astropy pr t r_teme)
      else case teme_to_geodetic r_teme jd fr of (lat_deg, lon_deg, alt_m) \<Rightarrow>
        Inr \<lparr>sp_longitude = lon_deg, sp_latitude = lat_deg, sp_altitude = Some alt_m\<rparr>)"

definition get_longitude_latitude :: "propagator \<Rightarrow> real option \<Rightarrow> orbital_model \<Rightarrow> spatial_position result \<times> orbital_model" where
  "get_longitude_latitude pr clock m = (case clock of
     None \<Rightarrow> (Inl (RuntimeError ''Clock returned None for current time''), m)
   | Some t_now \<Rightarrow> (case (om_last_time m, om_last_position m) of
       (Some t, Some p) \<Rightarrow>
         if t_now = t then (Inr p, m)
         else (case compute_position_at pr (om_high_precision m) t_now of
            Inl e \<Rightarrow> (Inl e, m)
          | Inr q \<Rightarrow> (Inr q, m\<lparr>om_last_position := Some q, om_last_time := Some t_now\<rparr>))
     | _ \<Rightarrow> (case compute_position_at pr (om_high_precision m) t_now of
            Inl e \<Rightarrow> (Inl e, m)
          | Inr q \<Rightarrow> (Inr q, m\<lparr>om_last_position := Some q, om_last_time := Some t_now\<rparr>))))"

definition get_longitude_latitude_altitude :: "propagator \<Rightarrow> real option \<Rightarrow> real \<Rightarrow> orbital_model \<Rightarrow> spatial_position result \<times> orbital_model" where
  "get_longitude_latitude_altitude pr clock delta_t m =
    (if delta_t = 0 then get_longitude_latitude pr clock m
     else case clock of
       None \<Rightarrow> (Inl (RuntimeError ''Clock returned None for current time''), m)
     | Some t_now \<Rightarrow> (compute_position_at pr (om_high_precision m) (t_now + delta_t), m))"

definition get_position_earth_general_inertial :: "propagator \<Rightarrow> real option \<Rightarrow> ((real \<times> real \<times> real) \<times> (real \<times> real \<times> real)) result" where
  "get_position_earth_general_inertial pr clock = (case clock of
     None \<Rightarrow> Inl (RuntimeError ''Clock returned None for current time'')
   | Some t \<Rightarrow> (case pr_jday pr t of (jd, fr) \<Rightarrow> case pr_sgp4 pr jd fr of (error_code, r_teme, v_teme) \<Rightarrow>
       if error_code \<noteq> 0 then Inl (RuntimeError (sgp4_error_message error_code)) else Inr (r_teme, v_teme)))"

definition is_ascending :: "propagator \<Rightarrow> real option \<Rightarrow> bool result" where
  "is_ascending pr clock = rbind (get_position_earth_general_inertial pr clock) (\<lambda>(r, vx, vy, vz). Inr (vz > 0))"

definition get_half_cone_angle :: "real \<Rightarrow> real \<Rightarrow> real result" where
  "get_half_cone_angle mean_motion_revolution_per_day min_elevation_deg =
    (if mean_motion_revolution_per_day \<le> 0 then Inl (ValueError ''mean_motion_revolution_per_day must be positive'')
     else let mean_motion_rad_per_second = mean_motion_revolution_per_day * 2 * pi / 86400;
              semi_major_axis = (3986004418 / 10 ^ 4 / mean_motion_rad_per_second ^ 2) powr (1 / 3);
              ratio = 6378137 / 1000 * sin (radians (90 + min_elevation_deg)) / semi_major_axis;
              clipped = max (- 1) (min 1 ratio)
          in Inr ((90 - min_elevation_deg) - degrees (arcsin clipped)))"

text \<open>The attributes of the simulation library that are replaced.\<close>

definition apply_satcom_fix :: "bool \<Rightarrow> (string \<times> string, string) dict \<Rightarrow> (string \<times> string, string) dict" where
  "apply_satcom_fix has_generate_satellite modules =
    (let m1 = dict_set (''sat_com_trajectopy.orbital_models'', ''PyOrbitalModel'') ''PyOrbitalModel'' modules;
         m2 = (if has_generate_satellite
               then dict_set (''sat_com_trajectopy.satellites.generate_satellite'', ''PyOrbitalModel'') ''PyOrbitalModel'' m1
               else m1)
     in foldl (\<lambda>m (method, impl). dict_set (''SkLearningDistanceModel'', method) impl m) m2
       [(''get_ground_distance_km'', ''_ground_distance_km''), (''get_ground_distance_meters'', ''_ground_distance_meters''),
        (''get_3d_distance_meters'', ''_3d_distance_meters''), (''get_3d_distance_km'', ''_3d_distance_km'')])"

section \<open>Coverage\<close>

definition linspace_open :: "real \<Rightarrow> nat \<Rightarrow> real list" where
  "linspace_open b n = map (\<lambda>k. b * real k / real n) [0..<n]"

definition arange :: "real \<Rightarrow> real \<Rightarrow> real \<Rightarrow> real list" where
  "arange a b s = map (\<lambda>k. a + real k * s) [0..<nat \<lceil>(b - a) / s\<rceil>]"

text \<open>The cosine of the central angle from the subpoint to the rim of the covered cap.\<close>

definition cap_cosine :: "real \<Rightarrow> real \<Rightarrow> real \<Rightarrow> real option" where
  "cap_cosine R_earth_km alt_km elev_min_deg =
    (let r = R_earth_km + alt_km; epsilon = radians elev_min_deg;
         disc = r * r - (R_earth_km * cos epsilon) ^ 2
     in if disc < 0 then None
        else Some (max (- 1) (min 1 ((R_earth_km * cos epsilon ^ 2 + sin epsilon * sqrt disc) / r))))"

definition ring_point :: "real \<Rightarrow> real \<Rightarrow> real \<Rightarrow> real \<Rightarrow> real \<times> real" where
  "ring_point lat0 lon0 psi bearing =
    (let lat = arcsin (sin lat0 * cos psi + cos lat0 * sin psi * cos bearing)
     in (lon0 + atan2 (sin bearing * sin psi * cos lat0) (cos psi - sin lat0 * sin lat), lat))"

text \<open>The ring as pairs of longitude and latitude in degrees; when it goes around a pole it is
  sorted by longitude and extended on both sides.\<close>

definition coverage_ring_from_elevation :: "real \<Rightarrow> real \<Rightarrow> real \<Rightarrow> real \<Rightarrow> nat \<Rightarrow> real \<Rightarrow> ((real \<times> real) list \<times> bool) option result" where
  "coverage_ring_from_elevation lat0_deg lon0_deg alt_km elev_min_deg n_pts R_earth_km =
    (case cap_cosine R_earth_km alt_km elev_min_deg of
       None \<Rightarrow> Inr None
     | Some cospsi \<Rightarrow> if n_pts = 0 then Inl (ValueError ''zero-size array to reduction operation maximum'') else
        let psi = arccos cospsi;
            ring = map (ring_point (radians lat0_deg) (radians lon0_deg) psi) (linspace_open (2 * pi) n_pts);
            lons = map fst ring; lats = map snd ring;
            flag = (\<bar>Max (set lons) - Min (set lons)\<bar> > 3 / 2 * pi);
            pole = (if sum_list lats / real (length lats) > 0 then pi else - pi);
            closed_ring = (if flag then [(- 2 * pi, pole), (- 2 * pi, pole)] @ sort_key fst ring @ [(2 * pi, pole), (2 * pi, pole)]
                           else ring)
        in Inr (Some (map (\<lambda>(lon, lat). (degrees lon, degrees lat)) closed_ring, flag)))"

record covering_sat =
  cs_latitude :: real
  cs_longitude :: real
  cs_altitude :: "real option"

definition sat_altitude :: "covering_sat \<Rightarrow> real" where
  "sat_altitude s = (case cs_altitude s of None \<Rightarrow> 0 | Some a \<Rightarrow> a)"

definition cell_centers :: "real \<Rightarrow> real \<Rightarrow> real list" where
  "cell_centers limit grid_res_deg =
    map (\<lambda>e. e + grid_res_deg / 2) (butlast (arange (- limit) (limit + grid_res_deg) grid_res_deg))"

text \<open>The weighted share of the cells for which \<open>covered\<close> holds.\<close>

definition covered_percentage :: "(real \<times> real \<Rightarrow> bool) \<Rightarrow> (real \<times> real) list \<Rightarrow> real" where
  "covered_percentage covered pts =
    (let weight = (\<lambda>(lon, lat). cos (radians lat));
         covered_weight = sum_list (map weight (filter covered pts));
         total_weight = sum_list (map weight pts)
     in if total_weight \<le> 0 then 0 else covered_weight / total_weight * 100)"

definition grid_points :: "real \<Rightarrow> real \<Rightarrow> (real \<times> real) list" where
  "grid_points max_latitude_deg grid_res_deg =
    [(lon, lat). lat \<leftarrow> cell_centers max_latitude_deg grid_res_deg, lon \<leftarrow> cell_centers 180 grid_res_deg]"

text \<open>\<open>inside\<close> is the polygon test of \<open>matplotlib\<close>; rings that leave the map on one side are
  repeated on the other. A satellite is a dictionary with a latitude and a longitude.\<close>

definition coverage_rings :: "covering_sat \<Rightarrow> real \<Rightarrow> nat \<Rightarrow> (real \<times> real) list list result" where
  "coverage_rings s elev_min_deg n_ring_pts =
    rbind (coverage_ring_from_elevation (cs_latitude s) (cs_longitude s) (sat_altitude s) elev_min_deg n_ring_pts 6371) (\<lambda>r.
      case r of
        None \<Rightarrow> Inr []
      | Some (ring, _) \<Rightarrow> Inr (ring
         # (if list_ex (\<lambda>(lon, lat). lon < - 180) ring then [map (\<lambda>(lon, lat). (lon + 360, lat)) ring] else [])
         @ (if list_ex (\<lambda>(lon, lat). lon > 180) ring then [map (\<lambda>(lon, lat). (lon - 360, lat)) ring] else [])))"

definition coverage_percentage :: "((real \<times> real) list \<Rightarrow> real \<times> real \<Rightarrow> bool) \<Rightarrow> covering_sat list \<Rightarrow> real \<Rightarrow> nat \<Rightarrow> real \<Rightarrow> real \<Rightarrow> real result" where
  "coverage_percentage inside sats elev_min_deg n_ring_pts grid_res_deg max_latitude_deg =
    rbind (rmap (\<lambda>s. coverage_rings s elev_min_deg n_ring_pts) sats) (\<lambda>rs.
      let rings = concat rs
      in if rings = [] then Inr 0
         else Inr (covered_percentage (\<lambda>pt. list_ex (\<lambda>ring. inside ring pt) rings) (grid_points max_latitude_deg grid_res_deg)))"

definition cap_covers :: "real \<Rightarrow> covering_sat \<Rightarrow> real \<times> real \<Rightarrow> bool" where
  "cap_covers cospsi s pt = (case pt of (lon, lat) \<Rightarrow>
     sin (radians lat) * sin (radians (cs_latitude s))
       + cos (radians lat) * cos (radians (cs_latitude s)) * cos (radians lon - radians (cs_longitude s)) \<ge> cospsi)"

definition caps :: "real \<Rightarrow> real \<Rightarrow> covering_sat list \<Rightarrow> (real \<times> covering_sat) list" where
  "caps R_earth_km elev_min_deg sats =
    concat (map (\<lambda>s. case cap_cosine R_earth_km (sat_altitude s) elev_min_deg of None \<Rightarrow> [] | Some c \<Rightarrow> [(c, s)]) sats)"

definition coverage_percentage_fast :: "covering_sat list \<Rightarrow> real \<Rightarrow> real \<Rightarrow> real \<Rightarrow> real \<Rightarrow> real" where
  "coverage_percentage_fast sats elev_min_deg grid_res_deg max_latitude_deg R_earth_km =
    (if sats = [] then 0
     else let cs = caps R_earth_km elev_min_deg sats
          in if cs = [] then 0
             else covered_percentage (\<lambda>pt. list_ex (\<lambda>(c, s). cap_covers c s pt) cs)
               (grid_points max_latitude_deg grid_res_deg))"

end
