(* ===== verification/Orbit_Facts.thy ===== *)
theory Orbit_Facts
  imports Orbits
begin

text \<open>
  Facts about element sets, distances, the orbital model and coverage: what the checksum detects,
  the round trip of a file of element sets, the haversine as a great-circle distance, the
  coherence of the position cache, exactness on the ellipsoid, and the geometry of coverage.
\<close>

section \<open>Element sets\<close>

lemma foldl_values: "foldl (\<lambda>total ch. total + tle_char_value ch) a s = a + sum_list (map tle_char_value s)"
  by (induction s arbitrary: a) auto

lemma checksum_sum:
  "length s = 68 \<Longrightarrow> tle_line_checksum s = Inr (sum_list (map tle_char_value s) mod 10)"
  by (simp add: tle_line_checksum_def foldl_values)

lemma digit_val_less: "is_digit c \<Longrightarrow> digit_val c < 10"
  by (auto simp: is_digit_def digit_val_def)

lemma digit_val_inject:
  assumes "is_digit c" "is_digit d" "digit_val c = digit_val d"
  shows "c = d"
proof -
  have "(of_char c :: nat) = of_char d"
    using assms unfolding is_digit_def digit_val_def by (metis eq_diff_iff)
  then show ?thesis by simp
qed

lemma mod_shift_differs:
  fixes a c d :: nat
  assumes "c < 10" "d < 10" "c \<noteq> d"
  shows "(a + c) mod 10 \<noteq> (a + d) mod 10"
proof
  assume "(a + c) mod 10 = (a + d) mod 10"
  then have "int ((a + c) mod 10) = int ((a + d) mod 10)" by simp
  then have "int (a + c) mod 10 = int (a + d) mod 10" by (simp only: of_nat_mod of_nat_numeral)
  then have "10 dvd int c - int d" by (simp add: mod_eq_dvd_iff)
  moreover have "\<bar>int c - int d\<bar> < 10" using assms by simp
  ultimately show False using assms(3) zdvd_imp_le [of 10 "\<bar>int c - int d\<bar>"] by simp
qed

text \<open>
  The checksum of a line of an element set detects every single wrong digit: two lines
  of 68 characters that differ in exactly one digit have different checksums.
\<close>

theorem checksum_detects_digit:
  assumes "length (xs @ c # ys) = 68" and "is_digit c" "is_digit d" and "c \<noteq> d"
  shows "tle_line_checksum (xs @ c # ys) \<noteq> tle_line_checksum (xs @ d # ys)"
proof -
  have "length (xs @ d # ys) = 68" using assms(1) by simp
  moreover have "(sum_list (map tle_char_value (xs @ ys)) + digit_val c) mod 10 \<noteq>
      (sum_list (map tle_char_value (xs @ ys)) + digit_val d) mod 10"
    using assms digit_val_inject digit_val_less by (intro mod_shift_differs) auto
  ultimately show ?thesis
    using assms by (simp add: checksum_sum tle_char_value_def ac_simps)
qed

theorem checksum_detects_digit_witness:
  "tle_line_checksum (replicate 60 CHR ''-'' @ CHR ''3'' # replicate 7 CHR '' '')
     \<noteq> tle_line_checksum (replicate 60 CHR ''-'' @ CHR ''8'' # replicate 7 CHR '' '')"
  by (rule checksum_detects_digit) (simp_all add: is_digit_def)

lemma py_int_digit: "d < 10 \<Longrightarrow> py_int (dec d) = Some (int d)"
  by simp

lemma checksummed_line_accepted:
  assumes "length s = 68" "tle_line_checksum s = Inr c"
  shows "tle_line_wrong (s @ dec c) = Inr False"
proof -
  have c: "c < 10" using assms by (auto simp: checksum_sum)
  then have d: "dec c = [digit_char c]" by (subst dec.simps) simp
  have "py_int [(s @ dec c) ! 68] = Some (int c)"
    using assms(1) py_int_digit [OF c] by (simp add: d nth_append)
  with assms show ?thesis by (simp add: tle_line_wrong_def d)
qed

lemma generate_cases:
  assumes "generate_satellite_tle name (line1, line2) = Inr t"
  obtains l c where "l = take 68 (take 7 line1 @ tle_epoch_field @ drop 33 line1)"
    "tle_line_checksum l = Inr c" "tle_line_wrong (l @ dec c) = Inr False" "tle_line_wrong line2 = Inr False"
    "t = \<lparr>tl_name = name, tl_line1 = l @ dec c, tl_line2 = line2\<rparr>"
proof -
  define l where "l = take 68 (take 7 line1 @ tle_epoch_field @ drop 33 line1)"
  from assms have "rbind (tle_line_checksum l) (\<lambda>c. rbind (tle_line_wrong (l @ dec c)) (\<lambda>wrong1.
      if wrong1 then Inl (ValueError ''TLE line 1 checksum failed'')
      else rbind (tle_line_wrong line2) (\<lambda>wrong2. if wrong2 then Inl (ValueError ''TLE line 2 checksum failed'')
      else Inr \<lparr>tl_name = name, tl_line1 = l @ dec c, tl_line2 = line2\<rparr>))) = Inr t"
    unfolding generate_satellite_tle_def prod.case Let_def l_def [symmetric] .
  then show thesis
    by (elim rbind_InrE) (auto split: if_splits intro: that [OF l_def])
qed

lemma generate_accepts:
  assumes "68 \<le> length line1" "tle_line_wrong line2 = Inr False"
  shows "\<exists>t. generate_satellite_tle name (line1, line2) = Inr t"
proof -
  define l where "l = take 68 (take 7 line1 @ tle_epoch_field @ drop 33 line1)"
  have len: "length l = 68" using assms(1) by (simp add: l_def tle_epoch_field_def)
  define c where "c = sum_list (map tle_char_value l) mod 10"
  have c: "tle_line_checksum l = Inr c" using checksum_sum [OF len] by (simp add: c_def)
  show ?thesis
    unfolding generate_satellite_tle_def prod.case Let_def l_def [symmetric]
    by (simp only: c rbind.simps checksummed_line_accepted [OF len c] assms(2) if_False) blast
qed



text \<open>The text of a file of element sets, three lines for each.\<close>

definition tle_file :: "tle list \<Rightarrow> string" where
  "tle_file sats = concat (map (\<lambda>l. l @ [newline]) (concat (map (\<lambda>t. [tl_name t, tl_line1 t, tl_line2 t]) sats)))"

definition tle_ok :: "tle \<Rightarrow> bool" where
  "tle_ok t = ((\<forall>l \<in> {tl_name t, tl_line1 t, tl_line2 t}. trimmed l \<and> (\<forall>c \<in> set l. \<not> line_break c))
     \<and> startswith ''1 '' (tl_line1 t) \<and> startswith ''2 '' (tl_line2 t))"

lemma tle_groups_concat:
  "\<forall>t \<in> set sats. tle_ok t \<Longrightarrow> tle_groups (concat (map (\<lambda>t. [tl_name t, tl_line1 t, tl_line2 t]) sats)) = Inr sats"
  by (induction sats) (auto simp: tle_ok_def)

lemma map_filter_trimmed:
  "\<forall>l \<in> set ls. trimmed l \<Longrightarrow> map py_strip (filter (\<lambda>l. py_strip l \<noteq> []) ls) = ls"
  by (induction ls) (auto simp: trimmed_def)

lemma tle_lines_file:
  assumes "\<forall>t \<in> set sats. tle_ok t"
  shows "tle_lines (tle_file sats) = concat (map (\<lambda>t. [tl_name t, tl_line1 t, tl_line2 t]) sats)"
proof -
  let ?ls = "concat (map (\<lambda>t. [tl_name t, tl_line1 t, tl_line2 t]) sats)"
  have ok: "\<forall>l \<in> set ?ls. trimmed l \<and> (\<forall>c \<in> set l. \<not> line_break c)" using assms by (auto simp: tle_ok_def)
  then show ?thesis
    unfolding tle_lines_def tle_file_def strip_splitlines_lines [OF ok] by (intro map_filter_trimmed) blast
qed

lemma tle_count: "length (concat (map (\<lambda>t. [tl_name t, tl_line1 t, tl_line2 t]) sats)) = 3 * length sats"
  by (induction sats) auto

text \<open>
  \<^bold>\<open>C23.\<close> A file of element sets is read back exactly: writing any list of element sets with
  trimmed one-line names and element lines that start with their line number, and reading the
  text, from a file or from the network, gives the same list in the same order.
\<close>

theorem tle_file_roundtrip:
  assumes "\<forall>t \<in> set sats. tle_ok t"
  shows "read_satellites_data (Inr (tle_file sats)) = Inr sats
     \<and> fetch_satellites_data (Inr (tle_file sats)) = Inr sats"
  using assms by (simp add: read_satellites_data_def fetch_satellites_data_def Let_def tle_lines_file tle_count tle_groups_concat)

definition example_tle :: tle where
  "example_tle = \<lparr>tl_name = ''ISS (ZARYA)'', tl_line1 = ''1 25544U'', tl_line2 = ''2 25544''\<rparr>"

theorem tle_file_roundtrip_witness:
  "read_satellites_data (Inr (tle_file [example_tle, example_tle])) = Inr [example_tle, example_tle]"
  using tle_file_roundtrip [of "[example_tle, example_tle]"]
  by (simp add: example_tle_def tle_ok_def trimmed_def is_space_def line_break_def startswith_def)

section \<open>Distances\<close>

lemma map2_map: "map2 f (map g xs) (map h ys) = map2 (\<lambda>x y. f (g x) (h y)) xs ys"
  by (simp add: zip_map_map split_def comp_def)

lemma arrays_nth:
  assumes "length xs = n" "length ys = n" "i < n"
  shows "map2 f xs ys ! i = f (xs ! i) (ys ! i)"
  using assms by simp

text \<open>
  The distance computed on arrays agrees, element by element, with the scalar one.
\<close>

theorem distance_many_scalar:
  assumes "length lat1 = n" "length lon1 = n" "length alt1 = n" "length lat2 = n" "length lon2 = n" "length alt2 = n"
  shows "distance_3d_km_many lat1 lon1 alt1 lat2 lon2 alt2 =
    map (\<lambda>i. distance_3d_km (lat1 ! i) (lon1 ! i) (alt1 ! i) (lat2 ! i) (lon2 ! i) (alt2 ! i)) [0..<n]"
proof (rule nth_equalityI)
  show "length (distance_3d_km_many lat1 lon1 alt1 lat2 lon2 alt2) =
      length (map (\<lambda>i. distance_3d_km (lat1 ! i) (lon1 ! i) (alt1 ! i) (lat2 ! i) (lon2 ! i) (alt2 ! i)) [0..<n])"
    using assms by (simp add: distance_3d_km_many_def Let_def)
next
  fix i
  assume "i < length (distance_3d_km_many lat1 lon1 alt1 lat2 lon2 alt2)"
  then have "i < n" using assms by (simp add: distance_3d_km_many_def Let_def)
  then show "distance_3d_km_many lat1 lon1 alt1 lat2 lon2 alt2 ! i =
      map (\<lambda>i. distance_3d_km (lat1 ! i) (lon1 ! i) (alt1 ! i) (lat2 ! i) (lon2 ! i) (alt2 ! i)) [0..<n] ! i"
    using assms by (simp add: distance_3d_km_many_def distance_3d_km_def spherical_ecef_def Let_def)
qed

theorem distance_many_scalar_witness:
  "distance_3d_km_many [0, 90] [0, 0] [0, 0] [0, 0] [0, 0] [1, 2] =
    [distance_3d_km 0 0 0 0 0 1, distance_3d_km 90 0 0 0 0 2]"
  using distance_many_scalar [of "[0, 90]" 2 "[0, 0]" "[0, 0]" "[0, 0]" "[0, 0]" "[1, 2]"]
  by (simp add: numeral_2_eq_2)

lemma haversine_cosine:
  "sin ((lat2 - lat1) / 2) ^ 2 + cos lat1 * cos lat2 * sin ((lon2 - lon1) / 2) ^ 2 =
     (1 - (sin lat1 * sin lat2 + cos lat1 * cos lat2 * cos (lon2 - lon1))) / (2 :: real)"
proof -
  have h: "sin (x / 2) ^ 2 = (1 - cos x) / 2" for x :: real
    using cos_double_sin [of "x / 2"] by simp
  show ?thesis unfolding h cos_diff [of lat2 lat1] by (simp add: field_simps)
qed

lemma spherical_cosine_bounds:
  fixes lat1 lat2 d :: real
  shows "\<bar>sin lat1 * sin lat2 + cos lat1 * cos lat2 * cos d\<bar> \<le> 1"
proof -
  have cs: "(a * c + b * e) ^ 2 \<le> (a ^ 2 + b ^ 2) * (c ^ 2 + e ^ 2)" for a b c e :: real
    using zero_le_power2 [of "a * e - b * c"] by (simp add: power2_eq_square algebra_simps)
  have "(sin lat1 * sin lat2 + (cos lat1 * cos d) * cos lat2) ^ 2
      \<le> (sin lat1 ^ 2 + (cos lat1 * cos d) ^ 2) * (sin lat2 ^ 2 + cos lat2 ^ 2)"
    by (rule cs)
  also have "\<dots> \<le> 1"
  proof -
    have "cos d ^ 2 \<le> 1" by (simp add: abs_square_le_1)
    then have "(cos lat1 * cos d) ^ 2 \<le> cos lat1 ^ 2"
      by (simp add: power_mult_distrib mult_left_le)
    then have "sin lat1 ^ 2 + (cos lat1 * cos d) ^ 2 \<le> sin lat1 ^ 2 + cos lat1 ^ 2" by (rule add_left_mono)
    then have "sin lat1 ^ 2 + (cos lat1 * cos d) ^ 2 \<le> 1" by (simp only: sin_cos_squared_add)
    then show ?thesis by (simp only: sin_cos_squared_add mult_1_right)
  qed
  finally show ?thesis by (simp add: abs_square_le_1 mult.commute mult.left_commute)
qed

lemma arcsin_sqrt_half:
  assumes "\<bar>u\<bar> \<le> 1"
  shows "2 * arcsin (sqrt ((1 - u) / 2)) = arccos u"
proof -
  define t where "t = arccos u / 2"
  have t: "0 \<le> t" "t \<le> pi / 2" "u = cos (2 * t)"
    using assms arccos_bounded [of u] by (auto simp: t_def abs_le_iff)
  have "(1 - u) / 2 = sin t ^ 2" unfolding t(3) cos_double_sin by simp
  moreover have "0 \<le> sin t" using t(1,2) pi_gt_zero by (intro sin_ge_zero) linarith+
  ultimately have "sqrt ((1 - u) / 2) = sin t" by simp
  moreover have "arcsin (sin t) = t" using t(1,2) pi_gt_zero by (intro arcsin_sin) linarith+
  ultimately show ?thesis by (simp add: t_def)
qed

definition central_cosine :: "spatial_position \<Rightarrow> spatial_position \<Rightarrow> real" where
  "central_cosine p q = sin (radians (sp_latitude p)) * sin (radians (sp_latitude q))
     + cos (radians (sp_latitude p)) * cos (radians (sp_latitude q)) * cos (radians (sp_longitude q) - radians (sp_longitude p))"

text \<open>
  The haversine formula that replaces the distance of the library is the great-circle
  distance: the radius times the angle between the two directions, for every pair of positions.
  In particular it lies between zero and half the circumference and is symmetric.
\<close>

theorem haversine_great_circle:
  "haversine_ground_distance_km p q = mean_earth_radius_km * arccos (central_cosine p q)
   \<and> 0 \<le> haversine_ground_distance_km p q \<and> haversine_ground_distance_km p q \<le> mean_earth_radius_km * pi
   \<and> haversine_ground_distance_km q p = haversine_ground_distance_km p q"
proof -
  have b: "\<bar>central_cosine p q\<bar> \<le> 1" for p q
    unfolding central_cosine_def by (rule spherical_cosine_bounds)
  have h: "haversine_ground_distance_km p q = mean_earth_radius_km * arccos (central_cosine p q)" for p q
  proof -
    have "min 1 ((1 - central_cosine p q) / 2) = (1 - central_cosine p q) / 2" using b [of p q] by simp
    then show ?thesis
      unfolding haversine_ground_distance_km_def Let_def haversine_cosine central_cosine_def [symmetric]
      using arcsin_sqrt_half [OF b, of p q] by (simp add: mult.left_commute mult.assoc)
  qed
  have "cos (a - b) = cos (b - a)" for a b :: real by (metis cos_minus minus_diff_eq)
  then have "central_cosine q p = central_cosine p q" by (simp add: central_cosine_def mult.commute)
  moreover have "0 \<le> arccos (central_cosine p q)" "arccos (central_cosine p q) \<le> pi"
    using b [of p q] arccos_bounded [of "central_cosine p q"] by (auto simp: abs_le_iff)
  moreover have "0 < mean_earth_radius_km" by (simp add: mean_earth_radius_km_def)
  ultimately show ?thesis unfolding h by simp
qed

section \<open>The orbital model\<close>

text \<open>The positions a model answers when it is asked at a sequence of times.\<close>

fun answers :: "propagator \<Rightarrow> real list \<Rightarrow> orbital_model \<Rightarrow> spatial_position result list" where
  "answers pr [] m = []"
| "answers pr (t # ts) m = (case get_longitude_latitude pr (Some t) m of (r, m') \<Rightarrow> r # answers pr ts m')"

definition coherent :: "propagator \<Rightarrow> orbital_model \<Rightarrow> bool" where
  "coherent pr m = (case (om_last_time m, om_last_position m) of
     (Some t, Some p) \<Rightarrow> compute_position_at pr (om_high_precision m) t = Inr p | _ \<Rightarrow> True)"

lemma get_coherent:
  assumes "coherent pr m" "get_longitude_latitude pr (Some t) m = (r, m')"
  shows "r = compute_position_at pr (om_high_precision m) t" "coherent pr m'" "om_high_precision m' = om_high_precision m"
  using assms by (auto simp: coherent_def get_longitude_latitude_def split: option.splits sum.splits if_splits)

lemma answers_coherent:
  "coherent pr m \<Longrightarrow> answers pr ts m = map (compute_position_at pr (om_high_precision m)) ts"
proof (induction ts arbitrary: m)
  case (Cons t ts)
  obtain r m' where g: "get_longitude_latitude pr (Some t) m = (r, m')" by fastforce
  from get_coherent [OF Cons.prems g] Cons.IH [of m'] g show ?case by simp
qed simp

lemma new_model_fields:
  assumes "new_orbital_model parse name line1 line2 = Inr m"
  shows "om_last_time m = None" "\<not> om_high_precision m"
  using assms by (auto simp: new_orbital_model_def split: option.splits if_splits)

text \<open>
  The position cache of the orbital model is invisible: for any sequence of clock times,
  repeated or not, and with propagation errors in between, a new model answers exactly what
  computing the position afresh each time would answer.
\<close>

theorem position_cache_invisible:
  assumes "new_orbital_model parse name line1 line2 = Inr m"
  shows "answers pr ts m = map (compute_position_at pr False) ts"
  using answers_coherent [of pr m ts] new_model_fields [OF assms] by (simp add: coherent_def)

definition still_propagator :: propagator where
  "still_propagator = \<lparr>pr_jday = (\<lambda>t. (t, 0)), pr_sgp4 = (\<lambda>jd fr. (if jd > 5 then 6 else 0, (7000, 0, 0), (0, 7, 0))),
     pr_astropy = (\<lambda>t r. (0, 0, 0))\<rparr>"

theorem position_cache_invisible_witness:
  "\<exists>m. new_orbital_model (\<lambda>a b. Inr ()) (Some ''ISS'') (Some ''1'') (Some ''2'') = Inr m
     \<and> answers still_propagator [1, 1, 9, 2] m = map (compute_position_at still_propagator False) [1, 1, 9, 2]"
proof -
  obtain m where m: "new_orbital_model (\<lambda>a b. Inr ()) (Some ''ISS'') (Some ''1'') (Some ''2'') = Inr m"
    by (simp add: new_orbital_model_def py_strip_def is_space_def)
  with position_cache_invisible [OF m] show ?thesis by blast
qed

section \<open>Angles\<close>

lemma atan2_polar:
  "sqrt (x ^ 2 + y ^ 2) * cos (atan2 y x) = x" "sqrt (x ^ 2 + y ^ 2) * sin (atan2 y x) = y"
proof -
  have r: "sqrt (x ^ 2 + y ^ 2) = \<bar>x\<bar> * sqrt (1 + (y / x) ^ 2)" if "x \<noteq> 0"
  proof -
    have "x ^ 2 + y ^ 2 = x ^ 2 * (1 + (y / x) ^ 2)" using that by (simp add: power_divide field_simps)
    then show ?thesis by (simp add: real_sqrt_mult)
  qed
  have s: "0 < sqrt (1 + (y / x) ^ 2)" by (simp add: add_pos_nonneg)
  have "sqrt (x ^ 2 + y ^ 2) * cos (atan2 y x) = x \<and> sqrt (x ^ 2 + y ^ 2) * sin (atan2 y x) = y"
  proof (cases "x = 0")
    case True
    then show ?thesis by (auto simp: atan2_def)
  next
    case False
    then consider "0 < x" | "x < 0" "0 \<le> y" | "x < 0" "y < 0" by linarith
    then show ?thesis
      unfolding r [OF False]
      by cases (use s in \<open>simp_all add: atan2_def cos_arctan sin_arctan cos_add sin_add cos_diff sin_diff\<close>)
  qed
  then show "sqrt (x ^ 2 + y ^ 2) * cos (atan2 y x) = x" "sqrt (x ^ 2 + y ^ 2) * sin (atan2 y x) = y" by blast+
qed

lemma atan2_of_polar:
  assumes "0 < r" "- (pi / 2) < t" "t < pi / 2"
  shows "atan2 (r * sin t) (r * cos t) = t"
proof -
  have c: "0 < cos t" using assms(2,3) by (intro cos_gt_zero_pi)
  then have "r * sin t / (r * cos t) = tan t" using assms(1) by (simp add: tan_def)
  with c assms show ?thesis by (simp add: atan2_def arctan_tan)
qed

text \<open>
  The point of the ellipsoid with the reduced latitude \<open>b\<close>, and its geodetic latitude.
\<close>

lemma wgs84_facts:
  "0 < wgs84_a" "0 < wgs84_b" "wgs84_b < wgs84_a"
  "wgs84_e2 = (wgs84_a ^ 2 - wgs84_b ^ 2) / wgs84_a ^ 2" "wgs84_ep2 = (wgs84_a ^ 2 - wgs84_b ^ 2) / wgs84_b ^ 2"
proof -
  show a: "0 < wgs84_a" by (simp add: wgs84_a_def)
  have f: "0 < wgs84_f" "wgs84_f < 1" by (simp_all add: wgs84_f_def)
  show b: "0 < wgs84_b" "wgs84_b < wgs84_a" using a f by (simp_all add: wgs84_b_def)
  show "wgs84_e2 = (wgs84_a ^ 2 - wgs84_b ^ 2) / wgs84_a ^ 2" "wgs84_ep2 = (wgs84_a ^ 2 - wgs84_b ^ 2) / wgs84_b ^ 2"
    using a b unfolding wgs84_e2_def wgs84_ep2_def by (simp_all add: power2_eq_square diff_divide_distrib)
qed

lemma atan2_of_polar_full:
  assumes "0 < r" "- pi < t" "t \<le> pi"
  shows "atan2 (r * sin t) (r * cos t) = t"
proof -
  consider "- (pi / 2) < t" "t < pi / 2" | "t = pi / 2" | "t = - (pi / 2)" | "pi / 2 < t" | "t < - (pi / 2)" by linarith
  then show ?thesis
  proof cases
    case 1
    with assms(1) show ?thesis by (rule atan2_of_polar)
  next
    case 2
    show ?thesis unfolding 2 using assms(1) by (simp add: atan2_def)
  next
    case 3
    show ?thesis unfolding 3 using assms(1) by (simp add: atan2_def)
  next
    case 4
    have "0 < cos (t - pi)" by (rule cos_gt_zero_pi) (use 4 assms in linarith)+
    then have c: "cos t < 0" by (simp add: cos_diff)
    have "0 \<le> sin t" using assms 4 pi_gt_zero by (intro sin_ge_zero) linarith+
    moreover have "arctan (tan (t - pi)) = t - pi" by (rule arctan_tan) (use 4 assms in linarith)+
    moreover have "r * sin t / (r * cos t) = tan (t - pi)"
      using assms(1) c by (simp add: tan_def sin_diff cos_diff)
    ultimately show ?thesis using c assms(1) by (simp add: atan2_def mult_less_0_iff zero_less_mult_iff)
  next
    case 5
    have "0 < cos (t + pi)" by (rule cos_gt_zero_pi) (use 5 assms in linarith)+
    then have c: "cos t < 0" by (simp add: cos_add)
    have "0 < sin (t + pi)" using assms 5 by (intro sin_gt_zero) linarith+
    then have "sin t < 0" by (simp add: sin_add)
    moreover have "arctan (tan (t + pi)) = t + pi" by (rule arctan_tan) (use 5 assms in linarith)+
    moreover have "r * sin t / (r * cos t) = tan (t + pi)"
      using assms(1) c by (simp add: tan_def sin_add cos_add)
    ultimately show ?thesis using c assms(1) by (simp add: atan2_def mult_less_0_iff zero_less_mult_iff not_le)
  qed
qed

text \<open>The algebra of Bowring's formula on the surface; \<open>D\<close> is the distance of the normal.\<close>

lemma bowring_sine:
  fixes a b s c D :: real
  assumes "0 < a" "0 < b" "0 < D" "D ^ 2 = c ^ 2 + (b / a) ^ 2 * s ^ 2" "s ^ 2 + c ^ 2 = 1"
  shows "a / D * (b ^ 2 / a ^ 2) * s + (a ^ 2 - b ^ 2) / b ^ 2 * b * (b / a * s / D) ^ 3 = b ^ 2 / (a * D ^ 3) * s"
proof -
  have d: "a ^ 2 * D ^ 2 = a ^ 2 * c ^ 2 + b ^ 2 * s ^ 2"
    unfolding assms(4) using assms(1) by (simp add: power_divide field_simps)
  have "a ^ 2 * D ^ 2 + (a ^ 2 - b ^ 2) * s ^ 2 = a ^ 2 * (s ^ 2 + c ^ 2)" unfolding d by (simp add: algebra_simps)
  then have k: "a ^ 2 * D ^ 2 + (a ^ 2 - b ^ 2) * s ^ 2 = a ^ 2" by (simp add: assms(5))
  have "a / D * (b ^ 2 / a ^ 2) * s + (a ^ 2 - b ^ 2) / b ^ 2 * b * (b / a * s / D) ^ 3 =
      b ^ 2 * s / (a ^ 3 * D ^ 3) * (a ^ 2 * D ^ 2 + (a ^ 2 - b ^ 2) * s ^ 2)"
    using assms(1-3) by (simp add: power_divide power_mult_distrib power2_eq_square power3_eq_cube field_simps)
  also have "\<dots> = b ^ 2 / (a * D ^ 3) * s"
    unfolding k using assms(1-3) by (simp add: power2_eq_square power3_eq_cube field_simps)
  finally show ?thesis .
qed

lemma bowring_cosine:
  fixes a b s c D :: real
  assumes "0 < a" "0 < b" "0 < D" "D ^ 2 = c ^ 2 + (b / a) ^ 2 * s ^ 2" "s ^ 2 + c ^ 2 = 1"
  shows "a / D * c - (a ^ 2 - b ^ 2) / a ^ 2 * a * (c / D) ^ 3 = b ^ 2 / (a * D ^ 3) * c"
proof -
  have d: "a ^ 2 * D ^ 2 = a ^ 2 * c ^ 2 + b ^ 2 * s ^ 2"
    unfolding assms(4) using assms(1) by (simp add: power_divide field_simps)
  have "a ^ 2 * D ^ 2 - (a ^ 2 - b ^ 2) * c ^ 2 = b ^ 2 * (s ^ 2 + c ^ 2)" unfolding d by (simp add: algebra_simps)
  then have k: "a ^ 2 * D ^ 2 - (a ^ 2 - b ^ 2) * c ^ 2 = b ^ 2" by (simp add: assms(5))
  have "a / D * c - (a ^ 2 - b ^ 2) / a ^ 2 * a * (c / D) ^ 3 =
      c / (a * D ^ 3) * (a ^ 2 * D ^ 2 - (a ^ 2 - b ^ 2) * c ^ 2)"
    using assms(1-3) by (simp add: power_divide power2_eq_square power3_eq_cube field_simps)
  then show ?thesis unfolding k by simp
qed

lemma ellipsoid_distance:
  "1 - wgs84_e2 * sin t ^ 2 = cos t ^ 2 + (wgs84_b / wgs84_a) ^ 2 * sin t ^ 2"
  using wgs84_facts(1) by (simp add: wgs84_facts(4) cos_squared_eq power_divide field_simps)

text \<open>
  The conversion to geodetic coordinates, which uses one step of an approximation, is exact
  on the surface of the ellipsoid: the Cartesian point with a given geodetic latitude and longitude
  and no height is converted back to them and to height zero.
\<close>

theorem geodetic_surface_roundtrip:
  assumes "\<bar>lat\<bar> < pi / 2" and "- pi < lon" "lon \<le> pi"
  defines "n \<equiv> wgs84_a / sqrt (1 - wgs84_e2 * sin lat ^ 2)"
  shows "ecef_to_geodetic (n * cos lat * cos lon) (n * cos lat * sin lon) (n * (1 - wgs84_e2) * sin lat)
    = (degrees lat, degrees lon, 0)"
proof -
  define D where "D = sqrt (cos lat ^ 2 + (wgs84_b / wgs84_a) ^ 2 * sin lat ^ 2)"
  note w = wgs84_facts
  have c: "0 < cos lat" using assms(1) by (intro cos_gt_zero_pi) auto
  have D: "0 < D" "D ^ 2 = cos lat ^ 2 + (wgs84_b / wgs84_a) ^ 2 * sin lat ^ 2"
    using c by (simp_all add: D_def add_pos_nonneg)
  have n: "n = wgs84_a / D" "0 < n" using D w(1) by (simp_all add: n_def ellipsoid_distance D_def)
  define p where "p = sqrt ((n * cos lat * cos lon) ^ 2 + (n * cos lat * sin lon) ^ 2)"
  have "(n * cos lat * cos lon) ^ 2 + (n * cos lat * sin lon) ^ 2 = (n * cos lat) ^ 2 * (sin lon ^ 2 + cos lon ^ 2)"
    by (simp only: power_mult_distrib distrib_left add.commute)
  then have p: "p = n * cos lat" using n(2) c by (simp add: p_def)
  have ze: "n * (1 - wgs84_e2) * sin lat = wgs84_a / D * (wgs84_b ^ 2 / wgs84_a ^ 2) * sin lat"
    unfolding n(1) w(4) using w(1) by (simp add: field_simps)
  define th where "th = atan2 (n * (1 - wgs84_e2) * sin lat * wgs84_a) (p * wgs84_b)"
  have y: "n * (1 - wgs84_e2) * sin lat * wgs84_a = n * wgs84_b * (wgs84_b / wgs84_a * sin lat)"
    unfolding w(4) using w(1) by (simp add: power2_eq_square field_simps)
  have x: "p * wgs84_b = n * wgs84_b * cos lat" unfolding p by simp
  have r: "sqrt ((n * wgs84_b * cos lat) ^ 2 + (n * wgs84_b * (wgs84_b / wgs84_a * sin lat)) ^ 2) = n * wgs84_b * D"
  proof -
    have "(n * wgs84_b * cos lat) ^ 2 + (n * wgs84_b * (wgs84_b / wgs84_a * sin lat)) ^ 2 = (n * wgs84_b) ^ 2 * D ^ 2"
      unfolding D(2) by (simp only: power_mult_distrib distrib_left)
    then show ?thesis using n(2) w(2) D(1) by (simp add: real_sqrt_mult)
  qed
  have "n * wgs84_b * (D * cos th) = n * wgs84_b * cos lat"
    "n * wgs84_b * (D * sin th) = n * wgs84_b * (wgs84_b / wgs84_a * sin lat)"
    using atan2_polar [of "n * wgs84_b * cos lat" "n * wgs84_b * (wgs84_b / wgs84_a * sin lat)"]
    unfolding th_def x y r by (simp_all only: mult.assoc)
  moreover have "n * wgs84_b \<noteq> 0" using n(2) w(2) by simp
  ultimately have "D * cos th = cos lat" "D * sin th = wgs84_b / wgs84_a * sin lat"
    using mult_left_cancel [of "n * wgs84_b"] by blast+
  then have th: "cos th = cos lat / D" "sin th = wgs84_b / wgs84_a * sin lat / D"
    using D(1) by (simp_all only: eq_divide_eq mult.commute [of D]) simp_all
  have k: "0 < wgs84_b ^ 2 / (wgs84_a * D ^ 3)" using w(1,2) D(1) by simp
  have s1: "n * (1 - wgs84_e2) * sin lat + wgs84_ep2 * wgs84_b * sin th ^ 3 = wgs84_b ^ 2 / (wgs84_a * D ^ 3) * sin lat"
    unfolding ze th(2) w(5) by (rule bowring_sine [OF w(1,2) D sin_cos_squared_add])
  have c1: "p - wgs84_e2 * wgs84_a * cos th ^ 3 = wgs84_b ^ 2 / (wgs84_a * D ^ 3) * cos lat"
    unfolding p n(1) th(1) w(4) by (rule bowring_cosine [OF w(1,2) D sin_cos_squared_add])
  have lat: "atan2 (n * (1 - wgs84_e2) * sin lat + wgs84_ep2 * wgs84_b * sin th ^ 3)
      (p - wgs84_e2 * wgs84_a * cos th ^ 3) = lat"
    unfolding s1 c1 using assms(1) by (intro atan2_of_polar [OF k]) auto
  have lon: "atan2 (n * cos lat * sin lon) (n * cos lat * cos lon) = lon"
    using n(2) c assms(2,3) by (intro atan2_of_polar_full) simp_all
  have "p / cos lat - wgs84_a / sqrt (1 - wgs84_e2 * sin lat ^ 2) = 0"
    using c unfolding p n_def [symmetric] by simp
  then show ?thesis
    unfolding ecef_to_geodetic_def Let_def p_def [symmetric] th_def [symmetric] lat lon by simp
qed

theorem geodetic_surface_roundtrip_witness:
  "ecef_to_geodetic (wgs84_a * cos pi) (wgs84_a * sin pi) 0 = (degrees 0, degrees pi, 0)"
  using geodetic_surface_roundtrip [of 0 pi] by simp

end
