(* ===== verification/Coverage_Facts.thy ===== *)
theory Coverage_Facts
  imports Orbit_Facts
begin

text \<open>
  Facts about coverage: the angle of the covered cap is the one at which the satellite is seen
  at the minimum elevation, the ring of \<open>coverage_ring_from_elevation\<close> is the rim of that cap,
  the half-cone angle solves the same triangle, and the percentage of covered cells is monotone
  and lies between 0 and 100.
\<close>

section \<open>The covered cap\<close>

text \<open>The angle in the triangle of the centre of the Earth, a point of the ground that sees the
  satellite at the elevation \<open>e\<close>, and the satellite; \<open>k\<close> is the ratio of the radii.\<close>

definition cap_angle :: "real \<Rightarrow> real \<Rightarrow> real" where
  "cap_angle k e = arccos (k * cos e) - e"

lemma cap_angle_range:
  assumes "0 < k" "k \<le> 1" "0 \<le> e" "e < pi / 2"
  shows "0 \<le> cap_angle k e" "cap_angle k e + e \<le> pi / 2" "cos (cap_angle k e + e) = k * cos e"
proof -
  have c: "0 < cos e" using assms(3,4) by (intro cos_gt_zero_pi) auto
  then have m: "0 \<le> k * cos e" "k * cos e \<le> 1"
    using assms(1,2) by (simp_all add: mult_le_one)
  show "cap_angle k e + e \<le> pi / 2" using arccos_le_pi2 [OF m] by (simp add: cap_angle_def)
  show "cos (cap_angle k e + e) = k * cos e" using m by (simp add: cap_angle_def cos_arccos)
  have "e = arccos (cos e)" using assms(3,4) pi_gt_zero by (intro arccos_cos [symmetric]) linarith+
  also have "\<dots> \<le> arccos (k * cos e)" using m assms(2) c by (intro arccos_le_arccos) auto
  finally show "0 \<le> cap_angle k e" by (simp add: cap_angle_def)
qed

lemma cap_angle_sees:
  assumes "0 < k" "k \<le> 1" "0 \<le> e" "e < pi / 2" "0 \<le> g" "g \<le> pi"
  shows "k * cos e \<le> cos (g + e) \<longleftrightarrow> g \<le> cap_angle k e"
proof -
  note r = cap_angle_range [OF assms(1-4)]
  have pos: "0 < k * cos e" using assms(1,3,4) by (intro mult_pos_pos cos_gt_zero_pi) auto
  show ?thesis
  proof
    assume le: "k * cos e \<le> cos (g + e)"
    show "g \<le> cap_angle k e"
    proof (rule ccontr)
      assume "\<not> g \<le> cap_angle k e"
      then have g: "cap_angle k e + e < g + e" by simp
      show False
      proof (cases "g + e \<le> pi")
        case True
        then have "cos (g + e) < cos (cap_angle k e + e)"
          using g r(1) assms(3) by (intro cos_monotone_0_pi) auto
        with le r(3) show False by simp
      next
        case False
        then have "0 \<le> cos (g + e - pi)" using assms(4,6) by (intro cos_ge_zero) auto
        then have "cos (g + e) \<le> 0" by (simp add: cos_diff)
        with le pos show False by simp
      qed
    qed
  next
    assume "g \<le> cap_angle k e"
    then have "cos (cap_angle k e + e) \<le> cos (g + e)"
      using r(2) assms(3,5) pi_gt_zero by (intro cos_monotone_0_pi_le) linarith+
    with r(3) show "k * cos e \<le> cos (g + e)" by simp
  qed
qed

lemma cap_cosine_angle:
  assumes "0 < R" "0 \<le> h" "0 \<le> e" "e < 90"
  shows "cap_cosine R h e = Some (cos (cap_angle (R / (R + h)) (radians e)))"
proof -
  define \<epsilon> where "\<epsilon> = radians e"
  define r where "r = R + h"
  have r: "0 < r" "R \<le> r" using assms(1,2) by (simp_all add: r_def)
  have e: "0 \<le> \<epsilon>" "\<epsilon> < pi / 2" using assms(3,4) by (simp_all add: \<epsilon>_def radians_def)
  have c: "0 < cos \<epsilon>" "cos \<epsilon> \<le> 1" using e by (auto intro: cos_gt_zero_pi)
  define m where "m = R / r * cos \<epsilon>"
  have "R / r \<le> 1" using r by simp
  then have m: "0 \<le> m" "m \<le> 1"
    unfolding m_def using r assms(1) c by (simp, intro mult_le_one) auto
  have d: "r * r - (R * cos \<epsilon>) ^ 2 = r ^ 2 * (1 - m ^ 2)"
    using r by (simp add: m_def power_divide power_mult_distrib power2_eq_square field_simps)
  have m2: "m ^ 2 \<le> 1" using m by (simp add: power_le_one)
  then have nn: "\<not> r * r - (R * cos \<epsilon>) ^ 2 < 0" unfolding d using r by (simp add: zero_le_mult_iff not_less)
  have "sqrt (r * r - (R * cos \<epsilon>) ^ 2) = r * sqrt (1 - m ^ 2)" unfolding d using r by (simp add: real_sqrt_mult)
  then have "(R * cos \<epsilon> ^ 2 + sin \<epsilon> * sqrt (r * r - (R * cos \<epsilon>) ^ 2)) / r = m * cos \<epsilon> + sqrt (1 - m ^ 2) * sin \<epsilon>"
    using r by (simp add: m_def power2_eq_square field_simps)
  also have "\<dots> = cos (cap_angle (R / r) \<epsilon>)"
    unfolding cap_angle_def m_def [symmetric] using m by (simp add: cos_diff cos_arccos sin_arccos)
  finally show ?thesis
    unfolding cap_cosine_def Let_def \<epsilon>_def [symmetric] r_def [symmetric] using nn by simp
qed

text \<open>
  \<^bold>\<open>C24.\<close> A point of the ground lies in the covered cap exactly when the satellite is seen from it
  at the minimum elevation or above: for every central angle between the point and the subpoint of
  the satellite, the comparison of cosines that the coverage makes agrees with the elevation angle,
  computed from the central angle as in the link budget.
\<close>

theorem cap_is_elevation_mask:
  assumes "0 < R" "0 \<le> h" "0 \<le> e" "e < 90" and "0 < g" "g < pi"
  shows "\<exists>c. cap_cosine R h e = Some c
    \<and> (c \<le> cos g \<longleftrightarrow> e \<le> arctan ((cos g - R / (R + h)) / sin g) * 180 / pi)"
proof -
  define \<epsilon> where "\<epsilon> = radians e"
  define k where "k = R / (R + h)"
  have k: "0 < k" "k \<le> 1" using assms(1,2) by (simp_all add: k_def)
  have e: "0 \<le> \<epsilon>" "\<epsilon> < pi / 2" using assms(3,4) by (simp_all add: \<epsilon>_def radians_def)
  have c: "0 < cos \<epsilon>" using e by (auto intro: cos_gt_zero_pi)
  have s: "0 < sin g" using assms(5,6) by (intro sin_gt_zero)
  note r = cap_angle_range [OF k e]
  have "e \<le> arctan ((cos g - k) / sin g) * 180 / pi \<longleftrightarrow> \<epsilon> \<le> arctan ((cos g - k) / sin g)"
    by (simp add: \<epsilon>_def radians_def field_simps)
  also have "\<dots> \<longleftrightarrow> arctan (tan \<epsilon>) \<le> arctan ((cos g - k) / sin g)"
    using e pi_gt_zero by (subst arctan_tan) linarith+
  also have "\<dots> \<longleftrightarrow> tan \<epsilon> \<le> (cos g - k) / sin g" by (rule arctan_le_iff)
  also have "\<dots> \<longleftrightarrow> k * cos \<epsilon> \<le> cos (g + \<epsilon>)"
    using s c by (simp add: tan_def cos_add pos_le_divide_eq pos_divide_le_eq field_simps)
  also have "\<dots> \<longleftrightarrow> g \<le> cap_angle k \<epsilon>" using cap_angle_sees [OF k e] assms(5,6) by simp
  also have "\<dots> \<longleftrightarrow> cos (cap_angle k \<epsilon>) \<le> cos g"
    using r(1,2) e(1) assms(5,6) pi_gt_zero by (intro cos_mono_le_eq [symmetric]) linarith+
  finally show ?thesis using cap_cosine_angle [OF assms(1-4)] unfolding \<epsilon>_def [symmetric] k_def [symmetric] by simp
qed

theorem cap_is_elevation_mask_witness:
  "\<exists>c. cap_cosine 6371 550 10 = Some c
    \<and> (c \<le> cos (1 / 10) \<longleftrightarrow> 10 \<le> arctan ((cos (1 / 10) - 6371 / (6371 + 550)) / sin (1 / 10)) * 180 / pi)"
  by (rule cap_is_elevation_mask) (use pi_ge_two in simp_all)

definition semi_major_axis :: "real \<Rightarrow> real" where
  "semi_major_axis n = (3986004418 / 10 ^ 4 / (n * 2 * pi / 86400) ^ 2) powr (1 / 3)"

lemma arcsin_arccos:
  assumes "\<bar>x\<bar> \<le> 1"
  shows "arcsin x = pi / 2 - arccos x"
proof -
  have "sin (pi / 2 - arccos x) = x" using assms by (simp add: sin_diff cos_arccos)
  moreover have "- (pi / 2) \<le> pi / 2 - arccos x" "pi / 2 - arccos x \<le> pi / 2"
    using assms arccos_bounded [of x] by (auto simp: abs_le_iff)
  ultimately show ?thesis using arcsin_sin by metis
qed

text \<open>
  The half-cone angle is the angle of the same triangle: for an orbit above the surface
  it equals the angle of the covered cap for the radius of the Earth and the semi-major axis of the
  given mean motion, so the satellite at that central angle stands at the minimum elevation; it lies
  between zero and the complement of the minimum elevation.
\<close>

theorem half_cone_is_cap_angle:
  assumes "0 < n" "0 \<le> e" "e < 90" and "6378137 / 1000 \<le> semi_major_axis n"
  shows "get_half_cone_angle n e = Inr (degrees (cap_angle (6378137 / 1000 / semi_major_axis n) (radians e)))
    \<and> 0 \<le> degrees (cap_angle (6378137 / 1000 / semi_major_axis n) (radians e))
    \<and> degrees (cap_angle (6378137 / 1000 / semi_major_axis n) (radians e)) \<le> 90 - e"
proof -
  define k where "k = 6378137 / 1000 / semi_major_axis n"
  define \<epsilon> where "\<epsilon> = radians e"
  have a: "0 < semi_major_axis n" using assms(4) by linarith
  then have k: "0 < k" "k \<le> 1" using assms(4) by (simp_all add: k_def)
  have e: "0 \<le> \<epsilon>" "\<epsilon> < pi / 2" using assms(2,3) by (simp_all add: \<epsilon>_def radians_def)
  note r = cap_angle_range [OF k e]
  have "sin (radians (90 + e)) = cos \<epsilon>" by (simp add: radians_def \<epsilon>_def distrib_right add_divide_distrib sin_add)
  then have ratio: "6378137 / 1000 * sin (radians (90 + e)) / semi_major_axis n = k * cos \<epsilon>" by (simp add: k_def)
  have b: "\<bar>k * cos \<epsilon>\<bar> \<le> 1" using r(3) abs_cos_le_one by metis
  then have clip: "max (- 1) (min 1 (k * cos \<epsilon>)) = k * cos \<epsilon>" by (auto simp: abs_le_iff)
  have "90 - e - degrees (arcsin (k * cos \<epsilon>)) = degrees (cap_angle k \<epsilon>)"
    unfolding arcsin_arccos [OF b] by (simp add: degrees_def cap_angle_def \<epsilon>_def radians_def field_simps)
  then have "get_half_cone_angle n e = Inr (degrees (cap_angle k \<epsilon>))"
    using assms(1) unfolding get_half_cone_angle_def Let_def semi_major_axis_def [symmetric] ratio clip by simp
  moreover have "0 \<le> degrees (cap_angle k \<epsilon>)" using r(1) by (simp add: degrees_def)
  moreover have "degrees (cap_angle k \<epsilon>) \<le> 90 - e"
  proof -
    have "(cap_angle k \<epsilon> + \<epsilon>) * 180 \<le> pi / 2 * 180" using r(2) by (intro mult_right_mono) auto
    then show ?thesis by (simp add: degrees_def \<epsilon>_def radians_def field_simps)
  qed
  ultimately show ?thesis unfolding k_def \<epsilon>_def by blast
qed

lemma semi_major_axis_low_orbit: "6378137 / 1000 \<le> semi_major_axis 10"
proof -
  have "pi \<le> 4" using pi_less_4 by simp
  then have p: "pi ^ 2 \<le> 16" using power_mono [of pi 4 2] by simp
  have "(6378137 / 1000) ^ 3 \<le> (3986004418 / 10 ^ 4 / (10 * 2 * pi / 86400) ^ 2 :: real)"
  proof -
    have "(10 * 2 * pi / 86400) ^ 2 \<le> (16 * 400 / 86400 ^ 2 :: real)"
      using p by (simp add: power_divide power_mult_distrib)
    then have "(3986004418 / 10 ^ 4 :: real) / (16 * 400 / 86400 ^ 2) \<le> 3986004418 / 10 ^ 4 / (10 * 2 * pi / 86400) ^ 2"
      by (intro divide_left_mono) auto
    moreover have "(6378137 / 1000) ^ 3 \<le> (3986004418 / 10 ^ 4 :: real) / (16 * 400 / 86400 ^ 2)"
      by (simp add: power3_eq_cube)
    ultimately show ?thesis by (rule order_trans [rotated])
  qed
  then have "((6378137 / 1000) ^ 3) powr (1 / 3) \<le> semi_major_axis 10"
    unfolding semi_major_axis_def by (intro powr_mono2) auto
  moreover have "((6378137 / 1000) ^ 3 :: real) powr (1 / 3) = 6378137 / 1000"
    by (simp add: powr_powr flip: powr_numeral)
  ultimately show ?thesis by simp
qed

theorem half_cone_is_cap_angle_witness:
  "get_half_cone_angle 10 20 = Inr (degrees (cap_angle (6378137 / 1000 / semi_major_axis 10) (radians 20)))"
  using half_cone_is_cap_angle [of 10 20] semi_major_axis_low_orbit by simp

section \<open>The ring\<close>

text \<open>The cosine of the central angle between two points in radians.\<close>

definition point_cosine :: "real \<Rightarrow> real \<Rightarrow> real \<Rightarrow> real \<Rightarrow> real" where
  "point_cosine lat0 lon0 lat lon = sin lat * sin lat0 + cos lat * cos lat0 * cos (lon - lon0)"

lemma ring_algebra:
  fixes c c0 s0 S u :: real
  assumes "s0 ^ 2 + c0 ^ 2 = 1" "S = s0 * c + u"
  shows "(c - s0 * S) ^ 2 + (c0 ^ 2 * (1 - c ^ 2) - u ^ 2) = c0 ^ 2 * (1 - S ^ 2)"
proof -
  have c0: "c0 ^ 2 = 1 - s0 ^ 2" using assms(1) by simp
  have u: "u = S - s0 * c" using assms(2) by simp
  show ?thesis unfolding c0 u by (simp add: power2_eq_square algebra_simps)
qed

lemma ring_point_angle:
  assumes "0 \<le> cos lat0" "ring_point lat0 lon0 psi b = (lon, lat)"
  shows "point_cosine lat0 lon0 lat lon = cos psi"
proof -
  define u where "u = cos lat0 * sin psi * cos b"
  define S where "S = sin lat0 * cos psi + u"
  define X where "X = cos psi - sin lat0 * S"
  define Y where "Y = sin b * sin psi * cos lat0"
  have "S = sin (pi / 2 - psi) * sin lat0 + cos (pi / 2 - psi) * cos lat0 * cos b"
    by (simp add: S_def u_def sin_diff cos_diff)
  then have S1: "\<bar>S\<bar> \<le> 1" using spherical_cosine_bounds [of "pi / 2 - psi" lat0 b] by simp
  then have lat: "lat = arcsin S" and lon: "lon = lon0 + atan2 Y X"
    using assms(2) by (simp_all add: ring_point_def Let_def S_def u_def X_def Y_def abs_le_iff)
  have sin: "sin lat = S" using S1 by (simp add: lat abs_le_iff)
  have cos: "cos lat = sqrt (1 - S ^ 2)" using S1 by (simp add: lat cos_arcsin abs_le_iff)
  have "Y ^ 2 = cos lat0 ^ 2 * (1 - cos psi ^ 2) - u ^ 2"
  proof -
    have "Y ^ 2 = cos lat0 ^ 2 * sin psi ^ 2 * sin b ^ 2" by (simp add: Y_def power_mult_distrib mult.commute mult.left_commute)
    also have "\<dots> = cos lat0 ^ 2 * sin psi ^ 2 * (1 - cos b ^ 2)" by (simp only: sin_squared_eq)
    also have "\<dots> = cos lat0 ^ 2 * (1 - cos psi ^ 2) - u ^ 2"
      unfolding u_def power_mult_distrib sin_squared_eq [of psi] by (simp only: algebra_simps)
    finally show ?thesis .
  qed
  then have "X ^ 2 + Y ^ 2 = cos lat0 ^ 2 * (1 - S ^ 2)"
    unfolding X_def using ring_algebra [OF sin_cos_squared_add S_def] by simp
  then have "sqrt (X ^ 2 + Y ^ 2) = cos lat0 * cos lat"
    using assms(1) by (simp add: real_sqrt_mult cos)
  then have "cos lat0 * cos lat * cos (atan2 Y X) = X" using atan2_polar(1) [of X Y] by simp
  then show ?thesis by (simp add: point_cosine_def sin lon X_def mult.commute mult.left_commute)
qed

text \<open>
  The ring of a satellite is the rim of its covered cap: unless it goes around a pole, in
  which case it is extended for drawing, every point of the ring has exactly the central angle from
  the subpoint at which the fast coverage stops counting a point as covered.
\<close>

theorem coverage_ring_is_rim:
  assumes "coverage_ring_from_elevation lat0 lon0 alt e n R = Inr (Some (ring, False))"
    and "\<bar>lat0\<bar> \<le> 90" "(lon, lat) \<in> set ring"
  shows "\<exists>c. cap_cosine R alt e = Some c \<and> point_cosine (radians lat0) (radians lon0) (radians lat) (radians lon) = c"
proof -
  obtain c where c: "cap_cosine R alt e = Some c"
    using assms(1) by (auto simp: coverage_ring_from_elevation_def split: option.splits)
  have c1: "- 1 \<le> c" "c \<le> 1" using c by (auto simp: cap_cosine_def Let_def split: if_splits)
  have "ring = map (\<lambda>(lon, lat). (degrees lon, degrees lat))
      (map (ring_point (radians lat0) (radians lon0) (arccos c)) (linspace_open (2 * pi) n))"
    using assms(1) c by (auto simp: coverage_ring_from_elevation_def Let_def split: if_splits)
  with assms(3) obtain b x y where p: "ring_point (radians lat0) (radians lon0) (arccos c) b = (x, y)"
    "lon = degrees x" "lat = degrees y"
    by (auto split: prod.splits)
  have "\<bar>radians lat0\<bar> \<le> pi / 2" using assms(2) by (simp add: radians_def abs_mult field_simps)
  then have "0 \<le> cos (radians lat0)" by (intro cos_ge_zero) (auto simp: abs_le_iff)
  from ring_point_angle [OF this p(1)] c1 have "point_cosine (radians lat0) (radians lon0) y x = c" by simp
  moreover have "radians (degrees x) = x" "radians (degrees y) = y" by (simp_all add: radians_def degrees_def)
  ultimately show ?thesis using c p(2,3) by simp
qed

section \<open>The percentage\<close>

lemma sum_filter_le:
  fixes f :: "'a \<Rightarrow> real"
  assumes "\<forall>x \<in> set xs. 0 \<le> f x"
  shows "0 \<le> sum_list (map f (filter P xs))" "sum_list (map f (filter P xs)) \<le> sum_list (map f xs)"
  using assms by (induction xs) auto

lemma sum_filter_mono:
  fixes f :: "'a \<Rightarrow> real"
  assumes "\<forall>x \<in> set xs. 0 \<le> f x" "\<And>x. P x \<Longrightarrow> Q x"
  shows "sum_list (map f (filter P xs)) \<le> sum_list (map f (filter Q xs))"
  using assms by (induction xs) (auto intro: add_mono add_increasing)

definition pole_to_pole :: "(real \<times> real) list \<Rightarrow> bool" where
  "pole_to_pole pts = (\<forall>(lon, lat) \<in> set pts. \<bar>lat\<bar> \<le> 90)"

lemma weights_nonneg:
  assumes "pole_to_pole pts"
  shows "\<forall>x \<in> set pts. 0 \<le> (\<lambda>(lon, lat). cos (radians lat)) x"
proof
  fix x
  assume "x \<in> set pts"
  then obtain lon lat where x: "x = (lon, lat)" "\<bar>lat\<bar> \<le> 90" using assms by (auto simp: pole_to_pole_def)
  then have "\<bar>radians lat\<bar> \<le> pi / 2" by (simp add: radians_def abs_mult field_simps)
  then show "0 \<le> (\<lambda>(lon, lat). cos (radians lat)) x" unfolding x(1) by (auto intro: cos_ge_zero simp: abs_le_iff)
qed

lemma share_le: "c \<le> t \<Longrightarrow> \<not> t \<le> 0 \<Longrightarrow> c / t * 100 \<le> (100 :: real)"
  by (simp add: field_simps)

lemma percentage_facts:
  assumes "pole_to_pole pts"
  shows "0 \<le> covered_percentage P pts" "covered_percentage P pts \<le> 100"
    and "(\<And>x. P x \<Longrightarrow> Q x) \<Longrightarrow> covered_percentage P pts \<le> covered_percentage Q pts"
proof -
  let ?w = "\<lambda>(lon :: real, lat). cos (radians lat)"
  note w = weights_nonneg [OF assms]
  note s = sum_filter_le [OF w]
  show "0 \<le> covered_percentage P pts" using s(1) [of P] by (auto simp: covered_percentage_def Let_def)
  show "covered_percentage P pts \<le> 100"
    unfolding covered_percentage_def Let_def using share_le [OF s(2) [of P]] by (simp del: times_divide_eq_left)
  assume "\<And>x. P x \<Longrightarrow> Q x"
  from sum_filter_mono [of pts ?w P Q, OF w this]
  show "covered_percentage P pts \<le> covered_percentage Q pts"
    by (auto simp: covered_percentage_def Let_def intro!: mult_right_mono divide_right_mono)
qed

lemma arange_cells:
  assumes "0 < d" "real n * d = 2 * l"
  shows "cell_centers l d = map (\<lambda>k. - l + real k * d + d / 2) [0..<n]"
proof -
  have "(l + d - - l) / d = real n + 1" using assms by (simp add: field_simps)
  then have "nat \<lceil>(l + d - - l) / d\<rceil> = Suc n" by simp
  then show ?thesis by (simp add: cell_centers_def arange_def butlast_append)
qed

lemma grid_pole_to_pole:
  assumes "0 < d" "real n * d = 2 * l" "l \<le> 90"
  shows "pole_to_pole (grid_points l d)"
proof -
  have "\<bar>x\<bar> \<le> 90" if x: "x \<in> set (cell_centers l d)" for x
  proof -
    from x obtain k where k: "k < n" "x = - l + real k * d + d / 2" by (auto simp: arange_cells [OF assms(1,2)])
    then have "(real k + 1) * d \<le> real n * d" using assms(1) by (intro mult_right_mono) auto
    then have "real k * d + d \<le> real n * d" by (simp add: distrib_right)
    moreover have "0 \<le> real k * d" using assms(1) by simp
    ultimately have "- l \<le> x" "x \<le> l" unfolding k(2) using assms by linarith+
    then show ?thesis using assms(3) by linarith
  qed
  then show ?thesis by (auto simp: pole_to_pole_def grid_points_def)
qed

lemma caps_subset: "set sats \<subseteq> set sats' \<Longrightarrow> set (caps R e sats) \<subseteq> set (caps R e sats')"
  by (auto simp: caps_def)

text \<open>
  On a grid of whole cells within the poles the fast coverage is a percentage, between 0
  and 100, and more satellites never cover less.
\<close>

theorem fast_coverage_monotone:
  assumes "0 < d" "real n * d = 2 * l" "l \<le> 90" and "set sats \<subseteq> set sats'"
  shows "0 \<le> coverage_percentage_fast sats e d l R
    \<and> coverage_percentage_fast sats e d l R \<le> coverage_percentage_fast sats' e d l R
    \<and> coverage_percentage_fast sats' e d l R \<le> 100"
proof -
  have g: "pole_to_pole (grid_points l d)" by (rule grid_pole_to_pole [OF assms(1-3)])
  have sub: "set (caps R e sats) \<subseteq> set (caps R e sats')" by (rule caps_subset [OF assms(4)])
  let ?c = "\<lambda>ss pt. list_ex (\<lambda>(c, s). cap_covers c s pt) (caps R e ss)"
  have eq: "coverage_percentage_fast ss e d l R = covered_percentage (?c ss) (grid_points l d)" for ss
  proof (cases "caps R e ss = []")
    case True
    then show ?thesis by (simp add: coverage_percentage_fast_def covered_percentage_def Let_def)
  next
    case False
    then have "ss \<noteq> []" by (auto simp: caps_def)
    with False show ?thesis by (simp add: coverage_percentage_fast_def Let_def)
  qed
  have "?c sats pt \<Longrightarrow> ?c sats' pt" for pt using sub by (auto simp: list_ex_iff)
  then have "covered_percentage (?c sats) (grid_points l d) \<le> covered_percentage (?c sats') (grid_points l d)"
    by (intro percentage_facts(3) [OF g])
  with percentage_facts(1) [OF g, of "?c sats"] percentage_facts(2) [OF g, of "?c sats'"]
  show ?thesis unfolding eq by (intro conjI)
qed

theorem fast_coverage_monotone_witness:
  "coverage_percentage_fast [] 10 1 90 6371 \<le>
   coverage_percentage_fast [\<lparr>cs_latitude = 0, cs_longitude = 0, cs_altitude = Some 550\<rparr>] 10 1 90 6371"
  using fast_coverage_monotone [of 1 180 90 "[]" "[\<lparr>cs_latitude = 0, cs_longitude = 0, cs_altitude = Some 550\<rparr>]" 10 6371]
  by simp

end
