(* ===== verification/Projects.thy ===== *)
theory Projects
  imports Orbits
begin

text \<open>
  The project builder, \<open>utils/project_builder.py\<close>: files of ground stations, the dates of a
  simulation, custom satellites and stations, and the mesh of links between orbital planes.

  The simulation library is an argument: which satellites exist, their orbital elements and
  positions, and what creating a link does, which may raise. A float is a real number; how Python
  prints and parses one is the argument \<open>float_text\<close>. A satellite whose links are created is
  a value of a type variable. The calls made before an exception are kept, so a function that
  creates links returns the list of its calls and the exception, if any.
\<close>

section \<open>Files of ground stations\<close>

record station_entry =
  st_index :: int
  st_name :: string
  st_latitude :: real
  st_longitude :: real
  st_elevation_km :: real

record float_text =
  ft_repr :: "real \<Rightarrow> string"
  ft_parse :: "string \<Rightarrow> real option"

definition to_csv_line :: "float_text \<Rightarrow> station_entry \<Rightarrow> string" where
  "to_csv_line ft e = py_join '','' [dec_int (st_index e), st_name e, ft_repr ft (st_latitude e),
     ft_repr ft (st_longitude e), ft_repr ft (st_elevation_km e)]"

record ground_object_file =
  gf_identifier :: string
  gf_entries :: "station_entry list"

definition py_lower :: "string \<Rightarrow> string" where
  "py_lower s = map (\<lambda>c. if 65 \<le> (of_char c :: nat) \<and> of_char c \<le> (90 :: nat) then char_of (of_char c + 32 :: nat) else c) s"

definition safe_name :: "string \<Rightarrow> string" where
  "safe_name identifier = py_lower (map (\<lambda>c. if c = CHR '' '' then CHR ''_'' else c) identifier)"

definition path_join :: "string \<Rightarrow> string \<Rightarrow> string" where
  "path_join base name = (if startswith ''/'' name \<or> base = [] then name
     else if endswith ''/'' base then base @ name else base @ ''/'' @ name)"

type_synonym files = "(string, string) dict"

definition csv_text :: "float_text \<Rightarrow> station_entry list \<Rightarrow> string" where
  "csv_text ft es = concat (map (\<lambda>e. to_csv_line ft e @ [newline]) es)"

definition write_file :: "float_text \<Rightarrow> string \<Rightarrow> ground_object_file \<Rightarrow> files \<Rightarrow> string \<times> files" where
  "write_file ft base_dir g fs = (let file_path = path_join base_dir (safe_name (gf_identifier g) @ ''.txt'')
     in (file_path, dict_set file_path (csv_text ft (gf_entries g)) fs))"

text \<open>Reading a text file translates the line ends of other systems, and iterates over its lines.\<close>

fun universal_newlines :: "string \<Rightarrow> string" where
  "universal_newlines [] = []"
| "universal_newlines [c] = [if of_char c = (13 :: nat) then newline else c]"
| "universal_newlines (c # d # cs) =
    (if of_char c = (13 :: nat) then newline # universal_newlines (if d = newline then cs else d # cs)
     else c # universal_newlines (d # cs))"

definition file_lines :: "string \<Rightarrow> string list" where
  "file_lines s = (let ls = split_on newline (universal_newlines s) in if last ls = [] then butlast ls else ls)"

definition csv_entry :: "float_text \<Rightarrow> string \<Rightarrow> station_entry result" where
  "csv_entry ft line = (case split_on (CHR '','') (py_strip line) of
     [index, name, lat, lon, elev] \<Rightarrow>
       (case (py_int index, ft_parse ft lat, ft_parse ft lon, ft_parse ft elev) of
          (Some i, Some la, Some lo, Some el) \<Rightarrow>
            Inr \<lparr>st_index = i, st_name = name, st_latitude = la, st_longitude = lo, st_elevation_km = el\<rparr>
        | _ \<Rightarrow> Inl (ValueError ''invalid number''))
   | _ \<Rightarrow> Inl (ValueError ''Malformed line in CSV''))"

definition from_csv :: "float_text \<Rightarrow> string \<Rightarrow> string \<Rightarrow> files \<Rightarrow> ground_object_file result" where
  "from_csv ft identifier csv_path fs = (case dict_get fs csv_path of
     None \<Rightarrow> Inl (OtherError ''FileNotFoundError'')
   | Some contents \<Rightarrow> rbind (rmap (csv_entry ft) (file_lines contents)) (\<lambda>entries.
       Inr \<lparr>gf_identifier = identifier, gf_entries = entries\<rparr>))"

text \<open>The dictionary of a ground object in a configuration; \<open>'p\<close> are its connectivity properties.\<close>

record 'p ground_object_entry =
  ge_identifier :: string
  ge_data_file :: string
  ge_type :: string
  ge_connectivity :: 'p

definition ground_object_to_dict :: "float_text \<Rightarrow> string \<Rightarrow> ground_object_file \<Rightarrow> string \<Rightarrow> 'p \<Rightarrow> files \<Rightarrow> 'p ground_object_entry \<times> files" where
  "ground_object_to_dict ft base_dir g object_type properties fs = (case write_file ft base_dir g fs of (file_path, fs') \<Rightarrow>
     (\<lparr>ge_identifier = gf_identifier g, ge_data_file = file_path, ge_type = object_type, ge_connectivity = properties\<rparr>, fs'))"

section \<open>Custom satellites and stations\<close>

text \<open>The simulation: the identifiers of its satellites and what adding a satellite and refreshing
  the links of ground stations do.\<close>

record 'm sim_manager =
  sm_satellite_ids :: "'m \<Rightarrow> int list"
  sm_add_satellite :: "orbital_model \<Rightarrow> int \<Rightarrow> string \<Rightarrow> 'm \<Rightarrow> 'm result"
  sm_update_ground_links :: "'m \<Rightarrow> 'm result"

definition create_custom_satellite :: "(string \<Rightarrow> string \<Rightarrow> unit result) \<Rightarrow> 'm sim_manager \<Rightarrow> tle \<Rightarrow> int \<Rightarrow> string \<Rightarrow> 'm \<Rightarrow> (int \<times> 'm) result" where
  "create_custom_satellite parse ops t object_id domain m =
    (let before_ids = set (sm_satellite_ids ops m) in
     rbind (new_orbital_model parse (Some (tl_name t)) (Some (tl_line1 t)) (Some (tl_line2 t))) (\<lambda>model.
     rbind (sm_add_satellite ops model object_id domain m) (\<lambda>m1.
     rbind (sm_update_ground_links ops m1) (\<lambda>m2.
       case remdups (filter (\<lambda>i. i \<notin> before_ids) (sm_satellite_ids ops m2)) of
         [new_id] \<Rightarrow> Inr (new_id, m2)
       | _ \<Rightarrow> Inl (RuntimeError ''Expected exactly one new satellite id'')))))"

fun add_custom_satellites :: "(string \<Rightarrow> string \<Rightarrow> unit result) \<Rightarrow> 'm sim_manager \<Rightarrow> tle list \<Rightarrow> 'm \<Rightarrow> 'm result" where
  "add_custom_satellites parse ops [] m = Inr m"
| "add_custom_satellites parse ops (t # ts) m =
    rbind (create_custom_satellite parse ops t 0 ''public'' m) (\<lambda>(_, m1). add_custom_satellites parse ops ts m1)"

record go_domain =
  gd_identifier :: string
  gd_type :: "string option"
  gd_strategy :: string

record sim_ground_object =
  so_label :: string
  so_object_id :: int
  so_domain :: string
  so_position :: spatial_position
  so_ground_object_domain :: "go_domain option"

definition create_custom_ground_station :: "string \<Rightarrow> real \<Rightarrow> real \<Rightarrow> real \<Rightarrow> int \<Rightarrow> string \<Rightarrow> sim_ground_object" where
  "create_custom_ground_station name latitude longitude elevation_km object_id domain =
    \<lparr>so_label = name, so_object_id = object_id, so_domain = domain,
     so_position = \<lparr>sp_longitude = longitude, sp_latitude = latitude, sp_altitude = Some (elevation_km * 1000)\<rparr>,
     so_ground_object_domain = None\<rparr>"

text \<open>\<open>lookup\<close> is the search of the simulation for a domain by its identifier, \<open>None\<close> when it
  raises that the domain is unknown.\<close>

definition attach_ground_object_domain :: "(string \<Rightarrow> go_domain option) \<Rightarrow> sim_ground_object \<Rightarrow> go_domain list \<Rightarrow>
    sim_ground_object \<times> go_domain list" where
  "attach_ground_object_domain lookup g domains =
    (case so_ground_object_domain g of
       Some _ \<Rightarrow> (g, domains)
     | None \<Rightarrow>
        let found = lookup (so_domain g);
            usable = (case found of
               Some d \<Rightarrow> if gd_type d = Some ''ground_station'' then Some d
                         else List.find (\<lambda>c. gd_type c = Some ''ground_station'') domains
             | None \<Rightarrow> List.find (\<lambda>c. gd_type c = Some ''ground_station'') domains)
        in case usable of
             Some d \<Rightarrow> (g\<lparr>so_ground_object_domain := Some d\<rparr>, domains)
           | None \<Rightarrow>
              let d = \<lparr>gd_identifier = (if so_domain g = [] then ''default'' else so_domain g),
                       gd_type = Some ''ground_station'', gd_strategy = ''best-angle-until-disconnection''\<rparr>
              in (g\<lparr>so_ground_object_domain := Some d\<rparr>, domains @ [d]))"

definition add_custom_ground_station :: "(string \<Rightarrow> go_domain option) \<Rightarrow> sim_ground_object \<Rightarrow>
    go_domain list \<times> sim_ground_object list \<Rightarrow> go_domain list \<times> sim_ground_object list" where
  "add_custom_ground_station lookup g sim = (case sim of (domains, stations) \<Rightarrow>
     case attach_ground_object_domain lookup g domains of (g', domains') \<Rightarrow> (domains', stations @ [g']))"

text \<open>The three searches by name differ only in what they search and in the attribute compared; an
  object without it is \<open>None\<close>.\<close>

definition find_by_name :: "('o \<Rightarrow> string option) \<Rightarrow> string \<Rightarrow> 'o list \<Rightarrow> 'o result" where
  "find_by_name label name objects = (case List.find (\<lambda>ob. label ob = Some name) objects of
     Some ob \<Rightarrow> Inr ob | None \<Rightarrow> Inl (ValueError ''not found''))"

section \<open>Orbital planes\<close>

text \<open>The angles of the orbit from the element set, in radians; \<open>None\<close> without an orbital model.\<close>

definition get_orbital_elements :: "(real \<times> real) option \<Rightarrow> (real \<times> real \<times> real) result \<Rightarrow> real result \<Rightarrow>
    (real \<times> real \<times> real) option result" where
  "get_orbital_elements orb position altitude_m = (case orb of
     None \<Rightarrow> Inr None
   | Some (nodeo, inclo) \<Rightarrow>
      let raan = degrees nodeo; inc = radians (degrees inclo); raan_rad = radians raan
      in rbind position (\<lambda>r_teme.
        let x_hat = (cos raan_rad, sin raan_rad, 0);
            y_hat = (- cos inc * sin raan_rad, cos inc * cos raan_rad, sin inc);
            rx = dot3 r_teme x_hat; ry = dot3 r_teme y_hat;
            phase = py_fmod (degrees (atan2 ry rx)) 360
        in rbind altitude_m (\<lambda>alt_m. Inr (Some (raan, phase, alt_m / 1000)))))"

type_synonym 's sat_data = "'s \<times> real \<times> real \<times> real"

abbreviation sd_raan :: "'s sat_data \<Rightarrow> real" where "sd_raan d \<equiv> fst (snd d)"
abbreviation sd_phase :: "'s sat_data \<Rightarrow> real" where "sd_phase d \<equiv> fst (snd (snd d))"
abbreviation sd_altitude :: "'s sat_data \<Rightarrow> real" where "sd_altitude d \<equiv> snd (snd (snd d))"

text \<open>The loop that starts a new group whenever the next element is not near the previous one.\<close>

fun runs_from :: "('a \<Rightarrow> 'a \<Rightarrow> bool) \<Rightarrow> 'a list \<Rightarrow> 'a \<Rightarrow> 'a list \<Rightarrow> 'a list list" where
  "runs_from near current prev [] = [current]"
| "runs_from near current prev (x # xs) =
    (if near prev x then runs_from near (current @ [x]) x xs else current # runs_from near [x] x xs)"

fun split_runs :: "('a \<Rightarrow> 'a \<Rightarrow> bool) \<Rightarrow> 'a list \<Rightarrow> 'a list list" where
  "split_runs near [] = []"
| "split_runs near (x # xs) = runs_from near [x] x xs"

definition raan_gap :: "'s sat_data list \<Rightarrow> nat \<Rightarrow> real" where
  "raan_gap ds i = py_fmod (sd_raan (ds ! ((i + 1) mod length ds)) - sd_raan (ds ! i)) 360"

definition largest_gap :: "'s sat_data list \<Rightarrow> real \<times> nat" where
  "largest_gap ds = foldl (\<lambda>(max_gap, break_idx) i. if raan_gap ds i > max_gap then (raan_gap ds i, i) else (max_gap, break_idx))
     (- 1, 0) [0..<length ds]"

definition rotate_at_gap :: "'s sat_data list \<Rightarrow> 's sat_data list" where
  "rotate_at_gap ds = (let break_idx = snd (largest_gap ds) in drop (break_idx + 1) ds @ take (break_idx + 1) ds)"

definition raan_near :: "real \<Rightarrow> 's sat_data \<Rightarrow> 's sat_data \<Rightarrow> bool" where
  "raan_near threshold a b = (let diff = sd_raan b - sd_raan a in (if diff < 0 then diff + 360 else diff) < threshold)"

definition raan_planes :: "real \<Rightarrow> 's sat_data list \<Rightarrow> 's sat_data list list" where
  "raan_planes threshold ds = split_runs (raan_near threshold) (rotate_at_gap (sort_key sd_raan ds))"

definition altitude_planes :: "real \<Rightarrow> 's sat_data list \<Rightarrow> 's sat_data list list" where
  "altitude_planes max_difference plane =
    split_runs (\<lambda>a b. sd_altitude b - sd_altitude a < max_difference) (sort_key sd_altitude plane)"

definition average_raan :: "'s sat_data list \<Rightarrow> real" where
  "average_raan plane = sum_list (map sd_raan plane) / real (length plane)"

definition strip_plane :: "'s sat_data list \<Rightarrow> ('s \<times> real) list" where
  "strip_plane plane = map (\<lambda>d. (fst d, sd_phase d)) plane"

definition planes_of :: "real \<Rightarrow> real \<Rightarrow> 's sat_data list \<Rightarrow> ('s \<times> real) list list" where
  "planes_of threshold max_difference ds = (if ds = [] then [] else
     let planes = concat (map (altitude_planes max_difference) (raan_planes threshold ds))
     in map snd (sort_key fst (map (\<lambda>p. (average_raan p, strip_plane p)) planes)))"

definition sat_data_of :: "('s \<Rightarrow> (real \<times> real \<times> real) option result) \<Rightarrow> 's list \<Rightarrow> 's sat_data list result" where
  "sat_data_of elements sats = rbind (rmap (\<lambda>s. rbind (elements s) (\<lambda>e. Inr (s, e))) sats) (\<lambda>ds.
     Inr (List.map_filter (\<lambda>(s, e). map_option (\<lambda>x. (s, x)) e) ds))"

definition group_satellites_by_orbital_plane :: "('s \<Rightarrow> (real \<times> real \<times> real) option result) \<Rightarrow> 's list \<Rightarrow> real \<Rightarrow> real \<Rightarrow>
    ('s \<times> real) list list result" where
  "group_satellites_by_orbital_plane elements sats raan_threshold max_altitude_difference =
    rbind (sat_data_of elements sats) (\<lambda>ds. Inr (planes_of raan_threshold max_altitude_difference ds))"

section \<open>The mesh of links\<close>

datatype isl_direction = OrbitalLink | AdjacentLink

datatype ('s, 'g) mesh_call = IslCall 's 's isl_direction | GslCall 's 'g

type_synonym ('s, 'g) mesh_calls = "('s, 'g) mesh_call list \<times> pyerr option"

record ('s, 'g) mesh_env =
  me_elements :: "'s \<Rightarrow> (real \<times> real \<times> real) option result"
  me_position :: "'s \<Rightarrow> (real \<times> real \<times> real) result"
  me_create_isl :: "'s \<Rightarrow> 's \<Rightarrow> pyerr option"
  me_closest :: "'g \<Rightarrow> 's result"
  me_create_gsl :: "'s \<Rightarrow> 'g \<Rightarrow> pyerr option"

fun steps :: "('a \<Rightarrow> ('s, 'g) mesh_calls) \<Rightarrow> 'a list \<Rightarrow> ('s, 'g) mesh_calls" where
  "steps f [] = ([], None)"
| "steps f (x # xs) = (case f x of
     (cs, Some e) \<Rightarrow> (cs, Some e)
   | (cs, None) \<Rightarrow> (case steps f xs of (cs', r) \<Rightarrow> (cs @ cs', r)))"

definition add_isl :: "('s, 'g) mesh_env \<Rightarrow> isl_direction \<Rightarrow> 's \<times> 's \<Rightarrow> ('s, 'g) mesh_calls" where
  "add_isl env d p = (case me_create_isl env (fst p) (snd p) of
     Some e \<Rightarrow> ([], Some e) | None \<Rightarrow> ([IslCall (fst p) (snd p) d], None))"

definition by_phase :: "('s \<times> real) list \<Rightarrow> 's list" where
  "by_phase plane = map fst (sort_key snd plane)"

definition ring_pairs :: "'s list \<Rightarrow> ('s \<times> 's) list" where
  "ring_pairs ss = (let n = length ss in if n < 2 then [] else map (\<lambda>i. (ss ! i, ss ! ((i + 1) mod n))) [0..<n])"

definition orbital_links :: "('s, 'g) mesh_env \<Rightarrow> ('s \<times> real) list \<Rightarrow> ('s, 'g) mesh_calls" where
  "orbital_links env plane = steps (add_isl env OrbitalLink) (ring_pairs (by_phase plane))"

definition adjacent_link :: "('s, 'g) mesh_env \<Rightarrow> 's \<times> 's \<Rightarrow> ('s, 'g) mesh_calls" where
  "adjacent_link env p = (case (me_position env (fst p), me_position env (snd p)) of
     (Inl e, _) \<Rightarrow> ([], Some e)
   | (_, Inl e) \<Rightarrow> ([], Some e)
   | (Inr r_a, Inr r_b) \<Rightarrow> if norm3 (sub3 r_a r_b) > 4000 then ([], None) else add_isl env AdjacentLink p)"

definition adjacent_pairs :: "nat \<Rightarrow> ('s \<times> real) list \<Rightarrow> ('s \<times> real) list \<Rightarrow> ('s \<times> 's) list" where
  "adjacent_pairs min_plane_size a b =
    (if length a < min_plane_size \<or> length b < min_plane_size then [] else zip (by_phase a) (by_phase b))"

definition adjacent_links :: "('s, 'g) mesh_env \<Rightarrow> nat \<Rightarrow> ('s \<times> real) list \<times> ('s \<times> real) list \<Rightarrow> ('s, 'g) mesh_calls" where
  "adjacent_links env min_plane_size planes =
    steps (adjacent_link env) (adjacent_pairs min_plane_size (fst planes) (snd planes))"

definition ground_link :: "('s, 'g) mesh_env \<Rightarrow> 'g \<Rightarrow> ('s, 'g) mesh_calls" where
  "ground_link env gs = (case me_closest env gs of
     Inl _ \<Rightarrow> ([], None)
   | Inr closest_sat \<Rightarrow> (case me_create_gsl env closest_sat gs of
       Some _ \<Rightarrow> ([], None) | None \<Rightarrow> ([GslCall closest_sat gs], None)))"

definition then_calls :: "('s, 'g) mesh_calls \<Rightarrow> ('s, 'g) mesh_calls \<Rightarrow> ('s, 'g) mesh_calls" where
  "then_calls a b = (case a of (cs, Some e) \<Rightarrow> (cs, Some e) | (cs, None) \<Rightarrow> (cs @ fst b, snd b))"

definition add_mesh_links :: "('s, 'g) mesh_env \<Rightarrow> bool \<Rightarrow> bool \<Rightarrow> bool \<Rightarrow> real \<Rightarrow> nat \<Rightarrow> 's list \<Rightarrow> 'g list \<Rightarrow> ('s, 'g) mesh_calls" where
  "add_mesh_links env add_orbital add_adjacent add_ground max_altitude_difference min_plane_size satellites ground_stations =
    (if length satellites < 2 then ([], None)
     else case group_satellites_by_orbital_plane (me_elements env) satellites 5 max_altitude_difference of
       Inl e \<Rightarrow> ([], Some e)
     | Inr planes \<Rightarrow>
        if planes = [] then ([], None)
        else then_calls (if add_orbital then steps (orbital_links env) planes else ([], None))
          (then_calls (if add_adjacent \<and> length planes \<ge> 2
             then steps (adjacent_links env min_plane_size) (zip (butlast planes) (tl planes)) else ([], None))
            (if add_ground then steps (ground_link env) ground_stations else ([], None))))"

section \<open>Dates\<close>

record datetime =
  dt_year :: nat
  dt_month :: nat
  dt_day :: nat
  dt_hour :: nat
  dt_minute :: nat
  dt_second :: nat

definition leap :: "nat \<Rightarrow> bool" where
  "leap y = (y mod 4 = 0 \<and> (y mod 100 \<noteq> 0 \<or> y mod 400 = 0))"

definition days_in_month :: "nat \<Rightarrow> nat \<Rightarrow> nat" where
  "days_in_month y m = (if m = 2 then (if leap y then 29 else 28) else if m \<in> {4, 6, 9, 11} then 30 else 31)"

definition datetime_ok :: "datetime \<Rightarrow> bool" where
  "datetime_ok d = (1 \<le> dt_year d \<and> dt_year d \<le> 9999 \<and> 1 \<le> dt_month d \<and> dt_month d \<le> 12
     \<and> 1 \<le> dt_day d \<and> dt_day d \<le> days_in_month (dt_year d) (dt_month d)
     \<and> dt_hour d \<le> 23 \<and> dt_minute d \<le> 59 \<and> dt_second d \<le> 59)"

definition pad2 :: "nat \<Rightarrow> string" where
  "pad2 n = (if n < 10 then CHR ''0'' # dec n else dec n)"

definition format_date :: "datetime \<Rightarrow> string" where
  "format_date d = pad2 (dt_day d) @ ''/'' @ pad2 (dt_month d) @ ''/'' @ dec (dt_year d) @ '' ''
     @ pad2 (dt_hour d) @ '':'' @ pad2 (dt_minute d) @ '':'' @ pad2 (dt_second d)"

text \<open>A field of \<open>strptime\<close>: one or two digits with a value in range. The day may be written with
  a blank instead of a leading zero, and the blank of the format stands for any white space.\<close>

definition date_field :: "nat \<Rightarrow> nat \<Rightarrow> string \<Rightarrow> nat option" where
  "date_field lo hi s = (if s \<noteq> [] \<and> length s \<le> 2 \<and> list_all is_digit s
     then (let v = foldl (\<lambda>a c. a * 10 + digit_val c) 0 s in if lo \<le> v \<and> v \<le> hi then Some v else None)
     else None)"

definition day_field :: "string \<Rightarrow> nat option" where
  "day_field s = (case s of [c, d] \<Rightarrow> if c = CHR '' '' then date_field 1 9 [d] else date_field 1 31 s
     | _ \<Rightarrow> date_field 1 31 s)"

definition parse_date :: "string \<Rightarrow> datetime result" where
  "parse_date s = (case split_on (CHR ''/'') s of
     [d, m, rest] \<Rightarrow>
      let y = take 4 rest; blank = drop 4 rest; clock = dropWhile is_space blank
      in (case split_on (CHR '':'') clock of
        [h, mi, sec] \<Rightarrow>
          (case (day_field d, date_field 1 12 m, date_field 0 23 h, date_field 0 59 mi, date_field 0 61 sec) of
            (Some day, Some month, Some hour, Some minute, Some second) \<Rightarrow>
              let r = \<lparr>dt_year = foldl (\<lambda>a c. a * 10 + digit_val c) 0 y, dt_month = month, dt_day = day,
                       dt_hour = hour, dt_minute = minute, dt_second = second\<rparr>
              in if length y = 4 \<and> list_all is_digit y \<and> blank \<noteq> clock \<and> datetime_ok r then Inr r
                 else Inl (ValueError ''time data does not match format'')
          | _ \<Rightarrow> Inl (ValueError ''time data does not match format''))
      | _ \<Rightarrow> Inl (ValueError ''time data does not match format''))
   | _ \<Rightarrow> Inl (ValueError ''time data does not match format''))"

definition next_day :: "datetime \<Rightarrow> datetime result" where
  "next_day d = (if dt_day d < days_in_month (dt_year d) (dt_month d) then Inr (d\<lparr>dt_day := dt_day d + 1\<rparr>)
     else if dt_month d < 12 then Inr (d\<lparr>dt_day := 1, dt_month := dt_month d + 1\<rparr>)
     else if dt_year d < 9999 then Inr (d\<lparr>dt_day := 1, dt_month := 1, dt_year := dt_year d + 1\<rparr>)
     else Inl (OtherError ''OverflowError''))"

definition add_ten_minutes :: "datetime \<Rightarrow> datetime result" where
  "add_ten_minutes d = (if dt_minute d + 10 < 60 then Inr (d\<lparr>dt_minute := dt_minute d + 10\<rparr>)
     else if dt_hour d < 23 then Inr (d\<lparr>dt_minute := dt_minute d + 10 - 60, dt_hour := dt_hour d + 1\<rparr>)
     else next_day (d\<lparr>dt_minute := dt_minute d + 10 - 60, dt_hour := 0\<rparr>))"

definition resolve_simulation_dates :: "datetime \<Rightarrow> string \<Rightarrow> string \<Rightarrow> (string \<times> string) result" where
  "resolve_simulation_dates now start_date end_date =
    rbind (if start_date \<noteq> [] then rbind (parse_date start_date) (\<lambda>d. Inr (d, start_date)) else Inr (now, format_date now))
      (\<lambda>(start_dt, start). if end_date = [] then rbind (add_ten_minutes start_dt) (\<lambda>e. Inr (start, format_date e))
         else Inr (start, end_date))"

section \<open>Ready-made projects\<close>

record ground_connectivity =
  gcp_strategy :: string
  gcp_elevation :: real
  gcp_range :: real
  gcp_shells :: "string list"
  gcp_max_satellites :: nat

record walker_constellation =
  wc_identifier :: string
  wc_planes :: nat
  wc_per_plane :: nat
  wc_inclination :: real
  wc_revolutions :: real
  wc_phase_difference :: bool

record orbital_connectivity =
  oc_shifting :: nat
  oc_max_isl :: nat
  oc_isl_range :: real
  oc_gs_range :: real
  oc_ut_range :: real
  oc_max_ground_object :: nat
  oc_max_ut :: nat
  oc_max_gs :: nat

record walker_shell =
  ws_type :: string
  ws_constellation :: walker_constellation
  ws_connectivity :: orbital_connectivity
  ws_white_list :: "string list"

record simulation_property =
  sip_name :: string
  sip_start :: string
  sip_end :: string
  sip_ground_objects :: "ground_connectivity ground_object_entry list"
  sip_shells :: "walker_shell list"

definition default_stations :: "station_entry list" where
  "default_stations = map (\<lambda>(i, n, la, lo, el). \<lparr>st_index = i, st_name = n, st_latitude = la, st_longitude = lo, st_elevation_km = el\<rparr>)
     [(0, ''Berlin'', 5252 / 100, 13405 / 1000, 34 / 1000), (1, ''London'', 51507 / 1000, - 127 / 1000, 11 / 1000),
      (2, ''Paris'', 48856 / 1000, 2352 / 1000, 35 / 1000), (3, ''Rome'', 41902 / 1000, 12496 / 1000, 21 / 1000),
      (4, ''Madrid'', 40416 / 1000, - 3703 / 1000, 667 / 1000)]"

definition test_shell :: walker_shell where
  "test_shell = \<lparr>ws_type = ''star'',
     ws_constellation = \<lparr>wc_identifier = ''LEO'', wc_planes = 7, wc_per_plane = 11, wc_inclination = 864 / 10,
       wc_revolutions = 1435 / 100, wc_phase_difference = True\<rparr>,
     ws_connectivity = \<lparr>oc_shifting = 0, oc_max_isl = 4, oc_isl_range = 1500, oc_gs_range = 1200, oc_ut_range = 1000,
       oc_max_ground_object = 10000, oc_max_ut = 500, oc_max_gs = 10\<rparr>,
     ws_white_list = [''Ground Stations'']\<rparr>"

definition create_test_project :: "float_text \<Rightarrow> datetime \<Rightarrow> string \<Rightarrow> string \<Rightarrow> string \<Rightarrow> string \<Rightarrow> files \<Rightarrow>
    (simulation_property \<times> files) result" where
  "create_test_project ft now simulation_name start_date end_date ground_stations_file fs =
    rbind (resolve_simulation_dates now start_date end_date) (\<lambda>(start, end_d).
    rbind (if ground_stations_file = [] then Inr default_stations
           else rbind (from_csv ft ''Ground Stations'' ground_stations_file fs) (\<lambda>g. Inr (gf_entries g))) (\<lambda>stations.
      let gs_file = \<lparr>gf_identifier = ''Ground Stations'', gf_entries = stations\<rparr>
      in case write_file ft ''/tmp/'' gs_file fs of (data_file, fs') \<Rightarrow>
        Inr (\<lparr>sip_name = simulation_name, sip_start = start, sip_end = end_d,
          sip_ground_objects = [\<lparr>ge_identifier = gf_identifier gs_file, ge_data_file = data_file, ge_type = ''ground_station'',
            ge_connectivity = \<lparr>gcp_strategy = ''best-angle-until-disconnection'', gcp_elevation = 10, gcp_range = 1500,
              gcp_shells = [''LEO''], gcp_max_satellites = 1\<rparr>\<rparr>],
          sip_shells = [test_shell]\<rparr>, fs')))"

definition create_empty_project :: "datetime \<Rightarrow> string \<Rightarrow> string \<Rightarrow> string \<Rightarrow> simulation_property result" where
  "create_empty_project now simulation_name start_date end_date =
    rbind (resolve_simulation_dates now start_date end_date) (\<lambda>(start, end_d).
      Inr \<lparr>sip_name = simulation_name, sip_start = start, sip_end = end_d, sip_ground_objects = [], sip_shells = []\<rparr>)"

end
