(* ===== verification/Project_Facts.thy ===== *)
theory Project_Facts
  imports Projects "HOL-Library.Multiset"
begin

text \<open>
  Facts about the project builder: the orbital planes partition the satellites and respect the
  circle of right ascensions, the mesh of links is a ring in every plane and a matching between
  consecutive planes, a file of stations is read back, an omitted end date is ten minutes after
  the start, and a custom station ends up in a domain it can be connected in.
\<close>

section \<open>Splitting into runs\<close>

lemma runs_concat: "concat (runs_from near current prev xs) = current @ xs"
  by (induction near current prev xs rule: runs_from.induct) auto

lemma split_runs_concat: "concat (split_runs near xs) = xs"
  by (cases xs) (auto simp: runs_concat)

lemma runs_near:
  assumes "current \<noteq> []" "last current = prev" "successively near current" "r \<in> set (runs_from near current prev xs)"
  shows "r \<noteq> [] \<and> successively near r"
  using assms
proof (induction near current prev xs rule: runs_from.induct)
  case (2 near current prev x xs)
  show ?case
  proof (cases "near prev x")
    case True
    with 2 show ?thesis by (auto simp: successively_append_iff)
  next
    case False
    with 2 show ?thesis by auto
  qed
qed auto

lemma split_runs_near: "r \<in> set (split_runs near xs) \<Longrightarrow> r \<noteq> [] \<and> successively near r"
  by (cases xs) (auto dest: runs_near [rotated 3])

text \<open>Between two runs the elements are not near.\<close>

lemma runs_boundary:
  assumes "current \<noteq> []" "last current = prev"
  shows "successively (\<lambda>a b. \<not> near (last a) (hd b)) (runs_from near current prev xs)
    \<and> runs_from near current prev xs \<noteq> [] \<and> hd (hd (runs_from near current prev xs)) = hd current"
  using assms
proof (induction near current prev xs rule: runs_from.induct)
  case (2 near current prev x xs)
  show ?case
  proof (cases "near prev x")
    case True
    with 2 show ?thesis by auto
  next
    case False
    with 2 show ?thesis by (auto simp: successively_Cons)
  qed
qed auto

lemma split_runs_boundary: "successively (\<lambda>a b. \<not> near (last a) (hd b)) (split_runs near xs)"
  by (cases xs) (auto simp: runs_boundary)

lemma runs_first: "\<exists>r rs. runs_from near current prev xs = r # rs \<and> set current \<subseteq> set r"
proof (induction near current prev xs rule: runs_from.induct)
  case (2 near current prev x xs)
  then show ?case by (cases "near prev x") auto
qed auto

lemma runs_same:
  assumes "current \<noteq> []" "last current = prev" "Suc j < length (current @ xs)"
    "near ((current @ xs) ! j) ((current @ xs) ! Suc j)" "length current \<le> Suc j"
  shows "\<exists>r \<in> set (runs_from near current prev xs). (current @ xs) ! j \<in> set r \<and> (current @ xs) ! Suc j \<in> set r"
  using assms
proof (induction near current prev xs arbitrary: j rule: runs_from.induct)
  case (2 near current prev x xs)
  show ?case
  proof (cases "near prev x")
    case near: True
    show ?thesis
    proof (cases "length current = Suc j")
      case True
      then have "(current @ x # xs) ! j = prev" "(current @ x # xs) ! Suc j = x"
        using 2(3,4) by (simp_all add: nth_append last_conv_nth)
      moreover obtain r rs where r: "runs_from near (current @ [x]) x xs = r # rs" "set (current @ [x]) \<subseteq> set r"
        using runs_first by metis
      moreover have "prev \<in> set current" using 2(3,4) by auto
      ultimately show ?thesis using near r(2) by (auto simp: r(1))
    next
      case False
      with 2(1) [OF near, of j] 2(3-) near show ?thesis by simp
    qed
  next
    case far: False
    have "length current \<noteq> Suc j"
    proof
      assume l: "length current = Suc j"
      then have "(current @ x # xs) ! j = prev" "(current @ x # xs) ! Suc j = x"
        using 2(3,4) by (simp_all add: nth_append last_conv_nth)
      with far 2(6) show False by simp
    qed
    then have l: "length current \<le> j" using 2(7) by simp
    define i where "i = j - length current"
    have j: "j = length current + i" using l by (simp add: i_def)
    have "\<exists>r \<in> set (runs_from near [x] x xs). ([x] @ xs) ! i \<in> set r \<and> ([x] @ xs) ! Suc i \<in> set r"
      using 2(2) [OF far, of i] 2(5,6) unfolding j by (simp add: nth_append)
    then show ?thesis using far unfolding j by (auto simp: nth_append)
  qed
qed auto

lemma split_runs_same:
  assumes "Suc j < length xs" "near (xs ! j) (xs ! Suc j)"
  shows "\<exists>r \<in> set (split_runs near xs). xs ! j \<in> set r \<and> xs ! Suc j \<in> set r"
proof (cases xs)
  case (Cons x ys)
  then show ?thesis using runs_same [of "[x]" x j ys near] assms by simp
qed (use assms in simp)

lemma runs_all_near: "successively near (prev # xs) \<Longrightarrow> runs_from near current prev xs = [current @ xs]"
  by (induction near current prev xs rule: runs_from.induct) auto

lemma split_runs_all_near: "xs \<noteq> [] \<Longrightarrow> successively near xs \<Longrightarrow> split_runs near xs = [xs]"
  by (cases xs) (auto simp: runs_all_near)

section \<open>Orbital planes\<close>

lemma largest_gap_max:
  assumes "ds \<noteq> []"
  shows "snd (largest_gap ds) < length ds \<and> (\<forall>i < length ds. raan_gap ds i \<le> raan_gap ds (snd (largest_gap ds)))"
proof -
  let ?f = "\<lambda>(max_gap, break_idx) i. if raan_gap ds i > max_gap then (raan_gap ds i, i) else (max_gap, break_idx)"
  have pos: "0 \<le> raan_gap ds i" for i unfolding raan_gap_def by (rule py_fmod_range) simp
  have "0 < n \<longrightarrow> (\<exists>b < n. foldl ?f (- 1, 0) [0..<n] = (raan_gap ds b, b) \<and> (\<forall>i < n. raan_gap ds i \<le> raan_gap ds b))" for n
  proof (induction n)
    case (Suc n)
    show ?case
    proof (cases "n = 0")
      case True
      then show ?thesis using pos [of 0] by (auto intro!: exI [of _ 0])
    next
      case False
      then obtain b where b: "b < n" "foldl ?f (- 1, 0) [0..<n] = (raan_gap ds b, b)" "\<forall>i < n. raan_gap ds i \<le> raan_gap ds b"
        using Suc by auto
      show ?thesis
      proof (cases "raan_gap ds n > raan_gap ds b")
        case True
        with b show ?thesis by (intro impI exI [of _ n]) (auto simp: less_Suc_eq intro: less_imp_le order_trans)
      next
        case False
        with b show ?thesis by (intro impI exI [of _ b]) (auto simp: less_Suc_eq)
      qed
    qed
  qed simp
  from this [of "length ds"] assms show ?thesis by (auto simp: largest_gap_def)
qed

lemma rotate_at_gap_rotate:
  assumes "ds \<noteq> []"
  shows "rotate_at_gap ds = rotate (Suc (snd (largest_gap ds))) ds"
proof (cases "Suc (snd (largest_gap ds)) < length ds")
  case True
  then show ?thesis by (simp add: rotate_at_gap_def Let_def rotate_drop_take)
next
  case False
  then have "Suc (snd (largest_gap ds)) = length ds" using largest_gap_max [OF assms] by linarith
  then show ?thesis by (simp add: rotate_at_gap_def Let_def)
qed

definition raan_ok :: "'s sat_data list \<Rightarrow> bool" where
  "raan_ok ds = (\<forall>d \<in> set ds. 0 \<le> sd_raan d \<and> sd_raan d < 360)"

lemma fmod_360:
  assumes "- 360 < x" "x < 360"
  shows "py_fmod x 360 = (if x < 0 then x + 360 else x)"
proof (cases "x < 0")
  case True
  then have "\<lfloor>x / 360\<rfloor> = - 1" using assms by (simp add: floor_eq_iff)
  with True show ?thesis by (simp add: py_fmod_def)
next
  case False
  then have "\<lfloor>x / 360\<rfloor> = 0" using assms by (simp add: floor_eq_iff)
  with False show ?thesis by (simp add: py_fmod_def)
qed

lemma raan_near_gap:
  assumes "raan_ok ds" "i < length ds"
  shows "raan_near t (ds ! i) (ds ! (Suc i mod length ds)) \<longleftrightarrow> raan_gap ds i < t"
proof -
  have "Suc i mod length ds < length ds" using assms(2) by (intro mod_less_divisor) auto
  with assms have r: "0 \<le> sd_raan (ds ! i)" "sd_raan (ds ! i) < 360"
    "0 \<le> sd_raan (ds ! (Suc i mod length ds))" "sd_raan (ds ! (Suc i mod length ds)) < 360"
    by (auto simp: raan_ok_def)
  then show ?thesis
    unfolding raan_near_def raan_gap_def Let_def by (subst fmod_360) auto
qed

lemma rotate_successor:
  assumes "Suc j < length xs"
  shows "rotate m xs ! j = xs ! ((m + j) mod length xs)"
    "rotate m xs ! Suc j = xs ! (Suc ((m + j) mod length xs) mod length xs)"
  using assms by (simp_all add: nth_rotate mod_Suc_eq)

lemma rotated_index:
  assumes "k < n" "b < n" "k \<noteq> b"
  obtains j where "Suc j < n" "k = (Suc b + j) mod n"
proof (cases "b < k")
  case True
  then show thesis using assms by (intro that [of "k - Suc b"]) auto
next
  case False
  then have "Suc b + (n - Suc b + k) = n + k" using assms by linarith
  then show thesis using assms False by (intro that [of "n - Suc b + k"]) auto
qed

lemma rotated_run:
  assumes "raan_ok ds" "k < length ds" "raan_gap ds k < t"
  shows "\<exists>p \<in> set (split_runs (raan_near t) (rotate_at_gap ds)). ds ! k \<in> set p \<and> ds ! (Suc k mod length ds) \<in> set p"
proof -
  have ne: "ds \<noteq> []" using assms(2) by auto
  let ?b = "snd (largest_gap ds)"
  note g = largest_gap_max [OF ne]
  note rot = rotate_at_gap_rotate [OF ne]
  have near: "raan_near t (rotate_at_gap ds ! j) (rotate_at_gap ds ! Suc j) \<longleftrightarrow> raan_gap ds ((Suc ?b + j) mod length ds) < t"
    if "Suc j < length ds" for j
  proof -
    have "(Suc ?b + j) mod length ds < length ds" using ne by (intro mod_less_divisor) simp
    from raan_near_gap [OF assms(1) this] show ?thesis unfolding rot rotate_successor [OF that] .
  qed
  show ?thesis
  proof (cases "k = ?b")
    case True
    have all: "raan_gap ds i < t" if "i < length ds" for i using g that assms(3) unfolding True by force
    have "successively (raan_near t) (rotate_at_gap ds)"
      unfolding successively_conv_nth using near all ne by (simp add: rot)
    then have "split_runs (raan_near t) (rotate_at_gap ds) = [rotate_at_gap ds]"
      using ne by (intro split_runs_all_near) (simp_all add: rot)
    moreover have "Suc k mod length ds < length ds" using ne by (intro mod_less_divisor) simp
    ultimately show ?thesis using assms(2) by (simp add: rot)
  next
    case False
    from rotated_index [OF assms(2) conjunct1 [OF g] False]
    obtain j where j: "Suc j < length ds" "k = (Suc ?b + j) mod length ds" .
    have "raan_near t (rotate_at_gap ds ! j) (rotate_at_gap ds ! Suc j)"
      using near [OF j(1)] assms(3) j(2) by simp
    then have "\<exists>p \<in> set (split_runs (raan_near t) (rotate_at_gap ds)). rotate_at_gap ds ! j \<in> set p \<and> rotate_at_gap ds ! Suc j \<in> set p"
      using j(1) by (intro split_runs_same) (simp add: rot)
    then show ?thesis unfolding rot rotate_successor [OF j(1)] j(2) by blast
  qed
qed

lemma raan_planes_mset: "mset (concat (raan_planes t ds)) = mset ds"
proof -
  have "mset (rotate_at_gap xs) = mset xs" for xs :: "'a sat_data list"
    unfolding rotate_at_gap_def Let_def by (metis append_take_drop_id mset_append union_commute)
  then show ?thesis by (simp add: raan_planes_def split_runs_concat)
qed

text \<open>
  \<^bold>\<open>C25.\<close> Grouping by right ascension respects the circle: for angles from 0 up to 360 degrees the
  groups contain every satellite exactly once, neighbours within a group are closer than the threshold,
  and any two satellites that are neighbours on the circle and closer than the threshold are in one
  group, also across 0 degrees.
\<close>

theorem raan_planes_circular:
  assumes "raan_ok ds"
  defines "xs \<equiv> sort_key sd_raan ds"
  shows "mset (concat (raan_planes t ds)) = mset ds
    \<and> (\<forall>p \<in> set (raan_planes t ds). p \<noteq> [] \<and> successively (raan_near t) p)
    \<and> (\<forall>k < length xs. raan_gap xs k < t \<longrightarrow>
        (\<exists>p \<in> set (raan_planes t ds). xs ! k \<in> set p \<and> xs ! (Suc k mod length xs) \<in> set p))"
proof (intro conjI)
  show "mset (concat (raan_planes t ds)) = mset ds" by (rule raan_planes_mset)
  show "\<forall>p \<in> set (raan_planes t ds). p \<noteq> [] \<and> successively (raan_near t) p"
    unfolding raan_planes_def using split_runs_near by blast
  have "raan_ok xs" using assms by (simp add: raan_ok_def)
  then show "\<forall>k < length xs. raan_gap xs k < t \<longrightarrow>
      (\<exists>p \<in> set (raan_planes t ds). xs ! k \<in> set p \<and> xs ! (Suc k mod length xs) \<in> set p)"
    using rotated_run [of xs] unfolding raan_planes_def xs_def by blast
qed

text \<open>Three satellites around 0 degrees and one apart.\<close>

definition example_sats :: "nat sat_data list" where
  "example_sats = [(0, 1, 10, 550), (1, 90, 20, 550), (2, 359, 30, 550), (3, 270, 40, 550)]"

theorem raan_planes_circular_witness:
  "mset (concat (raan_planes 5 example_sats)) = mset example_sats"
  using raan_planes_circular [of example_sats 5] by (simp add: example_sats_def raan_ok_def)

lemma mset_concat_cong: "mset xs = mset ys \<Longrightarrow> mset (concat xs) = mset (concat ys)"
  by (metis mset_concat mset_map sum_mset_sum_list)

lemma mset_concat_map:
  "(\<And>x. x \<in> set xs \<Longrightarrow> mset (concat (f x)) = mset x) \<Longrightarrow> mset (concat (concat (map f xs))) = mset (concat xs)"
  by (induction xs) auto

lemma altitude_planes_mset: "mset (concat (altitude_planes d p)) = mset p"
  by (simp add: altitude_planes_def split_runs_concat)

lemma concat_strip: "concat (map strip_plane ps) = strip_plane (concat ps)"
  by (induction ps) (auto simp: strip_plane_def)

lemma planes_sorted:
  "map snd (sort_key fst (map (\<lambda>p. (average_raan p, strip_plane p)) ps)) = map strip_plane (sort_key average_raan ps)"
  by (simp add: sort_key_map comp_def)

text \<open>
  \<^bold>\<open>C26.\<close> The orbital planes partition the satellites: every satellite with orbital elements is in
  exactly one plane, with its phase, no plane is empty, and within a plane neighbours by altitude
  are closer than the allowed difference.
\<close>

theorem orbital_planes_partition:
  "mset (concat (planes_of t d ds)) = mset (map (\<lambda>s. (fst s, sd_phase s)) ds)
   \<and> [] \<notin> set (planes_of t d ds)
   \<and> (\<forall>p \<in> set (planes_of t d ds). \<exists>q. p = strip_plane q \<and> set q \<subseteq> set ds
        \<and> successively (\<lambda>a b. sd_altitude b - sd_altitude a < d) q \<and> sorted (map sd_altitude q))"
proof (cases "ds = []")
  case False
  let ?ps = "concat (map (altitude_planes d) (raan_planes t ds))"
  have ps: "planes_of t d ds = map strip_plane (sort_key average_raan ?ps)"
    using False by (simp add: planes_of_def Let_def planes_sorted)
  have m: "mset (concat ?ps) = mset ds"
    using mset_concat_map [of "raan_planes t ds" "altitude_planes d"] by (simp add: altitude_planes_mset raan_planes_mset)
  have "mset (concat (sort_key average_raan ?ps)) = mset ds"
    using mset_concat_cong [of "sort_key average_raan ?ps" ?ps] m by simp
  then have "mset (concat (planes_of t d ds)) = mset (map (\<lambda>s. (fst s, sd_phase s)) ds)"
    unfolding ps concat_strip by (simp add: strip_plane_def)
  moreover have q: "q \<noteq> [] \<and> set q \<subseteq> set ds \<and> successively (\<lambda>a b. sd_altitude b - sd_altitude a < d) q \<and> sorted (map sd_altitude q)"
    if q: "q \<in> set ?ps" for q
  proof -
    from q obtain p where p: "p \<in> set (raan_planes t ds)" "q \<in> set (altitude_planes d p)" by auto
    have "set q \<subseteq> set (concat ?ps)" using q by auto
    also have "\<dots> = set ds" using m by (rule mset_eq_setD)
    finally have "set q \<subseteq> set ds" .
    moreover obtain us vs where "altitude_planes d p = us @ q # vs" using p(2) by (meson split_list)
    then have "sort_key sd_altitude p = concat us @ q @ concat vs"
      using split_runs_concat [of "\<lambda>a b. sd_altitude b - sd_altitude a < d" "sort_key sd_altitude p"]
      by (simp add: altitude_planes_def)
    then have "sorted (map sd_altitude q)"
      using sorted_sort_key [of sd_altitude p] by (simp add: sorted_append)
    ultimately show ?thesis using p(2) split_runs_near unfolding altitude_planes_def by blast
  qed
  moreover have "[] \<notin> set (planes_of t d ds)"
    using q unfolding ps by (auto simp: strip_plane_def)
  moreover have "\<forall>p \<in> set (planes_of t d ds). \<exists>q. p = strip_plane q \<and> set q \<subseteq> set ds
      \<and> successively (\<lambda>a b. sd_altitude b - sd_altitude a < d) q \<and> sorted (map sd_altitude q)"
  proof
    fix p
    assume "p \<in> set (planes_of t d ds)"
    then obtain q where "p = strip_plane q" "q \<in> set ?ps" unfolding ps by auto
    with q show "\<exists>q. p = strip_plane q \<and> set q \<subseteq> set ds
      \<and> successively (\<lambda>a b. sd_altitude b - sd_altitude a < d) q \<and> sorted (map sd_altitude q)" by blast
  qed
  ultimately show ?thesis by blast
qed (simp add: planes_of_def)

theorem orbital_planes_partition_witness:
  "mset (concat (planes_of 5 50 example_sats)) = mset [(0, 10), (1, 20), (2, 30), (3, 40)]"
  using orbital_planes_partition [of 5 50 example_sats] by (simp add: example_sats_def)

text \<open>
  A plane across 0 degrees is put in the wrong place: the average of its right ascensions
  lies near 180 degrees, so of planes at 0, 30 and 60 degrees the first one comes last, next to the one
  at 60 degrees, although grouping had them in the right order.
\<close>

theorem wrapped_plane_misplaced:
  "raan_planes 5 [(0 :: nat, 1, 0, 550), (1, 359, 0, 550), (2, 30, 0, 550), (3, 60, 0, 550)] =
     [[(1, 359, 0, 550), (0, 1, 0, 550)], [(2, 30, 0, 550)], [(3, 60, 0, 550)]]
   \<and> planes_of 5 50 [(0 :: nat, 1, 0, 550), (1, 359, 0, 550), (2, 30, 0, 550), (3, 60, 0, 550)] =
     [[(2, 0)], [(3, 0)], [(1, 0), (0, 0)]]"
proof -
  have s: "sort_key sd_raan [(0 :: nat, 1, 0, 550), (1, 359, 0, 550), (2, 30, 0, 550), (3, 60, 0, 550)] =
      [(0, 1, 0, 550), (2, 30, 0, 550), (3, 60, 0, 550), (1, 359, 0, 550)]" by simp
  have g: "largest_gap [(0 :: nat, 1, 0, 550), (2, 30, 0, 550), (3, 60, 0, 550), (1, 359, 0, 550)] = (299, 2)"
    by (simp add: largest_gap_def raan_gap_def fmod_360 upt_rec)
  have r: "raan_planes 5 [(0 :: nat, 1, 0, 550), (1, 359, 0, 550), (2, 30, 0, 550), (3, 60, 0, 550)] =
     [[(1, 359, 0, 550), (0, 1, 0, 550)], [(2, 30, 0, 550)], [(3, 60, 0, 550)]]"
    unfolding raan_planes_def s rotate_at_gap_def g by (simp add: raan_near_def)
  show ?thesis
    using r by (simp add: planes_of_def altitude_planes_def average_raan_def strip_plane_def Let_def)
qed

section \<open>The mesh\<close>

lemma steps_total:
  "(\<And>x. x \<in> set xs \<Longrightarrow> f x = (g x, None)) \<Longrightarrow> steps f xs = (concat (map g xs), None)"
  by (induction xs) auto

lemma steps_calls: "c \<in> set (fst (steps f xs)) \<Longrightarrow> \<exists>x \<in> set xs. c \<in> set (fst (f x))"
proof (induction xs)
  case (Cons x xs)
  obtain cs r where f: "f x = (cs, r)" by fastforce
  obtain cs' r' where s: "steps f xs = (cs', r')" by fastforce
  show ?case
  proof (cases r)
    case None
    with Cons f s show ?thesis by auto
  next
    case (Some e)
    with Cons.prems f show ?thesis by auto
  qed
qed simp

lemma then_calls_calls: "c \<in> set (fst (then_calls a b)) \<Longrightarrow> c \<in> set (fst a) \<or> c \<in> set (fst b)"
  by (auto simp: then_calls_def split: prod.splits option.splits)

lemma ring_pairs_zip: "2 \<le> length ss \<Longrightarrow> ring_pairs ss = zip ss (rotate1 ss)"
  by (rule nth_equalityI) (simp_all add: ring_pairs_def Let_def nth_rotate1)

lemma set_ring_pairs: "(a, b) \<in> set (ring_pairs ss) \<Longrightarrow> a \<in> set ss \<and> b \<in> set ss"
  by (auto simp: ring_pairs_def Let_def intro!: nth_mem mod_less_divisor split: if_splits)

lemma set_by_phase [simp]: "set (by_phase p) = fst ` set p"
  by (simp add: by_phase_def)

text \<open>
  The links within a plane form one ring in the order of the phase: every satellite of a
  plane of at least two is the source of exactly one link and the target of exactly one, the link
  from the last satellite leading back to the first. For two satellites this is the same pair twice.
\<close>

theorem orbital_links_ring:
  assumes "\<And>a b. me_create_isl env a b = None" and "2 \<le> length plane"
  shows "orbital_links env plane =
      (map (\<lambda>(a, b). IslCall a b OrbitalLink) (zip (by_phase plane) (rotate1 (by_phase plane))), None)
    \<and> mset (by_phase plane) = mset (map fst plane) \<and> sorted (map snd (sort_key snd plane))"
proof -
  have "2 \<le> length (by_phase plane)" using assms(2) by (simp add: by_phase_def)
  moreover have "steps (add_isl env OrbitalLink) ps = (concat (map (\<lambda>p. [IslCall (fst p) (snd p) OrbitalLink]) ps), None)" for ps
    by (intro steps_total) (simp add: add_isl_def assms(1))
  moreover have "concat (map (\<lambda>p. [IslCall (fst p) (snd p) OrbitalLink]) ps) = map (\<lambda>(a, b). IslCall a b OrbitalLink) ps"
    for ps :: "('a \<times> 'a) list" by (induction ps) auto
  ultimately show ?thesis by (simp add: orbital_links_def ring_pairs_zip) (simp add: by_phase_def)
qed

definition easy_env :: "(nat, nat) mesh_env" where
  "easy_env = \<lparr>me_elements = (\<lambda>s. Inr (Some (0, real s, 550))), me_position = (\<lambda>s. Inr (7000, real s, 0)),
     me_create_isl = (\<lambda>_ _. None), me_closest = (\<lambda>g. Inr g), me_create_gsl = (\<lambda>_ _. None)\<rparr>"

theorem orbital_links_ring_witness:
  "orbital_links easy_env [(0, 30), (1, 10), (2, 20)] =
     ([IslCall 1 2 OrbitalLink, IslCall 2 0 OrbitalLink, IslCall 0 1 OrbitalLink], None)"
  using orbital_links_ring [of easy_env "[(0, 30), (1, 10), (2, 20)]"]
  by (simp add: easy_env_def by_phase_def)

lemma add_isl_calls: "c \<in> set (fst (add_isl env d p)) \<Longrightarrow> c = IslCall (fst p) (snd p) d"
  by (auto simp: add_isl_def split: option.splits)

lemma consecutive:
  "(p, q) \<in> set (zip (butlast ps) (tl ps)) \<Longrightarrow> \<exists>i. Suc i < length ps \<and> p = ps ! i \<and> q = ps ! Suc i"
proof -
  assume "(p, q) \<in> set (zip (butlast ps) (tl ps))"
  then obtain i where "i < length (butlast ps)" "i < length (tl ps)" "p = butlast ps ! i" "q = tl ps ! i"
    by (auto simp: set_zip)
  then show ?thesis by (intro exI [of _ i]) (simp add: nth_butlast nth_tl)
qed

definition mesh_call_ok :: "('s, 'g) mesh_env \<Rightarrow> nat \<Rightarrow> ('s \<times> real) list list \<Rightarrow> ('s, 'g) mesh_call \<Rightarrow> bool" where
  "mesh_call_ok env min_plane_size planes c = (case c of
     IslCall a b OrbitalLink \<Rightarrow> (\<exists>p \<in> set planes. a \<in> fst ` set p \<and> b \<in> fst ` set p)
   | IslCall a b AdjacentLink \<Rightarrow>
       (\<exists>i. Suc i < length planes \<and> a \<in> fst ` set (planes ! i) \<and> b \<in> fst ` set (planes ! Suc i)
          \<and> min_plane_size \<le> length (planes ! i) \<and> min_plane_size \<le> length (planes ! Suc i))
       \<and> (\<exists>r_a r_b. me_position env a = Inr r_a \<and> me_position env b = Inr r_b \<and> norm3 (sub3 r_a r_b) \<le> 4000)
   | GslCall s g \<Rightarrow> me_closest env g = Inr s)"

lemma orbital_call_ok:
  assumes "c \<in> set (fst (steps (orbital_links env) planes))"
  shows "mesh_call_ok env k planes c"
proof -
  from steps_calls [OF assms] obtain p where p: "p \<in> set planes" "c \<in> set (fst (orbital_links env p))" by blast
  from steps_calls [OF p(2) [unfolded orbital_links_def]] obtain ab where
    ab: "ab \<in> set (ring_pairs (by_phase p))" "c \<in> set (fst (add_isl env OrbitalLink ab))" by blast
  from add_isl_calls [OF ab(2)] set_ring_pairs [of "fst ab" "snd ab" "by_phase p"] ab(1) p(1)
  show ?thesis by (auto simp: mesh_call_ok_def)
qed

lemma adjacent_call_ok:
  assumes "c \<in> set (fst (steps (adjacent_links env k) (zip (butlast planes) (tl planes))))"
  shows "mesh_call_ok env k planes c"
proof -
  from steps_calls [OF assms] obtain p q where pq: "(p, q) \<in> set (zip (butlast planes) (tl planes))"
    "c \<in> set (fst (adjacent_links env k (p, q)))" by fastforce
  from steps_calls [OF pq(2) [unfolded adjacent_links_def]] obtain a b where
    ab: "(a, b) \<in> set (adjacent_pairs k p q)" "c \<in> set (fst (adjacent_link env (a, b)))" by fastforce
  from ab(1) have m: "a \<in> fst ` set p" "b \<in> fst ` set q" "k \<le> length p" "k \<le> length q"
    by (auto simp: adjacent_pairs_def split: if_splits dest: set_zip_leftD set_zip_rightD)
  from ab(2) obtain r_a r_b where r: "me_position env a = Inr r_a" "me_position env b = Inr r_b" "norm3 (sub3 r_a r_b) \<le> 4000"
    and c: "c \<in> set (fst (add_isl env AdjacentLink (a, b)))"
    by (auto simp: adjacent_link_def not_less split: sum.splits if_splits)
  have "\<exists>r_a r_b. me_position env a = Inr r_a \<and> me_position env b = Inr r_b \<and> norm3 (sub3 r_a r_b) \<le> 4000"
    using r by blast
  moreover have "\<exists>i. Suc i < length planes \<and> a \<in> fst ` set (planes ! i) \<and> b \<in> fst ` set (planes ! Suc i)
      \<and> k \<le> length (planes ! i) \<and> k \<le> length (planes ! Suc i)"
    using consecutive [OF pq(1)] m by blast
  ultimately show ?thesis using add_isl_calls [OF c] by (simp add: mesh_call_ok_def)
qed

lemma ground_call_ok:
  assumes "c \<in> set (fst (steps (ground_link env) stations))"
  shows "mesh_call_ok env k planes c"
proof -
  from steps_calls [OF assms] obtain g where g: "c \<in> set (fst (ground_link env g))" by blast
  then obtain s where s: "me_closest env g = Inr s" by (cases "me_closest env g") (auto simp: ground_link_def)
  with g have "c = GslCall s g" by (auto simp: ground_link_def split: option.splits)
  with s show ?thesis by (simp add: mesh_call_ok_def)
qed

text \<open>
  \<^bold>\<open>C27.\<close> Every link the mesh creates is one it should: a link within a plane joins two satellites
  of one plane, a link between planes joins satellites of consecutive planes of sufficient size that are
  at most 4000 km apart, and a ground station is linked to the satellite the simulation finds closest.
  This holds for what was created before an exception, too.
\<close>

theorem mesh_links_sound:
  assumes "group_satellites_by_orbital_plane (me_elements env) satellites 5 max_difference = Inr planes"
    and "c \<in> set (fst (add_mesh_links env orbital adjacent ground max_difference k satellites stations))"
  shows "mesh_call_ok env k planes c"
proof -
  let ?o = "if orbital then steps (orbital_links env) planes else ([], None)"
  let ?a = "if adjacent \<and> length planes \<ge> 2 then steps (adjacent_links env k) (zip (butlast planes) (tl planes)) else ([], None)"
  let ?g = "if ground then steps (ground_link env) stations else ([], None)"
  have "add_mesh_links env orbital adjacent ground max_difference k satellites stations =
      (if length satellites < 2 \<or> planes = [] then ([], None) else then_calls ?o (then_calls ?a ?g))"
    unfolding add_mesh_links_def assms(1) sum.case by (cases "length satellites < 2") simp_all
  then have "c \<in> set (fst (then_calls ?o (then_calls ?a ?g)))"
    using assms(2) by (cases "length satellites < 2 \<or> planes = []") (simp_all only: if_True if_False fst_conv list.set empty_iff)
  then have "c \<in> set (fst ?o) \<or> c \<in> set (fst ?a) \<or> c \<in> set (fst ?g)"
    using then_calls_calls by metis
  then show ?thesis
    using orbital_call_ok adjacent_call_ok ground_call_ok by (auto split: if_splits)
qed

theorem mesh_links_sound_witness:
  "mesh_call_ok easy_env 1 [[(1, 1), (0, 0)]] (GslCall 7 7)"
proof -
  have g: "group_satellites_by_orbital_plane (me_elements easy_env) [0, 1] 5 50 = Inr [[(1, 1), (0, 0)]]"
    by (simp add: group_satellites_by_orbital_plane_def sat_data_of_def easy_env_def List.map_filter_def planes_of_def
        raan_planes_def rotate_at_gap_def largest_gap_def raan_gap_def py_fmod_def raan_near_def altitude_planes_def
        average_raan_def strip_plane_def Let_def)
  have "GslCall 7 7 \<in> set (fst (add_mesh_links easy_env True True True 50 1 [0, 1] [7]))"
    unfolding add_mesh_links_def g
    by (simp add: then_calls_def orbital_links_def ring_pairs_def by_phase_def add_isl_def ground_link_def easy_env_def)
  from mesh_links_sound [OF g this] show ?thesis .
qed

end
