(* ===== verification/Setup_Facts.thy ===== *)
theory Setup_Facts
  imports Projects
begin

text \<open>
  Facts about setting a project up: dates are read back as they are printed and an omitted end
  date is ten minutes after the start, a file of ground stations is read back as it was written,
  a custom ground station gets a domain in which it can be connected, and a custom satellite is new.
\<close>

section \<open>Dates\<close>

lemma date_digits: "list_all is_digit (dec n)"
  using dec_digits by (simp add: list_all_iff)

lemma foldl_pad2: "foldl (\<lambda>a c. a * 10 + digit_val c) 0 (pad2 n) = n"
  using foldl_dec [of n] by (simp add: pad2_def digit_val_def)

lemma dec_one_digit: "n < 10 \<Longrightarrow> dec n = [digit_char n]"
  by (subst dec.simps) simp

lemma dec_length: "n < 10 \<Longrightarrow> length (dec n) = 1"
  "10 \<le> n \<Longrightarrow> length (dec n) = Suc (length (dec (n div 10)))"
  by (subst dec.simps, simp)+

lemma pad2_length: "n < 100 \<Longrightarrow> length (pad2 n) = 2"
proof (cases "n < 10")
  case False
  assume "n < 100"
  then have "n div 10 < 10" by simp
  with False show ?thesis by (simp add: pad2_def dec_length)
qed (simp add: pad2_def dec_length)

lemma year_length: "1000 \<le> n \<Longrightarrow> n \<le> 9999 \<Longrightarrow> length (dec n) = 4"
proof -
  assume n: "1000 \<le> n" "n \<le> 9999"
  then have "10 \<le> n" "10 \<le> n div 10" "10 \<le> n div 10 div 10" "n div 10 div 10 div 10 < 10" by simp_all
  then show ?thesis by (simp only: dec_length)
qed

lemma pad2_digits: "list_all is_digit (pad2 n)"
  using date_digits [of n] by (simp add: pad2_def is_digit_def)

lemma date_field_pad2: "lo \<le> n \<Longrightarrow> n \<le> hi \<Longrightarrow> n < 100 \<Longrightarrow> date_field lo hi (pad2 n) = Some n"
  using pad2_length [of n] pad2_digits [of n] by (auto simp: date_field_def foldl_pad2)

lemma pad2_first: "n < 100 \<Longrightarrow> \<exists>c d. pad2 n = [c, d] \<and> is_digit c \<and> is_digit d"
  using pad2_length [of n] pad2_digits [of n] by (auto simp: length_Suc_conv numeral_2_eq_2)

lemma day_field_pad2:
  assumes "1 \<le> n" "n \<le> 31"
  shows "day_field (pad2 n) = Some n"
proof -
  obtain c d where p: "pad2 n = [c, d]" "is_digit c" using pad2_first [of n] assms by auto
  then have "c \<noteq> CHR '' ''" by (auto simp: is_digit_def)
  with p date_field_pad2 [of 1 n 31] assms show ?thesis by (simp add: day_field_def)
qed

lemma pad2_no_char: "\<not> is_digit c \<Longrightarrow> c \<notin> set (pad2 n)"
  using pad2_digits [of n] by (auto simp: list_all_iff)

lemma days_in_month_le: "days_in_month y m \<le> 31"
  by (simp add: days_in_month_def)

lemma format_date_parse:
  assumes "datetime_ok d" "1000 \<le> dt_year d"
  shows "parse_date (format_date d) = Inr d"
proof -
  define clock where "clock = pad2 (dt_hour d) @ '':'' @ pad2 (dt_minute d) @ '':'' @ pad2 (dt_second d)"
  have r: "dt_day d < 100" "dt_month d < 100" "dt_hour d < 100" "dt_minute d < 100" "dt_second d < 100"
    "1 \<le> dt_day d" "dt_day d \<le> 31" "1 \<le> dt_month d" "dt_month d \<le> 12" "dt_hour d \<le> 23" "dt_minute d \<le> 59"
    "dt_second d \<le> 61" "dt_year d \<le> 9999"
    using assms(1) days_in_month_le [of "dt_year d" "dt_month d"] by (auto simp: datetime_ok_def)
  have nd: "CHR ''/'' \<notin> set (pad2 n)" "CHR '':'' \<notin> set (pad2 n)" for n
    by (rule pad2_no_char; simp add: is_digit_def)+
  have "CHR ''/'' \<notin> set (dec (dt_year d) @ '' '' @ clock)"
    using nd by (auto simp: clock_def dec_no_nondigit is_digit_def)
  then have s1: "split_on (CHR ''/'') (format_date d) = [pad2 (dt_day d), pad2 (dt_month d), dec (dt_year d) @ '' '' @ clock]"
    using nd by (simp add: format_date_def clock_def)
  have s2: "split_on (CHR '':'') clock = [pad2 (dt_hour d), pad2 (dt_minute d), pad2 (dt_second d)]"
    using nd by (simp add: clock_def)
  obtain c where c: "clock = c # tl clock" "\<not> is_space c"
    using pad2_first [OF r(3)] is_digit_not_space by (auto simp: clock_def)
  have sp: "is_space (CHR '' '')" by (simp add: is_space_def)
  have dw: "dropWhile is_space clock = clock" by (subst (1 2) c(1)) (simp add: c(2))
  have y: "length (dec (dt_year d)) = 4" using year_length assms(2) r(13) by simp
  have e: "\<lparr>dt_year = dt_year d, dt_month = dt_month d, dt_day = dt_day d, dt_hour = dt_hour d, dt_minute = dt_minute d,
      dt_second = dt_second d\<rparr> = d" by simp
  have "datetime_ok \<lparr>dt_year = dt_year d, dt_month = dt_month d, dt_day = dt_day d, dt_hour = dt_hour d,
      dt_minute = dt_minute d, dt_second = dt_second d\<rparr>" unfolding e by (rule assms(1))
  then show ?thesis
    unfolding parse_date_def s1 using y s2 assms(1) r date_digits [of "dt_year d"]
    by (simp add: sp dw day_field_pad2 date_field_pad2 foldl_dec Let_def)
qed

text \<open>
  A date is read back as it is printed: for every valid date from the year 1000 on, parsing
  the text of the documented format gives the same date.
\<close>

theorem date_roundtrip:
  assumes "datetime_ok d" and "1000 \<le> dt_year d"
  shows "parse_date (format_date d) = Inr d"
  using format_date_parse [OF assms] .

definition example_date :: datetime where
  "example_date = \<lparr>dt_year = 2024, dt_month = 2, dt_day = 29, dt_hour = 23, dt_minute = 55, dt_second = 7\<rparr>"

theorem date_roundtrip_witness: "parse_date (format_date example_date) = Inr example_date"
  using date_roundtrip [of example_date] by (simp add: example_date_def datetime_ok_def days_in_month_def leap_def)

text \<open>The number of days before a date and of seconds before a time, counted from the year 1.\<close>

definition days_before_year :: "nat \<Rightarrow> nat" where
  "days_before_year y = (y - 1) * 365 + (y - 1) div 4 - (y - 1) div 100 + (y - 1) div 400"

definition days_before_month :: "nat \<Rightarrow> nat \<Rightarrow> nat" where
  "days_before_month y m = sum_list (map (days_in_month y) [1..<m])"

definition day_number :: "datetime \<Rightarrow> nat" where
  "day_number d = days_before_year (dt_year d) + days_before_month (dt_year d) (dt_month d) + dt_day d"

definition seconds_of :: "datetime \<Rightarrow> nat" where
  "seconds_of d = day_number d * 86400 + dt_hour d * 3600 + dt_minute d * 60 + dt_second d"

lemma div_Suc_dvd: "0 < k \<Longrightarrow> Suc n div k = n div k + (if Suc n mod k = 0 then 1 else 0)" for n k :: nat
  by (simp add: div_Suc)

lemma year_days:
  assumes "1 \<le> y"
  shows "days_before_year (Suc y) = days_before_year y + (if leap y then 366 else 365)"
proof -
  obtain n where y: "y = Suc n" using assms by (cases y) auto
  have "n div 100 \<le> n div 4" by (simp add: div_le_mono2)
  then obtain k where k: "n div 4 = n div 100 + k" using le_Suc_ex by blast
  have "Suc n mod 400 = 0 \<Longrightarrow> Suc n mod 100 = 0" "Suc n mod 100 = 0 \<Longrightarrow> Suc n mod 4 = 0" by presburger+
  then consider "Suc n mod 4 \<noteq> 0" "Suc n mod 100 \<noteq> 0" "Suc n mod 400 \<noteq> 0"
    | "Suc n mod 4 = 0" "Suc n mod 100 \<noteq> 0" "Suc n mod 400 \<noteq> 0"
    | "Suc n mod 4 = 0" "Suc n mod 100 = 0" "Suc n mod 400 \<noteq> 0"
    | "Suc n mod 4 = 0" "Suc n mod 100 = 0" "Suc n mod 400 = 0" by argo
  then show ?thesis
    unfolding days_before_year_def y leap_def
    by cases (simp_all add: k div_Suc_dvd [of 4 n] div_Suc_dvd [of 100 n] div_Suc_dvd [of 400 n])
qed

lemma month_days: "1 \<le> m \<Longrightarrow> days_before_month y (Suc m) = days_before_month y m + days_in_month y m"
  by (simp add: days_before_month_def)

lemma year_by_months: "days_before_month y 12 + days_in_month y 12 = (if leap y then 366 else 365)"
  by (simp add: days_before_month_def days_in_month_def upt_rec)

lemma next_day_number:
  assumes "datetime_ok d" "next_day d = Inr e"
  shows "day_number e = Suc (day_number d) \<and> dt_hour e = dt_hour d \<and> dt_minute e = dt_minute d \<and> dt_second e = dt_second d"
proof -
  have ok: "1 \<le> dt_year d" "1 \<le> dt_month d" "dt_month d \<le> 12" "dt_day d \<le> days_in_month (dt_year d) (dt_month d)"
    using assms(1) by (auto simp: datetime_ok_def)
  consider "dt_day d < days_in_month (dt_year d) (dt_month d)"
    | "dt_day d = days_in_month (dt_year d) (dt_month d)" "dt_month d < 12"
    | "dt_day d = days_in_month (dt_year d) (dt_month d)" "dt_month d = 12"
    using ok by linarith
  then show ?thesis
  proof cases
    case 1
    with assms(2) show ?thesis by (auto simp: next_day_def day_number_def)
  next
    case 2
    with assms(2) ok month_days [of "dt_month d" "dt_year d"] show ?thesis by (auto simp: next_day_def day_number_def)
  next
    case 3
    then have e: "e = d\<lparr>dt_day := 1, dt_month := 1, dt_year := dt_year d + 1\<rparr>"
      using assms(2) by (auto simp: next_day_def split: if_splits)
    show ?thesis
      unfolding e using 3 year_days [OF ok(1)] year_by_months [of "dt_year d"]
      by (simp add: day_number_def) (simp add: days_before_month_def)
  qed
qed

lemma add_ten_minutes_seconds:
  assumes "datetime_ok d" "add_ten_minutes d = Inr e"
  shows "seconds_of e = seconds_of d + 600"
proof -
  have t: "dt_hour d \<le> 23" "dt_minute d \<le> 59" using assms(1) by (auto simp: datetime_ok_def)
  consider "dt_minute d + 10 < 60" | "\<not> dt_minute d + 10 < 60" "dt_hour d < 23"
    | "\<not> dt_minute d + 10 < 60" "dt_hour d = 23" using t by linarith
  then show ?thesis
  proof cases
    case 1
    with assms(2) show ?thesis by (auto simp: add_ten_minutes_def seconds_of_def day_number_def)
  next
    case 2
    with assms(2) show ?thesis by (auto simp: add_ten_minutes_def seconds_of_def day_number_def)
  next
    case 3
    let ?d = "d\<lparr>dt_minute := dt_minute d + 10 - 60, dt_hour := 0\<rparr>"
    have "datetime_ok ?d" using assms(1) by (auto simp: datetime_ok_def)
    moreover have "next_day ?d = Inr e" using 3 assms(2) by (simp add: add_ten_minutes_def)
    moreover have "day_number ?d = day_number d" by (simp add: day_number_def)
    ultimately have "day_number e = Suc (day_number d)" "dt_hour e = 0" "dt_minute e = dt_minute d + 10 - 60"
      "dt_second e = dt_second d"
      using next_day_number [of ?d e] by auto
    with 3 show ?thesis by (simp add: seconds_of_def)
  qed
qed

lemma next_day_ok:
  assumes "datetime_ok d" "next_day d = Inr e"
  shows "datetime_ok e \<and> dt_year d \<le> dt_year e"
proof -
  have "1 \<le> days_in_month y m" for y m by (simp add: days_in_month_def)
  then show ?thesis using assms by (auto simp: next_day_def datetime_ok_def split: if_splits)
qed

lemma add_ten_minutes_ok:
  assumes "datetime_ok d" "add_ten_minutes d = Inr e"
  shows "datetime_ok e \<and> dt_year d \<le> dt_year e"
proof (cases "dt_minute d + 10 < 60 \<or> dt_hour d < 23")
  case True
  with assms show ?thesis by (auto simp: add_ten_minutes_def datetime_ok_def split: if_splits)
next
  case False
  then have "next_day (d\<lparr>dt_minute := dt_minute d + 10 - 60, dt_hour := 0\<rparr>) = Inr e"
    using assms(2) by (simp add: add_ten_minutes_def)
  moreover have "datetime_ok (d\<lparr>dt_minute := dt_minute d + 10 - 60, dt_hour := 0\<rparr>)"
    using assms(1) by (auto simp: datetime_ok_def)
  ultimately show ?thesis using next_day_ok by fastforce
qed

lemma parse_date_ok: "parse_date s = Inr d \<Longrightarrow> datetime_ok d"
  by (auto simp: parse_date_def Let_def split: list.splits option.splits if_splits)

text \<open>
  An omitted end date is exactly ten minutes after the effective start date, whether the
  start is given or is the current time, and also at the end of a day, a month or a year; both dates
  are returned in the documented format.
\<close>

theorem default_end_date:
  assumes "resolve_simulation_dates now start_date [] = Inr (s, e)"
    and "datetime_ok now" "1000 \<le> dt_year now"
    and "\<And>d. parse_date start_date = Inr d \<Longrightarrow> 1000 \<le> dt_year d"
  shows "\<exists>d d'. parse_date s = Inr d \<and> parse_date e = Inr d' \<and> seconds_of d' = seconds_of d + 600
    \<and> (if start_date = [] then d = now else s = start_date)"
proof -
  obtain d d' where d: "parse_date s = Inr d" "datetime_ok d" "1000 \<le> dt_year d"
    and e: "add_ten_minutes d = Inr d'" "e = format_date d'"
    and s: "if start_date = [] then d = now else s = start_date"
  proof (cases "start_date = []")
    case True
    with assms(1) obtain d' where "add_ten_minutes now = Inr d'" "e = format_date d'" "s = format_date now"
      by (auto simp: resolve_simulation_dates_def)
    with True that format_date_parse [OF assms(2,3)] assms(2,3) show thesis by simp
  next
    case False
    with assms(1) obtain d d' where "parse_date start_date = Inr d" "add_ten_minutes d = Inr d'" "e = format_date d'"
      "s = start_date"
      by (auto simp: resolve_simulation_dates_def)
    with False that assms(4) parse_date_ok show thesis by simp
  qed
  from add_ten_minutes_ok [OF d(2) e(1)] d(3) have "parse_date e = Inr d'"
    unfolding e(2) by (intro format_date_parse) auto
  with d(1) s add_ten_minutes_seconds [OF d(2) e(1)] show ?thesis by blast
qed

theorem default_end_date_witness:
  "\<exists>s e d d'. resolve_simulation_dates example_date [] [] = Inr (s, e) \<and> parse_date s = Inr d \<and> parse_date e = Inr d'
     \<and> seconds_of d' = seconds_of d + 600"
proof -
  obtain e where r: "resolve_simulation_dates example_date [] [] = Inr (format_date example_date, e)"
    by (simp add: resolve_simulation_dates_def add_ten_minutes_def next_day_def example_date_def days_in_month_def leap_def)
  have "datetime_ok example_date" "1000 \<le> dt_year example_date" "parse_date [] = Inr d \<Longrightarrow> 1000 \<le> dt_year d" for d
    by (simp_all add: example_date_def datetime_ok_def days_in_month_def leap_def parse_date_def)
  from default_end_date [OF r this] r show ?thesis by blast
qed

section \<open>Files of ground stations\<close>

lemma py_int_dec_int [simp]: "py_int (dec_int i) = Some i"
proof (cases "i < 0")
  case True
  have "trimmed (CHR ''-'' # dec (nat (- i)))"
    using dec_digits [of "nat (- i)"] is_digit_not_space by (auto simp: trimmed_def is_space_def)
  with True show ?thesis by (simp add: dec_int_def py_int_def)
next
  case False
  then show ?thesis using py_int_dec [of "nat i"] by (simp add: dec_int_def)
qed

lemma dec_int_chars: "c \<in> set (dec_int i) \<Longrightarrow> is_digit c \<or> c = CHR ''-''"
  using dec_digits by (auto simp: dec_int_def split: if_splits)

lemma dec_int_no_char: "\<not> is_digit c \<Longrightarrow> c \<noteq> CHR ''-'' \<Longrightarrow> c \<notin> set (dec_int i)"
  using dec_int_chars by blast

text \<open>What the printing of floats has to satisfy for the floats of an entry.\<close>

definition float_ok :: "float_text \<Rightarrow> real \<Rightarrow> bool" where
  "float_ok ft x = (ft_parse ft (ft_repr ft x) = Some x \<and> trimmed (ft_repr ft x)
     \<and> set (ft_repr ft x) \<inter> {CHR '','', newline, CHR 0x0D} = {})"

definition entry_ok :: "float_text \<Rightarrow> station_entry \<Rightarrow> bool" where
  "entry_ok ft e = (float_ok ft (st_latitude e) \<and> float_ok ft (st_longitude e) \<and> float_ok ft (st_elevation_km e)
     \<and> set (st_name e) \<inter> {CHR '','', newline, CHR 0x0D} = {})"

lemma csv_fields_ok:
  assumes "entry_ok ft e"
  shows "\<forall>f \<in> set [dec_int (st_index e), st_name e, ft_repr ft (st_latitude e), ft_repr ft (st_longitude e),
    ft_repr ft (st_elevation_km e)]. set f \<inter> {CHR '','', newline, CHR 0x0D} = {}"
proof -
  have "set (dec_int i) \<inter> {CHR '','', newline, CHR 0x0D} = {}" for i
    using dec_int_no_char [of "CHR '',''" i] dec_int_no_char [of newline i] dec_int_no_char [of "CHR 0x0D" i]
    by (simp add: is_digit_def)
  then show ?thesis using assms by (simp add: entry_ok_def float_ok_def)
qed

lemma csv_line_trimmed:
  assumes "entry_ok ft e"
  shows "trimmed (to_csv_line ft e)"
proof -
  have "dec_int (st_index e) \<noteq> []" by (simp add: dec_int_def)
  then obtain c cs where c: "dec_int (st_index e) = c # cs" by (cases "dec_int (st_index e)") auto
  then have "is_digit c \<or> c = CHR ''-''" using dec_int_chars [of c "st_index e"] by simp
  moreover have "\<not> is_space (CHR ''-'')" by (simp add: is_space_def)
  ultimately have "\<not> is_space c" using is_digit_not_space by blast
  with c assms show ?thesis by (auto simp: to_csv_line_def trimmed_def entry_ok_def float_ok_def)
qed

lemma csv_entry_line:
  assumes "entry_ok ft e"
  shows "csv_entry ft (to_csv_line ft e) = Inr e"
proof -
  have "split_on (CHR '','') (to_csv_line ft e) = [dec_int (st_index e), st_name e, ft_repr ft (st_latitude e),
      ft_repr ft (st_longitude e), ft_repr ft (st_elevation_km e)]"
    unfolding to_csv_line_def using csv_fields_ok [OF assms] by (intro split_on_join) auto
  with csv_line_trimmed [OF assms] assms show ?thesis by (simp add: csv_entry_def entry_ok_def float_ok_def)
qed

lemma csv_line_chars:
  assumes "entry_ok ft e"
  shows "newline \<notin> set (to_csv_line ft e)" "CHR 0x0D \<notin> set (to_csv_line ft e)"
  using csv_fields_ok [OF assms] by (auto simp: to_csv_line_def)

lemma universal_newlines_id: "CHR 0x0D \<notin> set s \<Longrightarrow> universal_newlines s = s"
proof (induction s rule: universal_newlines.induct)
  case (2 c)
  then have "of_char c \<noteq> (of_char (CHR 0x0D) :: nat)" by (simp only: of_char_eq_iff) auto
  then show ?case by simp
next
  case (3 c d cs)
  then have "of_char c \<noteq> (of_char (CHR 0x0D) :: nat)" by (simp only: of_char_eq_iff) auto
  with 3 show ?case by simp
qed simp

lemma split_lines: "\<forall>l \<in> set ls. c \<notin> set l \<Longrightarrow> split_on c (concat (map (\<lambda>l. l @ [c]) ls)) = ls @ [[]]"
  by (induction ls) auto

lemma file_lines_written:
  assumes "\<forall>l \<in> set ls. newline \<notin> set l \<and> CHR 0x0D \<notin> set l"
  shows "file_lines (concat (map (\<lambda>l. l @ [newline]) ls)) = ls"
proof -
  have "CHR 0x0D \<notin> set (concat (map (\<lambda>l. l @ [newline]) ls))" using assms by auto
  then show ?thesis using assms by (simp add: file_lines_def universal_newlines_id split_lines)
qed

text \<open>
  A file of ground stations is read back as it was written: for entries whose names contain no
  comma and no line break, and floats that Python prints and parses back, reading the path that writing
  returned gives the same entries in the same order.
\<close>

theorem station_file_roundtrip:
  assumes "\<forall>e \<in> set (gf_entries g). entry_ok ft e" and "write_file ft base_dir g fs = (path, fs')"
  shows "from_csv ft (gf_identifier g) path fs' = Inr g"
proof -
  let ?ls = "map (to_csv_line ft) (gf_entries g)"
  have "csv_text ft (gf_entries g) = concat (map (\<lambda>l. l @ [newline]) ?ls)" by (simp add: csv_text_def comp_def)
  then have "file_lines (csv_text ft (gf_entries g)) = ?ls"
    using assms(1) csv_line_chars by (simp only:) (intro file_lines_written, auto)
  moreover have "rmap (csv_entry ft) (map (to_csv_line ft) es) = Inr es" if "\<forall>e \<in> set es. entry_ok ft e" for es
    using that by (induction es) (auto simp: csv_entry_line)
  moreover have "dict_get fs' path = Some (csv_text ft (gf_entries g))"
    using assms(2) by (auto simp: write_file_def Let_def)
  ultimately show ?thesis using assms(1) by (simp add: from_csv_def)
qed

definition two_floats :: float_text where
  "two_floats = \<lparr>ft_repr = (\<lambda>x. if x = 0 then ''0.0'' else ''52.5''), ft_parse = (\<lambda>s. if s = ''0.0'' then Some 0 else Some (105 / 2))\<rparr>"

definition berlin_file :: ground_object_file where
  "berlin_file = \<lparr>gf_identifier = ''Ground Stations'', gf_entries =
     [\<lparr>st_index = 0, st_name = ''Berlin'', st_latitude = 105 / 2, st_longitude = 0, st_elevation_km = 0\<rparr>]\<rparr>"

theorem station_file_roundtrip_witness:
  "\<exists>path fs. write_file two_floats ''/tmp'' berlin_file [] = (path, fs)
     \<and> from_csv two_floats ''Ground Stations'' path fs = Inr berlin_file"
proof -
  obtain path fs where w: "write_file two_floats ''/tmp'' berlin_file [] = (path, fs)" by fastforce
  have "\<forall>e \<in> set (gf_entries berlin_file). entry_ok two_floats e"
    by (simp add: berlin_file_def entry_ok_def float_ok_def two_floats_def trimmed_def is_space_def)
  from station_file_roundtrip [OF this w] w show ?thesis by (auto simp: berlin_file_def)
qed

section \<open>Custom objects\<close>

lemma remdups_singleton: "remdups xs = [x] \<Longrightarrow> set xs = {x}"
  by (metis set_remdups list.set(1) list.simps(15))

lemma case_singleton_Inr: "(case xs of [x] \<Rightarrow> Inr (x, m2) | _ \<Rightarrow> Inl err) = Inr (i, m') \<longleftrightarrow> xs = [i] \<and> m2 = m'"
  by (cases xs; cases "tl xs") auto

text \<open>
  A custom satellite that is added without an exception is exactly one new satellite: its
  identifier was not in the simulation before and is the only one that is new afterwards.
\<close>

theorem custom_satellite_is_new:
  assumes "create_custom_satellite parse ops t object_id domain m = Inr (i, m')"
  shows "set (sm_satellite_ids ops m') - set (sm_satellite_ids ops m) = {i}"
proof -
  from assms have "remdups (filter (\<lambda>i. i \<notin> set (sm_satellite_ids ops m)) (sm_satellite_ids ops m')) = [i]"
    by (auto simp: create_custom_satellite_def Let_def case_singleton_Inr)
  from remdups_singleton [OF this] show ?thesis by auto
qed

definition list_manager :: "int list sim_manager" where
  "list_manager = \<lparr>sm_satellite_ids = (\<lambda>m. m), sm_add_satellite = (\<lambda>_ _ _ m. Inr (m @ [int (length m)])),
     sm_update_ground_links = Inr\<rparr>"

theorem custom_satellite_is_new_witness:
  "\<exists>m'. create_custom_satellite (\<lambda>_ _. Inr ()) list_manager \<lparr>tl_name = ''ISS'', tl_line1 = ''1'', tl_line2 = ''2''\<rparr> 0 ''public'' [0, 1]
      = Inr (2, m') \<and> set m' - {0, 1} = {2}"
proof -
  let ?t = "\<lparr>tl_name = ''ISS'', tl_line1 = ''1'', tl_line2 = ''2''\<rparr>"
  have c: "create_custom_satellite (\<lambda>_ _. Inr ()) list_manager ?t 0 ''public'' [0, 1] = Inr (2, [0, 1, 2])"
    by (simp add: create_custom_satellite_def list_manager_def new_orbital_model_def py_strip_def is_space_def)
  from custom_satellite_is_new [OF c] c show ?thesis by (simp add: list_manager_def)
qed

lemma find_some: "List.find P xs = Some x \<Longrightarrow> x \<in> set xs \<and> P x"
  by (auto simp: find_Some_iff)

text \<open>
  A custom ground station always ends up in a domain of the type of ground stations: the one
  it asks for if that has the type, else the first such domain of the simulation, else a new one, which
  is also made when the simulation has domains but none of that type.
\<close>

theorem attached_domain_usable:
  assumes "so_ground_object_domain g = None" and "attach_ground_object_domain lookup g domains = (g', domains')"
  shows "\<exists>d. so_ground_object_domain g' = Some d \<and> gd_type d = Some ''ground_station''
    \<and> (lookup (so_domain g) = Some d \<and> domains' = domains
       \<or> List.find (\<lambda>c. gd_type c = Some ''ground_station'') domains = Some d \<and> domains' = domains
       \<or> (\<forall>c \<in> set domains. gd_type c \<noteq> Some ''ground_station'') \<and> domains' = domains @ [d])"
proof (cases "List.find (\<lambda>c. gd_type c = Some ''ground_station'') domains")
  case None
  then have "\<forall>c \<in> set domains. gd_type c \<noteq> Some ''ground_station''" by (simp add: find_None_iff)
  with None assms show ?thesis
    by (auto simp: attach_ground_object_domain_def Let_def split: option.splits if_splits)
next
  case (Some d)
  with assms find_some [OF Some] show ?thesis
    by (auto simp: attach_ground_object_domain_def Let_def split: option.splits if_splits)
qed

definition leo_domain :: go_domain where
  "leo_domain = \<lparr>gd_identifier = ''LEO'', gd_type = Some ''satellite'', gd_strategy = ''none''\<rparr>"

theorem attached_domain_usable_witness:
  "\<exists>d. attach_ground_object_domain (\<lambda>_. Some leo_domain) (create_custom_ground_station ''Berlin'' 52 13 0 0 ''public'') [leo_domain]
     = (create_custom_ground_station ''Berlin'' 52 13 0 0 ''public'' \<lparr>so_ground_object_domain := Some d\<rparr>, [leo_domain, d])
     \<and> gd_type d = Some ''ground_station''"
proof -
  let ?g = "create_custom_ground_station ''Berlin'' 52 13 0 0 ''public''"
  obtain g' ds where a: "attach_ground_object_domain (\<lambda>_. Some leo_domain) ?g [leo_domain] = (g', ds)" by fastforce
  have n: "so_ground_object_domain ?g = None" by (simp add: create_custom_ground_station_def)
  from attached_domain_usable [OF n a] obtain d where "gd_type d = Some ''ground_station''" "so_ground_object_domain g' = Some d"
    "ds = [leo_domain] \<and> gd_type leo_domain = Some ''ground_station'' \<or> ds = [leo_domain, d]"
    by (auto split: if_splits)
  with a n show ?thesis
    by (auto simp: attach_ground_object_domain_def leo_domain_def Let_def intro!: exI [of _ d])
qed

lemma find_by_name_first:
  "find_by_name label name objects = Inr ob \<longleftrightarrow>
     (\<exists>us vs. objects = us @ ob # vs \<and> label ob = Some name \<and> (\<forall>u \<in> set us. label u \<noteq> Some name))"
proof -
  have "List.find (\<lambda>ob. label ob = Some name) objects = Some ob \<longleftrightarrow>
      (\<exists>us vs. objects = us @ ob # vs \<and> label ob = Some name \<and> (\<forall>u \<in> set us. label u \<noteq> Some name))" (is "?l \<longleftrightarrow> ?r")
  proof
    assume ?l
    then obtain i where i: "i < length objects" "label (objects ! i) = Some name" "ob = objects ! i"
      "\<forall>j < i. label (objects ! j) \<noteq> Some name" by (auto simp: find_Some_iff)
    then have "objects = take i objects @ ob # drop (Suc i) objects" by (simp add: id_take_nth_drop)
    moreover have "\<forall>u \<in> set (take i objects). label u \<noteq> Some name" using i(1,4) by (auto simp: in_set_conv_nth)
    ultimately show ?r using i(2,3) by blast
  next
    assume ?r
    then obtain us vs where "objects = us @ ob # vs" "label ob = Some name" "\<forall>u \<in> set us. label u \<noteq> Some name" by blast
    then show ?l by (induction us arbitrary: objects) auto
  qed
  then show ?thesis by (auto simp: find_by_name_def split: option.splits)
qed

end
