(* ===== verification/Saved_State.thy ===== *)
theory Saved_State
  imports Projects Manager
begin

text \<open>
  Saving and loading of a manager, \<open>to_file\<close> and \<open>from_file\<close> of
  \<open>services/topology_satcom.py\<close> with \<open>_serialize_runtime_state\<close> and
  \<open>_deserialize_runtime_state\<close>.

  The simulation library is an argument: \<open>sim_view\<close> holds what is read of a simulation,
  \<open>sim_edit\<close> what builds one; a call that may raise returns the exception and the simulation
  it leaves. Printing the saved data as JSON and reading it back is the identity here, and the
  attributes of an object that may be missing are options.
\<close>

section \<open>What is read of a simulation\<close>

record sim_satellite =
  ls_id :: int
  ls_name :: string
  ls_object_id :: int
  ls_domain :: string
  ls_line1 :: "string option"
  ls_line2 :: "string option"

text \<open>The attributes of the end of a link that the code looks for.\<close>

record link_end =
  en_satellite :: "string option"
  en_label :: "string option"

record 'm sim_view =
  sv_project :: "'m \<Rightarrow> string option"
  sv_start :: "'m \<Rightarrow> datetime \<times> string"
  sv_end :: "'m \<Rightarrow> datetime \<times> string"
  sv_satellites :: "'m \<Rightarrow> sim_satellite list"
  sv_ground_stations :: "'m \<Rightarrow> sim_ground_object list"
  sv_user_terminals :: "'m \<Rightarrow> sim_ground_object list"
  sv_points_of_presence :: "'m \<Rightarrow> sim_ground_object list"
  sv_isls :: "'m \<Rightarrow> (link_end \<times> link_end \<times> string option) list"
  sv_gsls :: "'m \<Rightarrow> (link_end \<times> link_end) list"
  sv_utls :: "'m \<Rightarrow> (link_end \<times> link_end) list"
  sv_gols :: "'m \<Rightarrow> (link_end \<times> link_end) list"

section \<open>The saved state\<close>

record saved_satellite =
  ss_name :: string
  ss_line1 :: string
  ss_line2 :: string
  ss_object_id :: int
  ss_domain :: string

record saved_ground =
  sg_label :: string
  sg_latitude :: real
  sg_longitude :: real
  sg_altitude :: "real option"
  sg_object_id :: int
  sg_domain :: string

record runtime_state =
  rs_name :: string
  rs_start :: string
  rs_end :: string
  rs_satellites :: "saved_satellite list"
  rs_ground_stations :: "saved_ground list"
  rs_user_terminals :: "saved_ground list"
  rs_points_of_presence :: "saved_ground list"
  rs_isls :: "(string \<times> string \<times> string) list"
  rs_gsls :: "(string \<times> string) list"
  rs_utls :: "(string \<times> string) list"
  rs_gols :: "(string \<times> string) list"

definition or_empty :: "string option \<Rightarrow> string" where
  "or_empty s = (case s of None \<Rightarrow> '''' | Some x \<Rightarrow> x)"

text \<open>\<open>isoformat\<close>: the fraction of a second and the offset from UTC that it may add are the second
  component of a date.\<close>

definition pad4 :: "nat \<Rightarrow> string" where
  "pad4 n = replicate (4 - length (dec n)) (CHR ''0'') @ dec n"

definition isoformat :: "datetime \<times> string \<Rightarrow> string" where
  "isoformat ds = (case ds of (d, suffix) \<Rightarrow> pad4 (dt_year d) @ ''-'' @ pad2 (dt_month d) @ ''-'' @ pad2 (dt_day d) @ ''T''
     @ pad2 (dt_hour d) @ '':'' @ pad2 (dt_minute d) @ '':'' @ pad2 (dt_second d) @ suffix)"

definition save_satellite :: "sim_satellite \<Rightarrow> saved_satellite" where
  "save_satellite s = \<lparr>ss_name = ls_name s, ss_line1 = or_empty (ls_line1 s), ss_line2 = or_empty (ls_line2 s),
     ss_object_id = ls_object_id s, ss_domain = ls_domain s\<rparr>"

definition save_ground :: "sim_ground_object \<Rightarrow> saved_ground" where
  "save_ground g = \<lparr>sg_label = so_label g, sg_latitude = sp_latitude (so_position g), sg_longitude = sp_longitude (so_position g),
     sg_altitude = sp_altitude (so_position g), sg_object_id = so_object_id g, sg_domain = so_domain g\<rparr>"

definition link_end_name :: "link_end \<Rightarrow> string" where
  "link_end_name e = (case en_satellite e of Some n \<Rightarrow> n | None \<Rightarrow> or_empty (en_label e))"

definition save_isl :: "link_end \<times> link_end \<times> string option \<Rightarrow> string \<times> string \<times> string" where
  "save_isl l = (case l of (src, dst, direction) \<Rightarrow> (or_empty (en_satellite src), or_empty (en_satellite dst),
     case direction of None \<Rightarrow> ''UNDEFINED'' | Some d \<Rightarrow> d))"

definition save_link :: "link_end \<times> link_end \<Rightarrow> string \<times> string" where
  "save_link l = (link_end_name (fst l), link_end_name (snd l))"

definition save_ground_link :: "link_end \<times> link_end \<Rightarrow> string \<times> string" where
  "save_ground_link l = (or_empty (en_label (fst l)), or_empty (en_label (snd l)))"

definition serialize_runtime_state :: "'m sim_view \<Rightarrow> 'm \<Rightarrow> runtime_state" where
  "serialize_runtime_state v m =
    \<lparr>rs_name = (case sv_project v m of None \<Rightarrow> ''Constellation'' | Some n \<Rightarrow> n),
     rs_start = isoformat (sv_start v m), rs_end = isoformat (sv_end v m),
     rs_satellites = map save_satellite (sv_satellites v m),
     rs_ground_stations = map save_ground (sv_ground_stations v m),
     rs_user_terminals = map save_ground (sv_user_terminals v m),
     rs_points_of_presence = map save_ground (sv_points_of_presence v m),
     rs_isls = map save_isl (sv_isls v m), rs_gsls = map save_link (sv_gsls v m),
     rs_utls = map save_link (sv_utls v m), rs_gols = map save_ground_link (sv_gols v m)\<rparr>"

section \<open>Building a simulation\<close>

text \<open>\<open>se_load\<close> is \<open>create_and_load_simulation\<close>; a link that was created is known by a handle, on
  which its direction is set; \<open>se_all_ground\<close> are all ground objects, whatever their type.\<close>

record 'm sim_edit =
  se_load :: "simulation_property \<Rightarrow> 'm result"
  se_manager :: "'m sim_manager"
  se_lookup_domain :: "'m \<Rightarrow> string \<Rightarrow> go_domain option"
  se_domains :: "'m \<Rightarrow> go_domain list"
  se_add_domain :: "go_domain \<Rightarrow> 'm \<Rightarrow> 'm result"
  se_add_station :: "sim_ground_object \<Rightarrow> 'm \<Rightarrow> 'm result"
  se_all_ground :: "'m \<Rightarrow> sim_ground_object list"
  se_connect_isl :: "sim_satellite \<Rightarrow> sim_satellite \<Rightarrow> 'm \<Rightarrow> nat result \<times> 'm"
  se_set_direction :: "nat \<Rightarrow> isl_direction \<Rightarrow> 'm \<Rightarrow> 'm"
  se_connect_gsl :: "sim_satellite \<Rightarrow> sim_ground_object \<Rightarrow> 'm \<Rightarrow> unit result \<times> 'm"
  se_connect_gol :: "sim_ground_object \<Rightarrow> sim_ground_object \<Rightarrow> 'm \<Rightarrow> unit result \<times> 'm"

fun restore_satellites :: "(string \<Rightarrow> string \<Rightarrow> unit result) \<Rightarrow> 'm sim_edit \<Rightarrow> saved_satellite list \<Rightarrow> 'm \<Rightarrow> 'm result" where
  "restore_satellites parse ed [] m = Inr m"
| "restore_satellites parse ed (s # ss) m =
    rbind (create_custom_satellite parse (se_manager ed)
        \<lparr>tl_name = ss_name s, tl_line1 = ss_line1 s, tl_line2 = ss_line2 s\<rparr> (ss_object_id s) (ss_domain s) m)
      (\<lambda>(_, m1). restore_satellites parse ed ss m1)"

definition restore_station :: "'m sim_edit \<Rightarrow> saved_ground \<Rightarrow> 'm \<Rightarrow> 'm result" where
  "restore_station ed g m = (case sg_altitude g of
     None \<Rightarrow> Inl (TypeError ''unsupported operand type(s) for /'')
   | Some altitude \<Rightarrow>
      (case attach_ground_object_domain (se_lookup_domain ed m)
          (create_custom_ground_station (sg_label g) (sg_latitude g) (sg_longitude g) (altitude / 1000) (sg_object_id g) (sg_domain g))
          (se_domains ed m) of
        (gs, domains) \<Rightarrow> rbind (if domains = se_domains ed m then Inr m else se_add_domain ed (last domains) m)
          (se_add_station ed gs)))"

fun restore_stations :: "'m sim_edit \<Rightarrow> saved_ground list \<Rightarrow> 'm \<Rightarrow> 'm result" where
  "restore_stations ed [] m = Inr m"
| "restore_stations ed (g # gs) m = rbind (restore_station ed g m) (restore_stations ed gs)"

definition satellite_named :: "'m sim_view \<Rightarrow> 'm \<Rightarrow> string \<Rightarrow> sim_satellite option" where
  "satellite_named v m n = List.find (\<lambda>s. ls_name s = n) (sv_satellites v m)"

definition ground_named :: "sim_ground_object list \<Rightarrow> string \<Rightarrow> sim_ground_object option" where
  "ground_named gs n = List.find (\<lambda>g. so_label g = n) gs"

definition restored_direction :: "string \<Rightarrow> isl_direction option" where
  "restored_direction d = (if d = ''ORBITAL'' then Some OrbitalLink else if d = ''ADJACENT'' then Some AdjacentLink else None)"

definition restore_isl :: "'m sim_view \<Rightarrow> 'm sim_edit \<Rightarrow> string \<times> string \<times> string \<Rightarrow> 'm \<Rightarrow> 'm" where
  "restore_isl v ed l m = (case l of (src, dst, direction) \<Rightarrow>
     case (satellite_named v m src, satellite_named v m dst) of
       (Some a, Some b) \<Rightarrow>
        (case se_connect_isl ed a b m of
           (Inl _, m1) \<Rightarrow> m1
         | (Inr handle, m1) \<Rightarrow> (case restored_direction direction of
             None \<Rightarrow> m1 | Some d \<Rightarrow> se_set_direction ed handle d m1))
     | _ \<Rightarrow> m)"

definition restore_gsl :: "'m sim_view \<Rightarrow> 'm sim_edit \<Rightarrow> string \<times> string \<Rightarrow> 'm \<Rightarrow> 'm" where
  "restore_gsl v ed l m = (case (satellite_named v m (fst l), ground_named (sv_ground_stations v m) (snd l)) of
     (Some a, Some g) \<Rightarrow> snd (se_connect_gsl ed a g m)
   | _ \<Rightarrow> m)"

definition restore_gol :: "'m sim_edit \<Rightarrow> string \<times> string \<Rightarrow> 'm \<Rightarrow> 'm" where
  "restore_gol ed l m = (case (ground_named (se_all_ground ed m) (fst l), ground_named (se_all_ground ed m) (snd l)) of
     (Some a, Some b) \<Rightarrow> snd (se_connect_gol ed a b m)
   | _ \<Rightarrow> m)"

definition deserialize_runtime_state :: "(string \<Rightarrow> string \<Rightarrow> unit result) \<Rightarrow> datetime \<Rightarrow> 'm sim_view \<Rightarrow> 'm sim_edit \<Rightarrow>
    runtime_state \<Rightarrow> 'm result" where
  "deserialize_runtime_state parse now v ed rs =
    rbind (create_empty_project now (rs_name rs) (rs_start rs) (rs_end rs)) (\<lambda>p.
    rbind (se_load ed p) (\<lambda>m0.
    rbind (restore_satellites parse ed (rs_satellites rs) m0) (\<lambda>m1.
    rbind (restore_stations ed (rs_ground_stations rs) m1) (\<lambda>m2.
      Inr (fold (restore_gol ed) (rs_gols rs)
            (fold (restore_gsl v ed) (rs_gsls rs)
              (fold (restore_isl v ed) (rs_isls rs) m2)))))))"

section \<open>Files\<close>

text \<open>A configuration of the simulation is a value of \<open>'p\<close> with the data files of its ground objects;
  \<open>validate\<close> is the check of the schema.\<close>

record 'p config_view =
  cv_data_files :: "'p \<Rightarrow> string list"
  cv_relocate :: "(string \<Rightarrow> string) \<Rightarrow> 'p \<Rightarrow> 'p"
  cv_validate :: "'p \<Rightarrow> 'p result"
  cv_load :: "'p \<Rightarrow> unit result"

record 'p payload =
  pl_property :: 'p
  pl_config :: net_config
  pl_ground_files :: "(string, string \<times> string) dict"
  pl_runtime :: "runtime_state option"

text \<open>\<open>property\<close> is the property a manager was made from, if any, \<open>configured\<close> the one in the
  configuration of the simulation; \<open>given\<close> is the network configuration passed to \<open>to_file\<close>.\<close>

definition to_file :: "'p config_view \<Rightarrow> 'm sim_view \<Rightarrow> Manager.files \<Rightarrow> net_config option \<Rightarrow> net_config \<Rightarrow> 'p option \<Rightarrow> 'p \<Rightarrow> 'm \<Rightarrow> 'p payload" where
  "to_file cv v fs given attrs property configured m =
    (let data = (case property of Some p \<Rightarrow> p | None \<Rightarrow> configured)
     in \<lparr>pl_property = data, pl_config = (case given of Some c \<Rightarrow> c | None \<Rightarrow> saved_config attrs),
         pl_ground_files = collect_ground_files fs (cv_data_files cv data),
         pl_runtime = (case property of None \<Rightarrow> Some (serialize_runtime_state v m) | Some _ \<Rightarrow> None)\<rparr>)"

definition path_stem :: "string \<Rightarrow> string" where
  "path_stem path = (let b = path_basename path; ext = takeWhile (\<lambda>c. c \<noteq> CHR ''.'') (rev b); front = take (length b - length ext - 1) b
     in if CHR ''.'' \<notin> set b \<or> list_all (\<lambda>c. c = CHR ''.'') front then b else front)"

datatype ('m, 'p) loaded = FromState 'm net_config | FromProperty 'p net_config

definition from_file :: "(string \<Rightarrow> string \<Rightarrow> unit result) \<Rightarrow> datetime \<Rightarrow> 'p config_view \<Rightarrow> 'm sim_view \<Rightarrow> 'm sim_edit \<Rightarrow>
    string \<Rightarrow> 'p payload \<Rightarrow> Manager.files \<Rightarrow> ('m, 'p) loaded result \<times> Manager.files" where
  "from_file parse now cv v ed path pl fs = (case pl_runtime pl of
     Some rs \<Rightarrow> (rbind (deserialize_runtime_state parse now v ed rs) (\<lambda>m. Inr (FromState m (pl_config pl))), fs)
   | None \<Rightarrow>
      (case (if pl_ground_files pl = [] then (fs, pl_property pl)
             else (case restore_ground_files (''/tmp/'' @ path_stem path @ ''_ground_files'') (pl_ground_files pl) fs of
               (fs', pm) \<Rightarrow> (fs', cv_relocate cv (relocate pm) (pl_property pl)))) of
        (fs', data) \<Rightarrow> (rbind (cv_validate cv data) (\<lambda>p.
           rbind (cv_load cv p) (\<lambda>_. Inr (FromProperty p (pl_config pl)))), fs')))"

end
