(* ===== verification/Saved_State_Facts.thy ===== *)
theory Saved_State_Facts
  imports Saved_State Setup_Facts
begin

text \<open>
  Facts about saving and loading. A saved run-time state is never loaded, because its dates are
  in another format than the one they are parsed with. But for its dates, such a state is restored:
  the locale \<open>simulation_library\<close> states what the calls of the simulation library add to a
  simulation, and under these laws saving the restored simulation gives the state that was loaded,
  without the user terminals, points of presence and user links that loading leaves out.
\<close>

section \<open>Dates of a saved state\<close>

lemma split_on_prefix:
  "c \<notin> set xs \<Longrightarrow> split_on c (xs @ ys) = (xs @ hd (split_on c ys)) # tl (split_on c ys)"
  by (induction xs) (auto split: list.splits)

lemma slash_notin_pad4: "CHR ''/'' \<notin> set (pad4 n)"
  by (auto simp: pad4_def)

lemma pad4_length: "4 \<le> length (pad4 n)"
  by (simp add: pad4_def)

lemma day_field_long: "2 < length s \<Longrightarrow> day_field s = None"
  by (auto simp: day_field_def date_field_def split: list.splits)

lemma isoformat_rejected: "\<exists>e. parse_date (isoformat ds) = Inl (ValueError e)"
proof -
  obtain d suffix where ds: "ds = (d, suffix)" by fastforce
  define ys where "ys = ''-'' @ pad2 (dt_month d) @ ''-'' @ pad2 (dt_day d) @ ''T''
     @ pad2 (dt_hour d) @ '':'' @ pad2 (dt_minute d) @ '':'' @ pad2 (dt_second d) @ suffix"
  have "split_on (CHR ''/'') (isoformat ds)
      = (pad4 (dt_year d) @ hd (split_on (CHR ''/'') ys)) # tl (split_on (CHR ''/'') ys)"
    unfolding isoformat_def ds prod.case ys_def [symmetric] by (rule split_on_prefix [OF slash_notin_pad4])
  moreover have "day_field (pad4 (dt_year d) @ z) = None" for z
    by (rule day_field_long) (use pad4_length [of "dt_year d"] in simp)
  ultimately show ?thesis by (auto simp: parse_date_def Let_def split: list.split)
qed

lemma isoformat_nonempty: "isoformat ds \<noteq> []"
  using pad4_length by (auto simp: isoformat_def split: prod.splits)

text \<open>
  \<^bold>\<open>C34.\<close> A manager that was saved without a simulation property cannot be loaded: whatever
  the simulation holds and whatever the simulation library does, \<open>from_file\<close> of the file that
  \<open>to_file\<close> wrote raises \<open>ValueError\<close>, because the dates are saved in ISO format and parsed as
  day, month and year separated by slashes.
\<close>

theorem saved_state_rejected:
  "\<exists>e. fst (from_file parse now cv v ed path (to_file cv v disk given attrs None configured m) fs) = Inl (ValueError e)"
proof -
  obtain e where "parse_date (isoformat (sv_start v m)) = Inl (ValueError e)"
    using isoformat_rejected by blast
  then show ?thesis
    by (simp add: from_file_def to_file_def Let_def deserialize_runtime_state_def serialize_runtime_state_def
        create_empty_project_def resolve_simulation_dates_def isoformat_nonempty)
qed

section \<open>What the simulation library promises\<close>

record sim_contents =
  co_satellites :: "sim_satellite list"
  co_stations :: "sim_ground_object list"
  co_user_terminals :: "sim_ground_object list"
  co_points_of_presence :: "sim_ground_object list"
  co_isls :: "(link_end \<times> link_end \<times> string option) list"
  co_gsls :: "(link_end \<times> link_end) list"
  co_utls :: "(link_end \<times> link_end) list"
  co_gols :: "(link_end \<times> link_end) list"

definition contents :: "'m sim_view \<Rightarrow> 'm \<Rightarrow> sim_contents" where
  "contents v m = \<lparr>co_satellites = sv_satellites v m, co_stations = sv_ground_stations v m,
     co_user_terminals = sv_user_terminals v m, co_points_of_presence = sv_points_of_presence v m,
     co_isls = sv_isls v m, co_gsls = sv_gsls v m, co_utls = sv_utls v m, co_gols = sv_gols v m\<rparr>"

definition no_contents :: sim_contents where
  "no_contents = \<lparr>co_satellites = [], co_stations = [], co_user_terminals = [], co_points_of_presence = [],
     co_isls = [], co_gsls = [], co_utls = [], co_gols = []\<rparr>"

definition new_satellite :: "int \<Rightarrow> orbital_model \<Rightarrow> int \<Rightarrow> string \<Rightarrow> sim_satellite" where
  "new_satellite i model object_id domain = \<lparr>ls_id = i, ls_name = om_name model, ls_object_id = object_id,
     ls_domain = domain, ls_line1 = Some (om_line1 model), ls_line2 = Some (om_line2 model)\<rparr>"

definition satellite_end :: "sim_satellite \<Rightarrow> link_end" where
  "satellite_end s = \<lparr>en_satellite = Some (ls_name s), en_label = None\<rparr>"

definition ground_end :: "sim_ground_object \<Rightarrow> link_end" where
  "ground_end g = \<lparr>en_satellite = None, en_label = Some (so_label g)\<rparr>"

definition direction_name :: "isl_direction \<Rightarrow> string" where
  "direction_name d = (case d of OrbitalLink \<Rightarrow> ''ORBITAL'' | AdjacentLink \<Rightarrow> ''ADJACENT'')"

locale simulation_library =
  fixes v :: "'m sim_view" and ed :: "'m sim_edit"
  assumes load: "\<lbrakk>se_load ed p = Inr m; sip_ground_objects p = []; sip_shells p = []\<rbrakk>
      \<Longrightarrow> contents v m = no_contents \<and> sv_project v m = Some (sip_name p)"
    and ids: "sm_satellite_ids (se_manager ed) m = map ls_id (sv_satellites v m)"
    and add_satellite: "\<exists>i m'. sm_add_satellite (se_manager ed) model oid dmn m = Inr m' \<and> i \<notin> ls_id ` set (sv_satellites v m)
      \<and> contents v m' = contents v m \<lparr>co_satellites := sv_satellites v m @ [new_satellite i model oid dmn]\<rparr>
      \<and> sv_project v m' = sv_project v m"
    and update_links: "sv_ground_stations v m = [] \<Longrightarrow>
      \<exists>m'. sm_update_ground_links (se_manager ed) m = Inr m' \<and> contents v m' = contents v m \<and> sv_project v m' = sv_project v m"
    and add_domain: "\<exists>m'. se_add_domain ed gd m = Inr m' \<and> contents v m' = contents v m \<and> sv_project v m' = sv_project v m"
    and add_station: "\<exists>m'. se_add_station ed g m = Inr m'
      \<and> contents v m' = contents v m \<lparr>co_stations := sv_ground_stations v m @ [g]\<rparr> \<and> sv_project v m' = sv_project v m"
    and all_ground: "\<lbrakk>sv_user_terminals v m = []; sv_points_of_presence v m = []\<rbrakk> \<Longrightarrow> se_all_ground ed m = sv_ground_stations v m"
    and connect_isl: "\<lbrakk>a \<in> set (sv_satellites v m); b \<in> set (sv_satellites v m); a \<noteq> b\<rbrakk> \<Longrightarrow>
      \<exists>h m'. se_connect_isl ed a b m = (Inr h, m') \<and> sv_project v m' = sv_project v m
        \<and> contents v m' = contents v m \<lparr>co_isls := sv_isls v m @ [(satellite_end a, satellite_end b, Some ''UNDEFINED'')]\<rparr>
        \<and> sv_project v (se_set_direction ed h d m') = sv_project v m
        \<and> contents v (se_set_direction ed h d m') = contents v m \<lparr>co_isls := sv_isls v m @ [(satellite_end a, satellite_end b, Some (direction_name d))]\<rparr>"
    and connect_gsl: "\<lbrakk>a \<in> set (sv_satellites v m); g \<in> set (sv_ground_stations v m)\<rbrakk> \<Longrightarrow>
      \<exists>m'. se_connect_gsl ed a g m = (Inr (), m') \<and> sv_project v m' = sv_project v m
        \<and> contents v m' = contents v m \<lparr>co_gsls := sv_gsls v m @ [(satellite_end a, ground_end g)]\<rparr>"
    and connect_gol: "\<lbrakk>g \<in> set (sv_ground_stations v m); g' \<in> set (sv_ground_stations v m); g \<noteq> g'\<rbrakk> \<Longrightarrow>
      \<exists>m'. se_connect_gol ed g g' m = (Inr (), m') \<and> sv_project v m' = sv_project v m
        \<and> contents v m' = contents v m \<lparr>co_gols := sv_gols v m @ [(ground_end g, ground_end g')]\<rparr>"
begin

lemma contents_fields [simp]:
  "co_satellites (contents v m) = sv_satellites v m" "co_stations (contents v m) = sv_ground_stations v m"
  "co_user_terminals (contents v m) = sv_user_terminals v m" "co_points_of_presence (contents v m) = sv_points_of_presence v m"
  "co_isls (contents v m) = sv_isls v m" "co_gsls (contents v m) = sv_gsls v m"
  "co_utls (contents v m) = sv_utls v m" "co_gols (contents v m) = sv_gols v m"
  by (simp_all add: contents_def)

lemma contents_cong:
  assumes "contents v m' = c"
  shows "sv_satellites v m' = co_satellites c" "sv_ground_stations v m' = co_stations c"
    "sv_user_terminals v m' = co_user_terminals c" "sv_points_of_presence v m' = co_points_of_presence c"
    "sv_isls v m' = co_isls c" "sv_gsls v m' = co_gsls c" "sv_utls v m' = co_utls c" "sv_gols v m' = co_gols c"
  using assms by auto

lemma create_satellite:
  assumes "trimmed n" "trimmed l1" "trimmed l2" "n \<noteq> []" "l1 \<noteq> []" "l2 \<noteq> []" "parse l1 l2 = Inr ()"
    and "sv_ground_stations v m = []"
  obtains i s m' where "create_custom_satellite parse (se_manager ed) \<lparr>tl_name = n, tl_line1 = l1, tl_line2 = l2\<rparr> oid dmn m = Inr (i, m')"
    and "contents v m' = contents v m \<lparr>co_satellites := sv_satellites v m @ [s]\<rparr>" and "sv_project v m' = sv_project v m"
    and "save_satellite s = \<lparr>ss_name = n, ss_line1 = l1, ss_line2 = l2, ss_object_id = oid, ss_domain = dmn\<rparr>"
proof -
  let ?model = "\<lparr>om_name = n, om_line1 = l1, om_line2 = l2, om_high_precision = False, om_last_position = None, om_last_time = None\<rparr>"
  have model: "new_orbital_model parse (Some n) (Some l1) (Some l2) = Inr ?model"
    using assms by (simp add: new_orbital_model_def py_strip_trimmed)
  obtain i m1 where a: "sm_add_satellite (se_manager ed) ?model oid dmn m = Inr m1" and i: "i \<notin> ls_id ` set (sv_satellites v m)"
    and c1: "contents v m1 = contents v m \<lparr>co_satellites := sv_satellites v m @ [new_satellite i ?model oid dmn]\<rparr>"
    and p1: "sv_project v m1 = sv_project v m"
    using add_satellite [of ?model oid dmn m] by blast
  have "sv_ground_stations v m1 = []" using contents_cong(2) [OF c1] assms(8) by simp
  then obtain m2 where u: "sm_update_ground_links (se_manager ed) m1 = Inr m2" and c2: "contents v m2 = contents v m1"
    and p2: "sv_project v m2 = sv_project v m1"
    using update_links [of m1] by blast
  have "sv_satellites v m2 = sv_satellites v m @ [new_satellite i ?model oid dmn]"
    using contents_cong(1) [OF c1] contents_cong(1) [OF c2] by simp
  then have "remdups (filter (\<lambda>i. i \<notin> set (sm_satellite_ids (se_manager ed) m)) (sm_satellite_ids (se_manager ed) m2)) = [i]"
    using i by (auto simp: ids new_satellite_def image_iff filter_empty_conv)
  then have "create_custom_satellite parse (se_manager ed) \<lparr>tl_name = n, tl_line1 = l1, tl_line2 = l2\<rparr> oid dmn m = Inr (i, m2)"
    by (simp add: create_custom_satellite_def model a u)
  moreover have "save_satellite (new_satellite i ?model oid dmn)
      = \<lparr>ss_name = n, ss_line1 = l1, ss_line2 = l2, ss_object_id = oid, ss_domain = dmn\<rparr>"
    by (simp add: save_satellite_def new_satellite_def or_empty_def)
  ultimately show thesis using that c1 c2 p1 p2 by simp
qed

end

section \<open>Restoring a state\<close>

definition satellite_ok :: "(string \<Rightarrow> string \<Rightarrow> unit result) \<Rightarrow> saved_satellite \<Rightarrow> bool" where
  "satellite_ok parse s \<longleftrightarrow> trimmed (ss_name s) \<and> trimmed (ss_line1 s) \<and> trimmed (ss_line2 s)
     \<and> ss_name s \<noteq> [] \<and> ss_line1 s \<noteq> [] \<and> ss_line2 s \<noteq> [] \<and> parse (ss_line1 s) (ss_line2 s) = Inr ()"

text \<open>What a saved state must satisfy to be restored completely: valid element sets, stations with an
  altitude, and links between satellites and stations of the state.\<close>

definition restorable :: "(string \<Rightarrow> string \<Rightarrow> unit result) \<Rightarrow> runtime_state \<Rightarrow> bool" where
  "restorable parse rs \<longleftrightarrow>
     (let sats = ss_name ` set (rs_satellites rs); stations = sg_label ` set (rs_ground_stations rs) in
     (\<forall>s \<in> set (rs_satellites rs). satellite_ok parse s) \<and> (\<forall>g \<in> set (rs_ground_stations rs). sg_altitude g \<noteq> None)
     \<and> (\<forall>(a, b, d) \<in> set (rs_isls rs). a \<in> sats \<and> b \<in> sats \<and> a \<noteq> b \<and> d \<in> {''ORBITAL'', ''ADJACENT'', ''UNDEFINED''})
     \<and> (\<forall>(a, g) \<in> set (rs_gsls rs). a \<in> sats \<and> g \<in> stations)
     \<and> (\<forall>(g, h) \<in> set (rs_gols rs). g \<in> stations \<and> h \<in> stations \<and> g \<noteq> h))"

lemma find_named:
  assumes "n \<in> f ` set xs"
  obtains x where "List.find (\<lambda>x. f x = n) xs = Some x" "x \<in> set xs" "f x = n"
proof (cases "List.find (\<lambda>x. f x = n) xs")
  case None
  with assms show thesis by (auto simp: find_None_iff)
next
  case (Some x)
  with find_some [OF Some] show thesis by (intro that [of x]) auto
qed

context simulation_library
begin

lemma restore_satellites_adds:
  assumes "\<forall>s \<in> set ss. satellite_ok parse s" "sv_ground_stations v m = []"
  shows "\<exists>m' xs. restore_satellites parse ed ss m = Inr m' \<and> sv_project v m' = sv_project v m
    \<and> contents v m' = contents v m \<lparr>co_satellites := sv_satellites v m @ xs\<rparr> \<and> map save_satellite xs = ss"
  using assms
proof (induction ss arbitrary: m)
  case Nil
  have "contents v m = contents v m \<lparr>co_satellites := sv_satellites v m @ []\<rparr>" by (simp add: contents_def)
  then show ?case by (intro exI [of _ m] exI [of _ "[]"]) simp
next
  case (Cons s ss)
  then have ok: "satellite_ok parse s" by simp
  obtain i x m1 where c: "create_custom_satellite parse (se_manager ed)
      \<lparr>tl_name = ss_name s, tl_line1 = ss_line1 s, tl_line2 = ss_line2 s\<rparr> (ss_object_id s) (ss_domain s) m = Inr (i, m1)"
    and c1: "contents v m1 = contents v m \<lparr>co_satellites := sv_satellites v m @ [x]\<rparr>" and p1: "sv_project v m1 = sv_project v m"
    and x: "save_satellite x = s"
    using create_satellite [of "ss_name s" "ss_line1 s" "ss_line2 s" parse m "ss_object_id s" "ss_domain s"] ok Cons.prems(2)
    unfolding satellite_ok_def by (metis saved_satellite.surjective old.unit.exhaust)
  have "sv_ground_stations v m1 = []" using contents_cong(2) [OF c1] Cons.prems(2) by simp
  then obtain m' xs where r: "restore_satellites parse ed ss m1 = Inr m'" and p2: "sv_project v m' = sv_project v m1"
    and c2: "contents v m' = contents v m1 \<lparr>co_satellites := sv_satellites v m1 @ xs\<rparr>" and xs: "map save_satellite xs = ss"
    using Cons.IH [of m1] Cons.prems(1) by (meson list.set_intros(2))
  show ?case
    using c r p1 p2 c1 c2 x xs contents_cong(1) [OF c1] by (intro exI [of _ m'] exI [of _ "x # xs"]) simp
qed

lemma restore_station_adds:
  assumes "sg_altitude g \<noteq> None"
  shows "\<exists>m' y. restore_station ed g m = Inr m' \<and> sv_project v m' = sv_project v m
    \<and> contents v m' = contents v m \<lparr>co_stations := sv_ground_stations v m @ [y]\<rparr> \<and> save_ground y = g"
proof -
  obtain alt where alt: "sg_altitude g = Some alt" using assms by blast
  let ?g = "create_custom_ground_station (sg_label g) (sg_latitude g) (sg_longitude g) (alt / 1000) (sg_object_id g) (sg_domain g)"
  obtain y ds where at: "attach_ground_object_domain (se_lookup_domain ed m) ?g (se_domains ed m) = (y, ds)" by fastforce
  have "save_ground y = save_ground ?g"
    using at by (auto simp: attach_ground_object_domain_def Let_def save_ground_def split: option.splits if_splits)
  then have y: "save_ground y = g" by (simp add: save_ground_def create_custom_ground_station_def alt)
  obtain m1 where m1: "(if ds = se_domains ed m then Inr m else se_add_domain ed (last ds) m) = Inr m1"
    and c1: "contents v m1 = contents v m" and p1: "sv_project v m1 = sv_project v m"
    using add_domain [of "last ds" m] by (cases "ds = se_domains ed m") auto
  obtain m' where m': "se_add_station ed y m1 = Inr m'" and p2: "sv_project v m' = sv_project v m1"
    and c2: "contents v m' = contents v m1 \<lparr>co_stations := sv_ground_stations v m1 @ [y]\<rparr>"
    using add_station [of y m1] by blast
  have "sv_ground_stations v m1 = sv_ground_stations v m" using contents_cong(2) [OF c1] by simp
  then have "contents v m' = contents v m \<lparr>co_stations := sv_ground_stations v m @ [y]\<rparr>" using c1 c2 by simp
  moreover have "restore_station ed g m = Inr m'"
    unfolding restore_station_def alt option.case at prod.case m1 by (simp add: m')
  ultimately show ?thesis using y p1 p2 by auto
qed

lemma restore_stations_adds:
  assumes "\<forall>g \<in> set gs. sg_altitude g \<noteq> None"
  shows "\<exists>m' ys. restore_stations ed gs m = Inr m' \<and> sv_project v m' = sv_project v m
    \<and> contents v m' = contents v m \<lparr>co_stations := sv_ground_stations v m @ ys\<rparr> \<and> map save_ground ys = gs"
  using assms
proof (induction gs arbitrary: m)
  case Nil
  have "contents v m = contents v m \<lparr>co_stations := sv_ground_stations v m @ []\<rparr>" by (simp add: contents_def)
  then show ?case by (intro exI [of _ m] exI [of _ "[]"]) simp
next
  case (Cons g gs)
  obtain m1 y where s: "restore_station ed g m = Inr m1" and p1: "sv_project v m1 = sv_project v m"
    and c1: "contents v m1 = contents v m \<lparr>co_stations := sv_ground_stations v m @ [y]\<rparr>" and y: "save_ground y = g"
    using restore_station_adds [of g m] Cons.prems by auto
  obtain m' ys where r: "restore_stations ed gs m1 = Inr m'" and p2: "sv_project v m' = sv_project v m1"
    and c2: "contents v m' = contents v m1 \<lparr>co_stations := sv_ground_stations v m1 @ ys\<rparr>" and ys: "map save_ground ys = gs"
    using Cons.IH [of m1] Cons.prems by (meson list.set_intros(2))
  show ?case
    using s r p1 p2 c1 c2 y ys contents_cong(2) [OF c1] by (intro exI [of _ m'] exI [of _ "y # ys"]) simp
qed

text \<open>Links are restored one after the other; \<open>upd\<close> appends to one list of the contents.\<close>

lemma fold_adds:
  assumes "\<And>l m. \<lbrakk>Q m; l \<in> set ls\<rbrakk> \<Longrightarrow>
      \<exists>x. contents v (f l m) = upd [x] (contents v m) \<and> save x = l \<and> sv_project v (f l m) = sv_project v m \<and> Q (f l m)"
    and "\<And>xs ys c. upd ys (upd xs c) = upd (xs @ ys) c" "\<And>c. upd [] c = c" and "Q m"
  shows "\<exists>xs. contents v (fold f ls m) = upd xs (contents v m) \<and> map save xs = ls \<and> sv_project v (fold f ls m) = sv_project v m"
  using assms(1,4)
proof (induction ls arbitrary: m)
  case Nil
  then show ?case using assms(3) by (intro exI [of _ "[]"]) simp
next
  case (Cons l ls)
  obtain x where x: "contents v (f l m) = upd [x] (contents v m)" "save x = l" "sv_project v (f l m) = sv_project v m" "Q (f l m)"
    using Cons.prems(1) [of m l] Cons.prems(2) by auto
  obtain xs where "contents v (fold f ls (f l m)) = upd xs (contents v (f l m))" "map save xs = ls"
    "sv_project v (fold f ls (f l m)) = sv_project v (f l m)"
    using Cons.IH [of "f l m"] Cons.prems(1) x(4) by auto
  with x assms(2) show ?case by (intro exI [of _ "x # xs"]) simp
qed

lemma restore_isl_adds:
  assumes "a \<in> ls_name ` set (sv_satellites v m)" "b \<in> ls_name ` set (sv_satellites v m)" "a \<noteq> b"
    "d \<in> {''ORBITAL'', ''ADJACENT'', ''UNDEFINED''}"
  shows "\<exists>x. contents v (restore_isl v ed (a, b, d) m) = contents v m \<lparr>co_isls := sv_isls v m @ [x]\<rparr>
    \<and> save_isl x = (a, b, d) \<and> sv_project v (restore_isl v ed (a, b, d) m) = sv_project v m"
proof -
  obtain x where x: "satellite_named v m a = Some x" "x \<in> set (sv_satellites v m)" "ls_name x = a"
    using find_named [OF assms(1)] unfolding satellite_named_def .
  obtain y where y: "satellite_named v m b = Some y" "y \<in> set (sv_satellites v m)" "ls_name y = b"
    using find_named [OF assms(2)] unfolding satellite_named_def .
  have xy: "x \<noteq> y" using x(3) y(3) assms(3) by auto
  let ?m1 = "restore_isl v ed (a, b, d) m"
  have "contents v ?m1 = contents v m \<lparr>co_isls := sv_isls v m @ [(satellite_end x, satellite_end y, Some d)]\<rparr>
      \<and> sv_project v ?m1 = sv_project v m"
  proof (cases "restored_direction d")
    case None
    then have d: "d = ''UNDEFINED''" using assms(4) by (auto simp: restored_direction_def)
    show ?thesis using connect_isl [OF x(2) y(2) xy, of OrbitalLink] None
      by (auto simp: restore_isl_def x(1) y(1) d)
  next
    case (Some e)
    then have e: "direction_name e = d" by (auto simp: restored_direction_def direction_name_def split: if_splits)
    show ?thesis using connect_isl [OF x(2) y(2) xy, of e] Some
      by (auto simp: restore_isl_def x(1) y(1) e)
  qed
  moreover have "save_isl (satellite_end x, satellite_end y, Some d) = (a, b, d)"
    by (simp add: save_isl_def satellite_end_def or_empty_def x(3) y(3))
  ultimately show ?thesis by blast
qed

lemma restore_gsl_adds:
  assumes "a \<in> ls_name ` set (sv_satellites v m)" "b \<in> so_label ` set (sv_ground_stations v m)"
  shows "\<exists>x. contents v (restore_gsl v ed (a, b) m) = contents v m \<lparr>co_gsls := sv_gsls v m @ [x]\<rparr>
    \<and> save_link x = (a, b) \<and> sv_project v (restore_gsl v ed (a, b) m) = sv_project v m"
proof -
  obtain x where x: "satellite_named v m a = Some x" "x \<in> set (sv_satellites v m)" "ls_name x = a"
    using find_named [OF assms(1)] unfolding satellite_named_def .
  obtain y where y: "ground_named (sv_ground_stations v m) b = Some y" "y \<in> set (sv_ground_stations v m)" "so_label y = b"
    using find_named [OF assms(2)] unfolding ground_named_def .
  show ?thesis using connect_gsl [OF x(2) y(2)]
    by (intro exI [of _ "(satellite_end x, ground_end y)"])
      (auto simp: restore_gsl_def x y save_link_def link_end_name_def satellite_end_def ground_end_def or_empty_def)
qed

lemma restore_gol_adds:
  assumes "a \<in> so_label ` set (sv_ground_stations v m)" "b \<in> so_label ` set (sv_ground_stations v m)" "a \<noteq> b"
    and "sv_user_terminals v m = []" "sv_points_of_presence v m = []"
  shows "\<exists>x. contents v (restore_gol ed (a, b) m) = contents v m \<lparr>co_gols := sv_gols v m @ [x]\<rparr>
    \<and> save_ground_link x = (a, b) \<and> sv_project v (restore_gol ed (a, b) m) = sv_project v m"
proof -
  note all = all_ground [OF assms(4,5)]
  obtain x where x: "ground_named (se_all_ground ed m) a = Some x" "x \<in> set (sv_ground_stations v m)" "so_label x = a"
    using find_named [OF assms(1)] unfolding ground_named_def all .
  obtain y where y: "ground_named (se_all_ground ed m) b = Some y" "y \<in> set (sv_ground_stations v m)" "so_label y = b"
    using find_named [OF assms(2)] unfolding ground_named_def all .
  have "x \<noteq> y" using x(3) y(3) assms(3) by auto
  from connect_gol [OF x(2) y(2) this] show ?thesis
    by (intro exI [of _ "(ground_end x, ground_end y)"])
      (auto simp: restore_gol_def x y save_ground_link_def ground_end_def or_empty_def)
qed

lemma restore_isls_adds:
  assumes "\<forall>(a, b, d) \<in> set ls. a \<in> ls_name ` set (sv_satellites v m) \<and> b \<in> ls_name ` set (sv_satellites v m) \<and> a \<noteq> b
      \<and> d \<in> {''ORBITAL'', ''ADJACENT'', ''UNDEFINED''}"
  shows "\<exists>xs. contents v (fold (restore_isl v ed) ls m) = contents v m \<lparr>co_isls := sv_isls v m @ xs\<rparr>
    \<and> map save_isl xs = ls \<and> sv_project v (fold (restore_isl v ed) ls m) = sv_project v m"
proof -
  have "\<exists>xs. contents v (fold (restore_isl v ed) ls m) = contents v m \<lparr>co_isls := co_isls (contents v m) @ xs\<rparr>
      \<and> map save_isl xs = ls \<and> sv_project v (fold (restore_isl v ed) ls m) = sv_project v m"
  proof (rule fold_adds [where Q = "\<lambda>n. sv_satellites v n = sv_satellites v m" and upd = "\<lambda>xs c. c\<lparr>co_isls := co_isls c @ xs\<rparr>"])
    fix l n assume q: "sv_satellites v n = sv_satellites v m" and l: "l \<in> set ls"
    obtain a b d where abd: "l = (a, b, d)" by (cases l)
    obtain x where x: "contents v (restore_isl v ed l n) = contents v n \<lparr>co_isls := sv_isls v n @ [x]\<rparr>"
      "save_isl x = l" "sv_project v (restore_isl v ed l n) = sv_project v n"
      using restore_isl_adds [of a n b d] assms l q unfolding abd by fastforce
    from x have "sv_satellites v (restore_isl v ed l n) = sv_satellites v n" "sv_ground_stations v (restore_isl v ed l n) = sv_ground_stations v n"
      "sv_user_terminals v (restore_isl v ed l n) = sv_user_terminals v n" "sv_points_of_presence v (restore_isl v ed l n) = sv_points_of_presence v n"
      using contents_cong(1-4) [OF x(1)] by simp_all
    with x q show "\<exists>x. contents v (restore_isl v ed l n) = contents v n \<lparr>co_isls := co_isls (contents v n) @ [x]\<rparr>
        \<and> save_isl x = l \<and> sv_project v (restore_isl v ed l n) = sv_project v n \<and> sv_satellites v (restore_isl v ed l n) = sv_satellites v m"
      by (intro exI [of _ x]) simp
  qed (simp_all)
  then show ?thesis by simp
qed

lemma restore_gsls_adds:
  assumes "\<forall>(a, g) \<in> set ls. a \<in> ls_name ` set (sv_satellites v m) \<and> g \<in> so_label ` set (sv_ground_stations v m)"
  shows "\<exists>xs. contents v (fold (restore_gsl v ed) ls m) = contents v m \<lparr>co_gsls := sv_gsls v m @ xs\<rparr>
    \<and> map save_link xs = ls \<and> sv_project v (fold (restore_gsl v ed) ls m) = sv_project v m"
proof -
  have "\<exists>xs. contents v (fold (restore_gsl v ed) ls m) = contents v m \<lparr>co_gsls := co_gsls (contents v m) @ xs\<rparr>
      \<and> map save_link xs = ls \<and> sv_project v (fold (restore_gsl v ed) ls m) = sv_project v m"
  proof (rule fold_adds [where Q = "\<lambda>n. sv_satellites v n = sv_satellites v m \<and> sv_ground_stations v n = sv_ground_stations v m" and upd = "\<lambda>xs c. c\<lparr>co_gsls := co_gsls c @ xs\<rparr>"])
    fix l n assume q: "sv_satellites v n = sv_satellites v m \<and> sv_ground_stations v n = sv_ground_stations v m" and l: "l \<in> set ls"
    obtain a g where ag: "l = (a, g)" by (cases l)
    obtain x where x: "contents v (restore_gsl v ed l n) = contents v n \<lparr>co_gsls := sv_gsls v n @ [x]\<rparr>"
      "save_link x = l" "sv_project v (restore_gsl v ed l n) = sv_project v n"
      using restore_gsl_adds [of a n g] assms l q unfolding ag by fastforce
    from x have "sv_satellites v (restore_gsl v ed l n) = sv_satellites v n" "sv_ground_stations v (restore_gsl v ed l n) = sv_ground_stations v n"
      "sv_user_terminals v (restore_gsl v ed l n) = sv_user_terminals v n" "sv_points_of_presence v (restore_gsl v ed l n) = sv_points_of_presence v n"
      using contents_cong(1-4) [OF x(1)] by simp_all
    with x q show "\<exists>x. contents v (restore_gsl v ed l n) = contents v n \<lparr>co_gsls := co_gsls (contents v n) @ [x]\<rparr>
        \<and> save_link x = l \<and> sv_project v (restore_gsl v ed l n) = sv_project v n \<and> sv_satellites v (restore_gsl v ed l n) = sv_satellites v m \<and> sv_ground_stations v (restore_gsl v ed l n) = sv_ground_stations v m"
      by (intro exI [of _ x]) simp
  qed (simp_all)
  then show ?thesis by simp
qed

lemma restore_gols_adds:
  assumes "\<forall>(g, h) \<in> set ls. g \<in> so_label ` set (sv_ground_stations v m) \<and> h \<in> so_label ` set (sv_ground_stations v m) \<and> g \<noteq> h"
    and "sv_user_terminals v m = []" "sv_points_of_presence v m = []"
  shows "\<exists>xs. contents v (fold (restore_gol ed) ls m) = contents v m \<lparr>co_gols := sv_gols v m @ xs\<rparr>
    \<and> map save_ground_link xs = ls \<and> sv_project v (fold (restore_gol ed) ls m) = sv_project v m"
proof -
  have "\<exists>xs. contents v (fold (restore_gol ed) ls m) = contents v m \<lparr>co_gols := co_gols (contents v m) @ xs\<rparr>
      \<and> map save_ground_link xs = ls \<and> sv_project v (fold (restore_gol ed) ls m) = sv_project v m"
  proof (rule fold_adds [where Q = "\<lambda>n. sv_ground_stations v n = sv_ground_stations v m \<and> sv_user_terminals v n = [] \<and> sv_points_of_presence v n = []" and upd = "\<lambda>xs c. c\<lparr>co_gols := co_gols c @ xs\<rparr>"])
    fix l n assume q: "sv_ground_stations v n = sv_ground_stations v m \<and> sv_user_terminals v n = [] \<and> sv_points_of_presence v n = []" and l: "l \<in> set ls"
    obtain g h where gh: "l = (g, h)" by (cases l)
    obtain x where x: "contents v (restore_gol ed l n) = contents v n \<lparr>co_gols := sv_gols v n @ [x]\<rparr>"
      "save_ground_link x = l" "sv_project v (restore_gol ed l n) = sv_project v n"
      using restore_gol_adds [of g n h] assms l q unfolding gh by fastforce
    from x have "sv_satellites v (restore_gol ed l n) = sv_satellites v n" "sv_ground_stations v (restore_gol ed l n) = sv_ground_stations v n"
      "sv_user_terminals v (restore_gol ed l n) = sv_user_terminals v n" "sv_points_of_presence v (restore_gol ed l n) = sv_points_of_presence v n"
      using contents_cong(1-4) [OF x(1)] by simp_all
    with x q show "\<exists>x. contents v (restore_gol ed l n) = contents v n \<lparr>co_gols := co_gols (contents v n) @ [x]\<rparr>
        \<and> save_ground_link x = l \<and> sv_project v (restore_gol ed l n) = sv_project v n \<and> sv_ground_stations v (restore_gol ed l n) = sv_ground_stations v m \<and> sv_user_terminals v (restore_gol ed l n) = [] \<and> sv_points_of_presence v (restore_gol ed l n) = []"
      by (intro exI [of _ x]) simp
  qed (simp_all add: assms)
  then show ?thesis by simp
qed

lemma restores_nodes:
  assumes "restorable parse rs" "contents v m0 = no_contents"
  obtains m1 m2 xs ys where "restore_satellites parse ed (rs_satellites rs) m0 = Inr m1"
    and "restore_stations ed (rs_ground_stations rs) m1 = Inr m2" and "sv_project v m2 = sv_project v m0"
    and "contents v m2 = no_contents\<lparr>co_satellites := xs, co_stations := ys\<rparr>"
    and "map save_satellite xs = rs_satellites rs" and "map save_ground ys = rs_ground_stations rs"
proof -
  note k0 = contents_cong [OF assms(2), unfolded no_contents_def, simplified]
  obtain m1 xs where r1: "restore_satellites parse ed (rs_satellites rs) m0 = Inr m1" and p1: "sv_project v m1 = sv_project v m0"
    and c1: "contents v m1 = no_contents\<lparr>co_satellites := xs\<rparr>" and xs: "map save_satellite xs = rs_satellites rs"
    using restore_satellites_adds [of "rs_satellites rs" parse m0] assms k0 unfolding restorable_def Let_def by auto
  note k1 = contents_cong [OF c1, unfolded no_contents_def, simplified]
  obtain m2 ys where "restore_stations ed (rs_ground_stations rs) m1 = Inr m2" "sv_project v m2 = sv_project v m1"
    "contents v m2 = no_contents\<lparr>co_satellites := xs, co_stations := ys\<rparr>" "map save_ground ys = rs_ground_stations rs"
    using restore_stations_adds [of "rs_ground_stations rs" m1] assms(1) k1 c1 unfolding restorable_def Let_def by auto
  with r1 p1 xs show thesis using that by simp
qed

lemma restores_links:
  assumes "restorable parse rs" and c2: "contents v m2 = no_contents\<lparr>co_satellites := xs, co_stations := ys\<rparr>"
    and xs: "map save_satellite xs = rs_satellites rs" and ys: "map save_ground ys = rs_ground_stations rs"
  shows "\<exists>m zs us ws. fold (restore_gol ed) (rs_gols rs) (fold (restore_gsl v ed) (rs_gsls rs)
      (fold (restore_isl v ed) (rs_isls rs) m2)) = m \<and> sv_project v m = sv_project v m2
    \<and> contents v m = no_contents\<lparr>co_satellites := xs, co_stations := ys, co_isls := zs, co_gsls := us, co_gols := ws\<rparr>
    \<and> map save_isl zs = rs_isls rs \<and> map save_link us = rs_gsls rs \<and> map save_ground_link ws = rs_gols rs"
proof -
  note k2 = contents_cong [OF c2, unfolded no_contents_def, simplified]
  have names: "ls_name ` set xs = ss_name ` set (rs_satellites rs)" "so_label ` set ys = sg_label ` set (rs_ground_stations rs)"
    unfolding xs [symmetric] ys [symmetric] by (simp_all add: image_image save_satellite_def save_ground_def)
  define m3 where "m3 = fold (restore_isl v ed) (rs_isls rs) m2"
  obtain zs where c3: "contents v m3 = no_contents\<lparr>co_satellites := xs, co_stations := ys, co_isls := zs\<rparr>"
    and zs: "map save_isl zs = rs_isls rs" and p3: "sv_project v m3 = sv_project v m2"
    using restore_isls_adds [of "rs_isls rs" m2] assms(1) k2 c2 names unfolding restorable_def Let_def m3_def by auto
  note k3 = contents_cong [OF c3, unfolded no_contents_def, simplified]
  define m4 where "m4 = fold (restore_gsl v ed) (rs_gsls rs) m3"
  obtain us where c4: "contents v m4 = no_contents\<lparr>co_satellites := xs, co_stations := ys, co_isls := zs, co_gsls := us\<rparr>"
    and us: "map save_link us = rs_gsls rs" and p4: "sv_project v m4 = sv_project v m3"
    using restore_gsls_adds [of "rs_gsls rs" m3] assms(1) k3 c3 names unfolding restorable_def Let_def m4_def by auto
  note k4 = contents_cong [OF c4, unfolded no_contents_def, simplified]
  obtain ws where c5: "contents v (fold (restore_gol ed) (rs_gols rs) m4)
      = no_contents\<lparr>co_satellites := xs, co_stations := ys, co_isls := zs, co_gsls := us, co_gols := ws\<rparr>"
    and ws: "map save_ground_link ws = rs_gols rs" and p5: "sv_project v (fold (restore_gol ed) (rs_gols rs) m4) = sv_project v m4"
    using restore_gols_adds [of "rs_gols rs" m4] assms(1) k4 c4 names unfolding restorable_def Let_def by auto
  show ?thesis unfolding m3_def [symmetric] m4_def [symmetric] using c5 p3 p4 p5 zs us ws by auto
qed

text \<open>The whole state: \<open>m0\<close> is the empty simulation that was loaded.\<close>

lemma restores:
  assumes "restorable parse rs" and p: "create_empty_project now (rs_name rs) (rs_start rs) (rs_end rs) = Inr p"
    and m0: "se_load ed p = Inr m0"
  shows "\<exists>m. deserialize_runtime_state parse now v ed rs = Inr m \<and> serialize_runtime_state v m =
    rs\<lparr>rs_start := isoformat (sv_start v m), rs_end := isoformat (sv_end v m),
       rs_user_terminals := [], rs_points_of_presence := [], rs_utls := []\<rparr>"
proof -
  have pr: "sip_name p = rs_name rs" "sip_ground_objects p = []" "sip_shells p = []"
    using p by (auto simp: create_empty_project_def)
  from load [OF m0 pr(2,3)] have c0: "contents v m0 = no_contents" and p0: "sv_project v m0 = Some (rs_name rs)"
    by (simp_all add: pr(1))
  obtain m1 m2 xs ys where n: "restore_satellites parse ed (rs_satellites rs) m0 = Inr m1"
    "restore_stations ed (rs_ground_stations rs) m1 = Inr m2" "sv_project v m2 = sv_project v m0"
    and c2: "contents v m2 = no_contents\<lparr>co_satellites := xs, co_stations := ys\<rparr>"
    and xs: "map save_satellite xs = rs_satellites rs" and ys: "map save_ground ys = rs_ground_stations rs"
    using restores_nodes [OF assms(1) c0] .
  obtain m zs us ws where m: "fold (restore_gol ed) (rs_gols rs) (fold (restore_gsl v ed) (rs_gsls rs)
      (fold (restore_isl v ed) (rs_isls rs) m2)) = m" "sv_project v m = sv_project v m2"
    and c: "contents v m = no_contents\<lparr>co_satellites := xs, co_stations := ys, co_isls := zs, co_gsls := us, co_gols := ws\<rparr>"
    and l: "map save_isl zs = rs_isls rs" "map save_link us = rs_gsls rs" "map save_ground_link ws = rs_gols rs"
    using restores_links [OF assms(1) c2 xs ys] by blast
  have "deserialize_runtime_state parse now v ed rs = Inr m"
    unfolding deserialize_runtime_state_def by (simp add: p m0 n(1,2) m(1))
  moreover have "serialize_runtime_state v m =
    rs\<lparr>rs_start := isoformat (sv_start v m), rs_end := isoformat (sv_end v m),
       rs_user_terminals := [], rs_points_of_presence := [], rs_utls := []\<rparr>"
    using contents_cong [OF c, unfolded no_contents_def, simplified] xs ys l p0 n(3) m(2)
    by (simp add: serialize_runtime_state_def)
  ultimately show ?thesis by blast
qed

end

section \<open>A simulation that is a record of lists\<close>

record list_sim = sim_contents +
  li_project :: "string option"
  li_start :: datetime
  li_end :: datetime
  li_domains :: "go_domain list"

definition list_view :: "list_sim sim_view" where
  "list_view = \<lparr>sv_project = li_project, sv_start = (\<lambda>m. (li_start m, [])), sv_end = (\<lambda>m. (li_end m, [])),
     sv_satellites = co_satellites, sv_ground_stations = co_stations, sv_user_terminals = co_user_terminals,
     sv_points_of_presence = co_points_of_presence, sv_isls = co_isls, sv_gsls = co_gsls, sv_utls = co_utls, sv_gols = co_gols\<rparr>"

definition next_id :: "int list \<Rightarrow> int" where
  "next_id xs = foldr max xs (- 1) + 1"

lemma next_id_fresh: "next_id xs \<notin> set xs"
proof -
  have "x \<le> foldr max xs (- 1)" if "x \<in> set xs" for x
    using that by (induction xs) auto
  then show ?thesis by (force simp: next_id_def)
qed

definition list_sim_manager :: "list_sim sim_manager" where
  "list_sim_manager = \<lparr>sm_satellite_ids = (\<lambda>m. map ls_id (co_satellites m)),
     sm_add_satellite = (\<lambda>model oid dmn m.
       Inr (m\<lparr>co_satellites := co_satellites m @ [new_satellite (next_id (map ls_id (co_satellites m))) model oid dmn]\<rparr>)),
     sm_update_ground_links = Inr\<rparr>"

definition list_edit :: "list_sim sim_edit" where
  "list_edit = \<lparr>se_load = (\<lambda>p. rbind (parse_date (sip_start p)) (\<lambda>s. rbind (parse_date (sip_end p)) (\<lambda>e.
       Inr \<lparr>co_satellites = [], co_stations = [], co_user_terminals = [], co_points_of_presence = [], co_isls = [], co_gsls = [],
            co_utls = [], co_gols = [], li_project = Some (sip_name p), li_start = s, li_end = e, li_domains = []\<rparr>))),
     se_manager = list_sim_manager,
     se_lookup_domain = (\<lambda>m n. List.find (\<lambda>d. gd_identifier d = n) (li_domains m)), se_domains = li_domains,
     se_add_domain = (\<lambda>d m. Inr (m\<lparr>li_domains := li_domains m @ [d]\<rparr>)),
     se_add_station = (\<lambda>g m. Inr (m\<lparr>co_stations := co_stations m @ [g]\<rparr>)),
     se_all_ground = (\<lambda>m. co_stations m @ co_user_terminals m @ co_points_of_presence m),
     se_connect_isl = (\<lambda>a b m. (Inr (length (co_isls m)),
       m\<lparr>co_isls := co_isls m @ [(satellite_end a, satellite_end b, Some ''UNDEFINED'')]\<rparr>)),
     se_set_direction = (\<lambda>h d m. m\<lparr>co_isls := (co_isls m)[h := (case co_isls m ! h of (a, b, _) \<Rightarrow> (a, b, Some (direction_name d)))]\<rparr>),
     se_connect_gsl = (\<lambda>a g m. (Inr (), m\<lparr>co_gsls := co_gsls m @ [(satellite_end a, ground_end g)]\<rparr>)),
     se_connect_gol = (\<lambda>g h m. (Inr (), m\<lparr>co_gols := co_gols m @ [(ground_end g, ground_end h)]\<rparr>))\<rparr>"

interpretation list_library: simulation_library list_view list_edit
proof
  fix model :: orbital_model and oid :: int and dmn :: string and m :: list_sim
  show "\<exists>i m'. sm_add_satellite (se_manager list_edit) model oid dmn m = Inr m' \<and> i \<notin> ls_id ` set (sv_satellites list_view m)
      \<and> contents list_view m' = contents list_view m \<lparr>co_satellites := sv_satellites list_view m @ [new_satellite i model oid dmn]\<rparr>
      \<and> sv_project list_view m' = sv_project list_view m"
    using next_id_fresh [of "map ls_id (co_satellites m)"]
    by (intro exI [of _ "next_id (map ls_id (co_satellites m))"]) (simp add: list_edit_def list_view_def list_sim_manager_def contents_def)
qed (auto simp: list_edit_def list_view_def list_sim_manager_def contents_def no_contents_def nth_append)


definition two_satellites :: runtime_state where
  "two_satellites = \<lparr>rs_name = ''Pair'', rs_start = ''01/01/2024 00:00:00'', rs_end = ''01/01/2024 00:10:00'',
     rs_satellites = [\<lparr>ss_name = ''A'', ss_line1 = ''1'', ss_line2 = ''2'', ss_object_id = 7, ss_domain = ''public''\<rparr>,
       \<lparr>ss_name = ''B'', ss_line1 = ''1'', ss_line2 = ''2'', ss_object_id = 8, ss_domain = ''public''\<rparr>],
     rs_ground_stations = [\<lparr>sg_label = ''Berlin'', sg_latitude = 52, sg_longitude = 13, sg_altitude = Some 34, sg_object_id = 0, sg_domain = ''public''\<rparr>],
     rs_user_terminals = [\<lparr>sg_label = ''UT'', sg_latitude = 52, sg_longitude = 13, sg_altitude = Some 0, sg_object_id = 0, sg_domain = ''public''\<rparr>],
     rs_points_of_presence = [], rs_isls = [(''A'', ''B'', ''ORBITAL'')], rs_gsls = [(''A'', ''Berlin'')],
     rs_utls = [(''A'', ''UT'')], rs_gols = []\<rparr>"


end
