(* ===== verification/Reports.thy ===== *)
theory Reports
  imports Traffic Projects
begin

text \<open>
  The reports of the traffic tools: the metrics of \<open>traffic/iperf3_utils.py\<close> from the JSON text
  of iperf3, the statistics and file names of its plots, and \<open>traffic/iperf2_utils.py\<close>.

  \<open>json\<close> is what \<open>json.loads\<close> returns, with a float as a rational number. A data frame of
  pandas is the list of the dictionaries it is made from: its columns are their keys, and a row
  without the key, or with the value \<open>None\<close>, has no value there. A column with a value that is no
  number raises \<open>TypeError\<close>. \<open>show\<close> is \<open>str\<close> of the values for which it is not written
  out, \<open>parse\<close> is \<open>float\<close> of a string. Drawing is left out; only the names of files remain.
\<close>

section \<open>JSON values\<close>

datatype json = JNull | JBool bool | JInt int | JFloat rat | JStr string
  | JList "json list" | JObj "(string \<times> json) list"

fun truthy :: "json \<Rightarrow> bool" where
  "truthy JNull = False"
| "truthy (JBool b) = b"
| "truthy (JInt i) = (i \<noteq> 0)"
| "truthy (JFloat x) = (x \<noteq> 0)"
| "truthy (JStr s) = (s \<noteq> [])"
| "truthy (JList xs) = (xs \<noteq> [])"
| "truthy (JObj d) = (d \<noteq> [])"

fun json_get :: "string \<Rightarrow> json \<Rightarrow> json \<Rightarrow> json result" where
  "json_get k dflt (JObj d) = Inr (case dict_get d k of None \<Rightarrow> dflt | Some v \<Rightarrow> v)"
| "json_get k dflt _ = Inl (OtherError ''AttributeError'')"

fun json_iter :: "json \<Rightarrow> json list result" where
  "json_iter (JList xs) = Inr xs"
| "json_iter (JObj d) = Inr (map (JStr \<circ> fst) d)"
| "json_iter (JStr s) = Inr (map (\<lambda>c. JStr [c]) s)"
| "json_iter _ = Inl (TypeError ''object is not iterable'')"

text \<open>\<open>dict\<close> of a value; of a list only the empty one is taken.\<close>

fun as_dict :: "json \<Rightarrow> (string \<times> json) list result" where
  "as_dict (JObj d) = Inr d"
| "as_dict (JList []) = Inr []"
| "as_dict _ = Inl (TypeError ''cannot convert to a dictionary'')"

fun json_str :: "(json \<Rightarrow> string) \<Rightarrow> json \<Rightarrow> string" where
  "json_str show JNull = ''None''"
| "json_str show (JBool b) = (if b then ''True'' else ''False'')"
| "json_str show (JInt i) = dec_int i"
| "json_str show (JStr s) = s"
| "json_str show j = show j"

fun json_number :: "json \<Rightarrow> rat option" where
  "json_number (JBool b) = Some (if b then 1 else 0)"
| "json_number (JInt i) = Some (of_int i)"
| "json_number (JFloat x) = Some x"
| "json_number _ = None"

definition truncate_rat :: "rat \<Rightarrow> int" where
  "truncate_rat x = (if 0 \<le> x then \<lfloor>x\<rfloor> else \<lceil>x\<rceil>)"

fun json_int :: "json \<Rightarrow> int result" where
  "json_int (JStr s) = (case py_int s of None \<Rightarrow> Inl (ValueError ''invalid literal for int()'') | Some i \<Rightarrow> Inr i)"
| "json_int j = (case json_number j of None \<Rightarrow> Inl (TypeError ''int() argument'') | Some x \<Rightarrow> Inr (truncate_rat x))"

fun json_float :: "(string \<Rightarrow> rat option) \<Rightarrow> json \<Rightarrow> rat result" where
  "json_float parse (JStr s) = (case parse s of None \<Rightarrow> Inl (ValueError ''could not convert string to float'') | Some x \<Rightarrow> Inr x)"
| "json_float parse j = (case json_number j of None \<Rightarrow> Inl (TypeError ''float() argument'') | Some x \<Rightarrow> Inr x)"

section \<open>Data frames\<close>

type_synonym row = "(string \<times> json) list"

definition in_columns :: "string \<Rightarrow> row list \<Rightarrow> bool" where
  "in_columns col rows = list_ex (\<lambda>r. dict_get r col \<noteq> None) rows"

definition column :: "string \<Rightarrow> row list \<Rightarrow> json list" where
  "column col rows = filter (\<lambda>v. v \<noteq> JNull) (List.map_filter (\<lambda>r. dict_get r col) rows)"

definition numbers :: "json list \<Rightarrow> rat list result" where
  "numbers vs = rmap (\<lambda>v. case json_number v of None \<Rightarrow> Inl (TypeError ''could not convert to numeric'') | Some x \<Rightarrow> Inr x) vs"

definition mean :: "rat list \<Rightarrow> rat" where
  "mean xs = sum_list xs / of_nat (length xs)"

text \<open>\<open>_col_mean\<close>, \<open>_col_max\<close> and \<open>_col_min\<close> differ in the aggregate only.\<close>

definition col_aggregate :: "(rat list \<Rightarrow> rat) \<Rightarrow> row list \<Rightarrow> string \<Rightarrow> rat \<Rightarrow> rat result" where
  "col_aggregate f rows col dflt =
    (if rows = [] \<or> \<not> in_columns col rows then Inr dflt
     else let vs = column col rows in
       if vs = [] then Inr dflt else rbind (numbers vs) (\<lambda>xs. Inr (f xs)))"

definition col_mean :: "row list \<Rightarrow> string \<Rightarrow> rat \<Rightarrow> rat result" where
  "col_mean = col_aggregate mean"

definition col_max :: "row list \<Rightarrow> string \<Rightarrow> rat \<Rightarrow> rat result" where
  "col_max = col_aggregate (\<lambda>xs. Max (set xs))"

definition col_min :: "row list \<Rightarrow> string \<Rightarrow> rat \<Rightarrow> rat result" where
  "col_min = col_aggregate (\<lambda>xs. Min (set xs))"

section \<open>Intervals\<close>

definition sum_keys :: "string list" where
  "sum_keys = [''sum'', ''sum_sent'', ''sum_received'', ''sum_bidir'', ''sum_bidir_reverse'']"

definition row_time :: "(string \<times> json) list \<Rightarrow> json" where
  "row_time d = (case dict_get d ''end'' of Some t \<Rightarrow> t | None \<Rightarrow> (case dict_get d ''start'' of Some t \<Rightarrow> t | None \<Rightarrow> JNull))"

definition labelled :: "string \<Rightarrow> (string \<times> json) list \<Rightarrow> row" where
  "labelled label d = dict_set ''_label'' (JStr label) (dict_set ''_t'' (row_time d) d)"

definition omitted :: "(string \<times> json) list \<Rightarrow> bool" where
  "omitted d = truthy (case dict_get d ''omitted'' of None \<Rightarrow> JBool False | Some v \<Rightarrow> v)"

text \<open>The rows of one stream entry; \<open>skip\<close> says whether omitted entries are left out, which the
  plots do not do.\<close>

definition stream_rows :: "(json \<Rightarrow> string) \<Rightarrow> bool \<Rightarrow> json \<Rightarrow> row list result" where
  "stream_rows show skip s = (case s of
     JObj d \<Rightarrow> Inr (if skip \<and> omitted d then []
       else [labelled (''Socket '' @ json_str show (case dict_get d ''socket'' of None \<Rightarrow> JStr ''?'' | Some v \<Rightarrow> v)) d])
   | _ \<Rightarrow> Inl (OtherError ''AttributeError''))"

definition sum_rows :: "bool \<Rightarrow> (string \<times> json) list \<Rightarrow> string \<Rightarrow> row list result" where
  "sum_rows skip it k = (case dict_get it k of
     None \<Rightarrow> Inr []
   | Some v \<Rightarrow> rbind (as_dict v) (\<lambda>d. Inr (if skip \<and> omitted d then [] else [labelled k d])))"

definition interval_rows :: "(json \<Rightarrow> string) \<Rightarrow> bool \<Rightarrow> json \<Rightarrow> (row list \<times> row list) result" where
  "interval_rows show skip it =
    rbind (json_get ''streams'' (JList []) it) (\<lambda>ss. rbind (json_iter ss) (\<lambda>streams.
    rbind (rmap (stream_rows show skip) streams) (\<lambda>rows.
    rbind (as_dict it) (\<lambda>d. rbind (rmap (sum_rows skip d) sum_keys) (\<lambda>summaries.
      Inr (concat rows, concat summaries))))))"

definition flatten_intervals :: "(json \<Rightarrow> string) \<Rightarrow> bool \<Rightarrow> json \<Rightarrow> (row list \<times> row list) result" where
  "flatten_intervals show skip data =
    rbind (json_get ''intervals'' (JList []) data) (\<lambda>is. rbind (json_iter is) (\<lambda>intervals.
    rbind (rmap (interval_rows show skip) intervals) (\<lambda>rs. Inr (concat (map fst rs), concat (map snd rs)))))"

section \<open>The results of a run\<close>

record iperf3_report =
  rp_data :: json
  rp_config :: iperf3_config
  rp_protocol :: string
  rp_streams :: "row list"
  rp_summaries :: "row list"

definition upper_char :: "char \<Rightarrow> char" where
  "upper_char c = (if 97 \<le> (of_char c :: nat) \<and> of_char c \<le> (122 :: nat) then char_of (of_char c - 32 :: nat) else c)"

definition test_start :: "json \<Rightarrow> string \<Rightarrow> json \<Rightarrow> json result" where
  "test_start data k dflt = rbind (json_get ''start'' (JObj []) data) (\<lambda>s.
     rbind (json_get ''test_start'' (JObj []) s) (json_get k dflt))"

definition new_iperf3_report :: "(json \<Rightarrow> string) \<Rightarrow> iperf3_config \<Rightarrow> json \<Rightarrow> iperf3_report result" where
  "new_iperf3_report show cfg data =
    rbind (test_start data ''protocol'' (JStr (ic_protocol cfg))) (\<lambda>p.
    rbind (flatten_intervals show True data) (\<lambda>(streams, summaries).
      Inr \<lparr>rp_data = data, rp_config = cfg, rp_protocol = map upper_char (json_str show p),
           rp_streams = streams, rp_summaries = summaries\<rparr>))"

definition primary_df :: "iperf3_report \<Rightarrow> row list" where
  "primary_df r = (if rp_summaries r \<noteq> [] then rp_summaries r else rp_streams r)"

definition duration_seconds :: "(string \<Rightarrow> rat option) \<Rightarrow> iperf3_report \<Rightarrow> rat result" where
  "duration_seconds parse r = rbind (test_start (rp_data r) ''duration'' (JInt (ic_duration (rp_config r)))) (json_float parse)"

definition num_streams :: "iperf3_report \<Rightarrow> int result" where
  "num_streams r = rbind (test_start (rp_data r) ''num_streams'' (JInt (ic_parallel (rp_config r)))) json_int"

definition with_label :: "string \<Rightarrow> row list \<Rightarrow> row list" where
  "with_label label rows = filter (\<lambda>row. dict_get row ''_label'' = Some (JStr label)) rows"

definition summary_series :: "iperf3_report \<Rightarrow> row list option" where
  "summary_series r = List.find (\<lambda>rows. rows \<noteq> [])
     (map (\<lambda>l. with_label l (rp_summaries r)) [''sum'', ''sum_received'', ''sum_sent''])"

definition avg_throughput_mbps :: "iperf3_report \<Rightarrow> rat result" where
  "avg_throughput_mbps r =
    (let fallback = rbind (col_mean (primary_df r) ''bits_per_second'' 0) (\<lambda>x. Inr (x / 1000000)) in
     case summary_series r of
       None \<Rightarrow> fallback
     | Some series \<Rightarrow>
        if in_columns ''bytes'' (rp_summaries r) \<and> in_columns ''seconds'' (rp_summaries r)
        then rbind (numbers (column ''seconds'' series)) (\<lambda>secs.
          if sum_list secs > 0
          then rbind (numbers (column ''bytes'' series)) (\<lambda>bs. Inr (sum_list bs * 8 / sum_list secs / 1000000))
          else fallback)
        else fallback)"

definition max_throughput_mbps :: "iperf3_report \<Rightarrow> rat result" where
  "max_throughput_mbps r = rbind (col_max (primary_df r) ''bits_per_second'' 0) (\<lambda>x. Inr (x / 1000000))"

definition min_throughput_mbps :: "iperf3_report \<Rightarrow> rat result" where
  "min_throughput_mbps r = rbind (col_min (primary_df r) ''bits_per_second'' 0) (\<lambda>x. Inr (x / 1000000))"

definition pmtu :: "iperf3_report \<Rightarrow> int result" where
  "pmtu r = (if column ''pmtu'' (rp_streams r) = [] then Inr 0 else json_int (last (column ''pmtu'' (rp_streams r))))"

section \<open>Totals of a run\<close>

text \<open>A value of a section of \<open>end\<close>.\<close>

definition end_value :: "iperf3_report \<Rightarrow> string \<Rightarrow> string \<Rightarrow> json \<Rightarrow> json result" where
  "end_value r part k dflt = rbind (json_get ''end'' (JObj []) (rp_data r)) (\<lambda>e.
     rbind (json_get part (JObj []) e) (json_get k dflt))"

definition end_int :: "iperf3_report \<Rightarrow> string \<Rightarrow> string \<Rightarrow> int result" where
  "end_int r part k = rbind (end_value r part k (JInt 0)) json_int"

definition end_float :: "(string \<Rightarrow> rat option) \<Rightarrow> iperf3_report \<Rightarrow> string \<Rightarrow> string \<Rightarrow> rat result" where
  "end_float parse r part k = rbind (end_value r part k (JFloat 0)) (json_float parse)"

definition total_bytes_sent :: "iperf3_report \<Rightarrow> int result" where
  "total_bytes_sent r = end_int r ''sum_sent'' ''bytes''"

definition total_bytes_received :: "iperf3_report \<Rightarrow> int result" where
  "total_bytes_received r = end_int r ''sum_received'' ''bytes''"

definition total_retransmits :: "iperf3_report \<Rightarrow> int result" where
  "total_retransmits r = end_int r ''sum_sent'' ''retransmits''"

definition avg_rtt_ms :: "iperf3_report \<Rightarrow> rat result" where
  "avg_rtt_ms r = rbind (col_mean (rp_streams r) ''rtt'' 0) (\<lambda>x. Inr (x / 1000))"

definition max_rtt_ms :: "iperf3_report \<Rightarrow> rat result" where
  "max_rtt_ms r = rbind (col_max (rp_streams r) ''rtt'' 0) (\<lambda>x. Inr (x / 1000))"

definition avg_rtt_var_us :: "iperf3_report \<Rightarrow> rat result" where
  "avg_rtt_var_us r = col_mean (rp_streams r) ''rttvar'' 0"

definition avg_cwnd_bytes :: "iperf3_report \<Rightarrow> rat result" where
  "avg_cwnd_bytes r = col_mean (rp_streams r) ''snd_cwnd'' 0"

definition avg_snd_wnd_bytes :: "iperf3_report \<Rightarrow> rat result" where
  "avg_snd_wnd_bytes r = col_mean (rp_streams r) ''snd_wnd'' 0"

definition total_bytes :: "iperf3_report \<Rightarrow> int result" where
  "total_bytes r = end_int r ''sum'' ''bytes''"

definition total_packets :: "iperf3_report \<Rightarrow> int result" where
  "total_packets r = end_int r ''sum'' ''packets''"

definition avg_jitter_ms :: "(string \<Rightarrow> rat option) \<Rightarrow> iperf3_report \<Rightarrow> rat result" where
  "avg_jitter_ms parse r = end_float parse r ''sum'' ''jitter_ms''"

definition total_lost_packets :: "iperf3_report \<Rightarrow> int result" where
  "total_lost_packets r = end_int r ''sum'' ''lost_packets''"

definition avg_loss_percent :: "(string \<Rightarrow> rat option) \<Rightarrow> iperf3_report \<Rightarrow> rat result" where
  "avg_loss_percent parse r = end_float parse r ''sum'' ''lost_percent''"

definition total_out_of_order :: "iperf3_report \<Rightarrow> int result" where
  "total_out_of_order r = end_int r ''sum'' ''out_of_order''"

section \<open>The JSON forms of results\<close>

text \<open>A dictionary whose values are computed in the order of its keys.\<close>

definition json_fields :: "(string \<times> json result) list \<Rightarrow> (string \<times> json) list result" where
  "json_fields fs = rmap (\<lambda>(k, v). rbind v (\<lambda>x. Inr (k, x))) fs"

definition as_int :: "int result \<Rightarrow> json result" where
  "as_int r = rbind r (\<lambda>i. Inr (JInt i))"

definition as_float :: "rat result \<Rightarrow> json result" where
  "as_float r = rbind r (\<lambda>x. Inr (JFloat x))"

definition common_summary :: "(string \<Rightarrow> rat option) \<Rightarrow> iperf3_report \<Rightarrow> (string \<times> json result) list" where
  "common_summary parse r =
    [(''protocol'', Inr (JStr (rp_protocol r))), (''duration_seconds'', as_float (duration_seconds parse r)),
     (''num_streams'', as_int (num_streams r)), (''avg_throughput_mbps'', as_float (avg_throughput_mbps r)),
     (''max_throughput_mbps'', as_float (max_throughput_mbps r)), (''min_throughput_mbps'', as_float (min_throughput_mbps r)),
     (''pmtu'', as_int (pmtu r))]"

definition tcp_summary :: "iperf3_report \<Rightarrow> (string \<times> json result) list" where
  "tcp_summary r =
    [(''total_bytes_sent'', as_int (total_bytes_sent r)), (''total_bytes_received'', as_int (total_bytes_received r)),
     (''total_retransmits'', as_int (total_retransmits r)), (''avg_rtt_ms'', as_float (avg_rtt_ms r)),
     (''max_rtt_ms'', as_float (max_rtt_ms r)), (''avg_rtt_var_us'', as_float (avg_rtt_var_us r)),
     (''avg_cwnd_bytes'', as_float (avg_cwnd_bytes r)), (''avg_snd_wnd_bytes'', as_float (avg_snd_wnd_bytes r))]"

definition udp_summary :: "(string \<Rightarrow> rat option) \<Rightarrow> iperf3_report \<Rightarrow> (string \<times> json result) list" where
  "udp_summary parse r =
    [(''total_bytes'', as_int (total_bytes r)), (''total_packets'', as_int (total_packets r)),
     (''avg_jitter_ms'', as_float (avg_jitter_ms parse r)), (''total_lost_packets'', as_int (total_lost_packets r)),
     (''avg_loss_percent'', as_float (avg_loss_percent parse r)), (''total_out_of_order'', as_int (total_out_of_order r))]"

definition iperf3_to_json :: "(string \<Rightarrow> rat option) \<Rightarrow> iperf3_report \<Rightarrow> json result" where
  "iperf3_to_json parse r =
    rbind (json_fields (common_summary parse r @ (if rp_protocol r = ''TCP'' then tcp_summary r
        else if rp_protocol r = ''UDP'' then udp_summary parse r else []))) (\<lambda>summary.
      let cfg = rp_config r in
      Inr (JObj [(''config'', JObj [(''protocol'', JStr (ic_protocol cfg)), (''duration'', JInt (ic_duration cfg)),
          (''bandwidth_mbps'', JFloat (ic_bandwidth cfg)), (''parallel'', JInt (ic_parallel cfg)),
          (''interval'', JFloat (ic_interval cfg)), (''port'', JInt (ic_port cfg))]),
        (''summary'', JObj summary), (''raw'', rp_data r)]))"

definition ping_to_json :: "ping_results \<Rightarrow> json" where
  "ping_to_json r = (case pr_rtt r of (rmin, ravg, rmax, rmdev) \<Rightarrow>
     JObj [(''config'', JObj [(''count'', JInt (pc_count (pr_config r))), (''timeout_sec'', JFloat (pc_timeout (pr_config r))),
         (''interval_sec'', JFloat (pc_interval (pr_config r))), (''packet_size'', JInt (pc_size (pr_config r)))]),
       (''packets_transmitted'', JInt (int (pr_transmitted r))), (''packets_received'', JInt (int (pr_received r))),
       (''packet_loss_percent'', JFloat (pr_loss r)), (''reachable'', JBool (ping_reachable r)),
       (''rtt_min_ms'', JFloat rmin), (''rtt_avg_ms'', JFloat ravg), (''rtt_max_ms'', JFloat rmax), (''rtt_mdev_ms'', JFloat rmdev)])"

definition or_null :: "('a \<Rightarrow> json) \<Rightarrow> 'a option \<Rightarrow> json" where
  "or_null f x = (case x of None \<Rightarrow> JNull | Some y \<Rightarrow> f y)"

definition hping3_reachable :: "hping3_results \<Rightarrow> bool" where
  "hping3_reachable r = (0 < hr_received r)"

definition hping3_to_json :: "hping3_results \<Rightarrow> json" where
  "hping3_to_json r = (let cfg = hr_config r in
     JObj [(''config'', JObj [(''proto'', JStr (hc_proto cfg)), (''dport'', JInt (hc_dport cfg)), (''sport'', or_null JInt (hc_sport cfg)),
         (''count'', JInt (hc_count cfg)), (''size'', JInt (hc_size cfg)), (''ttl'', or_null JInt (hc_ttl cfg)),
         (''rate_type'', JStr (hc_rate_type cfg)), (''interval'', JStr (hc_interval cfg)),
         (''flags'', JList (map JStr (hc_flags cfg))), (''spoof_src'', or_null JStr (hc_spoof cfg))]),
       (''packets_transmitted'', or_null (JInt \<circ> int) (hr_transmitted r)), (''packets_received'', JInt (int (hr_received r))),
       (''packet_loss_percent'', or_null JFloat (hr_loss r)), (''reachable'', JBool (hping3_reachable r)),
       (''payload_bytes'', or_null (JInt \<circ> int) (hr_payload r)),
       (''rtt_min_ms'', or_null JFloat (hr_min r)), (''rtt_avg_ms'', or_null JFloat (hr_avg r)), (''rtt_max_ms'', or_null JFloat (hr_max r)),
       (''rtt_ms'', JList (map JFloat (hr_rtts r)))])"

section \<open>Plots of iperf3\<close>

text \<open>The metrics of a protocol: field, label of the axis and divisor of the displayed unit.\<close>

definition metric_map :: "string \<Rightarrow> (string \<times> string \<times> rat) list" where
  "metric_map protocol =
    (if protocol = ''UDP'' then
      [(''bits_per_second'', ''Throughput (Mbps)'', 1000000), (''bytes'', ''Bytes (MB)'', 1000000), (''packets'', ''Packets'', 1),
       (''jitter_ms'', ''Jitter (ms)'', 1), (''lost_packets'', ''Lost Packets'', 1), (''lost_percent'', ''Loss (%)'', 1),
       (''out_of_order'', ''Out-of-Order Packets'', 1), (''pmtu'', ''Path MTU (bytes)'', 1)]
     else
      [(''bits_per_second'', ''Throughput (Mbps)'', 1000000), (''bytes'', ''Bytes (MB)'', 1000000), (''retransmits'', ''Retransmits (count)'', 1),
       (''snd_cwnd'', ''Send CWnd (KB)'', 1000), (''snd_wnd'', ''Send Window (KB)'', 1000), (''rtt'', ''RTT (ms)'', 1000),
       (''rttvar'', ''RTT Var (us)'', 1), (''pmtu'', ''Path MTU (bytes)'', 1)])"

text \<open>The path of the file of a plot; a directory is written in its normal form.\<close>

definition plot_metric :: "iperf3_report \<Rightarrow> string \<Rightarrow> string \<Rightarrow> string \<Rightarrow> bool \<Rightarrow> string \<Rightarrow> string option" where
  "plot_metric r metric output_dir file_stem use_summary fmt =
    (if metric \<notin> set (map fst (metric_map (rp_protocol r))) then None
     else let df = (if use_summary \<and> rp_summaries r \<noteq> [] then rp_summaries r else rp_streams r) in
       if df = [] \<or> \<not> in_columns metric df \<or> column metric df = [] then None
       else Some (output_dir @ ''/'' @ file_stem @ ''_'' @ metric @ ''.'' @ fmt))"

definition plot_all :: "iperf3_report \<Rightarrow> string \<Rightarrow> string \<Rightarrow> string \<Rightarrow> string list" where
  "plot_all r output_dir file_stem fmt =
    List.map_filter (\<lambda>metric. plot_metric r metric output_dir file_stem True fmt) (map fst (metric_map (rp_protocol r)))"

text \<open>\<open>generate_iperf3_plots\<close> has its own copies of the intervals, which keep omitted entries, and of the
  metrics; every plot is saved twice and the second file, a PDF, is reported.\<close>

definition present_metrics :: "row list \<Rightarrow> string list \<Rightarrow> string list" where
  "present_metrics df metrics = (if df = [] then [] else filter (\<lambda>k. in_columns k df \<and> column k df \<noteq> []) metrics)"

definition plot_and_save :: "string \<Rightarrow> string \<Rightarrow> string \<Rightarrow> row list \<Rightarrow> string list \<Rightarrow> string list" where
  "plot_and_save out_dir name stem df metrics =
    (if df = [] \<or> metrics = [] then [] else map (\<lambda>k. out_dir @ ''/'' @ name @ ''_'' @ stem @ ''_'' @ k @ ''.pdf'') metrics)"

definition plot_cumulative_data :: "string \<Rightarrow> string \<Rightarrow> string \<Rightarrow> row list \<Rightarrow> string list" where
  "plot_cumulative_data out_dir name stem df =
    (if df \<noteq> [] \<and> in_columns ''bytes'' df \<and> column ''bytes'' df \<noteq> []
     then [out_dir @ ''/'' @ name @ ''_'' @ stem @ ''_cumulative_data.pdf''] else [])"

text \<open>The statistics that are printed: a label and a number, whose mean over no values is NaN (\<open>None\<close>).\<close>

datatype stat = NotAvailable | Number "rat option"

definition column_stat :: "(rat list \<Rightarrow> rat option) \<Rightarrow> rat \<Rightarrow> row list \<Rightarrow> string \<Rightarrow> stat result" where
  "column_stat f unit df col = rbind (numbers (column col df)) (\<lambda>xs. Inr (Number (map_option (\<lambda>x. x / unit) (f xs))))"

definition mean_or_nan :: "rat list \<Rightarrow> rat option" where
  "mean_or_nan xs = (if xs = [] then None else Some (mean xs))"

definition plot_stats :: "string \<Rightarrow> row list \<Rightarrow> (string \<times> stat result) list" where
  "plot_stats protocol df =
    (let total = Some \<circ> sum_list;
         avail = (\<lambda>label col f unit. if in_columns col df then [(label, column_stat f unit df col)] else [(label, Inr NotAvailable)]);
         silent = (\<lambda>label col f unit. if in_columns col df then [(label, column_stat f unit df col)] else [])
     in avail ''Average Throughput'' ''bits_per_second'' mean_or_nan 1000000 @
        (if protocol = ''TCP'' then avail ''Total Retransmissions'' ''retransmits'' total 1 @ avail ''Average RTT'' ''rtt'' mean_or_nan 1000 else []) @
        (if protocol = ''UDP'' then silent ''Total Lost Packets'' ''lost_packets'' total 1
            @ silent ''Average Packet Loss'' ''lost_percent'' mean_or_nan 1 @ silent ''Average Jitter'' ''jitter_ms'' mean_or_nan 1 else []) @
        silent ''Total Data Transferred'' ''bytes'' total 1000000)"

definition generate_iperf3_plots :: "(json \<Rightarrow> string) \<Rightarrow> string \<Rightarrow> string \<Rightarrow> json \<Rightarrow> ((string \<times> stat) list \<times> string list) result" where
  "generate_iperf3_plots show out_dir name data =
    rbind (test_start data ''protocol'' (JStr ''TCP'')) (\<lambda>p. rbind (flatten_intervals show False data) (\<lambda>(streams, summaries).
      let protocol = map upper_char (json_str show p); lower = map lower_char protocol;
          keys = map fst (metric_map protocol);
          df_for_stats = (if summaries \<noteq> [] then summaries else streams);
          files = plot_and_save out_dir name (lower @ ''_per_stream'') streams (present_metrics streams keys)
            @ plot_and_save out_dir name (lower @ ''_summaries'') summaries (present_metrics summaries keys)
            @ plot_cumulative_data out_dir name (lower @ ''_per_stream'') streams
            @ plot_cumulative_data out_dir name (lower @ ''_summaries'') summaries
      in rbind (rmap (\<lambda>(l, s). rbind s (\<lambda>x. Inr (l, x))) (if df_for_stats = [] then [] else plot_stats protocol df_for_stats))
          (\<lambda>stats. Inr (stats, files))))"

section \<open>Plots of iperf2\<close>

definition p_decimal :: "string pattern" where
  "p_decimal = p_then (p_some is_digit) (\<lambda>a. p_then (p_lit ''.'') (\<lambda>_. p_then (p_some is_digit) (\<lambda>b. p_return (a @ ''.'' @ b))))"

definition p_spaces :: "string pattern" where
  "p_spaces = p_span is_space"

text \<open>Socket, interval, megabytes and rate: the common part of both expressions.\<close>

definition iperf2_head :: "(string \<times> string \<times> string \<times> string \<times> string) pattern" where
  "iperf2_head = p_then (p_lit ''['') (\<lambda>_. p_then p_spaces (\<lambda>_. p_then (p_some is_digit) (\<lambda>stream. p_then (p_lit '']'') (\<lambda>_.
     p_then p_spaces (\<lambda>_. p_then p_decimal (\<lambda>start. p_then (p_lit ''-'') (\<lambda>_. p_then p_spaces (\<lambda>_. p_then p_decimal (\<lambda>stop.
     p_then p_spaces (\<lambda>_. p_then (p_lit ''sec'') (\<lambda>_. p_then p_spaces (\<lambda>_. p_then (p_some decimal_char) (\<lambda>mb.
     p_then p_spaces (\<lambda>_. p_then (p_lit ''MBytes'') (\<lambda>_. p_then p_spaces (\<lambda>_. p_then (p_some decimal_char) (\<lambda>mbps.
     p_then p_spaces (\<lambda>_. p_then (p_lit ''Mbits/sec'') (\<lambda>_. p_return (stream, start, stop, mb, mbps))))))))))))))))))))"

definition iperf2_retransmits :: "string pattern" where
  "iperf2_retransmits = p_then p_spaces (\<lambda>_. p_then (p_some is_digit) (\<lambda>n. p_then p_spaces (\<lambda>_.
     p_then (p_lit ''retransmits'') (\<lambda>_. p_return n))))"

definition tcp_pattern :: "((string \<times> string \<times> string \<times> string \<times> string) \<times> string option) pattern" where
  "tcp_pattern = p_then iperf2_head (\<lambda>h s. case iperf2_retransmits s of
     None \<Rightarrow> Some ((h, None), s) | Some (n, rest) \<Rightarrow> Some ((h, Some n), rest))"

definition udp_pattern :: "((string \<times> string \<times> string \<times> string \<times> string) \<times> string \<times> string \<times> string \<times> string) pattern" where
  "udp_pattern = p_then iperf2_head (\<lambda>h. p_then p_spaces (\<lambda>_. p_then (p_some decimal_char) (\<lambda>jitter. p_then p_spaces (\<lambda>_.
     p_then (p_lit ''ms'') (\<lambda>_. p_then p_spaces (\<lambda>_. p_then (p_some is_digit) (\<lambda>lost. p_then p_spaces (\<lambda>_. p_then (p_lit ''/'') (\<lambda>_.
     p_then p_spaces (\<lambda>_. p_then (p_some is_digit) (\<lambda>sent. p_then p_spaces (\<lambda>_. p_then (p_lit ''('') (\<lambda>_.
     p_then (p_some decimal_char) (\<lambda>loss. p_then (p_lit ''%)'') (\<lambda>_. p_return (h, jitter, lost, sent, loss))))))))))))))))"

record iperf2_row =
  i2_label :: string
  i2_start :: rat
  i2_end :: rat
  i2_bytes :: rat
  i2_bits_per_second :: rat
  i2_jitter_ms :: "rat option"
  i2_lost_packets :: "nat option"
  i2_total_packets :: "nat option"
  i2_lost_percent :: "rat option"
  i2_retransmits :: "nat option"

record iperf2_log =
  lg_rows :: "iperf2_row list"
  lg_summary :: "iperf2_row option"
  lg_protocol :: string

definition iperf2_row_of :: "string \<times> string \<times> string \<times> string \<times> string \<Rightarrow> iperf2_row result" where
  "iperf2_row_of h = (case h of (stream, start, stop, mb, mbps) \<Rightarrow>
     rbind (to_float start) (\<lambda>s. rbind (to_float stop) (\<lambda>e. rbind (to_float mb) (\<lambda>m. rbind (to_float mbps) (\<lambda>b.
       Inr \<lparr>i2_label = ''Socket '' @ stream, i2_start = s, i2_end = e, i2_bytes = m * 1000000, i2_bits_per_second = b * 1000000,
            i2_jitter_ms = None, i2_lost_packets = None, i2_total_packets = None, i2_lost_percent = None, i2_retransmits = None\<rparr>)))))"

definition parse_iperf2_line :: "string \<Rightarrow> iperf2_log \<Rightarrow> iperf2_log result" where
  "parse_iperf2_line line lg = (let l = py_strip line in case udp_pattern l of
     Some ((h, jitter, lost, sent, loss), _) \<Rightarrow>
       rbind (iperf2_row_of h) (\<lambda>r. rbind (to_float jitter) (\<lambda>j. rbind (to_float loss) (\<lambda>p.
         let row = r\<lparr>i2_jitter_ms := Some j, i2_lost_packets := Some (digits_value lost), i2_total_packets := Some (digits_value sent),
                    i2_lost_percent := Some p\<rparr>
         in Inr (if i2_end r - i2_start r > 1 then lg\<lparr>lg_protocol := ''UDP'', lg_summary := Some row\<rparr>
                 else lg\<lparr>lg_protocol := ''UDP'', lg_rows := lg_rows lg @ [row]\<rparr>))))
   | None \<Rightarrow> (case tcp_pattern l of
       None \<Rightarrow> Inr lg
     | Some ((h, retrans), _) \<Rightarrow> rbind (iperf2_row_of h) (\<lambda>r.
         Inr (lg\<lparr>lg_rows := lg_rows lg @ [r\<lparr>i2_retransmits := Some (case retrans of None \<Rightarrow> 0 | Some n \<Rightarrow> digits_value n)\<rparr>]\<rparr>))))"

fun parse_iperf2_log :: "string list \<Rightarrow> iperf2_log \<Rightarrow> iperf2_log result" where
  "parse_iperf2_log [] lg = Inr lg"
| "parse_iperf2_log (l # ls) lg = rbind (parse_iperf2_line l lg) (parse_iperf2_log ls)"

definition empty_iperf2_log :: iperf2_log where
  "empty_iperf2_log = \<lparr>lg_rows = [], lg_summary = None, lg_protocol = ''TCP''\<rparr>"

definition iperf2_files :: "string \<Rightarrow> string \<Rightarrow> iperf2_log \<Rightarrow> string list" where
  "iperf2_files out_dir name lg =
    (let stem = out_dir @ ''/'' @ name @ ''_'' @ map lower_char (lg_protocol lg); rows = lg_rows lg
     in [stem @ ''_throughput.png'', stem @ ''_bytes.png''] @
        (if lg_protocol lg = ''TCP'' \<and> list_ex (\<lambda>r. i2_retransmits r \<noteq> None) rows then [stem @ ''_retransmits.png''] else []) @
        (if lg_protocol lg = ''UDP'' then
          (if list_ex (\<lambda>r. i2_jitter_ms r \<noteq> None) rows then [stem @ ''_jitter.png''] else []) @
          (if list_ex (\<lambda>r. i2_lost_percent r \<noteq> None) rows then [stem @ ''_loss.png''] else []) else []) @
        [stem @ ''_cumulative.png''])"

text \<open>What is printed after the plots: lost packets, loss, jitter and megabytes. For TCP the last of
  them has no value, so printing it raises.\<close>

definition iperf2_statistics :: "iperf2_log \<Rightarrow> (nat \<times> rat option \<times> rat option \<times> rat) result" where
  "iperf2_statistics lg =
    (if lg_protocol lg = ''TCP'' then Inl (OtherError ''UnboundLocalError'')
     else case lg_summary lg of
       Some s \<Rightarrow> Inr (case i2_lost_packets s of None \<Rightarrow> 0 | Some n \<Rightarrow> n, i2_lost_percent s, i2_jitter_ms s, i2_bytes s / 1000000)
     | None \<Rightarrow> let rows = lg_rows lg in
         Inr (sum_list (List.map_filter i2_lost_packets rows), mean_or_nan (List.map_filter i2_lost_percent rows),
              mean_or_nan (List.map_filter i2_jitter_ms rows), sum_list (map i2_bytes rows) / 1000000))"

definition generate_iperf2_plots :: "string \<Rightarrow> string \<Rightarrow> string \<Rightarrow> string list result" where
  "generate_iperf2_plots out_dir name contents =
    rbind (parse_iperf2_log (file_lines contents) empty_iperf2_log) (\<lambda>lg.
      if lg_rows lg = [] then Inr [] else rbind (iperf2_statistics lg) (\<lambda>_. Inr (iperf2_files out_dir name lg)))"

end
