(* ===== verification/Report_Facts.thy ===== *)
theory Report_Facts
  imports Reports
begin

text \<open>
  Facts about the reports: the average rate of a run lies between its extremes, warm-up intervals
  never count, a report of the documented form gives all its metrics, and the plots of an iperf2
  log of TCP always end in an exception.
\<close>

section \<open>Columns\<close>

definition field :: "string \<Rightarrow> row \<Rightarrow> rat option" where
  "field k r = (case dict_get r k of None \<Rightarrow> None | Some v \<Rightarrow> json_number v)"

lemma json_number_not_null: "json_number v = Some x \<Longrightarrow> v \<noteq> JNull"
  by auto

lemma numbers_cons:
  "numbers (v # vs) = (case json_number v of None \<Rightarrow> Inl (TypeError ''could not convert to numeric'')
     | Some x \<Rightarrow> rbind (numbers vs) (\<lambda>xs. Inr (x # xs)))"
  by (simp add: numbers_def split: option.split)

lemma column_cons:
  "column k (r # rows) = (case dict_get r k of None \<Rightarrow> column k rows
     | Some v \<Rightarrow> if v = JNull then column k rows else v # column k rows)"
  by (cases "dict_get r k") (simp_all add: column_def List.map_filter_simps)

lemma column_Nil [simp]: "column k [] = []"
  by (simp add: column_def List.map_filter_def)

lemma numbers_column:
  "\<forall>r \<in> set rows. field k r \<noteq> None \<Longrightarrow> numbers (column k rows) = Inr (map (\<lambda>r. the (field k r)) rows)"
proof (induction rows)
  case (Cons r rows)
  then obtain v x where v: "dict_get r k = Some v" "json_number v = Some x"
    by (auto simp: field_def split: option.splits)
  then have "v \<noteq> JNull" "field k r = Some x" by (auto simp: field_def)
  with Cons v show ?case by (simp add: column_cons numbers_cons)
qed (simp add: numbers_def)

lemma col_aggregate_all:
  assumes "rows \<noteq> []" "\<forall>r \<in> set rows. field k r \<noteq> None"
  shows "col_aggregate f rows k d = Inr (f (map (\<lambda>r. the (field k r)) rows))"
proof -
  have nb: "numbers (column k rows) = Inr (map (\<lambda>r. the (field k r)) rows)" using numbers_column [OF assms(2)] .
  have "in_columns k rows" using assms by (cases rows) (auto simp: in_columns_def field_def split: option.splits)
  moreover have "column k rows \<noteq> []"
  proof
    assume "column k rows = []"
    with nb have "rows = []" by (simp add: numbers_def)
    with assms(1) show False by simp
  qed
  ultimately show ?thesis using assms(1) nb by (simp add: col_aggregate_def)
qed

section \<open>Rates\<close>

text \<open>A row as iperf3 writes it: its rate is its bytes over its seconds.\<close>

definition consistent :: "row \<Rightarrow> bool" where
  "consistent r \<longleftrightarrow> (case (field ''bytes'' r, field ''seconds'' r, field ''bits_per_second'' r) of
     (Some b, Some s, Some rate) \<Rightarrow> 0 < s \<and> rate = b * 8 / s | _ \<Rightarrow> False)"

lemma weighted_mean_bounds:
  fixes b s :: "'a \<Rightarrow> rat"
  assumes "xs \<noteq> []" "\<forall>x \<in> set xs. 0 < s x" "\<forall>x \<in> set xs. lo \<le> b x * 8 / s x \<and> b x * 8 / s x \<le> hi"
  shows "lo \<le> sum_list (map b xs) * 8 / sum_list (map s xs)" "sum_list (map b xs) * 8 / sum_list (map s xs) \<le> hi"
    "0 < sum_list (map s xs)"
proof -
  have "lo * sum_list (map s xs) \<le> sum_list (map b xs) * 8 \<and> sum_list (map b xs) * 8 \<le> hi * sum_list (map s xs)"
    using assms(2,3)
  proof (induction xs)
    case (Cons x xs)
    then have "lo * s x \<le> b x * 8" "b x * 8 \<le> hi * s x" by (auto simp: field_simps)
    with Cons show ?case by (auto simp: algebra_simps)
  qed simp
  moreover show pos: "0 < sum_list (map s xs)"
    using assms(1,2) by (induction xs) (auto, metis add_pos_pos add.right_neutral sum_list.Nil map_is_Nil_conv)
  ultimately show "lo \<le> sum_list (map b xs) * 8 / sum_list (map s xs)" "sum_list (map b xs) * 8 / sum_list (map s xs) \<le> hi"
    by (simp_all add: field_simps)
qed

lemma mean_bounds:
  fixes xs :: "rat list"
  assumes "xs \<noteq> []" "\<forall>x \<in> set xs. lo \<le> x \<and> x \<le> hi"
  shows "lo \<le> mean xs" "mean xs \<le> hi"
proof -
  have "of_nat (length xs) * lo \<le> sum_list xs \<and> sum_list xs \<le> of_nat (length xs) * hi"
    using assms(2) by (induction xs) (auto simp: algebra_simps)
  then show "lo \<le> mean xs" "mean xs \<le> hi"
    using assms(1) by (simp_all add: mean_def field_simps)
qed

lemma consistentD:
  assumes "consistent r"
  obtains b s where "field ''bytes'' r = Some b" "field ''seconds'' r = Some s" "0 < s"
    "field ''bits_per_second'' r = Some (b * 8 / s)"
  using assms by (auto simp: consistent_def split: option.splits)

lemma summary_series_Some:
  "summary_series r = Some series \<Longrightarrow> series \<noteq> [] \<and> set series \<subseteq> set (rp_summaries r)"
  by (auto simp: summary_series_def with_label_def split: if_splits)

lemma rate_between_extremes:
  assumes "primary_df r \<noteq> []" and "\<forall>row \<in> set (primary_df r). consistent row"
  obtains lo avg hi where "min_throughput_mbps r = Inr lo" "avg_throughput_mbps r = Inr avg" "max_throughput_mbps r = Inr hi"
    "lo \<le> avg" "avg \<le> hi"
proof -
  let ?rows = "primary_df r"
  let ?rate = "\<lambda>row. the (field ''bits_per_second'' row)" and ?b = "\<lambda>row. the (field ''bytes'' row)" and ?s = "\<lambda>row. the (field ''seconds'' row)"
  have f: "field ''bits_per_second'' row \<noteq> None" "field ''bytes'' row \<noteq> None" "field ''seconds'' row \<noteq> None"
    "0 < ?s row" "?rate row = ?b row * 8 / ?s row" if "row \<in> set ?rows" for row
    using consistentD [of row] assms(2) that by (metis option.sel option.distinct(1))+
  let ?lo = "Min (?rate ` set ?rows)" and ?hi = "Max (?rate ` set ?rows)"
  have ext: "?lo \<le> ?rate row \<and> ?rate row \<le> ?hi" if "row \<in> set ?rows" for row using that by simp
  have lo: "min_throughput_mbps r = Inr (?lo / 1000000)" and hi: "max_throughput_mbps r = Inr (?hi / 1000000)"
    using col_aggregate_all [OF assms(1), of "''bits_per_second''"] f(1)
    by (simp_all add: min_throughput_mbps_def max_throughput_mbps_def col_min_def col_max_def)
  let ?mean = "mean (map ?rate ?rows)"
  have fb: "rbind (col_mean ?rows ''bits_per_second'' 0) (\<lambda>x. Inr (x / 1000000)) = Inr (?mean / 1000000)"
    using col_aggregate_all [OF assms(1), of "''bits_per_second''"] f(1) by (simp add: col_mean_def)
  have mb: "?lo \<le> ?mean" "?mean \<le> ?hi"
    using mean_bounds [of "map ?rate ?rows" ?lo ?hi] assms(1) ext by auto
  show thesis
  proof (cases "summary_series r")
    case None
    then have "avg_throughput_mbps r = Inr (?mean / 1000000)" using fb by (simp add: avg_throughput_mbps_def)
    from that [OF lo this hi] mb show thesis by (simp add: divide_right_mono)
  next
    case (Some series)
    then have s: "series \<noteq> []" "set series \<subseteq> set (rp_summaries r)" using summary_series_Some by blast+
    then have ne: "rp_summaries r \<noteq> []" by auto
    then have p: "?rows = rp_summaries r" by (simp add: primary_df_def)
    have sub: "row \<in> set ?rows" if "row \<in> set series" for row using s(2) that unfolding p by blast
    obtain row where row: "row \<in> set (rp_summaries r)" using ne by (cases "rp_summaries r") auto
    then have cols: "in_columns ''bytes'' (rp_summaries r)" "in_columns ''seconds'' (rp_summaries r)"
      using f(2,3) [of row] unfolding p by (auto simp: in_columns_def list_ex_iff field_def split: option.splits)
    have nums: "numbers (column ''seconds'' series) = Inr (map ?s series)" "numbers (column ''bytes'' series) = Inr (map ?b series)"
      using numbers_column f(2,3) sub by blast+
    have w: "?lo \<le> sum_list (map ?b series) * 8 / sum_list (map ?s series)"
      "sum_list (map ?b series) * 8 / sum_list (map ?s series) \<le> ?hi" "0 < sum_list (map ?s series)"
      by (rule weighted_mean_bounds [OF s(1)]; use f(4,5) ext sub in fastforce)+
    have "avg_throughput_mbps r = Inr (sum_list (map ?b series) * 8 / sum_list (map ?s series) / 1000000)"
      using Some cols nums w(3) by (simp add: avg_throughput_mbps_def Let_def)
    from that [OF lo this hi divide_right_mono [OF w(1)] divide_right_mono [OF w(2)]] show thesis by simp
  qed
qed

text \<open>
  When every interval of a report gives its rate as bytes over seconds, the average
  rate is computed and lies between the smallest and the largest one, although the average is taken
  over one series of sums only and the extremes over all of them.
\<close>

theorem throughput_between_extremes:
  assumes "primary_df r \<noteq> []" and "\<forall>row \<in> set (primary_df r). consistent row"
  shows "\<exists>lo avg hi. min_throughput_mbps r = Inr lo \<and> avg_throughput_mbps r = Inr avg \<and> max_throughput_mbps r = Inr hi
    \<and> lo \<le> avg \<and> avg \<le> hi"
  using rate_between_extremes [OF assms] by metis

definition sum_entry :: "int \<Rightarrow> int \<Rightarrow> json" where
  "sum_entry start bytes = JObj [(''start'', JInt start), (''end'', JInt (start + 1)), (''seconds'', JInt 1), (''bytes'', JInt bytes),
     (''bits_per_second'', JInt (8 * bytes)), (''omitted'', JBool (start = 0))]"

definition three_seconds :: json where
  "three_seconds = JObj [(''intervals'', JList (map (\<lambda>(t, b). JObj [(''streams'', JList []), (''sum'', sum_entry t b)])
     [(0, 1000), (1, 2000), (2, 4000)]))]"

definition three_seconds_report :: iperf3_report where
  "three_seconds_report = \<lparr>rp_data = three_seconds, rp_config = default_iperf3_config, rp_protocol = ''TCP'', rp_streams = [],
     rp_summaries = map (\<lambda>(t, b). case sum_entry t b of JObj d \<Rightarrow> labelled ''sum'' d | _ \<Rightarrow> []) [(1, 2000), (2, 4000)]\<rparr>"

lemma three_seconds_new: "new_iperf3_report (\<lambda>_. []) default_iperf3_config three_seconds = Inr three_seconds_report"
  by (simp add: new_iperf3_report_def three_seconds_def three_seconds_report_def test_start_def flatten_intervals_def interval_rows_def
      sum_rows_def sum_keys_def sum_entry_def omitted_def default_iperf3_config_def upper_char_def)

theorem throughput_between_extremes_witness:
  "\<exists>lo avg hi. min_throughput_mbps three_seconds_report = Inr lo \<and> avg_throughput_mbps three_seconds_report = Inr avg
     \<and> max_throughput_mbps three_seconds_report = Inr hi \<and> lo \<le> avg \<and> avg \<le> hi"
  by (rule throughput_between_extremes)
    (simp_all add: primary_df_def three_seconds_report_def sum_entry_def labelled_def row_time_def consistent_def field_def)

section \<open>Warm-up intervals\<close>

lemma omitted_labelled [simp]: "omitted (labelled l d) = omitted d"
  by (simp add: omitted_def labelled_def)

definition warm :: "row list \<Rightarrow> row list" where
  "warm rows = filter (\<lambda>r. \<not> omitted r) rows"

lemma warm_append [simp]: "warm (xs @ ys) = warm xs @ warm ys" "warm [] = []"
  by (simp_all add: warm_def)

lemma rmap_skip:
  assumes "\<And>x. f x = rbind (g x) (\<lambda>y. Inr (h y))"
  shows "rmap f xs = rbind (rmap g xs) (\<lambda>ys. Inr (map h ys))"
proof (induction xs)
  case (Cons x xs)
  then show ?case by (cases "g x"; cases "rmap g xs") (simp_all add: assms)
qed simp

lemma stream_rows_skip: "stream_rows show True s = rbind (stream_rows show False s) (\<lambda>rows. Inr (warm rows))"
  by (cases s) (simp_all add: stream_rows_def warm_def)

lemma sum_rows_skip: "sum_rows True d k = rbind (sum_rows False d k) (\<lambda>rows. Inr (warm rows))"
proof (cases "dict_get d k")
  case (Some v)
  then show ?thesis by (cases "as_dict v") (simp_all add: sum_rows_def warm_def)
qed (simp add: sum_rows_def)

lemma concat_warm: "concat (map warm rs) = warm (concat rs)"
  by (induction rs) simp_all

lemma rbind_assoc: "rbind (rbind r f) g = rbind r (\<lambda>x. rbind (f x) g)"
  by (cases r) simp_all

lemma interval_rows_skip:
  "interval_rows show True it = rbind (interval_rows show False it) (\<lambda>(s, t). Inr (warm s, warm t))"
proof -
  have "rmap (stream_rows show True) ss = rbind (rmap (stream_rows show False) ss) (\<lambda>rs. Inr (map warm rs))" for ss
    by (rule rmap_skip) (rule stream_rows_skip)
  moreover have "rmap (sum_rows True d) sum_keys = rbind (rmap (sum_rows False d) sum_keys) (\<lambda>rs. Inr (map warm rs))" for d
    by (rule rmap_skip) (rule sum_rows_skip)
  ultimately show ?thesis
    by (simp add: interval_rows_def rbind_assoc concat_warm)
qed


text \<open>
  Omitted entries never count: the rows of a report are those of all entries,
  as the plots take them, without the omitted ones, in the same order; and an entry that raises does
  so in both.
\<close>

theorem warm_up_excluded:
  "flatten_intervals show True data = rbind (flatten_intervals show False data) (\<lambda>(s, t).
     Inr (filter (\<lambda>r. \<not> omitted r) s, filter (\<lambda>r. \<not> omitted r) t))"
proof -
  have "rmap (interval_rows show True) is = rbind (rmap (interval_rows show False) is) (\<lambda>rs. Inr (map (\<lambda>(s, t). (warm s, warm t)) rs))" for "is"
    by (rule rmap_skip) (simp add: interval_rows_skip case_prod_unfold)
  moreover have "concat (map fst (map (\<lambda>(s, t). (warm s, warm t)) rs)) = warm (concat (map fst rs))"
    "concat (map snd (map (\<lambda>(s, t). (warm s, warm t)) rs)) = warm (concat (map snd rs))" for rs :: "(row list \<times> row list) list"
    by (induction rs) (auto simp: case_prod_unfold)
  ultimately show ?thesis
    by (simp add: flatten_intervals_def rbind_assoc warm_def)
qed

section \<open>Plots of iperf2\<close>

lemma tcp_line:
  assumes "udp_pattern (py_strip l) = None" "parse_iperf2_line l lg = Inr lg'"
  shows "lg_protocol lg' = lg_protocol lg \<and> (lg_rows lg' = [] \<longleftrightarrow> lg_rows lg = [] \<and> tcp_pattern (py_strip l) = None)"
  using assms by (auto simp: parse_iperf2_line_def Let_def split: option.splits prod.splits)

lemma tcp_log:
  assumes "\<forall>l \<in> set ls. udp_pattern (py_strip l) = None" "parse_iperf2_log ls lg = Inr lg'"
  shows "lg_protocol lg' = lg_protocol lg \<and> (lg_rows lg' = [] \<longleftrightarrow> lg_rows lg = [] \<and> (\<forall>l \<in> set ls. tcp_pattern (py_strip l) = None))"
  using assms
proof (induction ls arbitrary: lg)
  case (Cons l ls)
  then obtain lg1 where "parse_iperf2_line l lg = Inr lg1" "parse_iperf2_log ls lg1 = Inr lg'" by auto
  with Cons.IH [of lg1] Cons.prems tcp_line [of l lg lg1] show ?case by auto
qed simp

lemma no_lines_log:
  "\<lbrakk>\<forall>l \<in> set ls. udp_pattern (py_strip l) = None; \<forall>l \<in> set ls. tcp_pattern (py_strip l) = None\<rbrakk> \<Longrightarrow> parse_iperf2_log ls lg = Inr lg"
  by (induction ls) (simp_all add: parse_iperf2_line_def)

text \<open>
  The plots of an iperf2 log without UDP lines succeed exactly when the log has no
  TCP line either: the statistics of TCP print a total that is only computed for UDP.
\<close>

theorem iperf2_tcp_fails:
  assumes "\<forall>l \<in> set (file_lines contents). udp_pattern (py_strip l) = None"
  shows "(\<exists>files. generate_iperf2_plots out_dir name contents = Inr files)
    \<longleftrightarrow> (\<forall>l \<in> set (file_lines contents). tcp_pattern (py_strip l) = None)"
proof
  assume "\<forall>l \<in> set (file_lines contents). tcp_pattern (py_strip l) = None"
  then show "\<exists>files. generate_iperf2_plots out_dir name contents = Inr files"
    using no_lines_log [OF assms] by (simp add: generate_iperf2_plots_def empty_iperf2_log_def)
next
  assume "\<exists>files. generate_iperf2_plots out_dir name contents = Inr files"
  then obtain lg where lg: "parse_iperf2_log (file_lines contents) empty_iperf2_log = Inr lg"
    and c: "lg_rows lg = [] \<or> (\<exists>x. iperf2_statistics lg = Inr x)"
    by (auto simp: generate_iperf2_plots_def split: if_splits)
  from tcp_log [OF assms lg] c show "\<forall>l \<in> set (file_lines contents). tcp_pattern (py_strip l) = None"
    by (auto simp: empty_iperf2_log_def iperf2_statistics_def)
qed

definition tcp_log_text :: string where
  "tcp_log_text = ''[  3] 0.0-1.0 sec 12.5 MBytes 105 Mbits/sec''"

theorem iperf2_tcp_fails_witness:
  "\<not> (\<exists>files. generate_iperf2_plots ''/tmp/results'' ''iperf2'' tcp_log_text = Inr files)"
proof -
  have l: "file_lines tcp_log_text = [tcp_log_text]" and u: "udp_pattern (py_strip tcp_log_text) = None"
    and t: "tcp_pattern (py_strip tcp_log_text) \<noteq> None" by code_simp+
  have "\<forall>l \<in> set (file_lines tcp_log_text). udp_pattern (py_strip l) = None" using u unfolding l by simp
  from iperf2_tcp_fails [OF this, of "''/tmp/results''" "''iperf2''"] t show ?thesis unfolding l by simp
qed

text \<open>A metric that only streams have, such as the round-trip time, is not plotted by \<open>plot_all\<close> when there
  is any sum.\<close>

lemma plot_all_skips_streams:
  assumes "rp_summaries r \<noteq> []" and "\<not> in_columns k (rp_summaries r)"
  shows "plot_metric r k output_dir file_stem True fmt = None"
  using assms by (simp add: plot_metric_def)

end
