(* ===== verification/QoS.thy ===== *)
theory QoS
  imports Traffic Link_Budget
begin

text \<open>
  The token bucket filter of a link, \<open>models/mixins/qos_mixin.py\<close>: the filter in place is read
  from the output of \<open>tc\<close>, burst and limit are computed from the traffic, and a command that changes
  the filter is run.

  Running a command on the node is the parameter \<open>sh\<close>; a float is a rational number, printed by
  \<open>fmt\<close>. Messages are left out.
\<close>

section \<open>The filter in place\<close>

definition p_unit :: "string pattern" where
  "p_unit s = (case s of c # cs \<Rightarrow> if c \<in> {CHR ''G'', CHR ''M'', CHR ''K''} then Some ([c], cs) else Some ([], s) | [] \<Rightarrow> Some ([], s))"

text \<open>Rate and burst, which both expressions start with.\<close>

definition tbf_head :: "(string \<times> string) pattern" where
  "tbf_head = p_then (p_lit ''rate '') (\<lambda>_. p_then (p_some is_digit) (\<lambda>n. p_then p_unit (\<lambda>u. p_then (p_lit ''bit burst '') (\<lambda>_.
     p_then (p_some is_digit) (\<lambda>b. p_then (p_lit ''b '') (\<lambda>_. p_return (n @ u @ ''bit'', b @ ''b'')))))))"

definition tbf_pattern_latency :: "(string \<times> string \<times> string) pattern" where
  "tbf_pattern_latency = p_then tbf_head (\<lambda>(rate, burst). p_then (p_lit ''lat '') (\<lambda>_. p_then (p_some is_digit) (\<lambda>n s.
     if startswith ''ms'' s then Some ((rate, burst, n @ ''ms''), drop 2 s)
     else if startswith ''us'' s then Some ((rate, burst, n @ ''us''), drop 2 s) else None)))"

definition tbf_pattern_limit :: "(string \<times> string \<times> string) pattern" where
  "tbf_pattern_limit = p_then tbf_head (\<lambda>(rate, burst). p_then (p_lit ''limit '') (\<lambda>_. p_then (p_some is_digit) (\<lambda>n.
     p_then (p_lit ''b'') (\<lambda>_. p_return (rate, burst, n @ ''b'')))))"

text \<open>Rate and burst of a line of \<open>tc\<close>, and the limit that the code computes and does not use.\<close>

definition leading_number :: "string \<Rightarrow> nat" where
  "leading_number s = digits_value (takeWhile is_digit s)"

definition read_tbf :: "rat \<Rightarrow> string \<Rightarrow> (string \<times> string \<times> int) option" where
  "read_tbf capacity_bytes line =
    (case re_search tbf_pattern_latency line of
       Some (rate, burst, lat) \<Rightarrow>
         Some (rate, burst, (let x = of_nat (leading_number lat) * capacity_bytes in if 0 \<le> x then \<lfloor>x\<rfloor> else \<lceil>x\<rceil>) + int (leading_number burst))
     | None \<Rightarrow> (case re_search tbf_pattern_limit line of
         Some (rate, burst, limit) \<Rightarrow> Some (rate, burst, int (leading_number limit))
       | None \<Rightarrow> None))"

section \<open>Burst and limit\<close>

definition link_bytes :: "int \<Rightarrow> rat" where
  "link_bytes mbps = of_int mbps * 1000000 / 8"

text \<open>Bytes per second that the flows need on the wire beyond the capacity of the link.\<close>

definition excess_rate :: "int \<Rightarrow> int \<Rightarrow> int \<Rightarrow> rat" where
  "excess_rate num_flows demand_bit_rate isl_capacity =
    of_int num_flows * link_bytes demand_bit_rate * (1500 / (1500 - 42)) - link_bytes isl_capacity"

definition total_excess :: "int \<Rightarrow> int \<Rightarrow> int \<Rightarrow> int \<Rightarrow> rat" where
  "total_excess num_flows demand_bit_rate isl_capacity num_of_bytes =
    excess_rate num_flows demand_bit_rate isl_capacity * (of_int num_of_bytes / link_bytes demand_bit_rate)"

definition show_command :: "string \<Rightarrow> string" where
  "show_command iface = ''tc qdisc show dev '' @ iface"

definition change_command :: "string \<Rightarrow> string \<Rightarrow> string \<Rightarrow> string \<Rightarrow> string" where
  "change_command iface rate burst limit = ''tc qdisc change dev '' @ iface @ '' parent 1:1 handle 10: tbf rate '' @ rate
     @ '' burst '' @ burst @ '' limit '' @ limit @ ''b''"

text \<open>The burst of the new filter, in bytes, and its limit. The second value is \<open>None\<close> when the burst
  in place is kept. Both modes divide by the capacity for a message.\<close>

definition plan_tbf :: "int \<Rightarrow> int \<Rightarrow> int \<Rightarrow> int \<Rightarrow> string \<Rightarrow> nat \<Rightarrow> (rat \<times> rat option) option result" where
  "plan_tbf num_flows demand_bit_rate isl_capacity num_of_bytes tbf_config burst =
    (let capacity_bytes = link_bytes isl_capacity;
         excess = total_excess num_flows demand_bit_rate isl_capacity num_of_bytes
     in if tbf_config = ''limit'' then
          if capacity_bytes = 0 then zero_division else Inr (Some (excess - of_nat burst, None))
        else if tbf_config = ''burstlimit'' then
          (let required_limit = capacity_bytes * (72 / 1000)
           in if capacity_bytes = 0 then zero_division else Inr (Some (required_limit, Some (excess - required_limit))))
        else Inr None)"

definition initialise_global_qos :: "(string \<Rightarrow> bool \<Rightarrow> 'w \<Rightarrow> string result \<times> 'w) \<Rightarrow> (rat \<Rightarrow> string) \<Rightarrow> string \<Rightarrow> int \<Rightarrow> int \<Rightarrow> int \<Rightarrow> int
    \<Rightarrow> string \<Rightarrow> 'w \<Rightarrow> unit result \<times> 'w" where
  "initialise_global_qos sh fmt iface num_flows demand_bit_rate isl_capacity num_of_bytes tbf_config w =
    (if link_bytes demand_bit_rate = 0 then (zero_division, w)
     else case sh (show_command iface) False w of
       (Inl e, w1) \<Rightarrow> (Inl e, w1)
     | (Inr output, w1) \<Rightarrow>
        (case split_on newline (py_strip output) of
           _ # line # _ \<Rightarrow>
            (case read_tbf (link_bytes isl_capacity) line of
               None \<Rightarrow> (Inr (), w1)
             | Some (rate, burst, _) \<Rightarrow>
                (case plan_tbf num_flows demand_bit_rate isl_capacity num_of_bytes tbf_config (leading_number burst) of
                   Inl e \<Rightarrow> (Inl e, w1)
                 | Inr None \<Rightarrow> (Inr (), w1)
                 | Inr (Some (limit, new_burst)) \<Rightarrow>
                    (case sh (change_command iface rate
                        (case new_burst of None \<Rightarrow> burst | Some b \<Rightarrow> fmt b @ ''b'') (fmt limit)) False w1 of
                       (Inl e, w2) \<Rightarrow> (Inl e, w2)
                     | (Inr _, w2) \<Rightarrow> (Inr (), w2))))
         | _ \<Rightarrow> (Inl (OtherError ''IndexError''), w1)))"

section \<open>What the new filter holds\<close>

lemma plan_absorbs:
  assumes "isl_capacity \<noteq> 0" "tbf_config = ''limit'' \<or> tbf_config = ''burstlimit''"
  obtains limit new_burst where "plan_tbf num_flows demand isl_capacity num_of_bytes tbf_config burst = Inr (Some (limit, new_burst))"
    and "limit + (case new_burst of None \<Rightarrow> of_nat burst | Some b \<Rightarrow> b) = total_excess num_flows demand isl_capacity num_of_bytes"
    and "new_burst = None \<longleftrightarrow> tbf_config = ''limit''"
  using assms by (auto simp: plan_tbf_def link_bytes_def Let_def)

lemma excess_without_overload:
  assumes "excess_rate num_flows demand isl_capacity < 0" "0 < demand" "0 < num_of_bytes"
  shows "total_excess num_flows demand isl_capacity num_of_bytes < 0"
  using assms by (simp add: total_excess_def link_bytes_def mult_neg_pos divide_neg_pos)


definition tc_output :: string where
  "tc_output = ''qdisc htb 1: root'' @ [newline] @ ''qdisc tbf 10: parent 1:1 rate 100Mbit burst 1600b lat 50ms''"

definition tc_shell :: "string \<Rightarrow> bool \<Rightarrow> string list \<Rightarrow> string result \<times> string list" where
  "tc_shell c detach w = (Inr tc_output, w @ [c])"


end
