(* ===== verification/Diagnostics.thy ===== *)
theory Diagnostics
  imports Reports Manager
begin

text \<open>
  Diagnostics of a running network, \<open>services/mixins/diagnostics.py\<close>: the stream of a terminal,
  the usage of links from the files of the interface monitor, packet captures, and commands on a node
  given by its name.

  Threads and queues become a state with steps: the client appends to the input queue, the generator
  takes from it. Files, \<open>json.loads\<close>, the terminal emulators that are installed and running a command
  are arguments. The jobs of a thread pool run in the order in which they complete, which is the order
  of the list of results; of a node only its name and identifier are part of a link.
\<close>

section \<open>Terminals\<close>

datatype term_msg = TermCmd | TermData string | TermResize int int | TermClose

datatype srv_code = SrvStdout | SrvStderr | SrvError | SrvClose | SrvOther int

record terminal =
  te_queue :: "term_msg option list"
  te_closed :: bool
  te_started :: bool
  te_ended :: bool
  te_yielded :: "term_msg list"
  te_responses :: "(srv_code \<times> string) option list"

definition new_terminal :: terminal where
  "new_terminal = \<lparr>te_queue = [], te_closed = False, te_started = False, te_ended = False, te_yielded = [], te_responses = []\<rparr>"

definition term_put :: "term_msg \<Rightarrow> terminal \<Rightarrow> terminal result" where
  "term_put m t = (if te_closed t then Inl (RuntimeError ''Terminal is closed'') else Inr (t\<lparr>te_queue := te_queue t @ [Some m]\<rparr>))"

definition term_send :: "string \<Rightarrow> terminal \<Rightarrow> terminal result" where
  "term_send data t = term_put (TermData data) t"

definition term_resize :: "int \<Rightarrow> int \<Rightarrow> terminal \<Rightarrow> terminal result" where
  "term_resize width height t = term_put (TermResize width height) t"

definition term_close :: "terminal \<Rightarrow> terminal" where
  "term_close t = (if te_closed t then t else t\<lparr>te_closed := True, te_queue := te_queue t @ [Some TermClose, None]\<rparr>)"

text \<open>One step of the generator that the server reads from; an empty queue blocks it.\<close>

definition generator_step :: "terminal \<Rightarrow> terminal option" where
  "generator_step t =
    (if te_ended t then None
     else if \<not> te_started t then Some (t\<lparr>te_started := True, te_yielded := [TermCmd]\<rparr>)
     else case te_queue t of
       [] \<Rightarrow> None
     | None # q \<Rightarrow> Some (t\<lparr>te_queue := q, te_ended := True\<rparr>)
     | Some m # q \<Rightarrow> Some (t\<lparr>te_queue := q, te_yielded := te_yielded t @ [m]\<rparr>))"

definition recv_response :: "(srv_code \<times> string) option \<Rightarrow> terminal \<Rightarrow> terminal" where
  "recv_response r t = t\<lparr>te_responses := te_responses t @ [r]\<rparr>"

definition code_name :: "srv_code \<Rightarrow> string" where
  "code_name c = (case c of SrvStdout \<Rightarrow> ''stdout'' | SrvStderr \<Rightarrow> ''stderr'' | SrvError \<Rightarrow> ''error'' | SrvClose \<Rightarrow> ''close''
     | SrvOther _ \<Rightarrow> ''unknown'')"

text \<open>Reading with a time-out: an empty queue raises.\<close>

definition term_read :: "terminal \<Rightarrow> (string \<times> string) option result \<times> terminal" where
  "term_read t = (case te_responses t of
     [] \<Rightarrow> (Inl (OtherError ''Empty''), t)
   | None # rs \<Rightarrow> (Inr None, t\<lparr>te_responses := rs\<rparr>)
   | Some (c, data) # rs \<Rightarrow> (Inr (Some (code_name c, data)), t\<lparr>te_responses := rs\<rparr>))"

text \<open>The calls of a client, and the states after a sequence of them: the generator and the receiver
  take their steps at any time.\<close>

datatype term_call = CallSend string | CallResize int int | CallClose

definition do_call :: "term_call \<Rightarrow> terminal \<Rightarrow> terminal" where
  "do_call c t = (case c of
     CallSend d \<Rightarrow> (case term_send d t of Inl _ \<Rightarrow> t | Inr t' \<Rightarrow> t')
   | CallResize w h \<Rightarrow> (case term_resize w h t of Inl _ \<Rightarrow> t | Inr t' \<Rightarrow> t')
   | CallClose \<Rightarrow> term_close t)"

inductive term_run :: "term_call list \<Rightarrow> terminal \<Rightarrow> bool" where
  run_new: "term_run [] new_terminal"
| run_call: "term_run cs t \<Longrightarrow> term_run (cs @ [c]) (do_call c t)"
| run_generator: "term_run cs t \<Longrightarrow> generator_step t = Some t' \<Longrightarrow> term_run cs t'"
| run_receive: "term_run cs t \<Longrightarrow> term_run cs (recv_response r t)"
| run_read: "term_run cs t \<Longrightarrow> term_run cs (snd (term_read t))"

section \<open>Usage of links\<close>

definition process_interface_file :: "(string \<Rightarrow> json option) \<Rightarrow> string result \<Rightarrow> json result" where
  "process_interface_file loads content = rbind content (\<lambda>s.
     let ls = file_lines s in
     if ls = [] then Inr (JObj [])
     else let last_line = py_strip (last ls) in
       if last_line = [] then Inr (JObj []) else (case loads last_line of None \<Rightarrow> Inr (JObj []) | Some j \<Rightarrow> Inr j))"

record link_usage =
  us_src :: string
  us_dst :: string
  us_value :: int
  us_type :: string

definition peer_suffix :: "string \<Rightarrow> string" where
  "peer_suffix iface = (let node_part = (if CHR ''.'' \<in> set iface then tl (dropWhile (\<lambda>c. c \<noteq> CHR ''.'') iface) else iface)
     in drop 3 node_part)"

definition monitored_link :: "(string set, link) dict \<Rightarrow> string \<Rightarrow> string \<Rightarrow> (string set \<times> link) option" where
  "monitored_link links sat_name iface =
    (let gnd = {sat_name, ''Gnd'' @ peer_suffix iface}; sat = {sat_name, ''Sat'' @ peer_suffix iface}
     in case dict_get links gnd of
          Some l \<Rightarrow> Some (gnd, l)
        | None \<Rightarrow> map_option (\<lambda>l. (sat, l)) (dict_get links sat))"

definition usage_bps :: "json \<Rightarrow> int result" where
  "usage_bps v = json_int (if truthy v then v else JInt 0)"

definition usage_name :: "nref \<Rightarrow> string" where
  "usage_name r = (if nr_name r \<noteq> [] then nr_name r else ''Sat'' @ dec_int (nr_id r))"

text \<open>The usages by link key, and the rate that was last written to a link, by its place in the
  dictionary of links.\<close>

type_synonym usage_state = "(string set, link_usage) dict \<times> (string set, int) dict"

definition record_usage :: "string set \<Rightarrow> string set \<Rightarrow> link \<Rightarrow> int \<Rightarrow> usage_state \<Rightarrow> usage_state" where
  "record_usage place key l usage st = (case st of (m, tx) \<Rightarrow>
     ((case dict_get m key of
         None \<Rightarrow> dict_set key \<lparr>us_src = usage_name (lk_source l), us_dst = usage_name (lk_target l), us_value = usage, us_type = lk_type l\<rparr> m
       | Some u \<Rightarrow> if usage > us_value u then dict_set key (u\<lparr>us_value := usage\<rparr>) m else m),
      dict_set place usage tx))"

definition monitor_entry :: "(string set, link) dict \<Rightarrow> string \<Rightarrow> string \<times> json \<Rightarrow> usage_state \<Rightarrow> usage_state" where
  "monitor_entry links sat_name e st = (case monitored_link links sat_name (fst e) of
     None \<Rightarrow> st
   | Some (place, l) \<Rightarrow> (case (link_key l, usage_bps (snd e)) of
       (Inr key, Inr usage) \<Rightarrow> record_usage place key l usage st
     | _ \<Rightarrow> st))"

text \<open>The result of one satellite. A value that is no dictionary has no items.\<close>

definition monitor_result :: "(string set, link) dict \<Rightarrow> string \<times> json result \<Rightarrow> usage_state \<Rightarrow> usage_state result" where
  "monitor_result links r st = (case r of (sat_name, res) \<Rightarrow> (case res of
     Inr stats \<Rightarrow> if \<not> truthy stats then Inr st else (case stats of
       JObj d \<Rightarrow> Inr (fold (monitor_entry links sat_name) d st)
     | _ \<Rightarrow> Inl (OtherError ''AttributeError''))
   | Inl e \<Rightarrow> (case e of
       OtherError x \<Rightarrow> if x = ''FileNotFoundError'' then Inr st else Inl e
     | RuntimeError _ \<Rightarrow> Inl e
     | _ \<Rightarrow> Inr st)))"

fun monitor_results :: "(string set, link) dict \<Rightarrow> (string \<times> json result) list \<Rightarrow> usage_state \<Rightarrow> usage_state result" where
  "monitor_results links [] st = Inr st"
| "monitor_results links (r # rs) st = rbind (monitor_result links r st) (monitor_results links rs)"

text \<open>The files are read by a pool of at most as many threads as there are links; a pool without
  threads cannot be made.\<close>

definition monitor_links :: "(string set, link) dict \<Rightarrow> (string \<times> json result) list \<Rightarrow> (link_usage list \<times> (string set, int) dict) result" where
  "monitor_links links results =
    (if links = [] then Inl (ValueError ''max_workers must be greater than 0'')
     else rbind (monitor_results links results ([], [])) (\<lambda>(m, tx). Inr (map snd m, tx)))"

section \<open>Packet captures\<close>

text \<open>The exceptions that the loops over satellites catch.\<close>

definition run_error :: "pyerr \<Rightarrow> bool" where
  "run_error e = (case e of RuntimeError _ \<Rightarrow> True | OtherError x \<Rightarrow> x = ''OSError'' \<or> x = ''FileNotFoundError'' | _ \<Rightarrow> False)"

definition in_container :: "'n sr_network_scheme \<Rightarrow> node \<Rightarrow> bool" where
  "in_container tp n = (nd_name n \<in> set (sn_containers tp))"

fun capture_interfaces :: "'w shell \<Rightarrow> string \<Rightarrow> string \<Rightarrow> iface list \<Rightarrow> 'w \<Rightarrow> unit result \<times> 'w" where
  "capture_interfaces sh dump_dir nm [] w = (Inr (), w)"
| "capture_interfaces sh dump_dir nm (i # is) w = (case get_iname i of
     Inl e \<Rightarrow> (Inl e, w)
   | Inr iname \<Rightarrow> (case sh nm (''tcpdump -i '' @ iname @ '' -s 96 -w '' @ dump_dir @ ''/'' @ nm @ ''_'' @ iname @ ''.pcap'') True w of
       (Inl e, w1) \<Rightarrow> (Inl e, w1)
     | (Inr _, w1) \<Rightarrow> capture_interfaces sh dump_dir nm is w1))"

fun capture_satellites :: "'w shell \<Rightarrow> string \<Rightarrow> node list \<Rightarrow> 'w \<Rightarrow> unit result \<times> 'w" where
  "capture_satellites sh dump_dir [] w = (Inr (), w)"
| "capture_satellites sh dump_dir (s # ss) w = (case capture_interfaces sh dump_dir (nd_name s) (nd_ifaces s) w of
     (Inl e, w1) \<Rightarrow> if run_error e then capture_satellites sh dump_dir ss w1 else (Inl e, snd (capture_satellites sh dump_dir ss w1))
   | (Inr _, w1) \<Rightarrow> capture_satellites sh dump_dir ss w1)"

definition launch_tcpdump_on_satellites :: "'w shell \<Rightarrow> 'n sr_network_scheme \<Rightarrow> string \<Rightarrow> node list \<Rightarrow> 'w \<Rightarrow> unit result \<times> 'w" where
  "launch_tcpdump_on_satellites sh tp dump_dir satellites w = capture_satellites sh dump_dir (filter (in_container tp) satellites) w"

fun any_tcpdump :: "'w shell \<Rightarrow> node list \<Rightarrow> 'w \<Rightarrow> bool result \<times> 'w" where
  "any_tcpdump sh [] w = (Inr False, w)"
| "any_tcpdump sh (s # ss) w = (case sh (nd_name s) ''pgrep tcpdump'' False w of
     (Inr _, w1) \<Rightarrow> (Inr True, w1)
   | (Inl e, w1) \<Rightarrow> if run_error e then any_tcpdump sh ss w1 else (Inl e, w1))"

definition is_running_tcpdump :: "'w shell \<Rightarrow> 'n sr_network_scheme \<Rightarrow> 'w \<Rightarrow> bool result \<times> 'w" where
  "is_running_tcpdump sh tp w = any_tcpdump sh (filter (in_container tp) (map snd (nt_sats tp))) w"

definition chosen_satellites :: "'n sr_network_scheme \<Rightarrow> node list \<Rightarrow> node list" where
  "chosen_satellites tp satellites = (if satellites = [] then map snd (nt_sats tp) else satellites)"

definition enable_tcpdump_on_satellites :: "'w shell \<Rightarrow> 'n sr_network_scheme \<Rightarrow> bool \<Rightarrow> string \<Rightarrow> node list \<Rightarrow> 'w \<Rightarrow> unit result \<times> 'w" where
  "enable_tcpdump_on_satellites sh tp gonetem_on dump_dir satellites w =
    (if \<not> gonetem_on then (Inr (), w)
     else case is_running_tcpdump sh tp w of
       (Inl e, w1) \<Rightarrow> (Inl e, w1)
     | (Inr True, w1) \<Rightarrow> (Inr (), w1)
     | (Inr False, w1) \<Rightarrow> launch_tcpdump_on_satellites sh tp dump_dir (chosen_satellites tp satellites) w1)"

fun kill_tcpdump :: "'w shell \<Rightarrow> node list \<Rightarrow> 'w \<Rightarrow> unit result \<times> 'w" where
  "kill_tcpdump sh [] w = (Inr (), w)"
| "kill_tcpdump sh (s # ss) w = (case sh (nd_name s) ''pkill tcpdump'' False w of
     (Inr _, w1) \<Rightarrow> kill_tcpdump sh ss w1
   | (Inl e, w1) \<Rightarrow> if run_error e then kill_tcpdump sh ss w1 else (Inl e, w1))"

definition disable_tcpdump_on_satellites :: "'w shell \<Rightarrow> 'n sr_network_scheme \<Rightarrow> bool \<Rightarrow> node list \<Rightarrow> 'w \<Rightarrow> unit result \<times> 'w" where
  "disable_tcpdump_on_satellites sh tp gonetem_on satellites w =
    (if \<not> gonetem_on then (Inr (), w) else kill_tcpdump sh (filter (in_container tp) (chosen_satellites tp satellites)) w)"

section \<open>Nodes by name\<close>

definition get_topology_summary :: "'n topology_scheme \<Rightarrow> nat \<times> nat \<times> nat" where
  "get_topology_summary tp = (length (nt_sats tp), length (nt_gss tp), length (tp_links tp))"

definition get_node_by_name :: "'n network_scheme \<Rightarrow> string \<Rightarrow> node option result" where
  "get_node_by_name tp name =
    (if startswith ''Sat'' name then rbind (parse_int (drop 3 name)) (\<lambda>i. Inr (dict_get (nt_sats tp) i))
     else if startswith ''Gnd'' name then rbind (parse_int (drop 3 name)) (\<lambda>i. Inr (dict_get (nt_gss tp) i))
     else Inr None)"

definition get_node_by_id :: "'n network_scheme \<Rightarrow> int \<Rightarrow> node option" where
  "get_node_by_id tp i = (case dict_get (nt_sats tp) i of Some n \<Rightarrow> Some n | None \<Rightarrow> dict_get (nt_gss tp) i)"

definition get_node_ip_addresses :: "'n network_scheme \<Rightarrow> string \<Rightarrow> string list result" where
  "get_node_ip_addresses tp name = rbind (get_node_by_name tp name) (\<lambda>n. Inr (case n of
     None \<Rightarrow> [] | Some n \<Rightarrow> filter (\<lambda>ip. ip \<noteq> []) (map if_ipv4 (nd_ifaces n))))"

definition get_node_ifaces :: "'n network_scheme \<Rightarrow> string \<Rightarrow> string list result" where
  "get_node_ifaces tp name = rbind (get_node_by_name tp name) (\<lambda>n. Inr (case n of
     None \<Rightarrow> [] | Some n \<Rightarrow> map if_name (filter (\<lambda>i. if_name i \<noteq> [] \<and> if_ipv4 i \<noteq> []) (nd_ifaces n))))"

text \<open>The identifier in a name given to \<open>execute_command_on\<close>: a bare prefix means zero.\<close>

definition named_id :: "string \<Rightarrow> int result" where
  "named_id node = (if length node > 3 then parse_int (drop 3 node) else Inr 0)"

definition in_quotes :: "string \<Rightarrow> string" where
  "in_quotes s = [single_quote] @ s @ [single_quote]"

text \<open>The two fields of the returned dictionary, output and error; \<open>message\<close> is \<open>str\<close> of an exception.\<close>

definition execute_command_on :: "'w shell \<Rightarrow> (pyerr \<Rightarrow> string) \<Rightarrow> 'n sr_network_scheme \<Rightarrow> string \<Rightarrow> string \<Rightarrow> 'w \<Rightarrow> (string \<times> string) result \<times> 'w" where
  "execute_command_on sh message tp node command w =
    (if \<not> startswith ''Sat'' node \<and> \<not> startswith ''Gnd'' node then (Inr ([], ''Invalid node name '' @ in_quotes node), w)
     else case named_id node of
       Inl e \<Rightarrow> (Inl e, w)
     | Inr i \<Rightarrow> (case dict_get (if startswith ''Sat'' node then nt_sats tp else nt_gss tp) i of
         None \<Rightarrow> (Inr ([], ''Node '' @ in_quotes node @ '' not found''), w)
       | Some n \<Rightarrow>
          if \<not> in_container tp n then (Inr ([], ''Node '' @ in_quotes node @ '' has no container''), w)
          else (case sh (nd_name n) command False w of
             (Inr output, w1) \<Rightarrow> (Inr (output, []), w1)
           | (Inl e, w1) \<Rightarrow> if run_error e then (Inr ([], message e), w1) else (Inl e, w1))))"

definition terminal_candidates :: "(string \<times> string list) list" where
  "terminal_candidates = [(''gnome-terminal'', [''--'']), (''xterm'', [''-e'']), (''konsole'', [''-e'']), (''alacritty'', [''-e'']), (''kitty'', [])]"

text \<open>The command that is started; \<open>installed\<close> says which emulators are found.\<close>

definition open_bash_terminal :: "(string \<Rightarrow> bool) \<Rightarrow> string \<Rightarrow> 'n network_scheme \<Rightarrow> string option \<Rightarrow> string option \<Rightarrow> string \<Rightarrow> string list result" where
  "open_bash_terminal installed python tp project_id server node =
    rbind (get_node_by_name tp node) (\<lambda>target. case target of
      None \<Rightarrow> Inl (ValueError ''Node not found in topology'')
    | Some _ \<Rightarrow> (case (project_id, server) of
        (Some prj, Some srv) \<Rightarrow>
          if prj = [] then Inl (RuntimeError ''Project ID is not set (is GoNetEm running?)'')
          else if srv = [] then Inl (RuntimeError ''GoNetEm server address is not set'')
          else (case List.find (\<lambda>(t, _). installed t) terminal_candidates of
              None \<Rightarrow> Inl (RuntimeError ''No supported terminal emulator found.'')
            | Some (t, extra) \<Rightarrow> Inr (t # extra @ [python, ''-m'', ''satgonetem.utils.node_terminal_bridge'', srv, prj, node]))
      | (None, _) \<Rightarrow> Inl (RuntimeError ''Project ID is not set (is GoNetEm running?)'')
      | (Some prj, None) \<Rightarrow> if prj = [] then Inl (RuntimeError ''Project ID is not set (is GoNetEm running?)'')
          else Inl (RuntimeError ''GoNetEm server address is not set'')))"

definition get_coverage_percentage :: "('n network_scheme \<Rightarrow> covering_sat list) \<Rightarrow> 'n network_scheme \<Rightarrow> real \<Rightarrow> real \<Rightarrow> real \<Rightarrow> real \<Rightarrow> real" where
  "get_coverage_percentage positions tp elev_min_deg grid_res_deg max_latitude_deg R_earth_km =
    coverage_percentage_fast (positions tp) elev_min_deg grid_res_deg max_latitude_deg R_earth_km"

end
