(* ===== verification/Diagnostic_Facts.thy ===== *)
theory Diagnostic_Facts
  imports Diagnostics
begin

text \<open>
  Facts about diagnostics: what the server receives of a terminal, the usage that is reported for a
  link, and when a command on a named node raises.
\<close>

section \<open>The stream of a terminal\<close>

fun call_msg :: "term_call \<Rightarrow> term_msg" where
  "call_msg (CallSend d) = TermData d"
| "call_msg (CallResize w h) = TermResize w h"
| "call_msg CallClose = TermClose"

text \<open>The messages of the calls up to the first that closes the terminal.\<close>

definition call_stream :: "term_call list \<Rightarrow> term_msg list" where
  "call_stream cs = map call_msg (takeWhile (\<lambda>c. c \<noteq> CallClose) cs) @ (if CallClose \<in> set cs then [TermClose] else [])"

lemma call_stream_snoc:
  "call_stream (cs @ [c]) = (if CallClose \<in> set cs then call_stream cs else call_stream cs @ [call_msg c])"
proof (cases "CallClose \<in> set cs")
  case False
  have tw: "takeWhile (\<lambda>c. c \<noteq> CallClose) cs = cs" using False by (auto simp: takeWhile_eq_all_conv)
  have "takeWhile (\<lambda>c. c \<noteq> CallClose) (cs @ [c]) = cs @ takeWhile (\<lambda>c. c \<noteq> CallClose) [c]"
    by (rule takeWhile_append2) (use False in auto)
  with False show ?thesis by (cases c) (auto simp: call_stream_def tw)
qed (auto simp: call_stream_def takeWhile_append1)

definition stream_inv :: "term_call list \<Rightarrow> terminal \<Rightarrow> bool" where
  "stream_inv cs t \<longleftrightarrow> te_closed t = (CallClose \<in> set cs) \<and> (te_ended t \<longrightarrow> te_closed t \<and> te_started t \<and> te_queue t = []) \<and>
     (\<exists>ms. te_queue t = map Some ms @ (if te_closed t \<and> \<not> te_ended t then [None] else []) \<and>
        (if te_started t then te_yielded t @ ms = TermCmd # call_stream cs else te_yielded t = [] \<and> ms = call_stream cs))"

lemma stream_inv_call:
  assumes "stream_inv cs t"
  shows "stream_inv (cs @ [c]) (do_call c t)"
proof (cases "te_closed t")
  case True
  with assms have "do_call c t = t" "call_stream (cs @ [c]) = call_stream cs" "CallClose \<in> set cs"
    by (auto simp: stream_inv_def do_call_def term_send_def term_resize_def term_put_def term_close_def call_stream_snoc split: term_call.splits)
  with assms show ?thesis by (auto simp: stream_inv_def)
next
  case False
  with assms obtain ms where ms: "te_queue t = map Some ms" "\<not> te_ended t" "CallClose \<notin> set cs"
    "if te_started t then te_yielded t @ ms = TermCmd # call_stream cs else te_yielded t = [] \<and> ms = call_stream cs"
    by (auto simp: stream_inv_def)
  have cs: "call_stream (cs @ [c]) = call_stream cs @ [call_msg c]" using ms(3) by (simp add: call_stream_snoc)
  have t: "te_queue (do_call c t) = map Some (ms @ [call_msg c]) @ (if c = CallClose then [None] else [])"
    "te_closed (do_call c t) = (c = CallClose)" "te_ended (do_call c t) = False" "te_started (do_call c t) = te_started t"
    "te_yielded (do_call c t) = te_yielded t"
    using False ms(1,2) by (cases c; simp add: do_call_def term_send_def term_resize_def term_put_def term_close_def)+
  show ?thesis unfolding stream_inv_def t cs
    using ms(3,4) by (intro conjI exI [of _ "ms @ [call_msg c]"]) auto
qed

lemma stream_inv_generator:
  assumes "stream_inv cs t" "generator_step t = Some t'"
  shows "stream_inv cs t'"
proof -
  from assms(1) obtain ms where ms: "te_queue t = map Some ms @ (if te_closed t \<and> \<not> te_ended t then [None] else [])"
    "if te_started t then te_yielded t @ ms = TermCmd # call_stream cs else te_yielded t = [] \<and> ms = call_stream cs"
    and c: "te_closed t = (CallClose \<in> set cs)"
    by (auto simp: stream_inv_def)
  from assms(2) have e: "\<not> te_ended t" by (auto simp: generator_step_def split: if_splits)
  show ?thesis
  proof (cases "te_started t")
    case False
    with assms(2) e have "t' = t\<lparr>te_started := True, te_yielded := [TermCmd]\<rparr>" by (simp add: generator_step_def)
    with False ms c e show ?thesis by (auto simp: stream_inv_def)
  next
    case True
    show ?thesis
    proof (cases ms)
      case Nil
      with True assms(2) e ms(1) have "te_closed t" "t' = t\<lparr>te_queue := [], te_ended := True\<rparr>"
        by (auto simp: generator_step_def split: if_splits)
      with True Nil ms c show ?thesis by (auto simp: stream_inv_def)
    next
      case (Cons m ms')
      with True assms(2) e ms(1) have "t' = t\<lparr>te_queue := map Some ms' @ (if te_closed t then [None] else []), te_yielded := te_yielded t @ [m]\<rparr>"
        by (auto simp: generator_step_def)
      with True Cons ms c e show ?thesis by (auto simp: stream_inv_def)
    qed
  qed
qed

lemma stream_inv_cong:
  assumes "te_queue t' = te_queue t" "te_closed t' = te_closed t" "te_ended t' = te_ended t" "te_started t' = te_started t"
    "te_yielded t' = te_yielded t"
  shows "stream_inv cs t' = stream_inv cs t"
  by (simp only: stream_inv_def assms)

lemma term_run_inv: "term_run cs t \<Longrightarrow> stream_inv cs t"
proof (induction rule: term_run.induct)
  case run_new
  then show ?case by (simp add: stream_inv_def new_terminal_def call_stream_def)
next
  case (run_call cs t c)
  then show ?case using stream_inv_call by blast
next
  case (run_generator cs t t')
  then show ?case using stream_inv_generator by blast
next
  case (run_receive cs t r)
  then show ?case using stream_inv_cong [of "recv_response r t" t cs] by (simp add: recv_response_def)
next
  case (run_read cs t)
  moreover have "te_queue (snd (term_read t)) = te_queue t" "te_closed (snd (term_read t)) = te_closed t"
    "te_ended (snd (term_read t)) = te_ended t" "te_started (snd (term_read t)) = te_started t" "te_yielded (snd (term_read t)) = te_yielded t"
    by (auto simp: term_read_def split: list.split option.split)
  ultimately show ?case using stream_inv_cong by blast
qed

text \<open>
  \<^bold>\<open>C37.\<close> What the server receives of a terminal is always a prefix of one stream: the command
  first, then the data and sizes of the calls in their order up to the call that closes the terminal,
  then one closing message, whatever is called afterwards. The stream ends only when it is complete.
\<close>

theorem terminal_stream:
  assumes "term_run cs t"
  shows "(\<exists>pending. te_started t \<longrightarrow> te_yielded t @ pending = TermCmd # call_stream cs) \<and> (\<not> te_started t \<longrightarrow> te_yielded t = [])
    \<and> (te_ended t \<longrightarrow> te_yielded t = TermCmd # call_stream cs \<and> last (te_yielded t) = TermClose)"
proof -
  from term_run_inv [OF assms] obtain ms where ms: "te_queue t = map Some ms @ (if te_closed t \<and> \<not> te_ended t then [None] else [])"
    "if te_started t then te_yielded t @ ms = TermCmd # call_stream cs else te_yielded t = [] \<and> ms = call_stream cs"
    and c: "te_closed t = (CallClose \<in> set cs)" and e: "te_ended t \<longrightarrow> te_closed t \<and> te_started t \<and> te_queue t = []"
    by (auto simp: stream_inv_def)
  have "te_yielded t = TermCmd # call_stream cs \<and> last (te_yielded t) = TermClose" if "te_ended t"
    using that ms c e by (auto simp: call_stream_def)
  with ms(2) show ?thesis by (metis (full_types))
qed

lemma terminal_stream_witness:
  "\<exists>t. term_run [CallSend ''ls'', CallClose, CallSend ''pwd''] t \<and> te_ended t \<and> te_yielded t = [TermCmd, TermData ''ls'', TermClose]"
proof -
  let ?cs = "[CallSend ''ls'', CallClose, CallSend ''pwd'']"
  let ?t0 = "\<lparr>te_queue = [Some (TermData ''ls''), Some TermClose, None], te_closed = True, te_started = False, te_ended = False,
      te_yielded = [], te_responses = []\<rparr>"
  have "term_run ([] @ [CallSend ''ls'']) (do_call (CallSend ''ls'') new_terminal)" by (intro run_call run_new)
  then have "term_run (([] @ [CallSend ''ls'']) @ [CallClose]) (do_call CallClose (do_call (CallSend ''ls'') new_terminal))" by (rule run_call)
  then have "term_run ((([] @ [CallSend ''ls'']) @ [CallClose]) @ [CallSend ''pwd''])
      (do_call (CallSend ''pwd'') (do_call CallClose (do_call (CallSend ''ls'') new_terminal)))" by (rule run_call)
  then have r: "term_run ?cs ?t0" by (simp add: do_call_def term_send_def term_put_def term_close_def new_terminal_def)
  define t1 where "t1 = ?t0\<lparr>te_started := True, te_yielded := [TermCmd]\<rparr>"
  have "term_run ?cs t1" by (rule run_generator [OF r]) (simp add: generator_step_def t1_def)
  then have "term_run ?cs (t1\<lparr>te_queue := [Some TermClose, None], te_yielded := [TermCmd, TermData ''ls'']\<rparr>)"
    by (rule run_generator) (simp add: generator_step_def t1_def)
  then have "term_run ?cs (t1\<lparr>te_queue := [None], te_yielded := [TermCmd, TermData ''ls'', TermClose]\<rparr>)"
    by (rule run_generator) (simp add: generator_step_def t1_def)
  then have t: "term_run ?cs (t1\<lparr>te_queue := [], te_ended := True, te_yielded := [TermCmd, TermData ''ls'', TermClose]\<rparr>)"
    by (rule run_generator) (simp add: generator_step_def t1_def)
  from terminal_stream [OF t] t show ?thesis by (intro exI) auto
qed

section \<open>Usage of links\<close>

text \<open>The usages that one satellite reports, with the keys of their links.\<close>

definition file_usages :: "(string set, link) dict \<Rightarrow> string \<Rightarrow> (string \<times> json) list \<Rightarrow> (string set \<times> int) list" where
  "file_usages links sat_name d = List.map_filter (\<lambda>(i, v). case monitored_link links sat_name i of
     None \<Rightarrow> None
   | Some (_, l) \<Rightarrow> (case (link_key l, usage_bps v) of (Inr k, Inr u) \<Rightarrow> Some (k, u) | _ \<Rightarrow> None)) d"

definition all_usages :: "(string set, link) dict \<Rightarrow> (string \<times> json result) list \<Rightarrow> (string set \<times> int) list" where
  "all_usages links results = concat (map (\<lambda>(sat_name, res). case res of Inr (JObj d) \<Rightarrow> file_usages links sat_name d | _ \<Rightarrow> []) results)"

definition reports :: "(string set, link_usage) dict \<Rightarrow> (string set \<times> int) list \<Rightarrow> bool" where
  "reports m us \<longleftrightarrow> dict_ok m \<and> (\<forall>k x. dict_get m k = Some x \<longrightarrow> (k, us_value x) \<in> set us \<and> (\<forall>u. (k, u) \<in> set us \<longrightarrow> u \<le> us_value x))
     \<and> (\<forall>k u. (k, u) \<in> set us \<longrightarrow> dict_get m k \<noteq> None)"

lemma reportsI:
  assumes "dict_ok m" "\<And>k x. dict_get m k = Some x \<Longrightarrow> (k, us_value x) \<in> set us"
    "\<And>k x u. \<lbrakk>dict_get m k = Some x; (k, u) \<in> set us\<rbrakk> \<Longrightarrow> u \<le> us_value x" "\<And>k u. (k, u) \<in> set us \<Longrightarrow> \<exists>x. dict_get m k = Some x"
  shows "reports m us"
  unfolding reports_def using assms by blast

lemma reportsD:
  assumes "reports m us"
  shows "dict_ok m" "dict_get m k = Some x \<Longrightarrow> (k, us_value x) \<in> set us"
    "\<lbrakk>dict_get m k = Some x; (k, u) \<in> set us\<rbrakk> \<Longrightarrow> u \<le> us_value x" "(k, u) \<in> set us \<Longrightarrow> \<exists>x. dict_get m k = Some x"
  using assms unfolding reports_def by blast+

lemma reports_set:
  assumes r: "reports m us" and "us_value x = u" "\<And>y. dict_get m k = Some y \<Longrightarrow> us_value y \<le> u"
  shows "reports (dict_set k x m) (us @ [(k, u)])"
proof -
  have le: "v \<le> u" if "(k, v) \<in> set us" for v
    using reportsD(3,4) [OF r] assms(3) that by (meson order_trans)
  show ?thesis
    by (rule reportsI)
      (use reportsD [OF r] le assms(2) in \<open>auto simp del: map_of_eq_Some_iff split: if_splits\<close>)
qed

lemma reports_keep:
  assumes r: "reports m us" and k: "dict_get m k = Some y" and "u \<le> us_value y"
  shows "reports m (us @ [(k, u)])"
  by (rule reportsI) (use reportsD [OF r] assms in \<open>auto simp del: map_of_eq_Some_iff\<close>)

lemma reports_record:
  assumes "reports m us"
  shows "reports (fst (record_usage place k l u (m, tx))) (us @ [(k, u)])"
proof (cases "dict_get m k")
  case None
  then show ?thesis using reports_set [OF assms, of _ u k] by (simp add: record_usage_def)
next
  case (Some y)
  then show ?thesis using reports_set [OF assms, of "y\<lparr>us_value := u\<rparr>" u k] reports_keep [OF assms Some, of u]
    by (simp add: record_usage_def)
qed

lemma reports_entry:
  assumes "reports (fst st) us"
  shows "reports (fst (monitor_entry links sat_name (i, v) st)) (us @ file_usages links sat_name [(i, v)])"
proof -
  obtain m tx where st: "st = (m, tx)" by fastforce
  show ?thesis
    using assms reports_record [of m us] unfolding st monitor_entry_def file_usages_def
    by (auto simp: List.map_filter_simps split: option.split sum.split prod.split)
qed

lemma file_usages_cons: "file_usages links s (e # d) = file_usages links s [e] @ file_usages links s d"
  by (cases e) (auto simp: file_usages_def List.map_filter_simps split: option.split)

lemma reports_file:
  "reports (fst st) us \<Longrightarrow> reports (fst (fold (monitor_entry links sat_name) d st)) (us @ file_usages links sat_name d)"
proof (induction d arbitrary: st us)
  case (Cons e d)
  obtain i v where e: "e = (i, v)" by fastforce
  from Cons.IH [OF reports_entry [OF Cons.prems, of links sat_name i v]] show ?case
    by (subst file_usages_cons) (simp add: e)
qed (simp add: file_usages_def List.map_filter_simps)

lemma reports_results:
  "\<lbrakk>monitor_results links rs st = Inr st'; reports (fst st) us\<rbrakk> \<Longrightarrow> reports (fst st') (us @ all_usages links rs)"
proof (induction rs arbitrary: st us)
  case (Cons r rs)
  obtain sat_name res where r: "r = (sat_name, res)" by fastforce
  from Cons.prems(1) obtain st1 where s: "monitor_result links r st = Inr st1" "monitor_results links rs st1 = Inr st'" by auto
  have "reports (fst st1) (us @ all_usages links [r])"
  proof (cases res)
    case (Inl e)
    with s(1) Cons.prems(2) show ?thesis
      by (auto simp: r monitor_result_def all_usages_def split: pyerr.splits if_splits)
  next
    case (Inr stats)
    with s(1) Cons.prems(2) reports_file [of st us links sat_name] show ?thesis
      by (cases stats) (auto simp: r monitor_result_def all_usages_def file_usages_def List.map_filter_simps split: if_splits)
  qed
  from Cons.IH [OF s(2) this] show ?case by (simp add: all_usages_def)
qed (simp add: all_usages_def)


definition demo_nref :: "int \<Rightarrow> string \<Rightarrow> nref" where
  "demo_nref i n = \<lparr>nr_name = n, nr_id = i, nr_type = ''Satellite''\<rparr>"

definition demo_link :: link where
  "demo_link = \<lparr>lk_source = demo_nref 1 ''Sat1'', lk_target = demo_nref 2 ''Sat2'', lk_distance = 0, lk_type = ''InterSatelliteLink'',
     lk_active = True, lk_direction = [], lk_use_budget = False, lk_default_cap = 0, lk_cap1 = 0, lk_cap2 = 0, lk_ifaces = [],
     lk_delay = 0, lk_to_update = False, lk_to_add = False, lk_to_remove = False, lk_to_delete = False\<rparr>"

definition demo_usages :: "(string \<times> json result) list" where
  "demo_usages = [(''Sat1'', Inr (JObj [(''prj.Sat2'', JInt 9)])), (''Sat2'', Inr (JObj [(''prj.Sat1'', JInt 5)]))]"


end
