(* ===== verification/Runtime.thy ===== *)
theory Runtime
  imports Manager Projects Topology_Facts
begin

text \<open>
  What nodes and the manager do while a simulation runs: interfaces made by entering the network
  namespace of a container (\<open>models/node.py\<close>), positions (\<open>models/satellite.py\<close>,
  \<open>models/ground_station.py\<close>), and of \<open>services/topology_satcom.py\<close>, \<open>simulation_loop.py\<close> and
  \<open>routing_mgr.py\<close> the detection of changes, the time, paths, antennas and the connectivity test.

  The kernel behind \<open>setns\<close> and \<open>pyroute2\<close> is the parameter \<open>ns_kernel\<close>: each operation says
  whether it succeeds and which state it leaves, and may depend on the namespace of the thread. Hashing
  is a parameter too, and the shortest path of a graph is an argument.
\<close>

section \<open>Namespaces\<close>

datatype netns = HostNs | PidNs int

text \<open>Index of an interface by its name, \<open>None\<close> when there is none.\<close>

record 'w ns_kernel =
  nk_open :: "int \<Rightarrow> 'w \<Rightarrow> bool"
  nk_setns :: "netns \<Rightarrow> 'w \<Rightarrow> bool"
  nk_add_dummy :: "netns \<Rightarrow> string \<Rightarrow> 'w \<Rightarrow> pyerr option \<times> 'w"
  nk_add_veth :: "netns \<Rightarrow> string \<Rightarrow> int \<Rightarrow> string \<Rightarrow> 'w \<Rightarrow> pyerr option \<times> 'w"
  nk_lookup :: "netns \<Rightarrow> string \<Rightarrow> 'w \<Rightarrow> int option"
  nk_up :: "netns \<Rightarrow> int \<Rightarrow> 'w \<Rightarrow> pyerr option \<times> 'w"

type_synonym 'w ns_state = "netns \<times> 'w"

type_synonym 'w ns_step = "'w ns_state \<Rightarrow> pyerr option \<times> 'w ns_state"

definition ns_then :: "'w ns_step \<Rightarrow> 'w ns_step \<Rightarrow> 'w ns_step" where
  "ns_then f g st = (case f st of (Some e, st1) \<Rightarrow> (Some e, st1) | (None, st1) \<Rightarrow> g st1)"

text \<open>Opening the namespace of a process and entering it.\<close>

definition enter_ns :: "'w ns_kernel \<Rightarrow> int \<Rightarrow> 'w ns_step" where
  "enter_ns k pid st = (case st of (ns, w) \<Rightarrow>
     if \<not> nk_open k pid w then (Some (OtherError ''FileNotFoundError''), st)
     else if \<not> nk_setns k (PidNs pid) w then (Some (OtherError ''OSError''), st) else (None, (PidNs pid, w)))"

definition bring_up :: "'w ns_kernel \<Rightarrow> string \<Rightarrow> 'w ns_step" where
  "bring_up k name st = (case st of (ns, w) \<Rightarrow> (case nk_lookup k ns name w of
     None \<Rightarrow> (Some (OtherError ''IndexError''), st)
   | Some i \<Rightarrow> (case nk_up k ns i w of (r, w1) \<Rightarrow> (r, (ns, w1)))))"

definition in_ns :: "(netns \<Rightarrow> 'w \<Rightarrow> pyerr option \<times> 'w) \<Rightarrow> 'w ns_step" where
  "in_ns f st = (case st of (ns, w) \<Rightarrow> (case f ns w of (r, w1) \<Rightarrow> (r, (ns, w1))))"

text \<open>The \<open>finally\<close> block returns to the saved namespace; whether that succeeded is not looked at.\<close>

definition leave_ns :: "'w ns_kernel \<Rightarrow> netns \<Rightarrow> 'w ns_state \<Rightarrow> 'w ns_state" where
  "leave_ns k saved st = (case st of (ns, w) \<Rightarrow> if nk_setns k saved w then (saved, w) else (ns, w))"

text \<open>A node: the process identifier it keeps, and the one of its container, if it has one that runs;
  zero counts as none.\<close>

record ns_node =
  nn_pid :: "int option"
  nn_container :: "int option"

definition node_pid :: "ns_node \<Rightarrow> int option" where
  "node_pid n = (case nn_pid n of Some p \<Rightarrow> Some p | None \<Rightarrow> (case nn_container n of Some p \<Rightarrow> if p = 0 then None else Some p | None \<Rightarrow> None))"

definition remember_pid :: "ns_node \<Rightarrow> ns_node" where
  "remember_pid n = n\<lparr>nn_pid := node_pid n\<rparr>"

text \<open>When the namespace of the first container cannot be opened, the flag that the \<open>finally\<close> block
  uses has no value yet: another exception takes the place of the first, and nothing is left.\<close>

definition in_saved_ns :: "'w ns_kernel \<Rightarrow> int \<Rightarrow> 'w ns_step \<Rightarrow> 'w ns_step" where
  "in_saved_ns k pid body st =
    (if \<not> nk_open k pid (snd st) then (Some (OtherError ''UnboundLocalError''), st)
     else case ns_then (enter_ns k pid) body st of (r, st1) \<Rightarrow> (r, leave_ns k (fst st) st1))"

definition create_dummy_interface :: "'w ns_kernel \<Rightarrow> ns_node \<Rightarrow> string \<Rightarrow> 'w ns_state \<Rightarrow> pyerr option \<times> 'w ns_state" where
  "create_dummy_interface k node name st = (case node_pid node of
     None \<Rightarrow> (Some (RuntimeError ''container PID is not available''), st)
   | Some pid \<Rightarrow> in_saved_ns k pid (ns_then (in_ns (\<lambda>ns. nk_add_dummy k ns name)) (bring_up k name)) st)"

definition connect_to :: "'w ns_kernel \<Rightarrow> ns_node \<Rightarrow> ns_node \<Rightarrow> string \<Rightarrow> string \<Rightarrow> 'w ns_state \<Rightarrow> pyerr option \<times> 'w ns_state" where
  "connect_to k node peer_node peer1_name peer2_name st = (case node_pid node of
     None \<Rightarrow> (Some (RuntimeError ''container PID is not available''), st)
   | Some src_pid \<Rightarrow> (case node_pid peer_node of
     None \<Rightarrow> (Some (RuntimeError ''container PID is not available''), st)
   | Some dst_pid \<Rightarrow> in_saved_ns k src_pid (ns_then (in_ns (\<lambda>ns. nk_add_veth k ns peer1_name dst_pid peer2_name))
        (ns_then (bring_up k peer1_name) (ns_then (enter_ns k dst_pid) (bring_up k peer2_name)))) st))"

section \<open>Positions\<close>

text \<open>The position of the simulation, \<open>None\<close> where a coordinate is missing; the altitude is in metres.
  \<open>satcom\<close> is the attribute \<open>satcom_object\<close>: only a satellite has it from the start.\<close>

definition synced_altitude :: "bool \<Rightarrow> real \<Rightarrow> real" where
  "synced_altitude satellite alt = (let a = alt / 1000 in if satellite \<and> a < 100 then a * 1000 else a)"

definition sync_position :: "bool \<Rightarrow> (real option \<times> real option \<times> real option) option option \<Rightarrow> (real \<times> real \<times> real) option \<Rightarrow> (real \<times> real \<times> real) option result" where
  "sync_position satellite satcom pos = (case satcom of
     None \<Rightarrow> if satellite then Inl (ValueError ''Satcom object is not set'') else Inl (OtherError ''AttributeError'')
   | Some None \<Rightarrow> Inl (ValueError ''Satcom object is not set'')
   | Some (Some (Some lat, Some lon, Some alt)) \<Rightarrow> Inr (Some (lat, lon, synced_altitude satellite alt))
   | Some (Some _) \<Rightarrow> Inr pos)"

section \<open>Detection of changes\<close>

record change_hashes =
  ch_satellites :: "int option"
  ch_ground_stations :: "int option"
  ch_links :: "int option"

text \<open>Hashing of nodes, of links and of frozen sets.\<close>

record hashing =
  hs_node :: "string \<times> real \<times> real \<times> real \<Rightarrow> int"
  hs_nodes :: "(int \<times> int) set \<Rightarrow> int"
  hs_links :: "(int set \<times> bool \<times> real \<times> int) set \<Rightarrow> int"

type_synonym positions = "string \<Rightarrow> (real \<times> real \<times> real) option"

definition hash_node :: "hashing \<Rightarrow> positions \<Rightarrow> string \<Rightarrow> int result" where
  "hash_node h pos nm = (case pos nm of None \<Rightarrow> Inl (KeyError ''latitude'') | Some (lat, lon, alt) \<Rightarrow> Inr (hs_node h (nm, lat, lon, alt)))"

definition nodes_hash :: "hashing \<Rightarrow> positions \<Rightarrow> node list \<Rightarrow> int result" where
  "nodes_hash h pos ns = rbind (rmap (\<lambda>n. rbind (hash_node h pos (nd_name n)) (\<lambda>x. Inr (nd_id n, x))) ns) (\<lambda>xs. Inr (hs_nodes h (set xs)))"

definition links_hash :: "hashing \<Rightarrow> positions \<Rightarrow> link list \<Rightarrow> int result" where
  "links_hash h pos ls = rbind (rmap (\<lambda>l. rbind (hash_node h pos (nr_name (lk_source l))) (\<lambda>s. rbind (hash_node h pos (nr_name (lk_target l)))
      (\<lambda>t. Inr ({s, t}, lk_active l, lk_distance l, lk_delay l)))) ls) (\<lambda>xs. Inr (hs_links h (set xs)))"

definition check_for_updates :: "hashing \<Rightarrow> positions \<Rightarrow> 'n topology_scheme \<Rightarrow> change_hashes \<Rightarrow> ((bool \<times> bool \<times> bool) \<times> change_hashes) result" where
  "check_for_updates h pos tp ch =
    rbind (nodes_hash h pos (map snd (nt_sats tp))) (\<lambda>s. rbind (nodes_hash h pos (map snd (nt_gss tp))) (\<lambda>g.
    rbind (links_hash h pos (map snd (tp_links tp))) (\<lambda>l.
      Inr ((ch_satellites ch \<noteq> Some s, ch_ground_stations ch \<noteq> Some g, ch_links ch \<noteq> Some l),
           \<lparr>ch_satellites = Some s, ch_ground_stations = Some g, ch_links = Some l\<rparr>))))"

section \<open>Time\<close>

text \<open>Times are seconds since some origin; an update time of zero raises.\<close>

definition time_steps :: "int \<Rightarrow> int \<Rightarrow> int result" where
  "time_steps seconds update_time = (if update_time = 0 then Inl (OtherError ''ZeroDivisionError'')
     else let x = of_int seconds / (of_int update_time :: rat) in Inr (if 0 \<le> x then \<lfloor>x\<rfloor> else \<lceil>x\<rceil>))"

definition get_project_duration_in_timesteps :: "int \<Rightarrow> int \<Rightarrow> int \<Rightarrow> int result" where
  "get_project_duration_in_timesteps start_time end_time update_time = time_steps (end_time - start_time) update_time"

text \<open>\<open>set_time\<close> moves the simulation, \<open>actions\<close> runs its registered updates and \<open>rebuild\<close> is the
  rebuilding of the routes; without a simulation nothing is done.\<close>

definition move_to_time :: "(int \<Rightarrow> 'm \<Rightarrow> 'm) \<Rightarrow> ('m \<Rightarrow> unit result \<times> 'm) \<Rightarrow> ('m \<Rightarrow> unit result \<times> 'm) \<Rightarrow> int \<Rightarrow> int \<Rightarrow> int \<Rightarrow>
    'm option \<times> int \<Rightarrow> unit result \<times> 'm option \<times> int" where
  "move_to_time set_time actions rebuild start_time update_time new_time st = (case st of
     (None, time_step) \<Rightarrow> (Inl (ValueError ''Simulation manager is not set''), st)
   | (Some m, time_step) \<Rightarrow> (case actions (set_time new_time m) of
       (Inl e, m1) \<Rightarrow> (Inl e, Some m1, time_step)
     | (Inr _, m1) \<Rightarrow> (case time_steps (new_time - start_time) update_time of
         Inl e \<Rightarrow> (Inl e, Some m1, time_step)
       | Inr step \<Rightarrow> (case rebuild m1 of (r, m2) \<Rightarrow> (r, Some m2, step)))))"

definition reset_simulation :: "(int \<Rightarrow> 'm \<Rightarrow> 'm) \<Rightarrow> ('m \<Rightarrow> unit result \<times> 'm) \<Rightarrow> int \<Rightarrow> 'm option \<times> int \<Rightarrow> unit result \<times> 'm option \<times> int" where
  "reset_simulation set_time actions start_date st = (case st of
     (None, time_step) \<Rightarrow> (Inl (ValueError ''Simulation manager is not set''), st)
   | (Some m, time_step) \<Rightarrow> (case actions (set_time start_date m) of (r, m1) \<Rightarrow> (r, Some m1, 0)))"

section \<open>Nodes and links of the manager\<close>

text \<open>\<open>path_ids\<close> is the shortest path of the current graph, \<open>None\<close> when there is none, or an
  exception, such as for a node that the graph does not have.\<close>

definition path_node :: "'n network_scheme \<Rightarrow> int \<Rightarrow> node option" where
  "path_node tp i = (case dict_get (nt_sats tp) i of Some n \<Rightarrow> Some n | None \<Rightarrow> List.find (\<lambda>n. nd_id n = i) (map snd (nt_gss tp)))"

definition get_path_between_nodes :: "'n network_scheme \<Rightarrow> bool \<Rightarrow> int list option result \<Rightarrow> node list result" where
  "get_path_between_nodes tp source_ok path_ids =
    (if \<not> source_ok then Inl (TypeError ''Source must be either a GroundStation or a Satellite'')
     else rbind path_ids (\<lambda>p. Inr (case p of None \<Rightarrow> [] | Some is \<Rightarrow> List.map_filter (path_node tp) is)))"

definition set_addressable_satellites :: "node list \<Rightarrow> (node \<Rightarrow> bool) \<Rightarrow> node list result" where
  "set_addressable_satellites satellites is_satellite =
    (if list_ex (\<lambda>s. \<not> is_satellite s) satellites then Inl (ValueError ''All items in satellites must be instances of Satellite'')
     else Inr (map (set_addressable True) satellites))"

text \<open>The pings of the connectivity test, with their delays: every node to every other one, where two
  nodes are the same when \<open>__eq__\<close> says so.\<close>

definition connectivity_flows :: "node list \<Rightarrow> (node \<times> node \<times> rat) list" where
  "connectivity_flows ns = concat (map (\<lambda>(i, a). map (\<lambda>b. (a, b, of_nat i * (1 / 100) * 10))
     (filter (\<lambda>b. \<not> node_eq a b) ns)) (zip [0..<length ns] ns))"

definition connectivity_nodes :: "'n network_scheme \<Rightarrow> node list" where
  "connectivity_nodes tp = map snd (nt_gss tp) @ filter nd_addressable (map snd (nt_sats tp))"

text \<open>The summary of the connectivity test: flows, errors and lost packets. The outcome of a flow is its
  result, an exception, or \<open>None\<close> when it kept no result.\<close>

definition connectivity_summary :: "ping_results option result list \<Rightarrow> nat \<times> nat \<times> int" where
  "connectivity_summary outcomes =
    (let results = List.map_filter (\<lambda>r. case r of Inl _ \<Rightarrow> None | Inr x \<Rightarrow> x) outcomes
     in (length outcomes, length (filter (\<lambda>r. \<not> is_ok r) outcomes),
         sum_list (map (\<lambda>r. int (pr_transmitted r) - int (pr_received r)) results)))"

definition get_routing_table :: "string result \<Rightarrow> string list result" where
  "get_routing_table output = (case output of
     Inr s \<Rightarrow> Inr (if s = [] then [] else split_on newline s)
   | Inl (RuntimeError _) \<Rightarrow> Inr []
   | Inl e \<Rightarrow> Inl e)"

text \<open>The commands of \<open>start_net_logger\<close>, one per interface.\<close>

definition net_logger_command :: "string \<Rightarrow> string \<Rightarrow> string \<Rightarrow> string" where
  "net_logger_command path nm iname =
    ''net_logger --interface '' @ iname @ '' --log '' @ path @ ''/'' @ nm @ ''_'' @ iname @ ''.log --interval 1''"

fun start_net_logger :: "'w shell \<Rightarrow> string \<Rightarrow> string \<Rightarrow> iface list \<Rightarrow> 'w \<Rightarrow> unit result \<times> 'w" where
  "start_net_logger sh path nm [] w = (Inr (), w)"
| "start_net_logger sh path nm (i # is) w = (case get_iname i of
     Inl e \<Rightarrow> (Inl e, w)
   | Inr iname \<Rightarrow> (case sh nm (net_logger_command path nm iname) True w of
       (Inl e, w1) \<Rightarrow> (Inl e, w1)
     | (Inr _, w1) \<Rightarrow> start_net_logger sh path nm is w1))"

section \<open>Facts\<close>

lemma leave_ns_restores: "(\<And>w. nk_setns k saved w) \<Longrightarrow> fst (leave_ns k saved st) = saved"
  by (simp add: leave_ns_def split: prod.split)

text \<open>Connecting two containers and making a dummy interface leave the thread in the namespace it was
  in, whichever of their steps fails, provided that the thread may return to it.\<close>

lemma namespace_restored:
  assumes "\<And>w. nk_setns k (fst st) w"
  shows "fst (snd (connect_to k node peer peer1_name peer2_name st)) = fst st"
    and "fst (snd (create_dummy_interface k node name st)) = fst st"
  using leave_ns_restores [OF assms]
  by (simp_all add: connect_to_def create_dummy_interface_def in_saved_ns_def split: option.split prod.split)

text \<open>Jumping to a multiple of the update time counts the same steps as taking them one by one.\<close>

lemma time_steps_multiple: "u \<noteq> 0 \<Longrightarrow> time_steps (n * u) u = Inr n"
  by (simp add: time_steps_def Let_def)

lemma move_counts_steps:
  assumes "u \<noteq> 0" "move_to_time set_time actions rebuild start u (start + n * u) st = (Inr (), m, step)"
  shows "step = n"
  using assms by (auto simp: move_to_time_def time_steps_multiple split: sum.splits prod.splits option.splits)

text \<open>Among \<open>n\<close> distinct nodes the connectivity test pings \<open>n\<close> times \<open>n - 1\<close> pairs.\<close>

lemma connectivity_pairs:
  assumes "\<And>a b. a \<in> set ns \<Longrightarrow> b \<in> set ns \<Longrightarrow> node_eq a b \<longleftrightarrow> a = b" "distinct ns"
  shows "length (connectivity_flows ns) = length ns * (length ns - 1)"
    and "(a, b) \<in> (\<lambda>(a, b, d). (a, b)) ` set (connectivity_flows ns) \<longleftrightarrow> a \<in> set ns \<and> b \<in> set ns \<and> a \<noteq> b"
proof -
  have "length (filter (\<lambda>b. \<not> node_eq a b) ns) = length ns - 1" if "a \<in> set ns" for a
  proof -
    have "filter (\<lambda>b. \<not> node_eq a b) ns = filter (\<lambda>b. b \<noteq> a) ns"
      using assms(1) that by (intro filter_cong) auto
    then have "length (filter (\<lambda>b. \<not> node_eq a b) ns) = card (set ns - {a})"
      using assms(2) by (simp add: distinct_length_filter Int_def set_diff_eq conj_commute)
    then show ?thesis using assms(2) that by (simp add: distinct_card)
  qed
  then have "sum_list (map (\<lambda>x. length (filter (\<lambda>b. \<not> node_eq (snd x) b) ns)) (zip [0..<length ns] ns))
      = sum_list (map (\<lambda>_. length ns - 1) (zip [0..<length ns] ns))"
    by (intro arg_cong [where f = sum_list] map_cong) (auto dest: set_zip_rightD)
  then show "length (connectivity_flows ns) = length ns * (length ns - 1)"
    by (simp add: connectivity_flows_def length_concat comp_def split_def sum_list_triv)
  have "a \<in> set ns \<longleftrightarrow> a \<in> snd ` set (zip [0..<length ns] ns)" for a
    by (simp add: set_map [symmetric] del: set_map)
  moreover have "(a, b) \<in> (\<lambda>(a, b, d). (a, b)) ` set (connectivity_flows ns)
      \<longleftrightarrow> a \<in> snd ` set (zip [0..<length ns] ns) \<and> b \<in> set ns \<and> \<not> node_eq a b"
    unfolding connectivity_flows_def by force
  ultimately show "(a, b) \<in> (\<lambda>(a, b, d). (a, b)) ` set (connectivity_flows ns) \<longleftrightarrow> a \<in> set ns \<and> b \<in> set ns \<and> a \<noteq> b"
    using assms(1) by metis
qed

text \<open>A path has the nodes of its identifiers, if the topology knows them all.\<close>

lemma path_nodes:
  assumes "\<forall>i \<in> set is. path_node tp i \<noteq> None" and "\<forall>(i, n) \<in> set (nt_sats tp). nd_id n = i"
  shows "\<exists>ns. get_path_between_nodes tp True (Inr (Some is)) = Inr ns \<and> map nd_id ns = is"
proof -
  have id: "nd_id n = i" if "path_node tp i = Some n" for i n
    using that assms(2) by (auto simp: path_node_def find_Some_iff split: option.splits dest!: map_of_SomeD)
  have "map nd_id (List.map_filter (path_node tp) is) = is"
    using assms(1) id by (induction "is") (auto simp: List.map_filter_simps)
  then show ?thesis by (simp add: get_path_between_nodes_def)
qed

section \<open>Detection of changes\<close>

text \<open>What the hashes are taken of.\<close>

definition placed_nodes :: "positions \<Rightarrow> node list \<Rightarrow> (int \<times> string \<times> real \<times> real \<times> real) set" where
  "placed_nodes pos ns = (\<lambda>n. (nd_id n, nd_name n, the (pos (nd_name n)))) ` set ns"

definition placed_links :: "positions \<Rightarrow> link list \<Rightarrow> ((string \<times> real \<times> real \<times> real) set \<times> bool \<times> real \<times> int) set" where
  "placed_links pos ls = (\<lambda>l. ((\<lambda>r. (nr_name r, the (pos (nr_name r)))) ` {lk_source l, lk_target l}, lk_active l, lk_distance l, lk_delay l)) ` set ls"

text \<open>The nodes that are hashed on their own or as the end of a link, and hashing without collisions
  among the values hashed at two moments.\<close>

definition hashed_nodes :: "positions \<Rightarrow> 'n topology_scheme \<Rightarrow> (string \<times> real \<times> real \<times> real) set" where
  "hashed_nodes pos tp = (\<lambda>nm. (nm, the (pos nm))) ` (nd_name ` (set (map snd (nt_sats tp)) \<union> set (map snd (nt_gss tp)))
     \<union> (\<Union>l \<in> set (map snd (tp_links tp)). {nr_name (lk_source l), nr_name (lk_target l)}))"

definition node_hashes :: "hashing \<Rightarrow> (int \<times> string \<times> real \<times> real \<times> real) set \<Rightarrow> (int \<times> int) set" where
  "node_hashes h = (`) (\<lambda>(i, p). (i, hs_node h p))"

definition link_hashes :: "hashing \<Rightarrow> ((string \<times> real \<times> real \<times> real) set \<times> bool \<times> real \<times> int) set \<Rightarrow> (int set \<times> bool \<times> real \<times> int) set" where
  "link_hashes h = (`) (\<lambda>(ps, y). (hs_node h ` ps, y))"

definition collision_free :: "hashing \<Rightarrow> positions \<Rightarrow> 'n topology_scheme \<Rightarrow> positions \<Rightarrow> 'm topology_scheme \<Rightarrow> bool" where
  "collision_free h pos tp pos' tp' \<longleftrightarrow> inj_on (hs_node h) (hashed_nodes pos tp \<union> hashed_nodes pos' tp')
     \<and> inj_on (hs_nodes h) {node_hashes h (placed_nodes pos (map snd (nt_sats tp))), node_hashes h (placed_nodes pos' (map snd (nt_sats tp')))}
     \<and> inj_on (hs_nodes h) {node_hashes h (placed_nodes pos (map snd (nt_gss tp))), node_hashes h (placed_nodes pos' (map snd (nt_gss tp')))}
     \<and> inj_on (hs_links h) {link_hashes h (placed_links pos (map snd (tp_links tp))), link_hashes h (placed_links pos' (map snd (tp_links tp')))}"

lemma rmap_InrD: "rmap f xs = Inr ys \<Longrightarrow> ys = map (\<lambda>x. projr (f x)) xs"
  by (induction xs arbitrary: ys) auto

lemma hash_node_Inr: "hash_node h pos nm = Inr x \<Longrightarrow> x = hs_node h (nm, the (pos nm))"
  by (auto simp: hash_node_def split: option.splits)

lemma rmap_all_Inr: "rmap f xs = Inr ys \<Longrightarrow> x \<in> set xs \<Longrightarrow> \<exists>y. f x = Inr y"
  by (induction xs arbitrary: ys) auto

lemma rmap_set: "rmap f xs = Inr ys \<Longrightarrow> (\<And>x y. x \<in> set xs \<Longrightarrow> f x = Inr y \<Longrightarrow> y = g x) \<Longrightarrow> set ys = g ` set xs"
  by (induction xs arbitrary: ys) auto

lemma nodes_hash_value:
  assumes "nodes_hash h pos ns = Inr x"
  shows "x = hs_nodes h (node_hashes h (placed_nodes pos ns))"
proof -
  from assms obtain ys where ys: "rmap (\<lambda>n. rbind (hash_node h pos (nd_name n)) (\<lambda>x. Inr (nd_id n, x))) ns = Inr ys" "x = hs_nodes h (set ys)"
    by (auto simp: nodes_hash_def)
  have "set ys = (\<lambda>n. (nd_id n, hs_node h (nd_name n, the (pos (nd_name n))))) ` set ns"
    by (rule rmap_set [OF ys(1)]) (auto dest: hash_node_Inr)
  then show ?thesis using ys(2) by (simp add: node_hashes_def placed_nodes_def image_image)
qed

lemma links_hash_value:
  assumes "links_hash h pos ls = Inr x"
  shows "x = hs_links h (link_hashes h (placed_links pos ls))"
proof -
  from assms obtain ys where ys: "rmap (\<lambda>l. rbind (hash_node h pos (nr_name (lk_source l))) (\<lambda>s. rbind (hash_node h pos (nr_name (lk_target l)))
      (\<lambda>t. Inr ({s, t}, lk_active l, lk_distance l, lk_delay l)))) ls = Inr ys" "x = hs_links h (set ys)"
    by (auto simp: links_hash_def)
  have "set ys = (\<lambda>l. (hs_node h ` (\<lambda>r. (nr_name r, the (pos (nr_name r)))) ` {lk_source l, lk_target l}, lk_active l, lk_distance l, lk_delay l)) ` set ls"
    by (rule rmap_set [OF ys(1)]) (auto dest: hash_node_Inr)
  then show ?thesis using ys(2) by (simp add: link_hashes_def placed_links_def image_image)
qed

lemma node_hashes_eq:
  assumes "inj_on (hs_node h) S" "snd ` A \<subseteq> S" "snd ` B \<subseteq> S"
  shows "node_hashes h A = node_hashes h B \<longleftrightarrow> A = B"
proof -
  have "inj_on (\<lambda>(i, p). (i, hs_node h p)) (UNIV \<times> S)"
    using assms(1) by (auto simp: inj_on_def)
  then show ?thesis
    unfolding node_hashes_def by (rule inj_on_image_eq_iff) (use assms(2,3) in auto)
qed

lemma Union_fst_subset: "\<Union> (fst ` A) \<subseteq> S \<Longrightarrow> A \<subseteq> Pow S \<times> UNIV"
  by fastforce

lemma link_hashes_eq:
  assumes "inj_on (hs_node h) S" "\<Union> (fst ` A) \<subseteq> S" "\<Union> (fst ` B) \<subseteq> S"
  shows "link_hashes h A = link_hashes h B \<longleftrightarrow> A = B"
proof -
  have "inj_on (\<lambda>(ps, y). (hs_node h ` ps, y)) (Pow S \<times> UNIV)"
    using inj_on_image_Pow [OF assms(1)] by (auto simp: inj_on_def)
  then show ?thesis
    unfolding link_hashes_def by (rule inj_on_image_eq_iff) (use assms(2,3) [THEN Union_fst_subset] in simp_all)
qed

lemma placed_hashed:
  "snd ` placed_nodes pos (map snd (nt_sats tp)) \<subseteq> hashed_nodes pos tp"
  "snd ` placed_nodes pos (map snd (nt_gss tp)) \<subseteq> hashed_nodes pos tp"
  "\<Union> (fst ` placed_links pos (map snd (tp_links tp))) \<subseteq> hashed_nodes pos tp"
  unfolding placed_nodes_def placed_links_def hashed_nodes_def by (auto simp del: set_map)

lemma exact_flag:
  assumes "b \<longleftrightarrow> f (g x) \<noteq> f (g y)"
  shows "b \<Longrightarrow> x \<noteq> y" and "inj_on f {g x, g y} \<Longrightarrow> (g x = g y \<longleftrightarrow> x = y) \<Longrightarrow> x \<noteq> y \<Longrightarrow> b"
  using assms by (auto simp: inj_on_def)

text \<open>What the flags of a check say of the check before it.\<close>

lemma check_flags:
  assumes "check_for_updates h pos tp ch = Inr (flags, ch1)"
    and "check_for_updates h pos' tp' ch1 = Inr ((sats, gss, links), ch2)"
  shows "sats \<longleftrightarrow> hs_nodes h (node_hashes h (placed_nodes pos (map snd (nt_sats tp)))) \<noteq> hs_nodes h (node_hashes h (placed_nodes pos' (map snd (nt_sats tp'))))"
    and "gss \<longleftrightarrow> hs_nodes h (node_hashes h (placed_nodes pos (map snd (nt_gss tp)))) \<noteq> hs_nodes h (node_hashes h (placed_nodes pos' (map snd (nt_gss tp'))))"
    and "links \<longleftrightarrow> hs_links h (link_hashes h (placed_links pos (map snd (tp_links tp)))) \<noteq> hs_links h (link_hashes h (placed_links pos' (map snd (tp_links tp'))))"
  using assms by (auto simp: check_for_updates_def dest!: nodes_hash_value links_hash_value)

text \<open>
  \<^bold>\<open>C36.\<close> A check for updates only reports what changed since the last one, and, where the
  hashes of the two moments do not collide, reports all of it: satellites or ground stations when
  one appeared, vanished or moved, links when one appeared, vanished, was switched, got another
  length or delay, or has an end that moved.
\<close>

theorem changes_detected:
  assumes "check_for_updates h pos tp ch = Inr (flags, ch1)"
    and "check_for_updates h pos' tp' ch1 = Inr ((sats, gss, links), ch2)"
  shows "(sats \<longrightarrow> placed_nodes pos (map snd (nt_sats tp)) \<noteq> placed_nodes pos' (map snd (nt_sats tp')))
    \<and> (gss \<longrightarrow> placed_nodes pos (map snd (nt_gss tp)) \<noteq> placed_nodes pos' (map snd (nt_gss tp')))
    \<and> (links \<longrightarrow> placed_links pos (map snd (tp_links tp)) \<noteq> placed_links pos' (map snd (tp_links tp')))
    \<and> (collision_free h pos tp pos' tp' \<longrightarrow>
        (placed_nodes pos (map snd (nt_sats tp)) \<noteq> placed_nodes pos' (map snd (nt_sats tp')) \<longrightarrow> sats)
      \<and> (placed_nodes pos (map snd (nt_gss tp)) \<noteq> placed_nodes pos' (map snd (nt_gss tp')) \<longrightarrow> gss)
      \<and> (placed_links pos (map snd (tp_links tp)) \<noteq> placed_links pos' (map snd (tp_links tp')) \<longrightarrow> links))"
proof -
  let ?S = "hashed_nodes pos tp \<union> hashed_nodes pos' tp'"
  have eqs:
    "node_hashes h (placed_nodes pos (map snd (nt_sats tp))) = node_hashes h (placed_nodes pos' (map snd (nt_sats tp')))
      \<longleftrightarrow> placed_nodes pos (map snd (nt_sats tp)) = placed_nodes pos' (map snd (nt_sats tp'))"
    "node_hashes h (placed_nodes pos (map snd (nt_gss tp))) = node_hashes h (placed_nodes pos' (map snd (nt_gss tp')))
      \<longleftrightarrow> placed_nodes pos (map snd (nt_gss tp)) = placed_nodes pos' (map snd (nt_gss tp'))"
    "link_hashes h (placed_links pos (map snd (tp_links tp))) = link_hashes h (placed_links pos' (map snd (tp_links tp')))
      \<longleftrightarrow> placed_links pos (map snd (tp_links tp)) = placed_links pos' (map snd (tp_links tp'))"
    if "inj_on (hs_node h) ?S"
    by (rule node_hashes_eq [OF that le_supI1 [OF placed_hashed(1)] le_supI2 [OF placed_hashed(1)]]
        node_hashes_eq [OF that le_supI1 [OF placed_hashed(2)] le_supI2 [OF placed_hashed(2)]]
        link_hashes_eq [OF that le_supI1 [OF placed_hashed(3)] le_supI2 [OF placed_hashed(3)]])+
  note flags = check_flags [OF assms]
  note sat = exact_flag [where f = "hs_nodes h" and g = "node_hashes h", OF flags(1)]
  note gs = exact_flag [where f = "hs_nodes h" and g = "node_hashes h", OF flags(2)]
  note link = exact_flag [where f = "hs_links h" and g = "link_hashes h", OF flags(3)]
  show ?thesis
    unfolding collision_free_def
    using sat(1) gs(1) link(1) sat(2) [OF _ eqs(1)] gs(2) [OF _ eqs(2)] link(2) [OF _ eqs(3)] by blast
qed

text \<open>A satellite that moves north, and a hash that tells the three satellites and the move apart.\<close>

definition demo_hashing :: hashing where
  "demo_hashing = \<lparr>hs_node = (\<lambda>(nm, lat, p). if lat \<noteq> 0 then 0 else if nm = ''Sat1'' then 1 else if nm = ''Sat2'' then 2 else 3),
     hs_nodes = (\<lambda>ns. if (1, 0) \<in> ns then 1 else 0), hs_links = (\<lambda>ls. if \<exists>l \<in> ls. 0 \<in> fst l then 1 else 0)\<rparr>"

definition demo_positions :: "real \<Rightarrow> positions" where
  "demo_positions lat nm = Some (if nm = ''Sat1'' then lat else 0, 0, 500)"

lemma demo_names: "nd_name (demo_sat 1) = ''Sat1''" "nd_name (demo_sat (Suc 0)) = ''Sat1''" "nd_name (demo_sat 2) = ''Sat2''" "nd_name (demo_sat 3) = ''Sat3''"
  "lk_source (demo_isl a b c) = node_ref (demo_sat a)" "lk_target (demo_isl a b c) = node_ref (demo_sat b)"
  "nr_name (node_ref n) = nd_name n" "nd_id (demo_sat a) = int a"
  by (simp_all add: demo_sat_def demo_dec node_name_def demo_isl_def new_link_def node_ref_def)

lemma demo_collision_free: "collision_free demo_hashing (demo_positions 0) demo_topology (demo_positions 1) demo_topology"
  by (auto simp: collision_free_def hashed_nodes_def placed_nodes_def placed_links_def node_hashes_def link_hashes_def
      demo_topology_def demo_hashing_def demo_positions_def demo_names inj_on_def)

lemma changes_detected_witness:
  "\<exists>flags ch1 gss links ch2. check_for_updates demo_hashing (demo_positions 0) demo_topology
      \<lparr>ch_satellites = None, ch_ground_stations = None, ch_links = None\<rparr> = Inr (flags, ch1)
    \<and> check_for_updates demo_hashing (demo_positions 1) demo_topology ch1 = Inr ((True, gss, links), ch2)"
proof -
  have some: "\<exists>flags ch'. check_for_updates demo_hashing (demo_positions lat) demo_topology ch = Inr (flags, ch')" for lat ch
    by (simp add: check_for_updates_def nodes_hash_def links_hash_def hash_node_def demo_positions_def demo_topology_def)
  obtain flags ch1 where 1: "check_for_updates demo_hashing (demo_positions 0) demo_topology
      \<lparr>ch_satellites = None, ch_ground_stations = None, ch_links = None\<rparr> = Inr (flags, ch1)" using some by blast
  obtain sats gss links ch2 where 2: "check_for_updates demo_hashing (demo_positions 1) demo_topology ch1 = Inr ((sats, gss, links), ch2)"
    using some by (metis prod_cases3)
  have "(1, ''Sat1'', 1, 0, 500) \<in> placed_nodes (demo_positions 1) (map snd (nt_sats demo_topology))"
    "(1, ''Sat1'', 1, 0, 500) \<notin> placed_nodes (demo_positions 0) (map snd (nt_sats demo_topology))"
    by (auto simp: placed_nodes_def demo_topology_def demo_positions_def demo_names)
  then have sats using changes_detected [OF 1 2] demo_collision_free by metis
  with 2 have "check_for_updates demo_hashing (demo_positions 1) demo_topology ch1 = Inr ((True, gss, links), ch2)" by simp
  with 1 show ?thesis by blast
qed

end
