(* ===== verification/Static_Delivery.thy ===== *)
theory Static_Delivery
  imports Static_Facts
begin

text \<open>
  What the static daemon is for: a packet that every node forwards by the table the daemon gave it
  arrives at its destination, along a shortest path of the graph.

  The path library is the argument \<open>g\<close> of the daemon; \<open>shortest_trees\<close> states what its documentation
  promises of \<open>get_shortest_paths\<close>: for every source a path of least cost to each vertex that can be
  reached, and the empty path to the others. Forwarding is what a kernel does with the routes: all
  have prefix length 15, so the route of a packet is the one for the network of its destination, and
  the next node is the one that has the address of the gateway.
\<close>

section \<open>Walks and their costs\<close>

type_synonym weights = "nat \<Rightarrow> nat \<Rightarrow> real option"

fun walk :: "weights \<Rightarrow> nat list \<Rightarrow> bool" where
  "walk w [] = False"
| "walk w [x] = True"
| "walk w (x # y # p) = (w x y \<noteq> None \<and> walk w (y # p))"

fun walk_cost :: "weights \<Rightarrow> nat list \<Rightarrow> real" where
  "walk_cost w (x # y # p) = the (w x y) + walk_cost w (y # p)"
| "walk_cost w p = 0"

lemma walk_snoc: "p \<noteq> [] \<Longrightarrow> walk w (p @ [x]) \<longleftrightarrow> walk w p \<and> w (last p) x \<noteq> None"
  by (induction w p rule: walk.induct) auto

lemma walk_cost_snoc: "p \<noteq> [] \<Longrightarrow> walk_cost w (p @ [x]) = walk_cost w p + the (w (last p) x)"
  by (induction w p rule: walk.induct) auto

definition shortest_walk :: "weights \<Rightarrow> nat list \<Rightarrow> bool" where
  "shortest_walk w p \<longleftrightarrow> walk w p \<and> (\<forall>q. walk w q \<and> hd q = hd p \<and> last q = last p \<longrightarrow> walk_cost w p \<le> walk_cost w q)"

definition shortest_trees :: "weights \<Rightarrow> nat \<Rightarrow> (nat \<Rightarrow> nat list list) \<Rightarrow> bool" where
  "shortest_trees w n t \<longleftrightarrow> (\<forall>x y c. w x y = Some c \<longrightarrow> 0 < c \<and> x < n \<and> y < n) \<and>
     (\<forall>d < n. length (t d) = n \<and> (\<forall>i < n. if t d ! i = [] then \<forall>q. walk w q \<and> hd q = d \<longrightarrow> last q \<noteq> i
        else shortest_walk w (t d ! i) \<and> hd (t d ! i) = d \<and> last (t d ! i) = i))"

lemma shortest_treesD:
  assumes "shortest_trees w n t" "d < n" "i < n"
  shows "t d ! i \<noteq> [] \<Longrightarrow> shortest_walk w (t d ! i) \<and> hd (t d ! i) = d \<and> last (t d ! i) = i"
    and "walk w q \<Longrightarrow> hd q = d \<Longrightarrow> last q = i \<Longrightarrow> t d ! i \<noteq> []"
    and "w x y \<noteq> None \<Longrightarrow> 0 < the (w x y) \<and> x < n \<and> y < n"
  using assms unfolding shortest_trees_def by (metis, metis, auto)

text \<open>The vertex before the last one of a path is nearer to the root, and its own path is shorter by
  the last edge.\<close>

lemma parent_nearer:
  assumes "shortest_trees w n t" "d < n" "i < n" "t d ! i \<noteq> []" "i \<noteq> d"
  obtains j where "2 \<le> length (t d ! i)" "t d ! i ! (length (t d ! i) - 2) = j" "j < n" "w j i \<noteq> None" "t d ! j \<noteq> []"
    and "walk_cost w (t d ! j) < walk_cost w (t d ! i)" "walk_cost w (t d ! i) = walk_cost w (t d ! j) + the (w j i)"
proof -
  let ?p = "t d ! i"
  have p: "shortest_walk w ?p" "hd ?p = d" "last ?p = i" using shortest_treesD(1) [OF assms(1-4)] by simp_all
  obtain q where q: "?p = q @ [i]" using assms(4) p(3) by (metis append_butlast_last_id)
  then have ne: "q \<noteq> []" using p(2) assms(5) by auto
  let ?j = "last q"
  have w: "walk w q" "w ?j i \<noteq> None" "walk_cost w ?p = walk_cost w q + the (w ?j i)" "hd q = d"
    using p ne by (auto simp: shortest_walk_def q walk_snoc walk_cost_snoc)
  have pos: "0 < the (w ?j i)" "?j < n" using shortest_treesD(3) [OF assms(1-3) w(2)] by simp_all
  then have tj: "t d ! ?j \<noteq> []" using shortest_treesD(2) [OF assms(1,2) _ w(1,4) refl] by simp
  then have s: "shortest_walk w (t d ! ?j)" "hd (t d ! ?j) = d" "last (t d ! ?j) = ?j"
    using shortest_treesD(1) [OF assms(1,2) pos(2) tj] by simp_all
  have "walk_cost w (t d ! ?j) \<le> walk_cost w q" using s w(1,4) by (auto simp: shortest_walk_def)
  moreover have "walk_cost w ?p \<le> walk_cost w (t d ! ?j @ [i])"
    using p s w(2) tj by (auto simp: shortest_walk_def walk_snoc)
  ultimately have c: "walk_cost w ?p = walk_cost w (t d ! ?j) + the (w ?j i)"
    using w(3) s(3) tj by (simp add: walk_cost_snoc)
  have "?p ! (length ?p - 2) = ?j" using q ne by (simp add: nth_append last_conv_nth)
  moreover have "2 \<le> length ?p" using q ne by (cases q) auto
  ultimately show thesis using that [of ?j] pos w(2) tj c by simp
qed

section \<open>Forwarding\<close>

abbreviation net_nodes :: "network \<Rightarrow> node list" where
  "net_nodes nt \<equiv> gs_nodes nt @ sat_nodes nt"

definition table_at :: "network \<Rightarrow> int \<Rightarrow> route list option" where
  "table_at nt k = map_of (map (\<lambda>n. (nd_id n, nd_curr n)) (net_nodes nt)) k"

definition route_lookup :: "route list \<Rightarrow> string \<Rightarrow> route option" where
  "route_lookup tbl ip = (case summarize_ipv4_address ip 15 of Inl _ \<Rightarrow> None
     | Inr net \<Rightarrow> List.find (\<lambda>r. re_destination r = net) tbl)"

definition owner :: "network \<Rightarrow> string \<Rightarrow> int option" where
  "owner nt ip = map_option fst (List.find (\<lambda>(k, is). ip \<in> if_ipv4 ` set is) (map (\<lambda>n. (nd_id n, nd_ifaces n)) (net_nodes nt)))"

definition forward :: "network \<Rightarrow> string \<Rightarrow> int \<Rightarrow> int option" where
  "forward nt ip k = (case table_at nt k of None \<Rightarrow> None
     | Some tbl \<Rightarrow> (case route_lookup tbl ip of None \<Rightarrow> None | Some r \<Rightarrow> owner nt (re_gateway r)))"

text \<open>The nodes that a packet visits with at most \<open>fuel\<close> hops.\<close>

fun travel :: "nat \<Rightarrow> (int \<Rightarrow> int option) \<Rightarrow> int \<Rightarrow> int \<Rightarrow> int list option" where
  "travel fuel hop d k = (if k = d then Some [k] else case fuel of 0 \<Rightarrow> None
     | Suc f \<Rightarrow> (case hop k of None \<Rightarrow> None | Some j \<Rightarrow> map_option ((#) k) (travel f hop d j)))"

declare travel.simps [simp del]

text \<open>The gateway that an interface map gives for a neighbour is an address of that neighbour.\<close>

definition gateways_ok :: "network \<Rightarrow> iface_map option \<Rightarrow> bool" where
  "gateways_ok nt m = (case m of None \<Rightarrow> True | Some d \<Rightarrow>
     list_all (\<lambda>(k, i). case if_peer i of None \<Rightarrow> True | Some (_, gw) \<Rightarrow> owner nt gw = Some k) d)"

definition wired :: "iface_maps \<Rightarrow> network \<Rightarrow> bool" where
  "wired ifs nt \<longleftrightarrow> list_all (\<lambda>n. gateways_ok nt (dict_get (fst ifs) (nd_id n))) (gs_nodes nt)
     \<and> list_all (\<lambda>n. gateways_ok nt (dict_get (snd ifs) (nd_id n))) (sat_nodes nt)"

section \<open>The routes of a table\<close>

lemma spec_route_gateway:
  assumes "spec_route c x h = Some r" "gateways_ok nt (sc_ifaces c)"
  shows "owner nt (re_gateway r) = Some h" "dict_get (sc_summarized c) (nd_id x) = Some (re_destination r)"
proof -
  from assms(1) obtain m i pn gw d where r: "sc_ifaces c = Some m" "dict_get m h = Some i" "if_peer i = Some (pn, gw)"
    "dict_get (sc_summarized c) (nd_id x) = Some d" "re_gateway r = gw" "re_destination r = d"
    by (auto simp: spec_route.simps route_from_validated_def split: option.splits)
  have "(h, i) \<in> set m" using r(2) by (rule map_of_SomeD)
  then show "owner nt (re_gateway r) = Some h" using assms(2) r by (auto simp: gateways_ok_def list_all_iff)
  show "dict_get (sc_summarized c) (nd_id x) = Some (re_destination r)" using r by simp
qed

text \<open>A table has the route of a destination exactly if the destination has a next hop.\<close>

lemma find_spec_table:
  assumes "spec_ok c (map (\<lambda>x. (x, h x)) dsts)" "gateways_ok nt (sc_ifaces c)" "d \<in> set dsts"
    and "distinct (map nd_id dsts)" "\<forall>x \<in> set dsts. dict_get (sc_summarized c) (nd_id x) = dict_get (sc_summarized c) (nd_id d) \<longrightarrow> nd_id x = nd_id d"
    and "dict_get (sc_summarized c) (nd_id d) = Some net" "h d = Some k"
  shows "\<exists>r. List.find (\<lambda>r. re_destination r = net) (map snd (spec_entries c (map (\<lambda>x. (x, h x)) dsts))) = Some r
    \<and> owner nt (re_gateway r) = Some k"
  using assms(1,3-5)
proof (induction dsts)
  case (Cons x xs)
  have inj: "y = d" if "y \<in> set (x # xs)" "nd_id y = nd_id d" for y
    using that Cons.prems(2,3) by (auto simp only: distinct_map elim: inj_onD)
  have same: "dict_get (sc_summarized c) (nd_id x) = Some net \<longleftrightarrow> x = d"
    using Cons.prems(4) inj [of x] assms(6) by auto
  show ?case
  proof (cases "h x")
    case None
    then have "x \<noteq> d" using assms(7) by auto
    then show ?thesis using Cons None by (auto simp: spec_entries_def spec_ok_def)
  next
    case (Some hx)
    then obtain r where r: "spec_route c x hx = Some r" using Cons.prems(1) by (auto simp: spec_ok_def)
    note g = spec_route_gateway [OF r assms(2)]
    show ?thesis
    proof (cases "x = d")
      case True
      then show ?thesis using r g Some assms(6,7) by (auto simp: spec_entries_def)
    next
      case False
      then have "re_destination r \<noteq> net" using g(2) same by simp
      then show ?thesis using Cons False Some r by (auto simp: spec_entries_def spec_ok_def)
    qed
  qed
qed simp

lemma zip_map_self: "zip xs (map f xs) = map (\<lambda>x. (x, f x)) xs"
  by (induction xs) auto

section \<open>Delivery\<close>

lemma map_of_filter_enumerate:
  assumes "i < length xs" "\<And>j k. \<lbrakk>j < length xs; k < length xs; f j = f k\<rbrakk> \<Longrightarrow> j = k"
  shows "map_of (dict_of (map (\<lambda>(j, x). (f j, v j x)) (filter (\<lambda>(j, x). P j x) (enumerate 0 xs)))) (f i)
    = (if P i (xs ! i) then Some (v i (xs ! i)) else None)"
proof -
  let ?l = "map (\<lambda>(j, x). (f j, v j x)) (filter (\<lambda>(j, x). P j x) (enumerate 0 xs))"
  have "distinct (map fst (filter (\<lambda>(j, x). P j x) (enumerate 0 xs)))" by (intro distinct_map_filter) simp
  moreover have "inj_on f (fst ` set (filter (\<lambda>(j, x). P j x) (enumerate 0 xs)))"
    using assms(2) by (auto simp: inj_on_def in_set_enumerate_eq)
  ultimately have d: "distinct (map fst ?l)"
    by (simp add: comp_def case_prod_beta distinct_map inj_on_def) (metis prod.collapse)
  have mem: "(f i, y) \<in> set ?l \<longleftrightarrow> P i (xs ! i) \<and> y = v i (xs ! i)" for y
    using assms by (auto simp: in_set_enumerate_eq image_iff)
  then show ?thesis using d unfolding dict_of_distinct [OF d] by (auto simp: map_of_eq_None_iff image_iff)
qed

lemma igraph_hop:
  assumes "distinct (fst g)" "d < length (fst g)" "i < length (fst g)" "length (snd g d) = length (fst g)"
    and "i \<noteq> d" "2 \<le> length (snd g d ! i)"
  shows "\<exists>h. igraph_next_hops g (fst g ! d) = Inr h
    \<and> dict_get h (fst g ! i) = Some (fst g ! (snd g d ! i ! (length (snd g d ! i) - 2)))"
proof -
  let ?names = "fst g"
  have z: "dict_of (zip ?names [0 ..< length ?names]) = zip ?names [0 ..< length ?names]"
    by (rule dict_of_distinct) (simp add: assms(1))
  have "dict_get (zip ?names [0 ..< length ?names]) (?names ! d) = Some d"
    using map_of_zip_nth [of ?names "[0 ..< length ?names]" d] assms(1,2) by simp
  moreover have "dict_get (dict_of (map (\<lambda>(j, path). (?names ! j, ?names ! (path ! (length path - 2))))
      (filter (\<lambda>(j, path). j \<noteq> d \<and> 2 \<le> length path) (enumerate 0 (snd g d))))) (?names ! i)
    = Some (?names ! (snd g d ! i ! (length (snd g d ! i) - 2)))"
    using map_of_filter_enumerate [of i "snd g d" "(!) ?names" "\<lambda>j path. ?names ! (path ! (length path - 2))"
        "\<lambda>j path. j \<noteq> d \<and> 2 \<le> length path"] assms
    by (simp add: nth_eq_iff_index_eq)
  ultimately show ?thesis by (simp add: igraph_next_hops_def z Let_def)
qed

lemma paired: "map f xs' = map f xs \<Longrightarrow> map g xs' = map h xs \<Longrightarrow> x \<in> set xs \<Longrightarrow> (f x, h x) \<in> set (map (\<lambda>n. (f n, g n)) xs')"
proof (induction xs arbitrary: xs')
  case (Cons y ys)
  then show ?case by (cases xs') auto
qed simp

lemma map_map_fst_ids: "map (\<lambda>n. (nd_id n, f n)) xs = map (\<lambda>n. (nd_id n, f n)) ys \<Longrightarrow> map nd_id xs = map nd_id ys"
  by (drule arg_cong [where f = "map fst"]) (simp add: comp_def)

lemma find_member: "List.find P xs = Some x \<Longrightarrow> x \<in> set xs"
  by (induction xs) (auto split: if_splits)

lemma owner_node: "owner nt gw = Some k \<Longrightarrow> k \<in> nd_id ` set (net_nodes nt)"
  unfolding owner_def by (auto simp del: map_append set_append dest!: find_member)

text \<open>What a populated network does with a packet at one node.\<close>

lemma forward_step:
  assumes "populate_dijkstra_igraph g ifs sd nt = Inr (sd', nt')" and "summarize_loopbacks (net_nodes nt) = Inr su"
    and ids: "distinct (map nd_id (net_nodes nt))"
    and "list_all (\<lambda>n. cache_valid (source_context (fst ifs) su n) (dst_array nt) sd (nd_id n)) (gs_nodes nt)"
    and "list_all (\<lambda>n. cache_valid (source_context (snd ifs) su n) (dst_array nt) sd (nd_id n)) (sat_nodes nt)"
    and "wired ifs nt" "dst \<in> set (dst_array nt)"
    and inj: "\<forall>x \<in> set (dst_array nt). dict_get su (nd_id x) = dict_get su (nd_id dst) \<longrightarrow> nd_id x = nd_id dst"
    and net: "dict_get su (nd_id dst) = Some net" "summarize_ipv4_address ip 15 = Inr net"
    and src: "src \<in> set (net_nodes nt)" "next_hop_of g dst src = Some k"
  shows "forward nt' ip (nd_id src) = Some k \<and> k \<in> nd_id ` set (net_nodes nt)"
proof -
  note P = populate_spec [OF assms(1-5)]
  have len: "length (gs_nodes nt') = length (gs_nodes nt)" using arg_cong [OF P [THEN conjunct1], of length] by simp
  have same: "map (\<lambda>n. (nd_id n, nd_ifaces n)) (net_nodes nt') = map (\<lambda>n. (nd_id n, nd_ifaces n)) (net_nodes nt)" using P by blast
  then have all: "map nd_id (net_nodes nt') = map nd_id (net_nodes nt)"
    by (rule map_map_fst_ids)
  then have g: "map nd_id (gs_nodes nt') = map nd_id (gs_nodes nt)" "map nd_id (sat_nodes nt') = map nd_id (sat_nodes nt)"
    using len by simp_all
  have pos: "dict_get (sc_summarized (source_context maps su src)) k = dict_get su k" for maps k
    by (simp add: source_context_def)
  obtain maps where c: "gateways_ok nt (sc_ifaces (source_context maps su src))"
    and ok: "spec_ok (source_context maps su src) (zip (dst_array nt) (hop_vector g nt src))"
    and tab: "(nd_id src, spec_table (source_context maps su src) (dst_array nt) (hop_vector g nt src))
      \<in> set (map (\<lambda>n. (nd_id n, nd_curr n)) (net_nodes nt'))"
  proof (cases "src \<in> set (gs_nodes nt)")
    case True
    show thesis
      by (rule that [of "fst ifs"])
        (use True P assms(6) paired [OF g(1) P [THEN conjunct1] True] in \<open>auto simp: wired_def list_all_iff source_context_def\<close>)
  next
    case False
    then have True: "src \<in> set (sat_nodes nt)" using src(1) by simp
    show thesis
      by (rule that [of "snd ifs"])
        (use True P assms(6) paired [OF g(2) P [THEN conjunct2, THEN conjunct1] True] in \<open>auto simp: wired_def list_all_iff source_context_def\<close>)
  qed
  let ?c = "source_context maps su src"
  have inj': "\<forall>x \<in> set (dst_array nt). dict_get su (nd_id x) = Some net \<longrightarrow> nd_id x = nd_id dst" using inj net(1) by simp
  have "table_at nt' (nd_id src) = Some (spec_table ?c (dst_array nt) (hop_vector g nt src))"
    unfolding table_at_def by (rule map_of_is_SomeI [OF _ tab]) (simp only: map_map o_def fst_conv all ids)
  moreover have "\<exists>r. route_lookup (spec_table ?c (dst_array nt) (hop_vector g nt src)) ip = Some r \<and> owner nt (re_gateway r) = Some k"
    unfolding route_lookup_def net sum.case spec_table_def hop_vector_def zip_map_self
    by (rule find_spec_table [OF ok [unfolded hop_vector_def zip_map_self] c assms(7) dst_array_distinct [OF ids] _ _ src(2)])
      ((simp_all only: pos net(1))?, rule inj')
  moreover have "owner nt' = owner nt" using same by (simp add: owner_def fun_eq_iff)
  ultimately show ?thesis by (auto simp: forward_def simp del: set_append intro: owner_node)
qed

lemma walk_cost_nonneg: "walk w p \<Longrightarrow> (\<And>x y c. w x y = Some c \<Longrightarrow> 0 < c) \<Longrightarrow> 0 \<le> walk_cost w p"
  by (induction w p rule: walk.induct) (fastforce intro: add_nonneg_nonneg less_imp_le)+

lemma tree_root:
  assumes "shortest_trees w n t" "d < n"
  shows "t d ! d \<noteq> []" "shortest_walk w [d]"
proof -
  show "t d ! d \<noteq> []" using shortest_treesD(2) [OF assms assms(2), of "[d]"] by simp
  have "0 \<le> walk_cost w q" if "walk w q" for q
    by (rule walk_cost_nonneg [OF that]) (use assms(1) in \<open>simp add: shortest_trees_def\<close>)
  then show "shortest_walk w [d]" by (simp add: shortest_walk_def)
qed

abbreviation nearer :: "weights \<Rightarrow> nat list list \<Rightarrow> nat \<Rightarrow> nat \<Rightarrow> bool" where
  "nearer w tree i k \<equiv> tree ! k \<noteq> [] \<and> walk_cost w (tree ! k) < walk_cost w (tree ! i)"

lemma finite_nearer: "finite {k \<in> {..<n}. nearer w tree i k}"
  by (rule finite_subset [OF _ finite_lessThan [of n]]) auto

text \<open>Following the parents of a shortest-path tree ends at its root, within as many hops as there are
  vertices nearer to it, and the way is a shortest walk, read backwards.\<close>

lemma travel_tree:
  assumes T: "shortest_trees w n t" "d < n" and names: "distinct names" "length names = n"
    and hop: "\<And>i j. \<lbrakk>i < n; i \<noteq> d; 2 \<le> length (t d ! i); j = t d ! i ! (length (t d ! i) - 2); ok i\<rbrakk> \<Longrightarrow>
      hop (names ! i) = Some (names ! j) \<and> ok j"
    and "i < n" "t d ! i \<noteq> []" "ok i" "card {k \<in> {..<n}. nearer w (t d) i k} \<le> fuel"
  shows "\<exists>p. travel fuel hop (names ! d) (names ! i) = Some (map ((!) names) (rev p)) \<and> p \<noteq> [] \<and> hd p = d \<and> last p = i
    \<and> shortest_walk w p \<and> distinct p \<and> (\<forall>k \<in> set p. k < n \<and> (k = i \<or> nearer w (t d) i k))"
  using assms(6-)
proof (induction fuel arbitrary: i)
  case 0
  have "i = d"
  proof (rule ccontr)
    assume "i \<noteq> d"
    then obtain j where "j < n" "nearer w (t d) i j" using parent_nearer [OF T 0(1,2)] by metis
    then show False using 0(4) by (auto simp: card_eq_0_iff)
  qed
  then show ?case using tree_root [OF T] T(2) by (intro exI [of _ "[d]"]) (simp add: travel.simps)
next
  case (Suc fuel)
  show ?case
  proof (cases "i = d")
    case True
    then show ?thesis using tree_root [OF T] T(2) by (intro exI [of _ "[d]"]) (simp add: travel.simps)
  next
    case False
    from parent_nearer [OF T Suc.prems(1,2) False] obtain j where j: "2 \<le> length (t d ! i)" "t d ! i ! (length (t d ! i) - 2) = j"
      "j < n" "w j i \<noteq> None" "nearer w (t d) i j" "walk_cost w (t d ! i) = walk_cost w (t d ! j) + the (w j i)" by metis
    have hj: "hop (names ! i) = Some (names ! j)" "ok j" using hop [OF Suc.prems(1) False j(1) j(2) [symmetric] Suc.prems(3)] by simp_all
    have "{k \<in> {..<n}. nearer w (t d) j k} \<subset> {k \<in> {..<n}. nearer w (t d) i k}" using j(3,5) by auto
    from psubset_card_mono [OF finite_nearer this] have "card {k \<in> {..<n}. nearer w (t d) j k} \<le> fuel"
      using Suc.prems(4) by linarith
    from Suc.IH [OF j(3) _ hj(2) this] j(5) obtain p where p: "travel fuel hop (names ! d) (names ! j) = Some (map ((!) names) (rev p))"
      "p \<noteq> []" "hd p = d" "last p = j" "shortest_walk w p" "distinct p" "\<forall>k \<in> set p. k < n \<and> (k = j \<or> nearer w (t d) j k)" by auto
    have tr: "shortest_walk w (t d ! i)" "hd (t d ! i) = d" "last (t d ! i) = i"
      "shortest_walk w (t d ! j)" "hd (t d ! j) = d" "last (t d ! j) = j"
      using shortest_treesD(1) [OF T Suc.prems(1,2)] shortest_treesD(1) [OF T j(3)] j(5) by simp_all
    have "walk_cost w p \<le> walk_cost w (t d ! j)" using p(3-5) tr(4-6) by (simp add: shortest_walk_def)
    then have "walk_cost w (p @ [i]) \<le> walk_cost w (t d ! i)" using p(2,4) j(6) by (simp add: walk_cost_snoc)
    then have "shortest_walk w (p @ [i])"
      using tr(1-3) p(2-5) j(4) by (auto simp: shortest_walk_def walk_snoc intro: order_trans)
    moreover have near: "\<forall>k \<in> set p. k < n \<and> nearer w (t d) i k" using p(7) j(5) by auto
    then have "i \<notin> set p" by blast
    moreover have "names ! i \<noteq> names ! d" using False names Suc.prems(1) T(2) by (simp add: nth_eq_iff_index_eq)
    then have "travel (Suc fuel) hop (names ! d) (names ! i) = Some (map ((!) names) (rev (p @ [i])))"
      using hj(1) p(1) by (simp add: travel.simps [of "Suc fuel"])
    ultimately show ?thesis using p(2,3,6) near Suc.prems(1) by (intro exI [of _ "p @ [i]"]) simp
  qed
qed

lemma tables_deliver:
  assumes "populate_dijkstra_igraph g ifs sd nt = Inr (sd', nt')" and "summarize_loopbacks (net_nodes nt) = Inr su"
    and "distinct (map nd_id (net_nodes nt))"
    and "list_all (\<lambda>n. cache_valid (source_context (fst ifs) su n) (dst_array nt) sd (nd_id n)) (gs_nodes nt)"
    and "list_all (\<lambda>n. cache_valid (source_context (snd ifs) su n) (dst_array nt) sd (nd_id n)) (sat_nodes nt)"
    and "shortest_trees w (length (fst g)) (snd g)" and "distinct (fst g)" and "wired ifs nt"
    and "dst \<in> set (dst_array nt)" and "\<forall>x \<in> set (dst_array nt). dict_get su (nd_id x) = dict_get su (nd_id dst) \<longrightarrow> nd_id x = nd_id dst"
    and "dict_get su (nd_id dst) = Some net" and "summarize_ipv4_address ip 15 = Inr net"
    and "src \<in> set (net_nodes nt)" and "i < length (fst g)" "fst g ! i = nd_id src" and "d < length (fst g)" "fst g ! d = nd_id dst"
    and "snd g d ! i \<noteq> []"
  shows "\<exists>p. travel (length (fst g)) (forward nt' ip) (nd_id dst) (nd_id src) = Some (map ((!) (fst g)) (rev p))
    \<and> hd p = d \<and> last p = i \<and> shortest_walk w p \<and> distinct (map ((!) (fst g)) (rev p))"
proof -
  let ?n = "length (fst g)" and ?ok = "\<lambda>j. fst g ! j \<in> nd_id ` set (net_nodes nt)"
  have step: "forward nt' ip (fst g ! j) = Some (fst g ! k) \<and> ?ok k"
    if "j < ?n" "j \<noteq> d" "2 \<le> length (snd g d ! j)" "k = snd g d ! j ! (length (snd g d ! j) - 2)" "?ok j" for j k
  proof -
    have "length (snd g d) = ?n" using assms(6,16) by (simp add: shortest_trees_def)
    from igraph_hop [OF assms(7,16) that(1) this that(2,3)] that(4)
    have hop: "(case igraph_next_hops g (nd_id dst) of Inr h \<Rightarrow> dict_get h (fst g ! j) | Inl _ \<Rightarrow> None) = Some (fst g ! k)"
      by (auto simp: assms(17))
    from that(5) obtain n where n: "n \<in> set (net_nodes nt)" "fst g ! j = nd_id n" by blast
    then have "next_hop_of g dst n = Some (fst g ! k)" using hop by (simp only: next_hop_of_def)
    then show ?thesis unfolding n(2)
      by (rule forward_step [OF assms(1-5,8-12) n(1)])
  qed
  have "card {k \<in> {..<?n}. nearer w (snd g d) i k} \<le> ?n"
    using card_mono [of "{..<?n}" "{k \<in> {..<?n}. nearer w (snd g d) i k}"] by auto
  from travel_tree [where t = "snd g" and ok = ?ok and hop = "forward nt' ip", OF assms(6,16,7) refl step assms(14,18) _ this] assms(13,15,17)
  obtain p where p: "travel ?n (forward nt' ip) (nd_id dst) (nd_id src) = Some (map ((!) (fst g)) (rev p))" "hd p = d" "last p = i"
    "shortest_walk w p" "distinct p" "\<forall>k \<in> set p. k < ?n" by fastforce
  have "distinct (map ((!) (fst g)) (rev p))"
    using p(5,6) assms(7) by (auto simp: distinct_map inj_on_def nth_eq_iff_index_eq)
  then show ?thesis using p by blast
qed

text \<open>
  Packets arrive, by shortest paths. After populating, with empty or valid caches, a
  packet for a ground station or an addressable satellite that every node forwards by its own table
  reaches that node from every node the graph connects to it, without visiting a node twice and along
  a walk of least cost, provided that the path library gives shortest paths, that the recorded
  gateways belong to the neighbours they are recorded for, and that destinations differ in their
  network addresses.
\<close>

theorem static_delivery:
  assumes "populate_dijkstra_igraph g ifs sd nt = Inr (sd', nt')" and "summarize_loopbacks (net_nodes nt) = Inr su"
    and "distinct (map nd_id (net_nodes nt))"
    and "list_all (\<lambda>n. cache_valid (source_context (fst ifs) su n) (dst_array nt) sd (nd_id n)) (gs_nodes nt)"
    and "list_all (\<lambda>n. cache_valid (source_context (snd ifs) su n) (dst_array nt) sd (nd_id n)) (sat_nodes nt)"
    and "shortest_trees w (length (fst g)) (snd g)" and "distinct (fst g)" and "wired ifs nt"
    and "dst \<in> set (dst_array nt)" and "\<forall>x \<in> set (dst_array nt). dict_get su (nd_id x) = dict_get su (nd_id dst) \<longrightarrow> nd_id x = nd_id dst"
    and "dict_get su (nd_id dst) = Some net" and "summarize_ipv4_address ip 15 = Inr net"
    and "src \<in> set (net_nodes nt)" and "i < length (fst g)" "fst g ! i = nd_id src" and "d < length (fst g)" "fst g ! d = nd_id dst"
    and "snd g d ! i \<noteq> []"
  shows "\<exists>p. travel (length (fst g)) (forward nt' ip) (nd_id dst) (nd_id src) = Some (map ((!) (fst g)) (rev p))
    \<and> hd p = d \<and> last p = i \<and> shortest_walk w p \<and> distinct (map ((!) (fst g)) (rev p))"
  by (rule tables_deliver [OF assms])

text \<open>A satellite between two ground stations.\<close>

definition line_weights :: weights where
  "line_weights x y = (if x < 3 \<and> y < 3 \<and> (x = Suc y \<or> y = Suc x) then Some 1 else None)"

definition line_tree :: "nat \<Rightarrow> nat list list" where
  "line_tree d = [[[0], [0, 1], [0, 1, 2]], [[1, 0], [1], [1, 2]], [[2, 1, 0], [2, 1], [2]]] ! d"

lemma line_cost: "walk line_weights q \<Longrightarrow> \<bar>real (hd q) - real (last q)\<bar> \<le> walk_cost line_weights q"
proof (induction "line_weights" q rule: walk.induct)
  case (3 x y p)
  then have "\<bar>real y - real (last (y # p))\<bar> \<le> walk_cost line_weights (y # p)" by simp
  moreover have "line_weights x y = Some 1" "\<bar>real x - real y\<bar> = 1" using 3(2) by (auto simp: line_weights_def split: if_splits)
  ultimately show ?case by simp
qed simp_all

lemma line_trees: "shortest_trees line_weights 3 line_tree"
proof -
  have "shortest_walk line_weights (line_tree d ! i) \<and> hd (line_tree d ! i) = d \<and> last (line_tree d ! i) = i \<and> line_tree d ! i \<noteq> []"
    if "d < 3" "i < 3" for d i
  proof -
    have "d \<in> {0, 1, 2}" "i \<in> {0, 1, 2}" using that by auto
    then have w: "walk line_weights (line_tree d ! i)" "walk_cost line_weights (line_tree d ! i) = \<bar>real d - real i\<bar>"
      "hd (line_tree d ! i) = d" "last (line_tree d ! i) = i" "line_tree d ! i \<noteq> []"
      by (elim insertE emptyE; simp add: line_tree_def line_weights_def)+
    have "walk_cost line_weights (line_tree d ! i) \<le> walk_cost line_weights q"
      if "walk line_weights q" "hd q = hd (line_tree d ! i)" "last q = last (line_tree d ! i)" for q
      using line_cost [OF that(1)] that(2,3) w(2-4) by simp
    then show ?thesis using w by (simp add: shortest_walk_def)
  qed
  moreover have "length (line_tree d) = 3" if "d < 3" for d
  proof -
    have "d \<in> {0, 1, 2}" using that by auto
    then show ?thesis by (elim insertE emptyE; simp add: line_tree_def)
  qed
  moreover have "\<forall>x y c. line_weights x y = Some c \<longrightarrow> 0 < c \<and> x < 3 \<and> y < 3" by (simp add: line_weights_def)
  ultimately show ?thesis unfolding shortest_trees_def by simp
qed

definition wired_iface :: "string \<Rightarrow> string \<Rightarrow> string \<Rightarrow> string \<Rightarrow> iface" where
  "wired_iface name ip peer peer_ip = (new_iface 0 name ''GroundStationLink'')\<lparr>if_ipv4 := ip, if_peer := Some (peer, peer_ip)\<rparr>"

definition line_node :: "string \<Rightarrow> int \<Rightarrow> string \<Rightarrow> iface list \<Rightarrow> node" where
  "line_node name i ip is = (demo_node name i ip)\<lparr>nd_ifaces := is\<rparr>"

definition line_1 :: iface where "line_1 = wired_iface ''Gnd1.2'' ''10.0.0.1'' ''Sat2.1'' ''10.0.0.2''"
definition line_2a :: iface where "line_2a = wired_iface ''Sat2.1'' ''10.0.0.2'' ''Gnd1.2'' ''10.0.0.1''"
definition line_2b :: iface where "line_2b = wired_iface ''Sat2.3'' ''10.0.1.2'' ''Gnd3.2'' ''10.0.1.3''"
definition line_3 :: iface where "line_3 = wired_iface ''Gnd3.2'' ''10.0.1.3'' ''Sat2.3'' ''10.0.1.2''"

definition line_net :: network where
  "line_net = \<lparr>nt_sats = [(2, line_node ''Sat2'' 2 ''128.8.0.20'' [line_2a, line_2b])],
     nt_gss = [(1, line_node ''Gnd1'' 1 ''64.4.0.12'' [line_1]), (3, line_node ''Gnd3'' 3 ''64.12.0.12'' [line_3])],
     nt_status = True, nt_file_routes = False, nt_iface_version = Some 0\<rparr>"

definition line_maps :: iface_maps where
  "line_maps = ([(1, [(2, line_1)]), (3, [(2, line_3)])], [(2, [(1, line_2a), (3, line_2b)])])"

lemma line_wired: "wired line_maps line_net"
  by (simp add: wired_def gateways_ok_def line_maps_def line_net_def line_node_def demo_node_def owner_def
      line_1_def line_2a_def line_2b_def line_3_def wired_iface_def new_iface_def)

lemma static_delivery_witness:
  "\<exists>sd' nt' path. populate_dijkstra_igraph ([1, 2, 3], line_tree) line_maps new_static_daemon line_net = Inr (sd', nt')
    \<and> travel 3 (forward nt' ''64.12.0.12'') 3 1 = Some path \<and> hd path = 1 \<and> last path = 3 \<and> distinct path"
proof -
  let ?g = "([1, 2, 3], line_tree) :: graph"
  have "is_ok (populate_dijkstra_igraph ?g line_maps new_static_daemon line_net)" by code_simp
  then obtain sd' nt' where p: "populate_dijkstra_igraph ?g line_maps new_static_daemon line_net = Inr (sd', nt')" by (auto simp: is_ok_iff)
  have s: "summarize_loopbacks (net_nodes line_net) = Inr [(1, ''64.4.0.0''), (3, ''64.12.0.0''), (2, ''128.8.0.0'')]" by code_simp
  have ip: "summarize_ipv4_address ''64.12.0.12'' 15 = Inr ''64.12.0.0''" by code_simp
  let ?dst = "line_node ''Gnd3'' 3 ''64.12.0.12'' [line_3]" and ?src = "line_node ''Gnd1'' 1 ''64.4.0.12'' [line_1]"
  have "\<exists>q. travel (length (fst ?g)) (forward nt' ''64.12.0.12'') (nd_id ?dst) (nd_id ?src) = Some (map ((!) (fst ?g)) (rev q))
      \<and> hd q = 2 \<and> last q = 0 \<and> shortest_walk line_weights q \<and> distinct (map ((!) (fst ?g)) (rev q))"
    by (rule static_delivery [OF p s _ _ _ _ _ line_wired, where net = "''64.12.0.0''"])
      (simp_all add: ip line_trees numeral_3_eq_3 [symmetric] line_tree_def line_net_def line_node_def demo_node_def cache_valid_def
        new_static_daemon_def dst_array_def addressable_sats_def)
  then obtain q where q: "travel 3 (forward nt' ''64.12.0.12'') 3 1 = Some (map ((!) [1, 2, 3]) (rev q))" "hd q = 2" "last q = 0"
    "shortest_walk line_weights q" "distinct (map ((!) [1, 2, 3 :: int]) (rev q))" by (auto simp: line_node_def demo_node_def numeral_3_eq_3)
  have "q \<noteq> []" using q(4) by (auto simp: shortest_walk_def)
  then have "hd (map ((!) [1, 2, 3 :: int]) (rev q)) = 1" "last (map ((!) [1, 2, 3 :: int]) (rev q)) = 3"
    using q(2,3) by (simp_all add: hd_map last_map hd_rev last_rev)
  then show ?thesis using p q(1,5) by blast
qed

end
