(* ===== verification/Pairing.thy ===== *)
theory Pairing
  imports Static_Delivery Topology_Facts
begin

text \<open>
  The interfaces of a running network come in pairs. Every interface leads to a node that has an
  interface back; both know the address of the other, and addresses come from the scheme of
  \<open>utils/ip_utils.py\<close>. Adding and removing links and whole simulation steps keep this, and the
  maps of interfaces from which the static daemon takes its gateways then lead to the right nodes.
\<close>

section \<open>Pairs of interfaces, by the identifiers of nodes\<close>

text \<open>What matters of an interface: its name, its address, what it knows of its peer, and its type.\<close>

type_synonym essence = "string \<times> string \<times> (string \<times> string) option \<times> string"

definition essence :: "iface \<Rightarrow> essence" where
  "essence i = (if_name i, if_ipv4 i, if_peer i, if_type i)"

definition end_iface :: "(int \<Rightarrow> string) \<Rightarrow> int \<Rightarrow> int \<Rightarrow> string" where
  "end_iface T u v = node_name (T u) (nat u) @ ''.'' @ dec_int v"

definition toward :: "(int \<Rightarrow> string) \<Rightarrow> int \<Rightarrow> int \<Rightarrow> essence \<Rightarrow> bool" where
  "toward T u v e \<longleftrightarrow> fst e = end_iface T u v"

definition addressed :: "(int \<Rightarrow> string) \<Rightarrow> int \<Rightarrow> int \<Rightarrow> string \<Rightarrow> string \<Rightarrow> bool" where
  "addressed T u v a b \<longleftrightarrow> get_ipv4_address u v (T u) False = Inr (a, b) \<or> get_ipv4_address v u (T v) False = Inr (b, a)"

definition linked :: "(int \<Rightarrow> string) \<Rightarrow> int \<Rightarrow> int \<Rightarrow> essence \<Rightarrow> essence \<Rightarrow> bool" where
  "linked T u v e f \<longleftrightarrow> addressed T u v (fst (snd e)) (fst (snd f)) \<and>
     fst (snd (snd e)) = Some (fst f, fst (snd f)) \<and> fst (snd (snd f)) = Some (fst e, fst (snd e)) \<and>
     snd (snd (snd e)) \<noteq> ''lo'' \<and> snd (snd (snd f)) \<noteq> ''lo''"

definition paired :: "(int \<Rightarrow> string) \<Rightarrow> (int \<Rightarrow> essence list) \<Rightarrow> bool" where
  "paired T S \<longleftrightarrow> (\<forall>u. \<forall>e \<in> set (S u). 0 \<le> u \<and> (\<exists>v \<ge> 0. v \<noteq> u \<and> toward T u v e)) \<and>
     (\<forall>u \<ge> 0. \<forall>v \<ge> 0. list_all2 (linked T u v) (filter (toward T u v) (S u)) (filter (toward T v u) (S v)))"

lemma end_iface_split: "0 \<le> v \<Longrightarrow> split_on (CHR ''.'') (end_iface T u v) = [node_name (T u) (nat u), dec_int v]"
  using dec_int_facts(2) [of v] by (simp add: end_iface_def) (simp add: node_name_def)

lemma end_iface_inject:
  assumes "end_iface T u v = end_iface T u' v'" "0 \<le> u" "0 \<le> u'" "0 \<le> v" "0 \<le> v'"
  shows "u = u' \<and> v = v'"
proof -
  have "node_name (T u) (nat u) = node_name (T u') (nat u')" "dec_int v = dec_int v'"
    using arg_cong [OF assms(1), of "split_on (CHR ''.'')"] assms(4,5) by (simp_all add: end_iface_split)
  then show ?thesis using assms by (auto simp: node_name_def dec_int_inject split: if_splits)
qed

lemma toward_inject: "\<lbrakk>toward T u v e; toward T u' v' e; 0 \<le> u; 0 \<le> u'; 0 \<le> v; 0 \<le> v'\<rbrakk> \<Longrightarrow> u = u' \<and> v = v'"
  unfolding toward_def using end_iface_inject by metis

lemma linked_sym: "linked T u v e f \<longleftrightarrow> linked T v u f e"
  by (auto simp: linked_def addressed_def)

lemma pairedD:
  assumes "paired T S"
  shows "e \<in> set (S u) \<Longrightarrow> 0 \<le> u \<and> (\<exists>v \<ge> 0. v \<noteq> u \<and> toward T u v e)"
    and "0 \<le> u \<Longrightarrow> 0 \<le> v \<Longrightarrow> list_all2 (linked T u v) (filter (toward T u v) (S u)) (filter (toward T v u) (S v))"
  using assms by (auto simp: paired_def)

lemma paired_add:
  assumes S: "paired T S" and ids: "0 \<le> s" "0 \<le> t" "s \<noteq> t" and ef: "toward T s t e" "toward T t s f" "linked T s t e f"
  shows "paired T (S(s := S s @ [e], t := S t @ [f]))"
proof -
  let ?S = "S(s := S s @ [e], t := S t @ [f])"
  have e: "toward T s v e \<longleftrightarrow> v = t" and f: "toward T t v f \<longleftrightarrow> v = s" if "0 \<le> v" for v
    using toward_inject ids ef(1,2) that by blast+
  have other: "filter (toward T u v) (?S u) = filter (toward T u v) (S u)" if "0 \<le> v" "(u, v) \<noteq> (s, t)" "(u, v) \<noteq> (t, s)" for u v
    using that e f ids(3) by auto
  have "list_all2 (linked T u v) (filter (toward T u v) (?S u)) (filter (toward T v u) (?S v))" if uv: "0 \<le> u" "0 \<le> v" for u v
  proof -
    note old = pairedD(2) [OF S uv]
    consider "u = s \<and> v = t" | "u = t \<and> v = s" | "(u, v) \<noteq> (s, t)" "(u, v) \<noteq> (t, s)" by auto
    then show ?thesis
    proof cases
      case 1
      then show ?thesis using old ids ef by (auto intro: list_all2_appendI)
    next
      case 2
      then show ?thesis using old ids ef linked_sym [of T s t] by (auto intro: list_all2_appendI)
    next
      case 3
      then have "(v, u) \<noteq> (s, t)" "(v, u) \<noteq> (t, s)" by auto
      then show ?thesis using old unfolding other [OF uv(2) 3] other [OF uv(1) \<open>(v, u) \<noteq> (s, t)\<close> \<open>(v, u) \<noteq> (t, s)\<close>] by simp
    qed
  qed
  moreover have "0 \<le> u \<and> (\<exists>v \<ge> 0. v \<noteq> u \<and> toward T u v x)" if "x \<in> set (?S u)" for u x
    using that pairedD(1) [OF S, of x u] ids ef(1,2) by (auto split: if_splits)
  ultimately show ?thesis unfolding paired_def by blast
qed

lemma remove_first_filter:
  "filter P (remove_first P xs) = tl (filter P xs)"
  "(\<And>x. x \<in> set xs \<Longrightarrow> P x \<Longrightarrow> \<not> Q x) \<Longrightarrow> filter Q (remove_first P xs) = filter Q xs"
  "set (remove_first P xs) \<subseteq> set xs"
  by (induction xs) auto

lemma list_all2_tl: "list_all2 P xs ys \<Longrightarrow> list_all2 P (tl xs) (tl ys)"
  by (cases xs; cases ys) auto

lemma paired_remove:
  assumes S: "paired T S" and ids: "0 \<le> s" "0 \<le> t" "s \<noteq> t"
  shows "paired T (S(s := remove_first (toward T s t) (S s), t := remove_first (toward T t s) (S t)))"
proof -
  let ?S = "S(s := remove_first (toward T s t) (S s), t := remove_first (toward T t s) (S t))"
  have sub: "set (?S u) \<subseteq> set (S u)" for u by (auto dest: subsetD [OF remove_first_filter(3)])
  have other: "filter (toward T u v) (?S u) = filter (toward T u v) (S u)" if "0 \<le> u" "0 \<le> v" "(u, v) \<noteq> (s, t)" "(u, v) \<noteq> (t, s)" for u v
  proof -
    have one: "v' = v" if "toward T u v x" "toward T u v' x" "0 \<le> u" "0 \<le> v" "0 \<le> v'" for u v v' x using toward_inject that by blast
    show ?thesis using that ids one [of s t _ v] one [of t s _ v] by (auto intro!: remove_first_filter(2))
  qed
  have "list_all2 (linked T u v) (filter (toward T u v) (?S u)) (filter (toward T v u) (?S v))" if uv: "0 \<le> u" "0 \<le> v" for u v
  proof -
    note old = pairedD(2) [OF S uv]
    consider "u = s \<and> v = t" | "u = t \<and> v = s" | "(u, v) \<noteq> (s, t)" "(u, v) \<noteq> (t, s)" by auto
    then show ?thesis
    proof cases
      case 3
      then have "(v, u) \<noteq> (s, t)" "(v, u) \<noteq> (t, s)" by auto
      then show ?thesis using old unfolding other [OF uv 3] other [OF uv(2,1) \<open>(v, u) \<noteq> (s, t)\<close> \<open>(v, u) \<noteq> (t, s)\<close>] by simp
    qed (use old ids in \<open>auto simp: remove_first_filter(1) intro: list_all2_tl\<close>)
  qed
  moreover have "0 \<le> u \<and> (\<exists>v \<ge> 0. v \<noteq> u \<and> toward T u v x)" if "x \<in> set (?S u)" for u x
    using pairedD(1) [OF S, of x u] sub [of u] that by blast
  ultimately show ?thesis unfolding paired_def by blast
qed

section \<open>The pairs of a topology\<close>

definition ifaces_of :: "'a network_scheme \<Rightarrow> int \<Rightarrow> iface list" where
  "ifaces_of tp u = (case find_node u tp of Some n \<Rightarrow> nd_ifaces n | None \<Rightarrow> [])"

definition kind_of :: "'a network_scheme \<Rightarrow> int \<Rightarrow> nref option" where
  "kind_of tp u = map_option node_ref (find_node u tp)"

definition type_of :: "'a network_scheme \<Rightarrow> int \<Rightarrow> string" where
  "type_of tp u = (case kind_of tp u of Some r \<Rightarrow> nr_type r | None \<Rightarrow> [])"

definition store_of :: "'a network_scheme \<Rightarrow> int \<Rightarrow> essence list" where
  "store_of tp u = map essence (ifaces_of tp u)"

definition ends_ok :: "topology \<Rightarrow> link \<Rightarrow> bool" where
  "ends_ok tp l \<longleftrightarrow> kind_of tp (nr_id (lk_source l)) = Some (lk_source l) \<and> kind_of tp (nr_id (lk_target l)) = Some (lk_target l)
     \<and> nr_id (lk_source l) \<noteq> nr_id (lk_target l)"

text \<open>One object in several lists: the number of an interface determines what it is.\<close>

definition oids_ok :: "topology \<Rightarrow> bool" where
  "oids_ok tp \<longleftrightarrow> (\<exists>E. (\<forall>u. \<forall>i \<in> set (ifaces_of tp u). essence i = E (if_oid i) \<and> if_oid i < tp_next_oid tp)
     \<and> links_all (\<lambda>k l. \<forall>i \<in> set (lk_ifaces l). essence i = E (if_oid i) \<and> if_oid i < tp_next_oid tp) tp)"

definition names_ok :: "topology \<Rightarrow> bool" where
  "names_ok tp \<longleftrightarrow> (\<forall>u r. kind_of tp u = Some r \<longrightarrow> id13 u \<and> nr_name r = node_name (nr_type r) (nat u))"

definition pairing :: "topology \<Rightarrow> bool" where
  "pairing tp \<longleftrightarrow> topo_ok tp \<and> nt_status tp \<and> names_ok tp \<and> links_all (\<lambda>k l. ends_ok tp l) tp \<and> oids_ok tp
     \<and> paired (type_of tp) (store_of tp)"

lemma kind_facts:
  assumes "nodes_ok tp" "kind_of tp u = Some r"
  shows "nr_id r = u" "nr_type r = (if dict_get (nt_sats tp) u = None then ''GroundStation'' else ''Satellite'')"
    "nr_type r \<in> {''Satellite'', ''GroundStation''}" "type_of tp u = nr_type r"
  using assms by (auto simp: kind_of_def find_node_def nodes_ok_def node_ref_def type_of_def split: option.splits)

lemma find_update_node:
  assumes "nodes_ok tp" "kind_of tp (nr_id r) = Some r"
  shows "find_node u (update_node r f tp) = (if u = nr_id r then map_option f (find_node u tp) else find_node u tp)"
proof -
  have m: "dict_get (map (\<lambda>(k, n). (k, if k = i then f n else n)) d) u = (if u = i then map_option f (dict_get d u) else dict_get d u)" for i and d :: "(int, node) dict"
    by (induction d) auto
  show ?thesis using kind_facts(2) [OF assms] assms
    by (auto simp: find_node_def update_node_def m kind_of_def nodes_ok_def option.map_ident split: option.splits)
qed

lemma find_node_cong: "nt_sats tp' = nt_sats tp \<Longrightarrow> nt_gss tp' = nt_gss tp \<Longrightarrow> find_node u tp' = find_node u tp"
  unfolding find_node_def by argo

lemma find_node_frame [simp]:
  "find_node u (set_link k m t) = find_node u (t :: topology)" "find_node u (t\<lparr>tp_interfaces := x\<rparr>) = find_node u t"
  "find_node u (t\<lparr>tp_next_oid := y\<rparr>) = find_node u t" "find_node u (t\<lparr>nt_iface_version := z\<rparr>) = find_node u t"
  "find_node u (t\<lparr>tp_links := d\<rparr>) = find_node u t" "find_node u (t\<lparr>tp_initial_sync := b\<rparr>) = find_node u t"
  "find_node u (t\<lparr>tp_time_step := w\<rparr>) = find_node u t"
  "find_node u (flag_missing ks t) = find_node u t"
  by (rule find_node_cong; simp add: flag_missing_def)+

lemma pairingD:
  assumes "pairing tp"
  shows "topo_ok tp" "nodes_ok tp" "nt_status tp" "names_ok tp" "oids_ok tp" "paired (type_of tp) (store_of tp)"
    and "dict_get (tp_links tp) k = Some l \<Longrightarrow> ends_ok tp l"
  using assms by (auto simp: pairing_def topo_ok_def links_all_def)

text \<open>The two ends of a link, with their identifiers as numbers.\<close>

lemma link_ends:
  assumes "pairing tp" "dict_get (tp_links tp) k = Some l"
  defines "T \<equiv> type_of tp"
  obtains s t where "nr_id (lk_source l) = s" "nr_id (lk_target l) = t" "s \<noteq> t" "id13 s" "id13 t"
    "lk_source l = \<lparr>nr_name = node_name (T s) (nat s), nr_id = s, nr_type = T s\<rparr>"
    "lk_target l = \<lparr>nr_name = node_name (T t) (nat t), nr_id = t, nr_type = T t\<rparr>"
    "T s \<in> {''Satellite'', ''GroundStation''}" "T t \<in> {''Satellite'', ''GroundStation''}"
    "kind_of tp s = Some (lk_source l)" "kind_of tp t = Some (lk_target l)"
    "get_names l = (end_iface T s t, end_iface T t s)"
proof -
  note p = pairingD [OF assms(1)]
  let ?s = "nr_id (lk_source l)" and ?t = "nr_id (lk_target l)"
  from p(7) [OF assms(2)] have e: "kind_of tp ?s = Some (lk_source l)" "kind_of tp ?t = Some (lk_target l)" "?s \<noteq> ?t"
    by (simp_all add: ends_ok_def)
  note ks = kind_facts [OF p(2) e(1)] and kt = kind_facts [OF p(2) e(2)]
  have n: "id13 ?s" "nr_name (lk_source l) = node_name (T ?s) (nat ?s)" "id13 ?t" "nr_name (lk_target l) = node_name (T ?t) (nat ?t)"
    using p(4) e ks(4) kt(4) unfolding names_ok_def T_def by metis+
  have g: "get_names l = (end_iface T ?s ?t, end_iface T ?t ?s)" by (simp add: get_names_def end_iface_def n)
  show thesis
    by (rule that [OF refl refl e(3) n(1,3) _ _ _ _ e(1,2) g])
      (use n ks kt in \<open>simp_all add: T_def\<close>)
qed

text \<open>Both ends get an interface.\<close>

lemma find_both:
  assumes ok: "topo_ok tp" and e: "kind_of tp s = Some a" "kind_of tp t = Some b" "s \<noteq> t" "nr_id a = s" "nr_id b = t"
  shows "find_node u (update_node b (add_iface j2) (update_node a (add_iface j1) tp)) =
    (if u = s then map_option (add_iface j1) (find_node u tp) else if u = t then map_option (add_iface j2) (find_node u tp) else find_node u tp)"
proof -
  have n: "nodes_ok tp" using ok by (simp add: topo_ok_def)
  note fs = find_update_node [OF n, of a, unfolded e(4), OF e(1)]
  have "core tp (update_node a (add_iface j1) tp)" by (rule update_node_core) (simp add: add_iface_def)
  then have n1: "nodes_ok (update_node a (add_iface j1) tp)" using core_topo_ok ok topo_ok_def by blast
  have t: "kind_of (update_node a (add_iface j1) tp) t = Some b" using fs [of t "add_iface j1"] e(2,3) by (simp add: kind_of_def)
  show ?thesis unfolding find_update_node [OF n1, of b, unfolded e(5), OF t] fs using e(3) by simp
qed

lemma build_pair:
  assumes p: "pairing tp" and l: "dict_get (tp_links tp) k = Some l"
  defines "T \<equiv> type_of tp" and "s \<equiv> nr_id (lk_source l)" and "t \<equiv> nr_id (lk_target l)"
  obtains j1 j2 tp' where "build_interfaces_from_link True k tp = (None, tp')"
    "tp_links tp' = dict_set k (l\<lparr>lk_ifaces := lk_ifaces l @ [j1, j2]\<rparr>) (tp_links tp)" "tp_next_oid tp' = tp_next_oid tp + 2"
    "nt_status tp'" "if_oid j1 = tp_next_oid tp" "if_oid j2 = Suc (tp_next_oid tp)"
    "\<forall>u. find_node u tp' = (if u = s then map_option (add_iface j1) (find_node u tp)
      else if u = t then map_option (add_iface j2) (find_node u tp) else find_node u tp)"
    "toward T s t (essence j1)" "toward T t s (essence j2)" "linked T s t (essence j1) (essence j2)"
proof -
  note pp = pairingD [OF p]
  obtain e: "nr_id (lk_source l) = s" "nr_id (lk_target l) = t" "s \<noteq> t" "id13 s" "id13 t"
    "lk_source l = \<lparr>nr_name = node_name (T s) (nat s), nr_id = s, nr_type = T s\<rparr>"
    "lk_target l = \<lparr>nr_name = node_name (T t) (nat t), nr_id = t, nr_type = T t\<rparr>"
    "T s \<in> {''Satellite'', ''GroundStation''}" "T t \<in> {''Satellite'', ''GroundStation''}"
    "kind_of tp s = Some (lk_source l)" "kind_of tp t = Some (lk_target l)"
    "get_names l = (end_iface T s t, end_iface T t s)"
    using link_ends [OF p l] unfolding s_def t_def T_def by metis
  let ?n1 = "end_iface T s t" and ?n2 = "end_iface T t s"
  let ?i1 = "link_iface (tp_next_oid tp) ?n1 ?n2 l" and ?i2 = "link_iface (Suc (tp_next_oid tp)) ?n2 ?n1 l"
  have i: "int (nat s) = s" "int (nat t) = t" using e(4,5) by simp_all
  have "if_name ?i1 = node_name (T s) (nat s) @ ''.'' @ dec (nat t)" using e(5) by (simp add: end_iface_def dec_int_def)
  from set_ipv4_address_link [OF e(8) _ _ this, of ?i2, unfolded i] e(4,5)
  obtain a b where ab: "get_ipv4_address s t (T s) False = Inr (a, b)"
    "set_ipv4_address ?i1 ?i2 = Inr (set_ip a ?i1, set_ip b ?i2)"
    "set_ipv4_address (set_ip b ?i2) (set_ip a ?i1) = Inr (set_ip b ?i2, set_ip a ?i1)" by auto
  let ?j1 = "set_peer_ip (set_ip b ?i2) (set_ip a ?i1)" and ?j2 = "set_peer_ip (set_ip a ?i1) (set_ip b ?i2)"
  let ?tp2 = "update_node (lk_target l) (add_iface ?j2) (update_node (lk_source l) (add_iface ?j1) tp)"
  let ?l' = "l\<lparr>lk_ifaces := lk_ifaces l @ [?j1, ?j2]\<rparr>"
  define tp' where "tp' = snd (build_interfaces_from_link True k tp)"
  obtain ifs oid ver where r: "build_interfaces_from_link True k tp =
    (None, (set_link k ?l' ?tp2)\<lparr>tp_interfaces := ifs, tp_next_oid := oid, nt_iface_version := ver\<rparr>)" "oid = tp_next_oid tp + 2"
    using l pp(3) ab(2,3) e(12) by (simp add: build_interfaces_from_link_def Let_def)
  have f: "find_node u ?tp2 = (if u = s then map_option (add_iface ?j1) (find_node u tp)
      else if u = t then map_option (add_iface ?j2) (find_node u tp) else find_node u tp)" for u
    by (rule find_both [OF pp(1) e(10,11,3,1,2)])
  have get: "\<forall>u. find_node u tp' = (if u = s then map_option (add_iface ?j1) (find_node u tp)
      else if u = t then map_option (add_iface ?j2) (find_node u tp) else find_node u tp)"
    unfolding tp'_def r(1) snd_conv find_node_frame by (rule allI) (rule f)
  have r': "build_interfaces_from_link True k tp = (None, tp')" by (simp add: tp'_def r(1))
  show thesis
    by (rule that [OF r' _ _ _ _ _ get])
      (use ab(1) pp(3) in \<open>simp_all add: tp'_def r set_link_def toward_def essence_def linked_def addressed_def set_peer_ip_def set_ip_def\<close>)
qed

section \<open>Steps that leave the nodes alone\<close>

text \<open>Every link is one there was, with its ends and interfaces, or is new, without interfaces.\<close>

definition inherits :: "topology \<Rightarrow> string set \<Rightarrow> link \<Rightarrow> bool" where
  "inherits tp k l' \<longleftrightarrow> lk_ifaces l' = [] \<and> ends_ok tp l' \<or> (\<exists>l. dict_get (tp_links tp) k = Some l \<and>
     lk_source l' = lk_source l \<and> lk_target l' = lk_target l \<and> lk_ifaces l' = lk_ifaces l)"

definition alike :: "topology \<Rightarrow> topology \<Rightarrow> bool" where
  "alike tp tp' \<longleftrightarrow> nt_sats tp' = nt_sats tp \<and> nt_gss tp' = nt_gss tp \<and> nt_status tp' = nt_status tp \<and>
     tp_next_oid tp' = tp_next_oid tp \<and> links_all (inherits tp) tp'"

lemma same_nodes:
  assumes "nt_sats tp' = nt_sats tp" "nt_gss tp' = nt_gss tp"
  shows "kind_of tp' = kind_of tp" "type_of tp' = type_of tp" "ifaces_of tp' = ifaces_of tp" "store_of tp' = store_of tp"
    "ends_ok tp' = ends_ok tp" "names_ok tp' = names_ok tp"
proof -
  show k: "kind_of tp' = kind_of tp" and "ifaces_of tp' = ifaces_of tp"
    using find_node_cong [OF assms] by (simp_all add: kind_of_def ifaces_of_def fun_eq_iff)
  then show "type_of tp' = type_of tp" "ends_ok tp' = ends_ok tp" "names_ok tp' = names_ok tp" "store_of tp' = store_of tp"
    by (simp_all add: type_of_def ends_ok_def names_ok_def store_of_def fun_eq_iff)
qed

lemma alike_refl [simp]: "alike tp tp"
  by (auto simp: alike_def links_all_def inherits_def)

lemma alike_trans:
  assumes "alike a b" "alike b c"
  shows "alike a c"
proof -
  have "ends_ok b = ends_ok a" using assms(1) same_nodes(5) [of b a] by (simp add: alike_def)
  then have "inherits a k l" if "inherits b k l" for k l
    using that assms(1) by (fastforce simp: inherits_def alike_def links_all_def ends_ok_def)
  then show ?thesis using assms by (simp add: alike_def links_all_def)
qed

lemma alike_pairing:
  assumes p: "pairing tp" and a: "alike tp tp'" and ok: "topo_ok tp'"
  shows "pairing tp'"
proof -
  note pp = pairingD [OF p]
  have n: "nt_sats tp' = nt_sats tp" "nt_gss tp' = nt_gss tp" "nt_status tp' = nt_status tp" "tp_next_oid tp' = tp_next_oid tp"
    using a by (simp_all add: alike_def)
  note same = same_nodes [OF n(1,2)]
  have l: "lk_ifaces l' = [] \<and> ends_ok tp l' \<or> (\<exists>l. dict_get (tp_links tp) k = Some l \<and> lk_source l' = lk_source l \<and>
      lk_target l' = lk_target l \<and> lk_ifaces l' = lk_ifaces l)" if "dict_get (tp_links tp') k = Some l'" for k l'
    using a that by (simp add: alike_def links_all_def inherits_def)
  have "ends_ok tp l'" if "dict_get (tp_links tp') k = Some l'" for k l'
    using l [OF that] pp(7) [of k] unfolding ends_ok_def by metis
  moreover have "oids_ok tp'"
  proof -
    obtain E where E: "\<forall>u. \<forall>i \<in> set (ifaces_of tp u). essence i = E (if_oid i) \<and> if_oid i < tp_next_oid tp"
      "\<And>k l. dict_get (tp_links tp) k = Some l \<Longrightarrow> \<forall>i \<in> set (lk_ifaces l). essence i = E (if_oid i) \<and> if_oid i < tp_next_oid tp"
      using pp(5) by (auto simp: oids_ok_def links_all_def)
    have "\<forall>i \<in> set (lk_ifaces l'). essence i = E (if_oid i) \<and> if_oid i < tp_next_oid tp" if "dict_get (tp_links tp') k = Some l'" for k l'
      using l [OF that] E(2) [of k] by force
    then show ?thesis using E(1) unfolding oids_ok_def links_all_def same n by blast
  qed
  ultimately show ?thesis using ok pp(3,4,6) by (simp add: pairing_def same n(3) links_all_def)
qed

lemma alike_set_link:
  assumes "dict_get (tp_links tp) k = Some l" "lk_source l' = lk_source l" "lk_target l' = lk_target l" "lk_ifaces l' = lk_ifaces l"
  shows "alike tp (set_link k l' tp)"
proof -
  have "tp_next_oid (set_link k l' tp) = tp_next_oid tp" by (simp add: set_link_def)
  then show ?thesis using assms by (auto simp: alike_def links_all_def inherits_def)
qed

lemma update_link_flags_pairing:
  assumes "pairing tp"
  shows "pairing (update_link_flags k tp)"
proof -
  have "alike tp (update_link_flags k tp)"
    by (cases "dict_get (tp_links tp) k") (auto simp: update_link_flags_def intro!: alike_set_link)
  then show ?thesis using alike_pairing [OF assms] core_topo_ok [OF update_link_flags_core] pairingD(1) [OF assms] by blast
qed

lemma cleanup_removed_link_pairing:
  assumes "pairing tp"
  shows "pairing (cleanup_removed_link k tp)"
proof -
  note ok = pairingD(1) [OF assms]
  note c = cleanup_removed_link_links [OF ok, of k]
  have "tp_next_oid (cleanup_removed_link k tp) = tp_next_oid tp"
    by (simp add: cleanup_removed_link_def Let_def split: option.splits sum.splits)
  then have "alike tp (cleanup_removed_link k tp)" by (auto simp: alike_def c links_all_def inherits_def)
  then show ?thesis by (rule alike_pairing [OF assms _ cleanup_removed_link_ok [OF ok]])
qed

section \<open>The pass over the simulation's links\<close>

definition apart :: "satcom_link \<Rightarrow> bool" where
  "apart sl = (case (sl_source sl, sl_dest sl) of (Some s, Some t) \<Rightarrow> end_uid s \<noteq> end_uid t | _ \<Rightarrow> True)"

lemma find_node_id: "nodes_ok tp \<Longrightarrow> find_node u tp = Some n \<Longrightarrow> nd_id n = u"
  by (auto simp: find_node_def nodes_ok_def split: option.splits)

lemma create_link_ends:
  assumes "create_link_from_satcom_link b km tp s t sl = Inr l" "nodes_ok tp" "end_uid s \<noteq> end_uid t"
  shows "lk_ifaces l = [] \<and> ends_ok tp l"
proof -
  obtain src tgt d where st: "find_node (end_uid s) tp = Some src" "find_node (end_uid t) tp = Some tgt"
    "km (node_ref src) (node_ref tgt) = Some d"
    using assms(1) by (auto simp: create_link_from_satcom_link_def split: option.splits)
  then have l: "lk_source l = node_ref src" "lk_target l = node_ref tgt" "lk_ifaces l = []"
    using assms(1) by (auto simp: create_link_from_satcom_link_def Let_def new_link_def)
  have "nd_id src = end_uid s" "nd_id tgt = end_uid t" using find_node_id [OF assms(2)] st by blast+
  then show ?thesis using l st assms(3) by (simp add: ends_ok_def kind_of_def node_ref_def)
qed

lemma alike_new_link:
  assumes "lk_ifaces l = []" "ends_ok tp l"
  shows "alike tp (set_link k l tp)"
proof -
  have "tp_next_oid (set_link k l tp) = tp_next_oid tp" by (simp add: set_link_def)
  then show ?thesis using assms by (auto simp: alike_def links_all_def inherits_def)
qed

lemma sync_link_alike:
  assumes ok: "nodes_ok (sy_tp st)" and sl: "apart sl"
  shows "alike (sy_tp st) (sy_tp (sync_link b km anyway st sl))"
proof (cases "\<exists>s t k. sl_source sl = Some s \<and> sl_dest sl = Some t \<and> build_link_key s t = Inr k")
  case True
  then obtain s t k where st: "sl_source sl = Some s" "sl_dest sl = Some t" "build_link_key s t = Inr k" by blast
  then have ne: "end_uid s \<noteq> end_uid t" using sl by (simp add: apart_def)
  show ?thesis
  proof (cases "dict_get (tp_links (sy_tp st)) k")
    case None
    show ?thesis
    proof (cases "create_link_from_satcom_link b km (sy_tp st) s t sl")
      case (Inl e)
      then show ?thesis using None st by (simp add: sync_link_def)
    next
      case (Inr l)
      note l = create_link_ends [OF Inr ok ne]
      have "sy_tp (sync_link b km anyway st sl) = set_link k
          (if (tp_initial_sync (sy_tp st) \<or> anyway) \<and> lk_active l then l\<lparr>lk_to_add := True\<rparr> else l) (sy_tp st)"
        by (simp add: sync_link_def Let_def st None Inr)
      moreover have "alike (sy_tp st) (set_link k (if c then l\<lparr>lk_to_add := True\<rparr> else l) (sy_tp st))" for c
        using l by (intro alike_new_link) (simp_all add: ends_ok_def)
      ultimately show ?thesis by (simp only:)
    qed
  next
    case (Some l)
    have "sy_tp (sync_link b km anyway st sl) = set_link k (set_activity (satcom_active sl) l) (sy_tp st)"
      by (simp add: sync_link_def Let_def st Some)
    moreover have "lk_ifaces (set_activity (satcom_active sl) l) = lk_ifaces l" by (simp add: set_activity_def)
    ultimately show ?thesis using alike_set_link [OF Some] by simp
  qed
next
  case False
  then have "sy_tp (sync_link b km anyway st sl) = sy_tp st" by (auto simp: sync_link_def split: option.splits sum.splits)
  then show ?thesis by simp
qed

lemma alike_nodes_ok: "alike a b \<Longrightarrow> nodes_ok b = nodes_ok a"
  by (simp add: alike_def nodes_ok_def)

lemma sync_fold_alike:
  "nodes_ok (sy_tp st) \<Longrightarrow> list_all apart data \<Longrightarrow> alike (sy_tp st) (sy_tp (foldl (sync_link b km anyway) st data))"
proof (induction data arbitrary: st)
  case (Cons sl data)
  have a: "alike (sy_tp st) (sy_tp (sync_link b km anyway st sl))" using Cons.prems by (intro sync_link_alike) simp_all
  show ?case using Cons.IH [of "sync_link b km anyway st sl"] Cons.prems alike_nodes_ok [OF a] alike_trans [OF a] by simp
qed simp

lemma refresh_alike: "alike (sy_tp st) (sy_tp (foldl (refresh_distance b km) st keys))"
proof (induction keys arbitrary: st)
  case (Cons k keys)
  have "alike (sy_tp st) (sy_tp (refresh_distance b km st k))"
    by (auto simp: refresh_distance_def split: option.splits intro!: alike_set_link)
  then show ?case using Cons.IH [of "refresh_distance b km st k"] alike_trans by simp
qed simp

lemma flag_missing_alike: "alike tp ((flag_missing ks tp)\<lparr>tp_initial_sync := b\<rparr>)"
  by (auto simp: alike_def flag_missing_def links_all_def inherits_def split: if_splits)

lemma sync_links_alike:
  assumes "nodes_ok tp" "list_all apart data" and s: "sync_links b km anyway data tp = (ch, tp')"
  shows "alike tp tp'"
proof -
  let ?st0 = "\<lparr>sy_tp = tp, sy_keys = [], sy_refresh = [], sy_errors = 0\<rparr>"
  let ?st1 = "foldl (sync_link b km anyway) ?st0 data"
  have "alike tp (sy_tp ?st1)" using sync_fold_alike [of ?st0 data b km anyway] assms(1,2) by simp
  moreover have "alike (sy_tp ?st1) (sy_tp (refresh_link_distances b km ?st1))" unfolding refresh_link_distances_def by (rule refresh_alike)
  moreover have "alike (sy_tp (refresh_link_distances b km ?st1)) tp'"
    using s flag_missing_alike by (auto simp: sync_links_def Let_def)
  ultimately show ?thesis using alike_trans by blast
qed

lemma sync_links_pairing:
  assumes p: "pairing tp" and d: "list_all apart data" "list_all (sl_ok tp) data" and s: "sync_links b km anyway data tp = (ch, tp')"
  shows "pairing tp'"
  using alike_pairing [OF p sync_links_alike [OF pairingD(2) [OF p] d(1) s]] sync_links_get(3) [OF s pairingD(1) [OF p] d(2)] .

section \<open>Adding and removing the interfaces of a link\<close>

text \<open>What a step on the nodes has to show.\<close>

lemma node_step:
  assumes p: "pairing tp" and c: "core tp tp'" and kinds: "\<And>u. kind_of tp' u = kind_of tp u"
    and o: "oids_ok tp'" and s: "paired (type_of tp) (store_of tp')"
  shows "pairing tp'"
proof -
  note pp = pairingD [OF p]
  have k: "kind_of tp' = kind_of tp" using kinds by blast
  then have "type_of tp' = type_of tp" "names_ok tp'" using pp(4) by (simp_all add: type_of_def names_ok_def fun_eq_iff)
  moreover have "ends_ok tp' l'" if g: "dict_get (tp_links tp') x = Some l'" for x l'
  proof -
    have "rel_option link_core (dict_get (tp_links tp) x) (dict_get (tp_links tp') x)" using c by (simp add: core_def)
    then obtain l where "dict_get (tp_links tp) x = Some l" "link_core l l'" by (auto simp: g option_rel_Some2)
    then show ?thesis using pp(7) [of x l] k by (simp add: ends_ok_def link_core_def)
  qed
  ultimately show ?thesis using core_topo_ok [OF c pp(1)] c pp(3) o s by (simp add: pairing_def links_all_def core_def)
qed

lemma kind_of_updated:
  assumes "\<And>u. find_node u tp' = (if u = s then map_option f (find_node u tp) else if u = t then map_option g (find_node u tp) else find_node u tp)"
    and "\<And>n. node_ref (f n) = node_ref n" "\<And>n. node_ref (g n) = node_ref n"
  shows "kind_of tp' u = kind_of tp u"
  using assms by (simp add: kind_of_def option.map_comp comp_def)

lemma ifaces_of_updated:
  assumes "\<And>u. find_node u tp' = (if u = s then map_option f (find_node u tp) else if u = t then map_option g (find_node u tp) else find_node u tp)"
    and "\<And>n. find_node s tp = Some n \<Longrightarrow> nd_ifaces (f n) = F (nd_ifaces n)" "\<And>n. find_node t tp = Some n \<Longrightarrow> nd_ifaces (g n) = G (nd_ifaces n)"
    and "kind_of tp s \<noteq> None" "kind_of tp t \<noteq> None" "s \<noteq> t"
  shows "ifaces_of tp' = (ifaces_of tp)(s := F (ifaces_of tp s), t := G (ifaces_of tp t))"
proof
  fix u show "ifaces_of tp' u = ((ifaces_of tp)(s := F (ifaces_of tp s), t := G (ifaces_of tp t))) u"
    using assms by (cases "find_node u tp") (auto simp: ifaces_of_def kind_of_def)
qed

lemma build_pairing:
  assumes p: "pairing tp" and l: "dict_get (tp_links tp) k = Some l"
  obtains tp' where "build_interfaces_from_link True k tp = (None, tp')" "pairing tp'"
proof -
  define T s t where "T = type_of tp" and "s = nr_id (lk_source l)" and "t = nr_id (lk_target l)"
  note pp = pairingD [OF p]
  obtain j1 j2 tp' where b: "build_interfaces_from_link True k tp = (None, tp')"
    "tp_links tp' = dict_set k (l\<lparr>lk_ifaces := lk_ifaces l @ [j1, j2]\<rparr>) (tp_links tp)" "tp_next_oid tp' = tp_next_oid tp + 2"
    "nt_status tp'" "if_oid j1 = tp_next_oid tp" "if_oid j2 = Suc (tp_next_oid tp)"
    "\<forall>u. find_node u tp' = (if u = s then map_option (add_iface j1) (find_node u tp)
      else if u = t then map_option (add_iface j2) (find_node u tp) else find_node u tp)"
    "toward T s t (essence j1)" "toward T t s (essence j2)" "linked T s t (essence j1) (essence j2)"
    by (rule build_pair [OF p l, folded T_def s_def t_def]) (rule that; assumption)
  have e: "kind_of tp s = Some (lk_source l)" "kind_of tp t = Some (lk_target l)" "s \<noteq> t"
    using pp(7) [OF l] by (simp_all add: ends_ok_def s_def t_def)
  then have i: "id13 s" "id13 t" using pp(4) by (auto simp: names_ok_def)
  have ifs: "ifaces_of tp' = (ifaces_of tp)(s := ifaces_of tp s @ [j1], t := ifaces_of tp t @ [j2])"
    by (rule ifaces_of_updated [OF b(7) [rule_format]]) (use e in \<open>simp_all add: add_iface_def\<close>)
  have st: "store_of tp' = (store_of tp)(s := store_of tp s @ [essence j1], t := store_of tp t @ [essence j2])"
    using e(3) by (simp add: store_of_def ifs fun_eq_iff)
  have "oids_ok tp'"
  proof -
    obtain E where E: "\<And>u i. i \<in> set (ifaces_of tp u) \<Longrightarrow> essence i = E (if_oid i) \<and> if_oid i < tp_next_oid tp"
      "\<And>k l i. dict_get (tp_links tp) k = Some l \<Longrightarrow> i \<in> set (lk_ifaces l) \<Longrightarrow> essence i = E (if_oid i) \<and> if_oid i < tp_next_oid tp"
      using pp(5) by (auto simp: oids_ok_def links_all_def)
    let ?E = "E(tp_next_oid tp := essence j1, Suc (tp_next_oid tp) := essence j2)"
    have old: "essence i = ?E (if_oid i) \<and> if_oid i < tp_next_oid tp'" if "essence i = E (if_oid i) \<and> if_oid i < tp_next_oid tp" for i
      using that b(3) by auto
    have new: "essence i = ?E (if_oid i) \<and> if_oid i < tp_next_oid tp'" if "i = j1 \<or> i = j2" for i
      using that b(3,5,6) by auto
    have "essence i = ?E (if_oid i) \<and> if_oid i < tp_next_oid tp'" if "i \<in> set (ifaces_of tp' u)" for u i
      using that old [OF E(1) [of i]] new [of i] unfolding ifs by (auto split: if_splits)
    moreover have "essence i = ?E (if_oid i) \<and> if_oid i < tp_next_oid tp'"
      if "dict_get (tp_links tp') x = Some m" "i \<in> set (lk_ifaces m)" for x m i
    proof -
      have "i = j1 \<or> i = j2 \<or> (\<exists>k l. dict_get (tp_links tp) k = Some l \<and> i \<in> set (lk_ifaces l))"
        using that l unfolding b(2) by (auto split: if_splits)
      then show ?thesis using old [OF E(2)] new [of i] by blast
    qed
    ultimately show ?thesis unfolding oids_ok_def links_all_def by blast
  qed
  moreover have "paired (type_of tp) (store_of tp')"
    unfolding st by (rule paired_add [OF pp(6) _ _ e(3) b(8-10) [unfolded T_def]]) (use i in simp_all)
  moreover have "kind_of tp' u = kind_of tp u" for u
    by (rule kind_of_updated [OF b(7) [rule_format]]) (simp_all add: node_ref_def add_iface_def)
  moreover have "core tp tp'" using build_interfaces_core [of tp True k] b(1) by simp
  ultimately show thesis using that [OF b(1)] node_step [OF p] by blast
qed

lemma add_link_interfaces_pairing:
  assumes "pairing tp"
  shows "pairing (add_link_interfaces k tp)"
proof (cases "dict_get (tp_links tp) k")
  case None
  then show ?thesis using assms by (simp add: add_link_interfaces_def build_interfaces_from_link_def)
next
  case (Some l)
  obtain tp' where b: "build_interfaces_from_link True k tp = (None, tp')" "pairing tp'" using build_pairing [OF assms Some] .
  show ?thesis
  proof (cases "dict_get (tp_links tp') k")
    case None
    then show ?thesis using b by (simp add: add_link_interfaces_def)
  next
    case (Some m)
    have "alike tp' (set_link k (m\<lparr>lk_to_add := False\<rparr>) tp')" by (rule alike_set_link [OF Some]) simp_all
    moreover have "topo_ok (set_link k (m\<lparr>lk_to_add := False\<rparr>) tp')"
      using core_topo_ok [OF core_set_link [OF Some] pairingD(1) [OF b(2)]] by (simp add: link_core_def)
    ultimately show ?thesis using alike_pairing [OF b(2)] b(1) Some by (simp add: add_link_interfaces_def)
  qed
qed

text \<open>The interface found by the name of its peer is the one that leads there.\<close>

lemma remove_found:
  assumes "\<And>x. x \<in> set xs \<Longrightarrow> P x \<longleftrightarrow> R x" "\<And>i x. R i \<Longrightarrow> Q i x \<longleftrightarrow> R x"
  shows "(case find P xs of Some i \<Rightarrow> remove_first (Q i) xs | None \<Rightarrow> xs) = remove_first R xs"
proof -
  have cong: "remove_first R ys = ys" if "\<forall>x \<in> set ys. \<not> R x" for ys using that by (induction ys) auto
  show ?thesis
  proof (cases "find P xs")
    case None
    then have "\<forall>x \<in> set xs. \<not> R x" using assms(1) by (simp add: find_None_iff)
    then show ?thesis using cong [of xs] None by simp
  next
    case (Some i)
    then have "R i" using assms(1) by (auto simp: find_Some_iff)
    then have "Q i = R" using assms(2) by blast
    then show ?thesis using Some by simp
  qed
qed

lemma map_remove_first: "map f (remove_first (\<lambda>x. R (f x)) xs) = remove_first R (map f xs)"
  by (induction xs) auto

lemma list_all2_left: "list_all2 P xs ys \<Longrightarrow> x \<in> set xs \<Longrightarrow> \<exists>y \<in> set ys. P x y"
  by (induction rule: list_all2_induct) auto

lemma peer_known:
  assumes "paired T S" "e \<in> set (S u)"
  obtains v ip where "0 \<le> u" "0 \<le> v" "v \<noteq> u" "fst e = end_iface T u v" "fst (snd (snd e)) = Some (end_iface T v u, ip)"
proof -
  obtain v where v: "0 \<le> u" "0 \<le> v" "v \<noteq> u" "toward T u v e" using pairedD(1) [OF assms] by blast
  have "\<exists>f \<in> set (filter (toward T v u) (S v)). linked T u v e f"
    using list_all2_left [OF pairedD(2) [OF assms(1) v(1,2)], of e] assms(2) v(4) by simp
  then show thesis using that [OF v(1-3)] v(4) by (auto simp: toward_def linked_def)
qed

lemma remove_interface_paired:
  assumes p: "pairing tp" and n: "find_node s tp = Some n" and t: "0 \<le> t"
  defines "T \<equiv> type_of tp"
  shows "nd_ifaces (remove_interface_connected_to_node (node_name (T t) (nat t)) n) =
    remove_first (\<lambda>i. toward T s t (essence i)) (nd_ifaces n)"
proof -
  note pp = pairingD [OF p]
  let ?P = "\<lambda>i. case if_peer i of Some (pn, _) \<Rightarrow> end_iface T t s = pn | None \<Rightarrow> False"
  have id: "nd_id n = s" by (rule find_node_id [OF pp(2) n])
  have P: "?P i \<longleftrightarrow> toward T s t (essence i)" if i: "i \<in> set (nd_ifaces n)" for i
  proof -
    have "essence i \<in> set (store_of tp s)" using i n by (auto simp: store_of_def ifaces_of_def)
    from peer_known [OF pp(6) this] obtain v ip where v: "0 \<le> s" "0 \<le> v" "fst (essence i) = end_iface T s v"
      "fst (snd (snd (essence i))) = Some (end_iface T v s, ip)" unfolding T_def by metis
    have "end_iface T t s = end_iface T v s \<longleftrightarrow> t = v" "end_iface T s v = end_iface T s t \<longleftrightarrow> v = t"
      using end_iface_inject [of T t s v s] end_iface_inject [of T s v s t] v(1,2) t by auto
    then show ?thesis using v(3,4) by (auto simp: essence_def toward_def)
  qed
  have Q: "iface_eq i x \<longleftrightarrow> toward T s t (essence x)" if "toward T s t (essence i)" for i x
    using that by (auto simp: iface_eq_def toward_def essence_def)
  note r = remove_found [of "nd_ifaces n" ?P "\<lambda>i. toward T s t (essence i)" iface_eq, OF P Q]
  have "nd_ifaces (remove_interface_connected_to_node (node_name (T t) (nat t)) n) =
      (case find ?P (nd_ifaces n) of Some i \<Rightarrow> remove_first (iface_eq i) (nd_ifaces n) | None \<Rightarrow> nd_ifaces n)"
    by (simp add: remove_interface_connected_to_node_def id end_iface_def split: option.split)
  then show ?thesis using r by simp
qed

lemma remove_interface_ref: "node_ref (remove_interface_connected_to_node p n) = node_ref n"
  by (auto simp: remove_interface_connected_to_node_def node_ref_def Let_def split: option.splits)

lemma remove_link_interfaces_pairing:
  assumes p: "pairing tp"
  shows "pairing (remove_link_interfaces k tp)"
proof (cases "dict_get (tp_links tp) k")
  case None
  then show ?thesis using p by (simp add: remove_link_interfaces_def)
next
  case l: (Some l)
  define T s t where "T = type_of tp" and "s = nr_id (lk_source l)" and "t = nr_id (lk_target l)"
  note pp = pairingD [OF p]
  have e: "kind_of tp s = Some (lk_source l)" "kind_of tp t = Some (lk_target l)" "s \<noteq> t"
    using pp(7) [OF l] by (simp_all add: ends_ok_def s_def t_def)
  then have i: "0 \<le> s" "0 \<le> t" using pp(4) by (auto simp: names_ok_def)
  have nm: "nr_name (lk_source l) = node_name (T s) (nat s)" "nr_name (lk_target l) = node_name (T t) (nat t)"
    using pp(4) e kind_facts(4) [OF pp(2)] unfolding names_ok_def T_def by metis+
  let ?f = "remove_interface_connected_to_node (nr_name (lk_target l))" and ?g = "remove_interface_connected_to_node (nr_name (lk_source l))"
  let ?tp1 = "update_node (lk_source l) ?f tp"
  let ?tp2 = "update_node (lk_target l) ?g ?tp1"
  define tp' where "tp' = remove_link_interfaces k tp"
  have c: "core tp tp'" unfolding tp'_def by (rule remove_link_interfaces_core)
  have c1: "core tp ?tp1" by (rule update_node_core) simp
  note n1 = find_update_node [OF pp(2), of "lk_source l", folded s_def, OF e(1)]
  have "kind_of ?tp1 t = Some (lk_target l)" using e(2,3) by (simp add: kind_of_def n1)
  note n2 = find_update_node [of ?tp1 "lk_target l", folded t_def, OF _ this]
  have ok1: "nodes_ok ?tp1" using core_topo_ok [OF c1 pp(1)] by (simp add: topo_ok_def)
  have get: "find_node u tp' = (if u = s then map_option ?f (find_node u tp) else if u = t then map_option ?g (find_node u tp) else find_node u tp)" for u
    using e(3) l by (simp add: tp'_def remove_link_interfaces_def Let_def n1 n2 [OF ok1])
  have ifs: "ifaces_of tp' = (ifaces_of tp)(s := remove_first (\<lambda>i. toward T s t (essence i)) (ifaces_of tp s),
      t := remove_first (\<lambda>i. toward T t s (essence i)) (ifaces_of tp t))"
    by (rule ifaces_of_updated [OF get])
      (use e in \<open>simp_all add: remove_interface_paired [OF p _ i(1), folded T_def] remove_interface_paired [OF p _ i(2), folded T_def] nm\<close>)
  have st: "store_of tp' = (store_of tp)(s := remove_first (toward T s t) (store_of tp s), t := remove_first (toward T t s) (store_of tp t))"
    using e(3) by (simp add: store_of_def ifs map_remove_first fun_eq_iff)
  have sub: "set (ifaces_of tp' u) \<subseteq> set (ifaces_of tp u)" for u
    unfolding ifs using remove_first_filter(3) by (auto dest: subsetD [OF remove_first_filter(3)])
  have "tp_next_oid tp' = tp_next_oid tp" "tp_links tp' = tp_links tp" using l by (simp_all add: tp'_def remove_link_interfaces_def Let_def)
  then have "oids_ok tp'" using pp(5) sub unfolding oids_ok_def links_all_def by (metis (no_types, lifting) subsetD)
  moreover have "paired (type_of tp) (store_of tp')" using paired_remove [OF pp(6) i e(3)] unfolding st T_def .
  moreover have "kind_of tp' u = kind_of tp u" for u by (rule kind_of_updated [OF get]) (simp_all add: remove_interface_ref)
  ultimately show ?thesis using node_step [OF p c] unfolding tp'_def by blast
qed

section \<open>Copies of an interface\<close>

definition copy_of :: "(nat \<Rightarrow> essence) \<Rightarrow> nat \<Rightarrow> iface \<Rightarrow> bool" where
  "copy_of E n i \<longleftrightarrow> essence i = E (if_oid i) \<and> if_oid i < n"

definition oids_by :: "(nat \<Rightarrow> essence) \<Rightarrow> topology \<Rightarrow> bool" where
  "oids_by E tp \<longleftrightarrow> (\<forall>u. \<forall>i \<in> set (ifaces_of tp u). copy_of E (tp_next_oid tp) i) \<and>
     links_all (\<lambda>k l. \<forall>i \<in> set (lk_ifaces l). copy_of E (tp_next_oid tp) i) tp"

lemma oids_ok_iff: "oids_ok tp \<longleftrightarrow> (\<exists>E. oids_by E tp)"
  by (simp add: oids_ok_def oids_by_def copy_of_def)

lemma replace_iface_copies:
  assumes "copy_of E n i" "\<forall>j \<in> set ifs. copy_of E n j"
  shows "map essence (replace_iface i ifs) = map essence ifs" "\<forall>j \<in> set (replace_iface i ifs). copy_of E n j"
  using assms by (auto simp: replace_iface_def copy_of_def)

lemma store_iface_pairing:
  assumes p: "pairing tp" and E: "oids_by E tp" and i: "copy_of E (tp_next_oid tp) i"
  shows "pairing (store_iface i tp) \<and> oids_by E (store_iface i tp) \<and> tp_next_oid (store_iface i tp) = tp_next_oid tp \<and>
    store_of (store_iface i tp) = store_of tp"
proof -
  define tp' where "tp' = store_iface i tp"
  have n: "tp_next_oid tp' = tp_next_oid tp" by (simp add: tp'_def store_iface_def)
  have get: "find_node u tp' = map_option (\<lambda>n. n\<lparr>nd_ifaces := replace_iface i (nd_ifaces n)\<rparr>) (find_node u tp)" for u
    unfolding find_node_def by (simp add: tp'_def store_iface_def split: option.split)
  have ifs: "ifaces_of tp' u = replace_iface i (ifaces_of tp u)" for u
    by (simp add: ifaces_of_def get replace_iface_def split: option.split)
  have old: "\<forall>j \<in> set (ifaces_of tp u). copy_of E (tp_next_oid tp) j" for u using E by (simp add: oids_by_def)
  have "\<forall>j \<in> set (lk_ifaces l). copy_of E (tp_next_oid tp) j" if g: "dict_get (tp_links tp') k = Some l" for k l
  proof -
    obtain m where m: "dict_get (tp_links tp) k = Some m" "lk_ifaces l = replace_iface i (lk_ifaces m)"
      using g by (auto simp: tp'_def store_iface_def)
    have "\<forall>j \<in> set (lk_ifaces m). copy_of E (tp_next_oid tp) j" using E m(1) by (simp add: oids_by_def links_all_def)
    then show ?thesis unfolding m(2) by (rule replace_iface_copies(2) [OF i])
  qed
  then have E': "oids_by E tp'" using replace_iface_copies(2) [OF i old] by (simp add: oids_by_def ifs n links_all_def)
  have st: "store_of tp' = store_of tp" using replace_iface_copies(1) [OF i old] by (simp add: store_of_def ifs fun_eq_iff)
  moreover have "kind_of tp' u = kind_of tp u" for u by (cases "find_node u tp") (simp_all add: kind_of_def get node_ref_def)
  moreover have "core tp tp'" unfolding tp'_def by (rule store_iface_core)
  ultimately have "pairing tp'" using node_step [OF p] pairingD(6) [OF p] E' oids_ok_iff by metis
  then show ?thesis using E' n st unfolding tp'_def by blast
qed

lemma store_fold_pairing:
  "\<lbrakk>pairing tp; oids_by E tp; \<forall>i \<in> set is. copy_of E (tp_next_oid tp) i\<rbrakk> \<Longrightarrow>
    pairing (foldl (\<lambda>t i. store_iface i t) tp is) \<and> store_of (foldl (\<lambda>t i. store_iface i t) tp is) = store_of tp"
proof (induction "is" arbitrary: tp)
  case (Cons i "is")
  then show ?case using store_iface_pairing [OF Cons.prems(1,2), of i] by simp
qed simp

lemma sync_interfaces_and_links_pairing:
  assumes p: "pairing tp"
  shows "pairing (sync_interfaces_and_links tp)" "store_of (sync_interfaces_and_links tp) = store_of tp"
proof -
  note pp = pairingD [OF p]
  obtain E where E: "oids_by E tp" using pp(5) oids_ok_iff by blast
  define tp1 where "tp1 = tp\<lparr>tp_links := map (\<lambda>(k, l). (k, update_interfaces_state l)) (tp_links tp)\<rparr>"
  have ifs: "\<forall>i \<in> set (lk_ifaces (update_interfaces_state l)). copy_of E n i" if "\<forall>i \<in> set (lk_ifaces l). copy_of E n i" for l n
    using that by (auto simp: update_interfaces_state_def copy_of_def essence_def)
  have same: "kind_of tp1 = kind_of tp" "ifaces_of tp1 = ifaces_of tp" "store_of tp1 = store_of tp" "tp_next_oid tp1 = tp_next_oid tp"
    using same_nodes [of tp1 tp] by (simp_all add: tp1_def)
  have E1: "oids_by E tp1" using E ifs unfolding oids_by_def same links_all_def by (fastforce simp: tp1_def)
  have "rel_option link_core x (map_option update_interfaces_state x)" for x
    by (cases x) (simp_all add: link_core_def update_interfaces_state_def)
  then have "core tp tp1" by (simp add: core_def tp1_def)
  then have p1: "pairing tp1" using node_step [OF p, of tp1] E1 oids_ok_iff pp(6) by (metis same(1,3))
  have d: "dict_ok (tp_links tp1)" using pairingD(1) [OF p1] by (simp add: topo_ok_def)
  have "copy_of E (tp_next_oid tp1) i" if i: "i \<in> set (concat (map (\<lambda>(k, l). lk_ifaces l) (tp_links tp1)))" for i
  proof -
    obtain k l where "(k, l) \<in> set (tp_links tp1)" "i \<in> set (lk_ifaces l)" using i by auto
    moreover from this have "dict_get (tp_links tp1) k = Some l" using d dict_get_in by metis
    ultimately show ?thesis using E1 by (auto simp: oids_by_def links_all_def)
  qed
  then have "pairing (foldl (\<lambda>t i. store_iface i t) tp1 (concat (map (\<lambda>(k, l). lk_ifaces l) (tp_links tp1)))) \<and>
      store_of (foldl (\<lambda>t i. store_iface i t) tp1 (concat (map (\<lambda>(k, l). lk_ifaces l) (tp_links tp1)))) = store_of tp1"
    by (intro store_fold_pairing [OF p1 E1]) blast
  then show "pairing (sync_interfaces_and_links tp)" "store_of (sync_interfaces_and_links tp) = store_of tp"
    unfolding sync_interfaces_and_links_def Let_def tp1_def [symmetric] same(3) by blast+
qed

section \<open>A simulation step\<close>

lemma fold_pairing:
  "\<lbrakk>\<And>t k. pairing t \<Longrightarrow> pairing (f k t); pairing tp\<rbrakk> \<Longrightarrow> pairing (foldl (\<lambda>t k. f k t) tp ks)"
  by (induction ks arbitrary: tp) simp_all

lemma perform_local_pairing:
  assumes "pairing tp"
  shows "pairing (perform_local_link_operations a u d adds upds rems tp)"
proof -
  have "pairing (local_link_operations_parallel r u a tp)" for r u a
    unfolding local_link_operations_parallel_def Let_def
    by (intro fold_pairing cleanup_removed_link_pairing add_link_interfaces_pairing update_link_flags_pairing
      remove_link_interfaces_pairing assms)
  then show ?thesis using assms by (simp add: perform_local_link_operations_def Let_def split: prod.split)
qed

lemma update_simulation_pairing:
  assumes p: "pairing tp" and d: "list_all apart data" "list_all (sl_ok tp) data" and s: "update_simulation b km adv data tp = (res, tp')"
  shows "pairing tp'"
proof -
  have "alike tp (timed adv tp)" by (auto simp: alike_def links_all_def inherits_def)
  then have p0: "pairing (timed adv tp)" using alike_pairing [OF p] timed_ok(1) pairingD(1) [OF p] by blast
  obtain ch tp1 where c: "sync_links b km False data (timed adv tp) = (ch, tp1)" by force
  have "pairing tp1" using sync_links_pairing [OF p0 d(1) _ c] d(2) by (simp add: timed_ok)
  then show ?thesis using s c perform_local_pairing sync_interfaces_and_links_pairing
    unfolding update_simulation_def Let_def by (auto simp: split_def)
qed

section \<open>The version of the interfaces\<close>

fun older :: "int option \<Rightarrow> int option \<Rightarrow> bool" where
  "older (Some v) (Some w) = (v \<le> w)"
| "older (Some v) None = False"
| "older None w = True"

text \<open>The nodes stay, the version of the interfaces does not fall, and unless it rises they are what they were.\<close>

definition evolves :: "topology \<Rightarrow> topology \<Rightarrow> bool" where
  "evolves tp tp' \<longleftrightarrow> dict_keys (nt_sats tp') = dict_keys (nt_sats tp) \<and> dict_keys (nt_gss tp') = dict_keys (nt_gss tp) \<and>
     older (nt_iface_version tp) (nt_iface_version tp') \<and> (nt_iface_version tp' = nt_iface_version tp \<longrightarrow> store_of tp' = store_of tp)"

lemma older_refl [simp]: "older v v"
  by (cases v) simp_all

lemma older_trans: "older a b \<Longrightarrow> older b c \<Longrightarrow> older a c"
  by (cases a; cases b; cases c) simp_all

lemma older_antisym: "older a b \<Longrightarrow> older b a \<Longrightarrow> a = b"
  by (cases a; cases b) simp_all

lemma evolves_refl [simp]: "evolves tp tp"
  by (simp add: evolves_def)

lemma evolves_trans:
  assumes "evolves a b" "evolves b c"
  shows "evolves a c"
proof -
  have "nt_iface_version b = nt_iface_version a \<and> nt_iface_version c = nt_iface_version b" if "nt_iface_version c = nt_iface_version a"
    using that assms older_antisym by (metis evolves_def)
  then show ?thesis using assms older_trans [of "nt_iface_version a" "nt_iface_version b" "nt_iface_version c"]
    by (auto simp: evolves_def)
qed

lemma evolves_same: "\<lbrakk>nt_sats tp' = nt_sats tp; nt_gss tp' = nt_gss tp; nt_iface_version tp' = nt_iface_version tp\<rbrakk> \<Longrightarrow> evolves tp tp'"
  using same_nodes(4) [of tp' tp] by (simp add: evolves_def)

lemma evolves_raised:
  "\<lbrakk>dict_keys (nt_sats tp') = dict_keys (nt_sats tp); dict_keys (nt_gss tp') = dict_keys (nt_gss tp);
    nt_iface_version tp' = Some (case nt_iface_version tp of Some v \<Rightarrow> v + 1 | None \<Rightarrow> 1)\<rbrakk> \<Longrightarrow> evolves tp tp'"
  by (cases "nt_iface_version tp") (simp_all add: evolves_def)

lemma update_node_evolution [simp]:
  "dict_keys (nt_sats (update_node r f tp)) = dict_keys (nt_sats tp)" "dict_keys (nt_gss (update_node r f tp)) = dict_keys (nt_gss tp)"
  "nt_iface_version (update_node r f tp) = nt_iface_version tp"
  by (simp_all add: update_node_def comp_def split_def)

lemma set_link_version [simp]: "nt_iface_version (set_link k l tp) = nt_iface_version tp"
  by (simp add: set_link_def)

lemma build_evolves: "evolves tp (snd (build_interfaces_from_link True k tp))"
proof (cases "dict_get (tp_links tp) k")
  case (Some l)
  then show ?thesis
    by (intro evolves_raised)
      (auto simp: build_interfaces_from_link_def Let_def comp_def split_def split: prod.splits simp del: set_map)
qed (simp add: build_interfaces_from_link_def)

lemma add_link_interfaces_evolves: "evolves tp (add_link_interfaces k tp)"
proof -
  obtain e tp1 where b: "build_interfaces_from_link True k tp = (e, tp1)" by force
  then have "evolves tp tp1" using build_evolves [of tp k] by simp
  moreover have "evolves tp1 (add_link_interfaces k tp)"
    using b by (cases e) (auto simp: add_link_interfaces_def split: option.splits intro!: evolves_same)
  ultimately show ?thesis by (rule evolves_trans)
qed

lemma remove_link_interfaces_evolves: "evolves tp (remove_link_interfaces k tp)"
  by (cases "dict_get (tp_links tp) k") (auto simp: remove_link_interfaces_def Let_def intro!: evolves_raised)

lemma update_link_flags_evolves: "evolves tp (update_link_flags k tp)"
  by (auto simp: update_link_flags_def split: option.splits intro!: evolves_same)

lemma cleanup_removed_link_evolves: "evolves tp (cleanup_removed_link k tp)"
  by (auto simp: cleanup_removed_link_def Let_def split: option.splits sum.splits intro!: evolves_same)

lemma fold_evolves: "(\<And>t k. evolves t (f k t)) \<Longrightarrow> evolves tp (foldl (\<lambda>t k. f k t) tp ks)"
  by (rule foldl_rel [where R = evolves]) (auto intro: evolves_trans)

lemma perform_local_evolves: "evolves tp (perform_local_link_operations a u d adds upds rems tp)"
proof -
  have "evolves tp (local_link_operations_parallel r u a tp)" for r u a
  proof -
    define t1 where "t1 = foldl (\<lambda>t k. remove_link_interfaces k t) tp r"
    define t2 where "t2 = foldl (\<lambda>t k. update_link_flags k t) t1 u"
    define t3 where "t3 = foldl (\<lambda>t k. add_link_interfaces k t) t2 a"
    have "evolves tp t1" "evolves t1 t2" "evolves t2 t3"
      unfolding t1_def t2_def t3_def
      by (rule fold_evolves, rule remove_link_interfaces_evolves update_link_flags_evolves add_link_interfaces_evolves)+
    moreover have "evolves t3 (foldl (\<lambda>t k. cleanup_removed_link k t) t3 r)" by (rule fold_evolves) (rule cleanup_removed_link_evolves)
    ultimately show ?thesis using evolves_trans unfolding local_link_operations_parallel_def Let_def t1_def t2_def t3_def by meson
  qed
  then show ?thesis by (simp add: perform_local_link_operations_def Let_def split: prod.split)
qed

lemma sync_links_evolves:
  assumes "sync_links b km anyway data tp = (ch, tp')" "topo_ok tp" "list_all (sl_ok tp) data"
  shows "evolves tp tp'"
proof -
  have o: "others tp' = others tp" by (rule sync_links_get(4) [OF assms])
  have "nt_iface_version (others t) = nt_iface_version t" for t by (simp add: others_def)
  then have "nt_iface_version tp' = nt_iface_version tp" using o by metis
  then show ?thesis using othersD [OF o] evolves_same by blast
qed

lemma store_iface_evolution [simp]:
  "dict_keys (nt_sats (store_iface i tp)) = dict_keys (nt_sats tp)" "dict_keys (nt_gss (store_iface i tp)) = dict_keys (nt_gss tp)"
  "nt_iface_version (store_iface i tp) = nt_iface_version tp"
  by (simp_all add: store_iface_def comp_def split_def)

lemma store_fold_evolution:
  "dict_keys (nt_sats (foldl (\<lambda>t i. store_iface i t) tp is)) = dict_keys (nt_sats tp) \<and>
   dict_keys (nt_gss (foldl (\<lambda>t i. store_iface i t) tp is)) = dict_keys (nt_gss tp) \<and>
   nt_iface_version (foldl (\<lambda>t i. store_iface i t) tp is) = nt_iface_version tp"
  by (induction "is" arbitrary: tp) simp_all

lemma sync_interfaces_and_links_evolves: "pairing tp \<Longrightarrow> evolves tp (sync_interfaces_and_links tp)"
  using sync_interfaces_and_links_pairing(2) [of tp] store_fold_evolution [of "tp\<lparr>tp_links := x\<rparr>" for x]
  by (simp add: evolves_def sync_interfaces_and_links_def Let_def)

lemma update_simulation_evolves:
  assumes p: "pairing tp" and d: "list_all apart data" "list_all (sl_ok tp) data" and s: "update_simulation b km adv data tp = (res, tp')"
  shows "evolves tp tp'"
proof -
  have a: "alike tp (timed adv tp)" by (auto simp: alike_def links_all_def inherits_def)
  then have p0: "pairing (timed adv tp)" using alike_pairing [OF p] timed_ok(1) pairingD(1) [OF p] by blast
  obtain ch tp1 where c: "sync_links b km False data (timed adv tp) = (ch, tp1)" by force
  have d0: "list_all (sl_ok (timed adv tp)) data" using d(2) by (simp add: timed_ok)
  define tp2 where "tp2 = perform_local_link_operations False False True (Some []) (Some []) (Some (lc_remove ch)) tp1"
  define tp3 where "tp3 = perform_local_link_operations True True False (Some (lc_add ch)) (Some (lc_update ch)) (Some []) tp2"
  have p3: "pairing tp3" using sync_links_pairing [OF p0 d(1) d0 c] perform_local_pairing unfolding tp2_def tp3_def by blast
  have tp': "tp' = sync_interfaces_and_links tp3"
    using s c unfolding update_simulation_def Let_def by (auto simp: split_def tp2_def tp3_def)
  have "evolves tp (timed adv tp)" by (rule evolves_same) simp_all
  moreover have "evolves (timed adv tp) tp1" by (rule sync_links_evolves [OF c pairingD(1) [OF p0] d0])
  moreover have "evolves tp1 tp2" "evolves tp2 tp3" unfolding tp2_def tp3_def by (rule perform_local_evolves)+
  moreover have "evolves tp3 tp'" unfolding tp' by (rule sync_interfaces_and_links_evolves [OF p3])
  ultimately show ?thesis using evolves_trans by meson
qed

end
