(* ===== verification/Kernel_Delivery.thy ===== *)
theory Kernel_Delivery
  imports Static_Delivery Bird_Facts
begin

text \<open>
  From \<open>init\<close> of the static daemon to packets in the containers: the daemon sends every node the
  batch of its table as Base64 through a shell (\<open>_exec_batch\<close>), the kernels execute them, and
  forward by what they then hold.
\<close>

section \<open>Batches in containers\<close>

definition exec_batch :: "string list \<Rightarrow> string" where
  "exec_batch lines = ''echo '' @ b64encode (py_join new_line lines) @ '' | base64 -d | ip -force -batch -''"

text \<open>A container: its shell decodes the word that it is given and its kernel runs the lines.\<close>

locale container_kernel = kernel_fib lookup onlink exec
  for lookup :: "'fib \<Rightarrow> string \<Rightarrow> (string \<times> string) option"
    and onlink :: "'fib \<Rightarrow> (string \<times> string) set"
    and exec :: "string list \<Rightarrow> 'fib \<Rightarrow> 'fib" +
  fixes sh :: "string \<Rightarrow> 'fib \<Rightarrow> 'fib"
  assumes sh_batch: "list_all shell_safe word \<Longrightarrow>
    sh (''echo '' @ word @ '' | base64 -d | ip -force -batch -'') f = run_batch exec (split_on (CHR 0x0A) (b64decode word)) f"
begin

lemma sh_exec_batch:
  "\<lbrakk>lines \<noteq> []; \<forall>l \<in> set lines. CHR 0x0A \<notin> set l\<rbrakk> \<Longrightarrow> sh (exec_batch lines) f = run_batch exec lines f"
  using sh_batch [OF b64_safe, of "py_join new_line lines" f]
  by (simp add: exec_batch_def b64_roundtrip split_on_join)

end

text \<open>The jobs of the daemon, each on the kernel of its node.\<close>

definition run_jobs :: "(string \<Rightarrow> 'fib \<Rightarrow> 'fib) \<Rightarrow> job list \<Rightarrow> (int \<Rightarrow> 'fib) \<Rightarrow> int \<Rightarrow> 'fib" where
  "run_jobs sh jobs K = fold (\<lambda>(n, lines) K. K(nd_id n := sh (exec_batch lines) (K (nd_id n)))) jobs K"

lemma run_jobs_frame: "k \<notin> (nd_id \<circ> fst) ` set jobs \<Longrightarrow> run_jobs sh jobs K k = K k"
  by (induction jobs arbitrary: K) (auto simp: run_jobs_def)

lemma run_jobs_node:
  assumes "distinct (map nd_id ns)" "n \<in> set ns"
  shows "run_jobs sh (filter (\<lambda>(n, lines). lines \<noteq> []) (map node_job ns)) K (nd_id n) =
    (if snd (node_job n) = [] then K (nd_id n) else sh (exec_batch (snd (node_job n))) (K (nd_id n)))"
  using assms
proof (induction ns arbitrary: K)
  case (Cons m ns)
  have j: "fst (node_job x) = x" for x by (simp add: node_job_def)
  have out: "nd_id m \<notin> (nd_id \<circ> fst) ` set (filter (\<lambda>(n, lines). lines \<noteq> []) (map node_job ns))"
    using Cons.prems(1) by (auto simp: j)
  let ?jobs = "\<lambda>ns. filter (\<lambda>(n, lines). lines \<noteq> []) (map node_job ns)"
  define K1 where "K1 = (if snd (node_job m) = [] then K else K(nd_id m := sh (exec_batch (snd (node_job m))) (K (nd_id m))))"
  have step: "run_jobs sh (?jobs (m # ns)) K = run_jobs sh (?jobs ns) K1"
    by (simp add: run_jobs_def split_def j K1_def)
  show ?case
  proof (cases "n = m")
    case True
    then show ?thesis unfolding step run_jobs_frame [OF out] True by (simp add: K1_def)
  next
    case False
    then have n: "n \<in> set ns" using Cons.prems(2) by simp
    then have "nd_id n \<noteq> nd_id m" using Cons.prems(1) by (metis distinct.simps(2) imageI list.map(2) set_map)
    then have "K1 (nd_id n) = K (nd_id n)" by (simp add: K1_def)
    then show ?thesis unfolding step using Cons.IH [OF _ n, of K1] Cons.prems(1) by simp
  qed
qed simp

text \<open>Forwarding by the kernels. All routes have prefixes of 15 bits, so that the longest match is the
  only one, and a lookup is by the summary of the address.\<close>

definition kernel_forward :: "('fib \<Rightarrow> string \<Rightarrow> (string \<times> string) option) \<Rightarrow> (int \<Rightarrow> 'fib) \<Rightarrow> network \<Rightarrow> string \<Rightarrow> int \<Rightarrow> int option" where
  "kernel_forward lookup K nt ip k = (case summarize_ipv4_address ip 15 of Inl _ \<Rightarrow> None
     | Inr net \<Rightarrow> (case lookup (K k) (net @ ''/15'') of None \<Rightarrow> None | Some (gw, dev) \<Rightarrow> owner nt gw))"

section \<open>A daemon without caches\<close>

lemma install_fresh:
  assumes "install_source_routes c dsts sig sd n = Inr (sd', n')" "dict_get (sd_signatures sd) (nd_id n) = None"
  shows "\<not> nd_aliased n'" "k \<noteq> nd_id n \<Longrightarrow> dict_get (sd_signatures sd') k = dict_get (sd_signatures sd) k"
  using assms by (auto simp: install_source_routes_def Let_def)

lemma thread_fresh:
  assumes "thread_nodes (\<lambda>sd n. install_source_routes (ctx n) dsts (sig n) sd n) sd d = Inr (sd', d')"
    and "distinct (map nd_id (dict_vals d))" "\<forall>n \<in> set (dict_vals d). dict_get (sd_signatures sd) (nd_id n) = None"
  shows "(\<forall>n \<in> set (dict_vals d'). \<not> nd_aliased n) \<and>
    (\<forall>k. k \<notin> nd_id ` set (dict_vals d) \<longrightarrow> dict_get (sd_signatures sd') k = dict_get (sd_signatures sd) k)"
  using assms
proof (induction d arbitrary: sd d')
  case (Cons p d)
  obtain k n where p: "p = (k, n)" by (cases p)
  from Cons.prems(1) p obtain sd1 n1 d1 where i: "install_source_routes (ctx n) dsts (sig n) sd n = Inr (sd1, n1)"
    and t: "thread_nodes (\<lambda>sd n. install_source_routes (ctx n) dsts (sig n) sd n) sd1 d = Inr (sd', d1)"
    and d': "d' = (k, n1) # d1" by auto
  have none: "dict_get (sd_signatures sd) (nd_id n) = None" using Cons.prems(3) p by simp
  have dist: "nd_id n \<notin> nd_id ` set (dict_vals d)" "distinct (map nd_id (dict_vals d))"
    using Cons.prems(2) p by auto
  have "\<forall>m \<in> set (dict_vals d). dict_get (sd_signatures sd1) (nd_id m) = None"
  proof
    fix m assume m: "m \<in> set (dict_vals d)"
    then have "nd_id m \<noteq> nd_id n" using dist(1) by (metis imageI)
    then show "dict_get (sd_signatures sd1) (nd_id m) = None"
      using install_fresh(2) [OF i none] Cons.prems(3) m unfolding p by auto
  qed
  from Cons.IH [OF t dist(2) this] show ?case
    using install_fresh [OF i none] p d' by simp
qed simp

lemma populate_fresh:
  assumes "populate_dijkstra_igraph g ifs sd nt = Inr (sd', nt')"
    and "distinct (map nd_id (net_nodes nt))" "sd_signatures sd = []"
  shows "list_all (\<lambda>n. \<not> nd_aliased n) (net_nodes nt')"
proof -
  let ?ds = "dst_array nt"
  obtain hops su where hops: "rmap (\<lambda>dst. igraph_next_hops g (nd_id dst)) ?ds = Inr hops" "summarize_loopbacks (net_nodes nt) = Inr su"
    using assms(1) by (auto simp: populate_dijkstra_igraph_def Let_def)
  note sig = hop_vector_signature [OF hops(1) dst_array_distinct [OF assms(2)]]
  let ?f = "\<lambda>maps sd n. install_source_routes (source_context maps su n) ?ds (hop_vector g nt n) sd n"
  obtain sd1 gss sd2 sats where t: "thread_nodes (?f (fst ifs)) sd (nt_gss nt) = Inr (sd1, gss)"
    "thread_nodes (?f (snd ifs)) sd1 (nt_sats nt) = Inr (sd2, sats)" "nt' = nt\<lparr>nt_gss := gss, nt_sats := sats\<rparr>"
  proof -
    have "rbind (thread_nodes (?f (fst ifs)) sd (nt_gss nt)) (\<lambda>(sd1, gss').
        rbind (thread_nodes (?f (snd ifs)) sd1 (nt_sats nt)) (\<lambda>(sd2, sats').
        Inr (prune_caches (map nd_id (gs_nodes nt) @ map nd_id (sat_nodes nt)) sd2,
             nt\<lparr>nt_gss := gss', nt_sats := sats'\<rparr>))) = Inr (sd', nt')"
      using assms(1) unfolding populate_dijkstra_igraph_def Let_def hops rbind.simps sig .
    then show thesis by (elim rbind_InrE) (auto intro!: that split: prod.splits)
  qed
  have d: "distinct (map nd_id (gs_nodes nt))" "distinct (map nd_id (sat_nodes nt))"
    "nd_id ` set (gs_nodes nt) \<inter> nd_id ` set (sat_nodes nt) = {}" using assms(2) by (auto simp: distinct_map)
  have G: "(\<forall>n \<in> set (dict_vals gss). \<not> nd_aliased n) \<and>
      (\<forall>k. k \<notin> nd_id ` set (gs_nodes nt) \<longrightarrow> dict_get (sd_signatures sd1) k = dict_get (sd_signatures sd) k)"
    by (rule thread_fresh [OF t(1) d(1)]) (simp add: assms(3))
  have "\<forall>n \<in> set (sat_nodes nt). dict_get (sd_signatures sd1) (nd_id n) = None"
  proof
    fix n assume "n \<in> set (sat_nodes nt)"
    then have "nd_id n \<notin> nd_id ` set (gs_nodes nt)" using d(3) by blast
    then show "dict_get (sd_signatures sd1) (nd_id n) = None" using G by (simp add: assms(3))
  qed
  from thread_fresh [OF t(2) d(2) this] G t(3) show ?thesis by (auto simp: list_all_iff)
qed

section \<open>The daemon starts\<close>

lemma equalize_nodes: "gs_nodes (equalize_routing_tables nt) = map equalize_node (gs_nodes nt)"
  "sat_nodes (equalize_routing_tables nt) = map equalize_node (sat_nodes nt)"
  by (simp_all add: equalize_routing_tables_def comp_def split_def)

lemma equalize_keeps [simp]: "nd_id (equalize_node n) = nd_id n" "nd_ifaces (equalize_node n) = nd_ifaces n"
  "nd_loopback (equalize_node n) = nd_loopback n" "nd_name (equalize_node n) = nd_name n" "nd_addressable (equalize_node n) = nd_addressable n"
  by (simp_all add: equalize_node_def)

lemma clear_keeps [simp]: "nd_id (clear_previous n) = nd_id n" "nd_ifaces (clear_previous n) = nd_ifaces n"
  "nd_prev (clear_previous n) = []" "nd_aliased (clear_previous n) = nd_aliased n"
  "\<not> nd_aliased n \<Longrightarrow> nd_curr (clear_previous n) = nd_curr n"
  by (simp_all add: clear_previous_def)

lemma static_init_igraph:
  assumes "static_init raw g sd nt = Inr (sd', nt2, jobs, ok)" "\<not> nt_file_routes nt"
  obtains sd0 nt1 where "populate_dijkstra_igraph g (fst (prebuild_iface_maps nt sd)) sd0 (equalize_routing_tables nt) = Inr (sd', nt1)"
    "sd_signatures sd0 = []" "sd_entries sd0 = []" "gs_nodes nt2 = map clear_previous (gs_nodes nt1)"
    "sat_nodes nt2 = map clear_previous (sat_nodes nt1)"
    "jobs = filter (\<lambda>(n, lines). lines \<noteq> []) (map node_job (net_nodes nt2))"
proof -
  let ?p = "prebuild_iface_maps (equalize_routing_tables nt) (clear_caches sd)"
  have nodes: "dict_vals (nt_gss (equalize_routing_tables nt)) = map equalize_node (gs_nodes nt)"
    "dict_vals (nt_sats (equalize_routing_tables nt)) = map equalize_node (sat_nodes nt)" by (rule equalize_nodes)+
  have e: "peer_iface_map (equalize_node n) = peer_iface_map n" for n by (simp add: peer_iface_map_def)
  have v: "nt_iface_version (equalize_routing_tables nt) = nt_iface_version nt"
    "nt_file_routes (equalize_routing_tables nt) = nt_file_routes nt" by (simp_all add: equalize_routing_tables_def)
  have same: "fst ?p = fst (prebuild_iface_maps nt sd)"
    unfolding prebuild_iface_maps_def nodes v
    by (simp add: clear_caches_def e comp_def Let_def split: option.splits)
  have sd0: "sd_signatures (snd ?p) = []" "sd_entries (snd ?p) = []"
    by (simp_all add: prebuild_iface_maps_def clear_caches_def Let_def split: option.splits)
  from assms obtain nt1 where p: "populate_dijkstra_igraph g (fst ?p) (snd ?p) (equalize_routing_tables nt) = Inr (sd', nt1)"
    and n2: "nt2 = nt1\<lparr>nt_sats := map (\<lambda>(k, n). (k, clear_previous n)) (nt_sats nt1), nt_gss := map (\<lambda>(k, n). (k, clear_previous n)) (nt_gss nt1)\<rparr>"
    "jobs = apply_ground_station_routes nt2 @ apply_satellite_routes nt2"
    by (auto simp: static_init_def populate_routing_tables_def Let_def v split_def)
  show thesis
    by (rule that [OF p [unfolded same] sd0])
      (simp_all add: n2 apply_ground_station_routes_def apply_satellite_routes_def comp_def split_def)
qed

section \<open>What the kernels need of the interfaces\<close>

definition plain_word :: "string \<Rightarrow> bool" where
  "plain_word s \<longleftrightarrow> CHR '' '' \<notin> set s \<and> CHR 0x0A \<notin> set s"

definition plugged :: "('fib \<Rightarrow> (string \<times> string) set) \<Rightarrow> (int \<Rightarrow> 'fib) \<Rightarrow> network \<Rightarrow> node \<Rightarrow> iface_map option \<Rightarrow> bool" where
  "plugged onlink K nt n m = (case m of None \<Rightarrow> True | Some d \<Rightarrow>
     list_all (\<lambda>(k, i). case if_peer i of None \<Rightarrow> True | Some (_, gw) \<Rightarrow>
       owner nt gw = Some k \<and> plain_word gw \<and> plain_word (dev_name i) \<and> dev_name i \<in> set (map dev_name (nd_ifaces n)) \<and>
       (gw, dev_name i) \<in> onlink (K (nd_id n))) d)"

lemma plugged_gateways: "plugged onlink K nt n m \<Longrightarrow> gateways_ok nt m"
  by (auto simp: plugged_def gateways_ok_def list_all_iff split: option.splits)

lemma dec_int_plain: "CHR '' '' \<notin> set (dec_int v)" "CHR 0x0A \<notin> set (dec_int v)" "CHR ''/'' \<notin> set (dec_int v)"
  using dec_no_nondigit [of newline] by (auto simp: dec_int_def is_digit_def)

lemma summary_plain: "summarize_ipv4_address ip p = Inr s \<Longrightarrow> plain_word s \<and> CHR ''/'' \<notin> set s"
  by (auto simp: summarize_ipv4_address_def Let_def plain_word_def dec_int_plain split: if_splits elim!: rbind_InrE)

lemma summaries_plain:
  assumes "summarize_loopbacks ns = Inr su" "dict_get su k = Some s"
  shows "plain_word s \<and> CHR ''/'' \<notin> set s"
proof -
  from assms(1) obtain kvs where k: "rmap (\<lambda>n. rbind (summarize_ipv4_address (if_ipv4 (nd_loopback n)) 15) (\<lambda>s. Inr (nd_id n, s))) ns = Inr kvs"
    "su = dict_of kvs" by (auto simp: summarize_loopbacks_def)
  have "list_all (\<lambda>(k, s). plain_word s \<and> CHR ''/'' \<notin> set s) kvs"
    by (rule rmap_all [OF k(1)]) (auto dest: summary_plain)
  moreover have "(k, s) \<in> set kvs" using assms(2) set_dict_of_subset [of kvs] k(2) map_of_SomeD by fastforce
  ultimately show ?thesis by (auto simp: list_all_iff)
qed

section \<open>The tables that are sent\<close>

lemma spec_table_member:
  assumes "r \<in> set (spec_table c dsts (map h dsts))" "spec_ok c (zip dsts (map h dsts))"
  shows "\<exists>x \<in> set dsts. \<exists>k. h x = Some k \<and> spec_route c x k = Some r"
proof -
  from assms(1) obtain x where "x \<in> set dsts" "h x \<noteq> None" "r = the (spec_route c x (the (h x)))"
    unfolding spec_table_def zip_map_self spec_entries_def by (clarsimp simp: comp_def) (metis option.distinct(1))
  then obtain k where x: "x \<in> set dsts" "h x = Some k" "r = the (spec_route c x k)" by auto
  then have "spec_route c x k \<noteq> None" using assms(2) unfolding zip_map_self spec_ok_def by (auto simp: list_all_iff)
  with x show ?thesis by auto
qed

lemma spec_table_destinations:
  "spec_ok c (zip dsts (map h dsts)) \<Longrightarrow> map re_destination (spec_table c dsts (map h dsts)) =
    map (\<lambda>x. the (dict_get (sc_summarized c) (nd_id x))) (filter (\<lambda>x. h x \<noteq> None) dsts)"
  unfolding spec_table_def zip_map_self
proof (induction dsts)
  case (Cons x xs)
  then show ?case
    by (cases "h x") (auto simp: spec_entries_def spec_ok_def spec_route.simps route_from_validated_def split: option.splits)
qed (simp add: spec_entries_def)

lemma spec_route_sent:
  assumes "spec_route c x k = Some r" "plugged onlink K nt n (sc_ifaces c)" "summarize_loopbacks ns = Inr (sc_summarized c)" "sc_prefix c = 15"
  shows "route_words_ok r \<and> CHR 0x0A \<notin> set (re_destination r) \<and> plain_word (re_gateway r) \<and> plain_word (dev_name (re_iface r)) \<and>
    (re_gateway r, dev_name (re_iface r)) \<in> onlink (K (nd_id n)) \<and> dev_name (re_iface r) \<in> set (map dev_name (nd_ifaces n)) \<and>
    get_prefix r = ''/15''"
proof -
  from assms(1) obtain m i pn gw d where r: "sc_ifaces c = Some m" "dict_get m k = Some i" "if_peer i = Some (pn, gw)"
    "dict_get (sc_summarized c) (nd_id x) = Some d" "re_gateway r = gw" "re_destination r = d" "re_iface r = i" "re_prefix r = 15"
    using assms(4) by (auto simp: spec_route.simps route_from_validated_def split: option.splits)
  have "(k, i) \<in> set m" using r(2) by (rule map_of_SomeD)
  then have "plain_word gw" "plain_word (dev_name i)" "dev_name i \<in> set (map dev_name (nd_ifaces n))" "(gw, dev_name i) \<in> onlink (K (nd_id n))"
    using assms(2) r by (auto simp: plugged_def list_all_iff)
  moreover have "get_prefix r = ''/15''"
  proof -
    have "dec_int 15 = ''15''" by code_simp
    then show ?thesis by (simp add: get_prefix_def r)
  qed
  ultimately show ?thesis using summaries_plain [OF assms(3) r(4)] r by (simp add: route_words_ok_def plain_word_def)
qed

lemma sent_table_ok:
  assumes "spec_ok c (zip dsts (map h dsts))" "plugged onlink K nt n (sc_ifaces c)" "summarize_loopbacks ns = Inr (sc_summarized c)"
    "sc_prefix c = 15" "distinct (map (\<lambda>x. dict_get (sc_summarized c) (nd_id x)) dsts)"
  shows "table_ok (spec_table c dsts (map h dsts))"
proof -
  let ?t = "spec_table c dsts (map h dsts)"
  have "inj_on (\<lambda>x. the (dict_get (sc_summarized c) (nd_id x))) {x \<in> set dsts. h x \<noteq> None}"
  proof (rule inj_onI)
    fix x y assume xy: "x \<in> {x \<in> set dsts. h x \<noteq> None}" "y \<in> {x \<in> set dsts. h x \<noteq> None}"
      "the (dict_get (sc_summarized c) (nd_id x)) = the (dict_get (sc_summarized c) (nd_id y))"
    have "dict_get (sc_summarized c) (nd_id z) \<noteq> None" if "z \<in> {x \<in> set dsts. h x \<noteq> None}" for z
    proof -
      from that obtain k where z: "z \<in> set dsts" "h z = Some k" by auto
      then have "spec_route c z k \<noteq> None" using assms(1) unfolding zip_map_self spec_ok_def by (auto simp: list_all_iff)
      then show ?thesis by (auto simp: spec_route.simps split: option.splits)
    qed
    then have "dict_get (sc_summarized c) (nd_id x) = dict_get (sc_summarized c) (nd_id y)"
      using xy by (metis option.expand)
    then show "x = y" using assms(5) xy by (auto simp: distinct_map dest: inj_onD)
  qed
  then have "distinct (map re_destination ?t)"
    unfolding spec_table_destinations [OF assms(1)] using assms(5) by (auto simp: distinct_map)
  then have "distinct (map addr_of ?t)"
    by (auto simp: distinct_map addr_of_def inj_on_def)
  moreover have "list_all route_words_ok ?t"
    unfolding list_all_iff using spec_table_member [OF _ assms(1)] spec_route_sent [OF _ assms(2-4)] by blast
  ultimately show ?thesis by (simp add: table_ok_def)
qed

section \<open>The kernels after the start\<close>

lemma unpaired: "\<lbrakk>map f xs' = map f xs; map g xs' = map h xs; x' \<in> set xs'\<rbrakk> \<Longrightarrow> \<exists>x \<in> set xs. f x' = f x \<and> g x' = h x"
proof (induction xs arbitrary: xs')
  case (Cons y ys)
  then show ?case by (cases xs') auto
qed simp

definition caches_valid :: "iface_maps \<Rightarrow> (int, string) dict \<Rightarrow> static_daemon \<Rightarrow> network \<Rightarrow> bool" where
  "caches_valid ifs su sd nt \<longleftrightarrow> list_all (\<lambda>n. cache_valid (source_context (fst ifs) su n) (dst_array nt) sd (nd_id n)) (gs_nodes nt)
     \<and> list_all (\<lambda>n. cache_valid (source_context (snd ifs) su n) (dst_array nt) sd (nd_id n)) (sat_nodes nt)"

lemma caches_valid_empty: "sd_entries sd = [] \<Longrightarrow> caches_valid ifs su sd nt"
  by (simp add: caches_valid_def list_all_iff cache_valid_def)

text \<open>A node after populating, and the one it was.\<close>

lemma populated_node:
  assumes "populate_dijkstra_igraph g ifs sd nt = Inr (sd', nt')" and "summarize_loopbacks (net_nodes nt) = Inr su"
    and "distinct (map nd_id (net_nodes nt))" and "caches_valid ifs su sd nt" and "n' \<in> set (net_nodes nt')"
  obtains n maps where "nd_id n' = nd_id n" "nd_ifaces n' = nd_ifaces n"
    "nd_curr n' = spec_table (source_context maps su n) (dst_array nt) (hop_vector g nt n)"
    "spec_ok (source_context maps su n) (zip (dst_array nt) (hop_vector g nt n))"
    "n \<in> set (gs_nodes nt) \<and> maps = fst ifs \<or> n \<in> set (sat_nodes nt) \<and> maps = snd ifs"
proof -
  have P: "map nd_curr (gs_nodes nt') = map (\<lambda>n. spec_table (source_context (fst ifs) su n) (dst_array nt) (hop_vector g nt n)) (gs_nodes nt)"
    "map nd_curr (sat_nodes nt') = map (\<lambda>n. spec_table (source_context (snd ifs) su n) (dst_array nt) (hop_vector g nt n)) (sat_nodes nt)"
    "map (\<lambda>n. (nd_id n, nd_ifaces n)) (gs_nodes nt' @ sat_nodes nt') = map (\<lambda>n. (nd_id n, nd_ifaces n)) (gs_nodes nt @ sat_nodes nt)"
    "list_all (\<lambda>n. spec_ok (source_context (fst ifs) su n) (zip (dst_array nt) (hop_vector g nt n))) (gs_nodes nt)"
    "list_all (\<lambda>n. spec_ok (source_context (snd ifs) su n) (zip (dst_array nt) (hop_vector g nt n))) (sat_nodes nt)"
    using populate_spec [OF assms(1-3)] assms(4) unfolding caches_valid_def by blast+
  have "length (gs_nodes nt') = length (gs_nodes nt)" using arg_cong [OF P(1), of length] by simp
  then have same: "map (\<lambda>n. (nd_id n, nd_ifaces n)) (gs_nodes nt') = map (\<lambda>n. (nd_id n, nd_ifaces n)) (gs_nodes nt)"
    "map (\<lambda>n. (nd_id n, nd_ifaces n)) (sat_nodes nt') = map (\<lambda>n. (nd_id n, nd_ifaces n)) (sat_nodes nt)"
    using P(3) unfolding map_append by simp_all
  from assms(5) consider "n' \<in> set (gs_nodes nt')" | "n' \<in> set (sat_nodes nt')" by (auto simp only: set_append)
  then show thesis
  proof cases
    case 1
    from unpaired [OF same(1) P(1) this] obtain n where "n \<in> set (gs_nodes nt)" "nd_id n' = nd_id n" "nd_ifaces n' = nd_ifaces n"
      "nd_curr n' = spec_table (source_context (fst ifs) su n) (dst_array nt) (hop_vector g nt n)" by blast
    with that [of n "fst ifs"] P(4) show thesis unfolding list_all_iff by blast
  next
    case 2
    from unpaired [OF same(2) P(2) this] obtain n where "n \<in> set (sat_nodes nt)" "nd_id n' = nd_id n" "nd_ifaces n' = nd_ifaces n"
      "nd_curr n' = spec_table (source_context (snd ifs) su n) (dst_array nt) (hop_vector g nt n)" by blast
    with that [of n "snd ifs"] P(5) show thesis unfolding list_all_iff by blast
  qed
qed

definition all_plugged :: "('fib \<Rightarrow> (string \<times> string) set) \<Rightarrow> (int \<Rightarrow> 'fib) \<Rightarrow> iface_maps \<Rightarrow> network \<Rightarrow> bool" where
  "all_plugged onlink K ifs nt \<longleftrightarrow> list_all (\<lambda>n. plugged onlink K nt n (dict_get (fst ifs) (nd_id n))) (gs_nodes nt)
     \<and> list_all (\<lambda>n. plugged onlink K nt n (dict_get (snd ifs) (nd_id n))) (sat_nodes nt)"

lemma all_plugged_wired: "all_plugged onlink K ifs nt \<Longrightarrow> wired ifs nt"
  unfolding all_plugged_def wired_def list_all_iff by (blast dest: plugged_gateways)

text \<open>A route that fits on one line and can be installed.\<close>

definition plain_route :: "route \<Rightarrow> bool" where
  "plain_route r \<longleftrightarrow> CHR 0x0A \<notin> set (re_destination r) \<and> plain_word (re_gateway r) \<and> plain_word (dev_name (re_iface r))"

definition installable :: "(string \<times> string) set \<Rightarrow> node \<Rightarrow> route \<Rightarrow> bool" where
  "installable reach n r \<longleftrightarrow> (re_gateway r, dev_name (re_iface r)) \<in> reach \<and> dev_name (re_iface r) \<in> set (map dev_name (nd_ifaces n))"

lemma populated_sent:
  assumes "populate_dijkstra_igraph g ifs sd nt = Inr (sd', nt')" and su: "summarize_loopbacks (net_nodes nt) = Inr su"
    and ids: "distinct (map nd_id (net_nodes nt))" and "caches_valid ifs su sd nt"
    and "distinct (map (\<lambda>x. dict_get su (nd_id x)) (dst_array nt))" and "all_plugged onlink K ifs nt"
    and "n \<in> set (net_nodes nt')"
  shows "table_ok (nd_curr n) \<and> (\<forall>r \<in> set (nd_curr n). plain_route r \<and> installable (onlink (K (nd_id n))) n r \<and> get_prefix r = ''/15'')"
proof -
  obtain n0 maps where n0: "nd_id n = nd_id n0" "nd_ifaces n = nd_ifaces n0"
    "nd_curr n = spec_table (source_context maps su n0) (dst_array nt) (hop_vector g nt n0)"
    "spec_ok (source_context maps su n0) (zip (dst_array nt) (hop_vector g nt n0))"
    "n0 \<in> set (gs_nodes nt) \<and> maps = fst ifs \<or> n0 \<in> set (sat_nodes nt) \<and> maps = snd ifs"
    by (rule populated_node [OF assms(1-4,7)])
  let ?c = "source_context maps su n0" and ?h = "\<lambda>d. next_hop_of g d n0"
  have plug: "plugged onlink K nt n0 (sc_ifaces ?c)"
    using n0(5) assms(6) unfolding all_plugged_def list_all_iff by (auto simp only: source_context_def source_ctx.simps)
  have c: "summarize_loopbacks (net_nodes nt) = Inr (sc_summarized ?c)" "sc_prefix ?c = 15" using su by (simp_all add: source_context_def)
  have dist: "distinct (map (\<lambda>x. dict_get (sc_summarized ?c) (nd_id x)) (dst_array nt))"
    using assms(5) by (simp add: source_context_def)
  note ok = n0(4) [unfolded hop_vector_def]
  have "table_ok (nd_curr n)" unfolding n0(3) hop_vector_def by (rule sent_table_ok [OF ok plug c dist])
  moreover have "plain_route r \<and> installable (onlink (K (nd_id n))) n r \<and> get_prefix r = ''/15''" if "r \<in> set (nd_curr n)" for r
    using spec_table_member [OF that [unfolded n0(3) hop_vector_def] ok] spec_route_sent [OF _ plug c]
    unfolding plain_route_def installable_def n0(1,2) by blast
  ultimately show ?thesis by blast
qed

text \<open>What populating does to caches and previous tables: a table that is kept is the cached one.\<close>

definition tracked :: "static_daemon \<Rightarrow> static_daemon \<Rightarrow> node \<Rightarrow> node \<Rightarrow> bool" where
  "tracked sd sd' n n' \<longleftrightarrow> nd_id n' = nd_id n \<and> nd_ifaces n' = nd_ifaces n
     \<and> (if nd_aliased n' then \<exists>es. dict_get (sd_entries sd) (nd_id n) = Some es \<and> nd_curr n' = map snd es else nd_prev n' = nd_prev n)
     \<and> (\<exists>es. dict_get (sd_entries sd') (nd_id n) = Some es \<and> nd_curr n' = map snd es)"

lemma install_tracked:
  assumes "install_source_routes c dsts sig sd n = Inr (sd', n')" and "cache_valid c dsts sd (nd_id n)" and "distinct (map nd_id dsts)"
  shows "tracked sd sd' n n'" and "k \<noteq> nd_id n \<Longrightarrow> dict_get (sd_entries sd') k = dict_get (sd_entries sd) k"
proof -
  let ?src = "nd_id n"
  show "k \<noteq> ?src \<Longrightarrow> dict_get (sd_entries sd') k = dict_get (sd_entries sd) k"
    using assms(1) by (auto simp: install_source_routes_def Let_def split: if_splits)
  show "tracked sd sd' n n'"
  proof (cases "Some sig = dict_get (sd_signatures sd) ?src \<and> dict_get (sd_entries sd) ?src \<noteq> None")
    case True
    then obtain es where es: "Some sig = dict_get (sd_signatures sd) ?src" "dict_get (sd_entries sd) ?src = Some es" by auto
    then have v: "es = spec_entries c (zip dsts sig)" using assms(2) by (auto simp: cache_valid_def split: option.splits)
    show ?thesis using assms(1) install_fast [OF es, of c dsts] fast_path_table [OF assms(3), of c sig] es(2)
      unfolding v by (auto simp: tracked_def Let_def spec_table_def)
  next
    case False
    let ?cached = "case dict_get (sd_entries sd) ?src of Some d \<Rightarrow> d | None \<Rightarrow> []"
    have ok: "cached_ok ?cached" using assms(2) by (auto simp: cache_valid_def cached_ok_def split: option.splits)
    obtain es t where b: "build_entries c ?cached (zip dsts sig) [] [] = Inr (es, t)"
      "sd' = sd\<lparr>sd_entries := dict_set ?src es (sd_entries sd), sd_signatures := dict_set ?src sig (sd_signatures sd)\<rparr>"
      "n' = n\<lparr>nd_curr := t, nd_aliased := False\<rparr>"
      using assms(1) False by (auto simp: install_source_routes_def Let_def)
    have "distinct (map (\<lambda>q. nd_id (fst q)) (zip dsts sig))"
      using assms(3) by (induction dsts sig rule: list_induct2') (auto dest: set_zip_leftD)
    then have "t = map snd es" using build_entries_spec [OF b(1) ok] by auto
    then show ?thesis by (simp add: tracked_def b(2,3))
  qed
qed

lemma tracked_cong: "\<lbrakk>tracked sd1 sd2 n n'; dict_get (sd_entries sd3) (nd_id n) = dict_get (sd_entries sd1) (nd_id n);
    dict_get (sd_entries sd4) (nd_id n) = dict_get (sd_entries sd2) (nd_id n)\<rbrakk> \<Longrightarrow> tracked sd3 sd4 n n'"
  by (cases "nd_aliased n'") (simp_all add: tracked_def)

lemma prune_get: "k \<in> set active \<Longrightarrow> dict_get (sd_entries (prune_caches active sd)) k = dict_get (sd_entries sd) k"
  using dict_get_filter_key [of k "set active"] by (simp add: prune_caches_def)

lemma thread_tracked:
  assumes "thread_nodes (\<lambda>sd n. install_source_routes (ctx n) dsts (sig n) sd n) sd d = Inr (sd', d')"
    and "distinct (map nd_id (dict_vals d))" "list_all (\<lambda>n. cache_valid (ctx n) dsts sd (nd_id n)) (dict_vals d)"
    and "distinct (map nd_id dsts)"
  shows "list_all2 (tracked sd sd') (dict_vals d) (dict_vals d') \<and>
    (\<forall>k. k \<notin> nd_id ` set (dict_vals d) \<longrightarrow> dict_get (sd_entries sd') k = dict_get (sd_entries sd) k)"
  using assms
proof (induction d arbitrary: sd d')
  case (Cons p d)
  obtain k n where p: "p = (k, n)" by (cases p)
  from Cons.prems(1) p obtain sd1 n1 d1 where i: "install_source_routes (ctx n) dsts (sig n) sd n = Inr (sd1, n1)"
    and t: "thread_nodes (\<lambda>sd n. install_source_routes (ctx n) dsts (sig n) sd n) sd1 d = Inr (sd', d1)"
    and d': "d' = (k, n1) # d1" by auto
  have v: "cache_valid (ctx n) dsts sd (nd_id n)" using Cons.prems(3) p by simp
  note tr = install_tracked [OF i v Cons.prems(4)]
  have dist: "nd_id n \<notin> nd_id ` set (dict_vals d)" "distinct (map nd_id (dict_vals d))"
    using Cons.prems(2) p by auto
  have other: "nd_id m \<noteq> nd_id n" if "m \<in> set (dict_vals d)" for m using dist(1) that by (metis imageI)
  have "list_all (\<lambda>n. cache_valid (ctx n) dsts sd1 (nd_id n)) (dict_vals d)"
    using Cons.prems(3) install_source_routes_frame [OF i other] unfolding p list_all_iff by auto
  note IH = Cons.IH [OF t dist(2) this Cons.prems(4)]
  have "tracked sd sd' n n1" using tr(1) IH dist(1) unfolding tracked_def by simp
  moreover have "list_all2 (tracked sd sd') (dict_vals d) (dict_vals d1)"
  proof (rule list.rel_mono_strong [OF IH [THEN conjunct1]])
    fix m m' assume m: "m \<in> set (dict_vals d)" "tracked sd1 sd' m m'"
    show "tracked sd sd' m m'" by (rule tracked_cong [OF m(2) tr(2) [OF other [OF m(1)], symmetric] refl])
  qed
  ultimately show ?case using IH tr(2) p d' by simp
qed simp

lemma populate_tracked:
  assumes "populate_dijkstra_igraph g ifs sd nt = Inr (sd', nt')" and su: "summarize_loopbacks (net_nodes nt) = Inr su"
    and ids: "distinct (map nd_id (net_nodes nt))" and "caches_valid ifs su sd nt"
  shows "list_all2 (tracked sd sd') (net_nodes nt) (net_nodes nt')"
proof -
  let ?ds = "dst_array nt"
  obtain hops where hops: "rmap (\<lambda>dst. igraph_next_hops g (nd_id dst)) ?ds = Inr hops"
    using assms(1) by (auto simp: populate_dijkstra_igraph_def Let_def)
  note dd = dst_array_distinct [OF ids]
  note sig = hop_vector_signature [OF hops(1) dd]
  let ?f = "\<lambda>maps sd n. install_source_routes (source_context maps su n) ?ds (hop_vector g nt n) sd n"
  obtain sd1 gss sd2 sats where t: "thread_nodes (?f (fst ifs)) sd (nt_gss nt) = Inr (sd1, gss)"
    "thread_nodes (?f (snd ifs)) sd1 (nt_sats nt) = Inr (sd2, sats)" "nt' = nt\<lparr>nt_gss := gss, nt_sats := sats\<rparr>"
    "sd' = prune_caches (map nd_id (gs_nodes nt) @ map nd_id (sat_nodes nt)) sd2"
  proof -
    have "rbind (thread_nodes (?f (fst ifs)) sd (nt_gss nt)) (\<lambda>(sd1, gss').
        rbind (thread_nodes (?f (snd ifs)) sd1 (nt_sats nt)) (\<lambda>(sd2, sats').
        Inr (prune_caches (map nd_id (gs_nodes nt) @ map nd_id (sat_nodes nt)) sd2,
             nt\<lparr>nt_gss := gss', nt_sats := sats'\<rparr>))) = Inr (sd', nt')"
      using assms(1) unfolding populate_dijkstra_igraph_def Let_def hops su rbind.simps sig .
    then show thesis by (elim rbind_InrE) (auto intro!: that split: prod.splits)
  qed
  have d: "distinct (map nd_id (gs_nodes nt))" "distinct (map nd_id (sat_nodes nt))"
    "nd_id ` set (gs_nodes nt) \<inter> nd_id ` set (sat_nodes nt) = {}" using ids by (auto simp: distinct_map)
  have cv: "list_all (\<lambda>n. cache_valid (source_context (fst ifs) su n) ?ds sd (nd_id n)) (gs_nodes nt)"
    "list_all (\<lambda>n. cache_valid (source_context (snd ifs) su n) ?ds sd (nd_id n)) (sat_nodes nt)"
    using assms(4) by (simp_all only: caches_valid_def)
  note G = thread_tracked [OF t(1) d(1) cv(1) dd]
  have sep: "nd_id m \<notin> nd_id ` set (gs_nodes nt)" if "m \<in> set (sat_nodes nt)" for m using d(3) that by blast
  have "list_all (\<lambda>n. cache_valid (source_context (snd ifs) su n) ?ds sd1 (nd_id n)) (sat_nodes nt)"
    using cv(2) thread_nodes_spec [OF t(1) d(1) cv(1) dd] sep unfolding list_all_iff by blast
  note S = thread_tracked [OF t(2) d(2) this dd]
  have pr: "dict_get (sd_entries sd') (nd_id m) = dict_get (sd_entries sd2) (nd_id m)" if "m \<in> set (net_nodes nt)" for m
  proof -
    have "nd_id m \<in> set (map nd_id (gs_nodes nt) @ map nd_id (sat_nodes nt))" using that unfolding map_append [symmetric] set_map by (rule imageI)
    then show ?thesis unfolding t(4) by (rule prune_get)
  qed
  have "list_all2 (tracked sd sd') (gs_nodes nt) (dict_vals gss)"
  proof (rule list.rel_mono_strong [OF G [THEN conjunct1]])
    fix m m' assume m: "m \<in> set (gs_nodes nt)" "tracked sd sd1 m m'"
    then have "nd_id m \<notin> nd_id ` set (sat_nodes nt)" using d(3) by blast
    then have "dict_get (sd_entries sd') (nd_id m) = dict_get (sd_entries sd1) (nd_id m)" using pr [of m] S m(1) unfolding set_append by simp
    then show "tracked sd sd' m m'" by (rule tracked_cong [OF m(2) refl])
  qed
  moreover have "list_all2 (tracked sd sd') (sat_nodes nt) (dict_vals sats)"
  proof (rule list.rel_mono_strong [OF S [THEN conjunct1]])
    fix m m' assume m: "m \<in> set (sat_nodes nt)" "tracked sd1 sd2 m m'"
    have "dict_get (sd_entries sd1) (nd_id m) = dict_get (sd_entries sd) (nd_id m)" using G sep [OF m(1)] by blast
    moreover have "dict_get (sd_entries sd') (nd_id m) = dict_get (sd_entries sd2) (nd_id m)" using pr [of m] m(1) unfolding set_append by simp
    ultimately show "tracked sd sd' m m'" using tracked_cong [OF m(2)] by simp
  qed
  ultimately have "list_all2 (tracked sd sd') (net_nodes nt) (dict_vals gss @ dict_vals sats)" by (rule list_all2_appendI)
  then show ?thesis by (simp add: t(3))
qed

text \<open>Tables and kernels of a network in step: a kernel has the routes of the table whose devices exist, and
  what is cached for a node is its table.\<close>

definition synced :: "('fib \<Rightarrow> string \<Rightarrow> (string \<times> string) option) \<Rightarrow> (int \<Rightarrow> 'fib) \<Rightarrow> static_daemon \<Rightarrow> network \<Rightarrow> bool" where
  "synced lookup K sd nt \<longleftrightarrow> list_all (\<lambda>n. table_ok (nd_curr n) \<and> list_all plain_route (nd_curr n)
     \<and> lookup (K (nd_id n)) = live_fib (map dev_name (nd_ifaces n)) (nd_curr n)
     \<and> (case dict_get (sd_entries sd) (nd_id n) of None \<Rightarrow> True | Some es \<Rightarrow> nd_curr n = map snd es)) (net_nodes nt)"

lemma syncedD:
  assumes "synced lookup K sd nt" "n \<in> set (net_nodes nt)"
  shows "table_ok (nd_curr n)" "list_all plain_route (nd_curr n)" "lookup (K (nd_id n)) = live_fib (map dev_name (nd_ifaces n)) (nd_curr n)"
    "dict_get (sd_entries sd) (nd_id n) = Some es \<Longrightarrow> nd_curr n = map snd es"
  using assms unfolding synced_def list_all_iff by (auto simp only: option.case)

lemma live_all: "\<forall>r \<in> set tbl. dev_name (re_iface r) \<in> set live \<Longrightarrow> live_fib live tbl = table_fib tbl"
  by (rule ext) (auto simp: live_fib_def table_fib_def route_triple_def dest!: map_of_SomeD split: option.splits)

lemma route_line_one_line: "\<lbrakk>plain_word opr; plain_route r\<rbrakk> \<Longrightarrow> CHR 0x0A \<notin> set (route_line opr r)"
  by (auto simp: route_line_def plain_route_def plain_word_def get_prefix_def dec_int_plain)

context container_kernel
begin

text \<open>A batch takes a node from its previous table to the current one.\<close>

lemma job_installs:
  assumes "table_ok (nd_prev n)" "table_ok (nd_curr n)" "\<not> nd_aliased n" "list_all plain_route (nd_prev n)" "list_all plain_route (nd_curr n)"
    and "lookup f = live_fib (map dev_name (nd_ifaces n)) (nd_prev n)" "list_all (installable (onlink f) n) (nd_curr n)"
  shows "lookup (if snd (node_job n) = [] then f else sh (exec_batch (snd (node_job n))) f) = table_fib (nd_curr n)"
proof -
  let ?live = "map dev_name (nd_ifaces n)"
  have job: "snd (node_job n) = emit_batch_commands False (nd_prev n) (nd_curr n) (Some ?live)" by (simp add: node_job_def assms(3))
  have "lookup (run_batch exec (snd (node_job n)) f) = table_fib (nd_curr n)"
    unfolding job by (rule batch_installs [OF assms(1,2,6)])
      (use assms(7) in \<open>simp add: installable_def list_all_iff route_triple_def\<close>)
  moreover have "sh (exec_batch (snd (node_job n))) f = run_batch exec (snd (node_job n)) f" if "snd (node_job n) \<noteq> []"
  proof (rule sh_exec_batch [OF that])
    have "plain_word ''replace''" "plain_word ''del''" by (simp_all add: plain_word_def)
    then show "\<forall>l \<in> set (snd (node_job n)). CHR 0x0A \<notin> set l"
      unfolding job emit_routes [OF assms(1,2)] using assms(4,5) route_line_one_line
      by (auto simp: list_all_iff removed_routes_def added_routes_def)
  qed
  ultimately show ?thesis by (cases "snd (node_job n) = []") simp_all
qed

lemma jobs_install:
  assumes "distinct (map nd_id (net_nodes nt))" "n \<in> set (net_nodes nt)" and "table_ok (nd_curr n)"
    and "\<forall>r \<in> set (nd_curr n). plain_route r \<and> installable (onlink (K (nd_id n))) n r \<and> get_prefix r = ''/15''"
    and "if nd_aliased n then lookup (K (nd_id n)) = live_fib (map dev_name (nd_ifaces n)) (nd_curr n)
      else table_ok (nd_prev n) \<and> list_all plain_route (nd_prev n) \<and> lookup (K (nd_id n)) = live_fib (map dev_name (nd_ifaces n)) (nd_prev n)"
  shows "lookup (run_jobs sh (filter (\<lambda>(n, lines). lines \<noteq> []) (map node_job (net_nodes nt))) K (nd_id n)) = table_fib (nd_curr n)"
proof (cases "nd_aliased n")
  case True
  then have "snd (node_job n) = []" by (simp add: node_job_def emit_batch_commands_def)
  then show ?thesis unfolding run_jobs_node [OF assms(1,2)] using assms(4,5) True live_all [of "nd_curr n"] by (simp add: installable_def)
next
  case False
  with assms show ?thesis unfolding run_jobs_node [OF assms(1,2)] by (intro job_installs) (simp_all add: list_all_iff)
qed

end

text \<open>Kernels with the tables forward as the tables do.\<close>

lemma find_fib:
  assumes "List.find (\<lambda>r. re_destination r = net) tbl = Some r" "\<forall>r \<in> set tbl. get_prefix r = ''/15''"
  shows "table_fib tbl (net @ ''/15'') = Some (re_gateway r, dev_name (re_iface r))"
  using assms by (induction tbl) (auto simp: table_fib_def route_triple_def split: if_splits)

lemma kernels_follow:
  assumes "\<And>n. n \<in> set (net_nodes nt) \<Longrightarrow> lookup (K (nd_id n)) = table_fib (nd_curr n) \<and> (\<forall>r \<in> set (nd_curr n). get_prefix r = ''/15'')"
    and "forward nt ip k = Some j"
  shows "kernel_forward lookup K nt ip k = Some j"
proof -
  from assms(2) obtain tbl r where t: "table_at nt k = Some tbl" "route_lookup tbl ip = Some r" "owner nt (re_gateway r) = Some j"
    by (auto simp: forward_def split: option.splits)
  then obtain net where net: "summarize_ipv4_address ip 15 = Inr net" "List.find (\<lambda>r. re_destination r = net) tbl = Some r"
    by (auto simp: route_lookup_def split: sum.splits)
  have "(k, tbl) \<in> set (map (\<lambda>n. (nd_id n, nd_curr n)) (net_nodes nt))" using t(1) unfolding table_at_def by (rule map_of_SomeD)
  then obtain n where "n \<in> set (net_nodes nt)" "nd_id n = k" "nd_curr n = tbl" unfolding set_map by auto
  then have "lookup (K k) = table_fib tbl" "\<forall>r \<in> set tbl. get_prefix r = ''/15''" using assms(1) by blast+
  then show ?thesis using find_fib [OF net(2)] t(3) by (simp add: kernel_forward_def net(1))
qed

lemma travel_mono:
  "\<lbrakk>travel fuel hop d k = Some p; \<And>k j. hop k = Some j \<Longrightarrow> hop' k = Some j\<rbrakk> \<Longrightarrow> travel fuel hop' d k = Some p"
proof (induction fuel arbitrary: k p)
  case (Suc fuel)
  show ?case
  proof (cases "k = d")
    case False
    with Suc.prems(1) obtain j q where "hop k = Some j" "travel fuel hop d j = Some q" "p = k # q"
      by (subst (asm) travel.simps) (auto split: option.splits)
    then show ?thesis using Suc.IH [OF _ Suc.prems(2)] Suc.prems(2) False by (subst travel.simps) simp
  qed (use Suc.prems in \<open>simp add: travel.simps\<close>)
qed (simp add: travel.simps split: if_splits)

section \<open>From a run of the daemon to packets\<close>

lemma rmap_map: "rmap f (map g xs) = rmap (\<lambda>x. f (g x)) xs"
  by (induction xs) simp_all

lemma equalize_network:
  "net_nodes (equalize_routing_tables nt) = map equalize_node (net_nodes nt)"
  "dst_array (equalize_routing_tables nt) = map equalize_node (dst_array nt)"
  "summarize_loopbacks (map equalize_node ns) = summarize_loopbacks ns"
  "owner (equalize_routing_tables nt) = owner nt"
  unfolding dst_array_def addressable_sats_def owner_def summarize_loopbacks_def rmap_map equalize_nodes
  by (simp_all add: filter_map comp_def fun_eq_iff)

lemma equalize_plugged:
  assumes "all_plugged onlink K ifs nt"
  shows "all_plugged onlink K ifs (equalize_routing_tables nt)"
proof -
  have "plugged onlink K (equalize_routing_tables nt) (equalize_node n) m = plugged onlink K nt n m" for n m
    unfolding plugged_def equalize_keeps equalize_network(4) ..
  then show ?thesis using assms unfolding all_plugged_def equalize_nodes list_all_iff by simp
qed

lemma equalize_caches:
  assumes "caches_valid ifs su sd nt" "sd_entries sd1 = sd_entries sd" "sd_signatures sd1 = sd_signatures sd"
  shows "caches_valid ifs su sd1 (equalize_routing_tables nt)"
proof -
  have r: "spec_route c (equalize_node x) k = spec_route c x k" for c x k
    unfolding spec_route.simps equalize_keeps ..
  have e: "spec_entries c (zip (map equalize_node dsts) sig) = spec_entries c (zip dsts sig)" for c dsts sig
    by (simp add: spec_entries_def zip_map1 filter_map comp_def split_def r)
  have o: "spec_ok c (zip (map equalize_node dsts) sig) = spec_ok c (zip dsts sig)" for c dsts sig
    by (simp add: spec_ok_def zip_map1 list.pred_map comp_def split_def r cong: option.case_cong)
  have s: "source_context maps su (equalize_node n) = source_context maps su n" for maps n by (simp add: source_context_def)
  have "cache_valid c (map equalize_node dsts) sd1 k = cache_valid c dsts sd k" for c dsts k
    unfolding cache_valid_def e o assms(2,3) ..
  then show ?thesis using assms(1) unfolding caches_valid_def equalize_nodes equalize_network(2)
    by (simp add: list.pred_map comp_def s)
qed

lemma static_update_igraph:
  assumes "static_update raw g sd nt = Inr (sd', nt', jobs)" "\<not> nt_file_routes nt" "nt_status nt"
  obtains sd1 where "populate_dijkstra_igraph g (fst (prebuild_iface_maps nt sd)) sd1 (equalize_routing_tables nt) = Inr (sd', nt')"
    "sd_signatures sd1 = sd_signatures sd" "sd_entries sd1 = sd_entries sd"
    "jobs = filter (\<lambda>(n, lines). lines \<noteq> []) (map node_job (net_nodes nt'))"
proof -
  let ?p = "prebuild_iface_maps (equalize_routing_tables nt) sd"
  have nodes: "dict_vals (nt_gss (equalize_routing_tables nt)) = map equalize_node (gs_nodes nt)"
    "dict_vals (nt_sats (equalize_routing_tables nt)) = map equalize_node (sat_nodes nt)" by (rule equalize_nodes)+
  have e: "peer_iface_map (equalize_node n) = peer_iface_map n" for n by (simp add: peer_iface_map_def)
  have v: "nt_iface_version (equalize_routing_tables nt) = nt_iface_version nt" "nt_status (equalize_routing_tables nt) = nt_status nt"
    "nt_file_routes (equalize_routing_tables nt) = nt_file_routes nt" by (simp_all add: equalize_routing_tables_def)
  have same: "fst ?p = fst (prebuild_iface_maps nt sd)"
    unfolding prebuild_iface_maps_def nodes v by (simp add: e comp_def Let_def split: option.splits)
  have sd1: "sd_signatures (snd ?p) = sd_signatures sd" "sd_entries (snd ?p) = sd_entries sd"
    by (simp_all add: prebuild_iface_maps_def Let_def split: option.splits)
  from assms have p: "populate_dijkstra_igraph g (fst ?p) (snd ?p) (equalize_routing_tables nt) = Inr (sd', nt')"
    and j: "jobs = (if nt_status nt' then apply_ground_station_routes nt' @ apply_satellite_routes nt' else [])"
    by (auto simp: static_update_def populate_routing_tables_def Let_def v split_def)
  have "nt_status nt'" using p assms(3) by (auto simp: populate_dijkstra_igraph_def Let_def v elim!: rbind_InrE split: prod.splits)
  then show thesis
    by (intro that [OF p [unfolded same] sd1]) (simp add: j apply_ground_station_routes_def apply_satellite_routes_def)
qed

text \<open>Both operations populate the equalised network, so that the graph, the destinations and the
  addresses are those of the network itself.\<close>

lemma populated_delivers:
  assumes p: "populate_dijkstra_igraph g ifs sd1 (equalize_routing_tables nt) = Inr (sd', nt1)"
    and "summarize_loopbacks (net_nodes nt) = Inr su" and "distinct (map nd_id (net_nodes nt))"
    and "distinct (map (\<lambda>x. dict_get su (nd_id x)) (dst_array nt))"
    and "caches_valid ifs su sd1 (equalize_routing_tables nt)" and "wired ifs (equalize_routing_tables nt)"
    and "shortest_trees w (length (fst g)) (snd g)" and "distinct (fst g)"
    and "dst \<in> set (dst_array nt)" and "dict_get su (nd_id dst) = Some net" and "summarize_ipv4_address ip 15 = Inr net"
    and "src \<in> set (net_nodes nt)" and "i < length (fst g)" "fst g ! i = nd_id src" and "d < length (fst g)" "fst g ! d = nd_id dst"
    and "snd g d ! i \<noteq> []" and hop: "\<And>k j. forward nt1 ip k = Some j \<Longrightarrow> hop k = Some j"
  shows "\<exists>p. travel (length (fst g)) hop (nd_id dst) (nd_id src) = Some (map ((!) (fst g)) (rev p))
    \<and> hd p = d \<and> last p = i \<and> shortest_walk w p \<and> distinct (map ((!) (fst g)) (rev p))"
proof -
  let ?nt = "equalize_routing_tables nt"
  have su: "summarize_loopbacks (net_nodes ?nt) = Inr su" unfolding equalize_network by (rule assms(2))
  have ids: "distinct (map nd_id (net_nodes ?nt))" unfolding equalize_network using assms(3) by (simp add: comp_def del: map_append)
  have inj: "\<forall>x \<in> set (dst_array ?nt). dict_get su (nd_id x) = dict_get su (nd_id (equalize_node dst)) \<longrightarrow> nd_id x = nd_id (equalize_node dst)"
    using assms(4,9) unfolding equalize_network by (auto simp: distinct_map dest: inj_onD)
  have ends: "equalize_node dst \<in> set (dst_array ?nt)" "equalize_node src \<in> set (net_nodes ?nt)"
    using assms(9,12) unfolding equalize_network set_map by blast+
  obtain q where q: "travel (length (fst g)) (forward nt1 ip) (nd_id dst) (nd_id src) = Some (map ((!) (fst g)) (rev q))"
    "hd q = d" "last q = i" "shortest_walk w q" "distinct (map ((!) (fst g)) (rev q))"
    using tables_deliver [OF p su ids _ _ assms(7,8,6) ends(1) inj _ assms(11) ends(2) assms(13) _ assms(15) _ assms(17)]
      assms(5,10,14,16) unfolding equalize_keeps caches_valid_def by blast
  have "travel (length (fst g)) hop (nd_id dst) (nd_id src) = Some (map ((!) (fst g)) (rev q))"
    by (rule travel_mono [OF q(1) hop])
  then show ?thesis using q(2-5) by blast
qed

lemma list_all2_set2: "list_all2 P xs ys \<Longrightarrow> y \<in> set ys \<Longrightarrow> \<exists>x \<in> set xs. P x y"
  by (metis in_set_conv_nth list_all2_conv_all_nth)

lemma tracked_ids:
  assumes "list_all2 (tracked sd sd') ns ns'"
  shows "map (\<lambda>n. (nd_id n, nd_ifaces n)) ns' = map (\<lambda>n. (nd_id n, nd_ifaces n)) ns" "map nd_id ns' = map nd_id ns"
proof -
  show "map (\<lambda>n. (nd_id n, nd_ifaces n)) ns' = map (\<lambda>n. (nd_id n, nd_ifaces n)) ns"
    using assms by (induction rule: list_all2_induct) (auto simp: tracked_def)
  then show "map nd_id ns' = map nd_id ns" by (rule map_map_fst_ids)
qed

context container_kernel
begin

lemma update_syncs:
  assumes p: "populate_dijkstra_igraph g ifs sd1 (equalize_routing_tables nt) = Inr (sd', nt')" "sd_entries sd1 = sd_entries sd"
    and su: "summarize_loopbacks (net_nodes (equalize_routing_tables nt)) = Inr su"
    and ids: "distinct (map nd_id (net_nodes (equalize_routing_tables nt)))"
    and dist: "distinct (map (\<lambda>x. dict_get su (nd_id x)) (dst_array (equalize_routing_tables nt)))"
    and cv: "caches_valid ifs su sd1 (equalize_routing_tables nt)" and plug: "all_plugged onlink K ifs (equalize_routing_tables nt)"
    and "synced lookup K sd nt"
    and jobs: "jobs = filter (\<lambda>(n, lines). lines \<noteq> []) (map node_job (net_nodes nt'))"
    and n: "n \<in> set (net_nodes nt')"
  shows "lookup (run_jobs sh jobs K (nd_id n)) = table_fib (nd_curr n) \<and> (\<forall>r \<in> set (nd_curr n). get_prefix r = ''/15'')"
proof -
  note tr = populate_tracked [OF p(1) su ids cv]
  note sent = populated_sent [OF p(1) su ids cv dist plug n]
  have ids': "distinct (map nd_id (net_nodes nt'))" unfolding tracked_ids(2) [OF tr] by (rule ids)
  obtain n0 where n0: "n0 \<in> set (net_nodes (equalize_routing_tables nt))" "tracked sd1 sd' n0 n"
    using list_all2_set2 [OF tr n] by blast
  then obtain m where m: "m \<in> set (net_nodes nt)" "n0 = equalize_node m" unfolding equalize_network set_map by blast
  note s = syncedD [OF assms(8) m(1)]
  have t: "nd_id n = nd_id m" "nd_ifaces n = nd_ifaces m" "if nd_aliased n then nd_curr n = nd_curr m else nd_prev n = nd_curr m"
    using n0(2) s(4) p(2) unfolding tracked_def m(2) by (auto simp: equalize_node_def split: if_splits)
  have "if nd_aliased n then lookup (K (nd_id n)) = live_fib (map dev_name (nd_ifaces n)) (nd_curr n)
      else table_ok (nd_prev n) \<and> list_all plain_route (nd_prev n) \<and> lookup (K (nd_id n)) = live_fib (map dev_name (nd_ifaces n)) (nd_prev n)"
    using s(1-3) t by (auto split: if_splits)
  from jobs_install [where K = K, OF ids' n _ _ this] sent show ?thesis unfolding jobs by blast
qed

lemma init_syncs:
  assumes p: "populate_dijkstra_igraph g ifs sd1 nt = Inr (sd', nt1)" "sd_signatures sd1 = []" "sd_entries sd1 = []"
    and nt2: "gs_nodes nt2 = map clear_previous (gs_nodes nt1)" "sat_nodes nt2 = map clear_previous (sat_nodes nt1)"
    and su: "summarize_loopbacks (net_nodes nt) = Inr su" and ids: "distinct (map nd_id (net_nodes nt))"
    and dist: "distinct (map (\<lambda>x. dict_get su (nd_id x)) (dst_array nt))" and plug: "all_plugged onlink K ifs nt"
    and bare: "\<And>k. lookup (K k) = (\<lambda>_. None)"
    and jobs: "jobs = filter (\<lambda>(n, lines). lines \<noteq> []) (map node_job (net_nodes nt2))"
    and n: "n \<in> set (net_nodes nt2)"
  shows "lookup (run_jobs sh jobs K (nd_id n)) = table_fib (nd_curr n) \<and> (\<forall>r \<in> set (nd_curr n). get_prefix r = ''/15'')"
proof -
  note cv = caches_valid_empty [OF p(3), of ifs su nt]
  have nodes: "net_nodes nt2 = map clear_previous (net_nodes nt1)" unfolding nt2 by simp
  from n obtain n1 where n1: "n1 \<in> set (net_nodes nt1)" "n = clear_previous n1" unfolding nodes set_map by blast
  have fresh: "\<not> nd_aliased n1" using populate_fresh [OF p(1) ids p(2)] n1(1) unfolding list_all_iff by blast
  note sent = populated_sent [OF p(1) su ids cv dist plug n1(1)]
  have "map nd_id (net_nodes nt2) = map nd_id (net_nodes nt1)" unfolding nodes by simp
  then have ids': "distinct (map nd_id (net_nodes nt2))" unfolding tracked_ids(2) [OF populate_tracked [OF p(1) su ids cv]] using ids by simp
  have "if nd_aliased n then lookup (K (nd_id n)) = live_fib (map dev_name (nd_ifaces n)) (nd_curr n)
      else table_ok (nd_prev n) \<and> list_all plain_route (nd_prev n) \<and> lookup (K (nd_id n)) = live_fib (map dev_name (nd_ifaces n)) (nd_prev n)"
    using fresh by (simp add: n1(2) bare table_ok_def live_fib_def table_fib_def fun_eq_iff)
  from jobs_install [where K = K, OF ids' n _ _ this] sent fresh show ?thesis unfolding jobs by (simp add: n1(2) installable_def)
qed

end

text \<open>The state after a run is in step again.\<close>

lemma tracked_entries:
  "\<lbrakk>list_all2 (tracked sd sd') ns ns'; n \<in> set ns'\<rbrakk> \<Longrightarrow>
    case dict_get (sd_entries sd') (nd_id n) of None \<Rightarrow> True | Some es \<Rightarrow> nd_curr n = map snd es"
  using list_all2_set2 by (fastforce simp: tracked_def)

lemma synced_after:
  assumes "\<And>n. n \<in> set (net_nodes nt) \<Longrightarrow> case dict_get (sd_entries sd') (nd_id n) of None \<Rightarrow> True | Some es \<Rightarrow> nd_curr n = map snd es"
    and "\<And>n. n \<in> set (net_nodes nt) \<Longrightarrow> table_ok (nd_curr n) \<and> (\<forall>r \<in> set (nd_curr n). plain_route r \<and> installable (R n) n r \<and> get_prefix r = ''/15'')"
    and "\<And>n. n \<in> set (net_nodes nt) \<Longrightarrow> lookup (K (nd_id n)) = table_fib (nd_curr n) \<and> (\<forall>r \<in> set (nd_curr n). get_prefix r = ''/15'')"
  shows "synced lookup K sd' nt"
  unfolding synced_def list_all_iff
proof
  fix n assume n: "n \<in> set (net_nodes nt)"
  have "live_fib (map dev_name (nd_ifaces n)) (nd_curr n) = table_fib (nd_curr n)"
    by (rule live_all) (use assms(2) [OF n] in \<open>simp add: installable_def\<close>)
  then show "table_ok (nd_curr n) \<and> (\<forall>r \<in> set (nd_curr n). plain_route r) \<and>
      lookup (K (nd_id n)) = live_fib (map dev_name (nd_ifaces n)) (nd_curr n) \<and>
      (case dict_get (sd_entries sd') (nd_id n) of None \<Rightarrow> True | Some es \<Rightarrow> nd_curr n = map snd es)"
    using assms(2,3) [OF n] assms(1) [OF n] by simp
qed

text \<open>
  \<^bold>\<open>C4.\<close> Once the static daemon has started, packets arrive. The kernels of the containers, which
  had no routes, execute the batches that \<open>init\<close> sends them through their shells and are in step with
  the tables; a packet for a ground station or an addressable satellite that every kernel forwards by
  its own routes then reaches that node from every node the graph connects to it, without visiting a
  node twice and along a walk of least cost. Relied on are shortest paths from the path library,
  devices that exist and reach the neighbours they are recorded for, and different network addresses
  of destinations.
\<close>

theorem static_init_delivers:
  assumes "container_kernel lookup onlink exec sh"
    and "static_init raw g sd nt = Inr (sd', nt', jobs, started)" and "\<not> nt_file_routes nt"
    and "summarize_loopbacks (net_nodes nt) = Inr su" and "distinct (map nd_id (net_nodes nt))"
    and "distinct (map (\<lambda>x. dict_get su (nd_id x)) (dst_array nt))"
    and "all_plugged onlink K (fst (prebuild_iface_maps nt sd)) nt" and "\<And>k. lookup (K k) = (\<lambda>_. None)"
    and "shortest_trees w (length (fst g)) (snd g)" and "distinct (fst g)"
    and "dst \<in> set (dst_array nt)" and "dict_get su (nd_id dst) = Some net" and "summarize_ipv4_address ip 15 = Inr net"
    and "src \<in> set (net_nodes nt)" and "i < length (fst g)" "fst g ! i = nd_id src" and "d < length (fst g)" "fst g ! d = nd_id dst"
    and "snd g d ! i \<noteq> []"
  shows "synced lookup (run_jobs sh jobs K) sd' nt' \<and>
    (\<exists>p. travel (length (fst g)) (kernel_forward lookup (run_jobs sh jobs K) nt' ip) (nd_id dst) (nd_id src)
        = Some (map ((!) (fst g)) (rev p))
      \<and> hd p = d \<and> last p = i \<and> shortest_walk w p \<and> distinct (map ((!) (fst g)) (rev p)))"
proof -
  let ?nt = "equalize_routing_tables nt" and ?ifs = "fst (prebuild_iface_maps nt sd)"
  obtain sd1 nt1 where p: "populate_dijkstra_igraph g ?ifs sd1 ?nt = Inr (sd', nt1)" "sd_signatures sd1 = []" "sd_entries sd1 = []"
    and nt': "gs_nodes nt' = map clear_previous (gs_nodes nt1)" "sat_nodes nt' = map clear_previous (sat_nodes nt1)"
    and jobs: "jobs = filter (\<lambda>(n, lines). lines \<noteq> []) (map node_job (net_nodes nt'))"
    by (rule static_init_igraph [OF assms(2,3)])
  have su: "summarize_loopbacks (net_nodes ?nt) = Inr su" unfolding equalize_network by (rule assms(4))
  have ids: "distinct (map nd_id (net_nodes ?nt))" unfolding equalize_network using assms(5) by (simp add: comp_def del: map_append)
  have dist: "distinct (map (\<lambda>x. dict_get su (nd_id x)) (dst_array ?nt))" using assms(6) by (simp add: equalize_network comp_def)
  note cv = caches_valid_empty [OF p(3), of ?ifs su ?nt] and plug = equalize_plugged [OF assms(7)]
  note kernels = container_kernel.init_syncs [OF assms(1) p nt' su ids dist plug assms(8) jobs]
  have fresh: "\<not> nd_aliased n" if "n \<in> set (net_nodes nt1)" for n using populate_fresh [OF p(1) ids p(2)] that unfolding list_all_iff by blast
  have nodes: "net_nodes nt' = map clear_previous (net_nodes nt1)" unfolding nt' by simp
  have "map (\<lambda>n. (nd_id n, nd_curr n)) (net_nodes nt') = map (\<lambda>n. (nd_id n, nd_curr n)) (net_nodes nt1)"
    unfolding nodes map_map by (rule map_cong [OF refl]) (simp add: fresh del: set_append)
  moreover have "map (\<lambda>n. (nd_id n, nd_ifaces n)) (net_nodes nt') = map (\<lambda>n. (nd_id n, nd_ifaces n)) (net_nodes nt1)"
    unfolding nodes map_map by (rule map_cong [OF refl]) simp
  ultimately have same: "forward nt1 ip = forward nt' ip" unfolding forward_def table_at_def owner_def fun_eq_iff by (simp only: simp_thms)
  have origin: "\<exists>m \<in> set (net_nodes nt1). n = clear_previous m" if "n \<in> set (net_nodes nt')" for n
    using that unfolding nodes set_map by blast
  have "synced lookup (run_jobs sh jobs K) sd' nt'"
  proof (rule synced_after [where R = "\<lambda>n. onlink (K (nd_id n))"])
    fix n assume n: "n \<in> set (net_nodes nt')"
    from origin [OF n] obtain m where m: "m \<in> set (net_nodes nt1)" "n = clear_previous m" by blast
    show "case dict_get (sd_entries sd') (nd_id n) of None \<Rightarrow> True | Some es \<Rightarrow> nd_curr n = map snd es"
      using tracked_entries [OF populate_tracked [OF p(1) su ids cv] m(1)] fresh [OF m(1)] by (simp add: m(2) split: option.splits)
    show "table_ok (nd_curr n) \<and> (\<forall>r \<in> set (nd_curr n). plain_route r \<and> installable (onlink (K (nd_id n))) n r \<and> get_prefix r = ''/15'')"
      using populated_sent [OF p(1) su ids cv dist plug m(1)] fresh [OF m(1)] by (simp add: m(2) installable_def)
    show "lookup (run_jobs sh jobs K (nd_id n)) = table_fib (nd_curr n) \<and> (\<forall>r \<in> set (nd_curr n). get_prefix r = ''/15'')"
      by (rule kernels [OF n])
  qed
  moreover have "kernel_forward lookup (run_jobs sh jobs K) nt' ip k = Some j" if "forward nt1 ip k = Some j" for k j
    by (rule kernels_follow [where K = "run_jobs sh jobs K", OF kernels]) (use that same in simp_all)
  from populated_delivers [OF p(1) assms(4-6) cv all_plugged_wired [OF plug] assms(9-19) this]
  have "\<exists>p. travel (length (fst g)) (kernel_forward lookup (run_jobs sh jobs K) nt' ip) (nd_id dst) (nd_id src) = Some (map ((!) (fst g)) (rev p))
      \<and> hd p = d \<and> last p = i \<and> shortest_walk w p \<and> distinct (map ((!) (fst g)) (rev p))" .
  ultimately show ?thesis by blast
qed


text \<open>Containers for the network of \<open>static_delivery_witness\<close>, where every gateway is on link.\<close>

definition ref_sh :: "string \<Rightarrow> ref_fib \<Rightarrow> ref_fib" where
  "ref_sh cmd f = run_batch ref_exec (split_on (CHR 0x0A) (b64decode (takeWhile (\<lambda>c. c \<noteq> CHR '' '') (drop 5 cmd)))) f"

interpretation ref_container: container_kernel fst snd ref_exec ref_sh
proof
  fix word and f :: ref_fib
  assume safe: "list_all shell_safe word"
  have "\<not> shell_safe CHR '' ''" by code_simp
  then have "\<forall>c \<in> set word. c \<noteq> CHR '' ''" using safe by (auto simp: list_all_iff)
  then have "takeWhile (\<lambda>c. c \<noteq> CHR '' '') (word @ '' | base64 -d | ip -force -batch -'') = word" by simp
  then show "ref_sh (''echo '' @ word @ '' | base64 -d | ip -force -batch -'') f = run_batch ref_exec (split_on (CHR 0x0A) (b64decode word)) f"
    by (simp add: ref_sh_def)
qed

definition bare_kernels :: "int \<Rightarrow> ref_fib" where
  "bare_kernels k = (\<lambda>_. None, UNIV)"

lemma line_maps_built: "fst (prebuild_iface_maps line_net new_static_daemon) = line_maps"
  by code_simp

lemma line_plugged: "all_plugged snd bare_kernels line_maps line_net"
proof -
  have d: "dev_name line_1 = ''eth2''" "dev_name line_2a = ''eth1''" "dev_name line_2b = ''eth3''" "dev_name line_3 = ''eth2''" by code_simp+
  have o: "owner line_net ''10.0.0.1'' = Some 1" "owner line_net ''10.0.0.2'' = Some 2" "owner line_net ''10.0.1.2'' = Some 2"
    "owner line_net ''10.0.1.3'' = Some 3" by code_simp+
  have p: "if_peer line_1 = Some (''Sat2.1'', ''10.0.0.2'')" "if_peer line_2a = Some (''Gnd1.2'', ''10.0.0.1'')"
    "if_peer line_2b = Some (''Gnd3.2'', ''10.0.1.3'')" "if_peer line_3 = Some (''Sat2.3'', ''10.0.1.2'')" by code_simp+
  show ?thesis
    by (simp add: all_plugged_def plugged_def line_maps_def d o p plain_word_def bare_kernels_def)
      (simp add: line_net_def line_node_def Static_Facts.demo_node_def d)
qed

lemma line_summaries: "summarize_loopbacks (net_nodes line_net) = Inr [(1, ''64.4.0.0''), (3, ''64.12.0.0''), (2, ''128.8.0.0'')]"
  "summarize_ipv4_address ''64.12.0.12'' 15 = Inr ''64.12.0.0''"
  by code_simp+

definition line_src :: node where "line_src = line_node ''Gnd1'' 1 ''64.4.0.12'' [line_1]"
definition line_dst :: node where "line_dst = line_node ''Gnd3'' 3 ''64.12.0.12'' [line_3]"

lemmas line_defs = line_net_def line_node_def Static_Facts.demo_node_def line_src_def line_dst_def

text \<open>A route from the station with number 1 to the one with number 3.\<close>

definition line_route :: "(int \<Rightarrow> int option) \<Rightarrow> bool" where
  "line_route hop \<longleftrightarrow> (\<exists>path. travel 3 hop 3 1 = Some path \<and> hd path = 1 \<and> last path = 3 \<and> distinct path)"

lemma line_routeI:
  assumes "\<exists>q. travel (length [1, 2, 3 :: int]) hop (nd_id line_dst) (nd_id line_src) = Some (map ((!) [1, 2, 3]) (rev q))
    \<and> hd q = 2 \<and> last q = 0 \<and> shortest_walk line_weights q \<and> distinct (map ((!) [1, 2, 3 :: int]) (rev q))"
  shows "line_route hop"
proof -
  from assms obtain q where q: "travel 3 hop 3 1 = Some (map ((!) [1, 2, 3]) (rev q))" "hd q = 2" "last q = 0"
    "shortest_walk line_weights q" "distinct (map ((!) [1, 2, 3 :: int]) (rev q))"
    by (auto simp: line_defs numeral_3_eq_3)
  have "q \<noteq> []" using q(4) by (auto simp: shortest_walk_def)
  then have "hd (map ((!) [1, 2, 3 :: int]) (rev q)) = 1" "last (map ((!) [1, 2, 3 :: int]) (rev q)) = 3"
    using q(2,3) by (simp_all add: hd_map last_map hd_rev last_rev)
  then show ?thesis using q(1,5) by (auto simp: line_route_def)
qed

lemma static_init_delivers_witness:
  "\<exists>sd' nt' jobs started. static_init [] ([1, 2, 3], line_tree) new_static_daemon line_net = Inr (sd', nt', jobs, started)
    \<and> synced fst (run_jobs ref_sh jobs bare_kernels) sd' nt'
    \<and> line_route (kernel_forward fst (run_jobs ref_sh jobs bare_kernels) nt' ''64.12.0.12'')"
proof -
  let ?g = "([1, 2, 3], line_tree) :: graph"
  have "is_ok (static_init [] ?g new_static_daemon line_net)" by code_simp
  then obtain sd' nt' jobs st where p: "static_init [] ?g new_static_daemon line_net = Inr (sd', nt', jobs, st)" by (auto simp: is_ok_iff)
  have "synced fst (run_jobs ref_sh jobs bare_kernels) sd' nt' \<and>
    (\<exists>q. travel (length (fst ?g)) (kernel_forward fst (run_jobs ref_sh jobs bare_kernels) nt' ''64.12.0.12'') (nd_id line_dst) (nd_id line_src)
      = Some (map ((!) (fst ?g)) (rev q)) \<and> hd q = 2 \<and> last q = 0 \<and> shortest_walk line_weights q \<and> distinct (map ((!) (fst ?g)) (rev q)))"
    by (rule static_init_delivers [OF ref_container.container_kernel_axioms p _ line_summaries(1) _ _ line_plugged [folded line_maps_built],
          where net = "''64.12.0.0''"])
      (simp_all add: line_summaries(2) line_trees numeral_3_eq_3 [symmetric] line_tree_def line_defs bare_kernels_def dst_array_def addressable_sats_def)
  then show ?thesis using p line_routeI by auto
qed


end
