(* ===== verification/Wiring.thy ===== *)
theory Wiring
  imports Pairing Kernel_Delivery
begin

text \<open>
  From pairs of interfaces to gateways: the maps that the static daemon builds or has cached
  (\<open>_prebuild_iface_maps\<close>) lead every node to its neighbours, and stay so from one simulation step
  to the next.
\<close>

section \<open>The maps, up to what matters of an interface\<close>

definition ess_map :: "iface_map \<Rightarrow> (int, essence) dict" where
  "ess_map m = map (\<lambda>(k, i). (k, essence i)) m"

definition peer_step :: "(int, essence) dict \<Rightarrow> essence \<Rightarrow> (int, essence) dict" where
  "peer_step m e =
    (if peer_iface_pattern (fst e) then
       (case split_on (CHR ''.'') (fst e) of
          _ # p # _ \<Rightarrow> (case py_int p of Some k \<Rightarrow> dict_set k e m | None \<Rightarrow> m)
        | _ \<Rightarrow> m)
     else m)"

definition peers :: "essence list \<Rightarrow> (int, essence) dict" where
  "peers es = foldl peer_step [] es"

lemma ess_update: "ess_map (dict_set k i m) = dict_set k (essence i) (ess_map m)"
  by (induction m) (auto simp: ess_map_def)

lemma ess_step: "ess_map (peer_iface_step m i) = peer_step (ess_map m) (essence i)"
  by (auto simp: peer_step_def essence_def ess_update split: list.split option.split)

lemma ess_peer_map: "ess_map (peer_iface_map n) = peers (map essence (nd_ifaces n))"
proof -
  have "ess_map (foldl peer_iface_step m is) = foldl peer_step (ess_map m) (map essence is)" for m "is"
    by (induction "is" arbitrary: m) (simp_all add: ess_step del: peer_iface_step.simps)
  then show ?thesis by (simp add: peer_iface_map_def peers_def ess_map_def)
qed

lemma peers_in:
  assumes "(k, e) \<in> set (peers es)"
  shows "e \<in> set es \<and> (\<exists>a p r. split_on (CHR ''.'') (fst e) = a # p # r \<and> py_int p = Some k)"
proof -
  have upd: "set (dict_set k' v m) \<subseteq> insert (k', v) (set m)" for k' :: int and v :: essence and m
    by (induction m) auto
  have "(k, e) \<in> set (foldl peer_step m es) \<Longrightarrow> (k, e) \<in> set m \<or> e \<in> set es \<and>
      (\<exists>a p r. split_on (CHR ''.'') (fst e) = a # p # r \<and> py_int p = Some k)" for m
  proof (induction es arbitrary: m)
    case (Cons x es)
    have "(k, e) \<in> set (peer_step m x) \<Longrightarrow> (k, e) \<in> set m \<or> e = x \<and> (\<exists>a p r. split_on (CHR ''.'') (fst e) = a # p # r \<and> py_int p = Some k)"
    proof -
      assume h: "(k, e) \<in> set (peer_step m x)"
      have "peer_step m x = m \<or> (\<exists>a p r k'. split_on (CHR ''.'') (fst x) = a # p # r \<and> py_int p = Some k' \<and> peer_step m x = dict_set k' x m)"
        by (auto simp: peer_step_def split: list.split option.split)
      then show "(k, e) \<in> set m \<or> e = x \<and> (\<exists>a p r. split_on (CHR ''.'') (fst e) = a # p # r \<and> py_int p = Some k)"
      proof
        assume "\<exists>a p r k'. split_on (CHR ''.'') (fst x) = a # p # r \<and> py_int p = Some k' \<and> peer_step m x = dict_set k' x m"
        then obtain a p r k' where x: "split_on (CHR ''.'') (fst x) = a # p # r" "py_int p = Some k'" "peer_step m x = dict_set k' x m" by blast
        then show ?thesis using h upd [of k' x m] by auto
      qed (use h in simp)
    qed
    then show ?case using Cons by auto
  qed simp
  from this [of "[]"] show ?thesis using assms unfolding peers_def by simp
qed

definition fresh_maps :: "network \<Rightarrow> iface_maps" where
  "fresh_maps nt = (dict_of (map (\<lambda>n. (nd_id n, peer_iface_map n)) (gs_nodes nt)), dict_of (map (\<lambda>n. (nd_id n, peer_iface_map n)) (sat_nodes nt)))"

definition same_maps :: "iface_maps \<Rightarrow> iface_maps \<Rightarrow> bool" where
  "same_maps c c' \<longleftrightarrow> (\<forall>k. map_option ess_map (dict_get (fst c) k) = map_option ess_map (dict_get (fst c') k)) \<and>
     (\<forall>k. map_option ess_map (dict_get (snd c) k) = map_option ess_map (dict_get (snd c') k))"

text \<open>What the daemon has cached is what it would build, while the version is the cached one.\<close>

definition cache_ok :: "static_daemon \<Rightarrow> topology \<Rightarrow> bool" where
  "cache_ok sd tp \<longleftrightarrow> (case (sd_iface_version sd, sd_iface_cache sd) of
     (Some v, Some c) \<Rightarrow> older (Some v) (nt_iface_version tp) \<and>
       (nt_iface_version tp = Some v \<longrightarrow> same_maps c (fresh_maps (network.truncate tp)))
   | _ \<Rightarrow> True)"

definition dicts_ok :: "topology \<Rightarrow> bool" where
  "dicts_ok tp \<longleftrightarrow> dict_ok (nt_sats tp) \<and> dict_ok (nt_gss tp)"

lemma prebuilt: "fst (prebuild_iface_maps nt sd) = (case (nt_iface_version nt, sd_iface_cache sd) of
    (Some v, Some c) \<Rightarrow> if sd_iface_version sd = Some v then c else fresh_maps nt | _ \<Rightarrow> fresh_maps nt)"
  by (simp add: prebuild_iface_maps_def fresh_maps_def Let_def split: option.split)

lemma same_maps_refl [simp]: "same_maps c c"
  by (simp add: same_maps_def)

lemma prebuilt_same: "cache_ok sd tp \<Longrightarrow> same_maps (fst (prebuild_iface_maps (network.truncate tp) sd)) (fresh_maps (network.truncate tp))"
  by (auto simp: prebuilt cache_ok_def network.defs split: option.split)

lemma prebuilt_cache: "cache_ok sd tp \<Longrightarrow> cache_ok (snd (prebuild_iface_maps (network.truncate tp) sd)) tp"
  by (auto simp: prebuild_iface_maps_def cache_ok_def fresh_maps_def network.defs Let_def split: option.splits)

section \<open>The maps of a topology\<close>

lemma map_get_nodes:
  assumes "dict_ok d" "\<And>k n. dict_get d k = Some n \<Longrightarrow> nd_id n = k"
  shows "dict_get (dict_of (map (\<lambda>n. (nd_id n, f n)) (dict_vals d))) k = map_option f (dict_get d k)"
proof -
  have "map (\<lambda>n. (nd_id n, f n)) (dict_vals d) = map (\<lambda>(k, n). (k, f n)) d"
    using assms by (auto simp: dict_get_in)
  then have "dict_of (map (\<lambda>n. (nd_id n, f n)) (dict_vals d)) = dict_of (map (\<lambda>(k, n). (k, f n)) d)" by (rule arg_cong)
  moreover have "distinct (map fst (map (\<lambda>(k, n). (k, f n)) d))" using assms(1) by (simp add: comp_def split_def)
  ultimately show ?thesis by (simp add: dict_get_dict_of_distinct)
qed

lemma fresh_get:
  assumes "nodes_ok tp" "dicts_ok tp"
  shows "map_option ess_map (dict_get (fst (fresh_maps (network.truncate tp))) k) = (if k \<in> set (dict_keys (nt_gss tp)) then Some (peers (store_of tp k)) else None)"
    "map_option ess_map (dict_get (snd (fresh_maps (network.truncate tp))) k) = (if k \<in> set (dict_keys (nt_sats tp)) then Some (peers (store_of tp k)) else None)"
proof -
  have keys: "k \<in> set (dict_keys d) \<longleftrightarrow> dict_get d k \<noteq> None" for d :: "(int, node) dict" by (simp add: dict_get_None)
  have id: "dict_get (nt_gss tp) k = Some n \<Longrightarrow> nd_id n = k" "dict_get (nt_sats tp) k = Some n \<Longrightarrow> nd_id n = k" for k n
    using assms(1) by (auto simp: nodes_ok_def)
  have g: "find_node k tp = Some n" if "dict_get (nt_gss tp) k = Some n" for n
    using assms(1) that by (auto simp: nodes_ok_def find_node_def split: option.splits)
  have s: "find_node k tp = Some n" if "dict_get (nt_sats tp) k = Some n" for n using that by (simp add: find_node_def)
  have d: "dict_ok (nt_gss tp)" "dict_ok (nt_sats tp)" using assms(2) by (simp_all add: dicts_ok_def)
  show "map_option ess_map (dict_get (fst (fresh_maps (network.truncate tp))) k) = (if k \<in> set (dict_keys (nt_gss tp)) then Some (peers (store_of tp k)) else None)"
    using map_get_nodes [OF d(1) id(1), of peer_iface_map k] g unfolding keys
    by (cases "dict_get (nt_gss tp) k") (simp_all add: fresh_maps_def network.defs ess_peer_map store_of_def ifaces_of_def)
  show "map_option ess_map (dict_get (snd (fresh_maps (network.truncate tp))) k) = (if k \<in> set (dict_keys (nt_sats tp)) then Some (peers (store_of tp k)) else None)"
    using map_get_nodes [OF d(2) id(2), of peer_iface_map k] s unfolding keys
    by (cases "dict_get (nt_sats tp) k") (simp_all add: fresh_maps_def network.defs ess_peer_map store_of_def ifaces_of_def)
qed

lemma evolves_dicts: "evolves tp tp' \<Longrightarrow> dicts_ok tp' = dicts_ok tp"
  unfolding evolves_def dicts_ok_def by metis

lemma cache_evolves:
  assumes c: "cache_ok sd tp" and e: "evolves tp tp'" and ok: "nodes_ok tp" "nodes_ok tp'" "dicts_ok tp"
  shows "cache_ok sd tp'"
proof (cases "sd_iface_version sd = None \<or> sd_iface_cache sd = None")
  case False
  then obtain v m where vm: "sd_iface_version sd = Some v" "sd_iface_cache sd = Some m" by auto
  have ok': "dicts_ok tp'" using evolves_dicts [OF e] ok(3) by simp
  have o: "older (Some v) (nt_iface_version tp)" "older (nt_iface_version tp) (nt_iface_version tp')"
    using c e vm by (simp_all add: cache_ok_def evolves_def)
  have "same_maps m (fresh_maps (network.truncate tp'))" if v: "nt_iface_version tp' = Some v"
  proof -
    have same: "nt_iface_version tp = Some v" using older_antisym o v by metis
    then have "store_of tp' = store_of tp" "dict_keys (nt_gss tp') = dict_keys (nt_gss tp)" "dict_keys (nt_sats tp') = dict_keys (nt_sats tp)"
      using e v by (simp_all add: evolves_def)
    then have "same_maps (fresh_maps (network.truncate tp)) (fresh_maps (network.truncate tp'))"
      unfolding same_maps_def fresh_get [OF ok(1,3)] fresh_get [OF ok(2) ok'] by (simp only: simp_thms)
    then show ?thesis using c vm same by (simp add: cache_ok_def same_maps_def)
  qed
  then show ?thesis using vm older_trans [OF o] by (simp add: cache_ok_def)
qed (auto simp: cache_ok_def split: option.splits)

section \<open>Who holds a gateway\<close>

lemma partner:
  assumes "paired T S" "e \<in> set (S u)"
  obtains v f where "0 \<le> u" "0 \<le> v" "toward T u v e" "toward T v u f" "f \<in> set (S v)" "linked T u v e f"
proof -
  obtain v where v: "0 \<le> u" "0 \<le> v" "v \<noteq> u" "toward T u v e" using pairedD(1) [OF assms] by blast
  have "\<exists>f \<in> set (filter (toward T v u) (S v)). linked T u v e f"
    using list_all2_left [OF pairedD(2) [OF assms(1) v(1,2)], of e] assms(2) v(4) by simp
  then show thesis using that [OF v(1,2,4)] by auto
qed

lemma addressed_sym: "addressed T u v a b \<longleftrightarrow> addressed T v u b a"
  by (auto simp: addressed_def)

lemma addressed_differ: "get_ipv4_address n p ty l = Inr (a, b) \<Longrightarrow> a \<noteq> b"
proof
  assume g: "get_ipv4_address n p ty l = Inr (a, b)" and "a = b"
  have "owner_code ty \<noteq> None \<and> id13 n \<and> id13 p" using get_ipv4_address_ok_iff [of n p ty l] g by simp
  then show False using get_ipv4_address_pair [of ty n p l] g \<open>a = b\<close> by auto
qed

text \<open>An address is at the end of a link that one node only has.\<close>

lemma addressed_end:
  assumes "addressed T u v a x" "addressed T w z x c"
  shows "w = v"
proof -
  note same = address_identifies [where l = False and l' = False]
  from assms consider
    "get_ipv4_address u v (T u) False = Inr (a, x)" "get_ipv4_address w z (T w) False = Inr (x, c)"
  | "get_ipv4_address u v (T u) False = Inr (a, x)" "get_ipv4_address z w (T z) False = Inr (c, x)"
  | "get_ipv4_address v u (T v) False = Inr (x, a)" "get_ipv4_address w z (T w) False = Inr (x, c)"
  | "get_ipv4_address v u (T v) False = Inr (x, a)" "get_ipv4_address z w (T z) False = Inr (c, x)"
    unfolding addressed_def by blast
  then show ?thesis
  proof cases
    case 1
    then have "w = u \<and> z = v" using same [OF 1] by auto
    then show ?thesis using 1 addressed_differ by auto
  next
    case 2
    then show ?thesis using same [OF 2] by auto
  next
    case 3
    then show ?thesis using same [OF 3] by auto
  next
    case 4
    then have "v = z \<and> u = w" using same [OF 4] by auto
    then show ?thesis using 4 addressed_differ by auto
  qed
qed

lemma addressed_plain: "addressed T u v a b \<Longrightarrow> plain_word a"
proof -
  have "plain_word (dotted os)" for os
  proof -
    have "CHR '' '' \<notin> set (py_join ''.'' (map dec_int os)) \<and> CHR 0x0A \<notin> set (py_join ''.'' (map dec_int os))"
      by (induction os rule: induct_list012) (use dec_int_plain in auto)
    then show ?thesis by (simp add: plain_word_def dotted_def)
  qed
  moreover assume "addressed T u v a b"
  ultimately show ?thesis unfolding addressed_def by (auto elim!: get_ipv4_address_InrE)
qed

lemma net_nodes_found:
  assumes "nodes_ok tp" "dicts_ok tp"
  shows "n \<in> set (net_nodes (network.truncate tp)) \<longleftrightarrow> find_node (nd_id n) tp = Some n"
proof -
  have v: "n \<in> set (dict_vals d) \<longleftrightarrow> dict_get d (nd_id n) = Some n" if "dict_ok d" "\<And>k n. dict_get d k = Some n \<Longrightarrow> nd_id n = k" for d
    using that by (force simp: dict_get_in)
  have g: "n \<in> set (dict_vals (nt_gss tp)) \<longleftrightarrow> dict_get (nt_gss tp) (nd_id n) = Some n"
    by (rule v) (use assms in \<open>auto simp: nodes_ok_def dicts_ok_def\<close>)
  have s: "n \<in> set (dict_vals (nt_sats tp)) \<longleftrightarrow> dict_get (nt_sats tp) (nd_id n) = Some n"
    by (rule v) (use assms in \<open>auto simp: nodes_ok_def dicts_ok_def\<close>)
  show ?thesis using g s assms(1) by (auto simp: network.defs find_node_def nodes_ok_def split: option.splits)
qed

lemma find_exists: "\<exists>y \<in> set xs. P y \<Longrightarrow> \<exists>y. List.find P xs = Some y \<and> P y \<and> y \<in> set xs"
  by (induction xs) auto

lemma paired_owner:
  assumes p: "pairing tp" and d: "dicts_ok tp" and e: "e \<in> set (store_of tp v)"
  shows "owner (network.truncate tp) (fst (snd e)) = Some v"
proof -
  let ?nt = "network.truncate tp" and ?x = "fst (snd e)"
  let ?P = "\<lambda>(k :: int, is). ?x \<in> if_ipv4 ` set is"
  note pp = pairingD [OF p] and found = net_nodes_found [OF pairingD(2) [OF p] d]
  obtain z f where z: "linked (type_of tp) v z e f" by (rule partner [OF pp(6) e])
  have unique: "k = v" if k: "n \<in> set (net_nodes ?nt)" "k = nd_id n" "?x \<in> if_ipv4 ` set (nd_ifaces n)" for k n
  proof -
    obtain i where i: "i \<in> set (nd_ifaces n)" "?x = if_ipv4 i" using k(3) by blast
    have "find_node k tp = Some n" using found [of n] k(1,2) by simp
    then have "essence i \<in> set (store_of tp k)" using i(1) by (simp add: store_of_def ifaces_of_def)
    from partner [OF pp(6) this] obtain w h where "linked (type_of tp) k w (essence i) h" by blast
    then have "addressed (type_of tp) w k (fst (snd h)) ?x" using addressed_sym i(2) by (simp add: linked_def essence_def)
    moreover have "addressed (type_of tp) v z ?x (fst (snd f))" using z by (simp add: linked_def)
    ultimately show ?thesis using addressed_end by blast
  qed
  obtain n where n: "find_node v tp = Some n" "\<exists>i \<in> set (nd_ifaces n). essence i = e"
    using e by (cases "find_node v tp") (auto simp: store_of_def ifaces_of_def)
  then have "n \<in> set (net_nodes ?nt)" "nd_id n = v" using found [of n] find_node_id [OF pp(2)] by auto
  moreover have "?x \<in> if_ipv4 ` set (nd_ifaces n)" using n(2) by (force simp: essence_def)
  ultimately have "\<exists>y \<in> set (map (\<lambda>n. (nd_id n, nd_ifaces n)) (net_nodes ?nt)). ?P y" by force
  from find_exists [OF this] obtain y where y: "List.find ?P (map (\<lambda>n. (nd_id n, nd_ifaces n)) (net_nodes ?nt)) = Some y"
    and P: "?P y" "y \<in> set (map (\<lambda>n. (nd_id n, nd_ifaces n)) (net_nodes ?nt))" by blast
  from P(2) obtain m where m: "m \<in> set (net_nodes ?nt)" "y = (nd_id m, nd_ifaces m)" unfolding set_map by blast
  have "fst y = v" using unique [OF m(1) refl] P(1) unfolding m(2) by simp
  then show ?thesis unfolding owner_def y by simp
qed

section \<open>Gateways that work\<close>

text \<open>In the container of a node, the addresses its interfaces lead to are on link.\<close>

definition on_links :: "('fib \<Rightarrow> (string \<times> string) set) \<Rightarrow> (int \<Rightarrow> 'fib) \<Rightarrow> network \<Rightarrow> bool" where
  "on_links onlink K nt \<longleftrightarrow> (\<forall>n \<in> set (net_nodes nt). \<forall>i \<in> set (nd_ifaces n).
     case if_peer i of None \<Rightarrow> True | Some (_, gw) \<Rightarrow> (gw, dev_name i) \<in> onlink (K (nd_id n)))"

lemma essence_dev: "essence i = essence j \<Longrightarrow> dev_name i = dev_name j \<and> if_peer i = if_peer j"
  by (simp add: essence_def dev_name_def get_iname_def)

lemma paired_plugged_node:
  assumes p: "pairing tp" and d: "dicts_ok tp" and o: "on_links onlink K (network.truncate tp)"
    and n: "n \<in> set (net_nodes (network.truncate tp))" and m: "map_option ess_map m = Some (peers (store_of tp (nd_id n)))"
  shows "plugged onlink K (network.truncate tp) n m"
proof -
  let ?nt = "network.truncate tp" and ?u = "nd_id n"
  note pp = pairingD [OF p]
  from m obtain c where c: "m = Some c" "ess_map c = peers (store_of tp ?u)" by auto
  have "find_node ?u tp = Some n" using net_nodes_found [OF pp(2) d] n by blast
  then have st: "store_of tp ?u = map essence (nd_ifaces n)" by (simp add: store_of_def ifaces_of_def)
  have "case if_peer i of None \<Rightarrow> True | Some (_, gw) \<Rightarrow> owner ?nt gw = Some k \<and> plain_word gw \<and> plain_word (dev_name i) \<and>
      dev_name i \<in> set (map dev_name (nd_ifaces n)) \<and> (gw, dev_name i) \<in> onlink (K ?u)" if ki: "(k, i) \<in> set c" for k i
  proof -
    have "(k, essence i) \<in> set (peers (store_of tp ?u))" unfolding c(2) [symmetric] using ki by (force simp: ess_map_def)
    from peers_in [OF this] obtain a q r where e: "essence i \<in> set (store_of tp ?u)"
      "split_on (CHR ''.'') (fst (essence i)) = a # q # r" "py_int q = Some k" by blast
    from partner [OF pp(6) e(1)] obtain v f where f: "0 \<le> v" "toward (type_of tp) ?u v (essence i)" "f \<in> set (store_of tp v)"
      "linked (type_of tp) ?u v (essence i) f" by blast
    have name: "split_on (CHR ''.'') (if_name i) = [node_name (type_of tp ?u) (nat ?u), dec_int v]"
      using f(2) end_iface_split [OF f(1)] by (simp add: toward_def essence_def)
    then have k: "k = v" using e(2,3) dec_int_facts(1) [OF f(1)] by (simp add: essence_def)
    have peer: "if_peer i = Some (fst f, fst (snd f))" and "if_type i \<noteq> ''lo''" using f(4) by (simp_all add: linked_def essence_def)
    then have dev: "dev_name i = ''eth'' @ dec_int v" by (simp add: dev_name_def get_iname_def name)
    have "plain_word (fst (snd f))" using f(4) addressed_plain addressed_sym unfolding linked_def by metis
    moreover have "owner ?nt (fst (snd f)) = Some k" using paired_owner [OF p d f(3)] k by simp
    moreover have "plain_word (dev_name i)" using dec_int_plain by (simp add: dev plain_word_def)
    moreover obtain j where j: "j \<in> set (nd_ifaces n)" "essence i = essence j" using e(1) unfolding st by auto
    then have "dev_name i \<in> set (map dev_name (nd_ifaces n))" using essence_dev [OF j(2)] by auto
    moreover have "(fst (snd f), dev_name i) \<in> onlink (K ?u)"
      using o n j(1) essence_dev [OF j(2)] peer unfolding on_links_def by fastforce
    ultimately show ?thesis by (simp add: peer)
  qed
  then show ?thesis by (auto simp: plugged_def c(1) list_all_iff)
qed

lemma paired_plugged:
  assumes p: "pairing tp" and d: "dicts_ok tp" and c: "cache_ok sd tp" and o: "on_links onlink K (network.truncate tp)"
  shows "all_plugged onlink K (fst (prebuild_iface_maps (network.truncate tp) sd)) (network.truncate tp)"
proof -
  note pp = pairingD [OF p] and same = prebuilt_same [OF c] and get = fresh_get [OF pairingD(2) [OF p] d]
  have id: "nd_id n \<in> set (dict_keys dd)" if "n \<in> set (dict_vals dd)" "\<And>k n. dict_get dd k = Some n \<Longrightarrow> nd_id n = k" "dict_ok dd" for n dd
    using that by (force simp: dict_get_in)
  have g: "nd_id n \<in> set (dict_keys (nt_gss tp))" if "n \<in> set (gs_nodes (network.truncate tp))" for n
    by (rule id) (use that pp(2) d in \<open>auto simp: nodes_ok_def dicts_ok_def network.defs\<close>)
  have s: "nd_id n \<in> set (dict_keys (nt_sats tp))" if "n \<in> set (sat_nodes (network.truncate tp))" for n
    by (rule id) (use that pp(2) d in \<open>auto simp: nodes_ok_def dicts_ok_def network.defs\<close>)
  show ?thesis unfolding all_plugged_def list_all_iff
  proof (intro conjI ballI paired_plugged_node [OF p d o])
    fix n assume n: "n \<in> set (gs_nodes (network.truncate tp))"
    show "map_option ess_map (dict_get (fst (fst (prebuild_iface_maps (network.truncate tp) sd))) (nd_id n)) = Some (peers (store_of tp (nd_id n)))"
      using same get(1) [of "nd_id n"] g [OF n] by (simp add: same_maps_def)
  next
    fix n assume n: "n \<in> set (sat_nodes (network.truncate tp))"
    show "map_option ess_map (dict_get (snd (fst (prebuild_iface_maps (network.truncate tp) sd))) (nd_id n)) = Some (peers (store_of tp (nd_id n)))"
      using same get(2) [of "nd_id n"] s [OF n] by (simp add: same_maps_def)
  qed auto
qed

end
