(* ===== verification/Startup.thy ===== *)
theory Startup
  imports Wiring
begin

text \<open>
  How the pairs come about: \<open>TopologySyncMixin.init\<close> builds the interfaces of all links without
  addresses, gives them addresses one by one (\<open>_set_ips_to_nodes\<close>) and adds the loopbacks. The
  network that is then started has its interfaces in pairs, and by \<open>Wiring\<close> so has every later one.
\<close>

section \<open>The pool of interfaces\<close>

definition leads :: "(int \<Rightarrow> string) \<Rightarrow> int \<Rightarrow> iface \<Rightarrow> bool" where
  "leads T u i \<longleftrightarrow> 0 \<le> u \<and> (\<exists>v \<ge> 0. v \<noteq> u \<and> if_name i = end_iface T u v)"

definition mates :: "(int \<Rightarrow> string) \<Rightarrow> int \<Rightarrow> int \<Rightarrow> iface \<Rightarrow> iface \<Rightarrow> bool" where
  "mates T u v i j \<longleftrightarrow> if_name i = end_iface T u v \<and> if_name j = end_iface T v u \<and>
     if_peer i = Some (if_name j, if_ipv4 j) \<and> if_peer j = Some (if_name i, if_ipv4 i) \<and> if_type i \<noteq> ''lo'' \<and> if_type j \<noteq> ''lo'' \<and>
     (if_ipv4 i = [] \<and> if_ipv4 j = [] \<or> addressed T u v (if_ipv4 i) (if_ipv4 j))"

text \<open>The list of all interfaces holds each once, with its peer; nodes and links have what is theirs.\<close>

definition known :: "(int \<Rightarrow> string) \<Rightarrow> int \<Rightarrow> bool" where
  "known T u \<longleftrightarrow> id13 u \<and> T u \<in> {''Satellite'', ''GroundStation''}"

definition pool :: "(int \<Rightarrow> string) \<Rightarrow> iface list \<Rightarrow> bool" where
  "pool T L \<longleftrightarrow> distinct (map if_name L) \<and> distinct (map if_oid L) \<and>
     (\<forall>i \<in> set L. \<exists>u v. known T u \<and> known T v \<and> u \<noteq> v \<and> (\<exists>j \<in> set L. mates T u v i j))"

definition pooled :: "topology \<Rightarrow> bool" where
  "pooled tp \<longleftrightarrow> pool (type_of tp) (tp_interfaces tp) \<and> (\<forall>i \<in> set (tp_interfaces tp). if_oid i < tp_next_oid tp) \<and>
     (\<forall>u. ifaces_of tp u = filter (leads (type_of tp) u) (tp_interfaces tp)) \<and>
     links_all (\<lambda>k l. set (lk_ifaces l) \<subseteq> set (tp_interfaces tp)) tp"

definition complete :: "iface list \<Rightarrow> bool" where
  "complete L \<longleftrightarrow> (\<forall>i \<in> set L. if_ipv4 i \<noteq> [])"

lemma filter_one: "distinct (map f L) \<Longrightarrow> x \<in> set L \<Longrightarrow> filter (\<lambda>i. f i = f x) L = [x]"
proof (induction L)
  case (Cons y L)
  show ?case
  proof (cases "x = y")
    case True
    then have "\<forall>i \<in> set L. f i \<noteq> f x" using Cons.prems(1) by (metis distinct.simps(2) image_eqI list.set_map list.simps(9))
    then have "filter (\<lambda>i. f i = f x) L = []" by (simp add: filter_empty_conv)
    then show ?thesis using True by simp
  next
    case False
    then have "f y \<noteq> f x" using Cons.prems by auto
    then show ?thesis using Cons False by simp
  qed
qed simp

lemma pool_paired:
  assumes p: "pool T L" and c: "complete L" and S: "\<And>u. S u = map essence (filter (leads T u) L)"
  shows "paired T S"
proof -
  have names: "distinct (map if_name L)"
    and mate: "\<And>i. i \<in> set L \<Longrightarrow> \<exists>u v. 0 \<le> u \<and> 0 \<le> v \<and> u \<noteq> v \<and> (\<exists>j \<in> set L. mates T u v i j)"
    using p by (fastforce simp: pool_def known_def)+
  have leads: "leads T u i \<longleftrightarrow> (0 \<le> u \<and> (\<exists>v \<ge> 0. v \<noteq> u \<and> toward T u v (essence i)))" for u i by (simp add: leads_def toward_def essence_def)
  have one: "filter (toward T u v) (S u) = map essence (filter (\<lambda>i. if_name i = end_iface T u v) L)" if "0 \<le> u" "0 \<le> v" "u \<noteq> v" for u v
  proof -
    have "leads T u i \<and> toward T u v (essence i) \<longleftrightarrow> if_name i = end_iface T u v" for i
      using that by (auto simp: leads_def toward_def essence_def)
    then show ?thesis unfolding S filter_map filter_filter comp_def by simp
  qed
  have both: "list_all2 (linked T u v) (filter (toward T u v) (S u)) (filter (toward T v u) (S v))"
    if uv: "0 \<le> u" "0 \<le> v" "u \<noteq> v" and i: "i \<in> set L" "if_name i = end_iface T u v" for u v i
  proof -
    from mate [OF i(1)] obtain u' v' j where m: "0 \<le> u'" "0 \<le> v'" "j \<in> set L" "mates T u' v' i j" by blast
    have "u = u' \<and> v = v'" using end_iface_inject [of T u v u' v'] m uv(1,2) i(2) by (simp add: mates_def)
    then have m': "mates T u v i j" using m(4) by simp
    have "filter (\<lambda>x. if_name x = end_iface T u v) L = [i]" using filter_one [OF names, of i] i by simp
    moreover have "filter (\<lambda>x. if_name x = end_iface T v u) L = [j]" using filter_one [OF names, of j] m(3) m' by (simp add: mates_def)
    moreover have "linked T u v (essence i) (essence j)" using m' c i(1) by (auto simp: mates_def linked_def essence_def complete_def)
    ultimately show ?thesis by (simp add: one uv uv(3) [symmetric])
  qed
  have "list_all2 (linked T u v) (filter (toward T u v) (S u)) (filter (toward T v u) (S v))" if uv: "0 \<le> u" "0 \<le> v" for u v
  proof (cases "u = v")
    case True
    have "filter (toward T u u) (S u) = []"
    proof -
      have "\<not> (leads T u i \<and> toward T u u (essence i))" for i
        using end_iface_inject [of T u _ u u] by (auto simp: leads_def toward_def essence_def)
      then show ?thesis unfolding S filter_map filter_filter comp_def by simp
    qed
    then show ?thesis using True by simp
  next
    case ne: False
    consider i where "i \<in> set L" "if_name i = end_iface T u v" | i where "i \<in> set L" "if_name i = end_iface T v u"
      | "\<forall>i \<in> set L. if_name i \<noteq> end_iface T u v \<and> if_name i \<noteq> end_iface T v u" by blast
    then show ?thesis
    proof cases
      case 1
      then show ?thesis using both [OF uv ne] by blast
    next
      case 2
      then have "list_all2 (linked T v u) (filter (toward T v u) (S v)) (filter (toward T u v) (S u))" using both [of v u] uv ne by metis
      then show ?thesis using list_all2_conv_all_nth linked_sym by (metis (mono_tags, lifting))
    next
      case 3
      then have "filter (\<lambda>i. if_name i = end_iface T u v) L = []" "filter (\<lambda>i. if_name i = end_iface T v u) L = []"
        by (simp_all add: filter_empty_conv)
      then show ?thesis by (simp add: one uv ne ne [symmetric])
    qed
  qed
  moreover have "0 \<le> u \<and> (\<exists>v \<ge> 0. v \<noteq> u \<and> toward T u v e)" if "e \<in> set (S u)" for u e
    using that leads by (auto simp: S)
  ultimately show ?thesis by (simp add: paired_def)
qed

lemma pooled_oids:
  assumes "pooled tp"
  shows "oids_ok tp"
proof -
  let ?L = "tp_interfaces tp"
  define E where "E n = the (map_of (map (\<lambda>i. (if_oid i, essence i)) ?L) n)" for n
  have d: "distinct (map if_oid ?L)" using assms by (simp add: pooled_def pool_def)
  have "copy_of E (tp_next_oid tp) i" if "i \<in> set ?L" for i
  proof -
    have "map_of (map (\<lambda>i. (if_oid i, essence i)) ?L) (if_oid i) = Some (essence i)"
      by (rule map_of_is_SomeI) (use d that in \<open>auto simp: comp_def\<close>)
    then show ?thesis using assms that by (simp add: copy_of_def E_def pooled_def)
  qed
  moreover have "set (ifaces_of tp u) \<subseteq> set ?L" for u using assms by (auto simp: pooled_def)
  ultimately have "oids_by E tp" using assms unfolding oids_by_def pooled_def links_all_def by blast
  then show ?thesis using oids_ok_iff by blast
qed

section \<open>Giving addresses\<close>

lemma mates_flip: "mates T u v i j \<Longrightarrow> mates T v u j i"
  using addressed_sym [THEN iffD1, of T u v "if_ipv4 i" "if_ipv4 j"] by (auto simp: mates_def)

lemma dotted_nonempty: "dotted (octets_of bs) \<noteq> []"
  by (simp add: dotted_def octets_of_def dec_int_facts(3))

lemma address_nonempty: "get_ipv4_address n p ty l = Inr (a, b) \<Longrightarrow> a \<noteq> [] \<and> b \<noteq> []"
  by (elim get_ipv4_address_InrE) (simp only: dotted_nonempty simp_thms not_False_eq_True)

lemma addressed_nonempty: "addressed T u v a b \<Longrightarrow> a \<noteq> [] \<and> b \<noteq> []"
  using address_nonempty unfolding addressed_def by blast

lemma mates_addressed:
  assumes m: "mates T u v i j" and k: "known T u" "known T v"
  obtains i1 j1 where "set_ipv4_address i j = Inr (i1, j1)" "mates T u v (set_peer_ip j1 i1) (set_peer_ip i1 j1)"
    "if_ipv4 i1 \<noteq> []" "if_ipv4 j1 \<noteq> []" "if_oid i1 = if_oid i" "if_oid j1 = if_oid j"
proof (cases "if_ipv4 i = []")
  case True
  have uv: "int (nat u) = u" "int (nat v) = v" "id13 u" "id13 v" using k by (simp_all add: known_def)
  have "if_name i = node_name (T u) (nat u) @ ''.'' @ dec (nat v)"
    using m uv(4) by (simp add: mates_def end_iface_def dec_int_def)
  from set_ipv4_address_link [OF _ _ _ this, of j, unfolded uv(1,2)]
  obtain a b where ab: "get_ipv4_address u v (T u) False = Inr (a, b)" "set_ipv4_address i j = Inr (set_ip a i, set_ip b j)"
    using k m True by (auto simp: known_def mates_def)
  have "mates T u v (set_peer_ip (set_ip b j) (set_ip a i)) (set_peer_ip (set_ip a i) (set_ip b j))"
    using m ab(1) by (auto simp: mates_def set_peer_ip_def set_ip_def addressed_def)
  then show thesis using that [OF ab(2)] address_nonempty [OF ab(1)] by simp
next
  case False
  then have a: "addressed T u v (if_ipv4 i) (if_ipv4 j)" using m by (simp add: mates_def)
  have "set_peer_ip j i = i" "set_peer_ip i j = j" using m by (simp_all add: mates_def set_peer_ip_def)
  moreover have "set_ipv4_address i j = Inr (i, j)" using False by (simp add: set_ipv4_address_def)
  ultimately show thesis using that m addressed_nonempty [OF a] by simp
qed

text \<open>Both ends of a pair are replaced.\<close>

lemma replace_pair:
  assumes p: "pool T L" and ij: "i \<in> set L" "j \<in> set L" and m: "mates T u v i j" "mates T u v i' j'"
    and k: "known T u" "known T v" "u \<noteq> v" and o: "if_oid i' = if_oid i" "if_oid j' = if_oid j"
  defines "r \<equiv> \<lambda>x. if x = i then i' else if x = j then j' else x"
  shows "replace_iface i' (replace_iface j' L) = map r L" "pool T (map r L)"
    "filter (leads T w) (map r L) = map r (filter (leads T w) L)" "x \<in> set L \<Longrightarrow> if_name (r x) = if_name x \<and> if_oid (r x) = if_oid x"
proof -
  have d: "distinct (map if_name L)" "distinct (map if_oid L)"
    and mate: "\<And>x. x \<in> set L \<Longrightarrow> \<exists>u v. known T u \<and> known T v \<and> u \<noteq> v \<and> (\<exists>y \<in> set L. mates T u v x y)"
    using p by (auto simp: pool_def)
  have name: "x = y" if "x \<in> set L" "y \<in> set L" "if_name x = if_name y" for x y
    using d(1) that by (meson distinct_map inj_onD)
  have oid: "x = y" if "x \<in> set L" "y \<in> set L" "if_oid x = if_oid y" for x y
    using d(2) that by (meson distinct_map inj_onD)
  have "if_name i \<noteq> if_name j" using m(1) end_iface_inject [of T u v v u] k by (auto simp: mates_def known_def)
  then have ne: "i \<noteq> j" "if_oid i \<noteq> if_oid j" using oid ij by blast+
  show keep: "if_name (r x) = if_name x \<and> if_oid (r x) = if_oid x" if "x \<in> set L" for x
    using m o by (auto simp: r_def mates_def)
  show "replace_iface i' (replace_iface j' L) = map r L"
    unfolding replace_iface_def map_map comp_def
    by (rule map_cong [OF refl]) (use oid ij ne o in \<open>auto simp: r_def\<close>)
  have names: "map if_name (map r L) = map if_name L" "map if_oid (map r L) = map if_oid L" using keep by (simp_all add: comp_def)
  have "\<exists>u v. known T u \<and> known T v \<and> u \<noteq> v \<and> (\<exists>y \<in> set (map r L). mates T u v (r x) y)" if x: "x \<in> set L" for x
  proof -
    from mate [OF x] obtain u' v' y where y: "known T u'" "known T v'" "u' \<noteq> v'" "y \<in> set L" "mates T u' v' x y" by blast
    have nn: "0 \<le> u" "0 \<le> v" "0 \<le> u'" "0 \<le> v'" using k(1,2) y(1,2) by (simp_all add: known_def)
    consider "x = i" | "x = j" "x \<noteq> i" | "x \<noteq> i" "x \<noteq> j" by blast
    then show ?thesis
    proof cases
      case 1
      then show ?thesis using k m(2) ij(2) ne(1) by (intro exI [of _ u] exI [of _ v]) (auto simp: r_def)
    next
      case 2
      have "mates T v u j' i'" using m(2) by (rule mates_flip)
      then show ?thesis using 2 k ij(1) by (intro exI [of _ v] exI [of _ u]) (auto simp: r_def)
    next
      case 3
      have "y \<noteq> i"
      proof
        assume "y = i"
        then have "end_iface T v' u' = end_iface T u v" using y(5) m(1) by (simp add: mates_def)
        then have "v' = u \<and> u' = v" using end_iface_inject nn by blast
        then have "if_name x = if_name j" using y(5) m(1) by (simp add: mates_def)
        then show False using name [OF x ij(2)] 3 by blast
      qed
      moreover have "y \<noteq> j"
      proof
        assume "y = j"
        then have "end_iface T v' u' = end_iface T v u" using y(5) m(1) by (simp add: mates_def)
        then have "v' = v \<and> u' = u" using end_iface_inject nn by blast
        then have "if_name x = if_name i" using y(5) m(1) by (simp add: mates_def)
        then show False using name [OF x ij(1)] 3 by blast
      qed
      ultimately show ?thesis using y 3 by (intro exI [of _ u'] exI [of _ v']) (auto simp: r_def)
    qed
  qed
  then show "pool T (map r L)" unfolding pool_def names using d by simp
  have l: "leads T w (r x) = leads T w x" if "x \<in> set L" for x using keep [OF that] by (simp add: leads_def)
  show "filter (leads T w) (map r L) = map r (filter (leads T w) L)"
    unfolding filter_map comp_def using l by (metis (no_types, lifting) filter_cong)
qed

text \<open>A step of the loop: it finds the interface and its peer, and writes both.\<close>

lemma store_iface_ifaces: "ifaces_of (store_iface i tp) u = replace_iface i (ifaces_of tp u)"
proof -
  have "find_node u (store_iface i tp) = map_option (\<lambda>n. n\<lparr>nd_ifaces := replace_iface i (nd_ifaces n)\<rparr>) (find_node u tp)"
    unfolding find_node_def by (simp add: store_iface_def split: option.split)
  then show ?thesis by (simp add: ifaces_of_def replace_iface_def split: option.split)
qed

lemma store_iface_kind: "kind_of (store_iface i tp) u = kind_of tp u"
proof -
  have "find_node u (store_iface i tp) = map_option (\<lambda>n. n\<lparr>nd_ifaces := replace_iface i (nd_ifaces n)\<rparr>) (find_node u tp)"
    unfolding find_node_def by (simp add: store_iface_def split: option.split)
  then show ?thesis by (cases "find_node u tp") (simp_all add: kind_of_def node_ref_def)
qed

lemma store_iface_rest:
  "tp_interfaces (store_iface i tp) = replace_iface i (tp_interfaces tp)" "tp_next_oid (store_iface i tp) = tp_next_oid tp"
  "nt_status (store_iface i tp) = nt_status tp"
  "dict_get (tp_links (store_iface i tp)) k = map_option (\<lambda>l. l\<lparr>lk_ifaces := replace_iface i (lk_ifaces l)\<rparr>) (dict_get (tp_links tp) k)"
  by (simp_all add: store_iface_def)

text \<open>What the loop keeps of the topology.\<close>

definition keeps :: "topology \<Rightarrow> topology \<Rightarrow> bool" where
  "keeps tp tp' \<longleftrightarrow> core tp tp' \<and> kind_of tp' = kind_of tp \<and> dicts_ok tp' = dicts_ok tp \<and>
     map if_oid (tp_interfaces tp') = map if_oid (tp_interfaces tp)"

lemma keeps_refl [simp]: "keeps tp tp"
  by (simp add: keeps_def)

lemma keeps_trans: "keeps a b \<Longrightarrow> keeps b c \<Longrightarrow> keeps a c"
  using core_trans by (auto simp: keeps_def)

lemma store_iface_keeps: "keeps tp (store_iface i tp)"
proof -
  have "map if_oid (replace_iface i L) = map if_oid L" for L by (simp add: replace_iface_def)
  then show ?thesis using store_iface_core [of tp i] store_iface_kind [of i tp]
    by (simp add: keeps_def dicts_ok_def store_iface_rest fun_eq_iff)
qed

definition given :: "nat set \<Rightarrow> iface list \<Rightarrow> bool" where
  "given D L \<longleftrightarrow> (\<forall>x \<in> set L. if_oid x \<in> D \<longrightarrow> if_ipv4 x \<noteq> [])"

lemma find_oid: "distinct (map if_oid L) \<Longrightarrow> i \<in> set L \<Longrightarrow> List.find (\<lambda>x. if_oid x = if_oid i) L = Some i"
  by (induction L) auto

lemma find_name: "distinct (map if_name L) \<Longrightarrow> j \<in> set L \<Longrightarrow> List.find (\<lambda>x. if_name x = if_name j) L = Some j"
  by (induction L) auto

lemma set_ips_step:
  assumes p: "pooled tp" and n: "n \<in> if_oid ` set (tp_interfaces tp)" and g: "given D (tp_interfaces tp)"
  obtains tp' where "set_ips_to_nodes (n # ns) tp = set_ips_to_nodes ns tp'" "pooled tp'" "keeps tp tp'"
    "given (insert n D) (tp_interfaces tp')"
proof -
  let ?L = "tp_interfaces tp"
  define T where "T = type_of tp"
  have pool: "pool T ?L" using p by (simp add: pooled_def T_def)
  then have d: "distinct (map if_name ?L)" "distinct (map if_oid ?L)" by (simp_all add: pool_def)
  obtain i where i: "i \<in> set ?L" "n = if_oid i" using n by blast
  obtain u v j where j: "known T u" "known T v" "u \<noteq> v" "j \<in> set ?L" "mates T u v i j" using pool i(1) by (auto simp: pool_def)
  obtain i1 j1 where s: "set_ipv4_address i j = Inr (i1, j1)" "mates T u v (set_peer_ip j1 i1) (set_peer_ip i1 j1)"
    "if_ipv4 i1 \<noteq> []" "if_ipv4 j1 \<noteq> []" "if_oid i1 = if_oid i" "if_oid j1 = if_oid j" by (rule mates_addressed [OF j(5,1,2)])
  let ?i = "set_peer_ip j1 i1" and ?j = "set_peer_ip i1 j1"
  let ?r = "\<lambda>x. if x = i then ?i else if x = j then ?j else x"
  have o: "if_oid ?i = if_oid i" "if_oid ?j = if_oid j" using s(5,6) by (simp_all add: set_peer_ip_def)
  note r = replace_pair [OF pool i(1) j(4,5) s(2) j(1-3) o]
  define tp' where "tp' = store_iface ?i (store_iface ?j tp)"
  have L': "tp_interfaces tp' = map ?r ?L" by (simp add: tp'_def store_iface_rest r(1))
  have k: "keeps tp tp'" unfolding tp'_def by (rule keeps_trans; rule store_iface_keeps)
  then have T': "type_of tp' = T" by (simp add: keeps_def T_def type_of_def fun_eq_iff)
  have "List.find (\<lambda>x. Some (if_name x) = map_option fst (if_peer i)) ?L = Some j"
    using find_name [OF d(1) j(4)] j(5) by (simp add: mates_def eq_commute)
  then have step: "set_ips_to_nodes (n # ns) tp = set_ips_to_nodes ns tp'"
    using find_oid [OF d(2) i(1)] s(1) by (simp add: tp'_def i(2))
  have sub: "replace_iface ?i (replace_iface ?j M) = map ?r M" if "set M \<subseteq> set ?L" for M
  proof -
    have "\<forall>x \<in> set ?L. (if if_oid (if if_oid x = if_oid ?j then ?j else x) = if_oid ?i then ?i else if if_oid x = if_oid ?j then ?j else x) = ?r x"
      using r(1) unfolding replace_iface_def map_map comp_def map_eq_conv .
    then show ?thesis using that unfolding replace_iface_def map_map comp_def map_eq_conv by blast
  qed
  have ifs: "ifaces_of tp w = filter (leads T w) ?L" for w using p by (simp add: pooled_def T_def)
  then have ifs': "ifaces_of tp' w = filter (leads T w) (map ?r ?L)" for w
    unfolding r(3) tp'_def store_iface_ifaces by (intro sub [THEN trans]) auto
  have lk: "set (lk_ifaces l) \<subseteq> set (map ?r ?L)" if l: "dict_get (tp_links tp') x = Some l" for x l
  proof -
    obtain m where m: "dict_get (tp_links tp) x = Some m" "lk_ifaces l = replace_iface ?i (replace_iface ?j (lk_ifaces m))"
      using l by (auto simp: tp'_def store_iface_rest)
    have "set (lk_ifaces m) \<subseteq> set ?L" using p m(1) by (auto simp: pooled_def links_all_def)
    then show ?thesis unfolding m(2) sub [OF \<open>set (lk_ifaces m) \<subseteq> set ?L\<close>] by auto
  qed
  have nxt: "tp_next_oid tp' = tp_next_oid tp" by (simp add: tp'_def store_iface_rest)
  have oids: "if_oid y < tp_next_oid tp'" if y: "y \<in> set (map ?r ?L)" for y
  proof -
    obtain x where x: "x \<in> set ?L" "y = ?r x" using y by (auto simp only: set_map)
    then show ?thesis using r(4) [OF x(1)] p nxt by (simp add: pooled_def)
  qed
  have "pooled tp'" unfolding pooled_def L' T' links_all_def using r(2) oids ifs' lk by blast
  moreover have "given (insert n D) (map ?r ?L)"
  proof -
    have "if_ipv4 (?r x) \<noteq> []" if x: "x \<in> set ?L" "if_oid (?r x) \<in> insert n D" for x
    proof -
      have "if_oid x \<in> insert n D" using r(4) [OF x(1)] x(2) by simp
      moreover have "if_oid x = n \<Longrightarrow> x = i" using d(2) x(1) i by (metis distinct_map inj_onD)
      ultimately show ?thesis using g x(1) s(3,4) by (auto simp: given_def)
    qed
    then show ?thesis unfolding given_def set_map by blast
  qed
  ultimately show thesis using that [OF step _ k] L' by simp
qed

lemma set_ips_pooled:
  "\<lbrakk>pooled tp; set ns \<subseteq> if_oid ` set (tp_interfaces tp); given D (tp_interfaces tp)\<rbrakk> \<Longrightarrow>
   \<exists>tp'. set_ips_to_nodes ns tp = Inr tp' \<and> pooled tp' \<and> keeps tp tp' \<and> given (set ns \<union> D) (tp_interfaces tp')"
proof (induction ns arbitrary: tp D)
  case (Cons n ns)
  obtain tp1 where s: "set_ips_to_nodes (n # ns) tp = set_ips_to_nodes ns tp1" "pooled tp1" "keeps tp tp1"
    "given (insert n D) (tp_interfaces tp1)"
    using set_ips_step [OF Cons.prems(1) _ Cons.prems(3), of n ns] Cons.prems(2) by auto
  have "if_oid ` set (tp_interfaces tp1) = if_oid ` set (tp_interfaces tp)" using s(3) unfolding keeps_def by (metis list.set_map)
  then obtain tp' where "set_ips_to_nodes ns tp1 = Inr tp'" "pooled tp'" "keeps tp1 tp'" "given (set ns \<union> insert n D) (tp_interfaces tp')"
    using Cons.IH [OF s(2) _ s(4)] Cons.prems(2) by auto
  then show ?case using s(1) keeps_trans [OF s(3)] by auto
qed simp

section \<open>Building without addresses\<close>

definition well_named :: "topology \<Rightarrow> bool" where
  "well_named tp \<longleftrightarrow> topo_ok tp \<and> names_ok tp \<and> links_all (\<lambda>k l. ends_ok tp l) tp"

lemma ends_named:
  assumes w: "well_named tp" and l: "dict_get (tp_links tp) k = Some l"
  defines "T \<equiv> type_of tp" and "s \<equiv> nr_id (lk_source l)" and "t \<equiv> nr_id (lk_target l)"
  shows "get_names l = (end_iface T s t, end_iface T t s)" "known T s" "known T t" "s \<noteq> t"
    "kind_of tp s = Some (lk_source l)" "kind_of tp t = Some (lk_target l)"
proof -
  have n: "nodes_ok tp" "names_ok tp" and e: "ends_ok tp l" using w l by (auto simp: well_named_def topo_ok_def links_all_def)
  then show k: "kind_of tp s = Some (lk_source l)" "kind_of tp t = Some (lk_target l)" "s \<noteq> t"
    by (simp_all add: ends_ok_def s_def t_def)
  have nm: "id13 s" "nr_name (lk_source l) = node_name (T s) (nat s)" "id13 t" "nr_name (lk_target l) = node_name (T t) (nat t)"
    using n(2) k kind_facts(4) [OF n(1)] unfolding names_ok_def T_def by metis+
  then show "get_names l = (end_iface T s t, end_iface T t s)" by (simp add: get_names_def end_iface_def s_def t_def)
  show "known T s" "known T t" using nm kind_facts(3,4) [OF n(1) k(1)] kind_facts(3,4) [OF n(1) k(2)] by (simp_all add: known_def T_def)
qed

text \<open>Links whose interfaces have a name in common join the same two nodes.\<close>

lemma names_key:
  assumes w: "well_named tp" and l: "dict_get (tp_links tp) k = Some l" "dict_get (tp_links tp) k' = Some l'"
    and c: "{fst (get_names l), snd (get_names l)} \<inter> {fst (get_names l'), snd (get_names l')} \<noteq> {}"
  shows "k = k'"
proof -
  note e = ends_named [OF w l(1)] and e' = ends_named [OF w l(2)]
  let ?s = "nr_id (lk_source l)" and ?t = "nr_id (lk_target l)" and ?s' = "nr_id (lk_source l')" and ?t' = "nr_id (lk_target l')"
  have nn: "0 \<le> ?s" "0 \<le> ?t" "0 \<le> ?s'" "0 \<le> ?t'" using e(2,3) e'(2,3) by (simp_all add: known_def)
  from c consider "end_iface (type_of tp) ?s ?t = end_iface (type_of tp) ?s' ?t'" | "end_iface (type_of tp) ?s ?t = end_iface (type_of tp) ?t' ?s'"
    | "end_iface (type_of tp) ?t ?s = end_iface (type_of tp) ?s' ?t'" | "end_iface (type_of tp) ?t ?s = end_iface (type_of tp) ?t' ?s'"
    unfolding e(1) e'(1) fst_conv snd_conv by blast
  then have "?s = ?s' \<and> ?t = ?t' \<or> ?s = ?t' \<and> ?t = ?s'"
  proof cases
    case 1
    then show ?thesis using end_iface_inject [OF 1 nn(1,3,2,4)] by simp
  next
    case 2
    then show ?thesis using end_iface_inject [OF 2 nn(1,4,2,3)] by simp
  next
    case 3
    then show ?thesis using end_iface_inject [OF 3 nn(2,3,1,4)] by simp
  next
    case 4
    then show ?thesis using end_iface_inject [OF 4 nn(2,4,1,3)] by simp
  qed
  then have "lk_source l = lk_source l' \<and> lk_target l = lk_target l' \<or> lk_source l = lk_target l' \<and> lk_target l = lk_source l'"
    using e(5,6) e'(5,6) by (metis option.inject)
  then have "link_key l = link_key l'"
  proof
    assume "lk_source l = lk_target l' \<and> lk_target l = lk_source l'"
    then have "link_key l = build_link_key (nref_end (lk_target l')) (nref_end (lk_source l'))" by (simp add: link_key_def)
    also have "build_link_key a b = build_link_key b a" for a b by (cases a; cases b) (auto simp: build_link_key_def)
    finally show ?thesis by (simp only: link_key_def)
  qed (simp add: link_key_def)
  moreover have "link_key l = Inr k" "link_key l' = Inr k'" using w l by (auto simp: well_named_def topo_ok_def links_all_def)
  ultimately show ?thesis by simp
qed

lemma well_named_core: "\<lbrakk>well_named tp; core tp tp'; kind_of tp' = kind_of tp\<rbrakk> \<Longrightarrow> well_named tp'"
proof -
  assume w: "well_named tp" and c: "core tp tp'" and k: "kind_of tp' = kind_of tp"
  have "ends_ok tp' l" if "ends_ok tp l" for l using that k by (simp add: ends_ok_def)
  moreover have "links_all (\<lambda>k l. ends_ok tp l) tp'"
    by (rule core_links_all [OF c]) (use w in \<open>auto simp: well_named_def link_core_def ends_ok_def\<close>)
  ultimately show ?thesis using core_topo_ok [OF c] w k by (simp add: well_named_def names_ok_def links_all_def)
qed

lemma build_blank:
  assumes w: "well_named tp" and p: "pooled tp" and st: "\<not> nt_status tp" and l: "dict_get (tp_links tp) k = Some l"
    and new: "{fst (get_names l), snd (get_names l)} \<inter> if_name ` set (tp_interfaces tp) = {}"
  obtains tp' i j where "snd (build_interfaces_from_link True k tp) = tp'" "pooled tp'" "\<not> nt_status tp'" "kind_of tp' = kind_of tp"
    "tp_interfaces tp' = tp_interfaces tp @ [i, j]" "if_name i = fst (get_names l)" "if_name j = snd (get_names l)"
    "tp_links tp' = dict_set k (l\<lparr>lk_ifaces := lk_ifaces l @ [i, j]\<rparr>) (tp_links tp)"
proof -
  define T s t where "T = type_of tp" and "s = nr_id (lk_source l)" and "t = nr_id (lk_target l)"
  note e = ends_named [OF w l, folded T_def s_def t_def]
  have ok: "topo_ok tp" using w by (simp add: well_named_def)
  let ?L = "tp_interfaces tp" and ?n = "tp_next_oid tp"
  let ?i = "link_iface ?n (end_iface T s t) (end_iface T t s) l" and ?j = "link_iface (Suc ?n) (end_iface T t s) (end_iface T s t) l"
  let ?tp2 = "update_node (lk_target l) (add_iface ?j) (update_node (lk_source l) (add_iface ?i) tp)"
  let ?l = "l\<lparr>lk_ifaces := lk_ifaces l @ [?i, ?j]\<rparr>"
  define tp' where "tp' = snd (build_interfaces_from_link True k tp)"
  obtain ver where r: "tp' = (set_link k ?l ?tp2)\<lparr>tp_interfaces := ?L @ [?i, ?j], tp_next_oid := ?n + 2, nt_iface_version := ver\<rparr>"
    using l st e(1) by (simp add: tp'_def build_interfaces_from_link_def Let_def)
  have get: "find_node u tp' = (if u = s then map_option (add_iface ?i) (find_node u tp)
      else if u = t then map_option (add_iface ?j) (find_node u tp) else find_node u tp)" for u
    unfolding r find_node_frame by (rule find_both [OF ok e(5,6,4)]) (simp_all add: s_def t_def)
  have k: "kind_of tp' u = kind_of tp u" for u by (rule kind_of_updated [OF get]) (simp_all add: node_ref_def add_iface_def)
  then have T': "type_of tp' = T" by (simp add: T_def type_of_def fun_eq_iff)
  have ifs: "ifaces_of tp' = (ifaces_of tp)(s := ifaces_of tp s @ [?i], t := ifaces_of tp t @ [?j])"
    by (rule ifaces_of_updated [OF get]) (use e in \<open>simp_all add: add_iface_def\<close>)
  have nn: "0 \<le> s" "0 \<le> t" using e(2,3) by (simp_all add: known_def)
  have le: "leads T u ?i \<longleftrightarrow> u = s" "leads T u ?j \<longleftrightarrow> u = t" for u
    using end_iface_inject [of T u _ s t] end_iface_inject [of T u _ t s] nn e(4) by (auto simp: leads_def)
  have pool: "pool T ?L" and old: "\<And>u. ifaces_of tp u = filter (leads T u) ?L" "\<And>x. x \<in> set ?L \<Longrightarrow> if_oid x < ?n"
    using p by (simp_all add: pooled_def T_def)
  have ifs': "ifaces_of tp' u = filter (leads T u) (?L @ [?i, ?j])" for u
    unfolding ifs filter_append using old(1) le e(4) by simp
  have names: "end_iface T s t \<notin> if_name ` set ?L" "end_iface T t s \<notin> if_name ` set ?L" "end_iface T s t \<noteq> end_iface T t s"
    using new e(1,4) end_iface_inject [of T s t t s] nn by auto
  have "mates T s t ?i ?j" by (simp add: mates_def) (simp add: link_iface_def)
  then have "pool T (?L @ [?i, ?j])"
  proof -
    assume m: "mates T s t ?i ?j"
    have "\<exists>u v. known T u \<and> known T v \<and> u \<noteq> v \<and> (\<exists>y \<in> set (?L @ [?i, ?j]). mates T u v x y)" if x: "x \<in> set (?L @ [?i, ?j])" for x
    proof -
      from x consider "x \<in> set ?L" | "x = ?i" | "x = ?j" by auto
      then show ?thesis
      proof cases
        case 1
        then obtain u v y where "known T u" "known T v" "u \<noteq> v" "y \<in> set ?L" "mates T u v x y" using pool unfolding pool_def by blast
        then show ?thesis by auto
      next
        case 2
        then show ?thesis using m e(2-4) by auto
      next
        case 3
        then show ?thesis using mates_flip [OF m] e(2-4) by (intro exI [of _ t] exI [of _ s]) auto
      qed
    qed
    moreover have "distinct (map if_name (?L @ [?i, ?j]))" using pool names by (simp add: pool_def)
    moreover have "distinct (map if_oid (?L @ [?i, ?j]))" using pool old(2) by (fastforce simp: pool_def)
    ultimately show ?thesis unfolding pool_def by blast
  qed
  moreover have "set (lk_ifaces m) \<subseteq> set (?L @ [?i, ?j])" if m: "dict_get (tp_links tp') x = Some m" for x m
  proof -
    have o: "set (lk_ifaces m) \<subseteq> set ?L" if "dict_get (tp_links tp) y = Some m" for y m
      using p that by (auto simp: pooled_def links_all_def)
    show ?thesis using m o [OF l] o [of x m] by (auto simp: r set_link_def split: if_splits)
  qed
  moreover have "\<forall>x \<in> set (?L @ [?i, ?j]). if_oid x < ?n + 2" using old(2) by (auto intro: less_SucI)
  moreover have L': "tp_interfaces tp' = ?L @ [?i, ?j]" "tp_next_oid tp' = ?n + 2" by (simp_all add: r)
  ultimately have "pooled tp'" unfolding pooled_def T' links_all_def L' using ifs' by blast
  moreover have "kind_of tp' = kind_of tp" using k by blast
  ultimately show thesis
    by (intro that [OF tp'_def [symmetric] _ _ _ L'(1)]) (use st in \<open>simp_all add: r set_link_def e(1)\<close>)
qed

definition unbuilt :: "topology \<Rightarrow> string set list \<Rightarrow> bool" where
  "unbuilt tp ks \<longleftrightarrow> distinct ks \<and> (\<forall>k \<in> set ks. \<exists>l. dict_get (tp_links tp) k = Some l \<and>
     {fst (get_names l), snd (get_names l)} \<inter> if_name ` set (tp_interfaces tp) = {})"

lemma build_fold:
  "\<lbrakk>well_named tp; pooled tp; \<not> nt_status tp; unbuilt tp ks\<rbrakk> \<Longrightarrow>
   well_named (foldl (\<lambda>t k. snd (build_interfaces_from_link True k t)) tp ks) \<and>
   pooled (foldl (\<lambda>t k. snd (build_interfaces_from_link True k t)) tp ks)"
proof (induction ks arbitrary: tp)
  case (Cons k ks)
  obtain l where l: "dict_get (tp_links tp) k = Some l" "{fst (get_names l), snd (get_names l)} \<inter> if_name ` set (tp_interfaces tp) = {}"
    using Cons.prems(4) by (auto simp: unbuilt_def)
  obtain tp' i j where b: "snd (build_interfaces_from_link True k tp) = tp'" "pooled tp'" "\<not> nt_status tp'" "kind_of tp' = kind_of tp"
    "tp_interfaces tp' = tp_interfaces tp @ [i, j]" "if_name i = fst (get_names l)" "if_name j = snd (get_names l)"
    "tp_links tp' = dict_set k (l\<lparr>lk_ifaces := lk_ifaces l @ [i, j]\<rparr>) (tp_links tp)"
    by (rule build_blank [OF Cons.prems(1-3) l])
  have w': "well_named tp'" using well_named_core [OF Cons.prems(1) _ b(4)] build_interfaces_core [of tp True k] b(1) by simp
  have "\<exists>m. dict_get (tp_links tp') x = Some m \<and> {fst (get_names m), snd (get_names m)} \<inter> if_name ` set (tp_interfaces tp') = {}"
    if x: "x \<in> set ks" for x
  proof -
    have ne: "x \<noteq> k" using Cons.prems(4) x by (auto simp: unbuilt_def)
    obtain m where m: "dict_get (tp_links tp) x = Some m" "{fst (get_names m), snd (get_names m)} \<inter> if_name ` set (tp_interfaces tp) = {}"
      using Cons.prems(4) x by (auto simp: unbuilt_def)
    have "{fst (get_names m), snd (get_names m)} \<inter> {fst (get_names l), snd (get_names l)} = {}"
      using names_key [OF Cons.prems(1) m(1) l(1)] ne by blast
    moreover have "if_name ` set (tp_interfaces tp') = if_name ` set (tp_interfaces tp) \<union> {fst (get_names l), snd (get_names l)}"
      using b(5-7) by auto
    ultimately show ?thesis using m ne by (auto simp: b(8))
  qed
  then have "unbuilt tp' ks" using Cons.prems(4) by (simp add: unbuilt_def)
  then show ?case using Cons.IH [OF w' b(2,3)] by (simp add: b(1))
qed simp

lemma build_keeps_keys: "dict_keys (nt_sats (foldl (\<lambda>t k. snd (build_interfaces_from_link True k t)) tp ks)) = dict_keys (nt_sats tp) \<and>
  dict_keys (nt_gss (foldl (\<lambda>t k. snd (build_interfaces_from_link True k t)) tp ks)) = dict_keys (nt_gss tp)"
  using fold_evolves [of "\<lambda>k t. snd (build_interfaces_from_link True k t)" tp ks, OF build_evolves] by (simp add: evolves_def)

section \<open>Nodes and loopbacks\<close>

text \<open>Identifiers that fit the address scheme, and no number for both a satellite and a station.\<close>

definition entities_ok :: "sim_entity list \<Rightarrow> sim_entity list \<Rightarrow> bool" where
  "entities_ok sats gss \<longleftrightarrow> (\<forall>e \<in> set (sats @ gss). \<forall>u. se_uid e = Some u \<longrightarrow> id13 u) \<and>
     {u. Some u \<in> se_uid ` set sats} \<inter> {u. Some u \<in> se_uid ` set gss} = {}"

definition bare_nodes :: "string \<Rightarrow> int set \<Rightarrow> (int, node) dict \<Rightarrow> bool" where
  "bare_nodes ty U d \<longleftrightarrow> dict_ok d \<and> (\<forall>k n. dict_get d k = Some n \<longrightarrow> k \<in> U \<and> nd_id n = k \<and> nd_type n = ty \<and>
     nd_name n = node_name ty (nat k) \<and> nd_ifaces n = [])"

lemma sync_entities_bare:
  assumes pfx: "pfx = (if ty = ''GroundStation'' then ''Gnd'' else ''Sat'')"
  shows "\<lbrakk>bare_nodes ty U d; \<forall>e \<in> set es. \<forall>u. se_uid e = Some u \<longrightarrow> id13 u \<and> u \<in> U\<rbrakk> \<Longrightarrow>
    bare_nodes ty U (snd (snd (foldl (sync_entity pfx ty) (n, m, d) es)))"
proof (induction es arbitrary: n m d)
  case (Cons e es)
  have "bare_nodes ty U (snd (snd (sync_entity pfx ty (n, m, d) e)))"
  proof (cases "process_entity pfx ty n e")
    case (Inl x)
    then show ?thesis using Cons.prems(1) by (simp add: sync_entity_def)
  next
    case (Inr nd)
    have "se_uid e \<noteq> None"
    proof
      assume "se_uid e = None"
      moreover have "drop 3 pfx = []" "length pfx = 3" by (simp_all add: pfx)
      moreover have "py_int ''Unknown'' = None" by code_simp
      ultimately show False using Inr by (auto simp: process_entity_def new_node_def parse_int_def elim!: rbind_InrE)
    qed
    then obtain u where u: "se_uid e = Some u" "id13 u" "u \<in> U" using Cons.prems(2) by auto
    have "nd_id nd = u \<and> nd_type nd = ty \<and> nd_name nd = node_name ty (nat u) \<and> nd_ifaces nd = []"
      using Inr u(1,2) dec_int_facts(1) [of u]
      by (auto simp: process_entity_def new_node_def parse_int_def pfx node_name_def dec_int_def elim!: rbind_InrE split: option.splits)
    then show ?thesis using Inr Cons.prems(1) u(3) by (auto simp: sync_entity_def bare_nodes_def split: if_splits)
  qed
  then show ?case using Cons.IH Cons.prems(2) by (cases "sync_entity pfx ty (n, m, d) e") auto
qed simp

definition new_manager :: "topology \<Rightarrow> bool" where
  "new_manager tp \<longleftrightarrow> nt_sats tp = [] \<and> nt_gss tp = [] \<and> tp_links tp = [] \<and> tp_interfaces tp = [] \<and> \<not> nt_status tp"

abbreviation with_nodes :: "sim_entity list \<Rightarrow> sim_entity list \<Rightarrow> topology \<Rightarrow> topology" where
  "with_nodes sats gss tp \<equiv> sync_ground_stations gss (sync_satellites sats tp)"

lemma with_nodes_facts:
  assumes f: "new_manager tp" and e: "entities_ok sats gss"
  defines "tp1 \<equiv> with_nodes sats gss tp"
  shows "well_named tp1" "dicts_ok tp1" "ifaces_of tp1 u = []" "tp_links tp1 = []" "tp_interfaces tp1 = []" "\<not> nt_status tp1"
proof -
  let ?S = "{u. Some u \<in> se_uid ` set sats}" and ?G = "{u. Some u \<in> se_uid ` set gss}"
  have sg: "\<forall>x \<in> set es. \<forall>u. se_uid x = Some u \<longrightarrow> id13 u \<and> u \<in> {u. Some u \<in> se_uid ` set es}" if es: "set es \<subseteq> set (sats @ gss)" for es
  proof (intro ballI allI impI)
    fix x u assume x: "x \<in> set es" "se_uid x = Some u"
    have "x \<in> set (sats @ gss)" using es x(1) by (rule subsetD)
    then have "id13 u" using e x(2) unfolding entities_ok_def by blast
    moreover have "u \<in> {u. Some u \<in> se_uid ` set es}" using x by (metis CollectI image_eqI)
    ultimately show "id13 u \<and> u \<in> {u. Some u \<in> se_uid ` set es}" by blast
  qed
  have s: "\<forall>x \<in> set sats. \<forall>u. se_uid x = Some u \<longrightarrow> id13 u \<and> u \<in> ?S" by (rule sg) simp
  have g: "\<forall>x \<in> set gss. \<forall>u. se_uid x = Some u \<longrightarrow> id13 u \<and> u \<in> ?G" by (rule sg) simp
  have d: "?S \<inter> ?G = {}" using e unfolding entities_ok_def by (rule conjunct2)
  have uid: "id13 u" if "u \<in> ?S \<union> ?G" for u using s g that by force
  have empty: "bare_nodes ty U []" for ty U by (simp add: bare_nodes_def)
  have bs: "bare_nodes ''Satellite'' ?S (nt_sats tp1)"
    using sync_entities_bare [OF _ empty s, of "''Sat''" "''Satellite''" "tp_next_oid tp" 0] f
    by (simp add: tp1_def sync_satellites_def sync_ground_stations_def new_manager_def split_def)
  have bg: "bare_nodes ''GroundStation'' ?G (nt_gss tp1)"
    using sync_entities_bare [OF _ empty g, of "''Gnd''" "''GroundStation''" "tp_next_oid (sync_satellites sats tp)" 0] f
    by (simp add: tp1_def sync_satellites_def sync_ground_stations_def new_manager_def split_def)
  have s1: "k \<in> ?S \<and> nd_id n = k \<and> nd_type n = ''Satellite'' \<and> nd_name n = node_name ''Satellite'' (nat k) \<and> nd_ifaces n = []"
    if "dict_get (nt_sats tp1) k = Some n" for k n using bs that by (simp add: bare_nodes_def)
  have g1: "k \<in> ?G \<and> nd_id n = k \<and> nd_type n = ''GroundStation'' \<and> nd_name n = node_name ''GroundStation'' (nat k) \<and> nd_ifaces n = []"
    if "dict_get (nt_gss tp1) k = Some n" for k n using bg that by (simp add: bare_nodes_def)
  show rest: "tp_links tp1 = []" "tp_interfaces tp1 = []" "\<not> nt_status tp1"
    using f by (simp_all add: tp1_def sync_satellites_def sync_ground_stations_def new_manager_def split_def)
  have found: "(k \<in> ?S \<union> ?G) \<and> nd_id n = k \<and> nd_name n = node_name (nd_type n) (nat k) \<and> nd_ifaces n = []" if "find_node k tp1 = Some n" for k n
    using that s1 [of k n] g1 [of k n] by (cases "dict_get (nt_sats tp1) k") (auto simp: find_node_def)
  show "ifaces_of tp1 u = []" using found [of u] by (cases "find_node u tp1") (auto simp: ifaces_of_def)
  have "dict_get (nt_gss tp1) k = None" if "dict_get (nt_sats tp1) k = Some n" for k n
    using s1 [OF that] g1 [of k] d by (cases "dict_get (nt_gss tp1) k") blast+
  then have "nodes_ok tp1" using s1 g1 by (simp add: nodes_ok_def)
  moreover have "names_ok tp1"
    using found uid by (fastforce simp: names_ok_def kind_of_def node_ref_def)
  ultimately show "well_named tp1" using rest(1) by (simp add: well_named_def topo_ok_def links_all_def)
  show "dicts_ok tp1" using bs bg by (simp add: dicts_ok_def bare_nodes_def)
qed

text \<open>Loopbacks change neither the interfaces nor what a node is.\<close>

lemma add_loopbacks_nodes:
  "add_loopbacks d = Inr (d', los) \<Longrightarrow>
   map (\<lambda>(k, n). (k, node_ref n, nd_ifaces n)) d' = map (\<lambda>(k, n). (k, node_ref n, nd_ifaces n)) d"
proof (induction d arbitrary: d' los)
  case (Cons x d)
  obtain k n where x: "x = (k, n)" by force
  obtain lo p d1 los1 where "add_loopbacks d = Inr (d1, los1)" "d' = (k, n\<lparr>nd_loopback := lo\<rparr>) # d1"
    using Cons.prems by (auto simp: x elim!: rbind_InrE)
  then show ?case using Cons.IH by (simp add: x node_ref_def)
qed simp

lemma same_shape:
  assumes "map (\<lambda>(k, n). (k, node_ref n, nd_ifaces n)) d' = map (\<lambda>(k, n). (k, node_ref n, nd_ifaces n)) d"
  shows "map_option (\<lambda>n. (node_ref n, nd_ifaces n)) (dict_get d' k) = map_option (\<lambda>n. (node_ref n, nd_ifaces n)) (dict_get d k)"
    "dict_keys d' = dict_keys d"
proof -
  have m: "map_option (\<lambda>n. (node_ref n, nd_ifaces n)) (dict_get d k) = dict_get (map (\<lambda>(k, n). (k, node_ref n, nd_ifaces n)) d) k" for d
    by (induction d) auto
  show "map_option (\<lambda>n. (node_ref n, nd_ifaces n)) (dict_get d' k) = map_option (\<lambda>n. (node_ref n, nd_ifaces n)) (dict_get d k)"
    unfolding m assms ..
  have k: "map fst (map (\<lambda>(k, n). (k, node_ref n, nd_ifaces n)) d) = dict_keys d" for d by (simp add: comp_def split_def)
  show "dict_keys d' = dict_keys d" using arg_cong [OF assms, of "map fst"] unfolding k .
qed

lemma loopbacks_keep:
  assumes "add_loopback_interfaces_to_list tp = Inr tp'"
  shows "map_option (\<lambda>n. (node_ref n, nd_ifaces n)) (find_node u tp') = map_option (\<lambda>n. (node_ref n, nd_ifaces n)) (find_node u tp)"
    "tp_links tp' = tp_links tp" "tp_next_oid tp' = tp_next_oid tp" "dicts_ok tp' = dicts_ok tp"
    "nodes_ok tp \<Longrightarrow> nodes_ok tp'"
proof -
  obtain ss ls gs lg where a: "add_loopbacks (nt_sats tp) = Inr (ss, ls)" "add_loopbacks (nt_gss tp) = Inr (gs, lg)"
    "tp' = tp\<lparr>nt_sats := ss, nt_gss := gs, tp_interfaces := tp_interfaces tp @ ls @ lg\<rparr>"
    using assms by (auto simp: add_loopback_interfaces_to_list_def elim!: rbind_InrE)
  note s = same_shape [OF add_loopbacks_nodes [OF a(1)]] and g = same_shape [OF add_loopbacks_nodes [OF a(2)]]
  show "tp_links tp' = tp_links tp" "tp_next_oid tp' = tp_next_oid tp" by (simp_all add: a(3))
  have kind: "node_kind d' = node_kind d" if "\<And>k. map_option (\<lambda>n. (node_ref n, nd_ifaces n)) (dict_get d' k) = map_option (\<lambda>n. (node_ref n, nd_ifaces n)) (dict_get d k)" for d d'
  proof
    fix k show "node_kind d' k = node_kind d k"
      using that [of k] by (cases "dict_get d' k"; cases "dict_get d k") (simp_all add: node_ref_def)
  qed
  show "nodes_ok tp \<Longrightarrow> nodes_ok tp'"
    by (rule nodes_ok_kind [where tp = tp]) (simp_all add: a(3) kind [OF s(1)] kind [OF g(1)] del: dict_get_map)
  show "dicts_ok tp' = dicts_ok tp" using s(2) g(2) by (simp add: a(3) dicts_ok_def)
  show "map_option (\<lambda>n. (node_ref n, nd_ifaces n)) (find_node u tp') = map_option (\<lambda>n. (node_ref n, nd_ifaces n)) (find_node u tp)"
    using s(1) [of u] g(1) [of u]
    by (cases "dict_get (nt_sats tp) u"; cases "dict_get ss u") (simp_all add: a(3) find_node_def)
qed

section \<open>The started network\<close>

lemma pooled_empty:
  assumes "tp_interfaces tp = []" "\<And>u. ifaces_of tp u = []" "links_all (\<lambda>k l. lk_ifaces l = []) tp"
  shows "pooled tp"
  using assms by (simp add: pooled_def pool_def links_all_def)

lemma init_pairing:
  assumes f: "new_manager tp" and e: "entities_ok sats gss"
    and d: "list_all apart data" "list_all (sl_ok (with_nodes sats gss tp)) data"
    and r: "topology_init b km sats gss data tp = Inr tp'"
  shows "pairing (tp'\<lparr>nt_status := True\<rparr>)" "dicts_ok (tp'\<lparr>nt_status := True\<rparr>)"
proof -
  let ?tp1 = "with_nodes sats gss tp"
  note n = with_nodes_facts [OF f e]
  have ok1: "nodes_ok ?tp1" "topo_ok ?tp1" using n(1) by (simp_all add: well_named_def topo_ok_def)
  obtain ch tp2 where s: "sync_links b km False data ?tp1 = (ch, tp2)" by force
  have a: "alike ?tp1 tp2" by (rule sync_links_alike [OF ok1(1) d(1) s])
  note get = sync_links_get [OF s ok1(2) d(2)]
  have nodes: "nt_sats tp2 = nt_sats ?tp1" "nt_gss tp2 = nt_gss ?tp1" "\<not> nt_status tp2" using a n(6) by (simp_all add: alike_def)
  note same = same_nodes [OF nodes(1,2)]
  have "tp_interfaces (others t) = tp_interfaces t" for t by (simp add: others_def)
  then have L: "tp_interfaces tp2 = []" using get(4) n(5) by metis
  have links: "lk_ifaces l = [] \<and> ends_ok tp2 l" if "dict_get (tp_links tp2) k = Some l" for k l
    using a that n(4) unfolding same(5) by (auto simp: alike_def links_all_def inherits_def)
  have w2: "well_named tp2" using get(3) links n(1) same(6) by (simp add: well_named_def links_all_def)
  have p2: "pooled tp2" by (rule pooled_empty [OF L]) (use n(3) same(3) links in \<open>simp_all add: links_all_def\<close>)
  have "unbuilt tp2 (dict_keys (tp_links tp2))"
    using get(3) by (auto simp: unbuilt_def L topo_ok_def dict_get_in)
  note B = build_fold [OF w2 p2 nodes(3) this] and K = build_keeps_keys [of tp2 "dict_keys (tp_links tp2)"]
  define tp3 where "tp3 = assign_interfaces_to_nodes tp2"
  have w3: "well_named tp3" and p3: "pooled tp3" using B by (simp_all add: tp3_def assign_interfaces_to_nodes_def)
  have d3: "dicts_ok tp3" using K n(2) unfolding tp3_def assign_interfaces_to_nodes_def dicts_ok_def nodes(1,2) [symmetric] by metis
  obtain tp4 where t4: "set_ips_to_nodes (map if_oid (tp_interfaces tp3)) tp3 = Inr tp4" "pooled tp4" "keeps tp3 tp4"
    "given (set (map if_oid (tp_interfaces tp3)) \<union> {}) (tp_interfaces tp4)"
    using set_ips_pooled [OF p3, of "map if_oid (tp_interfaces tp3)" "{}"] by (auto simp: given_def)
  have w4: "well_named tp4" using well_named_core [OF w3] t4(3) by (simp add: keeps_def)
  have "set (map if_oid (tp_interfaces tp4)) = set (map if_oid (tp_interfaces tp3))" using t4(3) unfolding keeps_def by metis
  then have c4: "complete (tp_interfaces tp4)" using t4(4) unfolding given_def complete_def by auto
  have S: "store_of tp4 u = map essence (filter (leads (type_of tp4) u) (tp_interfaces tp4))" for u
    using t4(2) by (simp add: store_of_def pooled_def)
  have P4: "paired (type_of tp4) (store_of tp4)" by (rule pool_paired [OF _ c4 S]) (use t4(2) in \<open>simp add: pooled_def\<close>)
  have O4: "oids_ok tp4" by (rule pooled_oids [OF t4(2)])
  have r4: "add_loopback_interfaces_to_list tp4 = Inr tp'" using r s t4(1) by (simp add: topology_init_def tp3_def Let_def)
  note lo = loopbacks_keep [OF r4]
  let ?tp = "tp'\<lparr>nt_status := True\<rparr>"
  have g: "find_node u ?tp = find_node u tp'" for u by (rule find_node_cong) simp_all
  have k: "kind_of ?tp u = kind_of tp4 u" and i: "ifaces_of ?tp u = ifaces_of tp4 u" for u
    using lo(1) [of u] unfolding kind_of_def ifaces_of_def g by (cases "find_node u tp'"; cases "find_node u tp4"; simp)+
  have k': "kind_of ?tp = kind_of tp4" "ifaces_of ?tp = ifaces_of tp4" using k i by blast+
  then have T: "type_of ?tp = type_of tp4" "store_of ?tp = store_of tp4" by (simp_all add: type_of_def store_of_def fun_eq_iff)
  have ends: "ends_ok ?tp = ends_ok tp4" "names_ok ?tp = names_ok tp4" using k' by (simp_all add: ends_ok_def names_ok_def fun_eq_iff)
  have O: "oids_ok ?tp" using O4 unfolding oids_ok_def k' links_all_def by (simp add: lo(2,3))
  have "topo_ok ?tp"
  proof -
    have "nodes_ok tp'" by (rule lo(5)) (use w4 in \<open>simp add: well_named_def topo_ok_def\<close>)
    then have "nodes_ok ?tp" by (simp add: nodes_ok_def)
    then show ?thesis using w4 by (simp add: well_named_def topo_ok_def links_all_def lo(2))
  qed
  then show "pairing ?tp" using w4 P4 O by (simp add: pairing_def well_named_def ends T links_all_def lo(2))
  have "dicts_ok ?tp = dicts_ok tp'" by (simp add: dicts_ok_def)
  then show "dicts_ok ?tp" using lo(4) t4(3) d3 by (simp add: keeps_def)
qed

section \<open>Every running network\<close>

text \<open>
  A network that was started is stepped; a static daemon may be made at any time, builds its maps
  of interfaces when it needs them, and does with its other caches what it likes.
\<close>

inductive running :: "topology \<Rightarrow> static_daemon \<Rightarrow> bool" where
  started: "\<lbrakk>new_manager tp; entities_ok sats gss; list_all apart data; list_all (sl_ok (with_nodes sats gss tp)) data;
    topology_init b km sats gss data tp = Inr tp'\<rbrakk> \<Longrightarrow> running (tp'\<lparr>nt_status := True\<rparr>) new_static_daemon"
| stepped: "\<lbrakk>running tp sd; list_all apart data; list_all (sl_ok tp) data; update_simulation b km adv data tp = (res, tp')\<rbrakk> \<Longrightarrow> running tp' sd"
| new_daemon: "running tp sd \<Longrightarrow> running tp new_static_daemon"
| mapped: "running tp sd \<Longrightarrow> running tp (snd (prebuild_iface_maps (network.truncate tp) sd))"
| routed: "\<lbrakk>running tp sd; sd_iface_version sd' = sd_iface_version sd; sd_iface_cache sd' = sd_iface_cache sd\<rbrakk> \<Longrightarrow> running tp sd'"

lemma new_daemon_cache: "cache_ok new_static_daemon tp"
  by (simp add: cache_ok_def new_static_daemon_def)

lemma running_invariant: "running tp sd \<Longrightarrow> pairing tp \<and> dicts_ok tp \<and> cache_ok sd tp"
proof (induction rule: running.induct)
  case (started tp sats gss data b km tp')
  then show ?case using init_pairing new_daemon_cache by blast
next
  case (stepped tp sd data b km adv res tp')
  have p: "pairing tp" "dicts_ok tp" "cache_ok sd tp" using stepped.IH by blast+
  have p': "pairing tp'" by (rule update_simulation_pairing [OF p(1) stepped.hyps(2-4)])
  have e: "evolves tp tp'" by (rule update_simulation_evolves [OF p(1) stepped.hyps(2-4)])
  show ?case using p' evolves_dicts [OF e] p(2) cache_evolves [OF p(3) e pairingD(2) [OF p(1)] pairingD(2) [OF p'] p(2)] by blast
next
  case (new_daemon tp sd)
  then show ?case using new_daemon_cache by blast
next
  case (mapped tp sd)
  then show ?case using prebuilt_cache by blast
next
  case (routed tp sd sd')
  then show ?case by (simp add: cache_ok_def)
qed

lemma plugged_everywhere: "on_links (\<lambda>_ :: unit. UNIV) (\<lambda>_. ()) nt"
  by (simp add: on_links_def split: option.split)

text \<open>
  \<^bold>\<open>C6.\<close> In a running network the gateways are right. From the construction of the manager and its
  start, through any steps of the simulation, with links found, changed, coming up, going down and
  vanishing: the interfaces come in pairs that know each other's addresses, and the interface map
  that the static daemon builds, or takes from its cache because the version of the interfaces is
  the cached one, gives every node for each neighbour a gateway that this neighbour alone holds.
  Where the kernels have the other ends of their interfaces on link, every gateway can be installed
  on a device that the node has. Relied on are identifiers below 8192, different ones for satellites
  and stations, and links between different nodes of the kinds that the simulation says.
\<close>

theorem gateways_right:
  assumes "running tp sd"
  shows "pairing tp \<and> wired (fst (prebuild_iface_maps (network.truncate tp) sd)) (network.truncate tp) \<and>
    (on_links onlink K (network.truncate tp) \<longrightarrow>
       all_plugged onlink K (fst (prebuild_iface_maps (network.truncate tp) sd)) (network.truncate tp))"
proof -
  have i: "pairing tp" "dicts_ok tp" "cache_ok sd tp" using running_invariant [OF assms] by blast+
  note p = paired_plugged [OF i]
  have "wired (fst (prebuild_iface_maps (network.truncate tp) sd)) (network.truncate tp)"
    by (rule all_plugged_wired [OF p [OF plugged_everywhere]])
  then show ?thesis using i(1) p by blast
qed

text \<open>Three satellites and a link; a step finds a second link.\<close>

definition empty_manager :: topology where
  "empty_manager = demo_topology\<lparr>nt_sats := [], nt_status := False, tp_links := [], tp_initial_sync := False\<rparr>"

definition demo_entity :: "int \<Rightarrow> sim_entity" where
  "demo_entity u = \<lparr>se_uid = Some u, se_position_error = None\<rparr>"

lemma demo_starts: "\<exists>tp. topology_init (\<lambda>_ _ _. None) (\<lambda>_ _. Some 0) [demo_entity 1, demo_entity 2, demo_entity 3] [] [demo_sl 1 2 True] empty_manager = Inr tp
    \<and> nt_gss tp = []"
proof -
  have "case topology_init (\<lambda>_ _ _. None) (\<lambda>_ _. Some 0) [demo_entity 1, demo_entity 2, demo_entity 3] [] [demo_sl 1 2 True] empty_manager of
      Inl _ \<Rightarrow> False | Inr tp \<Rightarrow> nt_gss tp = [] \<and> length (tp_interfaces tp) = 5"
    by code_simp
  then show ?thesis by (auto split: sum.splits)
qed

lemma gateways_right_witness:
  "\<exists>tp sd. topology_init (\<lambda>_ _ _. None) (\<lambda>_ _. Some 0) [demo_entity 1, demo_entity 2, demo_entity 3] [] [demo_sl 1 2 True] empty_manager = Inr tp \<and>
     (let tp' = snd (update_simulation (\<lambda>_ _ _. None) (\<lambda>_ _. Some 0) True [demo_sl 1 2 True, demo_sl 2 3 True] (tp\<lparr>nt_status := True\<rparr>))
      in running tp' sd \<and> pairing tp' \<and> wired (fst (prebuild_iface_maps (network.truncate tp') sd)) (network.truncate tp'))"
proof -
  obtain tp where i: "topology_init (\<lambda>_ _ _. None) (\<lambda>_ _. Some 0) [demo_entity 1, demo_entity 2, demo_entity 3] [] [demo_sl 1 2 True] empty_manager = Inr tp"
    "nt_gss tp = []" using demo_starts by blast
  have sl: "sl_ok t (demo_sl a b c)" if "nt_gss t = []" for t a b c using that by (simp add: sl_ok_def demo_sl_def)
  have ap: "apart (demo_sl 1 2 c)" "apart (demo_sl 2 3 c)" for c by (simp_all add: apart_def demo_sl_def)
  have "new_manager empty_manager" by (simp add: new_manager_def empty_manager_def demo_topology_def)
  moreover have "entities_ok [demo_entity 1, demo_entity 2, demo_entity 3] []" by (simp add: entities_ok_def demo_entity_def)
  moreover have "nt_gss (with_nodes es [] empty_manager) = []" for es
    by (simp add: sync_ground_stations_def sync_satellites_def split_def empty_manager_def demo_topology_def)
  ultimately have r: "running (tp\<lparr>nt_status := True\<rparr>) new_static_daemon"
    using running.started [OF _ _ _ _ i(1)] ap sl by simp
  let ?u = "update_simulation (\<lambda>_ _ _. None) (\<lambda>_ _. Some 0) True [demo_sl 1 2 True, demo_sl 2 3 True] (tp\<lparr>nt_status := True\<rparr>)"
  have r': "running (snd ?u) new_static_daemon"
    using running.stepped [OF r _ _ prod.collapse [symmetric, of ?u]] ap sl i(2) by simp
  note t = gateways_right [OF r', where onlink = "\<lambda>_ :: unit. UNIV" and K = "\<lambda>_. ()"]
  show ?thesis using i(1) r' t unfolding Let_def by blast
qed

text \<open>
  A step before the network is started leaves the links it finds without addresses: their
  interfaces get none, and \<open>_set_ips_to_nodes\<close> is not called again.
\<close>

lemma unstarted_step_unaddressed:
  assumes "\<not> nt_status tp" "dict_get (tp_links tp) k = Some l"
  shows "\<exists>i j l'. dict_get (tp_links (add_link_interfaces k tp)) k = Some l' \<and> lk_ifaces l' = lk_ifaces l @ [i, j] \<and>
    if_ipv4 i = [] \<and> if_ipv4 j = [] \<and> map_option snd (if_peer i) = Some [] \<and> map_option snd (if_peer j) = Some []"
  using assms by (cases "get_names l") (simp add: add_link_interfaces_def build_interfaces_from_link_def Let_def, simp add: link_iface_def)

end
