(* ===== verification/Bridge.thy ===== *)
theory Bridge
  imports Diagnostics
begin

text \<open>
  The bridge between a local terminal and a node, \<open>utils/node_terminal_bridge.py\<close>. Its main thread
  reads the terminal, a second thread reads the stream of the server, the library takes requests from
  the generator, and a signal handler reports new sizes; they share a queue and an event. Each of them
  is a set of steps; a run is a sequence of steps in any order that the states allow.

  Whether a call of the operating system or of gRPC succeeds is an argument. Bytes are characters. A step
  is atomic: a signal that interrupts the main thread inside \<open>put\<close> is not modelled.
\<close>

section \<open>State\<close>

text \<open>Where the main thread is: at the test of its loop, inside the loop, waiting for the other thread,
  or past the \<open>finally\<close> block; where the receiver is: in its loop, after setting the event, or at its end.\<close>

datatype main_point = AtTest | AtSelect | AtJoin | Left

datatype recv_point = Receiving | DoneSet | RecvEnded

record bridge =
  br_main :: main_point
  br_recv :: recv_point
  br_done :: bool
  br_raw :: bool
  br_open :: bool
  br_output :: "string list"
  br_term :: terminal

definition enqueue :: "term_msg option \<Rightarrow> bridge \<Rightarrow> bridge" where
  "enqueue m b = b\<lparr>br_term := (br_term b)\<lparr>te_queue := te_queue (br_term b) @ [m]\<rparr>\<rparr>"

text \<open>\<open>dims\<close> is what the terminal answers when it is asked for its size, if it does.\<close>

definition send_resize :: "(int \<times> int) option \<Rightarrow> bridge \<Rightarrow> bridge" where
  "send_resize dims b = (case dims of None \<Rightarrow> b | Some (h, w) \<Rightarrow> enqueue (Some (TermResize w h)) b)"

section \<open>Start\<close>

definition first_bridge :: bridge where
  "first_bridge = \<lparr>br_main = AtTest, br_recv = Receiving, br_done = False, br_raw = True, br_open = True, br_output = [],
     br_term = new_terminal\<rparr>"

text \<open>Usage is shown and the process exits with 1; a failure is logged, with the terminal in the mode
  given; otherwise the threads run.\<close>

datatype bridge_start = Usage | Failure bool | Session bridge

definition bridge_main :: "string list \<Rightarrow> bool \<Rightarrow> bool \<Rightarrow> bool \<Rightarrow> bool \<Rightarrow> (int \<times> int) option \<Rightarrow> bridge_start" where
  "bridge_main argv connects is_tty restores executes dims =
    (if length argv \<noteq> 4 then Usage
     else if \<not> connects \<or> \<not> is_tty then Failure False
     else if \<not> executes then Failure (\<not> restores)
     else Session (send_resize dims first_bridge))"

section \<open>Steps\<close>

datatype bridge_event = Test | Idle | Typed string | InputEnds | Resized "(int \<times> int) option"
  | Response srv_code string | StreamEnds | PutEnd | Request | Leave bool

definition main_step :: "bridge_event \<Rightarrow> bridge \<Rightarrow> bridge option" where
  "main_step e b = (case (br_main b, e) of
     (AtTest, Test) \<Rightarrow> Some (b\<lparr>br_main := if br_done b then AtJoin else AtSelect\<rparr>)
   | (AtSelect, Idle) \<Rightarrow> Some (b\<lparr>br_main := AtTest\<rparr>)
   | (AtSelect, Typed d) \<Rightarrow> if d = [] then None else Some (enqueue (Some (TermData d)) (b\<lparr>br_main := AtTest\<rparr>))
   | (AtSelect, InputEnds) \<Rightarrow> Some (b\<lparr>br_main := AtJoin\<rparr>)
   | (AtJoin, Leave restores) \<Rightarrow> Some (b\<lparr>br_main := Left, br_raw := \<not> restores, br_open := False\<rparr>)
   | _ \<Rightarrow> None)"

text \<open>Responses other than the four known ones are passed over.\<close>

definition recv_step :: "bridge_event \<Rightarrow> bridge \<Rightarrow> bridge option" where
  "recv_step e b = (case (br_recv b, e) of
     (Receiving, Response c d) \<Rightarrow>
       Some (if c = SrvStdout \<or> c = SrvStderr then b\<lparr>br_output := br_output b @ [d]\<rparr>
         else if c = SrvError \<or> c = SrvClose then b\<lparr>br_recv := DoneSet, br_done := True\<rparr> else b)
   | (Receiving, StreamEnds) \<Rightarrow> Some (b\<lparr>br_recv := DoneSet, br_done := True\<rparr>)
   | (DoneSet, PutEnd) \<Rightarrow> Some (enqueue None (b\<lparr>br_recv := RecvEnded\<rparr>))
   | _ \<Rightarrow> None)"

definition request_step :: "bridge \<Rightarrow> bridge option" where
  "request_step b = (if \<not> br_open b then None else map_option (\<lambda>t. b\<lparr>br_term := t\<rparr>) (generator_step (br_term b)))"

definition bridge_step :: "bridge_event \<Rightarrow> bridge \<Rightarrow> bridge option" where
  "bridge_step e b = (case e of
     Resized dims \<Rightarrow> if br_main b = Left then None else Some (send_resize dims b)
   | Request \<Rightarrow> request_step b
   | Response _ _ \<Rightarrow> recv_step e b | StreamEnds \<Rightarrow> recv_step e b | PutEnd \<Rightarrow> recv_step e b
   | _ \<Rightarrow> main_step e b)"

fun bridge_run :: "bridge_event list \<Rightarrow> bridge \<Rightarrow> bridge option" where
  "bridge_run [] b = Some b"
| "bridge_run (e # es) b = (case bridge_step e b of None \<Rightarrow> None | Some b1 \<Rightarrow> bridge_run es b1)"

section \<open>Facts\<close>

text \<open>What the events bring up to the first one of a kind.\<close>

definition up_to :: "('e \<Rightarrow> bool) \<Rightarrow> ('e \<Rightarrow> 'a list) \<Rightarrow> 'e list \<Rightarrow> 'a list" where
  "up_to P f es = concat (map f (takeWhile (\<lambda>e. \<not> P e) es))"

lemma up_to_snoc: "up_to P f (es @ [e]) = (if list_ex P es \<or> P e then up_to P f es else up_to P f es @ f e)"
  by (induction es) (auto simp: up_to_def)

fun input_msgs :: "bridge_event \<Rightarrow> term_msg list" where
  "input_msgs (Typed d) = [TermData d]"
| "input_msgs (Resized (Some (h, w))) = [TermResize w h]"
| "input_msgs _ = []"

fun stream_over :: "bridge_event \<Rightarrow> bool" where
  "stream_over (Response c d) = (c = SrvError \<or> c = SrvClose)"
| "stream_over StreamEnds = True"
| "stream_over _ = False"

fun output_of :: "bridge_event \<Rightarrow> string list" where
  "output_of (Response c d) = (if c = SrvStdout \<or> c = SrvStderr then [d] else [])"
| "output_of _ = []"

lemma over_silent: "stream_over e \<Longrightarrow> output_of e = []"
  by (cases e) auto

definition is_end :: "bridge_event \<Rightarrow> bool" where
  "is_end e = (e = PutEnd)"

text \<open>The input of a session: its first size, then keys and sizes until the receiver ends it.\<close>

definition session_input :: "(int \<times> int) option \<Rightarrow> bridge_event list \<Rightarrow> term_msg list" where
  "session_input dims es = input_msgs (Resized dims) @ up_to is_end input_msgs es"

text \<open>Queue and generator: the input not yet sent is in the queue, and behind the end marker, if it was
  put, only what came too late.\<close>

definition queue_inv :: "bool \<Rightarrow> term_msg list \<Rightarrow> terminal \<Rightarrow> bool" where
  "queue_inv p input t \<longleftrightarrow> (te_ended t \<longrightarrow> te_started t \<and> p) \<and>
     (\<exists>ms late. te_queue t = map Some ms @ (if te_ended t then map Some late else if p then None # map Some late else []) \<and>
        (te_ended t \<longrightarrow> ms = []) \<and>
        (if te_started t then te_yielded t @ ms = TermCmd # input else te_yielded t = [] \<and> ms = input))"

lemma queue_inv_put:
  assumes "queue_inv p input t"
  shows "queue_inv p (if p then input else input @ xs) (t\<lparr>te_queue := te_queue t @ map Some xs\<rparr>)"
proof -
  from assms obtain ms late where m: "te_queue t = map Some ms @ (if te_ended t then map Some late else if p then None # map Some late else [])"
    "te_ended t \<longrightarrow> ms = [] \<and> te_started t \<and> p"
    "if te_started t then te_yielded t @ ms = TermCmd # input else te_yielded t = [] \<and> ms = input"
    by (auto simp: queue_inv_def)
  show ?thesis
  proof (cases p)
    case True
    then show ?thesis using m unfolding queue_inv_def by (intro conjI exI [of _ ms] exI [of _ "late @ xs"]) auto
  next
    case False
    then show ?thesis using m unfolding queue_inv_def by (intro conjI exI [of _ "ms @ xs"] exI [of _ late]) auto
  qed
qed

lemma queue_inv_end: "queue_inv False input t \<Longrightarrow> queue_inv True input (t\<lparr>te_queue := te_queue t @ [None]\<rparr>)"
proof -
  assume "queue_inv False input t"
  then obtain ms where m: "te_queue t = map Some ms" "\<not> te_ended t"
    "if te_started t then te_yielded t @ ms = TermCmd # input else te_yielded t = [] \<and> ms = input"
    by (auto simp: queue_inv_def)
  then show ?thesis unfolding queue_inv_def by (intro conjI exI [of _ ms] exI [of _ "[]"]) auto
qed

lemma queue_inv_generator:
  assumes "queue_inv p input t" "generator_step t = Some t'"
  shows "queue_inv p input t'"
proof -
  from assms(1) obtain ms late where m: "te_queue t = map Some ms @ (if te_ended t then map Some late else if p then None # map Some late else [])"
    "te_ended t \<longrightarrow> ms = [] \<and> te_started t \<and> p"
    "if te_started t then te_yielded t @ ms = TermCmd # input else te_yielded t = [] \<and> ms = input"
    by (auto simp: queue_inv_def)
  have live: "\<not> te_ended t" using assms(2) by (auto simp: generator_step_def split: if_splits)
  show ?thesis
  proof (cases "te_started t")
    case False
    then have "t' = t\<lparr>te_started := True, te_yielded := [TermCmd]\<rparr>" using assms(2) live by (simp add: generator_step_def)
    then show ?thesis using m live False unfolding queue_inv_def by (intro conjI exI [of _ ms] exI [of _ late]) auto
  next
    case True
    show ?thesis
    proof (cases ms)
      case Nil
      then have "p" "t' = t\<lparr>te_queue := map Some late, te_ended := True\<rparr>"
        using assms(2) live True m(1) by (auto simp: generator_step_def split: if_splits)
      then show ?thesis using m live True Nil unfolding queue_inv_def by (intro conjI exI [of _ "[]"] exI [of _ late]) auto
    next
      case (Cons x xs)
      then have "t' = t\<lparr>te_queue := map Some xs @ (if p then None # map Some late else []), te_yielded := te_yielded t @ [x]\<rparr>"
        using assms(2) live True m(1) by (simp add: generator_step_def)
      then show ?thesis using m live True Cons unfolding queue_inv_def by (intro conjI exI [of _ xs] exI [of _ late]) auto
    qed
  qed
qed

text \<open>What a step does to the queue.\<close>

lemma step_queue:
  assumes "bridge_step e b = Some b'"
  shows "if e = Request then generator_step (br_term b) = Some (br_term b')
    else br_term b' = (br_term b)\<lparr>te_queue := te_queue (br_term b) @ (if is_end e then [None] else map Some (input_msgs e))\<rparr>"
  using assms
  by (cases e) (auto simp: bridge_step_def main_step_def recv_step_def request_step_def send_resize_def enqueue_def is_end_def
      split: main_point.splits recv_point.splits if_splits option.splits)

definition bridge_inv :: "(int \<times> int) option \<Rightarrow> bridge_event list \<Rightarrow> bridge \<Rightarrow> bool" where
  "bridge_inv dims es b \<longleftrightarrow> br_output b = up_to stream_over output_of es \<and> br_done b = list_ex stream_over es \<and>
     br_recv b = (if list_ex is_end es then RecvEnded else if list_ex stream_over es then DoneSet else Receiving) \<and>
     (list_ex is_end es \<longrightarrow> list_ex stream_over es) \<and> queue_inv (list_ex is_end es) (session_input dims es) (br_term b)"

lemma bridge_inv_first: "bridge_inv dims [] (send_resize dims first_bridge)"
  by (cases dims) (auto simp: bridge_inv_def queue_inv_def send_resize_def enqueue_def first_bridge_def new_terminal_def session_input_def up_to_def)

lemma step_control:
  assumes "bridge_step e b = Some b'"
  shows "br_output b' = (if br_recv b = Receiving then br_output b @ output_of e else br_output b)"
    and "br_done b' = (br_done b \<or> br_recv b = Receiving \<and> stream_over e)"
    and "br_recv b' = (if br_recv b = Receiving \<and> stream_over e then DoneSet else if br_recv b = DoneSet \<and> is_end e then RecvEnded else br_recv b)"
    and "stream_over e \<longrightarrow> br_recv b = Receiving" "is_end e \<longrightarrow> br_recv b = DoneSet" "output_of e \<noteq> [] \<longrightarrow> br_recv b = Receiving"
  using assms
  by (cases e; auto simp: bridge_step_def main_step_def recv_step_def request_step_def send_resize_def enqueue_def is_end_def
      split: main_point.splits recv_point.splits if_splits option.splits)+

lemma bridge_inv_step:
  assumes "bridge_inv dims es b" "bridge_step e b = Some b'"
  shows "bridge_inv dims (es @ [e]) b'"
proof -
  note c = step_control [OF assms(2)]
  have q: "queue_inv (list_ex is_end es) (session_input dims es) (br_term b)" using assms(1) by (simp add: bridge_inv_def)
  have "queue_inv (list_ex is_end (es @ [e])) (session_input dims (es @ [e])) (br_term b')"
  proof -
    consider "e = Request" | "is_end e" | "e \<noteq> Request" "\<not> is_end e" by blast
    then show ?thesis
    proof cases
      case 1
      then show ?thesis using queue_inv_generator [OF q] step_queue [OF assms(2)] by (cases "list_ex is_end es") (simp_all add: session_input_def up_to_snoc is_end_def)
    next
      case 2
      then have "\<not> list_ex is_end es" using c(5) assms(1) by (auto simp: bridge_inv_def split: if_splits)
      then show ?thesis using 2 q step_queue [OF assms(2)] queue_inv_end by (auto simp: session_input_def up_to_snoc is_end_def)
    next
      case 3
      then show ?thesis using queue_inv_put [OF q, of "input_msgs e"] step_queue [OF assms(2)]
        by (simp add: session_input_def up_to_snoc split: if_splits)
    qed
  qed
  then show ?thesis using assms(1) c over_silent [of e] by (auto simp: bridge_inv_def up_to_snoc split: if_splits)
qed

lemma bridge_run_snoc: "bridge_run (es @ [e]) b = (case bridge_run es b of None \<Rightarrow> None | Some b1 \<Rightarrow> bridge_step e b1)"
  by (induction es b rule: bridge_run.induct) (auto split: option.splits)

lemma bridge_run_append: "bridge_run (es @ fs) b = (case bridge_run es b of None \<Rightarrow> None | Some b1 \<Rightarrow> bridge_run fs b1)"
  by (induction es b rule: bridge_run.induct) (auto split: option.splits)

lemma bridge_reachable: "bridge_run es (send_resize dims first_bridge) = Some b \<Longrightarrow> bridge_inv dims es b"
proof (induction es arbitrary: b rule: rev_induct)
  case Nil
  then show ?case using bridge_inv_first [of dims] by simp
next
  case (snoc e es)
  then show ?case by (auto simp: bridge_run_snoc intro: bridge_inv_step split: option.splits)
qed

text \<open>
  \<^bold>\<open>C39.\<close> However the threads interleave, the bridge relays: the terminal shows what the node
  printed, in order, up to the response that ends the session; the node receives a prefix of the
  command, the first size and then keys and sizes in their order up to the end of the session, and the
  stream of requests ends only when all of them are sent.
\<close>

theorem bridge_relays:
  assumes "bridge_run es (send_resize dims first_bridge) = Some b"
  shows "br_output b = up_to stream_over output_of es
    \<and> (te_started (br_term b) \<longrightarrow> (\<exists>pending. te_yielded (br_term b) @ pending = TermCmd # session_input dims es))
    \<and> (te_ended (br_term b) \<longrightarrow> te_yielded (br_term b) = TermCmd # session_input dims es)"
  using bridge_reachable [OF assms] by (auto simp: bridge_inv_def queue_inv_def)

text \<open>The mode of the terminal and the channel, and what the main thread can do.\<close>

definition tty_inv :: "bridge_event list \<Rightarrow> bridge \<Rightarrow> bool" where
  "tty_inv es b \<longleftrightarrow> (if br_main b = Left then br_raw b = (Leave False \<in> set es) \<and> \<not> br_open b
     else br_raw b \<and> br_open b \<and> Leave False \<notin> set es \<and> Leave True \<notin> set es)"

lemma tty_inv_step:
  assumes "tty_inv es b" "bridge_step e b = Some b'"
  shows "tty_inv (es @ [e]) b'"
  using assms
  by (cases e) (auto simp: tty_inv_def bridge_step_def main_step_def recv_step_def request_step_def send_resize_def enqueue_def
      split: main_point.splits recv_point.splits if_splits option.splits)

lemma tty_reachable: "bridge_run es (send_resize dims first_bridge) = Some b \<Longrightarrow> tty_inv es b"
proof (induction es arbitrary: b rule: rev_induct)
  case Nil
  then show ?case by (auto simp: tty_inv_def send_resize_def enqueue_def first_bridge_def split: option.splits)
next
  case (snoc e es)
  then show ?case by (auto simp: bridge_run_snoc intro: tty_inv_step split: option.splits)
qed

definition main_event :: "bridge_event \<Rightarrow> bool" where
  "main_event e = (case e of Test \<Rightarrow> True | Idle \<Rightarrow> True | Typed _ \<Rightarrow> True | InputEnds \<Rightarrow> True | Leave _ \<Rightarrow> True | _ \<Rightarrow> False)"

fun steps_left :: "main_point \<Rightarrow> nat" where
  "steps_left AtSelect = 3"
| "steps_left AtTest = 2"
| "steps_left AtJoin = 1"
| "steps_left Left = 0"

lemma done_step:
  assumes "br_done b" "bridge_step e b = Some b'"
  shows "br_done b'" "steps_left (br_main b') + (if main_event e then 1 else 0) \<le> steps_left (br_main b)"
  using assms
  by (cases e; auto simp: main_event_def bridge_step_def main_step_def recv_step_def request_step_def send_resize_def enqueue_def
      split: main_point.splits recv_point.splits if_splits option.splits)+

lemma done_run: "bridge_run fs b = Some b' \<Longrightarrow> br_done b \<Longrightarrow> br_done b' \<and> steps_left (br_main b') + length (filter main_event fs) \<le> steps_left (br_main b)"
proof (induction fs arbitrary: b)
  case (Cons e fs)
  then obtain b1 where "bridge_step e b = Some b1" "bridge_run fs b1 = Some b'" by (auto split: option.splits)
  with Cons.IH [of b1] Cons.prems(2) done_step [of b e b1] show ?case by auto
qed simp

lemma main_enabled: "br_main b \<noteq> Left \<Longrightarrow> \<exists>e. main_event e \<and> bridge_step e b \<noteq> None"
proof (cases "br_main b")
  case AtTest
  then show ?thesis by (intro exI [of _ Test]) (simp add: main_event_def bridge_step_def main_step_def)
next
  case AtSelect
  then show ?thesis by (intro exI [of _ Idle]) (simp add: main_event_def bridge_step_def main_step_def)
next
  case AtJoin
  then show ?thesis by (intro exI [of _ "Leave True"]) (simp add: main_event_def bridge_step_def main_step_def)
qed simp


text \<open>A key, an answer and the end of the shell.\<close>

definition demo_session :: "bridge_event list" where
  "demo_session = [Request, Test, Request, Typed ''l'', Request, Response SrvStdout ''file'', Test, Response SrvClose [], Idle, PutEnd]"

lemma bridge_relays_witness:
  "\<exists>b. bridge_run demo_session (send_resize (Some (24, 80)) first_bridge) = Some b \<and> br_output b = [''file'']
    \<and> (\<exists>pending. te_yielded (br_term b) @ pending = [TermCmd, TermResize 80 24, TermData ''l''])"
proof -
  obtain b where b: "bridge_run demo_session (send_resize (Some (24, 80)) first_bridge) = Some b" "te_started (br_term b)"
    by (auto simp: demo_session_def bridge_step_def main_step_def recv_step_def request_step_def send_resize_def enqueue_def first_bridge_def
        new_terminal_def generator_step_def)
  have "up_to stream_over output_of demo_session = [''file'']" "session_input (Some (24, 80)) demo_session = [TermResize 80 24, TermData ''l'']"
    by (simp_all add: up_to_def session_input_def demo_session_def is_end_def)
  with b bridge_relays [OF b(1)] show ?thesis by auto
qed


end
