(* ===== verification/Spec2Isabelle.thy ===== *)
theory Spec2Isabelle
  imports Static_Facts SR_Facts HIL_Facts Parse_Facts Sched_Facts Manager_Facts Budget_Facts Bird_Facts
    Strategy_Facts Coverage_Facts Project_Facts Setup_Facts Saved_State_Facts Report_Facts QoS
    Diagnostic_Facts Runtime Startup Bridge
begin

text \<open>
  \<^bold>\<open>SatGoNetem\<close> emulates a satellite network: a simulation library moves the satellites
  and decides which links exist, and SatGoNetem mirrors it as containers, virtual wires and
  kernel routes. This development models the Python package \<open>src/satgonetem\<close>; source paths
  below are relative to it.

  \<^bold>\<open>How the program works.\<close> The class \<open>TopologyManager\<close> (\<open>services/topology_satcom.py\<close> and
  the mixins of \<open>services/mixins\<close>) owns satellites, ground stations and links. A simulation
  step (\<open>update_simulation\<close>) advances the simulation, synchronises the dictionary of links with
  it, lets the launcher and the hardware-in-the-loop manager change the emulated links, deletions
  first, and tells the routing daemon about new links. Capacities of ground links can come from a
  link budget. Flows of ping, hping3 and iperf3 run in threads, one by one or under a scheduler.

  \<^bold>\<open>Theories.\<close> Each model theory is followed by its facts.

  \<^item> \<open>Sat_Prelude\<close>: Python exceptions as values of \<open>'a result\<close>, ordered dictionaries, integers
    and strings as Python prints and parses them, and the lemmas about them that all others share.
  \<^item> \<open>IP_Utils\<close>: \<open>utils/ip_utils.py\<close> and the controller addresses. Its lemmas give the
    bits of a generated address, from which injectivity, pairing and summaries follow.
  \<^item> \<open>Net_Models\<close>: interfaces, routes, MPLS entries and nodes of \<open>models/\<close>. An object that
    the code compares by identity carries a number \<open>if_oid\<close>.
  \<^item> \<open>Static_Routing\<close>, \<open>Static_Facts\<close>: \<open>routing/static_daemon.py\<close>. The tables after
    populating, the soundness of reusing cached routes, and the batch of \<open>ip route\<close> commands
    against a kernel table (refinement). \<open>Static_Delivery\<close> adds the graph: packets forwarded by
    these tables arrive, along shortest paths. \<open>Kernel_Delivery\<close> composes all of it: the batches of
    \<open>init\<close> and \<open>update\<close> go through a shell as Base64 into kernels (locale \<open>container_kernel\<close>), which are
    then in step with the tables and deliver packets.
  \<^item> \<open>SR_MPLS\<close>, \<open>SR_Facts\<close>: \<open>routing/srmpls_daemon.py\<close>. Label allocation, label stacks,
    forwarding entries; delivery of a packet along exactly the chosen path.
  \<^item> \<open>Bird_Daemons\<close>, \<open>Bird_Facts\<close>: \<open>routing/ospf_daemon.py\<close>, \<open>routing/isis_sr_bird_daemon.py\<close>,
    \<open>routing/p4_daemon.py\<close> and \<open>utils/graph_shared_memory.py\<close>. Configurations, what reaches a
    container through Base64, which configuration a node runs, and the shared memory.
  \<^item> \<open>Topology\<close>, \<open>Topology_Facts\<close>: \<open>models/link.py\<close>, \<open>topology_sync.py\<close>, \<open>link_ops.py\<close> and
    \<open>interface_mgr.py\<close>. The dictionary mirrors the simulation after every step, delays and
    capacities are current, and the interfaces of a link are addressed in pairs. \<open>Pairing\<close> shows
    that every operation on links, and so every step, keeps the interfaces of the whole network in
    pairs; \<open>Wiring\<close> derives the gateways that \<open>Kernel_Delivery\<close> relies on, also from the daemon's
    cache; \<open>Startup\<close> shows that \<open>init\<close> makes the pairs and concludes for every running network.
  \<^item> \<open>Link_Budget\<close>, \<open>Budget_Facts\<close>: \<open>link_budget/\<close> over the real numbers and its use by
    links. The chosen code, the Shannon bound, the agreement of the three calculations, the
    errors, the geometry of the horizon.
  \<^item> \<open>Launchers\<close>, \<open>Launch_Facts\<close>: \<open>launchers/gonetem_launcher.py\<close>. The project file, link
    requests, the connection and what is left after a failed start.
  \<^item> \<open>HIL\<close>, \<open>HIL_Facts\<close>: \<open>launchers/hil_manager.py\<close> and the dispatch of link operations.
    Bookkeeping for every kernel, wiring for a kernel with the laws of the locale \<open>linux_host\<close>.
  \<^item> \<open>Containers\<close>, \<open>Traffic\<close>, \<open>Parse_Facts\<close>: command execution of \<open>models/node.py\<close>, the
    commands and parsers of \<open>traffic/\<close>; what ping prints is read back exactly.
  \<^item> \<open>Flows\<close>, \<open>Scheduler\<close>, \<open>Flow_Facts\<close>, \<open>Sched_Facts\<close>: the life cycle of a flow as a
    step relation, with the locale \<open>flow_tool\<close> that ping and hping3 implement, and
    \<open>traffic/flow_scheduler.py\<close>: times of submission, counters, outcomes.
  \<^item> \<open>Manager\<close>, \<open>Manager_Facts\<close>: configuration, saved files, the graph of the daemons, the
    controller plane, and the state machine of network, loop and routing with its invariant.
  \<^item> \<open>Strategies\<close>, \<open>Strategy_Facts\<close>: \<open>utils/custom_connection_strategies.py\<close>. The search for
    the time of disconnection returns and is exact to a millisecond, the closed form finds the first
    exit from the cone, and the choice of satellites is a maximal one by weight.
  \<^item> \<open>Orbits\<close>, \<open>Orbit_Facts\<close>, \<open>Coverage_Facts\<close>: two-line element sets, distances and positions
    (\<open>utils/utils.py\<close>), the patches of \<open>utils/satcom_fix.py\<close> and the polygons of
    \<open>utils/coverage.py\<close>, over the real numbers: formats, geometry of the cap, caching.
  \<^item> \<open>Projects\<close>, \<open>Project_Facts\<close>, \<open>Setup_Facts\<close>: \<open>utils/project_builder.py\<close>: satellites
    are grouped into planes, planes are linked in rings and meshes, dates and stations are read.
  \<^item> \<open>Saved_State\<close>, \<open>Saved_State_Facts\<close>: \<open>to_file\<close> and \<open>from_file\<close> with the state of a
    simulation that was built by hand. The laws of the simulation library that a restored state
    relies on are the locale \<open>simulation_library\<close>, which lists of satellites and stations satisfy.
  \<^item> \<open>Reports\<close>, \<open>Report_Facts\<close>: the metrics that \<open>traffic/iperf3_utils.py\<close> takes from JSON, the
    JSON forms of results, statistics and file names of plots, and \<open>traffic/iperf2_utils.py\<close>.
  \<^item> \<open>QoS\<close>: the token bucket of \<open>models/mixins/qos_mixin.py\<close>, from the text of \<open>tc\<close> to the
    command that changes it.
  \<^item> \<open>Diagnostics\<close>, \<open>Diagnostic_Facts\<close>: \<open>services/mixins/diagnostics.py\<close>. The stream of a
    terminal as a step relation, the usage of links, captures and commands on a node. \<open>Bridge\<close> is
    the other end of a terminal, \<open>utils/node_terminal_bridge.py\<close>: its threads interleave freely.
  \<^item> \<open>Runtime\<close>: namespaces and positions (\<open>models/node.py\<close>, \<open>models/satellite.py\<close>), detection of
    changes, time steps, paths and the connectivity test.

  \<^bold>\<open>Conventions.\<close> Definitions keep the names of the source where HOL has none of its own;
  state is a record that is passed and returned; an exception is \<open>Inl\<close> of a \<open>pyerr\<close>, whose
  text is kept only where the code looks at it. A Python dictionary is an association list in
  insertion order (\<open>dict\<close>), an integer is \<open>int\<close>, a float is a rational or real number, so that
  rounding of floats is outside the model; \<open>round\<close> is a parameter where it matters. The code
  is modelled without fuel: recursion is structural but for the two loops of the search for the time of
  disconnection.
  The first of them, \<open>raise_upper_bound\<close>, is a \<open>partial_function\<close> whose \<open>None\<close> is divergence,
  and it is proved to return; \<open>bisect_time\<close> halves its interval, which is its measure.
  The specification \<open>travel\<close> of a packet has one step per node as fuel, and
  \<open>tables_deliver\<close> shows that it is enough. The
  simulation loop, the threads of flows and the workers of the scheduler are step relations.

  \<^bold>\<open>Parameters.\<close> What is not in the repository is an argument: the simulation library (its
  objects, links, times and distances), the propagator \<open>sgp4\<close>, Astropy, the clock, shortest paths
  (\<open>networkx\<close>, \<open>igraph\<close>), the GoNetem server, Docker, the kernel behind \<open>ip\<close>, \<open>tc\<close>, \<open>setns\<close> and
  netlink, Bird, the P4 controller, \<open>numpy\<close>, the parser of JSON, hashing and the ITU-R model.
  Where a property relies on such a part, the reliance is a hypothesis or a locale, with a
  concrete instance in its witness or interpretation. Thread pools run their jobs in submission
  order unless the interleaving is the subject of the theorem.

  \<^bold>\<open>Not modelled.\<close> The generated gRPC code (\<open>proto/\<close>); what plots draw and what summaries
  print (\<open>traffic/\<close>); the field declarations
  of \<open>models/sat_com_models.py\<close>, which have no operations; package files and constants. They are
  input, output or declarations, without decisions of their own.
\<close>

end
